(* ===== verification/Prelude.thy ===== *)
theory Prelude
  imports Main "HOL-Library.Word" "HOL-Library.Multiset" "HOL-Library.AList"
begin

text \<open>
  What every theory of the development shares: the numbers of the wire types as words, the
  exceptions of JavaScript as values of a sum type with its sequencing, decimal printing and
  parsing of naturals, JavaScript maps and objects as insertion-ordered association lists, and
  facts about swapping list elements.
\<close>

section \<open>Collections of facts\<close>

named_theorems js_run \<open>unfolds the sequencing of fallible steps\<close>

section \<open>Numbers\<close>

text \<open>The unsigned integers of the codec types; \<open>toNumber\<close> reads one as JavaScript does.\<close>

type_synonym u8 = "8 word"
type_synonym u16 = "16 word"
type_synonym u32 = "32 word"
type_synonym u64 = "64 word"

abbreviation toNumber :: "'a::len word \<Rightarrow> nat" where
  "toNumber w \<equiv> unat w"

section \<open>Exceptions\<close>

text \<open>
  \<open>JsError m\<close> is \<open>throw new Error(m)\<close>; \<open>JsTypeError\<close> is what the engine raises when a
  property of \<open>undefined\<close> or \<open>null\<close> is read (and what polkadot-js raises on \<open>unwrap\<close> of
  an empty option); \<open>JsRangeError\<close> is an argument a library function refuses;
  \<open>WasmTrap\<close> is the panic of a WebAssembly module.
\<close>

datatype js_error = JsError string | JsTypeError | JsRangeError | WasmTrap

type_synonym 'a js = "js_error + 'a"

abbreviation throwError :: "string \<Rightarrow> 'a js" where
  "throwError m \<equiv> Inl (JsError m)"

definition bindE :: "'a js \<Rightarrow> ('a \<Rightarrow> 'b js) \<Rightarrow> 'b js" where
  "bindE m f = (case m of Inl e \<Rightarrow> Inl e | Inr a \<Rightarrow> f a)"

definition mapR :: "('a \<Rightarrow> 'b) \<Rightarrow> 'a js \<Rightarrow> 'b js" where
  "mapR f m = bindE m (\<lambda>a. Inr (f a))"

lemma bindE_Inl [simp, js_run]: "bindE (Inl e) f = Inl e"
  by (simp add: bindE_def)

lemma bindE_Inr [simp, js_run]: "bindE (Inr a) f = f a"
  by (simp add: bindE_def)

lemma bindE_eq_Inr_iff: "bindE m f = Inr b \<longleftrightarrow> (\<exists>a. m = Inr a \<and> f a = Inr b)"
  by (cases m) auto

lemma bindE_eq_Inl_iff:
  "bindE m f = Inl e \<longleftrightarrow> m = Inl e \<or> (\<exists>a. m = Inr a \<and> f a = Inl e)"
  by (cases m) auto

lemma bindE_assoc [simp]: "bindE (bindE m f) g = bindE m (\<lambda>a. bindE (f a) g)"
  by (cases m) auto

lemma bindE_Inr_right [simp]: "bindE m Inr = m"
  by (cases m) auto

lemma mapR_simps [simp, js_run]: "mapR f (Inl e) = Inl e" "mapR f (Inr a) = Inr (f a)"
  by (simp_all add: mapR_def)

lemma mapR_eq_Inr_iff: "mapR f m = Inr b \<longleftrightarrow> (\<exists>a. m = Inr a \<and> b = f a)"
  by (cases m) auto

text \<open>The first exception stops the loop, as it does in a \<open>for\<close> body or a \<open>map\<close> callback.\<close>

fun mapE :: "('a \<Rightarrow> 'b js) \<Rightarrow> 'a list \<Rightarrow> 'b list js" where
  "mapE f [] = Inr []"
| "mapE f (x # xs) = bindE (f x) (\<lambda>y. mapR (Cons y) (mapE f xs))"

fun foldE :: "('s \<Rightarrow> 'a \<Rightarrow> 's js) \<Rightarrow> 's \<Rightarrow> 'a list \<Rightarrow> 's js" where
  "foldE f s [] = Inr s"
| "foldE f s (x # xs) = bindE (f s x) (\<lambda>s'. foldE f s' xs)"

lemma mapE_Inr: "(\<And>x. x \<in> set xs \<Longrightarrow> f x = Inr (g x)) \<Longrightarrow> mapE f xs = Inr (map g xs)"
  by (induction xs) auto

lemma mapE_eq_Inr_iff:
  "mapE f xs = Inr ys \<longleftrightarrow> list_all2 (\<lambda>x y. f x = Inr y) xs ys"
proof (induction xs arbitrary: ys)
  case Nil
  show ?case by auto
next
  case (Cons x xs)
  show ?case
    by (cases ys) (auto simp: bindE_eq_Inr_iff mapR_eq_Inr_iff Cons.IH)
qed

lemma mapE_member: "mapE f xs = Inr ys \<Longrightarrow> y \<in> set ys \<Longrightarrow> \<exists>x\<in>set xs. f x = Inr y"
  unfolding mapE_eq_Inr_iff by (induction rule: list_all2_induct) auto

lemma mapE_length: "mapE f xs = Inr ys \<Longrightarrow> length ys = length xs"
  by (simp add: mapE_eq_Inr_iff list_all2_lengthD)

lemma mapE_ok_iff: "(\<exists>ys. mapE f xs = Inr ys) \<longleftrightarrow> (\<forall>x\<in>set xs. \<exists>y. f x = Inr y)"
  by (induction xs) (auto simp: bindE_eq_Inr_iff mapR_eq_Inr_iff)

lemma foldE_append: "foldE f s (xs @ ys) = bindE (foldE f s xs) (\<lambda>s'. foldE f s' ys)"
  by (induction xs arbitrary: s) auto

lemma foldE_invariant:
  assumes "foldE f s xs = Inr t" and "P s"
    and "\<And>a x b. P a \<Longrightarrow> x \<in> set xs \<Longrightarrow> f a x = Inr b \<Longrightarrow> P b"
  shows "P t"
  using assms
proof (induction xs arbitrary: s)
  case Nil
  then show ?case by simp
next
  case (Cons x xs)
  from Cons.prems(1) obtain s' where s': "f s x = Inr s'" and rest: "foldE f s' xs = Inr t"
    by (auto simp: bindE_eq_Inr_iff)
  have "P s'"
    by (rule Cons.prems(3) [OF Cons.prems(2) _ s']) simp
  with rest show ?case
    by (rule Cons.IH) (rule Cons.prems(3), auto)
qed

section \<open>Reading an array\<close>

text \<open>\<open>a[i]\<close> is \<open>undefined\<close> past the end: \<open>None\<close> here.\<close>

definition js_at :: "'a list \<Rightarrow> nat \<Rightarrow> 'a option" where
  "js_at xs i = (if i < length xs then Some (xs ! i) else None)"

lemma js_at_eq_Some_iff: "js_at xs i = Some x \<longleftrightarrow> i < length xs \<and> xs ! i = x"
  by (auto simp: js_at_def)

lemma js_at_eq_None_iff [simp]: "js_at xs i = None \<longleftrightarrow> length xs \<le> i"
  by (auto simp: js_at_def)

text \<open>Using an element that must exist: the engine raises when it is \<open>undefined\<close>.\<close>

definition orTypeError :: "'a option \<Rightarrow> 'a js" where
  "orTypeError x = (case x of None \<Rightarrow> Inl JsTypeError | Some a \<Rightarrow> Inr a)"

lemma orTypeError_simps [simp, js_run]:
  "orTypeError None = Inl JsTypeError" "orTypeError (Some a) = Inr a"
  by (simp_all add: orTypeError_def)

lemma orTypeError_eq_Inr_iff: "orTypeError x = Inr a \<longleftrightarrow> x = Some a"
  by (cases x) auto

section \<open>Decimal strings\<close>

text \<open>\<open>n.toString()\<close> and \<open>`${n}`\<close> of a natural number, and the way back.\<close>

fun digit_char :: "nat \<Rightarrow> char" where
  "digit_char d = char_of (48 + d)"

fun show_nat :: "nat \<Rightarrow> string" where
  "show_nat n = (if n < 10 then [digit_char n] else show_nat (n div 10) @ [digit_char (n mod 10)])"

declare show_nat.simps [simp del]

definition show_int :: "int \<Rightarrow> string" where
  "show_int i = (if i < 0 then ''-'' @ show_nat (nat (- i)) else show_nat (nat i))"

definition digit_value :: "char \<Rightarrow> nat option" where
  "digit_value c = (let n = of_char c :: nat in if 48 \<le> n \<and> n \<le> 57 then Some (n - 48) else None)"

text \<open>
  \<open>parseInt(s, 10)\<close> of a string that starts with digits reads the longest run of them;
  with no leading digit it is \<open>NaN\<close>: \<open>None\<close>. (No caller passes a sign or blanks.)
\<close>

fun read_digits :: "nat \<Rightarrow> string \<Rightarrow> nat" where
  "read_digits acc [] = acc"
| "read_digits acc (c # cs) =
     (case digit_value c of None \<Rightarrow> acc | Some d \<Rightarrow> read_digits (10 * acc + d) cs)"

fun parseInt10 :: "string \<Rightarrow> nat option" where
  "parseInt10 [] = None"
| "parseInt10 (c # cs) = (case digit_value c of None \<Rightarrow> None | Some d \<Rightarrow> Some (read_digits d cs))"

lemma digit_value_digit_char [simp]: "d < 10 \<Longrightarrow> digit_value (digit_char d) = Some d"
  by (simp add: digit_value_def Let_def)

lemma read_digits_append:
  "\<forall>c\<in>set xs. digit_value c \<noteq> None \<Longrightarrow>
   read_digits acc (xs @ ys) = read_digits (read_digits acc xs) ys"
  by (induction xs arbitrary: acc) auto

lemma show_nat_digits: "c \<in> set (show_nat n) \<Longrightarrow> digit_value c \<noteq> None"
proof (induction n rule: show_nat.induct)
  case (1 n)
  then show ?case
    by (cases "n < 10") (auto simp: show_nat.simps [of n] simp del: digit_char.simps)
qed

lemma read_digits_show_nat: "read_digits 0 (show_nat n) = n"
proof (induction n rule: show_nat.induct)
  case (1 n)
  show ?case
  proof (cases "n < 10")
    case True
    then show ?thesis by (simp add: show_nat.simps [of n] del: digit_char.simps)
  next
    case False
    then have "read_digits 0 (show_nat n) =
        read_digits (read_digits 0 (show_nat (n div 10))) [digit_char (n mod 10)]"
      by (simp add: show_nat.simps [of n] read_digits_append show_nat_digits del: digit_char.simps)
    also have "\<dots> = n"
      using 1 False by (simp del: digit_char.simps)
    finally show ?thesis .
  qed
qed

lemma show_nat_Nil [simp]: "show_nat n \<noteq> []"
  by (subst show_nat.simps) simp

lemma parseInt10_show_nat [simp]: "parseInt10 (show_nat n) = Some n"
proof (cases "show_nat n")
  case Nil
  then show ?thesis by simp
next
  case (Cons c cs)
  then obtain d where d: "digit_value c = Some d"
    using show_nat_digits [of c n] by auto
  then have "parseInt10 (show_nat n) = Some (read_digits 0 (c # cs))"
    by (simp add: Cons)
  also have "\<dots> = Some n"
    using read_digits_show_nat [of n] by (simp add: Cons)
  finally show ?thesis .
qed

lemma show_nat_inject [simp]: "show_nat m = show_nat n \<longleftrightarrow> m = n"
  by (metis read_digits_show_nat)

text \<open>\<open>id.toString()\<close> of a codec integer.\<close>

definition toStringU :: "'a::len word \<Rightarrow> string" where
  "toStringU w = show_nat (unat w)"

lemma toStringU_inject [simp]: "toStringU v = toStringU w \<longleftrightarrow> v = w"
  by (simp add: toStringU_def word_unat_eq_iff)

lemma toStringU_eq_show_nat: "toStringU w = show_nat n \<longleftrightarrow> unat w = n"
  by (simp add: toStringU_def)

section \<open>Maps and objects\<close>

text \<open>
  A JavaScript \<open>Map\<close> (or plain object with string keys) keeps its entries in insertion order
  and \<open>set\<close> overwrites in place: the library's \<open>AList.update\<close> on an association list.
\<close>

type_synonym ('k, 'v) jsmap = "('k \<times> 'v) list"

abbreviation jsmap_get :: "('k, 'v) jsmap \<Rightarrow> 'k \<Rightarrow> 'v option" where
  "jsmap_get m k \<equiv> map_of m k"

abbreviation jsmap_set :: "('k, 'v) jsmap \<Rightarrow> 'k \<Rightarrow> 'v \<Rightarrow> ('k, 'v) jsmap" where
  "jsmap_set m k v \<equiv> AList.update k v m"

definition jsmap_wf :: "('k, 'v) jsmap \<Rightarrow> bool" where
  "jsmap_wf m \<longleftrightarrow> distinct (map fst m)"

lemma jsmap_wf_Nil [simp]: "jsmap_wf []"
  by (simp add: jsmap_wf_def)

lemma jsmap_wf_set [simp]: "jsmap_wf m \<Longrightarrow> jsmap_wf (jsmap_set m k v)"
  by (simp add: jsmap_wf_def distinct_update)

lemma jsmap_get_set: "jsmap_get (jsmap_set m k v) k' = (if k' = k then Some v else jsmap_get m k')"
  by (simp add: update_conv')

section \<open>Swapping two elements of a list\<close>

text \<open>\<open>Vec::swap\<close>, and what a move of one place does to an array.\<close>

definition swap_at :: "nat \<Rightarrow> nat \<Rightarrow> 'a list \<Rightarrow> 'a list" where
  "swap_at i j xs = xs[i := xs ! j, j := xs ! i]"

lemma swap_at_sym: "swap_at i j xs = swap_at j i xs"
  by (cases "i = j") (simp_all add: swap_at_def list_update_swap)

lemma length_swap_at [simp]: "length (swap_at i j xs) = length xs"
  by (simp add: swap_at_def)

lemma swap_at_same [simp]: "swap_at i i xs = xs"
  by (simp add: swap_at_def)

lemma nth_swap_at:
  "i < length xs \<Longrightarrow> j < length xs \<Longrightarrow> k < length xs \<Longrightarrow>
   swap_at i j xs ! k = (if k = j then xs ! i else if k = i then xs ! j else xs ! k)"
  by (auto simp: swap_at_def nth_list_update)

lemma mset_swap_at [simp]:
  "i < length xs \<Longrightarrow> j < length xs \<Longrightarrow> mset (swap_at i j xs) = mset xs"
  by (simp add: swap_at_def mset_swap)

lemma map_swap_at:
  "i < length xs \<Longrightarrow> j < length xs \<Longrightarrow> map f (swap_at i j xs) = swap_at i j (map f xs)"
  by (simp add: swap_at_def map_update)

lemma distinct_swap_at [simp]:
  "i < length xs \<Longrightarrow> j < length xs \<Longrightarrow> distinct (swap_at i j xs) = distinct xs"
  by (simp add: swap_at_def)

lemma set_swap_at [simp]:
  "i < length xs \<Longrightarrow> j < length xs \<Longrightarrow> set (swap_at i j xs) = set xs"
  by (metis mset_swap_at set_mset_mset)

lemma swap_at_commute: "swap_at i j xs = swap_at j i xs"
  by (cases "i = j") (simp_all add: swap_at_def list_update_swap)

lemma swap_at_involutive [simp]:
  "i < length xs \<Longrightarrow> j < length xs \<Longrightarrow> swap_at i j (swap_at i j xs) = xs"
  by (rule nth_equalityI) (auto simp: nth_swap_at)

end
