(* ===== verification/CodecTypes.thy ===== *)
theory CodecTypes
  imports Prelude
begin

text \<open>
  The data the chain, the contract and the front exchange, as
  \<open>common/js/src/interfaces/all/types.ts\<close> declares it. An \<open>Enum\<close> is a datatype whose
  constructors are the variants, written \<open><type>_<variant>\<close> after the last part of the type's
  name; \<open>isV\<close>/\<open>asV\<close> are pattern matching. A \<open>Struct\<close> is a record with a short prefix on
  its fields, or, where it is the payload of a variant or part of the recursive family of
  abilities, a datatype with one constructor that bears its name and lists the fields in order.
\<close>

section \<open>Shared parts of abilities\<close>

datatype emo_Typ = Typ_Human | Typ_Nature | Typ_Food | Typ_Object

datatype emo_ability_Side = Side_Ally | Side_Rival

datatype emo_ability_Destination = Destination_Left | Destination_Right | Destination_All

record emo_ability_TypOptAndIsTripleOpt =
  typ_opt :: "emo_Typ option"
  is_triple_opt :: "bool option"

datatype emo_ability_Target_Others =
  emo_ability_Target_Others emo_ability_Destination emo_ability_TypOptAndIsTripleOpt

datatype emo_ability_Target = Target_Oneself | Target_Others emo_ability_Target_Others

datatype emo_ability_TargetOrRandom_Random =
  emo_ability_TargetOrRandom_Random emo_ability_TypOptAndIsTripleOpt u8

datatype emo_ability_TargetOrRandom =
  TargetOrRandom_Target emo_ability_Target
| TargetOrRandom_Random emo_ability_TargetOrRandom_Random

section \<open>Battle abilities\<close>

datatype emo_ability_battle_Special =
  Special_Shield | Special_Attractive | Special_AttackLowestAttack

datatype emo_ability_battle_AsAllyAction = AsAllyAction_TriggerRetireActions

datatype emo_ability_battle_GeneralAsAllyTrigger_AllySet =
  emo_ability_battle_GeneralAsAllyTrigger_AllySet emo_ability_TypOptAndIsTripleOpt

datatype emo_ability_battle_GeneralAsAllyTrigger_AllyRetire =
  emo_ability_battle_GeneralAsAllyTrigger_AllyRetire emo_ability_TypOptAndIsTripleOpt

datatype emo_ability_battle_GeneralAsAllyTrigger =
  GeneralAsAllyTrigger_AllySet emo_ability_battle_GeneralAsAllyTrigger_AllySet
| GeneralAsAllyTrigger_AllyRetire emo_ability_battle_GeneralAsAllyTrigger_AllyRetire

datatype emo_ability_battle_GeneralAsOneselfTrigger_AllyRetire =
  emo_ability_battle_GeneralAsOneselfTrigger_AllyRetire emo_ability_TypOptAndIsTripleOpt

datatype emo_ability_battle_GeneralAsOneselfTrigger_RivalRetire =
  emo_ability_battle_GeneralAsOneselfTrigger_RivalRetire emo_ability_TypOptAndIsTripleOpt

datatype emo_ability_battle_NormalAction_SetEmo =
  emo_ability_battle_NormalAction_SetEmo emo_ability_Side u16

datatype emo_ability_battle_NormalAction_SetEmosByAttackDiv =
  emo_ability_battle_NormalAction_SetEmosByAttackDiv emo_ability_Side u16 u8

datatype emo_ability_battle_NormalAction_IncreaseStats =
  emo_ability_battle_NormalAction_IncreaseStats emo_ability_TargetOrRandom u16 u16

datatype emo_ability_battle_NormalAction_DecreaseStats =
  emo_ability_battle_NormalAction_DecreaseStats emo_ability_TargetOrRandom u16 u16

datatype emo_ability_battle_NormalAction_IncreaseStatsByEmoCount =
  emo_ability_battle_NormalAction_IncreaseStatsByEmoCount
    emo_ability_Side emo_ability_TargetOrRandom emo_ability_TypOptAndIsTripleOpt u16 u16

datatype emo_ability_battle_NormalAction_DamageAll =
  emo_ability_battle_NormalAction_DamageAll emo_ability_Side u16

text \<open>A battle ability may name a battle ability (to give it, or to react to its loss).\<close>

datatype emo_ability_battle_Battle =
  Battle_General emo_ability_battle_General
| Battle_Special emo_ability_battle_Special
and emo_ability_battle_General =
  General_AsOneself emo_ability_battle_General_AsOneself
| General_AsAlly emo_ability_battle_General_AsAlly
and emo_ability_battle_General_AsOneself =
  emo_ability_battle_General_AsOneself
    emo_ability_battle_GeneralAsOneselfTrigger emo_ability_battle_NormalAction
and emo_ability_battle_General_AsAlly =
  emo_ability_battle_General_AsAlly
    emo_ability_battle_GeneralAsAllyTrigger emo_ability_battle_GeneralAsAllyAction
and emo_ability_battle_GeneralAsAllyAction =
  GeneralAsAllyAction_OneselfTripleNormal emo_ability_battle_NormalAction
| GeneralAsAllyAction_Custom emo_ability_battle_AsAllyAction
and emo_ability_battle_GeneralAsOneselfTrigger =
  GeneralAsOneselfTrigger_Pre
| GeneralAsOneselfTrigger_Retire
| GeneralAsOneselfTrigger_AllyRetire emo_ability_battle_GeneralAsOneselfTrigger_AllyRetire
| GeneralAsOneselfTrigger_RivalRetire emo_ability_battle_GeneralAsOneselfTrigger_RivalRetire
| GeneralAsOneselfTrigger_AllyBattleAbilityRemoved
    emo_ability_battle_GeneralAsOneselfTrigger_AllyBattleAbilityRemoved
and emo_ability_battle_GeneralAsOneselfTrigger_AllyBattleAbilityRemoved =
  emo_ability_battle_GeneralAsOneselfTrigger_AllyBattleAbilityRemoved
    emo_ability_TypOptAndIsTripleOpt bool emo_ability_battle_Battle
and emo_ability_battle_NormalAction =
  BattleNormalAction_SetEmo emo_ability_battle_NormalAction_SetEmo
| BattleNormalAction_SetEmosByAttackDiv emo_ability_battle_NormalAction_SetEmosByAttackDiv
| BattleNormalAction_IncreaseStats emo_ability_battle_NormalAction_IncreaseStats
| BattleNormalAction_DecreaseStats emo_ability_battle_NormalAction_DecreaseStats
| BattleNormalAction_IncreaseStatsByEmoCount
    emo_ability_battle_NormalAction_IncreaseStatsByEmoCount
| BattleNormalAction_AddBattleAbility emo_ability_battle_NormalAction_AddBattleAbility
| BattleNormalAction_DamageAll emo_ability_battle_NormalAction_DamageAll
and emo_ability_battle_NormalAction_AddBattleAbility =
  emo_ability_battle_NormalAction_AddBattleAbility
    emo_ability_TargetOrRandom emo_ability_battle_Battle

section \<open>Shop abilities\<close>

datatype emo_ability_shop_Special = ShopSpecial_Placeholder

datatype emo_ability_shop_AsAllyAction = AsAllyAction_TriggerSetActions

datatype emo_ability_shop_PeriAsAllyTrigger_AllySet =
  emo_ability_shop_PeriAsAllyTrigger_AllySet emo_ability_TypOptAndIsTripleOpt

datatype emo_ability_shop_PeriAsAllyTrigger =
  PeriAsAllyTrigger_AllySet emo_ability_shop_PeriAsAllyTrigger_AllySet

datatype emo_ability_shop_PeriAsOneselfTrigger_AllySet =
  emo_ability_shop_PeriAsOneselfTrigger_AllySet emo_ability_TypOptAndIsTripleOpt

datatype emo_ability_shop_PeriAsOneselfTrigger =
  PeriAsOneselfTrigger_Set
| PeriAsOneselfTrigger_Sell
| PeriAsOneselfTrigger_AllySet emo_ability_shop_PeriAsOneselfTrigger_AllySet

datatype emo_ability_shop_RandomAction_IncreaseStatsOfMenagerie =
  emo_ability_shop_RandomAction_IncreaseStatsOfMenagerie u8 u16 u16

datatype emo_ability_shop_RandomAction =
  RandomAction_IncreaseStatsOfMenagerie emo_ability_shop_RandomAction_IncreaseStatsOfMenagerie

datatype emo_ability_shop_NormalAction_SetEmo = emo_ability_shop_NormalAction_SetEmo u16

datatype emo_ability_shop_NormalAction_IncreaseStats =
  emo_ability_shop_NormalAction_IncreaseStats emo_ability_Target u16 u16

datatype emo_ability_shop_NormalAction_IncreaseStatsByEmoCount =
  emo_ability_shop_NormalAction_IncreaseStatsByEmoCount
    emo_ability_Target emo_ability_TypOptAndIsTripleOpt u16 u16

datatype emo_ability_shop_NormalAction_IncreaseStatsByGrade =
  emo_ability_shop_NormalAction_IncreaseStatsByGrade emo_ability_Target u16 u16

datatype emo_ability_shop_NormalAction_IncreaseStatsOfAdjacentMenagerie =
  emo_ability_shop_NormalAction_IncreaseStatsOfAdjacentMenagerie u16 u16

datatype emo_ability_shop_NormalAction_GetCoin = emo_ability_shop_NormalAction_GetCoin u8

datatype emo_ability_shop_NormalAction_GetCoinByEmoCountDiv =
  emo_ability_shop_NormalAction_GetCoinByEmoCountDiv emo_ability_TypOptAndIsTripleOpt u8

datatype emo_ability_Ability =
  Ability_Shop emo_ability_shop_Shop
| Ability_Battle emo_ability_battle_Battle
and emo_ability_shop_Shop =
  Shop_Pre emo_ability_shop_Pre
| Shop_Peri emo_ability_shop_Peri
| Shop_Special emo_ability_shop_Special
and emo_ability_shop_Pre =
  Pre_Normal emo_ability_shop_NormalAction
| Pre_Random emo_ability_shop_RandomAction
and emo_ability_shop_Peri =
  Peri_AsOneself emo_ability_shop_Peri_AsOneself
| Peri_AsAlly emo_ability_shop_Peri_AsAlly
and emo_ability_shop_Peri_AsOneself =
  emo_ability_shop_Peri_AsOneself
    emo_ability_shop_PeriAsOneselfTrigger emo_ability_shop_NormalAction
and emo_ability_shop_Peri_AsAlly =
  emo_ability_shop_Peri_AsAlly
    emo_ability_shop_PeriAsAllyTrigger emo_ability_shop_PeriAsAllyAction
and emo_ability_shop_PeriAsAllyAction =
  PeriAsAllyAction_OneselfTripleNormal emo_ability_shop_NormalAction
| PeriAsAllyAction_Custom emo_ability_shop_AsAllyAction
and emo_ability_shop_NormalAction =
  ShopNormalAction_SetEmo emo_ability_shop_NormalAction_SetEmo
| ShopNormalAction_IncreaseStats emo_ability_shop_NormalAction_IncreaseStats
| ShopNormalAction_IncreaseStatsByEmoCount emo_ability_shop_NormalAction_IncreaseStatsByEmoCount
| ShopNormalAction_IncreaseStatsByGrade emo_ability_shop_NormalAction_IncreaseStatsByGrade
| ShopNormalAction_IncreaseStatsOfAdjacentMenagerie
    emo_ability_shop_NormalAction_IncreaseStatsOfAdjacentMenagerie
| ShopNormalAction_AddAbility emo_ability_shop_NormalAction_AddAbility
| ShopNormalAction_GetCoin emo_ability_shop_NormalAction_GetCoin
| ShopNormalAction_GetCoinByEmoCountDiv emo_ability_shop_NormalAction_GetCoinByEmoCountDiv
and emo_ability_shop_NormalAction_AddAbility =
  emo_ability_shop_NormalAction_AddAbility emo_ability_Target emo_ability_Ability

section \<open>Emojis\<close>

record emo_Attributes =
  at_attack :: u16
  at_health :: u16
  at_abilities :: "emo_ability_Ability list"
  at_is_triple :: bool

record emo_Base =
  eb_id :: u16
  eb_typ :: emo_Typ
  eb_codepoint :: u32
  eb_grade :: u8
  eb_attack :: u16
  eb_health :: u16
  eb_abilities :: "emo_ability_Ability list"

text \<open>A \<open>BTreeMap\<close> decodes to a JavaScript \<open>Map\<close> with the entries in the encoded order.\<close>

type_synonym emo_Bases = "(u16, emo_Base) jsmap"

section \<open>Boards and ghosts\<close>

record mtc_Emo =
  me_id :: u16
  me_base_id :: u16

text \<open>
  The board emoji of a player is that of a ghost with the ids of the match: \<open>createEmoWithBoardEmo\<close>
  takes either, which record extension gives for free.
\<close>

record mtc_GhostBoardEmo =
  be_base_id :: u16
  be_attributes :: emo_Attributes

record mtc_BoardEmo = mtc_GhostBoardEmo +
  be_mtc_emo_ids :: "u16 list"

type_synonym mtc_Board = "mtc_BoardEmo list"

type_synonym mtc_GhostBoard = "mtc_GhostBoardEmo list"

record mtc_GradeAndBoard =
  gb_grade :: u8
  gb_board :: mtc_Board

record mtc_GradeAndGhostBoard =
  gg_grade :: u8
  gg_board :: mtc_GhostBoard

record mtc_Ghost =
  gh_history :: "mtc_GradeAndGhostBoard list"

datatype mtc_GhostState_Active = mtc_GhostState_Active u8

datatype mtc_GhostState_Retired = mtc_GhostState_Retired u8

datatype mtc_GhostState =
  GhostState_Active mtc_GhostState_Active
| GhostState_Retired mtc_GhostState_Retired

record mtc_storage_PlayerMutable =
  pm_health :: u8
  pm_grade_and_board_history :: "mtc_GradeAndBoard list"
  pm_upgrade_coin :: "u8 option"
  pm_ghost_states :: "mtc_GhostState list"
  pm_battle_ghost_index :: u8

section \<open>Shop: catalog, operations and board logs\<close>

type_synonym mtc_shop_CatalogLine = "mtc_Emo list"

type_synonym mtc_shop_Catalog = "mtc_shop_CatalogLine list"

datatype mtc_shop_PlayerOperation_Buy = mtc_shop_PlayerOperation_Buy u16 u8

datatype mtc_shop_PlayerOperation_Sell = mtc_shop_PlayerOperation_Sell u8

datatype mtc_shop_PlayerOperation_Move = mtc_shop_PlayerOperation_Move "u8 list"

datatype mtc_shop_PlayerOperation =
  PlayerOperation_Buy mtc_shop_PlayerOperation_Buy
| PlayerOperation_Sell mtc_shop_PlayerOperation_Sell
| PlayerOperation_Move mtc_shop_PlayerOperation_Move
| PlayerOperation_NextCatalogLine
| PlayerOperation_Upgrade

datatype mtc_shop_BoardLog_Add = mtc_shop_BoardLog_Add u8 mtc_BoardEmo

datatype mtc_shop_BoardLog_Remove = mtc_shop_BoardLog_Remove u8

datatype mtc_shop_BoardLog_Move = mtc_shop_BoardLog_Move u8 u8

datatype mtc_shop_BoardLog_IncreaseStats = mtc_shop_BoardLog_IncreaseStats u8 u16 u16 u16 u16

datatype mtc_shop_BoardLog_AddAbility =
  mtc_shop_BoardLog_AddAbility u8 emo_ability_Ability bool

datatype mtc_shop_BoardLog_Triple = mtc_shop_BoardLog_Triple "u8 list"

datatype mtc_shop_BoardLog =
  BoardLog_Add mtc_shop_BoardLog_Add
| BoardLog_Remove mtc_shop_BoardLog_Remove
| BoardLog_Move mtc_shop_BoardLog_Move
| BoardLog_IncreaseStats mtc_shop_BoardLog_IncreaseStats
| BoardLog_AddAbility mtc_shop_BoardLog_AddAbility
| BoardLog_Triple mtc_shop_BoardLog_Triple

type_synonym mtc_shop_BoardLogs = "mtc_shop_BoardLog list"

section \<open>Battle logs\<close>

datatype mtc_battle_Log_Attack = mtc_battle_Log_Attack u8 u8 u8

datatype mtc_battle_Log_Damage = mtc_battle_Log_Damage u8 u8 u16 u16

datatype mtc_battle_Log_Remove = mtc_battle_Log_Remove u8 u8

datatype mtc_battle_Log_Add = mtc_battle_Log_Add u8 u8 u16 emo_Attributes

text \<open>
  The two statistics logs have the same fields; the code that batches them is generic in them,
  so they are one record here, used under two constructors of \<open>mtc_battle_Log\<close>.
\<close>

record mtc_battle_Log_IncreaseStats =
  ls_player_index :: u8
  ls_emo_index :: u8
  ls_attack :: u16
  ls_health :: u16
  ls_calculated_attack :: u16
  ls_calculated_health :: u16

type_synonym mtc_battle_Log_DecreaseStats = mtc_battle_Log_IncreaseStats

datatype mtc_battle_Log_AddBattleAbility =
  mtc_battle_Log_AddBattleAbility u8 u8 emo_ability_battle_Battle bool

datatype mtc_battle_Log_RemoveBattleAbility =
  mtc_battle_Log_RemoveBattleAbility u8 u8 u8 emo_ability_battle_Battle

datatype mtc_battle_Log =
  Log_Attack mtc_battle_Log_Attack
| Log_Damage mtc_battle_Log_Damage
| Log_Remove mtc_battle_Log_Remove
| Log_Add mtc_battle_Log_Add
| Log_IncreaseStats mtc_battle_Log_IncreaseStats
| Log_DecreaseStats mtc_battle_Log_DecreaseStats
| Log_AddBattleAbility mtc_battle_Log_AddBattleAbility
| Log_RemoveBattleAbility mtc_battle_Log_RemoveBattleAbility

type_synonym mtc_battle_Logs = "mtc_battle_Log list"

end
