(* ===== verification/Utils.thy ===== *)
theory Utils
  imports Complex_Main Prelude
begin

text \<open>
  The helpers of \<open>common/js/src/utils.ts\<close> and \<open>front/src/misc/utils.ts\<close>, and the constants
  of \<open>front/src/misc/constants.ts\<close>. \<open>Math.random()\<close> is a parameter (the draw made in each
  round of a loop), the proof-of-work solver is a parameter, and arrays updated in place are
  returned.
\<close>

section \<open>Constants (front/src/misc/constants.ts)\<close>

definition initialPlayerHealth :: nat where "initialPlayerHealth = 30"
definition boardSize :: nat where "boardSize = 7"
definition nextCatalogLineCoin :: nat where "nextCatalogLineCoin = 1"
definition emoBuyCoin :: nat where "emoBuyCoin = 3"
definition initialEp :: nat where "initialEp = 300"
definition mulliganCount :: nat where "mulliganCount = 2"

definition emoTyps :: "string list" where
  "emoTyps = [''Food'', ''Nature'', ''Human'', ''Object'']"

definition emoTypsWithAll :: "string list" where
  "emoTypsWithAll = [''All'', ''Food'', ''Nature'', ''Human'', ''Object'']"

definition zeroAddress :: string where
  "zeroAddress = ''5C4hrfjw9DjXZTzV3MwzrrAr9P1MJhSrvWGWqi1eSuyUpnhM''"

lemmas constants =
  initialPlayerHealth_def boardSize_def nextCatalogLineCoin_def emoBuyCoin_def
  initialEp_def mulliganCount_def

section \<open>range, uniqueArray, shuffleArray, sampleArray (common/js/src/utils.ts)\<close>

definition range :: "nat \<Rightarrow> nat list" where
  "range n = [0..<n]"

text \<open>\<open>Set.prototype.add\<close>: a new element goes to the end, one that is there stays in place.\<close>

definition set_add :: "'a list \<Rightarrow> 'a \<Rightarrow> 'a list" where
  "set_add s x = (if x \<in> set s then s else s @ [x])"

definition uniqueArray :: "'a list \<Rightarrow> 'a list" where
  "uniqueArray arr = foldl set_add [] arr"

text \<open>
  The loop of \<open>shuffleArray\<close> runs \<open>i\<close> from the last index down to 1; \<open>rnd i\<close> is the value
  \<open>Math.random()\<close> returns in that round.
\<close>

definition random_index :: "(nat \<Rightarrow> rat) \<Rightarrow> nat \<Rightarrow> nat" where
  "random_index rnd i = nat \<lfloor>rnd i * of_nat (i + 1)\<rfloor>"

fun shuffle_rounds :: "(nat \<Rightarrow> nat) \<Rightarrow> nat \<Rightarrow> 'a list \<Rightarrow> 'a list" where
  "shuffle_rounds pick 0 array = array"
| "shuffle_rounds pick (Suc i) array = shuffle_rounds pick i (swap_at (Suc i) (pick (Suc i)) array)"

definition shuffleArray :: "(nat \<Rightarrow> rat) \<Rightarrow> 'a list \<Rightarrow> 'a list" where
  "shuffleArray rnd array = shuffle_rounds (random_index rnd) (length array - 1) array"

text \<open>The sample and the array, which the shuffle has rearranged in place.\<close>

definition sampleArray :: "(nat \<Rightarrow> rat) \<Rightarrow> 'a list \<Rightarrow> nat \<Rightarrow> 'a list \<times> 'a list" where
  "sampleArray rnd array n = (let a = shuffleArray rnd array in (take n a, a))"

section \<open>Transaction arguments (common/js/src/utils.ts)\<close>

datatype ('pair, 'signer) account_arg = KeyringPair 'pair | AddressAndSigner string 'signer

record 'signer signer_options =
  so_signer :: "'signer option"
  so_tip :: "nat option"

definition extractTxArgs ::
  "('pair, 'signer) account_arg \<Rightarrow> nat option \<Rightarrow> ('pair + string) \<times> 'signer signer_options" where
  "extractTxArgs account powSolution =
     (let options = \<lparr>so_signer = None, so_tip = None\<rparr>;
          (pairOrAddress, options) =
            (case account of
               AddressAndSigner address signer \<Rightarrow> (Inr address, options\<lparr>so_signer := Some signer\<rparr>)
             | KeyringPair pair \<Rightarrow> (Inl pair, options));
          options =
            (case powSolution of
               None \<Rightarrow> options
             | Some s \<Rightarrow> options\<lparr>so_tip := Some (1 * 2 ^ 127 + s)\<rparr>)
      in (pairOrAddress, options))"

section \<open>Proof of work (common/js/src/utils.ts)\<close>

definition PowThreshold :: nat where "PowThreshold = 2655"

text \<open>\<open>DataView.setUint32(0, n, true)\<close>: four bytes, lowest first, of \<open>n\<close> modulo \<open>2^32\<close>.\<close>

definition setUint32_le :: "nat \<Rightarrow> u8 list" where
  "setUint32_le n = map (\<lambda>k. word_of_nat (n div 256 ^ k)) [0..<4]"

text \<open>\<open>Uint8Array.set(source, offset)\<close> refuses a source that does not fit.\<close>

definition u8a_set :: "u8 list \<Rightarrow> u8 list \<Rightarrow> nat \<Rightarrow> u8 list js" where
  "u8a_set buffer source offset =
     (if offset + length source \<le> length buffer
      then Inr (take offset buffer @ source @ drop (offset + length source) buffer)
      else Inl JsRangeError)"

definition pow_buffer :: "u8 list \<Rightarrow> nat \<Rightarrow> u8 list js" where
  "pow_buffer publicKey powCount =
     bindE (u8a_set (replicate 128 0) publicKey 0) (\<lambda>buffer.
     bindE (u8a_set buffer (setUint32_le powCount) 32) (\<lambda>buffer.
     u8a_set buffer (setUint32_le 123) 36))"

text \<open>\<open>publicKey.toString()\<close> joins the bytes with commas.\<close>

fun join :: "string \<Rightarrow> string list \<Rightarrow> string" where
  "join sep [] = []"
| "join sep [s] = s"
| "join sep (s # t # ss) = s @ sep @ join sep (t # ss)"

definition pow_label :: "u8 list \<Rightarrow> nat \<Rightarrow> string" where
  "pow_label publicKey powCount =
     ''pow (count: '' @ show_nat powCount @ '', publicKey: '' @
     join '','' (map toStringU publicKey) @ '')''"

definition slice_last :: "nat \<Rightarrow> 'a list \<Rightarrow> 'a list" where
  "slice_last n xs = drop (length xs - n) xs"

definition solvePowPure ::
  "(u8 list \<Rightarrow> nat \<Rightarrow> u8 list \<times> u8 list) \<Rightarrow> u8 list \<Rightarrow> nat \<Rightarrow> u8 list js" where
  "solvePowPure solver publicKey powCount =
     bindE (pow_buffer publicKey powCount) (\<lambda>buffer.
       let (s, hash) = solver buffer PowThreshold in
       if length hash = 0
       then throwError (''Internal error or no solution found: '' @ pow_label publicKey powCount)
       else Inr (slice_last 8 s))"

fun getPowSolutionBNFromBytes :: "u8 list \<Rightarrow> nat" where
  "getPowSolutionBNFromBytes [] = 0"
| "getPowSolutionBNFromBytes (b # bs) = unat b + 256 * getPowSolutionBNFromBytes bs"

section \<open>Array helpers (front/src/misc/utils.ts)\<close>

definition groupBy_step ::
  "('v \<Rightarrow> nat \<Rightarrow> 'v list \<Rightarrow> 'k) \<Rightarrow> 'v list \<Rightarrow> ('k, 'v list) jsmap \<Rightarrow> nat \<times> 'v \<Rightarrow> ('k, 'v list) jsmap"
where
  "groupBy_step getKey src m p =
     (let (idx, cur) = p; key = getKey cur idx src in
      case jsmap_get m key of
        Some list \<Rightarrow> jsmap_set m key (list @ [cur])
      | None \<Rightarrow> jsmap_set m key [cur])"

definition groupBy :: "'v list \<Rightarrow> ('v \<Rightarrow> nat \<Rightarrow> 'v list \<Rightarrow> 'k) \<Rightarrow> ('k \<times> 'v list) list" where
  "groupBy array getKey = foldl (groupBy_step getKey array) [] (List.enumerate 0 array)"

fun equality_loop :: "nat \<Rightarrow> 'a list \<Rightarrow> 'a list \<Rightarrow> bool" where
  "equality_loop 0 a b = True"
| "equality_loop (Suc k) a b =
     (let i = length a - Suc k in if js_at a i \<noteq> js_at b i then False else equality_loop k a b)"

definition checkArraysEquality :: "'a list \<Rightarrow> 'a list \<Rightarrow> bool" where
  "checkArraysEquality a b =
     (if length a \<noteq> length b then False else equality_loop (length a) a b)"

text \<open>
  The inner \<open>splice(from, 1)\<close> runs first; past the end it removes nothing and its \<open>[0]\<close> is
  \<open>undefined\<close> (\<open>None\<close>), which the outer \<open>splice\<close> inserts. \<open>splice\<close> clamps \<open>to\<close>.
\<close>

definition moveArrayElement :: "'a list \<Rightarrow> nat \<Rightarrow> nat \<Rightarrow> 'a option list" where
  "moveArrayElement array from to =
     (let rest = take from array @ drop (Suc from) array in
      map Some (take to rest) @ [js_at array from] @ map Some (drop to rest))"

text \<open>
  The effects are on a state \<open>'s\<close>. When \<open>main\<close> rejects, the \<open>await\<close> throws and the toggle is
  not reset.
\<close>

definition withToggleAsync ::
  "(bool \<Rightarrow> 's \<Rightarrow> 's) \<Rightarrow> ('s \<Rightarrow> 'a js \<times> 's) \<Rightarrow> 's \<Rightarrow> 'a js \<times> 's" where
  "withToggleAsync toggle main s =
     (case main (toggle True s) of
        (Inl e, s') \<Rightarrow> (Inl e, s')
      | (Inr result, s') \<Rightarrow> (Inr result, toggle False s'))"

section \<open>Facts: arrays\<close>

lemma set_add_simps [simp]:
  "set (set_add s x) = insert x (set s)" "distinct (set_add s x) = distinct s"
  by (auto simp: set_add_def)

lemma uniqueArray_snoc: "uniqueArray (xs @ [x]) = set_add (uniqueArray xs) x"
  by (simp add: uniqueArray_def)

lemma uniqueArray_Nil [simp]: "uniqueArray [] = []"
  by (simp add: uniqueArray_def)

lemma set_uniqueArray [simp]: "set (uniqueArray xs) = set xs"
  by (induction xs rule: rev_induct) (auto simp: uniqueArray_snoc)

lemma distinct_uniqueArray [simp]: "distinct (uniqueArray xs)"
  by (induction xs rule: rev_induct) (auto simp: uniqueArray_snoc)

lemma uniqueArray_id: "distinct xs \<Longrightarrow> uniqueArray xs = xs"
  by (induction xs rule: rev_induct) (auto simp: uniqueArray_snoc set_add_def)

lemma update_map_in:
  "distinct ks \<Longrightarrow> k \<in> set ks \<Longrightarrow>
   AList.update k v (map (\<lambda>k'. (k', h k')) ks) = map (\<lambda>k'. (k', if k' = k then v else h k')) ks"
  by (induction ks) auto

lemma update_map_new:
  "k \<notin> set ks \<Longrightarrow>
   AList.update k v (map (\<lambda>k'. (k', h k')) ks) = map (\<lambda>k'. (k', h k')) ks @ [(k, v)]"
  by (induction ks) auto

lemma map_of_map_keys: "map_of (map (\<lambda>k. (k, h k)) ks) k = (if k \<in> set ks then Some (h k) else None)"
  by (induction ks) auto

text \<open>The groups, in the order their keys first occur, each holding its elements in order.\<close>

definition groups :: "('p \<Rightarrow> 'k) \<Rightarrow> ('p \<Rightarrow> 'v) \<Rightarrow> 'p list \<Rightarrow> ('k \<times> 'v list) list" where
  "groups key val ps =
     map (\<lambda>k. (k, map val (filter (\<lambda>p. key p = k) ps))) (uniqueArray (map key ps))"

lemma groups_snoc:
  "groups key val (ps @ [p]) =
     (case jsmap_get (groups key val ps) (key p) of
        Some l \<Rightarrow> jsmap_set (groups key val ps) (key p) (l @ [val p])
      | None \<Rightarrow> jsmap_set (groups key val ps) (key p) [val p])"
proof (cases "key p \<in> key ` set ps")
  case True
  then show ?thesis
    by (auto simp: groups_def map_of_map_keys update_map_in uniqueArray_snoc set_add_def)
next
  case False
  then have "filter (\<lambda>q. key q = key p) ps = []"
    by (simp add: filter_empty_conv) (metis image_eqI)
  with False show ?thesis
    by (auto simp: groups_def map_of_map_keys update_map_new uniqueArray_snoc set_add_def)
qed

lemma groupBy_fold:
  "foldl (groupBy_step getKey src) [] ps = groups (\<lambda>(i, v). getKey v i src) snd ps"
  by (induction ps rule: rev_induct)
    (simp add: groups_def, simp add: groups_snoc groupBy_step_def Let_def case_prod_beta)

lemma groupBy_eq:
  fixes f :: "'v \<Rightarrow> 'k"
  shows "groupBy array (\<lambda>v _ _. f v) = groups f (\<lambda>v. v) array"
proof -
  have fl: "map snd (filter (\<lambda>p. f (snd p) = k) (List.enumerate n xs)) = filter (\<lambda>v. f v = k) xs"
    for k n and xs :: "'v list"
    by (induction xs arbitrary: n) auto
  have "map (\<lambda>p. f (snd p)) (List.enumerate 0 array) = map f (map snd (List.enumerate 0 array))"
    by (simp only: map_map comp_def)
  then have "map (\<lambda>p. f (snd p)) (List.enumerate 0 array) = map f array"
    by simp
  then show ?thesis
    by (simp add: groupBy_def groupBy_fold groups_def case_prod_unfold fl)
qed

lemma groupBy_keys: "map fst (groupBy array (\<lambda>v _ _. f v)) = uniqueArray (map f array)"
  by (simp add: groupBy_eq groups_def comp_def)

lemma groupBy_group:
  "(k, vs) \<in> set (groupBy array (\<lambda>v _ _. f v)) \<longleftrightarrow>
   vs = filter (\<lambda>v. f v = k) array \<and> k \<in> f ` set array"
  by (auto simp: groupBy_eq groups_def)

lemma groupBy_nonempty: "(k, vs) \<in> set (groupBy array (\<lambda>v _ _. f v)) \<Longrightarrow> vs \<noteq> []"
  by (auto simp: groupBy_group filter_empty_conv)

lemma mset_concat_filter:
  "distinct ks \<Longrightarrow> f ` set xs \<subseteq> set ks \<Longrightarrow>
   mset (concat (map (\<lambda>k. filter (\<lambda>v. f v = k) xs) ks)) = mset xs"
proof (induction ks arbitrary: xs)
  case Nil
  then show ?case by simp
next
  case (Cons k ks)
  let ?rest = "filter (\<lambda>v. f v \<noteq> k) xs"
  have eq: "map (\<lambda>k'. filter (\<lambda>v. f v = k') xs) ks = map (\<lambda>k'. filter (\<lambda>v. f v = k') ?rest) ks"
    using Cons.prems(1) by (auto intro!: filter_cong)
  have rest: "mset (concat (map (\<lambda>k'. filter (\<lambda>v. f v = k') ?rest) ks)) = mset ?rest"
    using Cons.prems by (intro Cons.IH) auto
  have "mset (filter (\<lambda>v. f v = k) xs) + mset ?rest = mset xs"
    by (metis multiset_partition mset_filter)
  then show ?case
    by (simp only: list.map concat.simps mset_append eq rest)
qed

lemma mset_groupBy:
  "mset (concat (map snd (groupBy array (\<lambda>v _ _. f v)))) = mset array"
  by (simp add: groupBy_eq groups_def comp_def mset_concat_filter)

lemma equality_loop_iff:
  "length b = length a \<Longrightarrow> k \<le> length a \<Longrightarrow>
   equality_loop k a b \<longleftrightarrow> (\<forall>i. length a - k \<le> i \<and> i < length a \<longrightarrow> a ! i = b ! i)"
proof (induction k)
  case 0
  then show ?case by auto
next
  case (Suc k)
  let ?i = "length a - Suc k"
  have i: "?i < length a" "length a - k = Suc ?i"
    using Suc.prems by auto
  have "(\<forall>j. ?i \<le> j \<and> j < length a \<longrightarrow> a ! j = b ! j) \<longleftrightarrow>
      a ! ?i = b ! ?i \<and> (\<forall>j. Suc ?i \<le> j \<and> j < length a \<longrightarrow> a ! j = b ! j)"
    using i(1) by (metis Suc_le_eq le_less)
  then show ?case
    using Suc i by (simp add: Let_def js_at_def)
qed

lemma checkArraysEquality_iff [simp]: "checkArraysEquality a b \<longleftrightarrow> a = b"
proof (cases "length a = length b")
  case True
  then have "equality_loop (length a) a b \<longleftrightarrow> (\<forall>i<length a. a ! i = b ! i)"
    using equality_loop_iff [of b a "length a"] by simp
  with True show ?thesis
    unfolding checkArraysEquality_def list_eq_iff_nth_eq by simp
next
  case False
  then show ?thesis by (auto simp: checkArraysEquality_def)
qed

lemma length_moveArrayElement:
  "from < length a \<Longrightarrow> length (moveArrayElement a from to) = length a"
  by (simp add: moveArrayElement_def Let_def)

lemma split_pair_at:
  assumes "Suc i < length a"
  obtains us x y vs where "a = us @ x # y # vs" "length us = i"
proof
  show "a = take i a @ a ! i # a ! Suc i # drop (Suc (Suc i)) a"
    using assms by (simp add: Cons_nth_drop_Suc)
  show "length (take i a) = i"
    using assms by simp
qed

lemma moveArrayElement_adjacent:
  assumes "Suc i < length a"
  shows "moveArrayElement a (Suc i) i = map Some (swap_at (Suc i) i a)"
    and "moveArrayElement a i (Suc i) = map Some (swap_at (Suc i) i a)"
proof -
  from assms obtain us x y vs where a: "a = us @ x # y # vs" "length us = i"
    by (rule split_pair_at)
  then show "moveArrayElement a (Suc i) i = map Some (swap_at (Suc i) i a)"
    "moveArrayElement a i (Suc i) = map Some (swap_at (Suc i) i a)"
    by (auto simp: moveArrayElement_def swap_at_def js_at_def nth_append list_update_append)
qed

section \<open>Facts: the shuffle\<close>

lemma random_index_le: "0 \<le> rnd i \<Longrightarrow> rnd i < 1 \<Longrightarrow> random_index rnd i \<le> i"
proof -
  assume "0 \<le> rnd i" "rnd i < 1"
  then have "rnd i * of_nat (i + 1) < of_nat (i + 1)"
    by (simp add: mult_less_cancel_right1)
  then have "\<lfloor>rnd i * of_nat (i + 1)\<rfloor> < int (i + 1)"
    by (simp add: floor_less_iff)
  then show ?thesis by (simp add: random_index_def)
qed

lemma length_shuffle_rounds [simp]: "length (shuffle_rounds pick n xs) = length xs"
  by (induction n arbitrary: xs) auto

lemma mset_shuffle_rounds:
  "\<forall>i\<le>n. pick i \<le> i \<Longrightarrow> n < length xs \<Longrightarrow> mset (shuffle_rounds pick n xs) = mset xs"
proof (induction n arbitrary: xs)
  case 0
  then show ?case by simp
next
  case (Suc n)
  then have "pick (Suc n) < length xs"
    by (meson le_trans not_le order_refl)
  with Suc show ?case by simp
qed

lemma shuffle_rounds_above:
  "\<forall>i\<le>n. pick i \<le> i \<Longrightarrow> n < k \<Longrightarrow> k < length xs \<Longrightarrow> shuffle_rounds pick n xs ! k = xs ! k"
proof (induction n arbitrary: xs)
  case 0
  then show ?case by simp
next
  case (Suc n)
  then have "pick (Suc n) < k" by (meson le_less_trans order_refl)
  with Suc show ?case by (simp add: nth_swap_at)
qed

text \<open>Different draws give different arrays, and every rearrangement has its draws.\<close>

lemma shuffle_rounds_inject:
  assumes "distinct xs" "n < length xs" "\<forall>i\<le>n. pick i \<le> i" "\<forall>i\<le>n. pick' i \<le> i"
    and "shuffle_rounds pick n xs = shuffle_rounds pick' n xs" "1 \<le> i" "i \<le> n"
  shows "pick i = pick' i"
  using assms
proof (induction n arbitrary: xs)
  case 0
  then show ?case by simp
next
  case (Suc n)
  let ?j = "pick (Suc n)" and ?j' = "pick' (Suc n)"
  have j: "?j < length xs" "?j' < length xs"
    using Suc.prems by (meson le_less_trans order_refl)+
  have at: "shuffle_rounds p (Suc n) xs ! Suc n = xs ! p (Suc n)"
    if "\<forall>i\<le>Suc n. p i \<le> i" for p
  proof -
    have "p (Suc n) < length xs"
      using that Suc.prems(2) by (meson le_less_trans order_refl)
    then show ?thesis
      using that Suc.prems(2) by (simp add: shuffle_rounds_above nth_swap_at)
  qed
  have "xs ! ?j = xs ! ?j'"
    using at [OF Suc.prems(3)] at [OF Suc.prems(4)] Suc.prems(5) by simp
  then have eq: "?j = ?j'"
    using Suc.prems(1) j by (simp add: nth_eq_iff_index_eq)
  show ?case
  proof (cases "i = Suc n")
    case True
    with eq show ?thesis by simp
  next
    case False
    show ?thesis
      by (rule Suc.IH [of "swap_at (Suc n) ?j xs"]) (use Suc.prems False j eq in auto)
  qed
qed

lemma shuffle_rounds_cong:
  "\<forall>i. 1 \<le> i \<and> i \<le> n \<longrightarrow> pick i = pick' i \<Longrightarrow> shuffle_rounds pick n xs = shuffle_rounds pick' n xs"
  by (induction n arbitrary: xs) auto

lemma shuffle_rounds_surj:
  assumes "n < length xs" "length ys = length xs" "\<forall>k. n < k \<and> k < length xs \<longrightarrow> ys ! k = xs ! k"
    and "mset (take (Suc n) ys) = mset (take (Suc n) xs)"
  shows "\<exists>pick. (\<forall>i. pick i \<le> i) \<and> shuffle_rounds pick n xs = ys"
  using assms
proof (induction n arbitrary: xs)
  case 0
  have "ys ! 0 = xs ! 0"
    using 0 by (cases xs; cases ys) auto
  then have "ys = xs"
    using 0 by (intro nth_equalityI) (metis gr0I)+
  then show ?case
    by (intro exI [of _ "\<lambda>i. i"]) simp
next
  case (Suc n)
  have "ys ! Suc n \<in> set (take (Suc (Suc n)) ys)"
    using Suc.prems by (auto simp: in_set_conv_nth intro!: exI [of _ "Suc n"])
  then have "ys ! Suc n \<in> set (take (Suc (Suc n)) xs)"
    by (metis Suc.prems(4) set_mset_mset)
  then obtain j where j: "j < Suc (Suc n)" "xs ! j = ys ! Suc n"
    by (auto simp: in_set_conv_nth)
  let ?xs = "swap_at (Suc n) j xs"
  have jl: "j < length xs" using j Suc.prems by simp
  have take: "take (Suc (Suc n)) ?xs = swap_at (Suc n) j (take (Suc (Suc n)) xs)"
    using j Suc.prems by (simp add: swap_at_def take_update_swap)
  have "mset (take (Suc (Suc n)) ?xs) = mset (take (Suc (Suc n)) ys)"
    using j Suc.prems unfolding take by simp
  moreover have "?xs ! Suc n = ys ! Suc n"
    using j jl Suc.prems by (simp add: nth_swap_at)
  ultimately have "mset (take (Suc n) ys) = mset (take (Suc n) ?xs)"
    using Suc.prems by (simp add: take_Suc_conv_app_nth [of "Suc n"] jl)
  then have "\<exists>pick. (\<forall>i. pick i \<le> i) \<and> shuffle_rounds pick n ?xs = ys"
    using Suc.prems j jl \<open>?xs ! Suc n = ys ! Suc n\<close>
    by (intro Suc.IH) (auto simp: nth_swap_at less_Suc_eq)
  then obtain pick where pick: "\<forall>i. pick i \<le> i" "shuffle_rounds pick n ?xs = ys" by blast
  let ?p = "pick(Suc n := j)"
  have "shuffle_rounds ?p n ?xs = shuffle_rounds pick n ?xs"
    by (rule shuffle_rounds_cong) auto
  then have "shuffle_rounds ?p (Suc n) xs = ys"
    using pick by simp
  moreover have "\<forall>i. ?p i \<le> i"
    using pick(1) j(1) by simp
  ultimately show ?case by blast
qed

end
