(* ===== verification/MtcUtils.thy ===== *)
theory MtcUtils
  imports CodecTypes Utils
begin

text \<open>
  \<open>front/src/misc/mtcUtils.ts\<close> and \<open>loadEmoBases\<close> of \<open>common/js/src/scriptUtils.ts\<close>: the
  lookup of emoji bases, the texts of grades and coins, decks, the state of a match and the
  leaderboard. A JavaScript string is the list of its UTF-8 bytes. The names asset
  (\<open>names.json\<close>) and the two functions of the WebAssembly module are parameters.
\<close>

section \<open>Emoji bases\<close>

record EmoBases =
  bs_codec :: emo_Bases
  bs_stringKey :: "(string, emo_Base) jsmap"

definition buildEmoBases :: "emo_Bases \<Rightarrow> EmoBases" where
  "buildEmoBases codec =
     \<lparr>bs_codec = codec,
      bs_stringKey = foldl (\<lambda>m (k, v). jsmap_set m (toStringU k) v) [] codec\<rparr>"

definition findEmoBaseByStringId :: "string \<Rightarrow> EmoBases \<Rightarrow> emo_Base js" where
  "findEmoBaseByStringId id' bases =
     (case jsmap_get (bs_stringKey bases) id' of
        None \<Rightarrow> throwError (''emo base not found: '' @ id')
      | Some base \<Rightarrow> Inr base)"

definition findEmoBase :: "u16 \<Rightarrow> EmoBases \<Rightarrow> emo_Base js" where
  "findEmoBase id' bases = findEmoBaseByStringId (toStringU id') bases"

text \<open>
  \<open>loadEmoBases\<close> of the scripts: \<open>usedIds\<close> and \<open>basesMap\<close> are the two accumulators, and an id
  met twice is refused.
\<close>

definition loadEmoBases_step ::
  "u16 list \<times> emo_Bases \<Rightarrow> emo_Base \<Rightarrow> (u16 list \<times> emo_Bases) js" where
  "loadEmoBases_step acc m =
     (let (usedIds, basesMap) = acc; id' = eb_id m in
      if id' \<in> set usedIds then throwError (''found id duplication: '' @ toStringU id')
      else Inr (usedIds @ [id'], jsmap_set basesMap id' m))"

definition loadEmoBases :: "emo_Base list \<Rightarrow> emo_Bases js" where
  "loadEmoBases emoBases = mapR snd (foldE loadEmoBases_step ([], []) emoBases)"

section \<open>Texts\<close>

definition typ_name :: "emo_Typ \<Rightarrow> string" where
  "typ_name t =
     (case t of Typ_Human \<Rightarrow> ''Human'' | Typ_Nature \<Rightarrow> ''Nature''
      | Typ_Food \<Rightarrow> ''Food'' | Typ_Object \<Rightarrow> ''Object'')"

definition getEmoTypString :: "emo_Typ \<Rightarrow> string js" where
  "getEmoTypString typ =
     (let t = typ_name typ in
      if t \<in> set emoTyps then Inr t else throwError (''undefined typ: '' @ t))"

text \<open>\<open>String.fromCodePoint\<close>, in UTF-8; it refuses what is not a code point.\<close>

definition utf8_tail :: "nat \<Rightarrow> char" where
  "utf8_tail n = char_of (128 + n mod 64)"

definition fromCodePoint :: "nat \<Rightarrow> string js" where
  "fromCodePoint n =
     (if n < 128 then Inr [char_of n]
      else if n < 2048 then Inr [char_of (192 + n div 64), utf8_tail n]
      else if n < 65536
        then Inr [char_of (224 + n div 4096), utf8_tail (n div 64), utf8_tail n]
      else if n < 1114112
        then Inr [char_of (240 + n div 262144), utf8_tail (n div 4096), utf8_tail (n div 64), utf8_tail n]
      else Inl JsRangeError)"

definition getEmoBaseEmoji :: "emo_Base \<Rightarrow> string js" where
  "getEmoBaseEmoji base = fromCodePoint (toNumber (eb_codepoint base))"

text \<open>An entry with an empty name is as good as none: the empty string is falsy.\<close>

definition getEmoName :: "(string \<Rightarrow> string option) \<Rightarrow> string \<Rightarrow> string js" where
  "getEmoName emoNames emoji =
     (case emoNames emoji of
        None \<Rightarrow> throwError (''EMO name not found: '' @ emoji)
      | Some name \<Rightarrow>
          if name = '''' then throwError (''EMO name not found: '' @ emoji) else Inr name)"

definition getEmoBaseName :: "(string \<Rightarrow> string option) \<Rightarrow> emo_Base \<Rightarrow> string js" where
  "getEmoBaseName emoNames base = bindE (getEmoBaseEmoji base) (getEmoName emoNames)"

text \<open>The double-struck digits are the code points from U+1D7D8, here by their last byte.\<close>

definition double_struck :: "nat \<Rightarrow> string" where
  "double_struck d = [CHR 0xF0, CHR 0x9D, CHR 0x9F, char_of (0x98 + d)]"

definition getGradeText :: "string \<Rightarrow> string js" where
  "getGradeText grade =
     (if grade = ''1'' then Inr (double_struck 1)
      else if grade = ''2'' then Inr (double_struck 2)
      else if grade = ''3'' then Inr (double_struck 3)
      else if grade = ''4'' then Inr (double_struck 4)
      else if grade = ''5'' then Inr (double_struck 5)
      else if grade = ''6'' then Inr (double_struck 6)
      else throwError (''undefined grade text: '' @ grade))"

text \<open>The circled numbers: U+24EA, then U+2460 to U+2473.\<close>

definition circled_numbers :: "string list" where
  "circled_numbers =
     [CHR 0xE2, CHR 0x93, CHR 0xAA] # map (\<lambda>k. [CHR 0xE2, CHR 0x91, char_of (0xA0 + k)]) [0..<20]"

definition getCoinText :: "int \<Rightarrow> string" where
  "getCoinText coin =
     (case (if 0 \<le> coin then js_at circled_numbers (nat coin) else None) of
        None \<Rightarrow> show_int coin
      | Some t \<Rightarrow> t)"

definition getShortAddress :: "string \<Rightarrow> string" where
  "getShortAddress address = take 8 address @ ''...''"

definition getHealthFromState :: "mtc_GhostState \<Rightarrow> nat" where
  "getHealthFromState state =
     (case state of GhostState_Active (mtc_GhostState_Active health) \<Rightarrow> toNumber health | _ \<Rightarrow> 0)"

definition buildEmoAttributesWithBase :: "emo_Base \<Rightarrow> emo_Attributes" where
  "buildEmoAttributesWithBase base =
     \<lparr>at_attack = eb_attack base, at_health = eb_health base,
      at_abilities = eb_abilities base, at_is_triple = False\<rparr>"

section \<open>Decks\<close>

text \<open>
  The keys of the groups are decimal, so \<open>parseInt\<close> in the comparator never gives \<open>NaN\<close>, and
  the stable \<open>Array.prototype.sort\<close> by their difference is a stable sort by their value.
\<close>

definition grade_order :: "string \<times> 'a \<Rightarrow> nat" where
  "grade_order p = (case parseInt10 (fst p) of None \<Rightarrow> 0 | Some n \<Rightarrow> n)"

definition groupEmoBasesByGrades :: "EmoBases \<Rightarrow> string list \<Rightarrow> (string \<times> emo_Base list) list js" where
  "groupEmoBasesByGrades emoBases emoBaseIds =
     mapR (\<lambda>ms. sort_key grade_order (groupBy ms (\<lambda>m _ _. toStringU (eb_grade m))))
       (mapE (\<lambda>id'. findEmoBaseByStringId id' emoBases) emoBaseIds)"

definition getDefaultDeck :: "EmoBases \<Rightarrow> string list \<Rightarrow> string list js" where
  "getDefaultDeck emoBases builtEmoBaseIds =
     bindE (groupEmoBasesByGrades emoBases builtEmoBaseIds)
       (mapE (\<lambda>(_, ms). bindE (orTypeError (js_at ms 0)) (\<lambda>m. Inr (toStringU (eb_id m)))))"

section \<open>The state of a match\<close>

record MtcState =
  ms_previousEp :: nat
  ms_turn :: nat
  ms_seed :: string
  ms_pool :: "mtc_Emo list"
  ms_board :: mtc_Board
  ms_grade :: nat
  ms_upgradeCoin :: "int option"
  ms_health :: nat
  ms_ghosts :: "mtc_Ghost list"
  ms_ghostStates :: "mtc_GhostState list"
  ms_ghostAddresses :: "string list"
  ms_battleGhostIndex :: nat

definition buildInitialMtcState ::
  "nat \<Rightarrow> string \<Rightarrow> mtc_Emo list \<Rightarrow> mtc_Ghost list \<Rightarrow> string list \<Rightarrow> nat \<Rightarrow> int option \<Rightarrow>
   mtc_GhostState list \<Rightarrow> nat \<Rightarrow> MtcState" where
  "buildInitialMtcState previousEp seed pool ghosts ghostAddresses health upgradeCoin ghostStates
     battleGhostIndex =
     \<lparr>ms_previousEp = previousEp, ms_turn = 1, ms_seed = seed, ms_pool = pool, ms_board = [],
      ms_grade = 1, ms_upgradeCoin = upgradeCoin, ms_health = health, ms_ghosts = ghosts,
      ms_ghostStates = ghostStates, ms_ghostAddresses = ghostAddresses,
      ms_battleGhostIndex = battleGhostIndex\<rparr>"

text \<open>
  The two calls into the WebAssembly module: the battles of a turn, with the player's health and
  place, and the choice of the next ghost.
\<close>

type_synonym battle_all =
  "mtc_Board \<Rightarrow> nat \<Rightarrow> nat \<Rightarrow> mtc_Ghost list \<Rightarrow> mtc_GhostState list \<Rightarrow> nat \<Rightarrow> nat \<Rightarrow> string \<Rightarrow>
   EmoBases \<Rightarrow> (nat \<times> mtc_GhostState list \<times> u8 option) js"

type_synonym select_ghost = "mtc_GhostState list \<Rightarrow> nat \<Rightarrow> string \<Rightarrow> nat js"

definition finishBattle ::
  "battle_all \<Rightarrow> select_ghost \<Rightarrow> MtcState \<Rightarrow> EmoBases \<Rightarrow> (MtcState \<times> nat option) js" where
  "finishBattle battleAll selectBattleGhostIndex mtcState emoBases =
     bindE (battleAll (ms_board mtcState) (ms_grade mtcState) (ms_health mtcState)
              (ms_ghosts mtcState) (ms_ghostStates mtcState) (ms_battleGhostIndex mtcState)
              (ms_turn mtcState) (ms_seed mtcState) emoBases) (\<lambda>(health, ghostStates, place).
       let finalPlace = map_option toNumber place;
           state = mtcState\<lparr>ms_health := health, ms_ghostStates := ghostStates\<rparr>
       in if finalPlace \<noteq> None \<and> finalPlace \<noteq> Some 0 then Inr (state, finalPlace)
          else bindE (selectBattleGhostIndex ghostStates (ms_battleGhostIndex mtcState)
                        (ms_seed mtcState)) (\<lambda>battleGhostIndex.
            Inr (state\<lparr>ms_turn := ms_turn mtcState + 1,
                   ms_upgradeCoin := map_option (\<lambda>c. max (c - 1) 0) (ms_upgradeCoin mtcState),
                   ms_battleGhostIndex := battleGhostIndex\<rparr>, None)))"

section \<open>Leaderboard\<close>

record LeaderboardElement =
  le_rank :: nat
  le_ep :: nat
  le_address :: string

definition translateLeaderboardCodec ::
  "(u16 \<times> 'account) list \<Rightarrow> ('account \<Rightarrow> string) \<Rightarrow> LeaderboardElement list" where
  "translateLeaderboardCodec leaderboard transformAddress =
     map (\<lambda>(i, (e, a)). \<lparr>le_rank = i + 1, le_ep = toNumber e, le_address = transformAddress a\<rparr>)
       (List.enumerate 0 leaderboard)"

definition getPlayerFromLeaderboard ::
  "LeaderboardElement list \<Rightarrow> string \<Rightarrow> (nat \<times> nat) option" where
  "getPlayerFromLeaderboard leaderboard address =
     map_option (\<lambda>o'. (le_rank o', le_ep o')) (find (\<lambda>o'. le_address o' = address) leaderboard)"

section \<open>Facts: the lookup of bases\<close>

lemma get_stringKey:
  "jsmap_get (foldl (\<lambda>m (k, v). jsmap_set m (toStringU k) v) m0 codec) s =
   (case map_of (rev (map (\<lambda>(k, v). (toStringU k, v)) codec)) s of
      None \<Rightarrow> jsmap_get m0 s | Some v \<Rightarrow> Some v)"
  by (induction codec arbitrary: m0)
    (auto simp: jsmap_get_set map_add_def split: option.splits)

lemma map_of_toStringU:
  "map_of (map (\<lambda>(k, v). (toStringU k, v)) codec) (toStringU k) = map_of codec (k :: u16)"
  by (induction codec) auto

lemma map_of_rev_distinct: "distinct (map fst xs) \<Longrightarrow> map_of (rev xs) = map_of xs"
proof (induction xs)
  case (Cons x xs)
  then have "map_of xs (fst x) = None"
    by (simp add: map_of_eq_None_iff)
  with Cons show ?case
    by (auto simp: map_add_def fun_eq_iff split: option.splits)
qed simp

lemma findEmoBase_eq:
  assumes "jsmap_wf codec"
  shows "findEmoBase id' (buildEmoBases codec) =
    (case jsmap_get codec id' of
       None \<Rightarrow> throwError (''emo base not found: '' @ toStringU id') | Some b \<Rightarrow> Inr b)"
proof -
  let ?l = "map (\<lambda>(k, v). (toStringU k, v)) codec"
  have "distinct (map fst codec)"
    using assms by (simp add: jsmap_wf_def)
  then have "distinct (map fst ?l)"
    by (simp add: comp_def case_prod_beta distinct_map inj_on_def)
  then have "map_of (rev ?l) = map_of ?l"
    by (rule map_of_rev_distinct)
  then show ?thesis
    by (simp add: findEmoBase_def findEmoBaseByStringId_def buildEmoBases_def get_stringKey
        map_of_toStringU split: option.splits)
qed

lemma update_nonmem: "k \<notin> fst ` set m \<Longrightarrow> jsmap_set m k v = m @ [(k, v)]"
  by (induction m) auto

lemma loadEmoBases_loop:
  "foldE loadEmoBases_step (used, m) bs = Inr r \<Longrightarrow> set used = fst ` set m \<Longrightarrow>
   distinct (map eb_id bs) \<and> eb_id ` set bs \<inter> set used = {} \<and> snd r = m @ map (\<lambda>b. (eb_id b, b)) bs"
proof (induction bs arbitrary: used m)
  case (Cons b bs)
  from Cons.prems(1) have "eb_id b \<notin> set used"
    by (auto simp: loadEmoBases_step_def split: if_splits)
  moreover from this Cons.prems(2) have "jsmap_set m (eb_id b) b = m @ [(eb_id b, b)]"
    by (intro update_nonmem) simp
  ultimately have "distinct (map eb_id bs) \<and> eb_id ` set bs \<inter> set (used @ [eb_id b]) = {} \<and>
      snd r = (m @ [(eb_id b, b)]) @ map (\<lambda>b. (eb_id b, b)) bs"
    using Cons.prems by (intro Cons.IH) (auto simp: loadEmoBases_step_def Let_def)
  with \<open>eb_id b \<notin> set used\<close> show ?case by auto
qed auto

lemma loadEmoBases_loop_ok:
  "distinct (map eb_id bs) \<Longrightarrow> eb_id ` set bs \<inter> set used = {} \<Longrightarrow>
   \<exists>r. foldE loadEmoBases_step (used, m) bs = Inr r"
  by (induction bs arbitrary: used m) (auto simp: loadEmoBases_step_def Let_def)

lemma loadEmoBases_ok_iff:
  "loadEmoBases bs = Inr m \<longleftrightarrow> distinct (map eb_id bs) \<and> m = map (\<lambda>b. (eb_id b, b)) bs"
proof
  assume "loadEmoBases bs = Inr m"
  then show "distinct (map eb_id bs) \<and> m = map (\<lambda>b. (eb_id b, b)) bs"
    using loadEmoBases_loop [of "[]" "[]" bs] by (auto simp: loadEmoBases_def mapR_eq_Inr_iff)
next
  assume r: "distinct (map eb_id bs) \<and> m = map (\<lambda>b. (eb_id b, b)) bs"
  then obtain r where "foldE loadEmoBases_step ([], []) bs = Inr r"
    using loadEmoBases_loop_ok [of bs "[]" "[]"] by auto
  then show "loadEmoBases bs = Inr m"
    using loadEmoBases_loop [of "[]" "[]" bs r] r by (simp add: loadEmoBases_def)
qed

text \<open>What the scripts load, the front finds: every base under its own id.\<close>

lemma load_then_find:
  assumes "loadEmoBases bs = Inr codec" "b \<in> set bs"
  shows "findEmoBase (eb_id b) (buildEmoBases codec) = Inr b"
proof -
  from assms(1) have d: "distinct (map eb_id bs)" and c: "codec = map (\<lambda>b. (eb_id b, b)) bs"
    by (simp_all add: loadEmoBases_ok_iff)
  then have "jsmap_wf codec" by (simp add: jsmap_wf_def comp_def)
  moreover have "jsmap_get codec (eb_id b) = Some b"
    using d assms(2) by (simp add: c map_of_eq_Some_iff comp_def)
  ultimately show ?thesis
    by (simp add: findEmoBase_eq)
qed

section \<open>Facts: texts\<close>

lemma getEmoTypString_ok [simp]: "getEmoTypString t = Inr (typ_name t)"
  by (cases t) (simp_all add: getEmoTypString_def typ_name_def emoTyps_def)

lemma getGradeText_ok_iff:
  "(\<exists>t. getGradeText (show_nat g) = Inr t) \<longleftrightarrow> 1 \<le> g \<and> g \<le> 6"
proof -
  have lit: "show_nat 1 = ''1''" "show_nat 2 = ''2''" "show_nat 3 = ''3''" "show_nat 4 = ''4''"
    "show_nat 5 = ''5''" "show_nat 6 = ''6''"
    by code_simp+
  have "show_nat g = ''1'' \<longleftrightarrow> g = 1" "show_nat g = ''2'' \<longleftrightarrow> g = 2" "show_nat g = ''3'' \<longleftrightarrow> g = 3"
    "show_nat g = ''4'' \<longleftrightarrow> g = 4" "show_nat g = ''5'' \<longleftrightarrow> g = 5" "show_nat g = ''6'' \<longleftrightarrow> g = 6"
    using show_nat_inject [of g 1] show_nat_inject [of g 2] show_nat_inject [of g 3]
      show_nat_inject [of g 4] show_nat_inject [of g 5] show_nat_inject [of g 6]
    by (simp_all only: lit)
  then show ?thesis
    by (auto simp: getGradeText_def)
qed

text \<open>Two code points have the same text only when they are equal.\<close>

lemma utf8_bytes:
  assumes "fromCodePoint n = Inr s"
  shows "n < 1114112"
    and "map of_char s = (if n < 128 then [n]
      else if n < 2048 then [192 + n div 64, 128 + n mod 64]
      else if n < 65536 then [224 + n div 4096, 128 + n div 64 mod 64, 128 + n mod 64]
      else [240 + n div 262144, 128 + n div 4096 mod 64, 128 + n div 64 mod 64, 128 + n mod 64])"
proof -
  have of_char_of: "of_char (char_of k) = k" if "k < 256" for k :: nat
    using that by simp
  show n: "n < 1114112"
    using assms by (auto simp: fromCodePoint_def split: if_splits)
  have m: "k mod 64 < 64" for k :: nat by simp
  have "n div 64 < 32" if "n < 2048" using that by auto
  moreover have "n div 4096 < 16" if "n < 65536" using that by auto
  moreover have "n div 262144 < 5" using n by auto
  ultimately show "map of_char s = (if n < 128 then [n]
      else if n < 2048 then [192 + n div 64, 128 + n mod 64]
      else if n < 65536 then [224 + n div 4096, 128 + n div 64 mod 64, 128 + n mod 64]
      else [240 + n div 262144, 128 + n div 4096 mod 64, 128 + n div 64 mod 64, 128 + n mod 64])"
    using assms n
    by (auto simp: fromCodePoint_def utf8_tail_def of_char_of less_trans [OF m] split: if_splits
        simp del: of_char_mod_256)
qed

fun utf8_value :: "nat list \<Rightarrow> nat" where
  "utf8_value [a] = a"
| "utf8_value [a, b] = 64 * (a - 192) + (b - 128)"
| "utf8_value [a, b, c] = 4096 * (a - 224) + 64 * (b - 128) + (c - 128)"
| "utf8_value [a, b, c, d] = 262144 * (a - 240) + 4096 * (b - 128) + 64 * (c - 128) + (d - 128)"
| "utf8_value _ = 0"

lemma fromCodePoint_value: "fromCodePoint n = Inr s \<Longrightarrow> utf8_value (map of_char s) = n"
proof -
  assume s: "fromCodePoint n = Inr s"
  have d: "n div 4096 = n div 64 div 64" "n div 262144 = n div 4096 div 64"
    by (simp_all flip: div_mult2_eq)
  have "64 * (n div 64) + n mod 64 = n"
    "64 * (n div 4096) + n div 64 mod 64 = n div 64"
    "64 * (n div 262144) + n div 4096 mod 64 = n div 4096"
    unfolding d by simp_all
  then have "262144 * (n div 262144) + 4096 * (n div 4096 mod 64) + 64 * (n div 64 mod 64) + n mod 64 = n"
    "4096 * (n div 4096) + 64 * (n div 64 mod 64) + n mod 64 = n"
    "64 * (n div 64) + n mod 64 = n"
    by linarith+
  then show ?thesis
    by (simp add: utf8_bytes(2) [OF s])
qed

lemma fromCodePoint_inject: "fromCodePoint m = Inr s \<Longrightarrow> fromCodePoint n = Inr s \<Longrightarrow> m = n"
  using fromCodePoint_value by metis

lemma fromCodePoint_ok_iff: "(\<exists>s. fromCodePoint n = Inr s) \<longleftrightarrow> n < 1114112"
  by (auto simp: fromCodePoint_def)

section \<open>Facts: decks\<close>

lemma show_grade_inject: "toStringU (g :: u8) = toStringU h \<longleftrightarrow> g = h"
  by simp

lemma groupEmoBasesByGrades_Inr:
  assumes "groupEmoBasesByGrades bases ids = Inr gs"
  obtains ms where "list_all2 (\<lambda>id' m. findEmoBaseByStringId id' bases = Inr m) ids ms"
    and "gs = sort_key grade_order (groupBy ms (\<lambda>m _ _. toStringU (eb_grade m)))"
  using assms by (auto simp: groupEmoBasesByGrades_def mapR_eq_Inr_iff mapE_eq_Inr_iff)

lemma group_of_grade:
  assumes "groupEmoBasesByGrades bases ids = Inr gs" "(k, ms') \<in> set gs"
  shows "ms' \<noteq> []" and "\<forall>m\<in>set ms'. toStringU (eb_grade m) = k"
    and "grade_order (k, ms') = toNumber (eb_grade (hd ms'))"
proof -
  from assms obtain ms where "(k, ms') \<in> set (groupBy ms (\<lambda>m _ _. toStringU (eb_grade m)))"
    by (auto elim!: groupEmoBasesByGrades_Inr)
  then show ne: "ms' \<noteq> []" and all: "\<forall>m\<in>set ms'. toStringU (eb_grade m) = k"
    by (rule groupBy_nonempty, auto simp: groupBy_group)
  from ne all have "k = toStringU (eb_grade (hd ms'))" by simp
  then show "grade_order (k, ms') = toNumber (eb_grade (hd ms'))"
    by (simp add: grade_order_def toStringU_def)
qed

text \<open>The groups come in strictly increasing order of their grades.\<close>

lemma grades_sorted:
  assumes "groupEmoBasesByGrades bases ids = Inr gs"
  shows "sorted (map grade_order gs)" "distinct (map grade_order gs)"
proof -
  obtain ms where gs: "gs = sort_key grade_order (groupBy ms (\<lambda>m _ _. toStringU (eb_grade m)))"
    using assms by (auto elim!: groupEmoBasesByGrades_Inr)
  then show "sorted (map grade_order gs)" by simp
  let ?g = "groupBy ms (\<lambda>m _ _. toStringU (eb_grade m))"
  have keys: "map fst ?g = uniqueArray (map (\<lambda>m. toStringU (eb_grade m)) ms)"
    by (simp add: groupBy_keys)
  have "distinct (map fst ?g)" by (simp add: keys)
  moreover have "inj_on grade_order (set ?g)"
  proof (rule inj_onI)
    fix p q assume p: "p \<in> set ?g" and q: "q \<in> set ?g" and eq: "grade_order p = grade_order q"
    have dec: "\<exists>g :: u8. fst r = toStringU g" if "r \<in> set ?g" for r
    proof -
      from that have "fst r \<in> set (map fst ?g)" by simp
      then show ?thesis unfolding keys by auto
    qed
    from dec [OF p] dec [OF q] eq have "fst p = fst q"
      by (auto simp: grade_order_def toStringU_def)
    with p q \<open>distinct (map fst ?g)\<close> show "p = q"
      by (metis eq_key_imp_eq_value prod.collapse)
  qed
  ultimately have "distinct (map grade_order ?g)"
    by (auto simp: distinct_map)
  then show "distinct (map grade_order gs)"
    by (simp add: gs distinct_map)
qed

text \<open>The default deck has one emoji of each grade there is, from the built ones.\<close>

lemma getDefaultDeck_ok_iff:
  "(\<exists>deck. getDefaultDeck bases ids = Inr deck) \<longleftrightarrow>
   (\<forall>id'\<in>set ids. \<exists>m. findEmoBaseByStringId id' bases = Inr m)"
proof
  assume "\<exists>deck. getDefaultDeck bases ids = Inr deck"
  then show "\<forall>id'\<in>set ids. \<exists>m. findEmoBaseByStringId id' bases = Inr m"
    by (auto simp: getDefaultDeck_def bindE_eq_Inr_iff groupEmoBasesByGrades_def mapR_eq_Inr_iff
        dest!: mapE_ok_iff [THEN iffD1, OF exI])
next
  assume "\<forall>id'\<in>set ids. \<exists>m. findEmoBaseByStringId id' bases = Inr m"
  then obtain gs where gs: "groupEmoBasesByGrades bases ids = Inr gs"
    unfolding mapE_ok_iff [symmetric] by (auto simp: groupEmoBasesByGrades_def)
  have "\<exists>y. (case p of (_, ms) \<Rightarrow> bindE (orTypeError (js_at ms 0)) (\<lambda>m. Inr (toStringU (eb_id m)))) = Inr y"
    if "p \<in> set gs" for p
    using group_of_grade(1) [OF gs, of "fst p" "snd p"] that
    by (cases p) (auto simp: js_at_def)
  then show "\<exists>deck. getDefaultDeck bases ids = Inr deck"
    by (simp add: getDefaultDeck_def gs mapE_ok_iff)
qed

lemma getDefaultDeck_Inr:
  assumes "getDefaultDeck bases ids = Inr deck"
  obtains gs where "groupEmoBasesByGrades bases ids = Inr gs"
    and "deck = map (\<lambda>(_, ms). toStringU (eb_id (hd ms))) gs"
proof -
  from assms obtain gs where gs: "groupEmoBasesByGrades bases ids = Inr gs"
    and d: "mapE (\<lambda>(_, ms). bindE (orTypeError (js_at ms 0)) (\<lambda>m. Inr (toStringU (eb_id m)))) gs = Inr deck"
    by (auto simp: getDefaultDeck_def bindE_eq_Inr_iff)
  have "mapE (\<lambda>(_, ms). bindE (orTypeError (js_at ms 0)) (\<lambda>m. Inr (toStringU (eb_id m)))) gs =
      Inr (map (\<lambda>(_, ms). toStringU (eb_id (hd ms))) gs)"
    by (rule mapE_Inr) (use group_of_grade(1) [OF gs] in \<open>auto simp: js_at_def hd_conv_nth\<close>)
  with that gs d show thesis by simp
qed

lemma set_groups_grades:
  assumes "groupEmoBasesByGrades bases ids = Inr gs"
  shows "\<exists>ms. list_all2 (\<lambda>id' m. findEmoBaseByStringId id' bases = Inr m) ids ms \<and>
    toNumber ` eb_grade ` set ms = set (map grade_order gs) \<and>
    (\<forall>(k, ms')\<in>set gs. set ms' \<subseteq> set ms)"
proof -
  obtain ms where ms: "list_all2 (\<lambda>id' m. findEmoBaseByStringId id' bases = Inr m) ids ms"
    and gs: "gs = sort_key grade_order (groupBy ms (\<lambda>m _ _. toStringU (eb_grade m)))"
    using assms by (rule groupEmoBasesByGrades_Inr)
  have "set (map grade_order gs) = (\<lambda>k. case parseInt10 k of None \<Rightarrow> 0 | Some n \<Rightarrow> n) `
      set (map fst (groupBy ms (\<lambda>m _ _. toStringU (eb_grade m))))"
    by (simp add: gs grade_order_def image_image)
  also have "\<dots> = toNumber ` eb_grade ` set ms"
    unfolding groupBy_keys by (simp add: image_image toStringU_def)
  finally show ?thesis
    using ms by (intro exI [of _ ms]) (auto simp: gs groupBy_group)
qed

section \<open>Facts: the end of a battle\<close>

lemma finishBattle_cases:
  "finishBattle battleAll sel s bases = Inr (s', place) \<Longrightarrow>
   ms_pool s' = ms_pool s \<and> ms_board s' = ms_board s \<and> ms_grade s' = ms_grade s \<and>
   ms_seed s' = ms_seed s \<and> ms_ghosts s' = ms_ghosts s \<and>
   (case place of
      Some p \<Rightarrow> 0 < p \<and> p < 256 \<and> ms_turn s' = ms_turn s \<and> ms_upgradeCoin s' = ms_upgradeCoin s
    | None \<Rightarrow> ms_turn s' = ms_turn s + 1 \<and>
        ms_upgradeCoin s' = map_option (\<lambda>c. max (c - 1) 0) (ms_upgradeCoin s))"
proof -
  assume f: "finishBattle battleAll sel s bases = Inr (s', place)"
  let ?s = "\<lambda>h g. s\<lparr>ms_health := h, ms_ghostStates := g\<rparr>"
  from f obtain h g p where r:
    "battleAll (ms_board s) (ms_grade s) (ms_health s) (ms_ghosts s) (ms_ghostStates s)
       (ms_battleGhostIndex s) (ms_turn s) (ms_seed s) bases = Inr (h, g, p)"
    by (auto simp: finishBattle_def bindE_eq_Inr_iff)
  show ?thesis
  proof (cases "p = None \<or> p = Some 0")
    case True
    with f r show ?thesis
      by (auto simp: finishBattle_def bindE_eq_Inr_iff)
  next
    case False
    then obtain q where "p = Some q" "q \<noteq> 0" by auto
    with f r show ?thesis
      using unsigned_less [of q, where ?'a = nat] unat_gt_0 [of q]
      by (auto simp: finishBattle_def Let_def)
  qed
qed

lemma translateLeaderboardCodec_nth:
  "i < length l \<Longrightarrow> translateLeaderboardCodec l t ! i =
     \<lparr>le_rank = i + 1, le_ep = toNumber (fst (l ! i)), le_address = t (snd (l ! i))\<rparr>"
  by (simp add: translateLeaderboardCodec_def nth_enumerate_eq case_prod_unfold)

lemma length_translateLeaderboardCodec [simp]: "length (translateLeaderboardCodec l t) = length l"
  by (simp add: translateLeaderboardCodec_def)

end
