(* ===== verification/RustShop.thy ===== *)
theory RustShop
  imports MtcUtils
begin

text \<open>
  The board of the shop in Rust, which the front runs as a WebAssembly module:
  \<open>common/rs/src/mtc/shop/board.rs\<close> and \<open>common.rs\<close>, with the parts of \<open>mtc/utils.rs\<close> they use.
  An \<open>Err\<close> is a \<open>JsError\<close>, a panic is \<open>WasmTrap\<close>; integers are words, with the arithmetic of the
  release build. The front's build has the feature \<open>view-logs\<close>, so every log is kept. The shuffle of
  the \<open>rand\<close> crate is a parameter.

  An emoji that enters the board may set another one, and three of a kind are replaced by a triple,
  which enters in turn. The functions of that recursion take the function that adds an emoji as an
  argument, and \<open>add_emo_with_board_emo\<close> ties the knot with fuel, whose end is the stack overflow of
  a call that does not return (\<open>JsRangeError\<close>).
\<close>

section \<open>Saturating arithmetic\<close>

definition saturating_add :: "'a::len word \<Rightarrow> 'a word \<Rightarrow> 'a word" where
  "saturating_add a b = (if a + b < a then - 1 else a + b)"

definition saturating_sub :: "'a::len word \<Rightarrow> 'a word \<Rightarrow> 'a word" where
  "saturating_sub a b = (if a < b then 0 else a - b)"

definition saturating_mul :: "'a::len word \<Rightarrow> 'a word \<Rightarrow> 'a word" where
  "saturating_mul a b =
     (if unat a * unat b < 2 ^ LENGTH('a) then a * b else - 1)"

section \<open>Emojis and the board (common.rs)\<close>

text \<open>A \<open>ShopBoardEmo\<close> is a \<open>BoardEmo\<close> with an id of its own.\<close>

record ShopBoardEmo = mtc_BoardEmo +
  se_id :: u16

record shop_state =
  sh_board :: "ShopBoardEmo list"
  sh_logs :: mtc_shop_BoardLogs
  sh_next_id :: u16

definition into_board_emo :: "ShopBoardEmo \<Rightarrow> mtc_BoardEmo" where
  "into_board_emo e = mtc_BoardEmo.truncate e"

definition generate_shop_board_emo_id :: "shop_state \<Rightarrow> u16 \<times> shop_state" where
  "generate_shop_board_emo_id s = (sh_next_id s, s\<lparr>sh_next_id := sh_next_id s + 1\<rparr>)"

definition from_attributes ::
  "u16 list \<Rightarrow> u16 \<Rightarrow> emo_Attributes \<Rightarrow> shop_state \<Rightarrow> ShopBoardEmo \<times> shop_state" where
  "from_attributes mtc_emo_ids base_id attributes s =
     (let (i, s) = generate_shop_board_emo_id s in
      (\<lparr>be_base_id = base_id, be_attributes = attributes, be_mtc_emo_ids = mtc_emo_ids, se_id = i\<rparr>, s))"

definition from_board_emo :: "mtc_BoardEmo \<Rightarrow> shop_state \<Rightarrow> ShopBoardEmo \<times> shop_state" where
  "from_board_emo e = from_attributes (be_mtc_emo_ids e) (be_base_id e) (be_attributes e)"

definition build_emo_attributes :: "emo_Base \<Rightarrow> bool \<Rightarrow> emo_Attributes" where
  "build_emo_attributes base is_triple =
     \<lparr>at_attack = (if is_triple then saturating_mul (eb_attack base) 2 else eb_attack base),
      at_health = (if is_triple then saturating_mul (eb_health base) 2 else eb_health base),
      at_abilities = eb_abilities base, at_is_triple = is_triple\<rparr>"

definition new_with_base ::
  "u16 list \<Rightarrow> emo_Base \<Rightarrow> bool \<Rightarrow> shop_state \<Rightarrow> ShopBoardEmo \<times> shop_state" where
  "new_with_base mtc_emo_ids base is_triple =
     from_attributes mtc_emo_ids (eb_id base) (build_emo_attributes base is_triple)"

fun from_board :: "mtc_Board \<Rightarrow> shop_state \<Rightarrow> shop_state" where
  "from_board [] s = s"
| "from_board (e # es) s =
     (let (e', s) = from_board_emo e s in from_board es (s\<lparr>sh_board := sh_board s @ [e']\<rparr>))"

definition get_peri_abilities :: "ShopBoardEmo \<Rightarrow> emo_ability_shop_Peri list" where
  "get_peri_abilities e =
     List.map_filter (\<lambda>ability. case ability of Ability_Shop (Shop_Peri p) \<Rightarrow> Some p | _ \<Rightarrow> None)
       (at_abilities (be_attributes e))"

text \<open>The first emoji with an id, and its index.\<close>

fun index_of_id :: "u16 \<Rightarrow> ShopBoardEmo list \<Rightarrow> nat option" where
  "index_of_id i [] = None"
| "index_of_id i (e # es) = (if se_id e = i then Some 0 else map_option Suc (index_of_id i es))"

definition get_emo_by_id :: "shop_state \<Rightarrow> u16 \<Rightarrow> ShopBoardEmo js" where
  "get_emo_by_id s emo_id =
     (case index_of_id emo_id (sh_board s) of
        None \<Rightarrow> throwError (''get_emo_by_id: emo not found (id '' @ toStringU emo_id @ '')'')
      | Some k \<Rightarrow> Inr (sh_board s ! k))"

definition get_emo_index_by_id :: "shop_state \<Rightarrow> u16 \<Rightarrow> u8 js" where
  "get_emo_index_by_id s emo_id =
     (case index_of_id emo_id (sh_board s) of
        None \<Rightarrow> throwError (''get_emo_index_by_id: emo not found (id '' @ toStringU emo_id @ '')'')
      | Some k \<Rightarrow> Inr (word_of_nat k))"

definition get_emo_id_by_index :: "shop_state \<Rightarrow> u8 \<Rightarrow> u16 js" where
  "get_emo_id_by_index s emo_index =
     (case js_at (sh_board s) (toNumber emo_index) of
        None \<Rightarrow> throwError (''get_emo_by_index: emo not found (index '' @ toStringU emo_index @ '')'')
      | Some e \<Rightarrow> Inr (se_id e))"

definition emo_ids :: "shop_state \<Rightarrow> u16 list" where
  "emo_ids s = map se_id (sh_board s)"

definition count_emos :: "shop_state \<Rightarrow> u8" where
  "count_emos s = word_of_nat (length (sh_board s))"

definition add_log :: "mtc_shop_BoardLog \<Rightarrow> shop_state \<Rightarrow> shop_state" where
  "add_log l s = s\<lparr>sh_logs := sh_logs s @ [l]\<rparr>"

text \<open>\<open>Vec::swap\<close>, \<open>Vec::insert\<close> and \<open>Vec::remove\<close> panic out of range.\<close>

definition swap_emos :: "u8 \<Rightarrow> u8 \<Rightarrow> shop_state \<Rightarrow> shop_state js" where
  "swap_emos a b s =
     (if toNumber a < length (sh_board s) \<and> toNumber b < length (sh_board s)
      then Inr (s\<lparr>sh_board := swap_at (toNumber a) (toNumber b) (sh_board s)\<rparr>) else Inl WasmTrap)"

definition insert_emo :: "u8 \<Rightarrow> ShopBoardEmo \<Rightarrow> shop_state \<Rightarrow> shop_state js" where
  "insert_emo index e s =
     (if toNumber index \<le> length (sh_board s)
      then Inr (s\<lparr>sh_board := take (toNumber index) (sh_board s) @ e # drop (toNumber index) (sh_board s)\<rparr>)
      else Inl WasmTrap)"

definition remove_emo :: "u8 \<Rightarrow> shop_state \<Rightarrow> (ShopBoardEmo \<times> shop_state) js" where
  "remove_emo index s =
     (if toNumber index < length (sh_board s)
      then Inr (sh_board s ! toNumber index,
        s\<lparr>sh_board := take (toNumber index) (sh_board s) @ drop (Suc (toNumber index)) (sh_board s)\<rparr>)
      else Inl WasmTrap)"

definition get_board_pre_abilities :: "shop_state \<Rightarrow> (u16 \<times> emo_ability_shop_Pre) list" where
  "get_board_pre_abilities s =
     concat (map (\<lambda>e. List.map_filter
        (\<lambda>ability. case ability of Ability_Shop (Shop_Pre p) \<Rightarrow> Some (se_id e, p) | _ \<Rightarrow> None)
        (at_abilities (be_attributes e))) (sh_board s))"

definition get_board_peri_abilities :: "shop_state \<Rightarrow> (u16 \<times> emo_ability_shop_Peri) list" where
  "get_board_peri_abilities s =
     concat (map (\<lambda>e. map (\<lambda>p. (se_id e, p)) (get_peri_abilities e)) (sh_board s))"


section \<open>Conditions (mtc/utils.rs)\<close>

definition BOARD_EMO_MAX_COUNT :: u8 where "BOARD_EMO_MAX_COUNT = 7"

definition find_base :: "emo_Bases \<Rightarrow> u16 \<Rightarrow> emo_Base js" where
  "find_base emo_bases i =
     (case jsmap_get emo_bases i of
        None \<Rightarrow> throwError (''emo base not found: '' @ toStringU i) | Some b \<Rightarrow> Inr b)"

definition is_matched_typ :: "emo_Typ option \<Rightarrow> emo_Typ \<Rightarrow> bool" where
  "is_matched_typ required_typ test_typ =
     (case required_typ of Some typ \<Rightarrow> typ = test_typ | None \<Rightarrow> True)"

definition is_matched_triple :: "bool option \<Rightarrow> bool \<Rightarrow> bool" where
  "is_matched_triple required_triple test_triple =
     (case required_triple of Some r \<Rightarrow> test_triple = r | None \<Rightarrow> True)"

definition is_matched_typ_and_triple ::
  "emo_ability_TypOptAndIsTripleOpt \<Rightarrow> emo_Typ \<Rightarrow> bool \<Rightarrow> bool" where
  "is_matched_typ_and_triple typ_and_triple typ is_triple =
     (is_matched_typ (typ_opt typ_and_triple) typ \<and>
      is_matched_triple (is_triple_opt typ_and_triple) is_triple)"

definition double_attack_and_health_if :: "bool \<Rightarrow> u16 \<Rightarrow> u16 \<Rightarrow> u16 \<times> u16" where
  "double_attack_and_health_if condition attack health =
     (if condition then (saturating_mul attack 2, saturating_mul health 2) else (attack, health))"

section \<open>Pointers and targets (board.rs)\<close>

datatype EmoPointer = OnBoard u16 | Removed ShopBoardEmo u8

definition get_emo :: "EmoPointer \<Rightarrow> shop_state \<Rightarrow> ShopBoardEmo js" where
  "get_emo p s = (case p of OnBoard emo_id \<Rightarrow> get_emo_by_id s emo_id | Removed e _ \<Rightarrow> Inr e)"

definition get_emo_id :: "EmoPointer \<Rightarrow> u16" where
  "get_emo_id p = (case p of OnBoard emo_id \<Rightarrow> emo_id | Removed e _ \<Rightarrow> se_id e)"

definition get_emo_index :: "EmoPointer \<Rightarrow> shop_state \<Rightarrow> u8 js" where
  "get_emo_index p s = (case p of OnBoard emo_id \<Rightarrow> get_emo_index_by_id s emo_id | Removed _ i \<Rightarrow> Inr i)"

text \<open>The index right of an emoji: a removed one has left its own to its right neighbour.\<close>

definition right_index :: "EmoPointer \<Rightarrow> shop_state \<Rightarrow> u8 js" where
  "right_index p s =
     (case p of
        OnBoard emo_id \<Rightarrow> mapR (\<lambda>i. i + 1) (get_emo_index_by_id s emo_id)
      | Removed _ prev_emo_index \<Rightarrow> Inr prev_emo_index)"

definition get_right_emo_id :: "shop_state \<Rightarrow> EmoPointer \<Rightarrow> u16 option js" where
  "get_right_emo_id s origin =
     mapR (\<lambda>i. case get_emo_id_by_index s i of Inl e \<Rightarrow> None | Inr j \<Rightarrow> Some j) (right_index origin s)"

definition get_left_emo_id :: "shop_state \<Rightarrow> EmoPointer \<Rightarrow> u16 option js" where
  "get_left_emo_id s origin =
     bindE (get_emo_index origin s) (\<lambda>index.
       if index = 0 then Inr None else mapR Some (get_emo_id_by_index s (index - 1)))"

definition is_matched_typ_and_triple_board_emo ::
  "emo_ability_TypOptAndIsTripleOpt \<Rightarrow> ShopBoardEmo \<Rightarrow> emo_Bases \<Rightarrow> bool js" where
  "is_matched_typ_and_triple_board_emo typ_and_triple board_emo emo_bases =
     (if typ_opt typ_and_triple = None
      then Inr (is_matched_triple (is_triple_opt typ_and_triple) (at_is_triple (be_attributes board_emo)))
      else mapR (\<lambda>base. is_matched_typ_and_triple typ_and_triple (eb_typ base)
                          (at_is_triple (be_attributes board_emo)))
             (find_base emo_bases (be_base_id board_emo)))"

definition count_emos_by_typ_and_triple ::
  "shop_state \<Rightarrow> EmoPointer \<Rightarrow> emo_ability_TypOptAndIsTripleOpt \<Rightarrow> emo_Bases \<Rightarrow> u8 js" where
  "count_emos_by_typ_and_triple s emo_pointer typ_and_triple emo_bases =
     foldE (\<lambda>n e.
        if se_id e = get_emo_id emo_pointer then Inr n
        else mapR (\<lambda>b. if b then n + 1 else n)
               (is_matched_typ_and_triple_board_emo typ_and_triple e emo_bases))
       0 (sh_board s)"

definition get_emo_ids_by_target_others ::
  "shop_state \<Rightarrow> EmoPointer \<Rightarrow> emo_ability_Destination \<Rightarrow> emo_ability_TypOptAndIsTripleOpt \<Rightarrow> emo_Bases \<Rightarrow>
   u16 list js" where
  "get_emo_ids_by_target_others s emo_pointer destination typ_and_triple emo_bases =
     bindE (case destination of
         Destination_Right \<Rightarrow> mapR (\<lambda>o'. case o' of Some i \<Rightarrow> [i] | None \<Rightarrow> []) (get_right_emo_id s emo_pointer)
       | Destination_Left \<Rightarrow> mapR (\<lambda>o'. case o' of Some i \<Rightarrow> [i] | None \<Rightarrow> []) (get_left_emo_id s emo_pointer)
       | Destination_All \<Rightarrow> Inr (filter (\<lambda>i. i \<noteq> get_emo_id emo_pointer) (emo_ids s)))
      (foldE (\<lambda>filtered_ids i.
          bindE (get_emo_by_id s i) (\<lambda>e.
            mapR (\<lambda>b. if b then filtered_ids @ [i] else filtered_ids)
              (is_matched_typ_and_triple_board_emo typ_and_triple e emo_bases))) [])"

definition get_emo_ids_by_target ::
  "shop_state \<Rightarrow> EmoPointer \<Rightarrow> emo_ability_Target \<Rightarrow> emo_Bases \<Rightarrow> u16 list js" where
  "get_emo_ids_by_target s emo_pointer target emo_bases =
     (case target of
        Target_Oneself \<Rightarrow> Inr (case emo_pointer of OnBoard emo_id \<Rightarrow> [emo_id] | Removed _ _ \<Rightarrow> [])
      | Target_Others (emo_ability_Target_Others destination typ_and_triple) \<Rightarrow>
          get_emo_ids_by_target_others s emo_pointer destination typ_and_triple emo_bases)"

section \<open>Actions that change emojis on the board\<close>

definition update_emo :: "nat \<Rightarrow> (emo_Attributes \<Rightarrow> emo_Attributes) \<Rightarrow> shop_state \<Rightarrow> shop_state" where
  "update_emo k f s =
     (let e = sh_board s ! k in
      s\<lparr>sh_board := (sh_board s)[k := e\<lparr>be_attributes := f (be_attributes e)\<rparr>]\<rparr>)"

definition add_attack_and_health_to_emo :: "u16 \<Rightarrow> u16 \<Rightarrow> shop_state \<Rightarrow> u16 \<Rightarrow> shop_state js" where
  "add_attack_and_health_to_emo attack health s board_emo_id =
     (case index_of_id board_emo_id (sh_board s) of
        None \<Rightarrow> throwError
          (''get_emo_mut_and_index_by_id: emo not found (id '' @ toStringU board_emo_id @ '')'')
      | Some k \<Rightarrow>
          let a = be_attributes (sh_board s ! k);
              calculated_attack = saturating_add (at_attack a) attack;
              calculated_health = saturating_add (at_health a) health;
              s = add_log (BoardLog_IncreaseStats (mtc_shop_BoardLog_IncreaseStats (word_of_nat k)
                     attack health calculated_attack calculated_health)) s
          in Inr (update_emo k (\<lambda>a. a\<lparr>at_attack := calculated_attack, at_health := calculated_health\<rparr>) s))"

definition add_attack_and_health_to_emos ::
  "EmoPointer \<Rightarrow> emo_ability_Target \<Rightarrow> u16 \<Rightarrow> u16 \<Rightarrow> emo_Bases \<Rightarrow> shop_state \<Rightarrow> shop_state js" where
  "add_attack_and_health_to_emos emo_pointer target attack health emo_bases s =
     bindE (get_emo_ids_by_target s emo_pointer target emo_bases)
       (foldE (add_attack_and_health_to_emo attack health) s)"

definition increase_stats ::
  "EmoPointer \<Rightarrow> bool \<Rightarrow> emo_Bases \<Rightarrow> emo_ability_Target \<Rightarrow> u16 \<Rightarrow> u16 \<Rightarrow> shop_state \<Rightarrow> shop_state js" where
  "increase_stats pointer is_triple_action emo_bases target attack health s =
     (let (attack, health) = double_attack_and_health_if is_triple_action attack health in
      add_attack_and_health_to_emos pointer target attack health emo_bases s)"

definition increase_stats_of_adjacent_menagerie ::
  "EmoPointer \<Rightarrow> bool \<Rightarrow> emo_Bases \<Rightarrow> u16 \<Rightarrow> u16 \<Rightarrow> shop_state \<Rightarrow> shop_state js" where
  "increase_stats_of_adjacent_menagerie pointer is_triple_action emo_bases attack health s =
     (let (attack, health) = double_attack_and_health_if is_triple_action attack health in
      bindE (get_left_emo_id s pointer) (\<lambda>left.
      bindE (case left of
          Some i \<Rightarrow>
            bindE (get_emo_by_id s i) (\<lambda>e.
            bindE (find_base emo_bases (be_base_id e)) (\<lambda>base.
              mapR (\<lambda>s. (Some (eb_typ base), s)) (add_attack_and_health_to_emo attack health s (se_id e))))
        | None \<Rightarrow> Inr (None, s)) (\<lambda>(left_typ_opt, s).
      bindE (get_right_emo_id s pointer) (\<lambda>right.
        case right of
          None \<Rightarrow> Inr s
        | Some i \<Rightarrow>
            bindE (get_emo_by_id s i) (\<lambda>e.
              case left_typ_opt of
                Some left_typ \<Rightarrow>
                  bindE (find_base emo_bases (be_base_id e)) (\<lambda>base.
                    if left_typ \<noteq> eb_typ base then add_attack_and_health_to_emo attack health s (se_id e)
                    else Inr s)
              | None \<Rightarrow> add_attack_and_health_to_emo attack health s (se_id e))))))"

definition increase_stats_by_grade ::
  "EmoPointer \<Rightarrow> bool \<Rightarrow> emo_Bases \<Rightarrow> emo_ability_Target \<Rightarrow> u16 \<Rightarrow> u16 \<Rightarrow> shop_state \<Rightarrow> shop_state js" where
  "increase_stats_by_grade pointer is_triple_action emo_bases target attack health s =
     (let (attack, health) = double_attack_and_health_if is_triple_action attack health in
      bindE (get_emo pointer s) (\<lambda>e.
      bindE (find_base emo_bases (be_base_id e)) (\<lambda>base.
        let grade = ucast (eb_grade base) :: u16 in
        add_attack_and_health_to_emos pointer target (saturating_mul attack grade)
          (saturating_mul health grade) emo_bases s)))"

definition increase_stats_by_emo_count ::
  "EmoPointer \<Rightarrow> bool \<Rightarrow> emo_Bases \<Rightarrow> emo_ability_Target \<Rightarrow> emo_ability_TypOptAndIsTripleOpt \<Rightarrow>
   u16 \<Rightarrow> u16 \<Rightarrow> shop_state \<Rightarrow> shop_state js" where
  "increase_stats_by_emo_count pointer is_triple_action emo_bases target count_condition attack health s =
     (let (attack, health) = double_attack_and_health_if is_triple_action attack health in
      bindE (count_emos_by_typ_and_triple s pointer count_condition emo_bases) (\<lambda>n.
        let count' = ucast n :: u16 in
        add_attack_and_health_to_emos pointer target (saturating_mul attack count')
          (saturating_mul health count') emo_bases s))"

definition add_ability_to ::
  "emo_ability_Ability \<Rightarrow> shop_state \<Rightarrow> u16 \<Rightarrow> shop_state js" where
  "add_ability_to ability s i =
     (case index_of_id i (sh_board s) of
        None \<Rightarrow> throwError (''get_emo_mut_and_index_by_id: emo not found (id '' @ toStringU i @ '')'')
      | Some k \<Rightarrow>
          let a = be_attributes (sh_board s ! k);
              is_special = (case ability of Ability_Battle (Battle_Special _) \<Rightarrow> True | _ \<Rightarrow> False)
          in if is_special \<and> ability \<in> set (at_abilities a) then Inr s
             else Inr (update_emo k (\<lambda>a. a\<lparr>at_abilities := at_abilities a @ [ability]\<rparr>)
                   (add_log (BoardLog_AddAbility
                      (mtc_shop_BoardLog_AddAbility (word_of_nat k) ability (at_is_triple a))) s)))"

definition add_ability ::
  "EmoPointer \<Rightarrow> emo_Bases \<Rightarrow> emo_ability_Target \<Rightarrow> emo_ability_Ability \<Rightarrow> shop_state \<Rightarrow> shop_state js" where
  "add_ability emo_pointer emo_bases target ability s =
     bindE (get_emo_ids_by_target s emo_pointer target emo_bases) (foldE (add_ability_to ability) s)"


section \<open>Actions, with the function that adds an emoji as an argument\<close>

type_synonym adder = "shop_state \<Rightarrow> ShopBoardEmo \<Rightarrow> u8 \<Rightarrow> (u8 \<times> shop_state) js"

text \<open>The coins gotten so far and the state.\<close>

type_synonym coin_state = "u8 \<times> shop_state"

definition get_coin :: "bool \<Rightarrow> u8 \<Rightarrow> u8 \<Rightarrow> u8" where
  "get_coin is_triple_action coin gotten_coin =
     saturating_add gotten_coin (if is_triple_action then saturating_mul coin 2 else coin)"

definition get_coin_by_emo_count_div ::
  "EmoPointer \<Rightarrow> emo_Bases \<Rightarrow> bool \<Rightarrow> emo_ability_TypOptAndIsTripleOpt \<Rightarrow> u8 \<Rightarrow> coin_state \<Rightarrow> coin_state js" where
  "get_coin_by_emo_count_div pointer emo_bases is_triple_action count_condition divisor cs =
     (case cs of (gotten_coin, s) \<Rightarrow>
        bindE (count_emos_by_typ_and_triple s pointer count_condition emo_bases) (\<lambda>count'.
          if divisor = 0 then Inl WasmTrap
          else Inr (get_coin is_triple_action (count' div divisor) gotten_coin, s)))"

definition add_emo_with ::
  "adder \<Rightarrow> u16 list \<Rightarrow> u16 \<Rightarrow> bool \<Rightarrow> u8 \<Rightarrow> emo_Bases \<Rightarrow> shop_state \<Rightarrow> (u8 \<times> shop_state) js" where
  "add_emo_with add mtc_emo_ids base_id is_triple emo_index emo_bases s =
     bindE (find_base emo_bases base_id) (\<lambda>base.
       let (board_emo, s) = new_with_base mtc_emo_ids base is_triple s in add s board_emo emo_index)"

definition set_emo ::
  "adder \<Rightarrow> EmoPointer \<Rightarrow> bool \<Rightarrow> emo_Bases \<Rightarrow> u16 \<Rightarrow> coin_state \<Rightarrow> coin_state js" where
  "set_emo add action_emo_pointer is_triple_action emo_bases base_id cs =
     (case cs of (gotten_coin, s) \<Rightarrow>
        if count_emos s < BOARD_EMO_MAX_COUNT
        then bindE (right_index action_emo_pointer s) (\<lambda>index.
             mapR (\<lambda>(coin, s). (saturating_add gotten_coin coin, s))
               (add_emo_with add [] base_id is_triple_action index emo_bases s))
        else Inr (gotten_coin, s))"

definition on_state :: "(shop_state \<Rightarrow> shop_state js) \<Rightarrow> coin_state \<Rightarrow> coin_state js" where
  "on_state f cs = mapR (Pair (fst cs)) (f (snd cs))"

definition call_ability_action ::
  "adder \<Rightarrow> emo_Bases \<Rightarrow> emo_ability_shop_NormalAction \<Rightarrow> EmoPointer \<Rightarrow> bool \<Rightarrow> coin_state \<Rightarrow>
   coin_state js" where
  "call_ability_action add emo_bases action pointer is_triple_action =
     (case action of
        ShopNormalAction_SetEmo (emo_ability_shop_NormalAction_SetEmo base_id) \<Rightarrow>
          set_emo add pointer is_triple_action emo_bases base_id
      | ShopNormalAction_IncreaseStats (emo_ability_shop_NormalAction_IncreaseStats target attack health) \<Rightarrow>
          on_state (increase_stats pointer is_triple_action emo_bases target attack health)
      | ShopNormalAction_IncreaseStatsOfAdjacentMenagerie
          (emo_ability_shop_NormalAction_IncreaseStatsOfAdjacentMenagerie attack health) \<Rightarrow>
          on_state (increase_stats_of_adjacent_menagerie pointer is_triple_action emo_bases attack health)
      | ShopNormalAction_IncreaseStatsByGrade
          (emo_ability_shop_NormalAction_IncreaseStatsByGrade target attack health) \<Rightarrow>
          on_state (increase_stats_by_grade pointer is_triple_action emo_bases target attack health)
      | ShopNormalAction_IncreaseStatsByEmoCount
          (emo_ability_shop_NormalAction_IncreaseStatsByEmoCount target count_condition attack health) \<Rightarrow>
          on_state (increase_stats_by_emo_count pointer is_triple_action emo_bases target
            count_condition attack health)
      | ShopNormalAction_AddAbility (emo_ability_shop_NormalAction_AddAbility target ability) \<Rightarrow>
          on_state (add_ability pointer emo_bases target ability)
      | ShopNormalAction_GetCoin (emo_ability_shop_NormalAction_GetCoin coin) \<Rightarrow>
          (\<lambda>(gotten_coin, s). Inr (get_coin is_triple_action coin gotten_coin, s))
      | ShopNormalAction_GetCoinByEmoCountDiv
          (emo_ability_shop_NormalAction_GetCoinByEmoCountDiv count_condition divisor) \<Rightarrow>
          get_coin_by_emo_count_div pointer emo_bases is_triple_action count_condition divisor)"

definition call_ability_action_as_oneself ::
  "adder \<Rightarrow> emo_Bases \<Rightarrow> emo_ability_shop_NormalAction \<Rightarrow> EmoPointer \<Rightarrow> coin_state \<Rightarrow> coin_state js" where
  "call_ability_action_as_oneself add emo_bases action pointer cs =
     bindE (get_emo pointer (snd cs)) (\<lambda>e.
       call_ability_action add emo_bases action pointer (at_is_triple (be_attributes e)) cs)"

text \<open>The actions of the abilities an emoji has for the moment it is set.\<close>

definition set_actions :: "ShopBoardEmo \<Rightarrow> emo_ability_shop_NormalAction list" where
  "set_actions e =
     List.map_filter (\<lambda>ability. case ability of
         Peri_AsOneself (emo_ability_shop_Peri_AsOneself PeriAsOneselfTrigger_Set action) \<Rightarrow> Some action
       | _ \<Rightarrow> None) (get_peri_abilities e)"

definition trigger_set_actions ::
  "adder \<Rightarrow> emo_Bases \<Rightarrow> EmoPointer \<Rightarrow> bool \<Rightarrow> coin_state \<Rightarrow> coin_state js" where
  "trigger_set_actions add emo_bases ally_pointer is_oneself_emo_triple cs =
     bindE (get_emo ally_pointer (snd cs)) (\<lambda>ally.
       foldE (\<lambda>cs action.
           let f = call_ability_action add emo_bases action ally_pointer (at_is_triple (be_attributes ally))
           in bindE (if is_oneself_emo_triple then f cs else Inr cs) f)
         cs (set_actions ally))"

definition call_ability_action_as_ally ::
  "adder \<Rightarrow> emo_Bases \<Rightarrow> emo_ability_shop_PeriAsAllyAction \<Rightarrow> u16 \<Rightarrow> EmoPointer \<Rightarrow> coin_state \<Rightarrow>
   coin_state js" where
  "call_ability_action_as_ally add emo_bases action oneself_emo_id ally_pointer cs =
     bindE (get_emo_by_id (snd cs) oneself_emo_id) (\<lambda>oneself.
       let is_oneself_emo_triple = at_is_triple (be_attributes oneself) in
       case action of
         PeriAsAllyAction_OneselfTripleNormal normal_action \<Rightarrow>
           call_ability_action add emo_bases normal_action ally_pointer is_oneself_emo_triple cs
       | PeriAsAllyAction_Custom AsAllyAction_TriggerSetActions \<Rightarrow>
           trigger_set_actions add emo_bases ally_pointer is_oneself_emo_triple cs)"

definition call_ally_ability ::
  "adder \<Rightarrow> emo_Bases \<Rightarrow> u16 \<Rightarrow> emo_Typ \<Rightarrow> bool \<Rightarrow> coin_state \<Rightarrow> u16 \<times> emo_ability_shop_Peri \<Rightarrow>
   coin_state js" where
  "call_ally_ability add emo_bases new_emo_id new_emo_typ is_new_emo_triple cs p =
     (case p of (ability_emo_id, ability) \<Rightarrow>
        if ability_emo_id = new_emo_id then Inr cs
        else case ability of
          Peri_AsAlly (emo_ability_shop_Peri_AsAlly (PeriAsAllyTrigger_AllySet
              (emo_ability_shop_PeriAsAllyTrigger_AllySet typ_and_triple)) action) \<Rightarrow>
            if is_matched_typ_and_triple typ_and_triple new_emo_typ is_new_emo_triple
            then call_ability_action_as_ally add emo_bases action ability_emo_id (OnBoard new_emo_id) cs
            else Inr cs
        | Peri_AsOneself (emo_ability_shop_Peri_AsOneself (PeriAsOneselfTrigger_AllySet
              (emo_ability_shop_PeriAsOneselfTrigger_AllySet typ_and_triple)) action) \<Rightarrow>
            if is_matched_typ_and_triple typ_and_triple new_emo_typ is_new_emo_triple
            then call_ability_action_as_oneself add emo_bases action (OnBoard ability_emo_id) cs
            else Inr cs
        | _ \<Rightarrow> Inr cs)"

definition call_emo_addition_abilities ::
  "adder \<Rightarrow> emo_Bases \<Rightarrow> u16 \<Rightarrow> coin_state \<Rightarrow> coin_state js" where
  "call_emo_addition_abilities add emo_bases new_emo_id cs =
     bindE (get_emo_by_id (snd cs) new_emo_id) (\<lambda>new_emo.
     bindE (find_base emo_bases (be_base_id new_emo)) (\<lambda>base.
     bindE (foldE (\<lambda>cs action. call_ability_action_as_oneself add emo_bases action (OnBoard new_emo_id) cs)
              cs (set_actions new_emo)) (\<lambda>cs.
       foldE (call_ally_ability add emo_bases new_emo_id (eb_typ base)
                (at_is_triple (be_attributes new_emo)))
         cs (get_board_peri_abilities (snd cs)))))"

section \<open>Triples\<close>

definition EMO_TRIPLE_REWARD_COIN :: u8 where "EMO_TRIPLE_REWARD_COIN = 5"
definition EMO_SELL_COIN :: u8 where "EMO_SELL_COIN = 1"

definition remove_triple_emos :: "u8 list \<Rightarrow> shop_state \<Rightarrow> (ShopBoardEmo list \<times> shop_state) js" where
  "remove_triple_emos indexes s =
     mapR (\<lambda>(removed, s). (rev removed, s))
       (foldE (\<lambda>(removed, s) i. mapR (\<lambda>(e, s). (removed @ [e], s)) (remove_emo i s)) ([], s) (rev indexes))"

definition build_triple_emo_nums :: "emo_Base \<Rightarrow> ShopBoardEmo list \<Rightarrow> u16 \<times> u16" where
  "build_triple_emo_nums base sources =
     (let attack_diff = sum_list (map (\<lambda>e. saturating_sub (at_attack (be_attributes e)) (eb_attack base)) sources);
          health_diff = sum_list (map (\<lambda>e. saturating_sub (at_health (be_attributes e)) (eb_health base)) sources)
      in (saturating_add (saturating_mul (eb_attack base) 2) attack_diff,
          saturating_add (saturating_mul (eb_health base) 2) health_diff))"

definition build_triple_abilities ::
  "emo_ability_Ability list \<Rightarrow> ShopBoardEmo list \<Rightarrow> emo_ability_Ability list" where
  "build_triple_abilities base_abilities sources =
     base_abilities @
     concat (map (\<lambda>e. filter (\<lambda>a. a \<notin> set base_abilities) (at_abilities (be_attributes e))) sources)"

definition build_triple_emo ::
  "ShopBoardEmo list \<Rightarrow> u16 \<Rightarrow> emo_Bases \<Rightarrow> shop_state \<Rightarrow> (ShopBoardEmo \<times> shop_state) js" where
  "build_triple_emo sources target_base_id emo_bases s =
     mapR (\<lambda>base.
         let (attack, health) = build_triple_emo_nums base sources in
         from_attributes (concat (map be_mtc_emo_ids sources)) (eb_id base)
           \<lparr>at_attack = attack, at_health = health,
            at_abilities = build_triple_abilities (eb_abilities base) sources, at_is_triple = True\<rparr> s)
       (find_base emo_bases target_base_id)"

definition same_base_not_triple_indexes :: "u16 \<Rightarrow> shop_state \<Rightarrow> u8 list" where
  "same_base_not_triple_indexes base_id s =
     map (\<lambda>(i, e). word_of_nat i)
       (filter (\<lambda>(i, e). be_base_id e = base_id \<and> \<not> at_is_triple (be_attributes e))
         (List.enumerate 0 (sh_board s)))"

definition process_triple ::
  "adder \<Rightarrow> emo_Bases \<Rightarrow> u16 \<Rightarrow> coin_state \<Rightarrow> coin_state js" where
  "process_triple add emo_bases new_emo_id cs =
     (case cs of (gotten_coin, s) \<Rightarrow>
        bindE (get_emo_by_id s new_emo_id) (\<lambda>target.
        bindE (get_emo_index_by_id s new_emo_id) (\<lambda>new_emo_index.
          let indexes = same_base_not_triple_indexes (be_base_id target) s in
          if 3 \<le> length indexes
          then
            bindE (remove_triple_emos indexes s) (\<lambda>(removed, s).
            bindE (build_triple_emo removed (be_base_id target) emo_bases s) (\<lambda>(triple_emo, s).
              let s = add_log (BoardLog_Triple (mtc_shop_BoardLog_Triple indexes)) s;
                  triple_index = new_emo_index - word_of_nat (length (filter (\<lambda>i. i < new_emo_index) indexes))
              in mapR (\<lambda>(coin, s).
                    (saturating_add (saturating_add gotten_coin coin) EMO_TRIPLE_REWARD_COIN, s))
                  (add s triple_emo triple_index)))
          else Inr (gotten_coin, s))))"


section \<open>Adding an emoji\<close>

definition add_emo_body ::
  "adder \<Rightarrow> emo_Bases \<Rightarrow> shop_state \<Rightarrow> ShopBoardEmo \<Rightarrow> u8 \<Rightarrow> (u8 \<times> shop_state) js" where
  "add_emo_body add emo_bases s new_board_emo emo_index =
     (let len = count_emos s in
      if \<not> len < BOARD_EMO_MAX_COUNT then throwError ''board max capacity''
      else if \<not> emo_index \<le> len then throwError ''Invalid emo_index''
      else
        bindE (insert_emo emo_index new_board_emo
                 (add_log (BoardLog_Add (mtc_shop_BoardLog_Add emo_index (into_board_emo new_board_emo))) s)) (\<lambda>s.
        bindE (call_emo_addition_abilities add emo_bases (se_id new_board_emo) (0, s)) (\<lambda>cs.
          if \<not> at_is_triple (be_attributes new_board_emo)
          then process_triple add emo_bases (se_id new_board_emo) cs
          else Inr cs)))"

primrec add_emo_with_board_emo :: "nat \<Rightarrow> emo_Bases \<Rightarrow> adder" where
  "add_emo_with_board_emo 0 emo_bases = (\<lambda>s e i. Inl JsRangeError)"
| "add_emo_with_board_emo (Suc fuel) emo_bases = add_emo_body (add_emo_with_board_emo fuel emo_bases) emo_bases"

text \<open>More than enough: \<open>add_emo_fuel\<close> in \<open>RustShopFacts\<close>.\<close>

definition shop_fuel :: nat where "shop_fuel = 64"

definition add_emo ::
  "u16 list \<Rightarrow> u16 \<Rightarrow> bool \<Rightarrow> u8 \<Rightarrow> emo_Bases \<Rightarrow> shop_state \<Rightarrow> (u8 \<times> shop_state) js" where
  "add_emo mtc_emo_ids base_id is_triple emo_index emo_bases =
     add_emo_with (add_emo_with_board_emo shop_fuel emo_bases) mtc_emo_ids base_id is_triple emo_index emo_bases"

section \<open>The other operations of the player\<close>

definition sell_actions :: "ShopBoardEmo \<Rightarrow> emo_ability_shop_NormalAction list" where
  "sell_actions e =
     List.map_filter (\<lambda>ability. case ability of
         Peri_AsOneself (emo_ability_shop_Peri_AsOneself PeriAsOneselfTrigger_Sell action) \<Rightarrow> Some action
       | _ \<Rightarrow> None) (get_peri_abilities e)"

definition sell_emo_with :: "adder \<Rightarrow> u8 \<Rightarrow> emo_Bases \<Rightarrow> shop_state \<Rightarrow> (u8 \<times> shop_state) js" where
  "sell_emo_with add emo_index emo_bases s =
     (if \<not> emo_index < count_emos s then throwError ''invalid index for sell''
      else
        bindE (remove_emo emo_index (add_log (BoardLog_Remove (mtc_shop_BoardLog_Remove emo_index)) s))
          (\<lambda>(sold, s).
            foldE (\<lambda>cs action. call_ability_action_as_oneself add emo_bases action (Removed sold emo_index) cs)
              (EMO_SELL_COIN, s) (sell_actions sold)))"

definition sell_emo :: "u8 \<Rightarrow> emo_Bases \<Rightarrow> shop_state \<Rightarrow> (u8 \<times> shop_state) js" where
  "sell_emo emo_index emo_bases =
     sell_emo_with (add_emo_with_board_emo shop_fuel emo_bases) emo_index emo_bases"

definition move_emo :: "u8 \<Rightarrow> bool \<Rightarrow> shop_state \<Rightarrow> (u8 \<times> shop_state) js" where
  "move_emo emo_index is_right s =
     (let len = count_emos s in
      if \<not> emo_index < len then throwError ''invalid index for move''
      else if emo_index = 0 \<and> \<not> is_right then throwError ''move_emo: cannot move left''
      else if emo_index + 1 = len \<and> is_right then throwError ''move_emo: cannot move right''
      else
        let to_index = (if is_right then emo_index + 1 else emo_index - 1) in
        mapR (Pair 0)
          (swap_emos emo_index to_index
            (add_log (BoardLog_Move (mtc_shop_BoardLog_Move emo_index to_index)) s)))"

section \<open>The start of the shop\<close>

text \<open>The loop of \<open>increase_stats_of_menagerie\<close>, over the shuffled ids and the types seen.\<close>

fun menagerie_loop ::
  "emo_Bases \<Rightarrow> u16 \<Rightarrow> nat \<Rightarrow> u16 \<Rightarrow> u16 \<Rightarrow> emo_Typ list \<Rightarrow> u16 list \<Rightarrow> shop_state \<Rightarrow> shop_state js" where
  "menagerie_loop emo_bases action_emo_id typ_count attack health typs [] s = Inr s"
| "menagerie_loop emo_bases action_emo_id typ_count attack health typs (i # ids) s =
     (if i = action_emo_id then menagerie_loop emo_bases action_emo_id typ_count attack health typs ids s
      else
        bindE (get_emo_by_id s i) (\<lambda>e.
        bindE (find_base emo_bases (be_base_id e)) (\<lambda>base.
          if eb_typ base \<in> set typs
          then menagerie_loop emo_bases action_emo_id typ_count attack health typs ids s
          else
            let typs = typs @ [eb_typ base] in
            bindE (add_attack_and_health_to_emo attack health s i) (\<lambda>s.
              if typ_count \<le> length typs then Inr s
              else menagerie_loop emo_bases action_emo_id typ_count attack health typs ids s))))"

type_synonym 'rng shuffler = "'rng \<Rightarrow> u16 list \<Rightarrow> u16 list \<times> 'rng"

definition increase_stats_of_menagerie ::
  "'rng shuffler \<Rightarrow> emo_Bases \<Rightarrow> u16 \<Rightarrow> u8 \<Rightarrow> u16 \<Rightarrow> u16 \<Rightarrow> 'rng \<times> shop_state \<Rightarrow> ('rng \<times> shop_state) js" where
  "increase_stats_of_menagerie shuffle emo_bases action_emo_id typ_count attack health rs =
     (case rs of (rng, s) \<Rightarrow>
        let (ids, rng) = shuffle rng (emo_ids s) in
        bindE (get_emo_by_id s action_emo_id) (\<lambda>e.
          let (attack, health) =
                double_attack_and_health_if (at_is_triple (be_attributes e)) attack health
          in mapR (Pair rng)
               (menagerie_loop emo_bases action_emo_id (toNumber typ_count) attack health [] ids s)))"

definition call_pre_ability ::
  "adder \<Rightarrow> 'rng shuffler \<Rightarrow> emo_Bases \<Rightarrow> 'rng \<times> coin_state \<Rightarrow> u16 \<times> emo_ability_shop_Pre \<Rightarrow>
   ('rng \<times> coin_state) js" where
  "call_pre_ability add shuffle emo_bases rcs p =
     (case rcs of (rng, cs) \<Rightarrow> case p of (action_emo_id, action) \<Rightarrow>
        case action of
          Pre_Normal normal_action \<Rightarrow>
            mapR (Pair rng)
              (call_ability_action_as_oneself add emo_bases normal_action (OnBoard action_emo_id) cs)
        | Pre_Random (RandomAction_IncreaseStatsOfMenagerie
              (emo_ability_shop_RandomAction_IncreaseStatsOfMenagerie typ_count attack health)) \<Rightarrow>
            mapR (\<lambda>(rng, s). (rng, fst cs, s))
              (increase_stats_of_menagerie shuffle emo_bases action_emo_id typ_count attack health
                (rng, snd cs)))"

definition start_shop_with ::
  "adder \<Rightarrow> 'rng shuffler \<Rightarrow> 'rng \<Rightarrow> emo_Bases \<Rightarrow> shop_state \<Rightarrow> (u8 \<times> shop_state) js" where
  "start_shop_with add shuffle rng emo_bases s =
     mapR snd (foldE (call_pre_ability add shuffle emo_bases) (rng, 0, s) (get_board_pre_abilities s))"

text \<open>The generator is seeded with the bits of the seed reversed (\<open>seed.reverse_bits()\<close>).\<close>

definition start_shop ::
  "'rng shuffler \<Rightarrow> (u64 \<Rightarrow> 'rng) \<Rightarrow> u64 \<Rightarrow> emo_Bases \<Rightarrow> shop_state \<Rightarrow> (u8 \<times> shop_state) js" where
  "start_shop shuffle seed_from_u64 seed emo_bases =
     start_shop_with (add_emo_with_board_emo shop_fuel emo_bases) shuffle
       (seed_from_u64 (word_reverse seed)) emo_bases"

end
