(* ===== verification/Dom.thy ===== *)
theory Dom
  imports Prelude
begin

text \<open>
  The part of the document the front builds and changes itself, and the helpers of
  \<open>front/src/misc/elementHelpers.ts\<close> over it. An element is a tree; a reference to an element
  found inside another is the path that leads to it. Text and element children are kept apart,
  since the code gives text only to leaves. Animations that leave nothing behind (\<open>animate\<close>
  without a final style) and timers are not part of the state.
\<close>

section \<open>Elements\<close>

datatype node =
  Node (tagName: string) (classList: "string list") (n_style: "(string, string) jsmap")
    (textContent: string) (children: "node list")

type_synonym path = "nat list"

text \<open>\<open>tagName\<close> reports the name in upper case, so it is written that way here.\<close>

definition createElement :: "string \<Rightarrow> node" where
  "createElement tag = Node tag [] [] '''' []"

fun set_class :: "string list \<Rightarrow> node \<Rightarrow> node" where
  "set_class cls (Node t c s x ch) = Node t cls s x ch"

fun classList_add :: "string \<Rightarrow> node \<Rightarrow> node" where
  "classList_add cl (Node t c s x ch) = Node t (if cl \<in> set c then c else c @ [cl]) s x ch"

fun set_style :: "string \<Rightarrow> string \<Rightarrow> node \<Rightarrow> node" where
  "set_style k v (Node t c s x ch) = Node t c (jsmap_set s k v) x ch"

text \<open>Setting the text removes whatever children there were.\<close>

fun set_text :: "string \<Rightarrow> node \<Rightarrow> node" where
  "set_text v (Node t c s x ch) = Node t c s v []"

fun appendChild :: "node \<Rightarrow> node \<Rightarrow> node" where
  "appendChild e (Node t c s x ch) = Node t c s x (ch @ [e])"

fun with_children :: "(node list \<Rightarrow> node list) \<Rightarrow> node \<Rightarrow> node" where
  "with_children f (Node t c s x ch) = Node t c s x (f ch)"

text \<open>The node \<open>p\<close> leads to, and a change of it in place.\<close>

fun node_at :: "node \<Rightarrow> path \<Rightarrow> node option" where
  "node_at n [] = Some n"
| "node_at n (i # p) = (case js_at (children n) i of None \<Rightarrow> None | Some m \<Rightarrow> node_at m p)"

fun update_at :: "path \<Rightarrow> (node \<Rightarrow> node) \<Rightarrow> node \<Rightarrow> node" where
  "update_at [] f n = f n"
| "update_at (i # p) f n = with_children (\<lambda>ch. ch[i := update_at p f (ch ! i)]) n"

text \<open>
  \<open>getElementsByClassName(c)[0]\<close> and \<open>getElementsByTagName\<close>: descendants in document order,
  parents before children, the element itself left out.
\<close>

fun first_match :: "(node \<Rightarrow> bool) \<Rightarrow> node \<Rightarrow> path option"
  and first_match_in :: "(node \<Rightarrow> bool) \<Rightarrow> nat \<Rightarrow> node list \<Rightarrow> path option" where
  "first_match P (Node t c s x ch) = first_match_in P 0 ch"
| "first_match_in P i [] = None"
| "first_match_in P i (n # ns) =
     (if P n then Some [i]
      else case first_match P n of Some p \<Rightarrow> Some (i # p) | None \<Rightarrow> first_match_in P (Suc i) ns)"

definition has_class :: "string \<Rightarrow> node \<Rightarrow> bool" where
  "has_class cl n = (cl \<in> set (classList n))"

section \<open>elementHelpers.ts\<close>

definition getFirstByClass :: "string \<Rightarrow> string \<Rightarrow> node \<Rightarrow> string \<Rightarrow> path js" where
  "getFirstByClass tag message element className =
     (case first_match (has_class className) element of
        None \<Rightarrow> throwError (message @ className)
      | Some p \<Rightarrow>
          (case node_at element p of
             None \<Rightarrow> throwError (message @ className)
           | Some e \<Rightarrow> if tagName e = tag then Inr p else throwError (message @ className)))"

definition getFirstDivByClass :: "node \<Rightarrow> string \<Rightarrow> path js" where
  "getFirstDivByClass = getFirstByClass ''DIV'' ''getFirstDivByClass: not found div: ''"

definition getFirstSpanByClass :: "node \<Rightarrow> string \<Rightarrow> path js" where
  "getFirstSpanByClass = getFirstByClass ''SPAN'' ''getFirstSpanByClass: not found span: ''"

definition getFirstDivChildElement :: "node \<Rightarrow> path js" where
  "getFirstDivChildElement e =
     (case js_at (children e) 0 of
        None \<Rightarrow> throwError ''first child not found''
      | Some first \<Rightarrow>
          if tagName first \<noteq> ''DIV'' then throwError ''first child is not div'' else Inr [0])"

text \<open>The loop removes the first child until there is none, text included.\<close>

fun remove_first_children :: "node list \<Rightarrow> node list" where
  "remove_first_children [] = []"
| "remove_first_children (n # ns) = remove_first_children ns"

fun removeAllChildren :: "node \<Rightarrow> node" where
  "removeAllChildren (Node t c s x ch) = Node t c s '''' (remove_first_children ch)"

definition insert_before :: "nat \<Rightarrow> 'a \<Rightarrow> 'a list \<Rightarrow> 'a list" where
  "insert_before i e xs = take i xs @ [e] @ drop i xs"

definition insertElementByIndex :: "node \<Rightarrow> nat \<Rightarrow> node \<Rightarrow> node" where
  "insertElementByIndex childElement index parentElement =
     (if length (children parentElement) \<le> index then appendChild childElement parentElement
      else with_children (insert_before index childElement) parentElement)"

definition getChildDivByIndex :: "node \<Rightarrow> nat \<Rightarrow> node js" where
  "getChildDivByIndex element index =
     (case js_at (children element) index of
        None \<Rightarrow> throwError (''not found div: '' @ show_nat index)
      | Some e \<Rightarrow>
          if tagName e = ''DIV'' then Inr e else throwError (''not found div: '' @ show_nat index))"

text \<open>The final value of each property stays in the element's style once the animation is over.\<close>

definition animateIndefinitely :: "(string \<times> string list) list \<Rightarrow> node \<Rightarrow> node" where
  "animateIndefinitely keyframes element =
     foldl (\<lambda>e (k, v). if v = [] then e else set_style k (last v) e) element keyframes"

text \<open>A change of the child at an index, which \<open>getChildDivByIndex\<close> has found.\<close>

definition change_child :: "(node \<Rightarrow> node js) \<Rightarrow> nat \<Rightarrow> node \<Rightarrow> node js" where
  "change_child f index element =
     bindE (getChildDivByIndex element index) (\<lambda>e.
     mapR (\<lambda>e'. with_children (\<lambda>ch. ch[index := e']) element) (f e))"

definition removeChildAt :: "nat \<Rightarrow> node \<Rightarrow> node" where
  "removeChildAt index element = with_children (\<lambda>ch. take index ch @ drop (Suc index) ch) element"

section \<open>Facts\<close>

lemma remove_first_children_Nil [simp]: "remove_first_children ns = []"
  by (induction ns) auto

lemma children_removeAllChildren [simp]: "children (removeAllChildren n) = []"
  by (cases n) simp

lemma children_with_children [simp]: "children (with_children f n) = f (children n)"
  by (cases n) simp

lemma children_appendChild [simp]: "children (appendChild e n) = children n @ [e]"
  by (cases n) simp

lemma children_update_at [simp]:
  "children (update_at (i # p) f n) = (children n)[i := update_at p f (children n ! i)]"
  by simp

lemma children_insertElementByIndex:
  "children (insertElementByIndex e i n) = insert_before i e (children n)"
  by (cases n) (simp add: insertElementByIndex_def insert_before_def)

lemma length_insert_before [simp]: "length (insert_before i e xs) = Suc (length xs)"
  by (simp add: insert_before_def)

lemma insert_before_map: "insert_before i (f e) (map f xs) = map f (insert_before i e xs)"
  by (simp add: insert_before_def take_map drop_map)

lemma take_drop_insert_before:
  "i \<le> length xs \<Longrightarrow> take i (insert_before i e xs) @ drop (Suc i) (insert_before i e xs) = xs"
  by (simp add: insert_before_def)

text \<open>What was inserted is found at its place and, removed, leaves the parent as it was.\<close>

lemma insert_then_get:
  "tagName e = ''DIV'' \<Longrightarrow> i \<le> length (children n) \<Longrightarrow>
   getChildDivByIndex (insertElementByIndex e i n) i = Inr e"
  by (simp add: getChildDivByIndex_def children_insertElementByIndex js_at_def)
    (simp add: insert_before_def nth_append)

lemma insert_then_remove:
  "i \<le> length (children n) \<Longrightarrow> removeChildAt i (insertElementByIndex e i n) = n"
  by (cases n) (auto simp: removeChildAt_def insertElementByIndex_def insert_before_def)

lemma first_match_sound:
  "first_match P n = Some p \<Longrightarrow> \<exists>m. node_at n p = Some m \<and> P m"
  "first_match_in P i ns = Some p \<Longrightarrow>
     \<exists>k q m. p = (i + k) # q \<and> k < length ns \<and> node_at (ns ! k) q = Some m \<and> P m"
proof (induction P n and P i ns arbitrary: p and p rule: first_match_first_match_in.induct)
  case (1 P t c s x ch)
  then show ?case by (fastforce simp: js_at_def)
next
  case (3 P i n ns)
  show ?case
  proof (cases "P n")
    case True
    with 3 show ?thesis by (intro exI [of _ 0]) auto
  next
    case False
    show ?thesis
    proof (cases "first_match P n")
      case None
      with 3 False obtain k q m where "p = (Suc i + k) # q" "k < length ns"
        "node_at (ns ! k) q = Some m" "P m" by fastforce
      then show ?thesis by (intro exI [of _ "Suc k"]) auto
    next
      case (Some r)
      with 3 False show ?thesis by (intro exI [of _ 0]) auto
    qed
  qed
qed simp

end
