(* ===== verification/AbilityText.thy ===== *)
theory AbilityText
  imports MtcUtils
begin

text \<open>
  \<open>front/src/misc/emo/abilityText.ts\<close>: the texts of abilities. Where no text is known the code
  falls back to \<open>JSON.stringify(x.toJSON())\<close> of a codec value, a parameter here on the sum of
  the types it is applied to. A text that names an emoji looks its base up and raises when the
  base or its name is missing, so the functions that may are fallible.
\<close>

datatype codec_value =
  CV_shop_Shop emo_ability_shop_Shop
| CV_shop_PeriAsAllyAction emo_ability_shop_PeriAsAllyAction
| CV_shop_NormalAction emo_ability_shop_NormalAction
| CV_battle_Battle emo_ability_battle_Battle
| CV_battle_GeneralAsAllyAction emo_ability_battle_GeneralAsAllyAction
| CV_battle_NormalAction emo_ability_battle_NormalAction
| CV_Target emo_ability_Target

type_synonym to_json = "codec_value \<Rightarrow> string"

record trigger_and_action =
  ta_trigger :: string
  ta_action :: string

record ability_text = trigger_and_action +
  ta_phase :: string

definition trigger_action :: "string \<Rightarrow> string \<Rightarrow> trigger_and_action" where
  "trigger_action trigger action = \<lparr>ta_trigger = trigger, ta_action = action\<rparr>"

definition with_phase :: "string \<Rightarrow> trigger_and_action \<Rightarrow> ability_text" where
  "with_phase phase t = trigger_and_action.extend t \<lparr>ta_phase = phase\<rparr>"

section \<open>Parts of texts\<close>

definition shieldText :: string where "shieldText = [CHR 0xE2, CHR 0x96, CHR 0xA3]"
definition attractiveText :: string where "attractiveText = [CHR 0xE2, CHR 0x9C, CHR 0xAA]"

definition typAndTriple :: "emo_ability_TypOptAndIsTripleOpt \<Rightarrow> string" where
  "typAndTriple tt =
     (let s = (case typ_opt tt of None \<Rightarrow> [] | Some t \<Rightarrow> [typ_name t]);
          s = s @ (case is_triple_opt tt of None \<Rightarrow> []
                   | Some b \<Rightarrow> [if b then ''Triple'' else ''non-Triple''])
      in if length s > 0 then join '' '' s @ '' '' else '''')"

definition targetAsOneself :: "emo_ability_Target \<Rightarrow> string" where
  "targetAsOneself target =
     (case target of
        Target_Oneself \<Rightarrow> ''Gain''
      | Target_Others (emo_ability_Target_Others destination typ_and_triple) \<Rightarrow>
          (let tt = typAndTriple typ_and_triple in
           case destination of
             Destination_Right \<Rightarrow> ''Give the right '' @ tt @ ''EMO''
           | Destination_Left \<Rightarrow> ''Give the left '' @ tt @ ''EMO''
           | Destination_All \<Rightarrow> ''Give other '' @ tt @ ''EMOs''))"

definition targetAsAlly :: "to_json \<Rightarrow> emo_ability_Target \<Rightarrow> string" where
  "targetAsAlly json target =
     (case target of
        Target_Oneself \<Rightarrow> ''Give it''
      | Target_Others (emo_ability_Target_Others destination typ_and_triple) \<Rightarrow>
          (let tt = typAndTriple typ_and_triple in
           case destination of
             Destination_Right \<Rightarrow> ''Give its right '' @ tt @ ''EMO''
           | Destination_Left \<Rightarrow> ''Give its left '' @ tt @ ''EMO''
           | Destination_All \<Rightarrow> json (CV_Target target)))"

definition targetOrRandomAsOneself :: "emo_ability_TargetOrRandom \<Rightarrow> string" where
  "targetOrRandomAsOneself targetOrRandom =
     (case targetOrRandom of
        TargetOrRandom_Target target \<Rightarrow> targetAsOneself target
      | TargetOrRandom_Random (emo_ability_TargetOrRandom_Random typ_and_triple count') \<Rightarrow>
          ''Give '' @ toStringU count' @ '' random '' @ typAndTriple typ_and_triple @ '' EMO(s)'')"

definition times :: "bool \<Rightarrow> nat" where
  "times isTriple = (if isTriple then 2 else 1)"

definition increaseStats :: "u16 \<Rightarrow> u16 \<Rightarrow> bool \<Rightarrow> string" where
  "increaseStats attack health isTriple =
     ''+'' @ show_nat (toNumber attack * times isTriple) @ ''/+'' @
     show_nat (toNumber health * times isTriple)"

definition decreaseStats :: "u16 \<Rightarrow> u16 \<Rightarrow> bool \<Rightarrow> string" where
  "decreaseStats attack health isTriple =
     ''-'' @ show_nat (toNumber attack * times isTriple) @ ''/-'' @
     show_nat (toNumber health * times isTriple)"

type_synonym names = "string \<Rightarrow> string option"

definition emoName :: "names \<Rightarrow> u16 \<Rightarrow> bool \<Rightarrow> EmoBases \<Rightarrow> string js" where
  "emoName emoNames baseId isTriple emoBases =
     bindE (findEmoBase baseId emoBases) (\<lambda>m.
     bindE (getEmoBaseEmoji m) (\<lambda>emoji.
     bindE (getEmoBaseName emoNames m) (\<lambda>name.
       Inr ((if isTriple then ''Triple '' else '''') @ emoji @ '' ('' @ name @ '')''))))"

definition side :: "emo_ability_Side \<Rightarrow> string" where
  "side s = (case s of Side_Ally \<Rightarrow> ''ally'' | Side_Rival \<Rightarrow> ''rival'')"

definition special_type :: "emo_ability_battle_Special \<Rightarrow> string" where
  "special_type s =
     (case s of Special_Shield \<Rightarrow> ''Shield'' | Special_Attractive \<Rightarrow> ''Attractive''
      | Special_AttackLowestAttack \<Rightarrow> ''AttackLowestAttack'')"

section \<open>Battle abilities\<close>

definition battleSpecial :: "emo_ability_battle_Special \<Rightarrow> trigger_and_action" where
  "battleSpecial ability =
     (case ability of
        Special_Shield \<Rightarrow>
          trigger_action ''Get damage''
            (''Shield '' @ shieldText @ '' (Ignore the damage and remove the Shield)'')
      | Special_Attractive \<Rightarrow>
          trigger_action ''Rival attacks''
            (''Atractive '' @ attractiveText @ '' (Force rival EMOs to attack this first)'')
      | Special_AttackLowestAttack \<Rightarrow>
          trigger_action ''Attack'' ''Attack the rival EMO with the lowest attack'')"

definition battle_ability_name :: "to_json \<Rightarrow> emo_ability_battle_Battle \<Rightarrow> string" where
  "battle_ability_name json ability =
     (case ability of Battle_Special s \<Rightarrow> special_type s | _ \<Rightarrow> json (CV_battle_Battle ability))"

definition battleNormalActionAsOneself ::
  "to_json \<Rightarrow> names \<Rightarrow> emo_ability_battle_NormalAction \<Rightarrow> bool \<Rightarrow> EmoBases \<Rightarrow> string js" where
  "battleNormalActionAsOneself json emoNames action isTriple emoBases =
     (case action of
        BattleNormalAction_SetEmo (emo_ability_battle_NormalAction_SetEmo sd base_id) \<Rightarrow>
          mapR (\<lambda>name. ''Set a '' @ name @ (if sd = Side_Rival then '' on rival's board'' else ''''))
            (emoName emoNames base_id isTriple emoBases)
      | BattleNormalAction_SetEmosByAttackDiv
          (emo_ability_battle_NormalAction_SetEmosByAttackDiv sd base_id divisor) \<Rightarrow>
          mapR (\<lambda>name. ''Set a number of '' @ name @ '' equal to this EMO's attack divided by '' @
                  show_nat (toNumber divisor) @
                  (if sd = Side_Rival then '' on rival's board'' else ''''))
            (emoName emoNames base_id isTriple emoBases)
      | BattleNormalAction_IncreaseStats
          (emo_ability_battle_NormalAction_IncreaseStats target_or_random attack health) \<Rightarrow>
          Inr (targetOrRandomAsOneself target_or_random @ '' '' @ increaseStats attack health isTriple)
      | BattleNormalAction_DecreaseStats
          (emo_ability_battle_NormalAction_DecreaseStats target_or_random attack health) \<Rightarrow>
          Inr (targetOrRandomAsOneself target_or_random @ '' '' @ decreaseStats attack health isTriple)
      | BattleNormalAction_IncreaseStatsByEmoCount
          (emo_ability_battle_NormalAction_IncreaseStatsByEmoCount sd target_or_random count_condition
             attack health) \<Rightarrow>
          Inr (targetOrRandomAsOneself target_or_random @ '' '' @ increaseStats attack health isTriple @
               '' for '' @ side sd @ '' '' @ typAndTriple count_condition @ ''EMOs on the board'')
      | BattleNormalAction_AddBattleAbility
          (emo_ability_battle_NormalAction_AddBattleAbility target_or_random ability) \<Rightarrow>
          (let sp = battle_ability_name json ability in
           case target_or_random of
             TargetOrRandom_Target target \<Rightarrow> Inr (targetAsOneself target @ '' '' @ sp)
           | TargetOrRandom_Random (emo_ability_TargetOrRandom_Random typ_and_triple count') \<Rightarrow>
               if toNumber count' = 1
               then Inr (''Give '' @ (if isTriple then ''two'' else ''a'') @ '' random ally '' @
                         typAndTriple typ_and_triple @ ''EMO'' @ (if isTriple then ''s'' else '''') @
                         '' '' @ sp)
               else Inr (json (CV_battle_NormalAction action)))
      | BattleNormalAction_DamageAll (emo_ability_battle_NormalAction_DamageAll sd damage) \<Rightarrow>
          Inr (''Deal '' @ show_nat (toNumber damage * times isTriple) @ '' damage to all '' @
               side sd @ '' EMOs''))"

definition battleGeneralAsOneself_trigger ::
  "to_json \<Rightarrow> emo_ability_battle_GeneralAsOneselfTrigger \<Rightarrow> string" where
  "battleGeneralAsOneself_trigger json trigger =
     (case trigger of
        GeneralAsOneselfTrigger_Pre \<Rightarrow> ''Start of phase''
      | GeneralAsOneselfTrigger_Retire \<Rightarrow> ''Retire''
      | GeneralAsOneselfTrigger_AllyRetire
          (emo_ability_battle_GeneralAsOneselfTrigger_AllyRetire typ_and_triple) \<Rightarrow>
          ''An ally '' @ typAndTriple typ_and_triple @ ''EMO retires''
      | GeneralAsOneselfTrigger_AllyBattleAbilityRemoved
          (emo_ability_battle_GeneralAsOneselfTrigger_AllyBattleAbilityRemoved typ_and_triple
             excludes_same_base ability) \<Rightarrow>
          ''An ally '' @ typAndTriple typ_and_triple @ ''EMO '' @
          (if excludes_same_base then ''(excludes same emoji) '' else '''') @
          ''loses '' @ battle_ability_name json ability
      | GeneralAsOneselfTrigger_RivalRetire
          (emo_ability_battle_GeneralAsOneselfTrigger_RivalRetire typ_and_triple) \<Rightarrow>
          ''An rival '' @ typAndTriple typ_and_triple @ ''EMO retires'')"

definition battleGeneralAsOneself ::
  "to_json \<Rightarrow> names \<Rightarrow> emo_ability_battle_General_AsOneself \<Rightarrow> bool \<Rightarrow> EmoBases \<Rightarrow>
   trigger_and_action js" where
  "battleGeneralAsOneself json emoNames ability isTriple emoBases =
     (case ability of emo_ability_battle_General_AsOneself trigger action \<Rightarrow>
        mapR (trigger_action (battleGeneralAsOneself_trigger json trigger))
          (battleNormalActionAsOneself json emoNames action isTriple emoBases))"

definition battleGeneralAsAlly ::
  "to_json \<Rightarrow> emo_ability_battle_General_AsAlly \<Rightarrow> bool \<Rightarrow> trigger_and_action" where
  "battleGeneralAsAlly json ability isTriple =
     (case ability of emo_ability_battle_General_AsAlly trigger action \<Rightarrow>
        trigger_action
          (case trigger of
             GeneralAsAllyTrigger_AllyRetire
               (emo_ability_battle_GeneralAsAllyTrigger_AllyRetire typ_and_triple) \<Rightarrow>
               ''An ally '' @ typAndTriple typ_and_triple @ ''EMO retires''
           | GeneralAsAllyTrigger_AllySet
               (emo_ability_battle_GeneralAsAllyTrigger_AllySet typ_and_triple) \<Rightarrow>
               ''An ally '' @ typAndTriple typ_and_triple @ ''EMO sets'')
          (case action of
             GeneralAsAllyAction_OneselfTripleNormal
               (BattleNormalAction_IncreaseStats
                 (emo_ability_battle_NormalAction_IncreaseStats
                   (TargetOrRandom_Target Target_Oneself) attack health)) \<Rightarrow>
               ''Give it '' @ increaseStats attack health isTriple
           | GeneralAsAllyAction_Custom AsAllyAction_TriggerRetireActions \<Rightarrow>
               ''Its Retires trigger '' @ (if isTriple then ''three times'' else ''twice'')
           | _ \<Rightarrow> json (CV_battle_GeneralAsAllyAction action)))"

definition battleGeneral ::
  "to_json \<Rightarrow> names \<Rightarrow> emo_ability_battle_General \<Rightarrow> bool \<Rightarrow> EmoBases \<Rightarrow> trigger_and_action js" where
  "battleGeneral json emoNames ability isTriple emoBases =
     (case ability of
        General_AsOneself a \<Rightarrow> battleGeneralAsOneself json emoNames a isTriple emoBases
      | General_AsAlly a \<Rightarrow> Inr (battleGeneralAsAlly json a isTriple))"

definition battleAbility ::
  "to_json \<Rightarrow> names \<Rightarrow> emo_ability_battle_Battle \<Rightarrow> bool \<Rightarrow> EmoBases \<Rightarrow> trigger_and_action js" where
  "battleAbility json emoNames ability isTriple emoBases =
     (case ability of
        Battle_General a \<Rightarrow> battleGeneral json emoNames a isTriple emoBases
      | Battle_Special a \<Rightarrow> Inr (battleSpecial a))"

section \<open>Shop abilities\<close>

definition shopPeriAsOneself_trigger :: "emo_ability_shop_PeriAsOneselfTrigger \<Rightarrow> string" where
  "shopPeriAsOneself_trigger trigger =
     (case trigger of
        PeriAsOneselfTrigger_Set \<Rightarrow> ''Set''
      | PeriAsOneselfTrigger_Sell \<Rightarrow> ''Sell''
      | PeriAsOneselfTrigger_AllySet (emo_ability_shop_PeriAsOneselfTrigger_AllySet typ_and_triple) \<Rightarrow>
          ''An ally '' @ typAndTriple typ_and_triple @ ''EMO sets'')"

definition shopPeriAsAlly ::
  "to_json \<Rightarrow> emo_ability_shop_Peri_AsAlly \<Rightarrow> bool \<Rightarrow> trigger_and_action" where
  "shopPeriAsAlly json ability isTriple =
     (case ability of
        emo_ability_shop_Peri_AsAlly
          (PeriAsAllyTrigger_AllySet (emo_ability_shop_PeriAsAllyTrigger_AllySet typ_and_triple))
          action \<Rightarrow>
        trigger_action
          (''An ally '' @ typAndTriple typ_and_triple @ ''EMO sets'')
          (case action of
             PeriAsAllyAction_OneselfTripleNormal
               (ShopNormalAction_IncreaseStats
                 (emo_ability_shop_NormalAction_IncreaseStats target attack health)) \<Rightarrow>
               targetAsAlly json target @ '' '' @ increaseStats attack health isTriple
           | PeriAsAllyAction_OneselfTripleNormal
               (ShopNormalAction_IncreaseStatsByGrade
                 (emo_ability_shop_NormalAction_IncreaseStatsByGrade target attack health)) \<Rightarrow>
               targetAsAlly json target @ '' {'' @ increaseStats attack health isTriple @
               '' * its grade}''
           | PeriAsAllyAction_Custom AsAllyAction_TriggerSetActions \<Rightarrow>
               ''Its Sets trigger '' @ (if isTriple then ''three times'' else ''twice'')
           | _ \<Rightarrow> json (CV_shop_PeriAsAllyAction action)))"

text \<open>
  A shop action may give an ability, whose text is then part of the action's: the functions from
  \<open>shopNormalActionAsOneself\<close> up to \<open>buildEmoAbilityText\<close> call each other.
\<close>

fun shopNormalActionAsOneself ::
    "to_json \<Rightarrow> names \<Rightarrow> emo_ability_shop_NormalAction \<Rightarrow> bool \<Rightarrow> EmoBases \<Rightarrow> string js"
  and shopPreAction ::
    "to_json \<Rightarrow> names \<Rightarrow> emo_ability_shop_Pre \<Rightarrow> bool \<Rightarrow> EmoBases \<Rightarrow> string js"
  and shopPeriAsOneself ::
    "to_json \<Rightarrow> names \<Rightarrow> emo_ability_shop_Peri_AsOneself \<Rightarrow> bool \<Rightarrow> EmoBases \<Rightarrow> trigger_and_action js"
  and shopAbility ::
    "to_json \<Rightarrow> names \<Rightarrow> emo_ability_shop_Shop \<Rightarrow> bool \<Rightarrow> EmoBases \<Rightarrow> trigger_and_action js"
  and buildEmoAbilityText ::
    "to_json \<Rightarrow> names \<Rightarrow> emo_ability_Ability \<Rightarrow> bool \<Rightarrow> EmoBases \<Rightarrow> ability_text js"
where
  "shopNormalActionAsOneself json emoNames
     (ShopNormalAction_SetEmo (emo_ability_shop_NormalAction_SetEmo base_id)) isTriple emoBases =
     mapR (\<lambda>name. ''Set a '' @ name) (emoName emoNames base_id isTriple emoBases)"
| "shopNormalActionAsOneself json emoNames
     (ShopNormalAction_IncreaseStats
       (emo_ability_shop_NormalAction_IncreaseStats target attack health)) isTriple emoBases =
     Inr (targetAsOneself target @ '' '' @ increaseStats attack health isTriple)"
| "shopNormalActionAsOneself json emoNames
     (ShopNormalAction_IncreaseStatsOfAdjacentMenagerie
       (emo_ability_shop_NormalAction_IncreaseStatsOfAdjacentMenagerie attack health)) isTriple emoBases =
     Inr (''Give adjacent EMOs of different types '' @ increaseStats attack health isTriple)"
| "shopNormalActionAsOneself json emoNames
     (ShopNormalAction_IncreaseStatsByEmoCount
       (emo_ability_shop_NormalAction_IncreaseStatsByEmoCount target count_condition attack health))
     isTriple emoBases =
     Inr (targetAsOneself target @ '' '' @ increaseStats attack health isTriple @ '' for each '' @
          typAndTriple count_condition @ ''EMO'')"
| "shopNormalActionAsOneself json emoNames
     (ShopNormalAction_AddAbility (emo_ability_shop_NormalAction_AddAbility target ability))
     isTriple emoBases =
     (case ability of
        Ability_Battle (Battle_Special s) \<Rightarrow> Inr (targetAsOneself target @ '' '' @ special_type s)
      | _ \<Rightarrow>
          mapR (\<lambda>t. targetAsOneself target @ '' an ability (phase: '' @ ta_phase t @ '', trigger: '' @
                    ta_trigger t @ '', action: '' @ ta_action t @ '')'')
            (buildEmoAbilityText json emoNames ability False emoBases))"
| "shopNormalActionAsOneself json emoNames
     (ShopNormalAction_GetCoin (emo_ability_shop_NormalAction_GetCoin c)) isTriple emoBases =
     (let coin = toNumber c * times isTriple in
      Inr (''Get '' @ show_nat coin @ '' coin'' @ (if coin > 1 then ''s'' else '''')))"
| "shopNormalActionAsOneself json emoNames
     (ShopNormalAction_GetCoinByEmoCountDiv
       (emo_ability_shop_NormalAction_GetCoinByEmoCountDiv count_condition d)) isTriple emoBases =
     (let divisor = toNumber d in
      Inr (''Get {'' @ typAndTriple count_condition @ ''EMO count'' @
           (if divisor = 1 then '''' else '' / '' @ show_nat divisor) @
           (if isTriple then '' * 2'' else '''') @ ''} coin(s)''))"
| "shopNormalActionAsOneself json emoNames (ShopNormalAction_IncreaseStatsByGrade a) isTriple emoBases =
     Inr (json (CV_shop_NormalAction (ShopNormalAction_IncreaseStatsByGrade a)))"
| "shopPreAction json emoNames (Pre_Normal action) isTriple emoBases =
     shopNormalActionAsOneself json emoNames action isTriple emoBases"
| "shopPreAction json emoNames
     (Pre_Random (RandomAction_IncreaseStatsOfMenagerie
       (emo_ability_shop_RandomAction_IncreaseStatsOfMenagerie typ_count attack health)))
     isTriple emoBases =
     Inr (''Give '' @ toStringU typ_count @ '' different types of EMOs '' @
          increaseStats attack health isTriple)"
| "shopPeriAsOneself json emoNames (emo_ability_shop_Peri_AsOneself trigger action) isTriple emoBases =
     mapR (trigger_action (shopPeriAsOneself_trigger trigger))
       (shopNormalActionAsOneself json emoNames action isTriple emoBases)"
| "shopAbility json emoNames (Shop_Pre a) isTriple emoBases =
     mapR (trigger_action ''Start of phase'') (shopPreAction json emoNames a isTriple emoBases)"
| "shopAbility json emoNames (Shop_Peri (Peri_AsOneself a)) isTriple emoBases =
     shopPeriAsOneself json emoNames a isTriple emoBases"
| "shopAbility json emoNames (Shop_Peri (Peri_AsAlly a)) isTriple emoBases =
     Inr (shopPeriAsAlly json a isTriple)"
| "shopAbility json emoNames (Shop_Special a) isTriple emoBases =
     Inr (trigger_action '''' (json (CV_shop_Shop (Shop_Special a))))"
| "buildEmoAbilityText json emoNames (Ability_Shop a) isTriple emoBases =
     mapR (with_phase ''Shop'') (shopAbility json emoNames a isTriple emoBases)"
| "buildEmoAbilityText json emoNames (Ability_Battle a) isTriple emoBases =
     mapR (with_phase ''Battle'') (battleAbility json emoNames a isTriple emoBases)"

definition buildEmoAbilitiesText ::
  "to_json \<Rightarrow> names \<Rightarrow> emo_ability_Ability list \<Rightarrow> bool \<Rightarrow> EmoBases \<Rightarrow> ability_text list js" where
  "buildEmoAbilitiesText json emoNames abilities isTriple emoBases =
     mapE (\<lambda>ability. buildEmoAbilityText json emoNames ability isTriple emoBases) abilities"

section \<open>What a text depends on\<close>

text \<open>
  The bases an ability's text looks up and the codec values it falls back to printing. The
  lemmas below show that these are all the text depends on.
\<close>

datatype mention = Mention_Base u16 | Mention_Json codec_value

definition battle_ability_mentions :: "emo_ability_battle_Battle \<Rightarrow> mention list" where
  "battle_ability_mentions ability =
     (case ability of Battle_Special s \<Rightarrow> [] | _ \<Rightarrow> [Mention_Json (CV_battle_Battle ability)])"

definition battle_action_mentions :: "emo_ability_battle_NormalAction \<Rightarrow> mention list" where
  "battle_action_mentions action =
     (case action of
        BattleNormalAction_SetEmo (emo_ability_battle_NormalAction_SetEmo sd b) \<Rightarrow> [Mention_Base b]
      | BattleNormalAction_SetEmosByAttackDiv
          (emo_ability_battle_NormalAction_SetEmosByAttackDiv sd b d) \<Rightarrow> [Mention_Base b]
      | BattleNormalAction_AddBattleAbility
          (emo_ability_battle_NormalAction_AddBattleAbility target ability) \<Rightarrow>
          (case target of
             TargetOrRandom_Random (emo_ability_TargetOrRandom_Random tt n) \<Rightarrow>
               if toNumber n = 1 then battle_ability_mentions ability
               else [Mention_Json (CV_battle_NormalAction action)]
           | _ \<Rightarrow> battle_ability_mentions ability)
      | _ \<Rightarrow> [])"

definition battle_trigger_mentions ::
  "emo_ability_battle_GeneralAsOneselfTrigger \<Rightarrow> mention list" where
  "battle_trigger_mentions trigger =
     (case trigger of
        GeneralAsOneselfTrigger_AllyBattleAbilityRemoved
          (emo_ability_battle_GeneralAsOneselfTrigger_AllyBattleAbilityRemoved tt b ability) \<Rightarrow>
          battle_ability_mentions ability
      | _ \<Rightarrow> [])"

definition battle_as_ally_mentions ::
  "emo_ability_battle_GeneralAsAllyAction \<Rightarrow> mention list" where
  "battle_as_ally_mentions action =
     (case action of
        GeneralAsAllyAction_OneselfTripleNormal
          (BattleNormalAction_IncreaseStats
            (emo_ability_battle_NormalAction_IncreaseStats (TargetOrRandom_Target Target_Oneself) a h)) \<Rightarrow>
          []
      | GeneralAsAllyAction_Custom a \<Rightarrow> []
      | _ \<Rightarrow> [Mention_Json (CV_battle_GeneralAsAllyAction action)])"

definition battle_mentions :: "emo_ability_battle_Battle \<Rightarrow> mention list" where
  "battle_mentions ability =
     (case ability of
        Battle_General (General_AsOneself (emo_ability_battle_General_AsOneself trigger action)) \<Rightarrow>
          battle_trigger_mentions trigger @ battle_action_mentions action
      | Battle_General (General_AsAlly (emo_ability_battle_General_AsAlly trigger action)) \<Rightarrow>
          battle_as_ally_mentions action
      | Battle_Special s \<Rightarrow> [])"

definition target_as_ally_mentions :: "emo_ability_Target \<Rightarrow> mention list" where
  "target_as_ally_mentions target =
     (case target of
        Target_Others (emo_ability_Target_Others Destination_All tt) \<Rightarrow> [Mention_Json (CV_Target target)]
      | _ \<Rightarrow> [])"

definition shop_as_ally_mentions :: "emo_ability_shop_PeriAsAllyAction \<Rightarrow> mention list" where
  "shop_as_ally_mentions action =
     (case action of
        PeriAsAllyAction_OneselfTripleNormal
          (ShopNormalAction_IncreaseStats (emo_ability_shop_NormalAction_IncreaseStats target a h)) \<Rightarrow>
          target_as_ally_mentions target
      | PeriAsAllyAction_OneselfTripleNormal
          (ShopNormalAction_IncreaseStatsByGrade
            (emo_ability_shop_NormalAction_IncreaseStatsByGrade target a h)) \<Rightarrow>
          target_as_ally_mentions target
      | PeriAsAllyAction_Custom a \<Rightarrow> []
      | _ \<Rightarrow> [Mention_Json (CV_shop_PeriAsAllyAction action)])"

primrec shop_action_mentions :: "emo_ability_shop_NormalAction \<Rightarrow> mention list"
  and add_ability_mentions :: "emo_ability_shop_NormalAction_AddAbility \<Rightarrow> mention list"
  and shop_pre_mentions :: "emo_ability_shop_Pre \<Rightarrow> mention list"
  and shop_peri_mentions :: "emo_ability_shop_Peri \<Rightarrow> mention list"
  and shop_peri_as_oneself_mentions :: "emo_ability_shop_Peri_AsOneself \<Rightarrow> mention list"
  and shop_mentions :: "emo_ability_shop_Shop \<Rightarrow> mention list"
  and ability_mentions :: "emo_ability_Ability \<Rightarrow> mention list"
where
  "shop_action_mentions (ShopNormalAction_SetEmo a) =
     (case a of emo_ability_shop_NormalAction_SetEmo b \<Rightarrow> [Mention_Base b])"
| "shop_action_mentions (ShopNormalAction_IncreaseStats a) = []"
| "shop_action_mentions (ShopNormalAction_IncreaseStatsByEmoCount a) = []"
| "shop_action_mentions (ShopNormalAction_IncreaseStatsByGrade a) =
     [Mention_Json (CV_shop_NormalAction (ShopNormalAction_IncreaseStatsByGrade a))]"
| "shop_action_mentions (ShopNormalAction_IncreaseStatsOfAdjacentMenagerie a) = []"
| "shop_action_mentions (ShopNormalAction_AddAbility a) = add_ability_mentions a"
| "shop_action_mentions (ShopNormalAction_GetCoin a) = []"
| "shop_action_mentions (ShopNormalAction_GetCoinByEmoCountDiv a) = []"
| "add_ability_mentions (emo_ability_shop_NormalAction_AddAbility t a) = ability_mentions a"
| "shop_pre_mentions (Pre_Normal a) = shop_action_mentions a"
| "shop_pre_mentions (Pre_Random a) = []"
| "shop_peri_mentions (Peri_AsOneself a) = shop_peri_as_oneself_mentions a"
| "shop_peri_mentions (Peri_AsAlly a) =
     (case a of emo_ability_shop_Peri_AsAlly t ac \<Rightarrow> shop_as_ally_mentions ac)"
| "shop_peri_as_oneself_mentions (emo_ability_shop_Peri_AsOneself t ac) = shop_action_mentions ac"
| "shop_mentions (Shop_Pre a) = shop_pre_mentions a"
| "shop_mentions (Shop_Peri a) = shop_peri_mentions a"
| "shop_mentions (Shop_Special a) = [Mention_Json (CV_shop_Shop (Shop_Special a))]"
| "ability_mentions (Ability_Shop a) = shop_mentions a"
| "ability_mentions (Ability_Battle a) = battle_mentions a"

text \<open>A text is built exactly when every base it names is there and has a name.\<close>

definition nameable :: "names \<Rightarrow> EmoBases \<Rightarrow> u16 \<Rightarrow> bool" where
  "nameable emoNames emoBases b \<longleftrightarrow>
     (case emoName emoNames b False emoBases of Inl e \<Rightarrow> False | Inr s \<Rightarrow> True)"

lemma emoName_ok_iff: "(\<exists>s. emoName emoNames b t emoBases = Inr s) \<longleftrightarrow> nameable emoNames emoBases b"
  by (auto simp: nameable_def emoName_def bindE_def split: sum.splits)

lemma emoName_okI: "nameable emoNames emoBases b \<Longrightarrow> \<exists>s. emoName emoNames b t emoBases = Inr s"
  by (simp add: emoName_ok_iff)

lemma mapR_ok_iff [simp]: "(\<exists>y. mapR f m = Inr y) \<longleftrightarrow> (\<exists>x. m = Inr x)"
  by (cases m) auto

lemmas battle_splits =
  emo_ability_battle_NormalAction.split emo_ability_battle_NormalAction_SetEmo.split
  emo_ability_battle_NormalAction_SetEmosByAttackDiv.split
  emo_ability_battle_NormalAction_IncreaseStats.split
  emo_ability_battle_NormalAction_DecreaseStats.split
  emo_ability_battle_NormalAction_IncreaseStatsByEmoCount.split
  emo_ability_battle_NormalAction_AddBattleAbility.split
  emo_ability_battle_NormalAction_DamageAll.split
  emo_ability_TargetOrRandom.split emo_ability_TargetOrRandom_Random.split
  emo_ability_battle_Battle.split

lemma battle_action_ok:
  "(\<exists>s. battleNormalActionAsOneself json emoNames action t emoBases = Inr s) \<longleftrightarrow>
   (\<forall>b. Mention_Base b \<in> set (battle_action_mentions action) \<longrightarrow> nameable emoNames emoBases b)"
  by (auto simp: battleNormalActionAsOneself_def battle_action_mentions_def battle_ability_mentions_def
      emoName_ok_iff Let_def split: battle_splits)

lemma no_base_mentions [simp]:
  "Mention_Base b \<notin> set (battle_ability_mentions ability)"
  "Mention_Base b \<notin> set (battle_trigger_mentions trigger)"
  "Mention_Base b \<notin> set (battle_as_ally_mentions as_ally)"
  "Mention_Base b \<notin> set (target_as_ally_mentions target)"
  "Mention_Base b \<notin> set (shop_as_ally_mentions shop_as_ally)"
proof -
  show ab: "Mention_Base b \<notin> set (battle_ability_mentions ability)" for ability
    by (simp add: battle_ability_mentions_def split: emo_ability_battle_Battle.split)
  show "Mention_Base b \<notin> set (battle_trigger_mentions trigger)"
    by (simp add: battle_trigger_mentions_def ab split: emo_ability_battle_GeneralAsOneselfTrigger.split
        emo_ability_battle_GeneralAsOneselfTrigger_AllyBattleAbilityRemoved.split)
  show "Mention_Base b \<notin> set (battle_as_ally_mentions as_ally)"
    by (simp add: battle_as_ally_mentions_def split: emo_ability_battle_GeneralAsAllyAction.split
        emo_ability_Target.split battle_splits)
  show ta: "Mention_Base b \<notin> set (target_as_ally_mentions target)" for target
    by (simp add: target_as_ally_mentions_def split: emo_ability_Target.split
        emo_ability_Target_Others.split emo_ability_Destination.split)
  show "Mention_Base b \<notin> set (shop_as_ally_mentions shop_as_ally)"
    by (simp add: shop_as_ally_mentions_def ta split: emo_ability_shop_PeriAsAllyAction.split
        emo_ability_shop_NormalAction.split emo_ability_shop_NormalAction_IncreaseStats.split
        emo_ability_shop_NormalAction_IncreaseStatsByGrade.split)
qed

lemma battleAbility_ok:
  "(\<exists>s. battleAbility json emoNames ability t emoBases = Inr s) \<longleftrightarrow>
   (\<forall>b. Mention_Base b \<in> set (battle_mentions ability) \<longrightarrow> nameable emoNames emoBases b)"
  by (simp add: battleAbility_def battle_mentions_def battleGeneral_def battleGeneralAsOneself_def
      battle_action_ok split: emo_ability_battle_Battle.split emo_ability_battle_General.split
      emo_ability_battle_General_AsOneself.split emo_ability_battle_General_AsAlly.split)

lemma texts_ok:
  "(\<exists>s. shopNormalActionAsOneself json emoNames a t bases = Inr s) \<longleftrightarrow>
     (\<forall>b. Mention_Base b \<in> set (shop_action_mentions a) \<longrightarrow> nameable emoNames bases b)"
  "(\<exists>s. shopPreAction json emoNames p t bases = Inr s) \<longleftrightarrow>
     (\<forall>b. Mention_Base b \<in> set (shop_pre_mentions p) \<longrightarrow> nameable emoNames bases b)"
  "(\<exists>s. shopPeriAsOneself json emoNames o' t bases = Inr s) \<longleftrightarrow>
     (\<forall>b. Mention_Base b \<in> set (shop_peri_as_oneself_mentions o') \<longrightarrow> nameable emoNames bases b)"
  "(\<exists>s. shopAbility json emoNames sh t bases = Inr s) \<longleftrightarrow>
     (\<forall>b. Mention_Base b \<in> set (shop_mentions sh) \<longrightarrow> nameable emoNames bases b)"
  "(\<exists>s. buildEmoAbilityText json emoNames ab t bases = Inr s) \<longleftrightarrow>
     (\<forall>b. Mention_Base b \<in> set (ability_mentions ab) \<longrightarrow> nameable emoNames bases b)"
proof (induction json emoNames a t bases and json emoNames p t bases and json emoNames o' t bases
    and json emoNames sh t bases and json emoNames ab t bases
    rule: shopNormalActionAsOneself_shopPreAction_shopPeriAsOneself_shopAbility_buildEmoAbilityText.induct)
  case (5 json emoNames target ability isTriple emoBases)
  then show ?case
    by (auto simp: battle_mentions_def split: emo_ability_Ability.split emo_ability_battle_Battle.split)
qed (auto simp: emoName_ok_iff Let_def battleAbility_ok split: emo_ability_shop_Peri_AsAlly.split)

section \<open>Texts with no fallback\<close>

definition json_agree :: "to_json \<Rightarrow> to_json \<Rightarrow> mention list \<Rightarrow> bool" where
  "json_agree json json' ms \<longleftrightarrow> (\<forall>v. Mention_Json v \<in> set ms \<longrightarrow> json v = json' v)"

lemma json_agree_simps [simp]:
  "json_agree json json' []"
  "json_agree json json' (Mention_Base b # ms) \<longleftrightarrow> json_agree json json' ms"
  "json_agree json json' (Mention_Json v # ms) \<longleftrightarrow> json v = json' v \<and> json_agree json json' ms"
  "json_agree json json' (ms @ ms') \<longleftrightarrow> json_agree json json' ms \<and> json_agree json json' ms'"
  by (auto simp: json_agree_def)

lemma name_cong:
  "json_agree json json' (battle_ability_mentions a) \<Longrightarrow>
   battle_ability_name json a = battle_ability_name json' a"
  by (simp add: battle_ability_name_def battle_ability_mentions_def split: emo_ability_battle_Battle.splits)

lemma trigger_cong:
  "json_agree json json' (battle_trigger_mentions a) \<Longrightarrow>
   battleGeneralAsOneself_trigger json a = battleGeneralAsOneself_trigger json' a"
  by (simp add: battleGeneralAsOneself_trigger_def battle_trigger_mentions_def name_cong
      split: emo_ability_battle_GeneralAsOneselfTrigger.splits
        emo_ability_battle_GeneralAsOneselfTrigger_AllyBattleAbilityRemoved.splits)

lemma battle_action_cong:
  "json_agree json json' (battle_action_mentions a) \<Longrightarrow>
   battleNormalActionAsOneself json emoNames a t bases = battleNormalActionAsOneself json' emoNames a t bases"
  by (cases a) (auto simp: battleNormalActionAsOneself_def battle_action_mentions_def name_cong Let_def
      split: emo_ability_battle_NormalAction_AddBattleAbility.splits emo_ability_TargetOrRandom.splits
        emo_ability_TargetOrRandom_Random.splits if_splits)

lemma battle_as_ally_cong:
  assumes "json_agree json json' (battle_as_ally_mentions a)"
  shows "battleGeneralAsAlly json (emo_ability_battle_General_AsAlly tr a) t =
    battleGeneralAsAlly json' (emo_ability_battle_General_AsAlly tr a) t"
proof (cases a)
  case (GeneralAsAllyAction_Custom c)
  then show ?thesis by (cases c) (simp add: battleGeneralAsAlly_def)
next
  case (GeneralAsAllyAction_OneselfTripleNormal n)
  with assms show ?thesis
    by (cases n) (auto simp: battleGeneralAsAlly_def battle_as_ally_mentions_def
        split: emo_ability_Target.splits emo_ability_TargetOrRandom.splits
        emo_ability_battle_NormalAction_IncreaseStats.splits)
qed

lemma battle_texts_cong:
  "json_agree json json' (battle_mentions ability) \<Longrightarrow>
   battleAbility json emoNames ability t bases = battleAbility json' emoNames ability t bases"
  by (auto simp: battleAbility_def battle_mentions_def battleGeneral_def battleGeneralAsOneself_def
      trigger_cong battle_action_cong
      split: emo_ability_battle_Battle.splits emo_ability_battle_General.splits
      emo_ability_battle_General_AsOneself.splits emo_ability_battle_General_AsAlly.splits
      intro: battle_as_ally_cong)

lemma target_as_ally_cong:
  "json_agree json json' (target_as_ally_mentions a) \<Longrightarrow> targetAsAlly json a = targetAsAlly json' a"
  by (auto simp: targetAsAlly_def target_as_ally_mentions_def split: emo_ability_Target.splits
      emo_ability_Target_Others.splits emo_ability_Destination.splits)

lemma shop_as_ally_cong:
  "json_agree json json' (shop_as_ally_mentions a) \<Longrightarrow>
   shopPeriAsAlly json (emo_ability_shop_Peri_AsAlly tr a) t =
   shopPeriAsAlly json' (emo_ability_shop_Peri_AsAlly tr a) t"
  by (auto simp: shopPeriAsAlly_def shop_as_ally_mentions_def target_as_ally_cong
      split: emo_ability_shop_PeriAsAllyTrigger.splits emo_ability_shop_PeriAsAllyTrigger_AllySet.splits
        emo_ability_shop_PeriAsAllyAction.splits emo_ability_shop_NormalAction.splits
        emo_ability_shop_NormalAction_IncreaseStats.splits
        emo_ability_shop_NormalAction_IncreaseStatsByGrade.splits emo_ability_shop_AsAllyAction.splits)

lemma texts_cong:
  "json_agree json json' (shop_action_mentions a) \<Longrightarrow>
     shopNormalActionAsOneself json emoNames a t bases = shopNormalActionAsOneself json' emoNames a t bases"
  "json_agree json json' (shop_pre_mentions p) \<Longrightarrow>
     shopPreAction json emoNames p t bases = shopPreAction json' emoNames p t bases"
  "json_agree json json' (shop_peri_as_oneself_mentions o') \<Longrightarrow>
     shopPeriAsOneself json emoNames o' t bases = shopPeriAsOneself json' emoNames o' t bases"
  "json_agree json json' (shop_mentions sh) \<Longrightarrow>
     shopAbility json emoNames sh t bases = shopAbility json' emoNames sh t bases"
  "json_agree json json' (ability_mentions ab) \<Longrightarrow>
     buildEmoAbilityText json emoNames ab t bases = buildEmoAbilityText json' emoNames ab t bases"
proof (induction json emoNames a t bases and json emoNames p t bases and json emoNames o' t bases
    and json emoNames sh t bases and json emoNames ab t bases
    rule: shopNormalActionAsOneself_shopPreAction_shopPeriAsOneself_shopAbility_buildEmoAbilityText.induct)
  case (5 json emoNames target ability isTriple emoBases)
  then show ?case
    by (auto split: emo_ability_Ability.split emo_ability_battle_Battle.split)
qed (auto simp: battle_texts_cong shop_as_ally_cong split: emo_ability_shop_Peri_AsAlly.splits)

lemma typAndTriple_eq:
  "typAndTriple \<lparr>typ_opt = None, is_triple_opt = None\<rparr> = ''''"
  "typAndTriple \<lparr>typ_opt = Some ty, is_triple_opt = None\<rparr> = typ_name ty @ '' ''"
  by (simp_all add: typAndTriple_def)

end
