(* ===== verification/EmoElement.thy ===== *)
theory EmoElement
  imports Dom AbilityText
begin

text \<open>
  \<open>front/src/misc/emo/element.ts\<close>: the element that shows an emoji, with its body (emoji, grade,
  specials, attack, health) and its table of abilities, and the updates of it.
\<close>



section \<open>Construction\<close>

definition lower_typ :: "emo_Typ \<Rightarrow> string" where
  "lower_typ t =
     (case t of Typ_Human \<Rightarrow> ''human'' | Typ_Nature \<Rightarrow> ''nature''
      | Typ_Food \<Rightarrow> ''food'' | Typ_Object \<Rightarrow> ''object'')"

text \<open>A \<open>className\<close> is the list of the class names in it.\<close>

definition parent_class :: "emo_Typ \<Rightarrow> bool \<Rightarrow> bool \<Rightarrow> string list" where
  "parent_class typ isTriple isInactive =
     [''emo'', ''emo-typ-'' @ lower_typ typ] @ (if isTriple then [''emo-triple''] else []) @
     (if isInactive then [''emo-inactive''] else [])"

definition createParent :: "emo_Typ \<Rightarrow> bool \<Rightarrow> bool \<Rightarrow> node" where
  "createParent typ isTriple isInactive =
     (let e = createElement ''DIV'' in set_class (parent_class typ isTriple isInactive) e)"

definition createEmoji :: "string \<Rightarrow> node" where
  "createEmoji emoji =
     (let e = createElement ''DIV''; e = set_class [''emo-body-inner-emoji''] e in set_text emoji e)"

definition createGrade :: "string \<Rightarrow> node js" where
  "createGrade grade =
     (let e = createElement ''DIV''; e = set_class [''emo-body-inner-grade''] e in
      mapR (\<lambda>t. set_text t e) (getGradeText grade))"

text \<open>The loop over the abilities switches on the display of the two specials.\<close>

definition specials_step :: "node \<times> node \<Rightarrow> emo_ability_Ability \<Rightarrow> node \<times> node" where
  "specials_step els ability =
     (let (shieldElement, attractiveElement) = els in
      case ability of
        Ability_Battle (Battle_Special special) \<Rightarrow>
          (if special = Special_Shield then set_style ''display'' ''inline'' shieldElement
           else shieldElement,
           if special = Special_Attractive then set_style ''display'' ''inline'' attractiveElement
           else attractiveElement)
      | _ \<Rightarrow> (shieldElement, attractiveElement))"

definition createSpecials :: "emo_ability_Ability list \<Rightarrow> node" where
  "createSpecials abilities =
     (let e = set_class [''emo-body-inner-specials''] (createElement ''DIV'');
          shieldElement = createElement ''SPAN'';
          shieldElement = set_class [''emo-body-inner-specials-shield''] shieldElement;
          shieldElement = set_text shieldText shieldElement;
          shieldElement = set_style ''display'' ''none'' shieldElement;
          attractiveElement = createElement ''SPAN'';
          attractiveElement = set_class [''emo-body-inner-specials-attractive''] attractiveElement;
          attractiveElement = set_text attractiveText attractiveElement;
          attractiveElement = set_style ''display'' ''none'' attractiveElement;
          (shieldElement, attractiveElement) =
            foldl specials_step (shieldElement, attractiveElement) abilities
      in appendChild attractiveElement (appendChild shieldElement e))"

definition createBottom :: "string \<Rightarrow> string \<Rightarrow> node \<times> node" where
  "createBottom attack health =
     (let attackElement = set_class [''emo-body-inner-attack''] (createElement ''DIV'');
          attackElement = set_text attack attackElement;
          healthElement = set_class [''emo-body-inner-health''] (createElement ''DIV'');
          healthElement = set_text health healthElement
      in (attackElement, healthElement))"

definition createBody :: "string \<Rightarrow> string \<Rightarrow> emo_Attributes \<Rightarrow> node js" where
  "createBody emoji grade attributes =
     (let outer = set_class [''emo-body-outer''] (createElement ''DIV'');
          inner = set_class [''emo-body-inner''] (createElement ''DIV'');
          inner = appendChild (createEmoji emoji) inner
      in bindE (createGrade grade) (\<lambda>g.
         let inner = appendChild g inner;
             inner = appendChild (createSpecials (at_abilities attributes)) inner;
             (attack, health) =
               createBottom (toStringU (at_attack attributes)) (toStringU (at_health attributes));
             inner = appendChild attack inner;
             inner = appendChild health inner
         in Inr (appendChild inner outer)))"

text \<open>The columns are the values of the text object in the order it was built in.\<close>

definition createInfoAbilityTr ::
  "to_json \<Rightarrow> names \<Rightarrow> emo_ability_Ability \<Rightarrow> bool \<Rightarrow> EmoBases \<Rightarrow> node js" where
  "createInfoAbilityTr json emoNames ability isTriple emoBases =
     bindE (buildEmoAbilityText json emoNames ability isTriple emoBases) (\<lambda>t.
       Inr (foldl (\<lambda>tr text. appendChild (set_text text (createElement ''TD'')) tr)
              (createElement ''TR'') [ta_phase t, ta_trigger t, ta_action t]))"

definition createInfoAbilities ::
  "to_json \<Rightarrow> names \<Rightarrow> emo_ability_Ability list \<Rightarrow> bool \<Rightarrow> EmoBases \<Rightarrow> node js" where
  "createInfoAbilities json emoNames abilities isTriple emoBases =
     (let table = set_class [''emo-table''] (createElement ''TABLE'');
          trHead =
            foldl (\<lambda>tr text. appendChild (set_text text (createElement ''TH'')) tr)
              (createElement ''TR'') [''Phase'', ''Trigger'', ''Action''];
          thead = appendChild trHead (createElement ''THEAD'');
          table = appendChild thead table;
          tbody = set_class [''emo-table-body''] (createElement ''TBODY'')
      in bindE (mapE (\<lambda>ability. createInfoAbilityTr json emoNames ability isTriple emoBases) abilities)
           (\<lambda>trs. Inr (appendChild (foldl (\<lambda>b tr. appendChild tr b) tbody trs) table)))"

definition createInfo ::
  "to_json \<Rightarrow> names \<Rightarrow> string \<Rightarrow> emo_Attributes \<Rightarrow> EmoBases \<Rightarrow> node js" where
  "createInfo json emoNames emoji attributes emoBases =
     (let outer = set_class [''emo-info-outer''] (createElement ''DIV'');
          inner = set_class [''emo-info-inner''] (createElement ''DIV'')
      in bindE (getEmoName emoNames emoji) (\<lambda>name.
         let strong = set_text (name @ '' '') (createElement ''STRONG'');
             firstElement = appendChild strong (createElement ''DIV'');
             span = set_text '' '' (createElement ''SPAN'');
             firstElement = appendChild span firstElement;
             inner = appendChild firstElement inner
         in bindE (createInfoAbilities json emoNames (at_abilities attributes)
                     (at_is_triple attributes) emoBases) (\<lambda>table.
              let secondElement = appendChild table (createElement ''DIV'');
                  inner = appendChild secondElement inner
              in Inr (appendChild inner outer))))"

definition createEmo ::
  "to_json \<Rightarrow> names \<Rightarrow> string \<Rightarrow> emo_Typ \<Rightarrow> string \<Rightarrow> emo_Attributes \<Rightarrow> bool \<Rightarrow> EmoBases \<Rightarrow> node js"
where
  "createEmo json emoNames emoji typ grade attributes isInactive emoBases =
     (let emo = createParent typ (at_is_triple attributes) isInactive in
      bindE (createBody emoji grade attributes) (\<lambda>body.
      bindE (createInfo json emoNames emoji attributes emoBases) (\<lambda>info.
        Inr (appendChild info (appendChild body emo)))))"

definition createEmoWithBoardEmo ::
  "to_json \<Rightarrow> names \<Rightarrow> 'a mtc_GhostBoardEmo_scheme \<Rightarrow> EmoBases \<Rightarrow> node js" where
  "createEmoWithBoardEmo json emoNames boardEmo emoBases =
     bindE (findEmoBase (be_base_id boardEmo) emoBases) (\<lambda>base.
     bindE (getEmoBaseEmoji base) (\<lambda>emoji.
       createEmo json emoNames emoji (eb_typ base) (toStringU (eb_grade base))
         (be_attributes boardEmo) False emoBases))"

section \<open>Updates\<close>

text \<open>\<open>getElementsByClassName(..)[0]\<close> used without a check: the engine raises on \<open>undefined\<close>.\<close>

definition table_body :: "node \<Rightarrow> path js" where
  "table_body e = orTypeError (first_match (has_class ''emo-table-body'') e)"

definition addInfoAbility ::
  "to_json \<Rightarrow> names \<Rightarrow> emo_ability_Ability \<Rightarrow> bool \<Rightarrow> EmoBases \<Rightarrow> node \<Rightarrow> node js" where
  "addInfoAbility json emoNames ability isTriple emoBases e =
     bindE (table_body e) (\<lambda>p.
     bindE (createInfoAbilityTr json emoNames ability isTriple emoBases) (\<lambda>tr.
       Inr (update_at p (appendChild tr) e)))"

text \<open>The rows of a table body are its \<open>tr\<close> children; no row holds another.\<close>

definition removeInfoAbility :: "nat \<Rightarrow> node \<Rightarrow> node js" where
  "removeInfoAbility abilityIndex e =
     bindE (table_body e) (\<lambda>p.
     bindE (orTypeError (node_at e p)) (\<lambda>tbody.
       if abilityIndex < length (filter (\<lambda>n. tagName n = ''TR'') (children tbody))
       then Inr (update_at p (removeChildAt abilityIndex) e)
       else Inl JsTypeError))"

datatype stat_kind = Attack | Health
datatype sign = Positive | Negative

definition stat_name :: "stat_kind \<Rightarrow> string" where
  "stat_name k = (case k of Attack \<Rightarrow> ''attack'' | Health \<Rightarrow> ''health'')"

definition sign_name :: "sign \<Rightarrow> string" where
  "sign_name s = (case s of Positive \<Rightarrow> ''positive'' | Negative \<Rightarrow> ''negative'')"

definition stats_class :: "sign \<Rightarrow> string" where
  "stats_class positiveOrNegative = ''emo-body-inner-stats-'' @ sign_name positiveOrNegative"

definition updateEmoStat :: "stat_kind \<Rightarrow> sign \<Rightarrow> string \<Rightarrow> node \<Rightarrow> node js" where
  "updateEmoStat attackOrHealth positiveOrNegative value emoElement =
     mapR (\<lambda>p. update_at p
             (\<lambda>e. set_text value
                (classList_add (stats_class positiveOrNegative) e)) emoElement)
       (getFirstDivByClass emoElement (''emo-body-inner-'' @ stat_name attackOrHealth))"

definition getSpecial :: "node \<Rightarrow> string \<Rightarrow> path js" where
  "getSpecial e special =
     (if special = ''Shield'' then getFirstSpanByClass e ''emo-body-inner-specials-shield''
      else if special = ''Attractive'' then getFirstSpanByClass e ''emo-body-inner-specials-attractive''
      else throwError (''undefined special type: '' @ special))"

definition addSpecial :: "string \<Rightarrow> node \<Rightarrow> node js" where
  "addSpecial special e =
     mapR (\<lambda>p. update_at p (set_style ''display'' ''inline'') e) (getSpecial e special)"

definition removeSpecial :: "string \<Rightarrow> node \<Rightarrow> node js" where
  "removeSpecial special e =
     mapR (\<lambda>p. update_at p (set_style ''display'' ''none'') e) (getSpecial e special)"

definition getEmoBodyOuterFromEmo :: "node \<Rightarrow> path js" where
  "getEmoBodyOuterFromEmo emoElement = getFirstDivByClass emoElement ''emo-body-outer''"

definition getEmoBodyInnerFromEmo :: "node \<Rightarrow> path js" where
  "getEmoBodyInnerFromEmo emoElement = getFirstDivByClass emoElement ''emo-body-inner''"

definition createEmoDamage :: "string \<Rightarrow> node" where
  "createEmoDamage damage =
     (let e = createElement ''DIV'';
          e = classList_add ''emo-body-inner-damage'' e
      in set_text damage e)"

section \<open>The shape of an emoji's element\<close>

text \<open>
  What of the element varies over its life; \<open>emo_dom\<close> is the tree. \<open>ep_damages\<close> and
  \<open>ep_diffs\<close> are the numbers that are there during an animation.
\<close>

record emo_parts =
  ep_class :: "string list"
  ep_style :: "(string, string) jsmap"
  ep_body_style :: "(string, string) jsmap"
  ep_emoji :: string
  ep_grade :: string
  ep_shield :: "(string, string) jsmap"
  ep_attractive :: "(string, string) jsmap"
  ep_attack :: string
  ep_attack_signs :: "sign list"
  ep_health :: string
  ep_health_signs :: "sign list"
  ep_damages :: "node list"
  ep_name :: string
  ep_rows :: "(string \<times> string \<times> string) list"
  ep_diffs :: "node list"

fun row_dom :: "string \<times> string \<times> string \<Rightarrow> node" where
  "row_dom (phase, trigger, action) =
     Node ''TR'' [] [] '''' (map (\<lambda>x. Node ''TD'' [] [] x []) [phase, trigger, action])"

definition stat_dom :: "string \<Rightarrow> sign list \<Rightarrow> string \<Rightarrow> node" where
  "stat_dom cl signs v =
     Node ''DIV'' (cl # map stats_class signs) [] v []"

definition specials_dom :: "emo_parts \<Rightarrow> node" where
  "specials_dom p =
     Node ''DIV'' [''emo-body-inner-specials''] [] ''''
       [Node ''SPAN'' [''emo-body-inner-specials-shield''] (ep_shield p) shieldText [],
        Node ''SPAN'' [''emo-body-inner-specials-attractive''] (ep_attractive p) attractiveText []]"

definition body_dom :: "emo_parts \<Rightarrow> node" where
  "body_dom p =
     Node ''DIV'' [''emo-body-outer''] (ep_body_style p) ''''
       [Node ''DIV'' [''emo-body-inner''] [] ''''
         ([Node ''DIV'' [''emo-body-inner-emoji''] [] (ep_emoji p) [],
           Node ''DIV'' [''emo-body-inner-grade''] [] (ep_grade p) [],
           specials_dom p,
           stat_dom ''emo-body-inner-attack'' (ep_attack_signs p) (ep_attack p),
           stat_dom ''emo-body-inner-health'' (ep_health_signs p) (ep_health p)] @ ep_damages p)]"

definition table_dom :: "(string \<times> string \<times> string) list \<Rightarrow> node" where
  "table_dom rows =
     Node ''TABLE'' [''emo-table''] [] ''''
       [Node ''THEAD'' [] [] ''''
         [Node ''TR'' [] [] '''' (map (\<lambda>x. Node ''TH'' [] [] x []) [''Phase'', ''Trigger'', ''Action''])],
        Node ''TBODY'' [''emo-table-body''] [] '''' (map row_dom rows)]"

definition info_dom :: "emo_parts \<Rightarrow> node" where
  "info_dom p =
     Node ''DIV'' [''emo-info-outer''] [] ''''
       [Node ''DIV'' [''emo-info-inner''] [] ''''
         [Node ''DIV'' [] [] ''''
           [Node ''STRONG'' [] [] (ep_name p @ '' '') [], Node ''SPAN'' [] [] '' '' []],
          Node ''DIV'' [] [] '''' [table_dom (ep_rows p)]]]"

definition emo_dom :: "emo_parts \<Rightarrow> node" where
  "emo_dom p = Node ''DIV'' (ep_class p) (ep_style p) '''' (body_dom p # info_dom p # ep_diffs p)"

definition text_row :: "ability_text \<Rightarrow> string \<times> string \<times> string" where
  "text_row t = (ta_phase t, ta_trigger t, ta_action t)"

definition has_special :: "emo_ability_battle_Special \<Rightarrow> emo_ability_Ability list \<Rightarrow> bool" where
  "has_special s abilities = (Ability_Battle (Battle_Special s) \<in> set abilities)"

definition display :: "bool \<Rightarrow> (string, string) jsmap" where
  "display b = [(''display'', if b then ''inline'' else ''none'')]"

definition new_parts ::
  "string \<Rightarrow> emo_Typ \<Rightarrow> string \<Rightarrow> emo_Attributes \<Rightarrow> bool \<Rightarrow> string \<Rightarrow> ability_text list \<Rightarrow> emo_parts" where
  "new_parts emoji typ gradeText a isInactive name texts =
     \<lparr>ep_class = parent_class typ (at_is_triple a) isInactive, ep_style = [], ep_body_style = [],
      ep_emoji = emoji, ep_grade = gradeText,
      ep_shield = display (has_special Special_Shield (at_abilities a)),
      ep_attractive = display (has_special Special_Attractive (at_abilities a)),
      ep_attack = toStringU (at_attack a), ep_attack_signs = [],
      ep_health = toStringU (at_health a), ep_health_signs = [], ep_damages = [],
      ep_name = name, ep_rows = map text_row texts, ep_diffs = []\<rparr>"

section \<open>Creation builds the shape\<close>

lemma specials_loop:
  "foldl specials_step (Node t c (display b) x [], Node t' c' (display b') x' []) abilities =
   (Node t c (display (b \<or> has_special Special_Shield abilities)) x [],
    Node t' c' (display (b' \<or> has_special Special_Attractive abilities)) x' [])"
proof (induction abilities arbitrary: b b')
  case Nil
  then show ?case by (simp add: has_special_def)
next
  case (Cons a as)
  have "specials_step (Node t c (display b) x [], Node t' c' (display b') x' []) a =
      (Node t c (display (b \<or> a = Ability_Battle (Battle_Special Special_Shield))) x [],
       Node t' c' (display (b' \<or> a = Ability_Battle (Battle_Special Special_Attractive))) x' [])"
    by (auto simp: specials_step_def display_def split: emo_ability_Ability.split emo_ability_battle_Battle.split)
  then show ?case
    by (simp add: Cons.IH has_special_def) (auto intro: arg_cong)
qed

lemma createSpecials_eq:
  "createSpecials abilities =
   Node ''DIV'' [''emo-body-inner-specials''] [] ''''
     [Node ''SPAN'' [''emo-body-inner-specials-shield''] (display (has_special Special_Shield abilities))
        shieldText [],
      Node ''SPAN'' [''emo-body-inner-specials-attractive'']
        (display (has_special Special_Attractive abilities)) attractiveText []]"
  using specials_loop [of "''SPAN''" "[''emo-body-inner-specials-shield'']" False shieldText
      "''SPAN''" "[''emo-body-inner-specials-attractive'']" False attractiveText abilities]
  by (simp add: createSpecials_def createElement_def display_def Let_def)

lemma createInfoAbilityTr_eq:
  "createInfoAbilityTr json emoNames a t bases =
   mapR (\<lambda>x. row_dom (text_row x)) (buildEmoAbilityText json emoNames a t bases)"
  by (cases "buildEmoAbilityText json emoNames a t bases")
    (simp_all add: createInfoAbilityTr_def createElement_def text_row_def)

lemma foldl_appendChild:
  "foldl (\<lambda>b tr. appendChild tr b) (Node t c s x ch) trs = Node t c s x (ch @ trs)"
  by (induction trs arbitrary: ch) auto

lemma mapE_mapR: "mapE (\<lambda>a. mapR g (f a)) xs = mapR (map g) (mapE f xs)"
proof (induction xs)
  case (Cons x xs)
  then show ?case by (cases "f x"; cases "mapE f xs") auto
qed simp

lemma createEmo_eq:
  "createEmo json emoNames emoji typ grade a isInactive bases =
   bindE (getGradeText grade) (\<lambda>g.
   bindE (getEmoName emoNames emoji) (\<lambda>name.
   bindE (buildEmoAbilitiesText json emoNames (at_abilities a) (at_is_triple a) bases) (\<lambda>texts.
     Inr (emo_dom (new_parts emoji typ g a isInactive name texts)))))"
proof (cases "getGradeText grade")
  case (Inl e)
  then show ?thesis
    by (simp add: createEmo_def createBody_def createGrade_def Let_def)
next
  case g: (Inr g)
  show ?thesis
  proof (cases "getEmoName emoNames emoji")
    case (Inl e)
    then show ?thesis
      by (simp add: createEmo_def createBody_def createInfo_def createGrade_def createBottom_def g Let_def)
  next
    case n: (Inr name)
    show ?thesis
    proof (cases "buildEmoAbilitiesText json emoNames (at_abilities a) (at_is_triple a) bases")
      case (Inl e)
      then show ?thesis
        by (simp add: createEmo_def createBody_def createInfo_def createGrade_def createBottom_def g n
            Let_def createInfoAbilities_def createInfoAbilityTr_eq mapE_mapR buildEmoAbilitiesText_def)
    next
      case (Inr texts)
      then show ?thesis
        by (simp add: createEmo_def createBody_def createInfo_def createGrade_def createBottom_def g n
            Let_def createInfoAbilities_def createInfoAbilityTr_eq mapE_mapR buildEmoAbilitiesText_def
            foldl_appendChild createParent_def createElement_def createEmoji_def createSpecials_eq
            emo_dom_def body_dom_def info_dom_def new_parts_def specials_dom_def stat_dom_def table_dom_def
            comp_def)
    qed
  qed
qed

section \<open>Updates keep the shape\<close>

definition set_stat :: "stat_kind \<Rightarrow> sign \<Rightarrow> string \<Rightarrow> emo_parts \<Rightarrow> emo_parts" where
  "set_stat k s v p =
     (case k of
        Attack \<Rightarrow> p\<lparr>ep_attack := v,
          ep_attack_signs := (if s \<in> set (ep_attack_signs p) then ep_attack_signs p
                              else ep_attack_signs p @ [s])\<rparr>
      | Health \<Rightarrow> p\<lparr>ep_health := v,
          ep_health_signs := (if s \<in> set (ep_health_signs p) then ep_health_signs p
                              else ep_health_signs p @ [s])\<rparr>)"

lemma stats_class_simps [simp]:
  "stats_class s = stats_class s' \<longleftrightarrow> s = s'" "stats_class s \<noteq> ''emo-body-inner-attack''"
  "stats_class s \<noteq> ''emo-body-inner-health''" "stats_class s \<noteq> ''emo-table-body''"
  by (cases s; cases s'; simp add: stats_class_def sign_name_def)+

lemma stat_dom_simps [simp]:
  "tagName (stat_dom cl signs v) = ''DIV''" "children (stat_dom cl signs v) = []"
  "first_match P (stat_dom cl signs v) = None"
  by (simp_all add: stat_dom_def)

lemma stat_dom_update:
  "set_text w (classList_add (stats_class s) (stat_dom cl signs v)) =
     stat_dom cl (if s \<in> set signs then signs else signs @ [s]) w"
  if "cl \<in> {''emo-body-inner-attack'', ''emo-body-inner-health''}"
  using that by (auto simp: stat_dom_def image_iff)

text \<open>No class the code searches for is that of a grade, an emoji or a statistic by accident.\<close>

lemma has_class_Node [simp]: "has_class cl (Node t c s x ch) \<longleftrightarrow> cl \<in> set c"
  by (simp add: has_class_def)

lemma has_class_stat [simp]:
  "has_class ''emo-body-inner-attack'' (stat_dom ''emo-body-inner-attack'' signs v)"
  "has_class ''emo-body-inner-health'' (stat_dom ''emo-body-inner-health'' signs v)"
  "\<not> has_class ''emo-body-inner-health'' (stat_dom ''emo-body-inner-attack'' signs v)"
  "\<not> has_class ''emo-table-body'' (stat_dom ''emo-body-inner-attack'' signs v)"
  "\<not> has_class ''emo-table-body'' (stat_dom ''emo-body-inner-health'' signs v)"
  by (auto simp: stat_dom_def dest: sym)

lemma find_body_outer [simp]: "getEmoBodyOuterFromEmo (emo_dom p) = Inr [0]"
  by (simp add: getEmoBodyOuterFromEmo_def getFirstDivByClass_def getFirstByClass_def emo_dom_def
      body_dom_def js_at_def)

lemma find_body_inner [simp]: "getEmoBodyInnerFromEmo (emo_dom p) = Inr [0, 0]"
  by (simp add: getEmoBodyInnerFromEmo_def getFirstDivByClass_def getFirstByClass_def emo_dom_def
      body_dom_def js_at_def)

lemma updateEmoStat_dom [simp]:
  "updateEmoStat k s v (emo_dom p) = Inr (emo_dom (set_stat k s v p))"
proof (cases k)
  case Attack
  then have "getFirstDivByClass (emo_dom p) (''emo-body-inner-'' @ stat_name k) = Inr [0, 0, 3]"
    by (simp add: getFirstDivByClass_def getFirstByClass_def emo_dom_def body_dom_def specials_dom_def
        stat_name_def js_at_def)
  then show ?thesis
    using Attack
    by (simp add: updateEmoStat_def emo_dom_def body_dom_def info_dom_def specials_dom_def
        stat_dom_update set_stat_def)
next
  case Health
  then have "getFirstDivByClass (emo_dom p) (''emo-body-inner-'' @ stat_name k) = Inr [0, 0, 4]"
    by (simp add: getFirstDivByClass_def getFirstByClass_def emo_dom_def body_dom_def specials_dom_def
        stat_name_def js_at_def)
  then show ?thesis
    using Health
    by (simp add: updateEmoStat_def emo_dom_def body_dom_def info_dom_def specials_dom_def
        stat_dom_update set_stat_def)
qed

text \<open>The style property of a special, whose other name is an error.\<close>

definition set_special :: "string \<Rightarrow> string \<Rightarrow> string \<Rightarrow> emo_parts \<Rightarrow> emo_parts js" where
  "set_special special k v p =
     (if special = ''Shield'' then Inr (p\<lparr>ep_shield := jsmap_set (ep_shield p) k v\<rparr>)
      else if special = ''Attractive'' then Inr (p\<lparr>ep_attractive := jsmap_set (ep_attractive p) k v\<rparr>)
      else throwError (''undefined special type: '' @ special))"

lemma find_special:
  "getSpecial (emo_dom p) special =
     (if special = ''Shield'' then Inr [0, 0, 2, 0]
      else if special = ''Attractive'' then Inr [0, 0, 2, 1]
      else throwError (''undefined special type: '' @ special))"
  by (simp add: getSpecial_def getFirstSpanByClass_def getFirstByClass_def emo_dom_def body_dom_def
      specials_dom_def js_at_def)

lemma set_special_dom:
  "mapR (\<lambda>path. update_at path (set_style k v) (emo_dom p)) (getSpecial (emo_dom p) special) =
   mapR emo_dom (set_special special k v p)"
  by (simp add: find_special set_special_def)
    (simp add: emo_dom_def body_dom_def info_dom_def specials_dom_def)

lemma addSpecial_dom [simp]:
  "addSpecial special (emo_dom p) = mapR emo_dom (set_special special ''display'' ''inline'' p)"
  by (simp add: addSpecial_def set_special_dom)

lemma removeSpecial_dom [simp]:
  "removeSpecial special (emo_dom p) = mapR emo_dom (set_special special ''display'' ''none'' p)"
  by (simp add: removeSpecial_def set_special_dom)

text \<open>The table is reached past the body, so no damage may be on show then.\<close>

lemma table_body_dom [simp]:
  "ep_damages p = [] \<Longrightarrow> table_body (emo_dom p) = Inr [1, 0, 1, 0, 1]"
  by (simp add: table_body_def emo_dom_def body_dom_def specials_dom_def info_dom_def table_dom_def)

lemma addInfoAbility_dom [simp]:
  "ep_damages p = [] \<Longrightarrow>
   addInfoAbility json emoNames a t bases (emo_dom p) =
   mapR (\<lambda>x. emo_dom (p\<lparr>ep_rows := ep_rows p @ [text_row x]\<rparr>)) (buildEmoAbilityText json emoNames a t bases)"
  by (cases "buildEmoAbilityText json emoNames a t bases")
    (simp_all add: addInfoAbility_def createInfoAbilityTr_eq,
      simp add: emo_dom_def body_dom_def info_dom_def specials_dom_def table_dom_def)

lemma row_dom_tag [simp]: "tagName (row_dom r) = ''TR''"
  by (cases r) simp

lemma removeInfoAbility_dom:
  "ep_damages p = [] \<Longrightarrow>
   removeInfoAbility i (emo_dom p) =
     (if i < length (ep_rows p)
      then Inr (emo_dom (p\<lparr>ep_rows := take i (ep_rows p) @ drop (Suc i) (ep_rows p)\<rparr>))
      else Inl JsTypeError)"
  by (simp add: removeInfoAbility_def)
    (simp add: emo_dom_def body_dom_def info_dom_def specials_dom_def table_dom_def js_at_def
      removeChildAt_def take_map drop_map comp_def)

end
