(* ===== verification/EmoAnimations.thy ===== *)
theory EmoAnimations
  imports EmoElement
begin

text \<open>
  \<open>front/src/misc/emo/elementAnimations.ts\<close>: emojis enter a board, leave it, and show a change
  of their statistics. A board is an element whose children are emojis' elements. Where an
  animation waits, the code of other emojis may run; \<open>updateStats\<close> is therefore the sequence of
  its three uninterrupted parts.
\<close>

section \<open>The code\<close>

definition emoElementWidth :: nat where "emoElementWidth = 64"
definition emoElementHeight :: nat where "emoElementHeight = 93"
definition emoElementMargin :: string where "emoElementMargin = ''0px 4px''"
definition emoElementWithMarginWidth :: nat where "emoElementWithMarginWidth = 72"

definition addEmoToBoard ::
  "to_json \<Rightarrow> names \<Rightarrow> mtc_BoardEmo \<Rightarrow> nat \<Rightarrow> EmoBases \<Rightarrow> node \<Rightarrow> node js" where
  "addEmoToBoard json emoNames boardEmo index emoBases boardElement =
     bindE (createEmoWithBoardEmo json emoNames boardEmo emoBases) (\<lambda>emoElement.
       let emoElement = set_style ''width'' ''0px'' emoElement;
           emoElement = set_style ''margin'' ''0px 0px'' emoElement
       in bindE (getEmoBodyOuterFromEmo emoElement) (\<lambda>body.
            let emoElement = update_at body (set_style ''opacity'' ''0'') emoElement;
                i = min index (length (children boardElement));
                boardElement = insertElementByIndex emoElement index boardElement;
                boardElement = update_at [i]
                  (animateIndefinitely
                    [(''width'', [show_nat emoElementWidth @ ''px'']), (''margin'', [emoElementMargin])])
                  boardElement
            in Inr (update_at (i # body) (animateIndefinitely [(''opacity'', [''1''])]) boardElement)))"

definition removeEmoFromBoard :: "nat \<Rightarrow> node \<Rightarrow> node js" where
  "removeEmoFromBoard index boardElement =
     bindE (getChildDivByIndex boardElement index) (\<lambda>emoElement.
     bindE (getEmoBodyOuterFromEmo emoElement) (\<lambda>body.
       let boardElement =
             update_at (index # body)
               (animateIndefinitely [(''opacity'', [''0'']), (''filter'', [''blur(6px)''])]) boardElement
       in Inr (removeChildAt index boardElement)))"

text \<open>The element of \<open>showStatsText\<close>; it is appended, and removed when its animation ends.\<close>

definition stats_text :: "sign \<Rightarrow> stat_kind \<Rightarrow> nat \<Rightarrow> node" where
  "stats_text positiveOrNegative attackOrHealth value =
     (let e = createElement ''DIV'';
          e = set_text ((if positiveOrNegative = Positive then ''+'' else '''') @ show_nat value) e;
          e = classList_add (''emo-'' @ stat_name attackOrHealth @ ''-diff'') e;
          e = classList_add (''oeb-'' @ sign_name positiveOrNegative) e
      in set_style ''opacity'' ''0'' e)"

definition remove_child :: "node \<Rightarrow> node \<Rightarrow> node" where
  "remove_child e = with_children (remove1 e)"

record stats_change =
  sc_index :: nat
  sc_attack :: nat
  sc_health :: nat
  sc_calculated_attack :: string
  sc_calculated_health :: string

definition only_if :: "bool \<Rightarrow> ('a \<Rightarrow> 'a js) \<Rightarrow> 'a \<Rightarrow> 'a js" where
  "only_if b f a = (if b then f a else Inr a)"

definition updateStats_start :: "sign \<Rightarrow> stats_change \<Rightarrow> node \<Rightarrow> node js" where
  "updateStats_start s c =
     change_child (\<lambda>e.
       bindE (only_if (sc_attack c \<noteq> 0) (\<lambda>e. Inr (appendChild (stats_text s Attack (sc_attack c)) e)) e) (\<lambda>e.
       bindE (only_if (sc_health c \<noteq> 0) (\<lambda>e. Inr (appendChild (stats_text s Health (sc_health c)) e)) e) (\<lambda>e.
       bindE (getEmoBodyOuterFromEmo e) (\<lambda>_. Inr e)))) (sc_index c)"

definition updateStats_middle :: "sign \<Rightarrow> stats_change \<Rightarrow> node \<Rightarrow> node js" where
  "updateStats_middle s c =
     change_child (\<lambda>e.
       bindE (only_if (sc_attack c \<noteq> 0) (updateEmoStat Attack s (sc_calculated_attack c)) e)
         (only_if (sc_health c \<noteq> 0) (updateEmoStat Health s (sc_calculated_health c)))) (sc_index c)"

definition updateStats_end :: "sign \<Rightarrow> stats_change \<Rightarrow> node \<Rightarrow> node js" where
  "updateStats_end s c =
     change_child (\<lambda>e.
       bindE (only_if (sc_attack c \<noteq> 0) (\<lambda>e. Inr (remove_child (stats_text s Attack (sc_attack c)) e)) e)
         (only_if (sc_health c \<noteq> 0) (\<lambda>e. Inr (remove_child (stats_text s Health (sc_health c)) e))))
       (sc_index c)"

definition updateStats :: "sign \<Rightarrow> stats_change \<Rightarrow> node \<Rightarrow> node js" where
  "updateStats s c boardElement =
     bindE (updateStats_start s c boardElement) (\<lambda>b.
     bindE (updateStats_middle s c b) (updateStats_end s c))"

section \<open>Boards of emojis\<close>

definition board_dom :: "string list \<Rightarrow> (string, string) jsmap \<Rightarrow> emo_parts list \<Rightarrow> node" where
  "board_dom cls st ds = Node ''DIV'' cls st '''' (map emo_dom ds)"

lemma children_board_dom [simp]: "children (board_dom cls st ds) = map emo_dom ds"
  by (simp add: board_dom_def)

lemma tagName_emo_dom [simp]: "tagName (emo_dom p) = ''DIV''"
  by (simp add: emo_dom_def)

lemma getChild_board_dom [simp]:
  "getChildDivByIndex (board_dom cls st ds) i =
     (if i < length ds then Inr (emo_dom (ds ! i)) else throwError (''not found div: '' @ show_nat i))"
  by (simp add: getChildDivByIndex_def js_at_def)

text \<open>An update of one emoji that keeps its shape keeps the shape of the board.\<close>

lemma change_child_board:
  assumes "i < length ds" "f (emo_dom (ds ! i)) = mapR emo_dom (g (ds ! i))"
  shows "change_child f i (board_dom cls st ds) = mapR (\<lambda>d. board_dom cls st (ds[i := d])) (g (ds ! i))"
  using assms
  by (cases "g (ds ! i)") (simp_all add: change_child_def, simp add: board_dom_def map_update)

lemma change_child_out:
  "length ds \<le> i \<Longrightarrow>
   change_child f i (board_dom cls st ds) = throwError (''not found div: '' @ show_nat i)"
  by (simp add: change_child_def)

lemma update_at_board:
  "i < length ds \<Longrightarrow> update_at p f (emo_dom (ds ! i)) = emo_dom d \<Longrightarrow>
   update_at (i # p) f (board_dom cls st ds) = board_dom cls st (ds[i := d])"
  by (simp add: board_dom_def map_update)

section \<open>Entering and leaving\<close>

definition set_body_style :: "string \<Rightarrow> string \<Rightarrow> emo_parts \<Rightarrow> emo_parts" where
  "set_body_style k v p = p\<lparr>ep_body_style := jsmap_set (ep_body_style p) k v\<rparr>"

definition set_emo_style :: "string \<Rightarrow> string \<Rightarrow> emo_parts \<Rightarrow> emo_parts" where
  "set_emo_style k v p = p\<lparr>ep_style := jsmap_set (ep_style p) k v\<rparr>"

lemma set_style_emo [simp]: "set_style k v (emo_dom p) = emo_dom (set_emo_style k v p)"
  by (simp add: emo_dom_def set_emo_style_def body_dom_def info_dom_def specials_dom_def)

lemma set_style_body [simp]: "set_style k v (body_dom p) = body_dom (set_body_style k v p)"
  by (simp add: set_body_style_def body_dom_def specials_dom_def)

lemma set_body_style_rest [simp]:
  "info_dom (set_body_style k v p) = info_dom p" "ep_diffs (set_body_style k v p) = ep_diffs p"
  "ep_class (set_body_style k v p) = ep_class p" "ep_style (set_body_style k v p) = ep_style p"
  by (simp_all add: set_body_style_def info_dom_def)

definition animate_body :: "(string \<times> string list) list \<Rightarrow> emo_parts \<Rightarrow> emo_parts" where
  "animate_body keyframes p =
     foldl (\<lambda>p (k, v). if v = [] then p else set_body_style k (last v) p) p keyframes"

lemma animate_body_dom:
  "animateIndefinitely kf (body_dom p) = body_dom (animate_body kf p) \<and>
   info_dom (animate_body kf p) = info_dom p \<and> ep_diffs (animate_body kf p) = ep_diffs p \<and>
   ep_class (animate_body kf p) = ep_class p \<and> ep_style (animate_body kf p) = ep_style p"
  by (induction kf arbitrary: p) (auto simp: animateIndefinitely_def animate_body_def)

lemma update_body [simp]:
  "update_at [0] (set_style k v) (emo_dom p) = emo_dom (set_body_style k v p)"
  "update_at [0] (animateIndefinitely kf) (emo_dom p) = emo_dom (animate_body kf p)"
  by (simp_all add: emo_dom_def animate_body_dom)

text \<open>What an emoji is on a board, apart from styles.\<close>

definition new_emo :: "to_json \<Rightarrow> names \<Rightarrow> EmoBases \<Rightarrow> 'a mtc_GhostBoardEmo_scheme \<Rightarrow> emo_parts js" where
  "new_emo json emoNames bases e =
     bindE (findEmoBase (be_base_id e) bases) (\<lambda>base.
     bindE (getEmoBaseEmoji base) (\<lambda>emoji.
     bindE (getGradeText (toStringU (eb_grade base))) (\<lambda>g.
     bindE (getEmoName emoNames emoji) (\<lambda>name.
     bindE (buildEmoAbilitiesText json emoNames (at_abilities (be_attributes e))
              (at_is_triple (be_attributes e)) bases) (\<lambda>texts.
       Inr (new_parts emoji (eb_typ base) g (be_attributes e) False name texts))))))"

lemma createEmoWithBoardEmo_eq:
  "createEmoWithBoardEmo json emoNames e bases = mapR emo_dom (new_emo json emoNames bases e)"
  by (simp add: createEmoWithBoardEmo_def new_emo_def createEmo_eq mapR_def)

definition settled :: "emo_parts \<Rightarrow> emo_parts" where
  "settled p =
     set_body_style ''opacity'' ''1''
      (set_emo_style ''margin'' ''0px 4px''
        (set_emo_style ''width'' ''64px''
          (set_body_style ''opacity'' ''0''
            (set_emo_style ''margin'' ''0px 0px'' (set_emo_style ''width'' ''0px'' p)))))"

lemma insert_before_end [simp]: "length xs \<le> i \<Longrightarrow> insert_before i e xs = xs @ [e]"
  by (simp add: insert_before_def)

lemma insertElementByIndex_board:
  "insertElementByIndex (emo_dom d) i (board_dom cls st ds) = board_dom cls st (insert_before i d ds)"
  by (simp add: insertElementByIndex_def board_dom_def insert_before_map insert_before_def take_map drop_map)

lemma insert_before_nth: "insert_before i e xs ! min i (length xs) = e"
  by (simp add: insert_before_def nth_append min_def)

lemma insert_before_update: "(insert_before i e xs)[min i (length xs) := e'] = insert_before i e' xs"
  by (simp add: insert_before_def list_update_append min_def)

lemma show_64: "show_nat 64 = ''64''"
  by code_simp

lemma addEmoToBoard_board:
  "addEmoToBoard json emoNames e i bases (board_dom cls st ds) =
   mapR (\<lambda>d. board_dom cls st (insert_before i (settled d) ds)) (new_emo json emoNames bases e)"
proof (cases "new_emo json emoNames bases e")
  case (Inl err)
  then show ?thesis by (simp add: addEmoToBoard_def createEmoWithBoardEmo_eq)
next
  case (Inr d)
  let ?d1 = "set_body_style ''opacity'' ''0''
      (set_emo_style ''margin'' ''0px 0px'' (set_emo_style ''width'' ''0px'' d))"
  let ?d2 = "set_emo_style ''margin'' ''0px 4px'' (set_emo_style ''width'' ''64px'' ?d1)"
  let ?i = "min i (length ds)"
  have i: "?i < length (insert_before i x ds)" for x
    by (simp add: less_Suc_eq_le)
  have 1: "update_at [?i] (animateIndefinitely
        [(''width'', [show_nat emoElementWidth @ ''px'']), (''margin'', [emoElementMargin])])
      (board_dom cls st (insert_before i ?d1 ds)) = board_dom cls st (insert_before i ?d2 ds)"
    by (subst update_at_board [OF i])
      (simp_all add: insert_before_nth insert_before_update animateIndefinitely_def emoElementWidth_def
        emoElementMargin_def show_64)
  have 2: "update_at (?i # [0]) (animateIndefinitely [(''opacity'', [''1''])])
      (board_dom cls st (insert_before i ?d2 ds)) = board_dom cls st (insert_before i (settled d) ds)"
    by (subst update_at_board [OF i, where d = "settled d"])
      (simp_all add: insert_before_nth insert_before_update animate_body_def settled_def del: update_at.simps(2))
  show ?thesis
    using 1 2
    by (simp add: addEmoToBoard_def createEmoWithBoardEmo_eq Inr Let_def insertElementByIndex_board
        del: update_at.simps)
qed

lemma removeEmoFromBoard_board:
  "removeEmoFromBoard i (board_dom cls st ds) =
     (if i < length ds then Inr (board_dom cls st (take i ds @ drop (Suc i) ds))
      else throwError (''not found div: '' @ show_nat i))"
proof (cases "i < length ds")
  case True
  then have "update_at (i # [0]) (animateIndefinitely [(''opacity'', [''0'']), (''filter'', [''blur(6px)''])])
      (board_dom cls st ds) =
      board_dom cls st
        (ds[i := animate_body [(''opacity'', [''0'']), (''filter'', [''blur(6px)''])] (ds ! i)])"
    by (intro update_at_board) (simp_all del: update_at.simps(2))
  with True show ?thesis
    by (simp add: removeEmoFromBoard_def removeChildAt_def del: update_at.simps)
      (simp add: board_dom_def take_map drop_map)
qed (simp add: removeEmoFromBoard_def)

section \<open>Changes of statistics\<close>

definition diffs :: "sign \<Rightarrow> stats_change \<Rightarrow> node list" where
  "diffs s c =
     (if sc_attack c \<noteq> 0 then [stats_text s Attack (sc_attack c)] else []) @
     (if sc_health c \<noteq> 0 then [stats_text s Health (sc_health c)] else [])"

definition start_parts :: "sign \<Rightarrow> stats_change \<Rightarrow> emo_parts \<Rightarrow> emo_parts" where
  "start_parts s c p = p\<lparr>ep_diffs := ep_diffs p @ diffs s c\<rparr>"

definition change_parts :: "sign \<Rightarrow> stats_change \<Rightarrow> emo_parts \<Rightarrow> emo_parts" where
  "change_parts s c p =
     (let p = (if sc_attack c \<noteq> 0 then set_stat Attack s (sc_calculated_attack c) p else p)
      in if sc_health c \<noteq> 0 then set_stat Health s (sc_calculated_health c) p else p)"

definition end_parts :: "sign \<Rightarrow> stats_change \<Rightarrow> emo_parts \<Rightarrow> emo_parts" where
  "end_parts s c p = p\<lparr>ep_diffs := fold remove1 (diffs s c) (ep_diffs p)\<rparr>"

lemma appendChild_dom: "appendChild e (emo_dom p) = emo_dom (p\<lparr>ep_diffs := ep_diffs p @ [e]\<rparr>)"
  by (simp add: emo_dom_def body_dom_def info_dom_def specials_dom_def)

lemma stats_text_not_part: "stats_text s k v \<noteq> body_dom p" "stats_text s k v \<noteq> info_dom p"
  by (cases k; simp add: stats_text_def body_dom_def info_dom_def createElement_def stat_name_def Let_def)+

lemma remove_child_dom:
  "remove_child (stats_text s k v) (emo_dom p) =
   emo_dom (p\<lparr>ep_diffs := remove1 (stats_text s k v) (ep_diffs p)\<rparr>)"
proof -
  have "body_dom (p\<lparr>ep_diffs := x\<rparr>) = body_dom p" "info_dom (p\<lparr>ep_diffs := x\<rparr>) = info_dom p" for x
    by (simp_all add: body_dom_def info_dom_def specials_dom_def)
  then show ?thesis
    using stats_text_not_part [of s k v p] by (auto simp: remove_child_def emo_dom_def)
qed

lemmas updateStats_dom_defs = diffs_def only_if_def

lemma updateStats_start_board:
  "updateStats_start s c (board_dom cls st ds) =
     (if sc_index c < length ds
      then Inr (board_dom cls st (ds[sc_index c := start_parts s c (ds ! sc_index c)]))
      else throwError (''not found div: '' @ show_nat (sc_index c)))"
proof (cases "sc_index c < length ds")
  case True
  then show ?thesis
    unfolding updateStats_start_def
    by (subst change_child_board [where g = "\<lambda>p. Inr (start_parts s c p)"])
      (simp_all add: start_parts_def updateStats_dom_defs appendChild_dom)
qed (simp add: updateStats_start_def change_child_out)

lemma updateStats_middle_board:
  "updateStats_middle s c (board_dom cls st ds) =
     (if sc_index c < length ds
      then Inr (board_dom cls st (ds[sc_index c := change_parts s c (ds ! sc_index c)]))
      else throwError (''not found div: '' @ show_nat (sc_index c)))"
proof (cases "sc_index c < length ds")
  case True
  then show ?thesis
    unfolding updateStats_middle_def
    by (subst change_child_board [where g = "\<lambda>p. Inr (change_parts s c p)"])
      (simp_all add: change_parts_def updateStats_dom_defs)
qed (simp add: updateStats_middle_def change_child_out)

lemma updateStats_end_board:
  "updateStats_end s c (board_dom cls st ds) =
     (if sc_index c < length ds
      then Inr (board_dom cls st (ds[sc_index c := end_parts s c (ds ! sc_index c)]))
      else throwError (''not found div: '' @ show_nat (sc_index c)))"
proof (cases "sc_index c < length ds")
  case True
  then show ?thesis
    unfolding updateStats_end_def
    by (subst change_child_board [where g = "\<lambda>p. Inr (end_parts s c p)"])
      (simp_all add: end_parts_def updateStats_dom_defs remove_child_dom)
qed (simp add: updateStats_end_def change_child_out)

text \<open>With no number on show before, none is left: the three parts amount to the change.\<close>

lemma change_parts_diffs [simp]: "ep_diffs (change_parts s c p) = ep_diffs p"
  by (simp add: change_parts_def set_stat_def Let_def)

lemma diffs_distinct: "distinct (diffs s c)"
  by (auto simp: diffs_def stats_text_def createElement_def stat_name_def)

lemma fold_remove1_self: "distinct xs \<Longrightarrow> fold remove1 xs (ys @ xs) = ys"
  if "set xs \<inter> set ys = {}"
  using that
proof (induction xs arbitrary: ys)
  case (Cons x xs)
  then have "remove1 x (ys @ x # xs) = ys @ xs"
    by (simp add: remove1_append)
  with Cons show ?case by simp
qed simp

lemma change_parts_update:
  "change_parts s c (p\<lparr>ep_diffs := ds\<rparr>) = (change_parts s c p)\<lparr>ep_diffs := ds\<rparr>"
  by (simp add: change_parts_def set_stat_def Let_def)

lemma three_parts:
  assumes "ep_diffs p = []"
  shows "end_parts s c (change_parts s c (start_parts s c p)) = change_parts s c p"
proof -
  have "fold remove1 (diffs s c) (diffs s c) = []"
    using fold_remove1_self [of "diffs s c" "[]"] by (simp add: diffs_distinct)
  moreover have "(change_parts s c p)\<lparr>ep_diffs := []\<rparr> = change_parts s c p"
    using assms change_parts_diffs [of s c p] by (cases "change_parts s c p") simp
  ultimately show ?thesis
    by (simp add: end_parts_def start_parts_def change_parts_update assms)
qed

lemma updateStats_board:
  "\<forall>p\<in>set ds. ep_diffs p = [] \<Longrightarrow>
   updateStats s c (board_dom cls st ds) =
     (if sc_index c < length ds
      then Inr (board_dom cls st (ds[sc_index c := change_parts s c (ds ! sc_index c)]))
      else throwError (''not found div: '' @ show_nat (sc_index c)))"
  by (simp add: updateStats_def updateStats_start_board updateStats_middle_board updateStats_end_board
      three_parts)

end
