(* ===== verification/EmoView.thy ===== *)
theory EmoView
  imports EmoAnimations
begin

text \<open>
  What a viewer of a board sees, as a state of its own. The document shows a view when its board
  has the shape of emojis' elements with no number left over from an animation. The operations of
  \<open>elementAnimations.ts\<close> keep that relation, an error on one side being the same error on the
  other; this is the contract the two clients of those operations, the battle and the shop, use.
\<close>

section \<open>Views\<close>

record emo_view =
  ev_class :: "string list"
  ev_emoji :: string
  ev_grade :: string
  ev_name :: string
  ev_attack :: string
  ev_health :: string
  ev_shield :: bool
  ev_attractive :: bool
  ev_rows :: "(string \<times> string \<times> string) list"

definition shown :: "(string, string) jsmap \<Rightarrow> bool" where
  "shown st = (jsmap_get st ''display'' = Some ''inline'')"

definition view :: "emo_parts \<Rightarrow> emo_view" where
  "view p =
     \<lparr>ev_class = ep_class p, ev_emoji = ep_emoji p, ev_grade = ep_grade p, ev_name = ep_name p,
      ev_attack = ep_attack p, ev_health = ep_health p, ev_shield = shown (ep_shield p),
      ev_attractive = shown (ep_attractive p), ev_rows = ep_rows p\<rparr>"

definition calm :: "emo_parts \<Rightarrow> bool" where
  "calm p \<longleftrightarrow> ep_damages p = [] \<and> ep_diffs p = []"

definition shows_emo :: "node \<Rightarrow> emo_view \<Rightarrow> bool" where
  "shows_emo e v \<longleftrightarrow> (\<exists>p. e = emo_dom p \<and> calm p \<and> view p = v)"

definition shows_board :: "node \<Rightarrow> emo_view list \<Rightarrow> bool" where
  "shows_board b vs \<longleftrightarrow> (\<exists>cls st ds. b = board_dom cls st ds \<and> (\<forall>p\<in>set ds. calm p) \<and> map view ds = vs)"

abbreviation same :: "('a \<Rightarrow> 'b \<Rightarrow> bool) \<Rightarrow> 'a js \<Rightarrow> 'b js \<Rightarrow> bool" where
  "same R \<equiv> rel_sum (=) R"

declare buildEmoAbilityText.simps [simp del]

section \<open>Changes of a view\<close>

definition view_at :: "(emo_view \<Rightarrow> emo_view js) \<Rightarrow> nat \<Rightarrow> emo_view list \<Rightarrow> emo_view list js" where
  "view_at f i vs =
     (if i < length vs then mapR (\<lambda>v. vs[i := v]) (f (vs ! i))
      else throwError (''not found div: '' @ show_nat i))"

definition view_remove :: "nat \<Rightarrow> 'v list \<Rightarrow> 'v list js" where
  "view_remove i vs =
     (if i < length vs then Inr (take i vs @ drop (Suc i) vs)
      else throwError (''not found div: '' @ show_nat i))"

definition change_view :: "stats_change \<Rightarrow> emo_view \<Rightarrow> emo_view" where
  "change_view c v =
     (let v = (if sc_attack c \<noteq> 0 then v\<lparr>ev_attack := sc_calculated_attack c\<rparr> else v)
      in if sc_health c \<noteq> 0 then v\<lparr>ev_health := sc_calculated_health c\<rparr> else v)"

definition special_view :: "string \<Rightarrow> bool \<Rightarrow> emo_view \<Rightarrow> emo_view js" where
  "special_view special b v =
     (if special = ''Shield'' then Inr (v\<lparr>ev_shield := b\<rparr>)
      else if special = ''Attractive'' then Inr (v\<lparr>ev_attractive := b\<rparr>)
      else throwError (''undefined special type: '' @ special))"

definition special_of :: "emo_ability_battle_Battle \<Rightarrow> bool \<Rightarrow> emo_view \<Rightarrow> emo_view js" where
  "special_of ability b v =
     (case ability of Battle_Special s \<Rightarrow> special_view (special_type s) b v | _ \<Rightarrow> Inr v)"

definition new_views ::
  "to_json \<Rightarrow> names \<Rightarrow> EmoBases \<Rightarrow> 'a mtc_GhostBoardEmo_scheme list \<Rightarrow> emo_view list js" where
  "new_views json emoNames bases board = mapE (\<lambda>e. mapR view (new_emo json emoNames bases e)) board"

section \<open>Fallible steps side by side\<close>

lemma same_bindE:
  "same R m n \<Longrightarrow> (\<And>a b. R a b \<Longrightarrow> same S (f a) (g b)) \<Longrightarrow> same S (bindE m f) (bindE n g)"
  by (cases m; cases n) auto

lemma same_mapR: "same R m n \<Longrightarrow> (\<And>a b. R a b \<Longrightarrow> S (f a) (g b)) \<Longrightarrow> same S (mapR f m) (mapR g n)"
  by (cases m; cases n) auto

lemma same_check: "same (=) m n \<Longrightarrow> same S x y \<Longrightarrow> same S (bindE m (\<lambda>_. x)) (bindE n (\<lambda>_. y))"
  by (cases m; cases n) auto

lemma foldE_same:
  "(\<And>a b x. R a b \<Longrightarrow> x \<in> set xs \<Longrightarrow> same R (f a x) (g b x)) \<Longrightarrow> R a b \<Longrightarrow>
   same R (foldE f a xs) (foldE g b xs)"
proof (induction xs arbitrary: a b)
  case (Cons x xs)
  then have "same R (f a x) (g b x)" by simp
  then show ?case
    unfolding foldE.simps by (rule same_bindE) (rule Cons.IH, use Cons.prems(1) in auto)
qed simp

text \<open>A check that has passed once passes again, so a later look cannot fail.\<close>

lemma same_again:
  assumes "same R m (Inr v)" "\<And>a. R a v \<Longrightarrow> same R (f a) n"
  shows "same R (bindE m f) n"
  using assms by (cases m) auto

section \<open>The operations on a board\<close>

lemma shows_boardE:
  assumes "shows_board b vs"
  obtains cls st ds where "b = board_dom cls st ds" "\<forall>p\<in>set ds. calm p" "map view ds = vs"
  using assms by (auto simp: shows_board_def)

lemma shows_board_update:
  "shows_board (board_dom cls st ds) vs \<Longrightarrow> i < length ds \<Longrightarrow> calm d \<Longrightarrow> \<forall>p\<in>set ds. calm p \<Longrightarrow>
   map view ds = vs \<Longrightarrow> shows_board (board_dom cls st (ds[i := d])) (vs[i := view d])"
  unfolding shows_board_def
  by (intro exI [of _ cls] exI [of _ st] exI [of _ "ds[i := d]"])
    (auto simp: map_update dest!: set_update_subset_insert [THEN subsetD])

lemma change_child_same:
  assumes f: "\<And>p. calm p \<Longrightarrow> same shows_emo (f (emo_dom p)) (g (view p))" and s: "shows_board b vs"
  shows "same shows_board (change_child f i b) (view_at g i vs)"
proof -
  from s obtain cls st ds where b: "b = board_dom cls st ds" "\<forall>p\<in>set ds. calm p" "map view ds = vs"
    by (rule shows_boardE)
  show ?thesis
  proof (cases "i < length ds")
    case False
    with b show ?thesis by (auto simp: change_child_out view_at_def)
  next
    case True
    with b have "calm (ds ! i)" "vs ! i = view (ds ! i)" "i < length vs" by auto
    with f have *: "same shows_emo (f (emo_dom (ds ! i))) (g (vs ! i))" by metis
    show ?thesis
    proof (cases "f (emo_dom (ds ! i))")
      case (Inl e)
      with * True \<open>i < length vs\<close> show ?thesis
        by (cases "g (vs ! i)") (auto simp: b(1) change_child_def view_at_def)
    next
      case (Inr e')
      with * obtain p where p: "e' = emo_dom p" "calm p" "g (vs ! i) = Inr (view p)"
        by (cases "g (vs ! i)") (auto simp: shows_emo_def)
      then have "change_child f i b = Inr (board_dom cls st (ds[i := p]))"
        using change_child_board [of i ds f "\<lambda>_. Inr p"] True Inr by (simp add: b(1))
      then show ?thesis
        using p True \<open>i < length vs\<close> shows_board_update [of cls st ds vs i p] s b
        by (simp add: view_at_def)
    qed
  qed
qed

lemma view_simps [simp]:
  "view (set_body_style k v p) = view p" "view (set_emo_style k v p) = view p"
  "calm (set_body_style k v p) = calm p" "calm (set_emo_style k v p) = calm p"
  by (simp_all add: view_def calm_def set_body_style_def set_emo_style_def)

lemma view_animate_body [simp]:
  "view (animate_body kf p) = view p" "calm (animate_body kf p) = calm p"
  by (induction kf arbitrary: p; force simp: animate_body_def)+

lemma settled_simps [simp]: "view (settled p) = view p" "calm (settled p) = calm p"
  by (simp_all add: settled_def)

lemma new_emo_calm: "new_emo json emoNames bases e = Inr d \<Longrightarrow> calm d"
  by (auto simp: new_emo_def bindE_eq_Inr_iff calm_def new_parts_def)

lemma shows_emoI: "calm p \<Longrightarrow> view p = v \<Longrightarrow> shows_emo (emo_dom p) v"
  by (auto simp: shows_emo_def)

lemma change_parts_calm: "calm p \<Longrightarrow> calm (change_parts s c p)"
  by (simp add: calm_def change_parts_def set_stat_def Let_def)

lemma view_change_parts: "view (change_parts s c p) = change_view c (view p)"
  by (simp add: view_def change_parts_def set_stat_def change_view_def Let_def)

lemma updateStats_same:
  assumes "shows_board b vs"
  shows "same shows_board (updateStats s c b) (view_at (\<lambda>v. Inr (change_view c v)) (sc_index c) vs)"
proof -
  obtain cls st ds where b: "b = board_dom cls st ds" "\<forall>p\<in>set ds. calm p" "map view ds = vs"
    using assms by (rule shows_boardE)
  then have "\<forall>p\<in>set ds. ep_diffs p = []" by (simp add: calm_def)
  then show ?thesis
    using b assms change_parts_calm [of "ds ! sc_index c" s c]
      shows_board_update [of cls st ds vs "sc_index c" "change_parts s c (ds ! sc_index c)"]
    by (auto simp: updateStats_board view_at_def view_change_parts)
qed

lemma insert_shows:
  assumes "shows_board (board_dom cls st ds) vs" "\<forall>p\<in>set ds. calm p" "map view ds = vs" "calm d"
  shows "shows_board (board_dom cls st (insert_before i d ds)) (insert_before i (view d) vs)"
  unfolding shows_board_def
  by (intro exI conjI, rule refl)
    (use assms in \<open>auto simp: insert_before_def take_map drop_map dest: in_set_takeD in_set_dropD\<close>)

lemma appendChild_board: "appendChild (emo_dom d) (board_dom cls st ds) = board_dom cls st (ds @ [d])"
  by (simp add: board_dom_def)

lemma set_special_same:
  "calm p \<Longrightarrow> same shows_emo (mapR emo_dom (set_special s ''display'' v p))
     (special_view s (v = ''inline'') (view p))"
  by (simp add: set_special_def special_view_def)
    (auto intro!: shows_emoI simp: view_def shown_def calm_def update_conv')

lemma calm_rows: "calm p \<Longrightarrow> calm (p\<lparr>ep_rows := r\<rparr>)" "view (p\<lparr>ep_rows := r\<rparr>) = (view p)\<lparr>ev_rows := r\<rparr>"
  by (simp_all add: calm_def view_def)

section \<open>The contract of a board\<close>

text \<open>
  What the animations of the battle and of the shop rely on: an emoji that enters is shown at its
  index, one that leaves is no longer shown, and a change of statistics changes what is shown.
\<close>

datatype 'e board_step = Enter nat 'e | Leave nat | Stats sign stats_change

locale board_display =
  fixes shows_b :: "'b \<Rightarrow> emo_view list \<Rightarrow> bool"
    and enter :: "nat \<Rightarrow> 'e \<Rightarrow> 'b \<Rightarrow> 'b js"
    and leave :: "nat \<Rightarrow> 'b \<Rightarrow> 'b js"
    and stats :: "sign \<Rightarrow> stats_change \<Rightarrow> 'b \<Rightarrow> 'b js"
    and born :: "'e \<Rightarrow> emo_view js"
  assumes enter_law:
      "shows_b b vs \<Longrightarrow> same shows_b (enter i e b) (mapR (\<lambda>v. insert_before i v vs) (born e))"
    and leave_law: "shows_b b vs \<Longrightarrow> same shows_b (leave i b) (view_remove i vs)"
    and stats_law:
      "shows_b b vs \<Longrightarrow>
       same shows_b (stats s c b) (view_at (\<lambda>v. Inr (change_view c v)) (sc_index c) vs)"
begin

fun step :: "'b \<Rightarrow> 'e board_step \<Rightarrow> 'b js" where
  "step b (Enter i e) = enter i e b"
| "step b (Leave i) = leave i b"
| "step b (Stats s c) = stats s c b"

fun view_step :: "emo_view list \<Rightarrow> 'e board_step \<Rightarrow> emo_view list js" where
  "view_step vs (Enter i e) = mapR (\<lambda>v. insert_before i v vs) (born e)"
| "view_step vs (Leave i) = view_remove i vs"
| "view_step vs (Stats s c) = view_at (\<lambda>v. Inr (change_view c v)) (sc_index c) vs"

lemma step_same: "shows_b b vs \<Longrightarrow> same shows_b (step b st) (view_step vs st)"
  by (cases st) (simp_all add: enter_law leave_law stats_law)

lemma steps_same: "shows_b b vs \<Longrightarrow> same shows_b (foldE step b sts) (foldE view_step vs sts)"
  by (rule foldE_same [OF step_same])

lemma enter_then_leave:
  assumes "shows_b b vs" "i \<le> length vs" "enter i e b = Inr b'"
  shows "\<exists>b''. leave i b' = Inr b'' \<and> shows_b b'' vs"
proof -
  obtain v where "shows_b b' (insert_before i v vs)"
    using enter_law [OF assms(1), of i e] assms(3) by (cases "born e") auto
  then have "same shows_b (leave i b') (Inr vs)"
    using leave_law [of b' "insert_before i v vs" i] assms(2)
    by (simp add: view_remove_def take_drop_insert_before)
  then show ?thesis by (cases "leave i b'") auto
qed

end

lemma leave_same:
  assumes "shows_board b vs"
  shows "same shows_board (removeEmoFromBoard i b) (view_remove i vs)"
proof -
  obtain cls st ds where b: "b = board_dom cls st ds" "\<forall>p\<in>set ds. calm p" "map view ds = vs"
    using assms by (rule shows_boardE)
  then have "shows_board (board_dom cls st (take i ds @ drop (Suc i) ds)) (take i vs @ drop (Suc i) vs)"
    unfolding shows_board_def
    by (intro exI [of _ cls] exI [of _ st] exI [of _ "take i ds @ drop (Suc i) ds"])
      (auto simp: take_map drop_map dest: in_set_takeD in_set_dropD)
  with b show ?thesis
    by (auto simp: removeEmoFromBoard_board view_remove_def)
qed

lemma enter_same:
  assumes "shows_board b vs"
  shows "same shows_board (addEmoToBoard json emoNames e i bases b)
    (mapR (\<lambda>v. insert_before i v vs) (mapR view (new_emo json emoNames bases e)))"
proof -
  obtain cls st ds where b: "b = board_dom cls st ds" "\<forall>p\<in>set ds. calm p" "map view ds = vs"
    using assms by (rule shows_boardE)
  show ?thesis
  proof (cases "new_emo json emoNames bases e")
    case (Inr d)
    then show ?thesis
      using insert_shows [of cls st ds vs "settled d"] assms b new_emo_calm [OF Inr]
      by (simp add: addEmoToBoard_board)
  qed (simp add: b addEmoToBoard_board)
qed

interpretation display: board_display shows_board
  "\<lambda>i e. addEmoToBoard json emoNames e i bases" removeEmoFromBoard updateStats
  "\<lambda>e. mapR view (new_emo json emoNames bases e)"
  for json emoNames bases
  by unfold_locales (rule enter_same leave_same updateStats_same, assumption)+

end
