(* ===== verification/ShopAnimation.thy ===== *)
theory ShopAnimation
  imports EmoView
begin

text \<open>
  \<open>front/src/components/common/MtcShopBoard/tasks.ts\<close>: an operation of the player on the board
  of the shop is run by the WebAssembly module, and its logs are animated on the board's element.
  The module's functions are parameters (\<open>shop_wasm\<close>); a trap of the module is an error. The
  particles of a triple are not waited for: \<open>particles_done\<close> is what they do when they end.
\<close>

section \<open>Operations\<close>

datatype Operation =
  Operation_pre_shop
| Operation_move nat bool
| Operation_sell nat
| Operation_set nat mtc_Emo
| Operation_none

text \<open>The new board, the coins gotten and the logs, as \<open>decodeForShop\<close> returns them.\<close>

type_synonym shop_result = "mtc_Board \<times> nat \<times> mtc_shop_BoardLogs"

record shop_wasm =
  w_startShop :: "mtc_Board \<Rightarrow> string \<Rightarrow> EmoBases \<Rightarrow> shop_result js"
  w_addEmo :: "mtc_Board \<Rightarrow> u16 list \<Rightarrow> u16 \<Rightarrow> bool \<Rightarrow> nat \<Rightarrow> EmoBases \<Rightarrow> shop_result js"
  w_sellEmo :: "mtc_Board \<Rightarrow> nat \<Rightarrow> EmoBases \<Rightarrow> shop_result js"
  w_moveEmo :: "mtc_Board \<Rightarrow> nat \<Rightarrow> bool \<Rightarrow> shop_result js"

section \<open>Animation of the logs\<close>

definition shop_add ::
  "to_json \<Rightarrow> names \<Rightarrow> EmoBases \<Rightarrow> mtc_shop_BoardLog_Add \<Rightarrow> node \<Rightarrow> node js" where
  "shop_add json emoNames emoBases params element =
     (case params of mtc_shop_BoardLog_Add index board_emo \<Rightarrow>
        let isTriple = at_is_triple (be_attributes board_emo) in
        mapR (\<lambda>element'.
            if isTriple
            then update_at [min (toNumber index) (length (children element))]
                   (set_style ''zIndex'' ''2'') element'
            else element')
          (addEmoToBoard json emoNames board_emo (toNumber index) emoBases element))"

definition particles_done :: "nat \<Rightarrow> node \<Rightarrow> node js" where
  "particles_done index =
     change_child (\<lambda>emoElement.
       Inr (if jsmap_get (n_style emoElement) ''zIndex'' = Some ''2''
            then set_style ''zIndex'' ''auto'' emoElement else emoElement)) index"

definition shop_remove :: "mtc_shop_BoardLog_Remove \<Rightarrow> node \<Rightarrow> node js" where
  "shop_remove params =
     (case params of mtc_shop_BoardLog_Remove index \<Rightarrow> removeEmoFromBoard (toNumber index))"

text \<open>\<open>parent.insertBefore(child i, child j)\<close> of two children already there.\<close>

definition insertBefore_child :: "nat \<Rightarrow> nat \<Rightarrow> node list \<Rightarrow> node list" where
  "insertBefore_child i j ch =
     (let rest = take i ch @ drop (Suc i) ch in
      insert_before (if i < j then j - 1 else j) (ch ! i) rest)"

definition shop_move :: "mtc_shop_BoardLog_Move \<Rightarrow> node \<Rightarrow> node js" where
  "shop_move params element =
     (case params of mtc_shop_BoardLog_Move from_index to_index \<Rightarrow>
        let fromIndex = toNumber from_index; toIndex = toNumber to_index in
        if int fromIndex - int toIndex \<noteq> 1 \<and> int toIndex - int fromIndex \<noteq> 1
        then throwError ''move: unimplemented for non adjacent''
        else
          bindE (getChildDivByIndex element fromIndex) (\<lambda>_.
          bindE (getChildDivByIndex element toIndex) (\<lambda>_.
            let element = update_at [fromIndex] (set_style ''zIndex'' ''2'') element;
                element = update_at [toIndex] (set_style ''zIndex'' ''1'') element;
                element =
                  (if fromIndex > toIndex
                   then with_children (insertBefore_child fromIndex toIndex) element
                   else with_children (insertBefore_child toIndex fromIndex) element);
                element = update_at [toIndex] (set_style ''zIndex'' ''auto'') element
            in Inr (update_at [fromIndex] (set_style ''zIndex'' ''auto'') element))))"

definition shop_stats_change :: "mtc_shop_BoardLog_IncreaseStats \<Rightarrow> stats_change" where
  "shop_stats_change params =
     (case params of
        mtc_shop_BoardLog_IncreaseStats index attack health calculated_attack calculated_health \<Rightarrow>
        \<lparr>sc_index = toNumber index, sc_attack = toNumber attack, sc_health = toNumber health,
         sc_calculated_attack = toStringU calculated_attack,
         sc_calculated_health = toStringU calculated_health\<rparr>)"

definition shop_increaseStats :: "mtc_shop_BoardLog_IncreaseStats \<Rightarrow> node \<Rightarrow> node js" where
  "shop_increaseStats params = updateStats Positive (shop_stats_change params)"

text \<open>\<open>fontSize\<close> is the computed size the special had.\<close>

definition shop_addAbility ::
  "to_json \<Rightarrow> names \<Rightarrow> EmoBases \<Rightarrow> string \<Rightarrow> mtc_shop_BoardLog_AddAbility \<Rightarrow> node \<Rightarrow> node js" where
  "shop_addAbility json emoNames emoBases fontSize params =
     (case params of mtc_shop_BoardLog_AddAbility index ability is_target_triple \<Rightarrow>
        change_child (\<lambda>emoElement.
          bindE (addInfoAbility json emoNames ability is_target_triple emoBases emoElement)
            (\<lambda>emoElement.
               case ability of
                 Ability_Battle (Battle_Special s) \<Rightarrow>
                   if s \<noteq> Special_Shield \<and> s \<noteq> Special_Attractive then Inr emoElement
                   else
                     bindE (getSpecial emoElement (special_type s)) (\<lambda>special.
                       let emoElement = update_at special (set_style ''fontSize'' ''0px'') emoElement;
                           emoElement = update_at special (set_style ''display'' ''inline'') emoElement
                       in Inr (update_at special (animateIndefinitely [(''fontSize'', [fontSize])]) emoElement))
               | _ \<Rightarrow> Inr emoElement)) (toNumber index))"

text \<open>
  Every element is looked up before the first wait, so the indexes are those before any removal;
  an element listed twice is removed once.
\<close>

definition shop_triple :: "mtc_shop_BoardLog_Triple \<Rightarrow> node \<Rightarrow> node js" where
  "shop_triple params element =
     (case params of mtc_shop_BoardLog_Triple removed_indexes \<Rightarrow>
        let indexes = map toNumber removed_indexes in
        bindE (mapE (\<lambda>index.
                 bindE (getChildDivByIndex element index) (\<lambda>emoElement.
                 mapR (\<lambda>body. index # body) (getEmoBodyOuterFromEmo emoElement))) indexes) (\<lambda>bodies.
          let element =
                foldl (\<lambda>el body.
                    update_at body (animateIndefinitely
                      [(''opacity'', [''0'']), (''filter'', [''saturate(3)''])]) el) element bodies
          in Inr (with_children (\<lambda>ch. nths ch (- set indexes)) element)))"

definition shop_animate_log ::
  "to_json \<Rightarrow> names \<Rightarrow> EmoBases \<Rightarrow> string \<Rightarrow> node \<Rightarrow> mtc_shop_BoardLog \<Rightarrow> node js" where
  "shop_animate_log json emoNames emoBases fontSize element l =
     (case l of
        BoardLog_Add p \<Rightarrow> shop_add json emoNames emoBases p element
      | BoardLog_Remove p \<Rightarrow> shop_remove p element
      | BoardLog_Move p \<Rightarrow> shop_move p element
      | BoardLog_IncreaseStats p \<Rightarrow> shop_increaseStats p element
      | BoardLog_AddAbility p \<Rightarrow> shop_addAbility json emoNames emoBases fontSize p element
      | BoardLog_Triple p \<Rightarrow> shop_triple p element)"

definition shop_animate ::
  "to_json \<Rightarrow> names \<Rightarrow> EmoBases \<Rightarrow> string \<Rightarrow> node \<Rightarrow> mtc_shop_BoardLogs \<Rightarrow> node js" where
  "shop_animate json emoNames emoBases fontSize =
     foldE (shop_animate_log json emoNames emoBases fontSize)"

definition setupEmoLineEmosElement ::
  "to_json \<Rightarrow> names \<Rightarrow> EmoBases \<Rightarrow> node \<Rightarrow> mtc_Board \<Rightarrow> node js" where
  "setupEmoLineEmosElement json emoNames emoBases element board =
     foldE (\<lambda>el boardEmo.
        mapR (\<lambda>e. appendChild e el) (createEmoWithBoardEmo json emoNames boardEmo emoBases))
       element board"

section \<open>operate\<close>

record operate_result =
  or_newBoardEmos :: mtc_Board
  or_coinDiff :: int
  or_operation :: Operation

definition operate ::
  "to_json \<Rightarrow> names \<Rightarrow> EmoBases \<Rightarrow> string \<Rightarrow> shop_wasm \<Rightarrow> node \<Rightarrow> mtc_Board \<Rightarrow> Operation \<Rightarrow> string \<Rightarrow>
   (operate_result \<times> node) js" where
  "operate json emoNames emoBases fontSize wasm emoLineEmosElement board operation preShopSeed =
     (let finish = (\<lambda>element newBoardEmos coinDiff logs.
            mapR (\<lambda>element.
                (\<lparr>or_newBoardEmos = newBoardEmos, or_coinDiff = coinDiff, or_operation = operation\<rparr>,
                 element))
              (shop_animate json emoNames emoBases fontSize element logs))
      in
      case operation of
        Operation_pre_shop \<Rightarrow>
          bindE (setupEmoLineEmosElement json emoNames emoBases emoLineEmosElement board) (\<lambda>element.
          bindE (w_startShop wasm board preShopSeed emoBases) (\<lambda>(newBoard, gottenCoin, logs).
            finish element newBoard (0 + int gottenCoin) logs))
      | Operation_set index mtcEmo \<Rightarrow>
          bindE (w_addEmo wasm board [me_id mtcEmo] (me_base_id mtcEmo) False index emoBases)
            (\<lambda>(newBoard, gottenCoin, logs).
              finish emoLineEmosElement newBoard (0 - int emoBuyCoin + int gottenCoin) logs)
      | Operation_sell index \<Rightarrow>
          bindE (w_sellEmo wasm board index emoBases) (\<lambda>(newBoard, gottenCoin, logs).
            finish emoLineEmosElement newBoard (0 + int gottenCoin) logs)
      | Operation_move index isRight \<Rightarrow>
          bindE (w_moveEmo wasm board index isRight) (\<lambda>(newBoard, gottenCoin, logs).
            finish emoLineEmosElement newBoard (0 + int gottenCoin) logs)
      | Operation_none \<Rightarrow> throwError ''unimplemented kind: none'')"

end
