(* ===== verification/ShopView.thy ===== *)
theory ShopView
  imports ShopAnimation
begin

text \<open>
  What the logs of the shop do to the view of a board, the proof that their animation ends showing
  it, and the proof that the view so reached is that of the new board drawn from scratch, when the
  logs say of the board data what \<open>board_log\<close> says.
\<close>

section \<open>What a log does to the view\<close>

definition view_move :: "nat \<Rightarrow> nat \<Rightarrow> 'v list \<Rightarrow> 'v list js" where
  "view_move i j vs =
     (if i \<noteq> Suc j \<and> j \<noteq> Suc i then throwError ''move: unimplemented for non adjacent''
      else if length vs \<le> i then throwError (''not found div: '' @ show_nat i)
      else if length vs \<le> j then throwError (''not found div: '' @ show_nat j)
      else Inr (swap_at i j vs))"

definition view_triple :: "nat list \<Rightarrow> 'v list \<Rightarrow> 'v list js" where
  "view_triple indexes vs =
     (case find (\<lambda>i. length vs \<le> i) indexes of
        Some i \<Rightarrow> throwError (''not found div: '' @ show_nat i)
      | None \<Rightarrow> Inr (nths vs (- set indexes)))"

definition special_on :: "emo_ability_Ability \<Rightarrow> emo_view \<Rightarrow> emo_view" where
  "special_on ability v =
     (if ability = Ability_Battle (Battle_Special Special_Shield) then v\<lparr>ev_shield := True\<rparr>
      else if ability = Ability_Battle (Battle_Special Special_Attractive) then v\<lparr>ev_attractive := True\<rparr>
      else v)"

fun show_board_log ::
  "to_json \<Rightarrow> names \<Rightarrow> EmoBases \<Rightarrow> emo_view list \<Rightarrow> mtc_shop_BoardLog \<Rightarrow> emo_view list js" where
  "show_board_log json emoNames bases vs (BoardLog_Add (mtc_shop_BoardLog_Add i e)) =
     mapR (\<lambda>v. insert_before (toNumber i) v vs) (mapR view (new_emo json emoNames bases e))"
| "show_board_log json emoNames bases vs (BoardLog_Remove (mtc_shop_BoardLog_Remove i)) =
     view_remove (toNumber i) vs"
| "show_board_log json emoNames bases vs (BoardLog_Move (mtc_shop_BoardLog_Move i j)) =
     view_move (toNumber i) (toNumber j) vs"
| "show_board_log json emoNames bases vs (BoardLog_IncreaseStats p) =
     view_at (\<lambda>v. Inr (change_view (shop_stats_change p) v)) (sc_index (shop_stats_change p)) vs"
| "show_board_log json emoNames bases vs (BoardLog_AddAbility (mtc_shop_BoardLog_AddAbility i ability t)) =
     view_at (\<lambda>v. mapR (\<lambda>x. special_on ability (v\<lparr>ev_rows := ev_rows v @ [text_row x]\<rparr>))
                      (buildEmoAbilityText json emoNames ability t bases)) (toNumber i) vs"
| "show_board_log json emoNames bases vs (BoardLog_Triple (mtc_shop_BoardLog_Triple indexes)) =
     view_triple (map toNumber indexes) vs"

section \<open>The animation shows it\<close>

lemma shows_style:
  assumes "shows_board b vs" "i < length vs"
  shows "shows_board (update_at [i] (set_style k v) b) vs"
proof -
  obtain cls st ds where b: "b = board_dom cls st ds" "\<forall>p\<in>set ds. calm p" "map view ds = vs"
    using assms(1) by (rule shows_boardE)
  with assms(2) have i: "i < length ds" by auto
  then have "update_at [i] (set_style k v) b = board_dom cls st (ds[i := set_emo_style k v (ds ! i)])"
    unfolding b(1) by (intro update_at_board) simp_all
  moreover have "shows_board (board_dom cls st (ds[i := set_emo_style k v (ds ! i)]))
      (vs[i := view (set_emo_style k v (ds ! i))])"
    using assms(1) b i by (intro shows_board_update) auto
  moreover have "vs[i := view (set_emo_style k v (ds ! i))] = vs"
    using b(3) i by (metis list_update_id nth_map view_simps(2))
  ultimately show ?thesis by simp
qed

lemma length_children_shown: "shows_board b vs \<Longrightarrow> length (children b) = length vs"
  by (auto elim!: shows_boardE)

lemma shop_add_same:
  assumes "shows_board b vs"
  shows "same shows_board (shop_add json emoNames bases (mtc_shop_BoardLog_Add i e) b)
    (show_board_log json emoNames bases vs (BoardLog_Add (mtc_shop_BoardLog_Add i e)))"
proof -
  have "same shows_board (addEmoToBoard json emoNames e (toNumber i) bases b)
      (mapR (\<lambda>v. insert_before (toNumber i) v vs) (mapR view (new_emo json emoNames bases e)))"
    by (rule display.enter_law [OF assms])
  then show ?thesis
    using length_children_shown [OF assms]
    by (cases "addEmoToBoard json emoNames e (toNumber i) bases b"; cases "new_emo json emoNames bases e")
      (auto simp: shop_add_def shows_style min_def simp del: update_at.simps)
qed

lemma insertBefore_child_swap:
  assumes "Suc i < length xs"
  shows "insertBefore_child (Suc i) i xs = swap_at (Suc i) i xs"
proof -
  from assms obtain us x y ws where "xs = us @ x # y # ws" "length us = i"
    by (rule split_pair_at)
  then show ?thesis
    by (auto simp: insertBefore_child_def insert_before_def swap_at_def nth_append list_update_append)
qed

lemma shows_swap:
  assumes "shows_board b vs" "i < length vs" "j < length vs"
  shows "shows_board (with_children (swap_at i j) b) (swap_at i j vs)"
proof -
  obtain cls st ds where b: "b = board_dom cls st ds" "\<forall>p\<in>set ds. calm p" "map view ds = vs"
    using assms(1) by (rule shows_boardE)
  then show ?thesis
    unfolding shows_board_def using assms(2,3)
    by (intro exI [of _ cls] exI [of _ st] exI [of _ "swap_at i j ds"])
      (auto simp: board_dom_def map_swap_at)
qed

lemma shop_move_same:
  assumes s: "shows_board b vs"
  shows "same shows_board (shop_move (mtc_shop_BoardLog_Move f t) b) (view_move (toNumber f) (toNumber t) vs)"
proof -
  let ?i = "toNumber f" and ?j = "toNumber t"
  obtain cls st ds where b: "b = board_dom cls st ds" "map view ds = vs"
    using s by (rule shows_boardE)
  then have len: "length ds = length vs" by auto
  have adj: "int ?i - int ?j \<noteq> 1 \<and> int ?j - int ?i \<noteq> 1 \<longleftrightarrow> ?i \<noteq> Suc ?j \<and> ?j \<noteq> Suc ?i"
    by linarith
  note move = shop_move_def mtc_shop_BoardLog_Move.case Let_def adj view_move_def
  show ?thesis
  proof (cases "(?i = Suc ?j \<or> ?j = Suc ?i) \<and> ?i < length vs \<and> ?j < length vs")
    case False
    then show ?thesis
      using len unfolding move by (auto simp: b(1) simp del: update_at.simps)
  next
    case True
    let ?b = "update_at [?j] (set_style ''zIndex'' ''1'') (update_at [?i] (set_style ''zIndex'' ''2'') b)"
    have s': "shows_board ?b vs"
      using True by (intro shows_style s) auto
    then have n: "length (children ?b) = length vs" by (rule length_children_shown)
    have "with_children (if ?i > ?j then insertBefore_child ?i ?j else insertBefore_child ?j ?i) ?b =
        with_children (swap_at ?i ?j) ?b"
      using True n insertBefore_child_swap [of "min ?i ?j" "children ?b"]
      by (cases ?b) (auto simp: swap_at_commute [of "Suc ?i" ?i] simp del: update_at.simps)
    moreover have "shows_board (update_at [?i] (set_style ''zIndex'' ''auto'')
        (update_at [?j] (set_style ''zIndex'' ''auto'') (with_children (swap_at ?i ?j) ?b))) (swap_at ?i ?j vs)"
      using True by (intro shows_style shows_swap s') auto
    ultimately show ?thesis
      using True len unfolding move by (auto simp: b(1) simp del: update_at.simps)
  qed
qed

lemma shows_body:
  assumes "shows_board b vs" "i < length vs"
  shows "shows_board (update_at [i, 0] (animateIndefinitely kf) b) vs"
proof -
  obtain cls st ds where b: "b = board_dom cls st ds" "\<forall>p\<in>set ds. calm p" "map view ds = vs"
    using assms(1) by (rule shows_boardE)
  with assms(2) have i: "i < length ds" by auto
  then have "update_at (i # [0]) (animateIndefinitely kf) b =
      board_dom cls st (ds[i := animate_body kf (ds ! i)])"
    unfolding b(1) by (intro update_at_board) (simp_all del: update_at.simps)
  moreover have "shows_board (board_dom cls st (ds[i := animate_body kf (ds ! i)]))
      (vs[i := view (animate_body kf (ds ! i))])"
    using assms(1) b i by (intro shows_board_update) auto
  moreover have "vs[i := view (animate_body kf (ds ! i))] = vs"
    using b(3) i by (metis list_update_id nth_map view_animate_body(1))
  ultimately show ?thesis by simp
qed

lemma shows_bodies:
  "shows_board b vs \<Longrightarrow> \<forall>i\<in>set is. i < length vs \<Longrightarrow>
   shows_board (foldl (\<lambda>el p. update_at p (animateIndefinitely kf) el) b (map (\<lambda>i. [i, 0]) is)) vs"
  by (induction "is" arbitrary: b) (auto intro: shows_body simp del: update_at.simps)

lemma mapE_bound:
  "mapE (\<lambda>i. if i < (n::nat) then Inr (g i) else Inl (e i)) is =
   (case find (\<lambda>i. n \<le> i) is of Some i \<Rightarrow> Inl (e i) | None \<Rightarrow> Inr (map g is))"
  by (induction "is") (auto split: option.splits)

lemma shop_triple_same:
  assumes s: "shows_board b vs"
  shows "same shows_board (shop_triple (mtc_shop_BoardLog_Triple rs) b) (view_triple (map toNumber rs) vs)"
proof -
  let ?is = "map toNumber rs" and ?kf = "[(''opacity'', [''0'']), (''filter'', [''saturate(3)''])]"
  obtain cls st ds where b: "b = board_dom cls st ds" "map view ds = vs"
    using s by (rule shows_boardE)
  then have len: "length ds = length vs" by auto
  have look: "mapE (\<lambda>i. bindE (getChildDivByIndex b i) (\<lambda>e. mapR (\<lambda>p. i # p) (getEmoBodyOuterFromEmo e))) ?is =
      (case find (\<lambda>i. length vs \<le> i) ?is of
         Some i \<Rightarrow> throwError (''not found div: '' @ show_nat i) | None \<Rightarrow> Inr (map (\<lambda>i. [i, 0]) ?is))"
    using mapE_bound [of "length vs" "\<lambda>i. [i, 0]" "\<lambda>i. JsError (''not found div: '' @ show_nat i)" ?is]
    by (simp add: b(1) len if_distrib [where f = "\<lambda>x. bindE x f" for f] cong: if_cong)
  show ?thesis
  proof (cases "find (\<lambda>i. length vs \<le> i) ?is")
    case (Some i)
    then show ?thesis by (simp add: shop_triple_def look view_triple_def)
  next
    case None
    then have all: "\<forall>i\<in>set ?is. i < length vs" by (auto simp: find_None_iff)
    then have "shows_board (foldl (\<lambda>el p. update_at p (animateIndefinitely ?kf) el) b (map (\<lambda>i. [i, 0]) ?is)) vs"
      (is "shows_board ?b vs")
      by (rule shows_bodies [OF s])
    then obtain cls' st' ds' where b': "?b = board_dom cls' st' ds'" "\<forall>p\<in>set ds'. calm p" "map view ds' = vs"
      by (rule shows_boardE)
    have "shows_board (with_children (\<lambda>ch. nths ch (- set ?is)) ?b) (nths vs (- set ?is))"
      unfolding shows_board_def
      by (intro exI [of _ cls'] exI [of _ st'] exI [of _ "nths ds' (- set ?is)"])
        (use b' in \<open>auto simp: board_dom_def nths_map dest: notin_set_nthsI in_set_nthsD\<close>)
    then show ?thesis
      by (simp add: shop_triple_def look None view_triple_def Let_def del: update_at.simps)
  qed
qed

lemma special_style_same:
  assumes "calm p" "s = Special_Shield \<or> s = Special_Attractive"
  shows "same shows_emo
    (bindE (getSpecial (emo_dom p) (special_type s)) (\<lambda>special.
       let e = update_at special (set_style ''fontSize'' ''0px'') (emo_dom p);
           e = update_at special (set_style ''display'' ''inline'') e
       in Inr (update_at special (animateIndefinitely [(''fontSize'', [fs])]) e)))
    (Inr (special_on (Ability_Battle (Battle_Special s)) (view p)))"
proof -
  let ?st = "\<lambda>m. jsmap_set (jsmap_set (jsmap_set m ''fontSize'' ''0px'') ''display'' ''inline'') ''fontSize'' fs"
  have d: "jsmap_get (?st m) ''display'' = Some ''inline''" for m
    by (simp add: update_conv')
  from assms(2) show ?thesis
  proof
    assume s: "s = Special_Shield"
    have "shows_emo (emo_dom (p\<lparr>ep_shield := ?st (ep_shield p)\<rparr>)) ((view p)\<lparr>ev_shield := True\<rparr>)"
      using assms(1) d by (intro shows_emoI) (simp_all add: calm_def view_def shown_def)
    then show ?thesis
      by (simp add: s find_special special_type_def special_on_def)
        (simp add: emo_dom_def body_dom_def info_dom_def specials_dom_def animateIndefinitely_def)
  next
    assume s: "s = Special_Attractive"
    have "shows_emo (emo_dom (p\<lparr>ep_attractive := ?st (ep_attractive p)\<rparr>)) ((view p)\<lparr>ev_attractive := True\<rparr>)"
      using assms(1) d by (intro shows_emoI) (simp_all add: calm_def view_def shown_def)
    then show ?thesis
      by (simp add: s find_special special_type_def special_on_def)
        (simp add: emo_dom_def body_dom_def info_dom_def specials_dom_def animateIndefinitely_def)
  qed
qed

lemma shop_addAbility_same:
  assumes "shows_board b vs"
  shows "same shows_board
    (shop_addAbility json emoNames bases fs (mtc_shop_BoardLog_AddAbility i ability t) b)
    (show_board_log json emoNames bases vs (BoardLog_AddAbility (mtc_shop_BoardLog_AddAbility i ability t)))"
  unfolding shop_addAbility_def mtc_shop_BoardLog_AddAbility.case show_board_log.simps
proof (rule change_child_same [OF _ assms])
  fix q assume q: "calm q"
  then have no: "ep_damages q = []" by (simp add: calm_def)
  show "same shows_emo
      (bindE (addInfoAbility json emoNames ability t bases (emo_dom q)) (\<lambda>e.
         case ability of
           Ability_Battle (Battle_Special s) \<Rightarrow>
             if s \<noteq> Special_Shield \<and> s \<noteq> Special_Attractive then Inr e
             else bindE (getSpecial e (special_type s)) (\<lambda>special.
               let e = update_at special (set_style ''fontSize'' ''0px'') e;
                   e = update_at special (set_style ''display'' ''inline'') e
               in Inr (update_at special (animateIndefinitely [(''fontSize'', [fs])]) e))
         | _ \<Rightarrow> Inr e))
      (mapR (\<lambda>x. special_on ability ((view q)\<lparr>ev_rows := ev_rows (view q) @ [text_row x]\<rparr>))
        (buildEmoAbilityText json emoNames ability t bases))"
  proof (cases "buildEmoAbilityText json emoNames ability t bases")
    case (Inr x)
    let ?q = "q\<lparr>ep_rows := ep_rows q @ [text_row x]\<rparr>"
    have rows: "ev_rows (view q) = ep_rows q" by (simp add: view_def)
    have calm: "calm ?q" using q by (simp add: calm_rows)
    show ?thesis
    proof (cases "\<exists>s. ability = Ability_Battle (Battle_Special s) \<and> (s = Special_Shield \<or> s = Special_Attractive)")
      case True
      then obtain s where s: "ability = Ability_Battle (Battle_Special s)"
        "s = Special_Shield \<or> s = Special_Attractive" by blast
      from special_style_same [OF calm s(2), of fs] Inr s show ?thesis
        by (auto simp: no rows calm_rows simp del: update_at.simps)
    next
      case False
      then show ?thesis
        using calm Inr by (auto simp: no rows special_on_def calm_rows intro!: shows_emoI
            split: emo_ability_Ability.split emo_ability_battle_Battle.split)
    qed
  qed (simp add: no)
qed

text \<open>The animation of the logs of an operation ends showing what the logs say.\<close>

lemma shop_animate_same:
  assumes "shows_board b vs"
  shows "same shows_board (shop_animate json emoNames bases fs b logs)
    (foldE (show_board_log json emoNames bases) vs logs)"
  unfolding shop_animate_def
proof (rule foldE_same)
  show "shows_board b vs" by (rule assms)
next
  fix b vs l assume s: "shows_board b vs"
  show "same shows_board (shop_animate_log json emoNames bases fs b l) (show_board_log json emoNames bases vs l)"
  proof (cases l)
    case (BoardLog_Add p)
    then show ?thesis by (cases p) (simp add: shop_animate_log_def shop_add_same [OF s] del: show_board_log.simps)
  next
    case (BoardLog_Remove p)
    then show ?thesis
      by (cases p) (simp add: shop_animate_log_def shop_remove_def display.leave_law [OF s])
  next
    case (BoardLog_Move p)
    then show ?thesis by (cases p) (simp add: shop_animate_log_def shop_move_same [OF s])
  next
    case (BoardLog_IncreaseStats p)
    then show ?thesis
      by (simp add: shop_animate_log_def shop_increaseStats_def display.stats_law [OF s])
  next
    case (BoardLog_AddAbility p)
    then show ?thesis
      by (cases p) (simp add: shop_animate_log_def shop_addAbility_same [OF s] del: show_board_log.simps)
  next
    case (BoardLog_Triple p)
    then show ?thesis by (cases p) (simp add: shop_animate_log_def shop_triple_same [OF s])
  qed
qed

section \<open>The view reached is that of the new board\<close>

text \<open>What a log says of the data of the board, and the logs that can be said of a board.\<close>

fun board_log :: "mtc_Board \<Rightarrow> mtc_shop_BoardLog \<Rightarrow> mtc_Board" where
  "board_log b (BoardLog_Add (mtc_shop_BoardLog_Add i e)) = insert_before (toNumber i) e b"
| "board_log b (BoardLog_Remove (mtc_shop_BoardLog_Remove i)) =
     take (toNumber i) b @ drop (Suc (toNumber i)) b"
| "board_log b (BoardLog_Move (mtc_shop_BoardLog_Move i j)) = swap_at (toNumber i) (toNumber j) b"
| "board_log b (BoardLog_IncreaseStats (mtc_shop_BoardLog_IncreaseStats i atk hp cat chp)) =
     (let e = b ! toNumber i; a = be_attributes e;
          a = (if atk \<noteq> 0 then a\<lparr>at_attack := cat\<rparr> else a);
          a = (if hp \<noteq> 0 then a\<lparr>at_health := chp\<rparr> else a)
      in b[toNumber i := e\<lparr>be_attributes := a\<rparr>])"
| "board_log b (BoardLog_AddAbility (mtc_shop_BoardLog_AddAbility i ability t)) =
     (let e = b ! toNumber i; a = be_attributes e in
      b[toNumber i := e\<lparr>be_attributes := a\<lparr>at_abilities := at_abilities a @ [ability]\<rparr>\<rparr>])"
| "board_log b (BoardLog_Triple (mtc_shop_BoardLog_Triple rs)) = nths b (- set (map toNumber rs))"

fun valid_log :: "mtc_Board \<Rightarrow> mtc_shop_BoardLog \<Rightarrow> bool" where
  "valid_log b (BoardLog_AddAbility (mtc_shop_BoardLog_AddAbility i ability t)) \<longleftrightarrow>
     toNumber i < length b \<and> at_is_triple (be_attributes (b ! toNumber i)) = t"
| "valid_log b l \<longleftrightarrow> True"

fun valid_logs :: "mtc_Board \<Rightarrow> mtc_shop_BoardLogs \<Rightarrow> bool" where
  "valid_logs b [] = True"
| "valid_logs b (l # ls) \<longleftrightarrow> valid_log b l \<and> valid_logs (board_log b l) ls"

definition new_view :: "to_json \<Rightarrow> names \<Rightarrow> EmoBases \<Rightarrow> mtc_BoardEmo \<Rightarrow> emo_view js" where
  "new_view json emoNames bases e = mapR view (new_emo json emoNames bases e)"

lemma new_views_iff:
  "new_views json emoNames bases b = Inr vs \<longleftrightarrow>
   list_all2 (\<lambda>e v. new_view json emoNames bases e = Inr v) b vs"
  by (simp add: new_views_def new_view_def mapE_eq_Inr_iff)

lemma new_view_attributes:
  assumes "new_view json emoNames bases e = Inr v"
    and "at_abilities a = at_abilities (be_attributes e)" "at_is_triple a = at_is_triple (be_attributes e)"
  shows "new_view json emoNames bases (e\<lparr>be_attributes := a\<rparr>) =
    Inr (v\<lparr>ev_attack := toStringU (at_attack a), ev_health := toStringU (at_health a)\<rparr>)"
  using assms
  by (auto simp: new_view_def new_emo_def bindE_eq_Inr_iff mapR_eq_Inr_iff new_parts_def view_def)

lemma new_view_stats:
  "new_view json emoNames bases e = Inr v \<Longrightarrow>
   ev_attack v = toStringU (at_attack (be_attributes e)) \<and>
   ev_health v = toStringU (at_health (be_attributes e))"
  by (auto simp: new_view_def new_emo_def bindE_eq_Inr_iff mapR_eq_Inr_iff new_parts_def view_def)

lemma mapE_append: "mapE f (xs @ ys) = bindE (mapE f xs) (\<lambda>us. mapR (\<lambda>vs. us @ vs) (mapE f ys))"
  by (induction xs) (auto simp: mapR_def)

lemma new_view_ability:
  assumes "new_view json emoNames bases e = Inr v"
    and "buildEmoAbilityText json emoNames ability (at_is_triple (be_attributes e)) bases = Inr x"
  shows "new_view json emoNames bases
      (e\<lparr>be_attributes := (be_attributes e)\<lparr>at_abilities := at_abilities (be_attributes e) @ [ability]\<rparr>\<rparr>) =
    Inr (special_on ability (v\<lparr>ev_rows := ev_rows v @ [text_row x]\<rparr>))"
  using assms
  by (auto simp: new_view_def new_emo_def bindE_eq_Inr_iff mapR_eq_Inr_iff new_parts_def view_def
      buildEmoAbilitiesText_def mapE_append special_on_def shown_def display_def has_special_def)

lemma list_all2_nths: "list_all2 P xs ys \<Longrightarrow> list_all2 P (nths xs A) (nths ys A)"
  by (induction xs ys arbitrary: A rule: list_all2_induct) (auto simp: nths_Cons)

lemma list_all2_swap_at:
  "list_all2 P xs ys \<Longrightarrow> i < length xs \<Longrightarrow> j < length xs \<Longrightarrow> list_all2 P (swap_at i j xs) (swap_at i j ys)"
  unfolding swap_at_def by (intro list_all2_update_cong) (auto simp: list_all2_conv_all_nth)

lemma list_all2_insert:
  "list_all2 P xs ys \<Longrightarrow> P x y \<Longrightarrow> list_all2 P (insert_before i x xs) (insert_before i y ys)"
  by (simp add: insert_before_def list_all2_appendI list_all2_takeI list_all2_dropI)

lemma log_renders:
  assumes b: "new_views json emoNames bases b = Inr vs" and valid: "valid_log b l"
    and l: "show_board_log json emoNames bases vs l = Inr vs'"
  shows "new_views json emoNames bases (board_log b l) = Inr vs'"
proof -
  let ?nv = "new_view json emoNames bases"
  have b: "list_all2 (\<lambda>e v. ?nv e = Inr v) b vs"
    using b by (simp add: new_views_iff)
  then have len: "length vs = length b" by (simp add: list_all2_lengthD)
  have nth: "?nv (b ! i) = Inr (vs ! i)" if "i < length b" for i
    using b that by (simp add: list_all2_conv_all_nth)
  have upd: "list_all2 (\<lambda>e v. ?nv e = Inr v) (b[i := e]) (vs[i := v])" if "?nv e = Inr v" for i e v
    using b that by (intro list_all2_update_cong) auto
  show ?thesis
    unfolding new_views_iff
  proof (cases l)
    case (BoardLog_Add p)
    then show "list_all2 (\<lambda>e v. ?nv e = Inr v) (board_log b l) vs'"
      using l b by (cases p) (auto simp: mapR_eq_Inr_iff new_view_def intro!: list_all2_insert)
  next
    case (BoardLog_Remove p)
    then show "list_all2 (\<lambda>e v. ?nv e = Inr v) (board_log b l) vs'"
      using l b by (cases p) (auto simp: view_remove_def split: if_splits
          intro!: list_all2_appendI list_all2_takeI list_all2_dropI)
  next
    case (BoardLog_Move p)
    then show "list_all2 (\<lambda>e v. ?nv e = Inr v) (board_log b l) vs'"
      using l b len by (cases p) (auto simp: view_move_def split: if_splits intro!: list_all2_swap_at)
  next
    case (BoardLog_IncreaseStats p)
    obtain i atk hp cat chp where p: "p = mtc_shop_BoardLog_IncreaseStats i atk hp cat chp" by (cases p)
    let ?e = "b ! toNumber i"
    let ?a = "be_attributes ?e"
    let ?a1 = "if atk \<noteq> 0 then ?a\<lparr>at_attack := cat\<rparr> else ?a"
    let ?a2 = "if hp \<noteq> 0 then ?a1\<lparr>at_health := chp\<rparr> else ?a1"
    have i: "toNumber i < length b" and vs': "vs' = vs[toNumber i :=
        change_view (shop_stats_change p) (vs ! toNumber i)]"
      using l len by (auto simp: BoardLog_IncreaseStats p view_at_def shop_stats_change_def split: if_splits)
    have "?nv (?e\<lparr>be_attributes := ?a2\<rparr>) = Inr ((vs ! toNumber i)\<lparr>ev_attack := toStringU (at_attack ?a2),
        ev_health := toStringU (at_health ?a2)\<rparr>)"
      by (rule new_view_attributes [OF nth [OF i]]) simp_all
    also have "(vs ! toNumber i)\<lparr>ev_attack := toStringU (at_attack ?a2), ev_health := toStringU (at_health ?a2)\<rparr> =
        change_view (shop_stats_change p) (vs ! toNumber i)"
      using new_view_stats [OF nth [OF i]]
      by (cases "vs ! toNumber i") (auto simp: p change_view_def shop_stats_change_def unat_eq_0)
    finally show "list_all2 (\<lambda>e v. ?nv e = Inr v) (board_log b l) vs'"
      using upd by (simp add: BoardLog_IncreaseStats p vs' Let_def)
  next
    case (BoardLog_AddAbility p)
    obtain i ability t where p: "p = mtc_shop_BoardLog_AddAbility i ability t" by (cases p)
    have i: "toNumber i < length b" and t: "at_is_triple (be_attributes (b ! toNumber i)) = t"
      using valid by (simp_all add: BoardLog_AddAbility p)
    obtain x where x: "buildEmoAbilityText json emoNames ability t bases = Inr x"
      and vs': "vs' = vs[toNumber i := special_on ability
        ((vs ! toNumber i)\<lparr>ev_rows := ev_rows (vs ! toNumber i) @ [text_row x]\<rparr>)]"
      using l len i by (auto simp: BoardLog_AddAbility p view_at_def mapR_eq_Inr_iff)
    show "list_all2 (\<lambda>e v. ?nv e = Inr v) (board_log b l) vs'"
      using upd [OF new_view_ability [OF nth [OF i] x [folded t]], of "toNumber i"]
      by (simp add: BoardLog_AddAbility p vs' Let_def)
  next
    case (BoardLog_Triple p)
    then show "list_all2 (\<lambda>e v. ?nv e = Inr v) (board_log b l) vs'"
      using l b by (cases p) (auto simp: view_triple_def split: option.splits intro!: list_all2_nths)
  qed
qed

lemma logs_render:
  "new_views json emoNames bases b = Inr vs \<Longrightarrow> valid_logs b logs \<Longrightarrow>
   foldE (show_board_log json emoNames bases) vs logs = Inr vs' \<Longrightarrow>
   new_views json emoNames bases (foldl board_log b logs) = Inr vs'"
proof (induction logs arbitrary: b vs)
  case (Cons l logs)
  then obtain v where v: "show_board_log json emoNames bases vs l = Inr v"
    "foldE (show_board_log json emoNames bases) v logs = Inr vs'"
    by (auto simp: bindE_eq_Inr_iff)
  have "new_views json emoNames bases (board_log b l) = Inr v"
    using Cons.prems v(1) by (intro log_renders) auto
  with Cons.IH [OF this _ v(2)] Cons.prems(2) show ?case by simp
qed simp

section \<open>Operations\<close>

text \<open>An element shows a board when it shows what drawing the board from scratch would.\<close>

definition draws :: "to_json \<Rightarrow> names \<Rightarrow> EmoBases \<Rightarrow> node \<Rightarrow> mtc_Board \<Rightarrow> bool" where
  "draws json emoNames bases element board \<longleftrightarrow>
     (\<exists>vs. shows_board element vs \<and> new_views json emoNames bases board = Inr vs)"

text \<open>What a result of the module tells: how it got from one board to the other, which fits.\<close>

definition tells :: "mtc_Board \<Rightarrow> shop_result js \<Rightarrow> bool" where
  "tells board r =
     (case r of
        Inl e \<Rightarrow> True
      | Inr (newBoard, coin, logs) \<Rightarrow>
          valid_logs board logs \<and> foldl board_log board logs = newBoard \<and> length newBoard \<le> boardSize)"

lemma setupEmoLineEmosElement_same:
  "shows_board element vs \<Longrightarrow>
   same shows_board (setupEmoLineEmosElement json emoNames bases element board)
     (mapR (\<lambda>ws. vs @ ws) (new_views json emoNames bases board))"
proof (induction board arbitrary: element vs)
  case Nil
  then show ?case by (simp add: setupEmoLineEmosElement_def new_views_def)
next
  case (Cons e es)
  obtain cls st ds where b: "element = board_dom cls st ds" "\<forall>p\<in>set ds. calm p" "map view ds = vs"
    using Cons.prems by (rule shows_boardE)
  show ?case
  proof (cases "new_emo json emoNames bases e")
    case (Inl err)
    then show ?thesis by (simp add: setupEmoLineEmosElement_def createEmoWithBoardEmo_eq new_views_def)
  next
    case (Inr d)
    have "shows_board (appendChild (emo_dom d) element) (vs @ [view d])"
      unfolding shows_board_def using b new_emo_calm [OF Inr]
      by (intro exI [of _ cls] exI [of _ st] exI [of _ "ds @ [d]"]) (auto simp: appendChild_board)
    from Cons.IH [OF this] show ?thesis
      by (simp add: setupEmoLineEmosElement_def createEmoWithBoardEmo_eq new_views_def Inr mapR_def)
  qed
qed

lemma animate_draws:
  assumes "draws json emoNames bases element board" "tells board (Inr (newBoard, coin, logs))"
    and "shop_animate json emoNames bases fs element logs = Inr element'"
  shows "draws json emoNames bases element' newBoard"
proof -
  obtain vs where vs: "shows_board element vs" "new_views json emoNames bases board = Inr vs"
    using assms(1) by (auto simp: draws_def)
  from shop_animate_same [OF vs(1), of json emoNames bases fs logs] assms(3)
  obtain vs' where "foldE (show_board_log json emoNames bases) vs logs = Inr vs'" "shows_board element' vs'"
    by (cases "foldE (show_board_log json emoNames bases) vs logs") auto
  then show ?thesis
    using logs_render [OF vs(2)] assms(2) by (auto simp: draws_def tells_def)
qed

text \<open>
  What the front relies on: the module's logs tell what it did to a board that fits. After an
  operation the element then shows the new board, as if it had been drawn anew.
\<close>

locale shop_module =
  fixes wasm :: shop_wasm and bases :: EmoBases
  assumes startShop_tells:
      "length board \<le> boardSize \<Longrightarrow> tells board (w_startShop wasm board seed bases)"
    and addEmo_tells:
      "length board \<le> boardSize \<Longrightarrow> tells board (w_addEmo wasm board ids base_id t i bases)"
    and sellEmo_tells: "length board \<le> boardSize \<Longrightarrow> tells board (w_sellEmo wasm board i bases)"
    and moveEmo_tells: "length board \<le> boardSize \<Longrightarrow> tells board (w_moveEmo wasm board i r)"
begin

lemma finish_draws:
  assumes "draws json emoNames bases element board" "tells board m" "m = Inr (newBoard, coin, logs)"
    and "shop_animate json emoNames bases fs element logs = Inr element'"
  shows "draws json emoNames bases element' newBoard \<and> length newBoard \<le> boardSize"
  using animate_draws [OF assms(1) _ assms(4), of newBoard coin] assms(2,3) by (auto simp: tells_def)

lemma operate_draws:
  assumes fits: "length board \<le> boardSize"
    and before: "if operation = Operation_pre_shop then shows_board element []
      else draws json emoNames bases element board"
    and result: "operate json emoNames bases fs wasm element board operation seed = Inr (r, element')"
  shows "draws json emoNames bases element' (or_newBoardEmos r) \<and> length (or_newBoardEmos r) \<le> boardSize"
proof (cases operation)
  case Operation_pre_shop
  with result obtain el newBoard coin logs where
    el: "setupEmoLineEmosElement json emoNames bases element board = Inr el"
    and w: "w_startShop wasm board seed bases = Inr (newBoard, coin, logs)"
    and a: "shop_animate json emoNames bases fs el logs = Inr element'" "or_newBoardEmos r = newBoard"
    by (auto simp: operate_def bindE_eq_Inr_iff mapR_eq_Inr_iff)
  have "draws json emoNames bases el board"
    using setupEmoLineEmosElement_same [of element "[]" json emoNames bases board] before el
      Operation_pre_shop
    by (cases "new_views json emoNames bases board") (auto simp: draws_def)
  then show ?thesis
    using finish_draws [OF _ startShop_tells [OF fits] w a(1)] a(2) by simp
next
  case (Operation_move i right)
  with result obtain newBoard coin logs where
    w: "w_moveEmo wasm board i right = Inr (newBoard, coin, logs)"
    and a: "shop_animate json emoNames bases fs element logs = Inr element'" "or_newBoardEmos r = newBoard"
    by (auto simp: operate_def bindE_eq_Inr_iff mapR_eq_Inr_iff)
  then show ?thesis
    using finish_draws [OF _ moveEmo_tells [OF fits] w a(1)] before Operation_move by simp
next
  case (Operation_sell i)
  with result obtain newBoard coin logs where
    w: "w_sellEmo wasm board i bases = Inr (newBoard, coin, logs)"
    and a: "shop_animate json emoNames bases fs element logs = Inr element'" "or_newBoardEmos r = newBoard"
    by (auto simp: operate_def bindE_eq_Inr_iff mapR_eq_Inr_iff)
  then show ?thesis
    using finish_draws [OF _ sellEmo_tells [OF fits] w a(1)] before Operation_sell by simp
next
  case (Operation_set i e)
  with result obtain newBoard coin logs where
    w: "w_addEmo wasm board [me_id e] (me_base_id e) False i bases = Inr (newBoard, coin, logs)"
    and a: "shop_animate json emoNames bases fs element logs = Inr element'" "or_newBoardEmos r = newBoard"
    by (auto simp: operate_def bindE_eq_Inr_iff mapR_eq_Inr_iff)
  then show ?thesis
    using finish_draws [OF _ addEmo_tells [OF fits] w a(1)] before Operation_set by simp
qed (use result in \<open>simp add: operate_def\<close>)

end

end
