(* ===== verification/RustShopFacts.thy ===== *)
theory RustShopFacts
  imports RustShop ShopView
begin

text \<open>
  What the Rust board of the shop promises the front: its logs tell how the board changed, the board
  never holds more than seven emojis, and adding an emoji returns, however its ability sets others.
  The measure of the recursion is a potential of the board: it falls by one with an emoji set and
  by more with a triple, which takes the place of three, and no action raises it.
\<close>

section \<open>Soundness of a state\<close>

definition triples :: "ShopBoardEmo list \<Rightarrow> nat" where
  "triples b = length (filter (\<lambda>e. at_is_triple (be_attributes e)) b)"

definition potential :: "ShopBoardEmo list \<Rightarrow> nat" where
  "potential b = 8 * (7 - triples b) + (7 - length b)"

definition told :: "mtc_Board \<Rightarrow> shop_state \<Rightarrow> bool" where
  "told b0 s \<longleftrightarrow>
     map into_board_emo (sh_board s) = foldl board_log b0 (sh_logs s) \<and> valid_logs b0 (sh_logs s)"

definition sound :: "mtc_Board \<Rightarrow> nat \<Rightarrow> shop_state \<Rightarrow> bool" where
  "sound b0 K s \<longleftrightarrow> length (sh_board s) \<le> 7 \<and> potential (sh_board s) \<le> K \<and> told b0 s"

lemma triples_simps [simp]:
  "triples [] = 0" "triples (e # b) = (if at_is_triple (be_attributes e) then Suc (triples b) else triples b)"
  "triples (b @ c) = triples b + triples c"
  by (simp_all add: triples_def)

lemma triples_le: "triples b \<le> length b"
  by (simp add: triples_def)

lemma potential_insert: "potential (take i b @ e # drop i b) = potential (e # b)"
proof -
  have "triples b = triples (take i b) + triples (drop i b)"
    using triples_simps(3) [of "take i b" "drop i b"] by simp
  then show ?thesis
    by (simp add: potential_def)
qed

lemma potential_Cons_less: "length b < 7 \<Longrightarrow> potential (e # b) < potential b"
  using triples_le [of b] unfolding potential_def triples_simps list.size by (simp split: if_splits) arith

lemma valid_logs_append:
  "valid_logs b (ls @ ls') \<longleftrightarrow> valid_logs b ls \<and> valid_logs (foldl board_log b ls) ls'"
  by (induction ls arbitrary: b) auto

lemma told_log:
  assumes "told b0 s" "valid_log (map into_board_emo (sh_board s)) l"
    and "map into_board_emo b' = board_log (map into_board_emo (sh_board s)) l"
  shows "told b0 (s\<lparr>sh_board := b', sh_logs := sh_logs s @ [l]\<rparr>)"
  using assms by (simp add: told_def valid_logs_append)

lemma unat_small: "k < 256 \<Longrightarrow> toNumber (word_of_nat k :: u8) = k"
  by (simp add: unat_of_nat)

lemma index_of_id_Some: "index_of_id i b = Some k \<Longrightarrow> k < length b \<and> se_id (b ! k) = i"
  by (induction b arbitrary: k) (auto split: if_splits)

lemma into_board_emo_simps [simp]:
  "be_attributes (into_board_emo e) = be_attributes e"
  "into_board_emo (e\<lparr>be_attributes := a\<rparr>) = (into_board_emo e)\<lparr>be_attributes := a\<rparr>"
  by (simp_all add: into_board_emo_def mtc_BoardEmo.truncate_def)

lemma triples_update:
  "k < length b \<Longrightarrow> at_is_triple (be_attributes e) = at_is_triple (be_attributes (b ! k)) \<Longrightarrow>
   triples (b[k := e]) = triples b"
  by (induction b arbitrary: k) (auto split: nat.splits)

lemma saturating_add_0 [simp]: "saturating_add a 0 = a"
  by (simp add: saturating_add_def)

lemma sound_update:
  assumes "sound b0 K s" "k < length (sh_board s)" "valid_log (map into_board_emo (sh_board s)) l"
    and "at_is_triple (f (be_attributes (sh_board s ! k))) = at_is_triple (be_attributes (sh_board s ! k))"
    and "map into_board_emo (sh_board (update_emo k f s)) = board_log (map into_board_emo (sh_board s)) l"
  shows "sound b0 K (update_emo k f (add_log l s))"
proof -
  have "update_emo k f (add_log l s) =
      s\<lparr>sh_board := sh_board (update_emo k f s), sh_logs := sh_logs s @ [l]\<rparr>"
    by (simp add: update_emo_def add_log_def Let_def)
  moreover have "potential (sh_board (update_emo k f s)) = potential (sh_board s)"
    "length (sh_board (update_emo k f s)) = length (sh_board s)"
    using assms(2,4) by (simp_all add: potential_def update_emo_def Let_def triples_update)
  ultimately show ?thesis
    using assms(1) told_log [OF _ assms(3,5)] by (simp add: sound_def)
qed

section \<open>Changes of emojis\<close>

definition soundly :: "mtc_Board \<Rightarrow> nat \<Rightarrow> shop_state \<Rightarrow> shop_state \<Rightarrow> bool" where
  "soundly b0 K a b \<longleftrightarrow> a = b \<and> sound b0 K a"

lemma soundly_refl [simp]: "soundly b0 K a a \<longleftrightarrow> sound b0 K a"
  by (simp add: soundly_def)

lemma soundlyE [elim!]: "soundly b0 K a b \<Longrightarrow> (a = b \<Longrightarrow> sound b0 K a \<Longrightarrow> P) \<Longrightarrow> P"
  by (auto simp: soundly_def)

lemma add_attack_and_health_to_emo_sound:
  assumes s: "sound b0 K s"
  shows "same (soundly b0 K) (add_attack_and_health_to_emo attack health s i)
    (add_attack_and_health_to_emo attack health s i)"
proof (cases "index_of_id i (sh_board s)")
  case None
  then show ?thesis by (simp add: add_attack_and_health_to_emo_def)
next
  case (Some k)
  then have k: "k < length (sh_board s)" by (simp add: index_of_id_Some)
  from k s have u: "toNumber (word_of_nat k :: u8) = k"
    by (simp add: sound_def unat_small)
  let ?a = "be_attributes (sh_board s ! k)"
  let ?atk = "saturating_add (at_attack ?a) attack" and ?hp = "saturating_add (at_health ?a) health"
  have "sound b0 K (update_emo k (\<lambda>a. a\<lparr>at_attack := ?atk, at_health := ?hp\<rparr>)
      (add_log (BoardLog_IncreaseStats (mtc_shop_BoardLog_IncreaseStats (word_of_nat k) attack health ?atk ?hp)) s))"
    by (intro sound_update [OF s k]) (simp_all add: u k update_emo_def Let_def map_update)
  then show ?thesis
    by (simp add: add_attack_and_health_to_emo_def Some Let_def)
qed

lemma add_ability_to_sound:
  assumes s: "sound b0 K s"
  shows "same (soundly b0 K) (add_ability_to ability s i) (add_ability_to ability s i)"
proof (cases "index_of_id i (sh_board s)")
  case None
  then show ?thesis by (simp add: add_ability_to_def)
next
  case (Some k)
  then have k: "k < length (sh_board s)" by (simp add: index_of_id_Some)
  from k s have u: "toNumber (word_of_nat k :: u8) = k"
    by (simp add: sound_def unat_small)
  let ?a = "be_attributes (sh_board s ! k)"
  have "sound b0 K (update_emo k (\<lambda>a. a\<lparr>at_abilities := at_abilities a @ [ability]\<rparr>)
      (add_log (BoardLog_AddAbility (mtc_shop_BoardLog_AddAbility (word_of_nat k) ability (at_is_triple ?a))) s))"
    by (intro sound_update [OF s k]) (simp_all add: u k update_emo_def Let_def map_update)
  then show ?thesis
    using s by (simp add: add_ability_to_def Some Let_def)
qed

lemma same_refl_eq: "same (=) m m"
  by (cases m) auto

text \<open>A step after a look at the state, and a loop over what was found.\<close>

lemma look_sound: "(\<And>a. same R (f a) (g a)) \<Longrightarrow> same R (bindE m f) (bindE m g)"
  by (cases m) auto

lemmas looks =
  look_sound [where m = "get_emo_by_id s i" for s i]
  look_sound [where m = "get_emo q s" for q s]
  look_sound [where m = "find_base bs i" for bs i]
  look_sound [where m = "count_emos_by_typ_and_triple s q c bs" for s q c bs]
  look_sound [where m = "get_emo_ids_by_target s q c bs" for s q c bs]
  look_sound [where m = "get_left_emo_id s q" for s q]
  look_sound [where m = "get_right_emo_id s q" for s q]
  look_sound [where m = "get_emo_index_by_id s i" for s i]
  look_sound [where m = "right_index q s" for q s]

lemma loop_sound:
  "(\<And>s x. sound b0 K s \<Longrightarrow> same (soundly b0 K) (f s x) (f s x)) \<Longrightarrow> sound b0 K s \<Longrightarrow>
   same (soundly b0 K) (foldE f s xs) (foldE f s xs)"
  by (rule foldE_same [where R = "soundly b0 K"]) (auto)

lemma add_attack_and_health_to_emos_sound:
  "sound b0 K s \<Longrightarrow> same (soundly b0 K) (add_attack_and_health_to_emos p t attack health bases s)
     (add_attack_and_health_to_emos p t attack health bases s)"
  unfolding add_attack_and_health_to_emos_def
  by (intro looks loop_sound add_attack_and_health_to_emo_sound)

lemma add_ability_sound:
  "sound b0 K s \<Longrightarrow> same (soundly b0 K) (add_ability p bases t ability s) (add_ability p bases t ability s)"
  unfolding add_ability_def
  by (intro looks loop_sound add_ability_to_sound)

lemma increase_stats_sound:
  "sound b0 K s \<Longrightarrow> same (soundly b0 K) (increase_stats p tr bases t attack health s)
     (increase_stats p tr bases t attack health s)"
  unfolding increase_stats_def
  by (auto split: prod.split intro: add_attack_and_health_to_emos_sound)

lemma increase_stats_by_grade_sound:
  "sound b0 K s \<Longrightarrow> same (soundly b0 K) (increase_stats_by_grade p tr bases t attack health s)
     (increase_stats_by_grade p tr bases t attack health s)"
  unfolding increase_stats_by_grade_def Let_def
  by (auto split: prod.split intro!: looks add_attack_and_health_to_emos_sound)

lemma increase_stats_by_emo_count_sound:
  "sound b0 K s \<Longrightarrow> same (soundly b0 K) (increase_stats_by_emo_count p tr bases t c attack health s)
     (increase_stats_by_emo_count p tr bases t c attack health s)"
  unfolding increase_stats_by_emo_count_def Let_def
  by (auto split: prod.split intro!: looks add_attack_and_health_to_emos_sound)

lemma increase_stats_of_adjacent_menagerie_sound:
  assumes s: "sound b0 K s"
  shows "same (soundly b0 K) (increase_stats_of_adjacent_menagerie p tr bases attack health s)
     (increase_stats_of_adjacent_menagerie p tr bases attack health s)"
proof -
  let ?R = "\<lambda>a b. a = b \<and> sound b0 K (snd a)"
  obtain a h where d: "double_attack_and_health_if tr attack health = (a, h)" by fastforce
  have add: "same (soundly b0 K) (add_attack_and_health_to_emo a h s' i) (add_attack_and_health_to_emo a h s' i)"
    if "sound b0 K s'" for s' i
    by (rule add_attack_and_health_to_emo_sound [OF that])
  let ?f = "\<lambda>left. case left of
      Some i \<Rightarrow> bindE (get_emo_by_id s i) (\<lambda>e. bindE (find_base bases (be_base_id e)) (\<lambda>base.
        mapR (\<lambda>s. (Some (eb_typ base), s)) (add_attack_and_health_to_emo a h s (se_id e))))
    | None \<Rightarrow> Inr (None, s)"
  have "same ?R (?f left) (?f left)" for left
    using s by (auto intro!: looks same_mapR [OF add [OF s]] split: option.split)
  then show ?thesis
    unfolding increase_stats_of_adjacent_menagerie_def d Let_def prod.case
    by (intro looks same_bindE [where R = ?R])
      (auto intro!: looks add split: prod.splits option.split)
qed

lemma menagerie_loop_sound:
  "sound b0 K s \<Longrightarrow> same (soundly b0 K) (menagerie_loop bases i n attack health typs ids s)
     (menagerie_loop bases i n attack health typs ids s)"
proof (induction ids arbitrary: s typs)
  case Nil
  then show ?case by simp
next
  case (Cons j ids)
  show ?case
    using Cons.prems Cons.IH
    by (auto simp: Let_def intro!: looks
        same_bindE [where R = "soundly b0 K", OF add_attack_and_health_to_emo_sound])
qed

lemma increase_stats_of_menagerie_sound:
  assumes "sound b0 K s"
  shows "same (\<lambda>a b. a = b \<and> sound b0 K (snd a))
    (increase_stats_of_menagerie shuffle bases i n attack health (rng, s))
    (increase_stats_of_menagerie shuffle bases i n attack health (rng, s))"
  unfolding increase_stats_of_menagerie_def Let_def prod.case
  using menagerie_loop_sound [OF assms]
  by (auto split: prod.split intro!: looks same_mapR [where R = "soundly b0 K"])

section \<open>Actions\<close>

definition coins_soundly :: "mtc_Board \<Rightarrow> nat \<Rightarrow> coin_state \<Rightarrow> coin_state \<Rightarrow> bool" where
  "coins_soundly b0 K a b \<longleftrightarrow> a = b \<and> sound b0 K (snd a)"

lemma coins_soundly_refl [simp]: "coins_soundly b0 K a a \<longleftrightarrow> sound b0 K (snd a)"
  by (simp add: coins_soundly_def)

lemma coins_soundlyE [elim!]: "coins_soundly b0 K a b \<Longrightarrow> (a = b \<Longrightarrow> sound b0 K (snd a) \<Longrightarrow> P) \<Longrightarrow> P"
  by (auto simp: coins_soundly_def)

lemma on_state_sound:
  "same (soundly b0 K) (f (snd cs)) (f (snd cs)) \<Longrightarrow>
   same (coins_soundly b0 K) (on_state f cs) (on_state f cs)"
  unfolding on_state_def by (rule same_mapR [where R = "soundly b0 K"]) auto

lemma coins_loop:
  "(\<And>cs x. sound b0 K (snd cs) \<Longrightarrow> same (coins_soundly b0 K) (f cs x) (g cs x)) \<Longrightarrow> sound b0 K (snd cs) \<Longrightarrow>
   same (coins_soundly b0 K) (foldE f cs xs) (foldE g cs xs)"
  by (rule foldE_same [where R = "coins_soundly b0 K"]) auto

lemma coins_bind:
  "same (coins_soundly b0 K) m n \<Longrightarrow> (\<And>cs. sound b0 K (snd cs) \<Longrightarrow> same R (f cs) (g cs)) \<Longrightarrow>
   same R (bindE m f) (bindE n g)"
  by (rule same_bindE [where R = "coins_soundly b0 K"]) auto

lemma count_emos_less: "length (sh_board s) \<le> 7 \<Longrightarrow> count_emos s < BOARD_EMO_MAX_COUNT \<longleftrightarrow> length (sh_board s) < 7"
  by (simp add: count_emos_def BOARD_EMO_MAX_COUNT_def word_less_nat_alt unat_small)

section \<open>The emojis a triple takes the place of\<close>

lemma nths_remove:
  "i < length b \<Longrightarrow> J \<subseteq> {..<i} \<Longrightarrow> nths (take i b @ drop (Suc i) b) (- J) = nths b (- insert i J)"
proof (induction b arbitrary: i J)
  case (Cons x b)
  show ?case
  proof (cases i)
    case 0
    then have "{j. Suc j \<in> - {0}} = UNIV" by auto
    with 0 Cons.prems show ?thesis by (simp add: nths_Cons)
  next
    case (Suc k)
    let ?J = "{j. Suc j \<in> J}"
    have "{j. Suc j \<in> - J} = - ?J" "{j. Suc j \<in> - insert (Suc k) J} = - insert k ?J" by auto
    moreover have "nths (take k b @ drop (Suc k) b) (- ?J) = nths b (- insert k ?J)"
      using Cons.prems Suc by (intro Cons.IH) auto
    ultimately show ?thesis
      using Suc by (simp add: nths_Cons)
  qed
qed simp

lemma remove_rev:
  "sorted_wrt (<) ks \<Longrightarrow> \<forall>k\<in>set ks. k < length (sh_board s) \<Longrightarrow> length (sh_board s) \<le> 7 \<Longrightarrow>
   \<exists>removed. foldE (\<lambda>(removed, s) i. mapR (\<lambda>(e, s). (removed @ [e], s)) (remove_emo i s)) (acc, s)
     (rev (map word_of_nat ks)) = Inr (removed, s\<lparr>sh_board := nths (sh_board s) (- set ks)\<rparr>)"
proof (induction ks arbitrary: acc s rule: rev_induct)
  case Nil
  then show ?case by (simp add: nths_all)
next
  case (snoc k ks)
  let ?s = "s\<lparr>sh_board := take k (sh_board s) @ drop (Suc k) (sh_board s)\<rparr>"
  have k: "k < length (sh_board s)" "toNumber (word_of_nat k :: u8) = k"
    using snoc.prems unat_small [of k] by auto
  have "\<exists>removed. foldE (\<lambda>(removed, s) i. mapR (\<lambda>(e, s). (removed @ [e], s)) (remove_emo i s))
      (acc @ [sh_board s ! k], ?s) (rev (map word_of_nat ks)) =
      Inr (removed, ?s\<lparr>sh_board := nths (sh_board ?s) (- set ks)\<rparr>)"
    using snoc.prems k(1) by (intro snoc.IH) (auto simp: sorted_wrt_append)
  moreover have "nths (sh_board ?s) (- set ks) = nths (sh_board s) (- set (ks @ [k]))"
    using snoc.prems k(1) nths_remove [of k "sh_board s" "set ks"] by (auto simp: sorted_wrt_append)
  ultimately show ?case
    using k by (simp add: remove_emo_def)
qed

lemma enumerate_nth: "List.enumerate 0 b = map (\<lambda>i. (i, b ! i)) [0..<length b]"
  by (rule nth_equalityI) (simp_all add: nth_enumerate_eq)

lemma filter_indexes: "map ((!) b) (filter (\<lambda>i. Q (b ! i)) [0..<length b]) = filter Q b"
  by (subst (2) map_nth [of b, symmetric]) (simp add: filter_map comp_def)

lemma nths_complement: "nths b (- {i. i < length b \<and> Q (b ! i)}) = filter (\<lambda>e. \<not> Q e) b"
proof -
  have "nths b (- {i. i < length b \<and> Q (b ! i)}) = nths b {i. i < length b \<and> \<not> Q (b ! i)}"
    unfolding nths_def by (rule arg_cong [where f = "map fst"], rule filter_cong) (auto simp: set_zip)
  then show ?thesis
    by (simp only: filter_eq_nths [of "\<lambda>e. \<not> Q e"])
qed

lemma remove_same_base:
  assumes "length (sh_board s) \<le> 7" "ix = same_base_not_triple_indexes base_id s"
  shows "\<exists>removed b'. remove_triple_emos ix s = Inr (removed, s\<lparr>sh_board := b'\<rparr>) \<and>
    b' = nths (sh_board s) (- set (map toNumber ix)) \<and>
    triples b' = triples (sh_board s) \<and> length b' + length ix = length (sh_board s)"
proof -
  let ?b = "sh_board s"
  define Q where "Q e \<longleftrightarrow> be_base_id e = base_id \<and> \<not> at_is_triple (be_attributes e)" for e :: ShopBoardEmo
  define ks where "ks = filter (\<lambda>i. Q (?b ! i)) [0..<length ?b]"
  have ix: "ix = map word_of_nat ks"
    by (simp add: assms(2) same_base_not_triple_indexes_def enumerate_nth filter_map comp_def ks_def Q_def)
  have ks: "set ks = {i. i < length ?b \<and> Q (?b ! i)}" "sorted_wrt (<) ks"
    by (auto simp: ks_def sorted_wrt_filter)
  have nums: "map toNumber ix = ks"
    unfolding ix map_map using ks(1) assms(1) by (intro map_idI) (simp add: unat_small)
  obtain removed where "remove_triple_emos ix s = Inr (removed, s\<lparr>sh_board := nths ?b (- set ks)\<rparr>)"
    using remove_rev [OF ks(2), of s "[]"] ks(1) assms(1) by (auto simp: remove_triple_emos_def ix)
  moreover have b': "nths ?b (- set ks) = filter (\<lambda>e. \<not> Q e) ?b"
    by (simp add: ks(1) nths_complement)
  moreover have "triples (filter (\<lambda>e. \<not> Q e) ?b) = triples ?b"
    unfolding triples_def filter_filter by (rule arg_cong [where f = length]) (rule filter_cong, auto simp: Q_def)
  moreover have "length ks = length (filter Q ?b)"
    using filter_indexes [of ?b Q] by (metis ks_def length_map)
  then have "length (filter (\<lambda>e. \<not> Q e) ?b) + length ix = length ?b"
    using sum_length_filter_compl [of Q ?b] by (simp add: ix)
  ultimately show ?thesis
    unfolding nums by auto
qed

text \<open>
  The interface of the recursion: a function that adds an emoji, and another it agrees with, on
  every call whose board, the new emoji included, is below a potential.
\<close>

locale shop_adder =
  fixes b0 :: mtc_Board and K :: nat and add add' :: adder
  assumes add_law:
    "length (sh_board s) < 7 \<Longrightarrow> told b0 s \<Longrightarrow> potential (e # sh_board s) < K \<Longrightarrow>
     same (coins_soundly b0 K) (add s e i) (add' s e i)"
begin

lemma set_emo_same:
  assumes "sound b0 K (snd cs)"
  shows "same (coins_soundly b0 K) (set_emo add p t bases base_id cs) (set_emo add' p t bases base_id cs)"
proof -
  obtain c s where cs: "cs = (c, s)" by (cases cs)
  have s: "length (sh_board s) \<le> 7" "told b0 s" "potential (sh_board s) \<le> K"
    using assms by (simp_all add: cs sound_def)
  have "same (coins_soundly b0 K) (add_emo_with add ids base_id t i bases s) (add_emo_with add' ids base_id t i bases s)"
    if "length (sh_board s) < 7" for ids i
    unfolding add_emo_with_def new_with_base_def from_attributes_def generate_shop_board_emo_id_def
      Let_def prod.case
    using that s(2,3) potential_Cons_less [OF that]
    by (intro looks add_law) (auto simp: told_def intro: less_le_trans)
  then show ?thesis
    unfolding set_emo_def cs prod.case
    using s assms
    by (auto simp: count_emos_less cs intro!: looks same_mapR [where R = "coins_soundly b0 K"])
qed

lemma call_ability_action_same:
  "sound b0 K (snd cs) \<Longrightarrow>
   same (coins_soundly b0 K) (call_ability_action add bases action p t cs) (call_ability_action add' bases action p t cs)"
  unfolding call_ability_action_def get_coin_by_emo_count_div_def
  by (auto split: emo_ability_shop_NormalAction.split emo_ability_shop_NormalAction_SetEmo.split
      emo_ability_shop_NormalAction_IncreaseStats.split
      emo_ability_shop_NormalAction_IncreaseStatsOfAdjacentMenagerie.split
      emo_ability_shop_NormalAction_IncreaseStatsByGrade.split
      emo_ability_shop_NormalAction_IncreaseStatsByEmoCount.split
      emo_ability_shop_NormalAction_AddAbility.split emo_ability_shop_NormalAction_GetCoin.split
      emo_ability_shop_NormalAction_GetCoinByEmoCountDiv.split prod.split
      intro!: set_emo_same on_state_sound increase_stats_sound increase_stats_by_grade_sound
        increase_stats_of_adjacent_menagerie_sound increase_stats_by_emo_count_sound add_ability_sound looks)

lemma as_oneself_same:
  "sound b0 K (snd cs) \<Longrightarrow>
   same (coins_soundly b0 K) (call_ability_action_as_oneself add bases action p cs)
     (call_ability_action_as_oneself add' bases action p cs)"
  unfolding call_ability_action_as_oneself_def
  by (intro looks call_ability_action_same)

lemma trigger_set_actions_same:
  "sound b0 K (snd cs) \<Longrightarrow>
   same (coins_soundly b0 K) (trigger_set_actions add bases p t cs) (trigger_set_actions add' bases p t cs)"
  unfolding trigger_set_actions_def Let_def
  by (auto intro!: looks coins_loop coins_bind call_ability_action_same)

lemma as_ally_same:
  "sound b0 K (snd cs) \<Longrightarrow>
   same (coins_soundly b0 K) (call_ability_action_as_ally add bases action i p cs)
     (call_ability_action_as_ally add' bases action i p cs)"
  unfolding call_ability_action_as_ally_def Let_def
  by (auto split: emo_ability_shop_PeriAsAllyAction.split emo_ability_shop_AsAllyAction.split
      intro!: looks call_ability_action_same trigger_set_actions_same)

lemma ally_ability_same:
  "sound b0 K (snd cs) \<Longrightarrow>
   same (coins_soundly b0 K) (call_ally_ability add bases i typ t cs p) (call_ally_ability add' bases i typ t cs p)"
  unfolding call_ally_ability_def
  by (auto split: prod.split emo_ability_shop_Peri.split emo_ability_shop_Peri_AsAlly.split
      emo_ability_shop_PeriAsAllyTrigger.split emo_ability_shop_PeriAsAllyTrigger_AllySet.split
      emo_ability_shop_Peri_AsOneself.split emo_ability_shop_PeriAsOneselfTrigger.split
      emo_ability_shop_PeriAsOneselfTrigger_AllySet.split
      intro!: as_ally_same as_oneself_same)

lemma addition_abilities_same:
  "sound b0 K (snd cs) \<Longrightarrow>
   same (coins_soundly b0 K) (call_emo_addition_abilities add bases i cs) (call_emo_addition_abilities add' bases i cs)"
  unfolding call_emo_addition_abilities_def
  by (auto intro!: looks coins_bind coins_loop as_oneself_same ally_ability_same)

lemma process_triple_same:
  assumes "sound b0 K (snd cs)"
  shows "same (coins_soundly b0 K) (process_triple add bases i cs) (process_triple add' bases i cs)"
proof -
  obtain c s where cs: "cs = (c, s)" by (cases cs)
  have s: "length (sh_board s) \<le> 7" "told b0 s" "potential (sh_board s) \<le> K"
    using assms by (simp_all add: cs sound_def)
  have "same (coins_soundly b0 K)
      (bindE (remove_triple_emos ix s) (\<lambda>(removed, s).
         bindE (build_triple_emo removed base_id bases s) (\<lambda>(triple_emo, s).
           mapR (f :: coin_state \<Rightarrow> coin_state) (add (add_log (BoardLog_Triple (mtc_shop_BoardLog_Triple ix)) s) triple_emo j))))
      (bindE (remove_triple_emos ix s) (\<lambda>(removed, s).
         bindE (build_triple_emo removed base_id bases s) (\<lambda>(triple_emo, s).
           mapR f (add' (add_log (BoardLog_Triple (mtc_shop_BoardLog_Triple ix)) s) triple_emo j))))"
    if ix: "ix = same_base_not_triple_indexes base_id s" "3 \<le> length ix" and f: "\<And>x. snd (f x) = snd x" for ix base_id j f
  proof -
    obtain removed b' where rm: "remove_triple_emos ix s = Inr (removed, s\<lparr>sh_board := b'\<rparr>)"
      and b': "b' = nths (sh_board s) (- set (map toNumber ix))"
      and tr: "triples b' = triples (sh_board s)" "length b' + length ix = length (sh_board s)"
      using remove_same_base [OF s(1) ix(1)] by blast
    show ?thesis
    proof (cases "build_triple_emo removed base_id bases (s\<lparr>sh_board := b'\<rparr>)")
      case (Inr r)
      then obtain e n where r: "r = (e, s\<lparr>sh_board := b', sh_next_id := n\<rparr>)" "at_is_triple (be_attributes e)"
        by (auto simp: build_triple_emo_def mapR_eq_Inr_iff from_attributes_def
            generate_shop_board_emo_id_def Let_def case_prod_unfold)
      let ?s = "add_log (BoardLog_Triple (mtc_shop_BoardLog_Triple ix)) (s\<lparr>sh_board := b', sh_next_id := n\<rparr>)"
      have "told b0 ?s"
        using told_log [OF s(2), of "BoardLog_Triple (mtc_shop_BoardLog_Triple ix)" b']
        by (simp add: add_log_def told_def b' nths_map)
      moreover have "length (sh_board ?s) < 7" "potential (e # sh_board ?s) < K"
        using tr r(2) ix(2) s triples_le [of b'] unfolding potential_def add_log_def by auto
      ultimately have "same (coins_soundly b0 K) (add ?s e j) (add' ?s e j)"
        by (intro add_law)
      then show ?thesis
        using f by (auto simp: rm Inr r coins_soundly_def intro!: same_mapR [where R = "coins_soundly b0 K"])
    qed (simp add: rm)
  qed
  note step = this
  show ?thesis
    unfolding process_triple_def cs prod.case Let_def
    using assms by (auto simp: cs intro!: looks step)
qed

text \<open>The body keeps to the interface, with the potential of the board the new emoji is on.\<close>

lemma body_same:
  assumes "length (sh_board s) \<le> 7" "told b0 s" "potential (e # sh_board s) \<le> K"
  shows "same (coins_soundly b0 K) (add_emo_body add bases s e i) (add_emo_body add' bases s e i)"
proof (cases "length (sh_board s) < 7 \<and> i \<le> count_emos s")
  case False
  then show ?thesis
    using assms(1) by (auto simp: add_emo_body_def Let_def count_emos_less)
next
  case True
  let ?b = "take (toNumber i) (sh_board s) @ e # drop (toNumber i) (sh_board s)"
  let ?l = "BoardLog_Add (mtc_shop_BoardLog_Add i (into_board_emo e))"
  have i: "toNumber i \<le> length (sh_board s)"
    using True unat_small [of "length (sh_board s)"] by (simp add: count_emos_def word_le_nat_alt)
  then have ins: "insert_emo i e (add_log ?l s) = Inr ((add_log ?l s)\<lparr>sh_board := ?b\<rparr>)"
    by (simp add: insert_emo_def add_log_def)
  have "told b0 ((add_log ?l s)\<lparr>sh_board := ?b\<rparr>)"
    using told_log [OF assms(2), of ?l ?b] i
    by (simp add: add_log_def insert_before_def take_map drop_map told_def)
  then have "sound b0 K ((add_log ?l s)\<lparr>sh_board := ?b\<rparr>)"
    using True i assms(3) by (simp add: sound_def potential_insert)
  then show ?thesis
    using True assms(1)
    by (auto simp: add_emo_body_def Let_def count_emos_less ins
        intro!: coins_bind addition_abilities_same process_triple_same)
qed

end

section \<open>Fuel\<close>

text \<open>
  The recursion unrolled a number of times over a function of any behaviour: when the result does
  not depend on that function, the recursion has ended before it reaches it.
\<close>

primrec add_emo_over :: "adder \<Rightarrow> emo_Bases \<Rightarrow> nat \<Rightarrow> adder" where
  "add_emo_over deeper bases 0 = deeper"
| "add_emo_over deeper bases (Suc n) = add_emo_body (add_emo_over deeper bases n) bases"

lemma add_emo_over_end: "add_emo_over (\<lambda>s e i. Inl JsRangeError) bases n = add_emo_with_board_emo n bases"
  by (induction n) simp_all

lemma add_emo_fuel:
  "length (sh_board s) \<le> 7 \<Longrightarrow> told b0 s \<Longrightarrow> potential (e # sh_board s) < n \<Longrightarrow>
   same (coins_soundly b0 (potential (e # sh_board s)))
     (add_emo_with_board_emo n bases s e i) (add_emo_over deeper bases n s e i)"
proof (induction n arbitrary: s e i)
  case (Suc n)
  let ?K = "potential (e # sh_board s)"
  have "shop_adder b0 ?K (add_emo_with_board_emo n bases) (add_emo_over deeper bases n)"
  proof
    fix t f j
    assume t: "length (sh_board t) < 7" "told b0 t" "potential (f # sh_board t) < ?K"
    then have "same (coins_soundly b0 (potential (f # sh_board t)))
        (add_emo_with_board_emo n bases t f j) (add_emo_over deeper bases n t f j)"
      using Suc.prems by (intro Suc.IH) auto
    then show "same (coins_soundly b0 ?K) (add_emo_with_board_emo n bases t f j)
        (add_emo_over deeper bases n t f j)"
      by (rule sum.rel_mono_strong) (use t(3) in \<open>auto simp: coins_soundly_def sound_def\<close>)
  qed
  from shop_adder.body_same [OF this Suc.prems(1,2)] show ?case
    by simp
qed simp

lemma potential_63: "potential b \<le> 63"
  by (simp add: potential_def)

lemma sound_63: "sound b0 63 s \<longleftrightarrow> length (sh_board s) \<le> 7 \<and> told b0 s"
  by (simp add: sound_def potential_63)

text \<open>The interface holds of the code's function, and what is beyond its fuel makes no difference.\<close>

interpretation shop: shop_adder b0 63 "add_emo_with_board_emo shop_fuel bases"
  "add_emo_over deeper bases shop_fuel" for b0 bases deeper
proof
  fix s e i
  assume "length (sh_board s) < 7" "told b0 s" "potential (e # sh_board s) < 63"
  then have "same (coins_soundly b0 (potential (e # sh_board s)))
      (add_emo_with_board_emo shop_fuel bases s e i) (add_emo_over deeper bases shop_fuel s e i)"
    by (intro add_emo_fuel) (simp_all add: shop_fuel_def)
  then show "same (coins_soundly b0 63)
      (add_emo_with_board_emo shop_fuel bases s e i) (add_emo_over deeper bases shop_fuel s e i)"
    by (rule sum.rel_mono_strong) (auto simp: coins_soundly_def sound_def potential_63)
qed

section \<open>The operations\<close>

lemma add_emo_with_same:
  assumes "length (sh_board s) \<le> 7" "told b0 s"
  shows "same (coins_soundly b0 63) (add_emo ids base_id t i bases s)
    (add_emo_with (add_emo_over deeper bases shop_fuel) ids base_id t i bases s)"
proof -
  have "same (coins_soundly b0 63) (add_emo_with_board_emo shop_fuel bases (s\<lparr>sh_next_id := n\<rparr>) e i)
      (add_emo_over deeper bases shop_fuel (s\<lparr>sh_next_id := n\<rparr>) e i)" for e n
  proof -
    have "same (coins_soundly b0 (potential (e # sh_board (s\<lparr>sh_next_id := n\<rparr>))))
        (add_emo_with_board_emo shop_fuel bases (s\<lparr>sh_next_id := n\<rparr>) e i)
        (add_emo_over deeper bases shop_fuel (s\<lparr>sh_next_id := n\<rparr>) e i)"
      using assms by (intro add_emo_fuel) (simp_all add: told_def potential_def shop_fuel_def)
    then show ?thesis
      by (rule sum.rel_mono_strong) (auto simp: coins_soundly_def sound_def potential_63)
  qed
  then show ?thesis
    unfolding add_emo_def add_emo_with_def new_with_base_def from_attributes_def
      generate_shop_board_emo_id_def Let_def prod.case
    by (intro looks)
qed

lemma sell_emo_same:
  assumes s: "length (sh_board s) \<le> 7" "told b0 s"
  shows "same (coins_soundly b0 63) (sell_emo i bases s)
    (sell_emo_with (add_emo_over deeper bases shop_fuel) i bases s)"
proof (cases "i < count_emos s")
  case True
  let ?l = "BoardLog_Remove (mtc_shop_BoardLog_Remove i)"
  let ?b = "take (toNumber i) (sh_board s) @ drop (Suc (toNumber i)) (sh_board s)"
  have i: "toNumber i < length (sh_board s)"
    using True s(1) unat_small [of "length (sh_board s)"] by (simp add: count_emos_def word_less_nat_alt)
  have "told b0 ((add_log ?l s)\<lparr>sh_board := ?b\<rparr>)"
    using told_log [OF s(2), of ?l ?b] by (simp add: add_log_def take_map drop_map told_def)
  then have "sound b0 63 ((add_log ?l s)\<lparr>sh_board := ?b\<rparr>)"
    using s(1) i by (simp add: sound_63)
  then show ?thesis
    using True i
    by (auto simp: sell_emo_def sell_emo_with_def remove_emo_def add_log_def
        intro!: coins_loop shop.as_oneself_same)
qed (simp add: sell_emo_def sell_emo_with_def)

lemma move_emo_sound:
  assumes s: "length (sh_board s) \<le> 7" "told b0 s" and m: "move_emo i r s = Inr cs"
  shows "sound b0 63 (snd cs)"
proof -
  let ?j = "if r then i + 1 else i - 1"
  let ?l = "BoardLog_Move (mtc_shop_BoardLog_Move i ?j)"
  let ?b = "swap_at (toNumber i) (toNumber ?j) (sh_board s)"
  from m have ij: "toNumber i < length (sh_board s)" "toNumber ?j < length (sh_board s)"
    and cs: "snd cs = (add_log ?l s)\<lparr>sh_board := ?b\<rparr>"
    by (auto simp: move_emo_def swap_emos_def add_log_def Let_def mapR_eq_Inr_iff split: if_splits)
  have "told b0 ((add_log ?l s)\<lparr>sh_board := ?b\<rparr>)"
    using told_log [OF s(2), of ?l ?b] ij by (simp add: add_log_def map_swap_at told_def)
  then show ?thesis
    using s(1) by (simp add: cs sound_63)
qed

lemma start_shop_same:
  assumes s: "length (sh_board s) \<le> 7" "told b0 s"
  shows "same (coins_soundly b0 63) (start_shop shuffle seed_from seed bases s)
    (start_shop_with (add_emo_over deeper bases shop_fuel) shuffle
       (seed_from (word_reverse seed)) bases s)"
proof -
  let ?R = "\<lambda>a b. a = b \<and> sound b0 63 (snd (snd a))"
  have step: "same ?R (call_pre_ability (add_emo_with_board_emo shop_fuel bases) shuffle bases (rng, cs) p)
      (call_pre_ability (add_emo_over deeper bases shop_fuel) shuffle bases (rng, cs) p)"
    if "sound b0 63 (snd cs)" for rng cs p
    unfolding call_pre_ability_def prod.case
    by (auto split: prod.split emo_ability_shop_Pre.split emo_ability_shop_RandomAction.split
        emo_ability_shop_RandomAction_IncreaseStatsOfMenagerie.split
        intro!: same_mapR [where R = "coins_soundly b0 63", OF shop.as_oneself_same [OF that]]
          same_mapR [where R = "\<lambda>a b. a = b \<and> sound b0 63 (snd a)", OF increase_stats_of_menagerie_sound [OF that]])
  have "same ?R
      (foldE (call_pre_ability (add_emo_with_board_emo shop_fuel bases) shuffle bases)
         (seed_from (word_reverse seed), 0, s) (get_board_pre_abilities s))
      (foldE (call_pre_ability (add_emo_over deeper bases shop_fuel) shuffle bases)
         (seed_from (word_reverse seed), 0, s) (get_board_pre_abilities s))"
    by (rule foldE_same) (use step s in \<open>auto simp: sound_63\<close>)
  then show ?thesis
    unfolding start_shop_def start_shop_with_def by (rule same_mapR) auto
qed

lemma same_coins_eq: "same (coins_soundly b0 K) m n \<Longrightarrow> m = n"
  by (cases m; cases n) auto

lemmas coins_eqs =
  same_coins_eq [OF add_emo_with_same] same_coins_eq [OF sell_emo_same] same_coins_eq [OF start_shop_same]

text \<open>A board taken in is told by no logs.\<close>

lemma from_board_into:
  "map into_board_emo (sh_board (from_board b s)) = map into_board_emo (sh_board s) @ b \<and>
   sh_logs (from_board b s) = sh_logs s"
proof (induction b arbitrary: s)
  case (Cons e b)
  have "into_board_emo (fst (from_board_emo e s)) = e"
    by (cases e) (simp add: from_board_emo_def from_attributes_def generate_shop_board_emo_id_def
        into_board_emo_def mtc_BoardEmo.truncate_def Let_def)
  with Cons show ?case
    by (simp add: from_board_emo_def from_attributes_def generate_shop_board_emo_id_def Let_def)
qed simp

definition taken_in :: "mtc_Board \<Rightarrow> u16 \<Rightarrow> shop_state" where
  "taken_in b next_id = from_board b \<lparr>sh_board = [], sh_logs = [], sh_next_id = next_id\<rparr>"

lemma taken_in: "told b (taken_in b g)" "length (sh_board (taken_in b g)) = length b"
  using from_board_into [of b "\<lparr>sh_board = [], sh_logs = [], sh_next_id = g\<rparr>"]
  by (auto simp: taken_in_def told_def dest: arg_cong [where f = length])

end
