(* ===== verification/ShopWasm.thy ===== *)
theory ShopWasm
  imports RustShopFacts
begin

text \<open>
  The functions of the module the shop runs: the exports of \<open>front/wasm/src/lib.rs\<close> and their wrappers
  in \<open>front/src/wasm/index.ts\<close>. A board and the bases cross the boundary encoded and come back the
  same; a number is taken modulo the width of the parameter; an \<open>Err\<close> is unwrapped, which traps.
  The counter of ids is a static of the module, so a call starts with any value of it.
\<close>

text \<open>\<open>seed.parse::<u64>()\<close>: digits, with an optional sign, that fit.\<close>

definition parse_u64 :: "string \<Rightarrow> u64 option" where
  "parse_u64 s =
     (let ds = (case s of c # cs \<Rightarrow> if c = CHR ''+'' then cs else s | [] \<Rightarrow> []) in
      if ds = [] \<or> list_ex (\<lambda>c. digit_value c = None) ds then None
      else case parseInt10 ds of
        None \<Rightarrow> None
      | Some n \<Rightarrow> if n < 2 ^ 64 then Some (word_of_nat n) else None)"

definition decode_and_encode_for_shop ::
  "u16 \<Rightarrow> mtc_Board \<Rightarrow> (shop_state \<Rightarrow> (u8 \<times> shop_state) js) \<Rightarrow> shop_result js" where
  "decode_and_encode_for_shop next_id board f =
     (case f (taken_in board next_id) of
        Inl (JsError m) \<Rightarrow> Inl WasmTrap
      | Inl e \<Rightarrow> Inl e
      | Inr (coin, s) \<Rightarrow> Inr (map into_board_emo (sh_board s), toNumber coin, sh_logs s))"

definition startShop ::
  "'rng shuffler \<Rightarrow> (u64 \<Rightarrow> 'rng) \<Rightarrow> u16 \<Rightarrow> mtc_Board \<Rightarrow> string \<Rightarrow> EmoBases \<Rightarrow> shop_result js" where
  "startShop shuffle seed_from_u64 next_id board seed emoBases =
     decode_and_encode_for_shop next_id board (\<lambda>s.
       case parse_u64 seed of
         None \<Rightarrow> Inl WasmTrap
       | Some n \<Rightarrow> start_shop shuffle seed_from_u64 n (bs_codec emoBases) s)"

definition addEmo ::
  "u16 \<Rightarrow> mtc_Board \<Rightarrow> u16 list \<Rightarrow> u16 \<Rightarrow> bool \<Rightarrow> nat \<Rightarrow> EmoBases \<Rightarrow> shop_result js" where
  "addEmo next_id board mtcEmoIds emoBaseId isTriple emoIndex emoBases =
     decode_and_encode_for_shop next_id board
       (add_emo mtcEmoIds emoBaseId isTriple (word_of_nat emoIndex) (bs_codec emoBases))"

definition sellEmo :: "u16 \<Rightarrow> mtc_Board \<Rightarrow> nat \<Rightarrow> EmoBases \<Rightarrow> shop_result js" where
  "sellEmo next_id board emoIndex emoBases =
     decode_and_encode_for_shop next_id board (sell_emo (word_of_nat emoIndex) (bs_codec emoBases))"

definition moveEmo :: "u16 \<Rightarrow> mtc_Board \<Rightarrow> nat \<Rightarrow> bool \<Rightarrow> shop_result js" where
  "moveEmo next_id board emoIndex isRight =
     decode_and_encode_for_shop next_id board (move_emo (word_of_nat emoIndex) isRight)"

definition rust_shop :: "'rng shuffler \<Rightarrow> (u64 \<Rightarrow> 'rng) \<Rightarrow> u16 \<Rightarrow> shop_wasm" where
  "rust_shop shuffle seed_from_u64 next_id =
     \<lparr>w_startShop = startShop shuffle seed_from_u64 next_id, w_addEmo = addEmo next_id,
      w_sellEmo = sellEmo next_id, w_moveEmo = moveEmo next_id\<rparr>"

section \<open>The module keeps its promise\<close>

lemma decode_and_encode_tells:
  assumes "\<And>cs. f (taken_in board g) = Inr cs \<Longrightarrow> sound board 63 (snd cs)"
  shows "tells board (decode_and_encode_for_shop g board f)"
  using assms
  by (auto simp: tells_def decode_and_encode_for_shop_def sound_63 told_def boardSize_def
      split: sum.splits js_error.splits)

lemma same_Inr: "same (coins_soundly b0 K) m n \<Longrightarrow> m = Inr cs \<Longrightarrow> sound b0 K (snd cs)"
  by (cases n) auto

interpretation rust: shop_module "rust_shop shuffle seed_from_u64 g" bases
  for shuffle :: "'rng shuffler" and seed_from_u64 g bases
proof
  fix board :: mtc_Board and seed ids base_id t i r
  assume "length board \<le> boardSize"
  then have b: "told board (taken_in board g)" "length (sh_board (taken_in board g)) \<le> 7"
    by (simp_all add: taken_in boardSize_def)
  show "tells board (w_startShop (rust_shop shuffle seed_from_u64 g) board seed bases)"
    using same_Inr [OF start_shop_same [OF b(2,1)]]
    by (fastforce simp: rust_shop_def startShop_def split: option.splits intro!: decode_and_encode_tells)
  show "tells board (w_addEmo (rust_shop shuffle seed_from_u64 g) board ids base_id t i bases)"
    by (auto simp: rust_shop_def addEmo_def
        intro!: decode_and_encode_tells same_Inr [OF add_emo_with_same [OF b(2,1)]])
  show "tells board (w_sellEmo (rust_shop shuffle seed_from_u64 g) board i bases)"
    by (auto simp: rust_shop_def sellEmo_def
        intro!: decode_and_encode_tells same_Inr [OF sell_emo_same [OF b(2,1)]])
  show "tells board (w_moveEmo (rust_shop shuffle seed_from_u64 g) board i r)"
    by (auto simp: rust_shop_def moveEmo_def
        intro!: decode_and_encode_tells move_emo_sound [OF b(2,1)])
qed

end
