(* ===== verification/RustMatch.thy ===== *)
theory RustMatch
  imports ShopWasm
begin

text \<open>
  What a match needs of the Rust code beside the board of the shop: \<open>common/rs/src/mtc/shop/coin.rs\<close>
  and \<open>catalog.rs\<close>, \<open>setup.rs\<close>, \<open>battle/organizer.rs\<close> and the count of a pool of \<open>utils.rs\<close>, with
  their exports in \<open>front/wasm/src/lib.rs\<close> and the wrappers of \<open>front/src/wasm/index.ts\<close>. The
  functions of the \<open>rand\<close> crate are parameters. The battles of a turn are given over any fight of two
  boards (\<open>march\<close>), whose result is the grades left on both and the logs; the code's (\<open>battle/march.rs\<close>)
  is \<open>RustBattle.rust_march\<close>.
\<close>

section \<open>Coins (coin.rs)\<close>

definition MAX_COIN :: u8 where "MAX_COIN = 8"

definition get_initial_coin_by_turn :: "u8 \<Rightarrow> u8" where
  "get_initial_coin_by_turn turn =
     (let coin = turn + 2 in if coin > MAX_COIN then MAX_COIN else coin)"

definition decrease_upgrade_coin :: "u8 option \<Rightarrow> u8 option" where
  "decrease_upgrade_coin upgrade_coin =
     (case upgrade_coin of
        Some c \<Rightarrow> if c > 0 then Some (c - 1) else Some 0
      | None \<Rightarrow> None)"

definition get_upgrade_coin :: "u8 \<Rightarrow> u8 option" where
  "get_upgrade_coin grade =
     (if grade = 2 then Some 5
      else if grade = 3 then Some 7
      else if grade = 4 then Some 8
      else if grade = 5 then Some 9
      else if grade = 6 then Some 9
      else None)"

section \<open>The catalog (catalog.rs)\<close>

text \<open>
  The \<open>rand\<close> crate: a generator from a seed, a choice of at most some elements of a list, a
  rearrangement of a list and the choice of one element.
\<close>

record 'rng rand_crate =
  seed_from_u64 :: "u64 \<Rightarrow> 'rng"
  choose_multiple :: "'rng \<Rightarrow> nat \<Rightarrow> mtc_Emo list \<Rightarrow> mtc_Emo list \<times> 'rng"
  shuffle_emos :: "'rng \<Rightarrow> mtc_Emo list \<Rightarrow> mtc_Emo list \<times> 'rng"
  shuffle_ids :: "'rng shuffler"
  choose_one :: "'rng \<Rightarrow> u8 list \<Rightarrow> u8 option"

definition CATALOG_COUNT :: nat where "CATALOG_COUNT = 5"
definition CATALOG_LINE_EMO_COUNT :: nat where "CATALOG_LINE_EMO_COUNT = 7"

text \<open>\<open>Vec::pop\<close> takes the last element.\<close>

fun pop_line :: "nat \<Rightarrow> mtc_Emo list \<Rightarrow> (mtc_shop_CatalogLine \<times> mtc_Emo list) js" where
  "pop_line 0 emos = Inr ([], emos)"
| "pop_line (Suc n) emos =
     (if emos = [] then throwError ''catalog failed''
      else mapR (\<lambda>(catalog_line, rest). (last emos # catalog_line, rest)) (pop_line n (butlast emos)))"

fun pop_catalog :: "nat \<Rightarrow> mtc_Emo list \<Rightarrow> mtc_shop_Catalog js" where
  "pop_catalog 0 emos = Inr []"
| "pop_catalog (Suc n) emos =
     bindE (pop_line CATALOG_LINE_EMO_COUNT emos) (\<lambda>(catalog_line, emos).
       mapR ((#) catalog_line) (pop_catalog n emos))"

definition get_catalog ::
  "'rng rand_crate \<Rightarrow> mtc_Emo list \<Rightarrow> mtc_Board \<Rightarrow> u64 \<Rightarrow> mtc_shop_Catalog js" where
  "get_catalog rand pool board seed =
     (let onboard_deck_emo_ids = concat (map be_mtc_emo_ids board);
          (emos, rng) = choose_multiple rand (seed_from_u64 rand seed)
            (CATALOG_COUNT * CATALOG_LINE_EMO_COUNT)
            (filter (\<lambda>e. me_id e \<notin> set onboard_deck_emo_ids) pool);
          (emos, rng) = shuffle_emos rand rng emos
      in pop_catalog CATALOG_COUNT emos)"

section \<open>The pool (setup.rs, utils.rs)\<close>

definition PLAYER_INITIAL_HEALTH :: u8 where "PLAYER_INITIAL_HEALTH = 30"

definition get_pool_emo_count_by_grade :: "u8 \<Rightarrow> u8 js" where
  "get_pool_emo_count_by_grade grade =
     (if grade = 1 then Inr 7
      else if grade = 2 then Inr 6
      else if grade = 3 then Inr 6
      else if grade = 4 then Inr 5
      else if grade = 5 then Inr 5
      else if grade = 6 then Inr 4
      else throwError (''invalid grade: '' @ toStringU grade))"

definition build_built_base_ids_step ::
  "emo_Bases \<Rightarrow> u16 list \<Rightarrow> u16 list \<times> u8 list \<Rightarrow> u16 \<Rightarrow> (u16 list \<times> u8 list) js" where
  "build_built_base_ids_step bases built_base_ids acc i =
     (case acc of (base_ids, used_grades) \<Rightarrow>
        bindE (find_base bases i) (\<lambda>base.
          if eb_id base \<notin> set built_base_ids
          then throwError (''not contained in allowlist: '' @ toStringU i)
          else if eb_grade base \<in> set used_grades then throwError ''contains same grade''
          else Inr (base_ids @ [eb_id base], used_grades @ [eb_grade base])))"

definition build_built_base_ids :: "u16 list \<Rightarrow> emo_Bases \<Rightarrow> u16 list \<Rightarrow> u16 list js" where
  "build_built_base_ids selected_built_base_ids bases built_base_ids =
     (if length selected_built_base_ids \<noteq> 6
      then throwError ''invalid len for selected_built_base_ids''
      else mapR fst
        (foldE (build_built_base_ids_step bases built_base_ids) ([], []) selected_built_base_ids))"

text \<open>The copies of one base, each with the next id; the counter of ids is a \<open>u16\<close>.\<close>

fun push_copies :: "nat \<Rightarrow> u16 \<Rightarrow> mtc_Emo list \<times> u16 \<Rightarrow> mtc_Emo list \<times> u16" where
  "push_copies 0 base_id acc = acc"
| "push_copies (Suc n) base_id (deck, mtc_emo_id) =
     push_copies n base_id (deck @ [\<lparr>me_id = mtc_emo_id, me_base_id = base_id\<rparr>], mtc_emo_id + 1)"

definition build_pool ::
  "u16 list \<Rightarrow> emo_Bases \<Rightarrow> u16 list \<Rightarrow> u16 list \<Rightarrow> mtc_Emo list js" where
  "build_pool selected_built_base_ids bases fixed_base_ids built_base_ids =
     bindE (build_built_base_ids selected_built_base_ids bases built_base_ids) (\<lambda>base_ids.
       mapR fst
         (foldE (\<lambda>acc i.
             bindE (find_base bases i) (\<lambda>base.
             mapR (\<lambda>num. push_copies (toNumber num) (eb_id base) acc)
               (get_pool_emo_count_by_grade (eb_grade base))))
           ([], 1) (base_ids @ fixed_base_ids)))"

definition build_initial_ghost_states :: "mtc_GhostState list" where
  "build_initial_ghost_states =
     replicate 3 (GhostState_Active (mtc_GhostState_Active PLAYER_INITIAL_HEALTH))"

section \<open>Battles of a turn (organizer.rs)\<close>

text \<open>
  An emoji in a battle, without the id \<open>BattleEmo::new_with_attributes\<close> gives it: the ids follow
  the order of the emojis.
\<close>

record BattleEmo =
  bt_base_id :: u16
  bt_typ :: emo_Typ
  bt_attributes :: emo_Attributes
  bt_attack_and_survived_count :: u8

type_synonym march =
  "BattleEmo list \<Rightarrow> BattleEmo list \<Rightarrow> u64 \<Rightarrow> emo_Bases \<Rightarrow> (u8 \<times> u8 \<times> mtc_battle_Logs) js"

definition new_with_attributes :: "emo_Base \<Rightarrow> emo_Attributes \<Rightarrow> BattleEmo" where
  "new_with_attributes base attributes =
     \<lparr>bt_base_id = eb_id base, bt_typ = eb_typ base, bt_attributes = attributes,
      bt_attack_and_survived_count = 0\<rparr>"

text \<open>One function for the board of a player and that of a ghost, which the code has twice.\<close>

definition build_battle_emos :: "'a mtc_GhostBoardEmo_scheme list \<Rightarrow> emo_Bases \<Rightarrow> BattleEmo list js" where
  "build_battle_emos board emo_bases =
     mapE (\<lambda>e. mapR (\<lambda>base. new_with_attributes base (be_attributes e))
                 (find_base emo_bases (be_base_id e))) board"

definition march_pvg ::
  "march \<Rightarrow> mtc_Board \<Rightarrow> mtc_GhostBoard \<Rightarrow> u64 \<Rightarrow> emo_Bases \<Rightarrow> (u8 \<times> u8 \<times> mtc_battle_Logs) js" where
  "march_pvg march board ghost_board seed emo_bases =
     bindE (build_battle_emos board emo_bases) (\<lambda>emos0.
     bindE (build_battle_emos ghost_board emo_bases) (\<lambda>emos1.
       march emos0 emos1 seed emo_bases))"

definition march_gvg ::
  "march \<Rightarrow> mtc_GhostBoard \<Rightarrow> mtc_GhostBoard \<Rightarrow> u64 \<Rightarrow> emo_Bases \<Rightarrow> (u8 \<times> u8 \<times> mtc_battle_Logs) js"
where
  "march_gvg march ghost_board0 ghost_board1 seed emo_bases =
     bindE (build_battle_emos ghost_board0 emo_bases) (\<lambda>emos0.
     bindE (build_battle_emos ghost_board1 emo_bases) (\<lambda>emos1.
       march emos0 emos1 seed emo_bases))"

definition EMPTY_GRADE_AND_GHOST_BOARD :: mtc_GradeAndGhostBoard where
  "EMPTY_GRADE_AND_GHOST_BOARD = \<lparr>gg_grade = 1, gg_board = []\<rparr>"

definition at_or_trap :: "'a list \<Rightarrow> nat \<Rightarrow> 'a js" where
  "at_or_trap xs i = (if i < length xs then Inr (xs ! i) else Inl WasmTrap)"

text \<open>The index of turn 0 is \<open>0 - 1\<close>, out of range.\<close>

definition get_grade_and_ghost_board ::
  "mtc_GradeAndGhostBoard list \<Rightarrow> mtc_GhostState \<Rightarrow> u8 \<Rightarrow> mtc_GradeAndGhostBoard js" where
  "get_grade_and_ghost_board grade_and_ghost_boards state turn =
     (let hist_len = word_of_nat (length grade_and_ghost_boards) :: u8 in
      if hist_len = 0 then Inr EMPTY_GRADE_AND_GHOST_BOARD
      else
        let effective_turn =
              (case state of
                 GhostState_Retired (mtc_GhostState_Retired final_turn) \<Rightarrow> min turn final_turn
               | _ \<Rightarrow> turn)
        in if effective_turn \<le> hist_len
           then if effective_turn = 0 then Inl WasmTrap
                else at_or_trap grade_and_ghost_boards (toNumber effective_turn - 1)
           else at_or_trap grade_and_ghost_boards (toNumber hist_len - 1))"

definition is_active :: "mtc_GhostState \<Rightarrow> bool" where
  "is_active s = (case s of GhostState_Active _ \<Rightarrow> True | _ \<Rightarrow> False)"

definition live_indexes :: "mtc_GhostState list \<Rightarrow> u8 list" where
  "live_indexes states =
     map (\<lambda>(i, _). word_of_nat i) (filter (\<lambda>(_, s). is_active s) (List.enumerate 0 states))"

definition select_battle_ghost_index ::
  "'rng rand_crate \<Rightarrow> mtc_GhostState list \<Rightarrow> u8 \<Rightarrow> u64 \<Rightarrow> u8 js" where
  "select_battle_ghost_index rand states previous_index seed =
     (let live = live_indexes states in
      if live = [] then throwError ''select_battle_ghost_index: live zero''
      else if length live = 1 then Inr (live ! 0)
      else
        case choose_one rand (seed_from_u64 rand seed) (filter (\<lambda>i. i \<noteq> previous_index) live) of
          None \<Rightarrow> throwError ''choose failed''
        | Some i \<Rightarrow> Inr i)"

definition damage_health :: "u8 \<Rightarrow> u8 \<Rightarrow> u8 \<Rightarrow> u8" where
  "damage_health board_grade grade health =
     (if board_grade > 0 then saturating_sub health (board_grade + grade) else health)"

definition damage_ghost_health :: "u8 \<Rightarrow> u8 \<Rightarrow> u8 \<Rightarrow> mtc_GhostState \<Rightarrow> mtc_GhostState" where
  "damage_ghost_health board_grade grade turn ghost_state =
     (case ghost_state of
        GhostState_Active (mtc_GhostState_Active health) \<Rightarrow>
          (let health = damage_health board_grade grade health in
           if health = 0 then GhostState_Retired (mtc_GhostState_Retired turn)
           else GhostState_Active (mtc_GhostState_Active health))
      | _ \<Rightarrow> ghost_state)"

definition battle_pvg ::
  "march \<Rightarrow> u8 \<Rightarrow> u8 \<Rightarrow> mtc_Board \<Rightarrow> mtc_GhostState \<Rightarrow> mtc_GradeAndGhostBoard list \<Rightarrow> u8 \<Rightarrow> u64 \<Rightarrow>
   emo_Bases \<Rightarrow> (u8 \<times> mtc_GhostState) js" where
  "battle_pvg march grade health board ghost_state ghost_history turn seed emo_bases =
     bindE (get_grade_and_ghost_board ghost_history ghost_state turn) (\<lambda>ghost.
     mapR (\<lambda>(player_board_grade, ghost_board_grade, logs).
         (damage_health ghost_board_grade (gg_grade ghost) health,
          damage_ghost_health player_board_grade grade turn ghost_state))
       (march_pvg march board (gg_board ghost) seed emo_bases))"

definition battle_gvg ::
  "march \<Rightarrow> mtc_GhostState \<Rightarrow> mtc_GradeAndGhostBoard list \<Rightarrow> mtc_GhostState \<Rightarrow>
   mtc_GradeAndGhostBoard list \<Rightarrow> u8 \<Rightarrow> u64 \<Rightarrow> emo_Bases \<Rightarrow> (mtc_GhostState \<times> mtc_GhostState) js" where
  "battle_gvg march ghost0_state ghost0_history ghost1_state ghost1_history turn seed emo_bases =
     bindE (get_grade_and_ghost_board ghost0_history ghost0_state turn) (\<lambda>ghost0.
     bindE (get_grade_and_ghost_board ghost1_history ghost1_state turn) (\<lambda>ghost1.
     mapR (\<lambda>(ghost0_board_grade, ghost1_board_grade, logs).
         (damage_ghost_health ghost1_board_grade (gg_grade ghost1) turn ghost0_state,
          damage_ghost_health ghost0_board_grade (gg_grade ghost0) turn ghost1_state))
       (march_gvg march (gg_board ghost0) (gg_board ghost1) seed emo_bases)))"

text \<open>
  The ghosts and their states are paired, the pair at the index is swapped to the front; \<open>order\<close>
  is where the pairs come from.
\<close>

definition battle_pvg_and_gvg ::
  "march \<Rightarrow> mtc_Board \<Rightarrow> u8 \<Rightarrow> u8 \<Rightarrow> mtc_Ghost list \<Rightarrow> mtc_GhostState list \<Rightarrow> u8 \<Rightarrow> u8 \<Rightarrow> u64 \<Rightarrow>
   emo_Bases \<Rightarrow> (u8 \<times> mtc_GhostState list) js" where
  "battle_pvg_and_gvg march board grade health ghosts ghost_states battle_ghost_index turn seed emo_bases =
     (let n = min (length ghosts) (length ghost_states); b = toNumber battle_ghost_index in
      if battle_ghost_index \<noteq> 0 \<and> n \<le> b then Inl WasmTrap
      else
        case swap_at 0 b [0..<n] of
          i0 # i1 # i2 # _ \<Rightarrow>
            bindE (battle_pvg march grade health board (ghost_states ! i0) (gh_history (ghosts ! i0))
                     turn seed emo_bases) (\<lambda>(health, s0).
            mapR (\<lambda>(s1, s2). (health, ghost_states[i0 := s0, i1 := s1, i2 := s2]))
              (battle_gvg march (ghost_states ! i1) (gh_history (ghosts ! i1)) (ghost_states ! i2)
                (gh_history (ghosts ! i2)) turn seed emo_bases))
        | [] \<Rightarrow> throwError ''failed to split ghost_sets 0''
        | [i0] \<Rightarrow> throwError ''failed to split ghost_sets 1''
        | [i0, i1] \<Rightarrow> throwError ''failed to split ghost_sets 2'')"

definition calc_final_place_step ::
  "u8 \<Rightarrow> u8 \<Rightarrow> mtc_GhostState \<times> mtc_GhostState \<Rightarrow> u8" where
  "calc_final_place_step pre_health place p =
     (case p of (ghost_state, pre_ghost_state) \<Rightarrow>
        if is_active ghost_state then place + 1
        else case pre_ghost_state of
          GhostState_Active (mtc_GhostState_Active g_health) \<Rightarrow>
            if g_health > pre_health then place + 1 else place
        | _ \<Rightarrow> place)"

definition calc_final_place :: "u8 \<Rightarrow> u8 \<Rightarrow> mtc_GhostState list \<Rightarrow> mtc_GhostState list \<Rightarrow> u8 option" where
  "calc_final_place health pre_health ghost_states pre_ghost_states =
     (let are_all_ghosts_retired = list_all (\<lambda>s. \<not> is_active s) ghost_states in
      if health = 0 \<or> are_all_ghosts_retired
      then if are_all_ghosts_retired then Some 1
           else Some (foldl (calc_final_place_step pre_health) 1 (zip ghost_states pre_ghost_states))
      else None)"

definition first_active :: "mtc_GhostState list \<Rightarrow> nat option" where
  "first_active states = map_option fst (find (\<lambda>(i, s). is_active s) (List.enumerate 0 states))"

definition battle_all ::
  "march \<Rightarrow> mtc_Board \<Rightarrow> u8 \<Rightarrow> mtc_GhostState list \<Rightarrow> u8 \<Rightarrow> mtc_Ghost list \<Rightarrow> u8 \<Rightarrow> u8 \<Rightarrow> u64 \<Rightarrow>
   emo_Bases \<Rightarrow> (u8 \<times> mtc_GhostState list \<times> u8 option) js" where
  "battle_all march board health ghost_states grade ghosts battle_ghost_index turn seed emo_bases =
     mapR (\<lambda>(h, states). (h, states, calc_final_place h health states ghost_states))
       (if length (filter is_active ghost_states) > 1
        then battle_pvg_and_gvg march board grade health ghosts ghost_states battle_ghost_index turn
               seed emo_bases
        else case first_active ghost_states of
          None \<Rightarrow> throwError ''battle_all: invalid''
        | Some i \<Rightarrow>
            bindE (at_or_trap ghosts i) (\<lambda>ghost.
            mapR (\<lambda>(h, s). (h, ghost_states[i := s]))
              (battle_pvg march grade health board (ghost_states ! i) (gh_history ghost) turn seed
                emo_bases)))"

section \<open>The exports and their wrappers (lib.rs, wasm/index.ts)\<close>

definition unwrap :: "'a js \<Rightarrow> 'a js" where
  "unwrap r = (case r of Inl (JsError m) \<Rightarrow> Inl WasmTrap | r \<Rightarrow> r)"

definition with_seed :: "string \<Rightarrow> (u64 \<Rightarrow> 'a js) \<Rightarrow> 'a js" where
  "with_seed seed f = (case parse_u64 seed of None \<Rightarrow> Inl WasmTrap | Some n \<Rightarrow> unwrap (f n))"

definition getCatalog :: "'rng rand_crate \<Rightarrow> mtc_Emo list \<Rightarrow> mtc_Board \<Rightarrow> string \<Rightarrow> mtc_shop_Catalog js" where
  "getCatalog rand pool board seed = with_seed seed (get_catalog rand pool board)"

text \<open>
  \<open>Uint16Array.from\<close> of the parsed ids: what is no number is \<open>NaN\<close>, stored as 0, and a number is
  taken modulo 2^16.
\<close>

definition toUint16 :: "string \<Rightarrow> u16" where
  "toUint16 s = (case parseInt10 s of None \<Rightarrow> 0 | Some n \<Rightarrow> word_of_nat n)"

definition buildPool ::
  "string list \<Rightarrow> EmoBases \<Rightarrow> string list \<Rightarrow> string list \<Rightarrow> mtc_Emo list js" where
  "buildPool selectedBuiltBaseIds emoBases fixedBaseIds builtBaseIds =
     unwrap (build_pool (map toUint16 selectedBuiltBaseIds) (bs_codec emoBases)
       (map toUint16 fixedBaseIds) (map toUint16 builtBaseIds))"

definition getGradeAndGhostBoard ::
  "mtc_GradeAndGhostBoard list \<Rightarrow> mtc_GhostState \<Rightarrow> nat \<Rightarrow> mtc_GradeAndGhostBoard js" where
  "getGradeAndGhostBoard gradeAndGhostBoards ghostState turn =
     get_grade_and_ghost_board gradeAndGhostBoards ghostState (word_of_nat turn)"

definition selectBattleGhostIndex ::
  "'rng rand_crate \<Rightarrow> mtc_GhostState list \<Rightarrow> nat \<Rightarrow> string \<Rightarrow> nat js" where
  "selectBattleGhostIndex rand ghostStates previousIndex seed =
     mapR toNumber
       (with_seed seed (select_battle_ghost_index rand ghostStates (word_of_nat previousIndex)))"

definition marchPvg ::
  "march \<Rightarrow> mtc_Board \<Rightarrow> mtc_GhostBoard \<Rightarrow> string \<Rightarrow> EmoBases \<Rightarrow> (nat \<times> nat \<times> mtc_battle_Logs) js" where
  "marchPvg march board ghostBoard seed emoBases =
     mapR (\<lambda>(boardGrade, ghostBoardGrade, logs). (toNumber boardGrade, toNumber ghostBoardGrade, logs))
       (with_seed seed (\<lambda>n. march_pvg march board ghostBoard n (bs_codec emoBases)))"

definition battleAll ::
  "march \<Rightarrow> mtc_Board \<Rightarrow> nat \<Rightarrow> nat \<Rightarrow> mtc_Ghost list \<Rightarrow> mtc_GhostState list \<Rightarrow> nat \<Rightarrow> nat \<Rightarrow> string \<Rightarrow>
   EmoBases \<Rightarrow> (nat \<times> mtc_GhostState list \<times> u8 option) js" where
  "battleAll march board grade health ghosts ghostStates battleGhostIndex turn seed emoBases =
     mapR (\<lambda>(h, states, place). (toNumber h, states, place))
       (with_seed seed (\<lambda>n. battle_all march board (word_of_nat health) ghostStates
          (word_of_nat grade) ghosts (word_of_nat battleGhostIndex) (word_of_nat turn) n
          (bs_codec emoBases)))"

end
