(* ===== verification/RustBattle.thy ===== *)
theory RustBattle
  imports RustMatch
begin

text \<open>
  The fight of two boards in Rust: \<open>common/rs/src/mtc/battle/march.rs\<close>, \<open>board.rs\<close> and \<open>common.rs\<close>.
  Conventions are those of \<open>RustShop\<close>: an \<open>Err\<close> is a \<open>JsError\<close>, a panic is \<open>WasmTrap\<close>, integers are
  words with the arithmetic of the release build, every log is kept (feature \<open>view-logs\<close>). The two
  boards, the logs, the generator of random numbers and the counter of ids, which the code passes as
  mutable references or keeps in a static, are one record. Emojis are named by their index, and the
  abilities of a board are collected with the indexes of the moment before their actions run.

  An action may retire or set emojis, whose abilities are further actions. The functions of that
  recursion take the one that runs an action (\<open>call_ability_normal_action\<close>) as an argument; the knot is
  tied at the end with a bound on the depth, at whose end the stack of the module overflows
  (\<open>JsRangeError\<close>).
\<close>

section \<open>Emojis and boards (common.rs)\<close>

text \<open>A \<open>BattleEmo\<close> with its id, which is unique in a battle.\<close>

record Fighter = BattleEmo +
  bt_id :: u16

record 'rng battle_state =
  ba_boards :: "Fighter list list"
  ba_logs :: mtc_battle_Logs
  ba_rng :: 'rng
  ba_next_id :: u16

text \<open>
  The \<open>rand\<close> crate: the generator of a seed, \<open>gen\<close> of a boolean, \<open>gen_range\<close> below a bound that is not
  zero, the \<open>choose\<close> of a list that is not empty, \<open>choose_multiple\<close> and \<open>shuffle\<close>.
\<close>

record 'rng battle_rand =
  br_seed :: "u64 \<Rightarrow> 'rng"
  br_bool :: "'rng \<Rightarrow> bool \<times> 'rng"
  br_range :: "'rng \<Rightarrow> u8 \<Rightarrow> u8 \<times> 'rng"
  br_choose :: "'rng \<Rightarrow> u8 list \<Rightarrow> u8 \<times> 'rng"
  br_choose_multiple :: "'rng \<Rightarrow> nat \<Rightarrow> u8 list \<Rightarrow> u8 list \<times> 'rng"
  br_shuffle :: "'rng \<Rightarrow> u8 list \<Rightarrow> u8 list \<times> 'rng"

definition draw :: "('rng \<Rightarrow> 'a \<times> 'rng) \<Rightarrow> 'rng battle_state \<Rightarrow> 'a \<times> 'rng battle_state" where
  "draw f s = (let (a, rng) = f (ba_rng s) in (a, s\<lparr>ba_rng := rng\<rparr>))"

definition generate_battle_emo_id :: "'rng battle_state \<Rightarrow> u16 \<times> 'rng battle_state" where
  "generate_battle_emo_id s = (ba_next_id s, s\<lparr>ba_next_id := ba_next_id s + 1\<rparr>)"

definition with_battle_id :: "BattleEmo \<Rightarrow> u16 \<Rightarrow> Fighter" where
  "with_battle_id e i = BattleEmo.extend e (Fighter.fields i)"

definition battle_new_with_base ::
  "emo_Base \<Rightarrow> bool \<Rightarrow> 'rng battle_state \<Rightarrow> Fighter \<times> 'rng battle_state" where
  "battle_new_with_base base is_triple s =
     (let (i, s) = generate_battle_emo_id s in
      (with_battle_id (new_with_attributes base (build_emo_attributes base is_triple)) i, s))"

text \<open>\<open>zip(0u8..)\<close>\<close>

definition indexed :: "'a list \<Rightarrow> (u8 \<times> 'a) list" where
  "indexed xs = zip (map word_of_nat [0..<length xs]) xs"

definition battle_of :: "emo_ability_Ability \<Rightarrow> emo_ability_battle_Battle option" where
  "battle_of ability = (case ability of Ability_Battle b \<Rightarrow> Some b | _ \<Rightarrow> None)"

definition get_abilities :: "Fighter \<Rightarrow> (u8 \<times> emo_ability_battle_Battle) list" where
  "get_abilities e =
     List.map_filter (\<lambda>(i, ability). map_option (Pair i) (battle_of ability))
       (indexed (at_abilities (bt_attributes e)))"

definition get_board :: "'rng battle_state \<Rightarrow> u8 \<Rightarrow> Fighter list js" where
  "get_board s player_index =
     (case js_at (ba_boards s) (toNumber player_index) of
        None \<Rightarrow> throwError (''board not found: '' @ toStringU player_index) | Some b \<Rightarrow> Inr b)"

definition get_board_mut :: "'rng battle_state \<Rightarrow> u8 \<Rightarrow> Fighter list js" where
  "get_board_mut s player_index =
     (case js_at (ba_boards s) (toNumber player_index) of
        None \<Rightarrow> throwError (''board mut not found: '' @ toStringU player_index) | Some b \<Rightarrow> Inr b)"

definition put_board :: "u8 \<Rightarrow> Fighter list \<Rightarrow> 'rng battle_state \<Rightarrow> 'rng battle_state" where
  "put_board player_index b s = s\<lparr>ba_boards := (ba_boards s)[toNumber player_index := b]\<rparr>"

definition is_empty_board :: "'rng battle_state \<Rightarrow> u8 \<Rightarrow> bool js" where
  "is_empty_board s player_index = mapR (\<lambda>b. b = []) (get_board s player_index)"

definition count_board_emos :: "'rng battle_state \<Rightarrow> u8 \<Rightarrow> u8 js" where
  "count_board_emos s player_index = mapR (\<lambda>b. word_of_nat (length b)) (get_board s player_index)"

definition battle_get_emo :: "'rng battle_state \<Rightarrow> u8 \<Rightarrow> u8 \<Rightarrow> Fighter js" where
  "battle_get_emo s player_index emo_index =
     bindE (get_board s player_index) (\<lambda>b.
       case js_at b (toNumber emo_index) of
         None \<Rightarrow> throwError (''emo not found: '' @ toStringU emo_index) | Some e \<Rightarrow> Inr e)"

definition get_emo_mut :: "'rng battle_state \<Rightarrow> u8 \<Rightarrow> u8 \<Rightarrow> Fighter js" where
  "get_emo_mut s player_index emo_index =
     bindE (get_board_mut s player_index) (\<lambda>b.
       case js_at b (toNumber emo_index) of
         None \<Rightarrow> throwError (''emo mut not found: '' @ toStringU emo_index) | Some e \<Rightarrow> Inr e)"

text \<open>What is written through the reference \<open>get_emo_mut\<close> returns.\<close>

definition put_emo :: "u8 \<Rightarrow> u8 \<Rightarrow> Fighter \<Rightarrow> 'rng battle_state \<Rightarrow> 'rng battle_state" where
  "put_emo player_index emo_index e s =
     put_board player_index ((ba_boards s ! toNumber player_index)[toNumber emo_index := e]) s"

definition find_emo_index_by_id :: "'rng battle_state \<Rightarrow> u8 \<Rightarrow> u16 \<Rightarrow> u8 option js" where
  "find_emo_index_by_id s player_index emo_id =
     mapR (\<lambda>b. map_option fst (find (\<lambda>(i, e). bt_id e = emo_id) (indexed b))) (get_board s player_index)"

definition has_emo_at_index :: "'rng battle_state \<Rightarrow> u8 \<Rightarrow> u8 \<Rightarrow> bool js" where
  "has_emo_at_index s player_index emo_index =
     mapR (\<lambda>n. n > emo_index) (count_board_emos s player_index)"

definition board_abilities_of :: "Fighter list \<Rightarrow> (u8 \<times> emo_ability_battle_Battle) list" where
  "board_abilities_of b =
     concat (map (\<lambda>(i, e). map (Pair i) (List.map_filter battle_of (at_abilities (bt_attributes e)))) (indexed b))"

definition get_board_abilities ::
  "'rng battle_state \<Rightarrow> u8 \<Rightarrow> (u8 \<times> emo_ability_battle_Battle) list js" where
  "get_board_abilities s player_index = mapR board_abilities_of (get_board s player_index)"

definition battle_log :: "mtc_battle_Log \<Rightarrow> 'rng battle_state \<Rightarrow> 'rng battle_state" where
  "battle_log l s = s\<lparr>ba_logs := ba_logs s @ [l]\<rparr>"

definition switch_player_index :: "u8 \<Rightarrow> u8" where
  "switch_player_index i = (if i = 0 then 1 else 0)"

definition is_matched_typ_and_triple_for_emo ::
  "emo_ability_TypOptAndIsTripleOpt \<Rightarrow> Fighter \<Rightarrow> bool" where
  "is_matched_typ_and_triple_for_emo typ_and_triple e =
     is_matched_typ_and_triple typ_and_triple (bt_typ e) (at_is_triple (bt_attributes e))"

section \<open>Who is attacked (board.rs)\<close>

definition fighter_has :: "emo_ability_battle_Special \<Rightarrow> Fighter \<Rightarrow> bool" where
  "fighter_has special e = has_special special (at_abilities (bt_attributes e))"

text \<open>The first emoji of those that attacked and survived least; the read of \<open>emos[0]\<close> panics on no emoji.\<close>

definition get_attack_emo_index :: "Fighter list \<Rightarrow> u8 js" where
  "get_attack_emo_index emos =
     (case indexed emos of
        [] \<Rightarrow> Inl WasmTrap
      | (i, e) # rest \<Rightarrow> Inr (fst (foldl (\<lambda>(index, min_count) (i, e).
            if min_count > bt_attack_and_survived_count e then (i, bt_attack_and_survived_count e)
            else (index, min_count)) (i, bt_attack_and_survived_count e) rest)))"

text \<open>The list that is drawn from: a new lowest attack enters it by both tests of the loop.\<close>

definition lowest_attack_step :: "u8 list \<times> u16 \<Rightarrow> u8 \<times> Fighter \<Rightarrow> u8 list \<times> u16" where
  "lowest_attack_step acc ie =
     (case acc of (indexes, lowest) \<Rightarrow> case ie of (i, e) \<Rightarrow>
        let attack = at_attack (bt_attributes e);
            (indexes, lowest) = (if lowest > attack then ([i], attack) else (indexes, lowest))
        in (if lowest = attack then indexes @ [i] else indexes, lowest))"

definition lowest_attack_emo_indexes :: "Fighter list \<Rightarrow> u8 list js" where
  "lowest_attack_emo_indexes emos =
     (case indexed emos of
        [] \<Rightarrow> throwError ''emos[0] not found''
      | (_, e) # rest \<Rightarrow> Inr (fst (foldl lowest_attack_step ([0], at_attack (bt_attributes e)) rest)))"

definition get_lowest_attack_emo_index ::
  "'rng battle_rand \<Rightarrow> Fighter list \<Rightarrow> 'rng battle_state \<Rightarrow> (u8 \<times> 'rng battle_state) js" where
  "get_lowest_attack_emo_index rand emos s =
     bindE (lowest_attack_emo_indexes emos) (\<lambda>indexes.
       if indexes = [] then throwError ''choose none for lowest''
       else Inr (draw (\<lambda>rng. br_choose rand rng indexes) s))"

definition attractive_emo_indexes :: "Fighter list \<Rightarrow> u8 list" where
  "attractive_emo_indexes emos = map fst (filter (\<lambda>(i, e). fighter_has Special_Attractive e) (indexed emos))"

definition get_defense_emo_index ::
  "'rng battle_rand \<Rightarrow> Fighter list \<Rightarrow> bool \<Rightarrow> 'rng battle_state \<Rightarrow> (u8 \<times> 'rng battle_state) js" where
  "get_defense_emo_index rand emos is_lowest_attack s =
     (if is_lowest_attack then get_lowest_attack_emo_index rand emos s
      else if attractive_emo_indexes emos \<noteq> []
      then Inr (draw (\<lambda>rng. br_choose rand rng (attractive_emo_indexes emos)) s)
      else if emos = [] then Inl WasmTrap
      else Inr (draw (\<lambda>rng. br_range rand rng (word_of_nat (length emos))) s))"

definition get_attack_and_defense_emo_indexes ::
  "'rng battle_rand \<Rightarrow> u8 \<Rightarrow> 'rng battle_state \<Rightarrow> (u8 \<times> u8 \<times> 'rng battle_state) js" where
  "get_attack_and_defense_emo_indexes rand attack_player_index s =
     bindE (get_board s attack_player_index) (\<lambda>b.
     bindE (get_attack_emo_index b) (\<lambda>attack_emo_index.
     bindE (battle_get_emo s attack_player_index attack_emo_index) (\<lambda>e.
     bindE (get_board s (switch_player_index attack_player_index)) (\<lambda>d.
       mapR (Pair attack_emo_index)
         (get_defense_emo_index rand d (fighter_has Special_AttackLowestAttack e) s)))))"

section \<open>Whom an action is for\<close>

definition not_oneself :: "u8 \<Rightarrow> bool \<Rightarrow> Fighter list \<Rightarrow> (u8 \<times> Fighter) list" where
  "not_oneself emo_index is_action_emo_retired board =
     filter (\<lambda>(i, e). is_action_emo_retired \<or> i \<noteq> emo_index) (indexed board)"

definition get_matched_emo_indexs_from_board ::
  "Fighter list \<Rightarrow> u8 \<Rightarrow> emo_ability_Target \<Rightarrow> bool \<Rightarrow> u8 list js" where
  "get_matched_emo_indexs_from_board board emo_index target is_action_emo_retired =
     (case target of
        Target_Oneself \<Rightarrow> Inr (if is_action_emo_retired then [] else [emo_index])
      | Target_Others (emo_ability_Target_Others destination typ_and_triple) \<Rightarrow>
          mapR (\<lambda>emos_with_index. map fst
              (filter (\<lambda>(i, e). is_matched_typ_and_triple_for_emo typ_and_triple e) emos_with_index))
            (case destination of
               Destination_Right \<Rightarrow>
                 mapR (\<lambda>index. case js_at board (toNumber index) of Some e \<Rightarrow> [(index, e)] | None \<Rightarrow> [])
                   (if is_action_emo_retired then Inr emo_index
                    else if emo_index = - 1 then throwError ''failed checked_add''
                    else Inr (emo_index + 1))
             | Destination_Left \<Rightarrow>
                 if emo_index = 0 then Inr []
                 else (case js_at board (toNumber (emo_index - 1)) of
                     Some e \<Rightarrow> Inr [(emo_index - 1, e)]
                   | None \<Rightarrow> throwError ''left emo not found, invalid state'')
             | Destination_All \<Rightarrow> Inr (not_oneself emo_index is_action_emo_retired board)))"

definition choose_and_shuffle ::
  "'rng battle_rand \<Rightarrow> nat \<Rightarrow> u8 list \<Rightarrow> 'rng \<Rightarrow> u8 list \<times> 'rng" where
  "choose_and_shuffle rand n indexes rng =
     (let (v, rng) = br_choose_multiple rand rng n indexes in br_shuffle rand rng v)"

definition get_matched_emo_indexs_from_board_by_target_or_random ::
  "'rng battle_rand \<Rightarrow> Fighter list \<Rightarrow> u8 \<Rightarrow> emo_ability_TargetOrRandom \<Rightarrow> bool \<Rightarrow> 'rng battle_state \<Rightarrow>
   (u8 list \<times> 'rng battle_state) js" where
  "get_matched_emo_indexs_from_board_by_target_or_random rand board emo_index target_or_random
     is_action_emo_retired s =
     (case target_or_random of
        TargetOrRandom_Target t \<Rightarrow>
          mapR (\<lambda>indexes. (indexes, s))
            (get_matched_emo_indexs_from_board board emo_index t is_action_emo_retired)
      | TargetOrRandom_Random (emo_ability_TargetOrRandom_Random typ_and_triple n) \<Rightarrow>
          Inr (draw (choose_and_shuffle rand (toNumber n)
            (map fst (filter (\<lambda>(i, e). is_matched_typ_and_triple_for_emo typ_and_triple e)
              (not_oneself emo_index is_action_emo_retired board)))) s))"

section \<open>Changes of an emoji\<close>

definition increase_emo_stats ::
  "u8 \<Rightarrow> u16 \<Rightarrow> u16 \<Rightarrow> 'rng battle_state \<Rightarrow> u8 \<Rightarrow> 'rng battle_state js" where
  "increase_emo_stats player_index attack health s emo_index =
     (if attack = 0 \<and> health = 0 then Inr s
      else mapR (\<lambda>e.
        let a = bt_attributes e;
            calculated_attack = saturating_add (at_attack a) attack;
            calculated_health = saturating_add (at_health a) health
        in battle_log (Log_IncreaseStats \<lparr>ls_player_index = player_index, ls_emo_index = emo_index,
              ls_attack = attack, ls_health = health, ls_calculated_attack = calculated_attack,
              ls_calculated_health = calculated_health\<rparr>)
            (put_emo player_index emo_index
              (e\<lparr>bt_attributes := a\<lparr>at_attack := calculated_attack, at_health := calculated_health\<rparr>\<rparr>) s))
        (get_emo_mut s player_index emo_index))"

definition decrease_emo_stats ::
  "u8 \<Rightarrow> u16 \<Rightarrow> u16 \<Rightarrow> 'rng battle_state \<Rightarrow> u8 \<Rightarrow> 'rng battle_state js" where
  "decrease_emo_stats player_index attack health s emo_index =
     (if attack = 0 \<and> health = 0 then Inr s
      else mapR (\<lambda>e.
        let a = bt_attributes e;
            calculated_attack = max (saturating_sub (at_attack a) attack) 1;
            calculated_health = max (saturating_sub (at_health a) health) 1
        in battle_log (Log_DecreaseStats \<lparr>ls_player_index = player_index, ls_emo_index = emo_index,
              ls_attack = attack, ls_health = health, ls_calculated_attack = calculated_attack,
              ls_calculated_health = calculated_health\<rparr>)
            (put_emo player_index emo_index
              (e\<lparr>bt_attributes := a\<lparr>at_attack := calculated_attack, at_health := calculated_health\<rparr>\<rparr>) s))
        (get_emo_mut s player_index emo_index))"

definition is_special :: "emo_ability_battle_Battle \<Rightarrow> bool" where
  "is_special ability = (case ability of Battle_Special _ \<Rightarrow> True | _ \<Rightarrow> False)"

text \<open>An emoji has 255 abilities at most, and a special once.\<close>

definition add_ability_to_emo ::
  "emo_ability_battle_Battle \<Rightarrow> u8 \<Rightarrow> 'rng battle_state \<Rightarrow> u8 \<Rightarrow> 'rng battle_state js" where
  "add_ability_to_emo battle_ability player_index s emo_index =
     mapR (\<lambda>e.
       let a = bt_attributes e; ability = Ability_Battle battle_ability in
       if length (at_abilities a) \<ge> 255 then s
       else if is_special battle_ability \<and> ability \<in> set (at_abilities a) then s
       else battle_log (Log_AddBattleAbility
           (mtc_battle_Log_AddBattleAbility player_index emo_index battle_ability (at_is_triple a)))
         (put_emo player_index emo_index
           (e\<lparr>bt_attributes := a\<lparr>at_abilities := at_abilities a @ [ability]\<rparr>\<rparr>) s))
       (get_emo_mut s player_index emo_index)"

section \<open>Actions, with the function that runs one as an argument\<close>

text \<open>
  The arguments of \<open>call_ability_normal_action\<close>: the player, the action, the index of its emoji, the
  emoji itself when it has retired, and whether the action is a triple's.
\<close>

type_synonym 'rng caller =
  "u8 \<Rightarrow> emo_ability_battle_NormalAction \<Rightarrow> u8 \<Rightarrow> Fighter option \<Rightarrow> bool \<Rightarrow> 'rng battle_state \<Rightarrow>
   'rng battle_state js"

definition call_ability_normal_action_as_oneself ::
  "'rng caller \<Rightarrow> u8 \<Rightarrow> emo_ability_battle_NormalAction \<Rightarrow> u8 \<Rightarrow> Fighter option \<Rightarrow> 'rng battle_state \<Rightarrow>
   'rng battle_state js" where
  "call_ability_normal_action_as_oneself act player_index action action_emo_index retired s =
     bindE (case retired of
         Some e \<Rightarrow> Inr e
       | None \<Rightarrow> battle_get_emo s player_index action_emo_index) (\<lambda>e.
       act player_index action action_emo_index retired (at_is_triple (bt_attributes e)) s)"

definition retire_actions :: "Fighter \<Rightarrow> emo_ability_battle_NormalAction list" where
  "retire_actions e =
     List.map_filter (\<lambda>(i, ability). case ability of
         Battle_General (General_AsOneself
           (emo_ability_battle_General_AsOneself GeneralAsOneselfTrigger_Retire action)) \<Rightarrow> Some action
       | _ \<Rightarrow> None) (get_abilities e)"

definition trigger_retire_actions ::
  "'rng caller \<Rightarrow> u8 \<Rightarrow> u8 \<Rightarrow> Fighter option \<Rightarrow> u8 \<Rightarrow> 'rng battle_state \<Rightarrow> 'rng battle_state js" where
  "trigger_retire_actions act player_index ally_emo_index retired oneself_emo_index s =
     bindE (case retired of
         Some e \<Rightarrow> Inr e
       | None \<Rightarrow> battle_get_emo s player_index ally_emo_index) (\<lambda>ally_emo.
     bindE (battle_get_emo s player_index oneself_emo_index) (\<lambda>oneself.
       foldE (\<lambda>s action.
           let f = call_ability_normal_action_as_oneself act player_index action ally_emo_index retired
           in bindE (if at_is_triple (bt_attributes oneself) then f s else Inr s) f)
         s (retire_actions ally_emo)))"

definition call_ability_general_as_ally_action ::
  "'rng caller \<Rightarrow> u8 \<Rightarrow> emo_ability_battle_GeneralAsAllyAction \<Rightarrow> u8 \<Rightarrow> Fighter option \<Rightarrow> u8 \<Rightarrow>
   'rng battle_state \<Rightarrow> 'rng battle_state js" where
  "call_ability_general_as_ally_action act player_index action ally_emo_index retired oneself_emo_index s =
     (case action of
        GeneralAsAllyAction_OneselfTripleNormal normal_action \<Rightarrow>
          bindE (battle_get_emo s player_index oneself_emo_index) (\<lambda>e.
            act player_index normal_action ally_emo_index retired (at_is_triple (bt_attributes e)) s)
      | GeneralAsAllyAction_Custom AsAllyAction_TriggerRetireActions \<Rightarrow>
          trigger_retire_actions act player_index ally_emo_index retired oneself_emo_index s)"

subsection \<open>Shields\<close>

definition shield_removed_action ::
  "'rng battle_state \<Rightarrow> u8 \<Rightarrow> Fighter \<Rightarrow> u8 \<Rightarrow> emo_ability_battle_Battle \<Rightarrow>
   emo_ability_battle_NormalAction option js" where
  "shield_removed_action s player_index removed emo_index battle_ability =
     (case battle_ability of
        Battle_General (General_AsOneself (emo_ability_battle_General_AsOneself
          (GeneralAsOneselfTrigger_AllyBattleAbilityRemoved
            (emo_ability_battle_GeneralAsOneselfTrigger_AllyBattleAbilityRemoved
              typ_and_triple excludes_same_base ability)) action)) \<Rightarrow>
          if ability \<noteq> Battle_Special Special_Shield \<or>
            \<not> is_matched_typ_and_triple_for_emo typ_and_triple removed then Inr None
          else if excludes_same_base
          then mapR (\<lambda>e. if bt_base_id removed = bt_base_id e then None else Some action)
                 (battle_get_emo s player_index emo_index)
          else Inr (Some action)
      | _ \<Rightarrow> Inr None)"

definition call_shield_removed_ability ::
  "'rng caller \<Rightarrow> u8 \<Rightarrow> u8 \<Rightarrow> 'rng battle_state \<Rightarrow> 'rng battle_state js" where
  "call_shield_removed_ability act player_index shield_removed_emo_index s =
     bindE (battle_get_emo s player_index shield_removed_emo_index) (\<lambda>removed.
     bindE (get_board_abilities s player_index)
       (foldE (\<lambda>s (emo_index, battle_ability).
          bindE (shield_removed_action s player_index removed emo_index battle_ability) (\<lambda>o'.
            case o' of
              None \<Rightarrow> Inr s
            | Some action \<Rightarrow>
                call_ability_normal_action_as_oneself act player_index action emo_index None s)) s))"

definition remove_shield ::
  "'rng caller \<Rightarrow> u8 \<Rightarrow> u8 \<Rightarrow> u8 \<Rightarrow> 'rng battle_state \<Rightarrow> 'rng battle_state js" where
  "remove_shield act player_index emo_index shield_ability_index s =
     bindE (get_emo_mut s player_index emo_index) (\<lambda>e.
       let a = bt_attributes e; k = toNumber shield_ability_index in
       if k \<ge> length (at_abilities a) then Inl WasmTrap
       else case battle_of (at_abilities a ! k) of
           None \<Rightarrow> throwError ''should be battle ability''
         | Some battle_ability \<Rightarrow>
             call_shield_removed_ability act player_index emo_index
               (battle_log (Log_RemoveBattleAbility (mtc_battle_Log_RemoveBattleAbility
                  player_index emo_index shield_ability_index battle_ability))
                (put_emo player_index emo_index
                  (e\<lparr>bt_attributes := a\<lparr>at_abilities :=
                     take k (at_abilities a) @ drop (Suc k) (at_abilities a)\<rparr>\<rparr>) s)))"

text \<open>The state and whether there was a shield.\<close>

definition remove_shield_if_exist ::
  "'rng caller \<Rightarrow> u8 \<Rightarrow> u8 \<Rightarrow> 'rng battle_state \<Rightarrow> (bool \<times> 'rng battle_state) js" where
  "remove_shield_if_exist act player_index emo_index s =
     bindE (battle_get_emo s player_index emo_index) (\<lambda>e.
       case find (\<lambda>(i, ability). ability = Battle_Special Special_Shield) (get_abilities e) of
         None \<Rightarrow> Inr (False, s)
       | Some (ability_index, _) \<Rightarrow>
           mapR (Pair True) (remove_shield act player_index emo_index ability_index s))"

subsection \<open>Damage and retirement\<close>

definition ally_retire_action ::
  "Fighter \<Rightarrow> emo_ability_battle_Battle \<Rightarrow> emo_ability_battle_GeneralAsAllyAction option" where
  "ally_retire_action retired ability =
     (case ability of
        Battle_General (General_AsAlly (emo_ability_battle_General_AsAlly
          (GeneralAsAllyTrigger_AllyRetire
            (emo_ability_battle_GeneralAsAllyTrigger_AllyRetire typ_and_triple)) action)) \<Rightarrow>
          if is_matched_typ_and_triple_for_emo typ_and_triple retired then Some action else None
      | _ \<Rightarrow> None)"

definition oneself_ally_retire_action ::
  "Fighter \<Rightarrow> emo_ability_battle_Battle \<Rightarrow> emo_ability_battle_NormalAction option" where
  "oneself_ally_retire_action retired ability =
     (case ability of
        Battle_General (General_AsOneself (emo_ability_battle_General_AsOneself
          (GeneralAsOneselfTrigger_AllyRetire
            (emo_ability_battle_GeneralAsOneselfTrigger_AllyRetire typ_and_triple)) action)) \<Rightarrow>
          if is_matched_typ_and_triple_for_emo typ_and_triple retired then Some action else None
      | _ \<Rightarrow> None)"

definition rival_retire_action ::
  "Fighter \<Rightarrow> emo_ability_battle_Battle \<Rightarrow> emo_ability_battle_NormalAction option" where
  "rival_retire_action retired ability =
     (case ability of
        Battle_General (General_AsOneself (emo_ability_battle_General_AsOneself
          (GeneralAsOneselfTrigger_RivalRetire
            (emo_ability_battle_GeneralAsOneselfTrigger_RivalRetire typ_and_triple)) action)) \<Rightarrow>
          if is_matched_typ_and_triple_for_emo typ_and_triple retired then Some action else None
      | _ \<Rightarrow> None)"

text \<open>The loops over collected abilities: each that gives an action runs it.\<close>

definition for_abilities ::
  "(emo_ability_battle_Battle \<Rightarrow> 'a option) \<Rightarrow> (u8 \<Rightarrow> 'a \<Rightarrow> 'rng battle_state \<Rightarrow> 'rng battle_state js) \<Rightarrow>
   (u8 \<times> emo_ability_battle_Battle) list \<Rightarrow> 'rng battle_state \<Rightarrow> 'rng battle_state js" where
  "for_abilities action_of f abilities s =
     foldE (\<lambda>s (emo_index, ability).
       case action_of ability of None \<Rightarrow> Inr s | Some action \<Rightarrow> f emo_index action s) s abilities"

definition call_emo_retire_player_abilities ::
  "'rng caller \<Rightarrow> u8 \<Rightarrow> u8 \<Rightarrow> Fighter \<Rightarrow> 'rng battle_state \<Rightarrow> 'rng battle_state js" where
  "call_emo_retire_player_abilities act player_index retired_emo_index retired s =
     bindE (foldE (\<lambda>s action.
         call_ability_normal_action_as_oneself act player_index action retired_emo_index (Some retired) s)
       s (retire_actions retired)) (\<lambda>s.
     bindE (get_board_abilities s player_index) (\<lambda>board_abilities.
     bindE (for_abilities (ally_retire_action retired)
         (\<lambda>i action. call_ability_general_as_ally_action act player_index action retired_emo_index
            (Some retired) i) board_abilities s)
       (for_abilities (oneself_ally_retire_action retired)
         (\<lambda>i action. call_ability_normal_action_as_oneself act player_index action i None)
         board_abilities)))"

definition call_emo_retire_rival_abilities ::
  "'rng caller \<Rightarrow> u8 \<Rightarrow> Fighter \<Rightarrow> 'rng battle_state \<Rightarrow> 'rng battle_state js" where
  "call_emo_retire_rival_abilities act player_index retired s =
     (let rival_index = switch_player_index player_index in
      bindE (get_board_abilities s rival_index) (\<lambda>abilities.
        for_abilities (rival_retire_action retired)
          (\<lambda>i action. call_ability_normal_action_as_oneself act rival_index action i None) abilities s))"

text \<open>\<open>Vec::remove\<close> panics out of range.\<close>

definition retire_emo ::
  "'rng caller \<Rightarrow> u8 \<Rightarrow> u8 \<Rightarrow> 'rng battle_state \<Rightarrow> 'rng battle_state js" where
  "retire_emo act player_index emo_index s =
     bindE (get_board_mut s player_index) (\<lambda>b.
       let i = toNumber emo_index in
       if i \<ge> length b then Inl WasmTrap
       else bindE (call_emo_retire_player_abilities act player_index emo_index (b ! i)
             (battle_log (Log_Remove (mtc_battle_Log_Remove player_index emo_index))
               (put_board player_index (take i b @ drop (Suc i) b) s)))
           (call_emo_retire_rival_abilities act player_index (b ! i)))"

text \<open>The state and whether the emoji survived.\<close>

definition damage_emo ::
  "'rng caller \<Rightarrow> u16 \<Rightarrow> u8 \<Rightarrow> u8 \<Rightarrow> 'rng battle_state \<Rightarrow> (bool \<times> 'rng battle_state) js" where
  "damage_emo act damage' player_index emo_index s =
     bindE (remove_shield_if_exist act player_index emo_index s) (\<lambda>(emo_shielded, s).
       if emo_shielded \<or> damage' = 0 then Inr (True, s)
       else bindE (get_emo_mut s player_index emo_index) (\<lambda>e.
         let health = saturating_sub (at_health (bt_attributes e)) damage';
             s = battle_log (Log_Damage (mtc_battle_Log_Damage player_index emo_index damage' health)) s
         in if health = 0 then mapR (Pair False) (retire_emo act player_index emo_index s)
            else Inr (True, put_emo player_index emo_index
                   (e\<lparr>bt_attributes := (bt_attributes e)\<lparr>at_health := health\<rparr>\<rparr>) s)))"

definition damage_all_step ::
  "'rng caller \<Rightarrow> u8 \<Rightarrow> u16 \<Rightarrow> 'rng battle_state \<Rightarrow> u16 \<Rightarrow> 'rng battle_state js" where
  "damage_all_step act player_index damage' s emo_id =
     bindE (find_emo_index_by_id s player_index emo_id) (\<lambda>o'.
       case o' of
         None \<Rightarrow> Inr s
       | Some emo_index \<Rightarrow> mapR snd (damage_emo act damage' player_index emo_index s))"

definition damage_all_emos ::
  "'rng caller \<Rightarrow> u8 \<Rightarrow> u16 \<Rightarrow> 'rng battle_state \<Rightarrow> 'rng battle_state js" where
  "damage_all_emos act player_index damage' s =
     bindE (get_board s player_index) (\<lambda>b. foldE (damage_all_step act player_index damage') s (map bt_id b))"

definition damage_all ::
  "'rng caller \<Rightarrow> u8 \<Rightarrow> bool \<Rightarrow> emo_ability_Side \<Rightarrow> u16 \<Rightarrow> 'rng battle_state \<Rightarrow> 'rng battle_state js" where
  "damage_all act player_index is_triple_action on_side damage' s =
     (let damage' = (if is_triple_action then saturating_mul damage' 2 else damage') in
      case on_side of
        Side_Ally \<Rightarrow> damage_all_emos act player_index damage' s
      | Side_Rival \<Rightarrow> damage_all_emos act (switch_player_index player_index) damage' s)"

subsection \<open>Setting emojis\<close>

definition battle_add_emo ::
  "'rng caller \<Rightarrow> u8 \<Rightarrow> u8 \<Rightarrow> Fighter \<Rightarrow> 'rng battle_state \<Rightarrow> 'rng battle_state js" where
  "battle_add_emo act player_index emo_index e s =
     bindE (get_board s player_index) (\<lambda>b.
       let n = word_of_nat (length b) :: u8; i = toNumber emo_index in
       if \<not> n < BOARD_EMO_MAX_COUNT then Inr s
       else if n < emo_index then throwError ''invalid emo_index''
       else let b = take i b @ e # drop i b;
                s = put_board player_index b (battle_log (Log_Add
                  (mtc_battle_Log_Add player_index emo_index (bt_base_id e) (bt_attributes e))) s)
            in for_abilities
              (\<lambda>ability. case ability of
                 Battle_General (General_AsAlly (emo_ability_battle_General_AsAlly
                   (GeneralAsAllyTrigger_AllySet
                     (emo_ability_battle_GeneralAsAllyTrigger_AllySet typ_and_triple)) action)) \<Rightarrow>
                   if is_matched_typ_and_triple_for_emo typ_and_triple e then Some action else None
               | _ \<Rightarrow> None)
              (\<lambda>i action. call_ability_general_as_ally_action act player_index action emo_index None i)
              (filter (\<lambda>(i, ability). i \<noteq> emo_index) (board_abilities_of b)) s)"

definition set_emo_ally ::
  "'rng caller \<Rightarrow> u8 \<Rightarrow> u8 \<Rightarrow> Fighter \<Rightarrow> u8 \<Rightarrow> 'rng battle_state \<Rightarrow> 'rng battle_state js" where
  "set_emo_ally act player_index emo_index e attack_and_survived_count =
     battle_add_emo act player_index emo_index
       (e\<lparr>bt_attack_and_survived_count := attack_and_survived_count\<rparr>)"

definition set_emo_rival ::
  "'rng caller \<Rightarrow> u8 \<Rightarrow> Fighter \<Rightarrow> 'rng battle_state \<Rightarrow> 'rng battle_state js" where
  "set_emo_rival act player_index e s =
     (let rival_player_index = switch_player_index player_index in
      bindE (get_board s rival_player_index) (\<lambda>b.
        battle_add_emo act rival_player_index (word_of_nat (length b))
          (e\<lparr>bt_attack_and_survived_count :=
             (if b = [] then 0 else bt_attack_and_survived_count (last b))\<rparr>) s))"

definition battle_set_emo ::
  "'rng caller \<Rightarrow> emo_Bases \<Rightarrow> u8 \<Rightarrow> u8 \<Rightarrow> u16 \<Rightarrow> bool \<Rightarrow> u8 \<Rightarrow> emo_ability_Side \<Rightarrow> 'rng battle_state \<Rightarrow>
   'rng battle_state js" where
  "battle_set_emo act emo_bases player_index emo_index base_id is_triple attack_and_survived_count on_side s =
     bindE (find_base emo_bases base_id) (\<lambda>base.
       let (e, s) = battle_new_with_base base is_triple s in
       case on_side of
         Side_Ally \<Rightarrow> set_emo_ally act player_index emo_index e attack_and_survived_count s
       | Side_Rival \<Rightarrow> set_emo_rival act player_index e s)"

text \<open>A divisor of zero panics.\<close>

definition set_emos_by_attack_div ::
  "'rng caller \<Rightarrow> emo_Bases \<Rightarrow> u8 \<Rightarrow> u8 \<Rightarrow> u16 \<Rightarrow> bool \<Rightarrow> u8 \<Rightarrow> u16 \<Rightarrow> u8 \<Rightarrow> emo_ability_Side \<Rightarrow>
   'rng battle_state \<Rightarrow> 'rng battle_state js" where
  "set_emos_by_attack_div act emo_bases player_index attack_and_survived_count action_emo_attack
     is_triple_action new_emo_index base_id divisor on_side s =
     (if divisor = 0 then Inl WasmTrap
      else foldE (\<lambda>s _. battle_set_emo act emo_bases player_index new_emo_index base_id is_triple_action
             attack_and_survived_count on_side s) s
           [0..<min (toNumber (action_emo_attack div ucast divisor)) (toNumber BOARD_EMO_MAX_COUNT)])"

section \<open>Actions on statistics and abilities\<close>

text \<open>What an action on statistics or abilities is for: the player, the index, retired or not, a triple's.\<close>

definition change_stats ::
  "'rng battle_rand \<Rightarrow> (u8 \<Rightarrow> u16 \<Rightarrow> u16 \<Rightarrow> 'rng battle_state \<Rightarrow> u8 \<Rightarrow> 'rng battle_state js) \<Rightarrow>
   u8 \<Rightarrow> u8 \<Rightarrow> bool \<Rightarrow> bool \<Rightarrow> emo_ability_TargetOrRandom \<Rightarrow> u16 \<Rightarrow> u16 \<Rightarrow> 'rng battle_state \<Rightarrow>
   'rng battle_state js" where
  "change_stats rand change player_index action_emo_index is_action_emo_retired is_triple_action
     target_or_random attack health s =
     (let (attack, health) = double_attack_and_health_if is_triple_action attack health in
      bindE (get_board s player_index) (\<lambda>b.
      bindE (get_matched_emo_indexs_from_board_by_target_or_random rand b action_emo_index target_or_random
          is_action_emo_retired s) (\<lambda>(indexes, s).
        foldE (change player_index attack health) s indexes)))"

definition battle_increase_stats ::
  "'rng battle_rand \<Rightarrow> u8 \<Rightarrow> u8 \<Rightarrow> bool \<Rightarrow> bool \<Rightarrow> emo_ability_TargetOrRandom \<Rightarrow> u16 \<Rightarrow> u16 \<Rightarrow>
   'rng battle_state \<Rightarrow> 'rng battle_state js" where
  "battle_increase_stats rand = change_stats rand increase_emo_stats"

definition battle_decrease_stats ::
  "'rng battle_rand \<Rightarrow> u8 \<Rightarrow> u8 \<Rightarrow> bool \<Rightarrow> bool \<Rightarrow> emo_ability_TargetOrRandom \<Rightarrow> u16 \<Rightarrow> u16 \<Rightarrow>
   'rng battle_state \<Rightarrow> 'rng battle_state js" where
  "battle_decrease_stats rand = change_stats rand decrease_emo_stats"

text \<open>Among the allies the emoji at the action's index does not count, a retired one's successor included.\<close>

definition counted_emos ::
  "emo_ability_Side \<Rightarrow> emo_ability_TypOptAndIsTripleOpt \<Rightarrow> u8 \<Rightarrow> u8 \<Rightarrow> 'rng battle_state \<Rightarrow> nat js" where
  "counted_emos on_side count_condition player_index action_emo_index s =
     (case on_side of
        Side_Ally \<Rightarrow> mapR (\<lambda>b. length (filter (\<lambda>(i, e). i \<noteq> action_emo_index \<and>
            is_matched_typ_and_triple_for_emo count_condition e) (indexed b))) (get_board s player_index)
      | Side_Rival \<Rightarrow> mapR (\<lambda>b. length (filter (is_matched_typ_and_triple_for_emo count_condition) b))
            (get_board s (switch_player_index player_index)))"

definition battle_increase_stats_by_emo_count ::
  "'rng battle_rand \<Rightarrow> u8 \<Rightarrow> u8 \<Rightarrow> bool \<Rightarrow> bool \<Rightarrow> emo_ability_TargetOrRandom \<Rightarrow> emo_ability_Side \<Rightarrow>
   emo_ability_TypOptAndIsTripleOpt \<Rightarrow> u16 \<Rightarrow> u16 \<Rightarrow> 'rng battle_state \<Rightarrow> 'rng battle_state js" where
  "battle_increase_stats_by_emo_count rand player_index action_emo_index is_action_emo_retired
     is_triple_action target_or_random on_side count_condition attack health s =
     bindE (counted_emos on_side count_condition player_index action_emo_index s) (\<lambda>n.
       battle_increase_stats rand player_index action_emo_index is_action_emo_retired is_triple_action
         target_or_random (saturating_mul attack (word_of_nat n)) (saturating_mul health (word_of_nat n)) s)"

definition add_battle_ability_random ::
  "'rng battle_rand \<Rightarrow> u8 \<Rightarrow> u8 \<Rightarrow> bool \<Rightarrow> bool \<Rightarrow> emo_ability_battle_Battle \<Rightarrow>
   emo_ability_TypOptAndIsTripleOpt \<Rightarrow> u8 \<Rightarrow> 'rng battle_state \<Rightarrow> 'rng battle_state js" where
  "add_battle_ability_random rand player_index action_emo_index is_action_emo_retired is_triple_action
     ability typ_and_triple n s =
     bindE (get_board s player_index) (\<lambda>b.
       let (v, s) = draw (choose_and_shuffle rand (toNumber n * (if is_triple_action then 2 else 1))
           (map fst (filter (\<lambda>(i, e).
              \<not> (is_special ability \<and> Ability_Battle ability \<in> set (at_abilities (bt_attributes e))) \<and>
              is_matched_typ_and_triple_for_emo typ_and_triple e)
              (not_oneself action_emo_index is_action_emo_retired b)))) s
       in foldE (add_ability_to_emo ability player_index) s v)"

definition add_battle_ability ::
  "'rng battle_rand \<Rightarrow> u8 \<Rightarrow> u8 \<Rightarrow> bool \<Rightarrow> bool \<Rightarrow> emo_ability_TargetOrRandom \<Rightarrow>
   emo_ability_battle_Battle \<Rightarrow> 'rng battle_state \<Rightarrow> 'rng battle_state js" where
  "add_battle_ability rand player_index action_emo_index is_action_emo_retired is_triple_action
     target_or_random ability s =
     (case target_or_random of
        TargetOrRandom_Target target \<Rightarrow>
          bindE (get_board_mut s player_index) (\<lambda>b.
          bindE (get_matched_emo_indexs_from_board b action_emo_index target is_action_emo_retired)
            (foldE (add_ability_to_emo ability player_index) s))
      | TargetOrRandom_Random (emo_ability_TargetOrRandom_Random typ_and_triple n) \<Rightarrow>
          add_battle_ability_random rand player_index action_emo_index is_action_emo_retired
            is_triple_action ability typ_and_triple n s)"

section \<open>An action, and the recursion\<close>

definition call_ability_normal_action_with ::
  "'rng caller \<Rightarrow> 'rng battle_rand \<Rightarrow> emo_Bases \<Rightarrow> 'rng caller" where
  "call_ability_normal_action_with act rand emo_bases player_index action action_emo_index retired
     is_triple_action s =
     bindE (case retired of
         Some e \<Rightarrow> Inr (True, e, action_emo_index)
       | None \<Rightarrow> mapR (\<lambda>e. (False, e, action_emo_index + 1)) (battle_get_emo s player_index action_emo_index))
      (\<lambda>(is_action_emo_retired, action_emo, new_emo_index).
       case action of
         BattleNormalAction_SetEmo (emo_ability_battle_NormalAction_SetEmo on_side base_id) \<Rightarrow>
           battle_set_emo act emo_bases player_index new_emo_index base_id is_triple_action
             (bt_attack_and_survived_count action_emo) on_side s
       | BattleNormalAction_SetEmosByAttackDiv
           (emo_ability_battle_NormalAction_SetEmosByAttackDiv on_side base_id divisor) \<Rightarrow>
           set_emos_by_attack_div act emo_bases player_index (bt_attack_and_survived_count action_emo)
             (at_attack (bt_attributes action_emo)) is_triple_action new_emo_index base_id divisor on_side s
       | BattleNormalAction_IncreaseStats
           (emo_ability_battle_NormalAction_IncreaseStats target_or_random attack health) \<Rightarrow>
           battle_increase_stats rand player_index action_emo_index is_action_emo_retired is_triple_action
             target_or_random attack health s
       | BattleNormalAction_DecreaseStats
           (emo_ability_battle_NormalAction_DecreaseStats target_or_random attack health) \<Rightarrow>
           battle_decrease_stats rand player_index action_emo_index is_action_emo_retired is_triple_action
             target_or_random attack health s
       | BattleNormalAction_IncreaseStatsByEmoCount
           (emo_ability_battle_NormalAction_IncreaseStatsByEmoCount on_side target_or_random
             count_condition attack health) \<Rightarrow>
           battle_increase_stats_by_emo_count rand player_index action_emo_index is_action_emo_retired
             is_triple_action target_or_random on_side count_condition attack health s
       | BattleNormalAction_AddBattleAbility
           (emo_ability_battle_NormalAction_AddBattleAbility target_or_random ability) \<Rightarrow>
           add_battle_ability rand player_index action_emo_index is_action_emo_retired is_triple_action
             target_or_random ability s
       | BattleNormalAction_DamageAll (emo_ability_battle_NormalAction_DamageAll on_side damage') \<Rightarrow>
           damage_all act player_index is_triple_action on_side damage' s)"

text \<open>The bound is the depth of nested actions the stack has room for.\<close>

fun call_ability_normal_action :: "nat \<Rightarrow> 'rng battle_rand \<Rightarrow> emo_Bases \<Rightarrow> 'rng caller" where
  "call_ability_normal_action 0 rand emo_bases = (\<lambda>_ _ _ _ _ _. Inl JsRangeError)"
| "call_ability_normal_action (Suc n) rand emo_bases =
     call_ability_normal_action_with (call_ability_normal_action n rand emo_bases) rand emo_bases"

section \<open>An attack and the abilities before the first\<close>

definition attack_damage ::
  "'rng caller \<Rightarrow> u8 \<Rightarrow> u8 \<Rightarrow> u8 \<Rightarrow> 'rng battle_state \<Rightarrow> 'rng battle_state js" where
  "attack_damage act attack_player_index attack_emo_index defense_emo_index s =
     (let defense_player_index = switch_player_index attack_player_index in
      bindE (battle_get_emo s attack_player_index attack_emo_index) (\<lambda>attacker.
      bindE (battle_get_emo s defense_player_index defense_emo_index) (\<lambda>defender.
      bindE (damage_emo act (at_attack (bt_attributes attacker)) defense_player_index defense_emo_index s)
        (\<lambda>(_, s).
      bindE (has_emo_at_index s attack_player_index attack_emo_index) (\<lambda>there.
        if \<not> there then Inr s
        else bindE (damage_emo act (at_attack (bt_attributes defender)) attack_player_index attack_emo_index s)
          (\<lambda>(survived, s).
            if survived
            then mapR (\<lambda>e. put_emo attack_player_index attack_emo_index
                     (e\<lparr>bt_attack_and_survived_count := bt_attack_and_survived_count e + 1\<rparr>) s)
                   (get_emo_mut s attack_player_index attack_emo_index)
            else Inr s))))))"

definition battle_attack ::
  "'rng battle_rand \<Rightarrow> 'rng caller \<Rightarrow> u8 \<Rightarrow> 'rng battle_state \<Rightarrow> 'rng battle_state js" where
  "battle_attack rand act attack_player_index s =
     bindE (get_attack_and_defense_emo_indexes rand attack_player_index s)
       (\<lambda>(attack_emo_index, defense_emo_index, s).
         attack_damage act attack_player_index attack_emo_index defense_emo_index
           (battle_log (Log_Attack
              (mtc_battle_Log_Attack attack_player_index attack_emo_index defense_emo_index)) s))"

definition pre_action :: "emo_ability_battle_Battle \<Rightarrow> emo_ability_battle_NormalAction option" where
  "pre_action ability =
     (case ability of
        Battle_General (General_AsOneself
          (emo_ability_battle_General_AsOneself GeneralAsOneselfTrigger_Pre action)) \<Rightarrow> Some action
      | _ \<Rightarrow> None)"

definition call_pre_abilities ::
  "'rng caller \<Rightarrow> u8 \<Rightarrow> 'rng battle_state \<Rightarrow> 'rng battle_state js" where
  "call_pre_abilities act first_attack_player_index s =
     foldE (\<lambda>s player_index.
        bindE (get_board_abilities s player_index) (\<lambda>abilities.
          for_abilities pre_action
            (\<lambda>i action. call_ability_normal_action_as_oneself act player_index action i None) abilities s))
       s [first_attack_player_index, switch_player_index first_attack_player_index]"

section \<open>The march (march.rs)\<close>

definition get_first_attack_player_index ::
  "'rng battle_rand \<Rightarrow> 'rng battle_state \<Rightarrow> (u8 \<times> 'rng battle_state) js" where
  "get_first_attack_player_index rand s =
     bindE (count_board_emos s 0) (\<lambda>len0.
     bindE (count_board_emos s 1) (\<lambda>len1.
       if len0 > len1 then Inr (0, s)
       else if len0 < len1 then Inr (1, s)
       else let (b, s) = draw (br_bool rand) s in Inr (if b then 0 else 1, s)))"

definition sum_grades :: "Fighter list \<Rightarrow> emo_Bases \<Rightarrow> u8 js" where
  "sum_grades emos emo_bases =
     foldE (\<lambda>sum' e. mapR (\<lambda>base. saturating_add sum' (eb_grade base)) (find_base emo_bases (bt_base_id e)))
       0 emos"

definition get_remaining_grades_if_finished ::
  "'rng battle_state \<Rightarrow> emo_Bases \<Rightarrow> (u8 \<times> u8) option js" where
  "get_remaining_grades_if_finished s emo_bases =
     bindE (is_empty_board s 0) (\<lambda>empty0.
     bindE (if empty0 then Inr True else is_empty_board s 1) (\<lambda>finished.
       if finished
       then bindE (get_board s 0) (\<lambda>b0. bindE (sum_grades b0 emo_bases) (\<lambda>g0.
            bindE (get_board s 1) (\<lambda>b1. mapR (\<lambda>g1. Some (g0, g1)) (sum_grades b1 emo_bases))))
       else Inr None))"

text \<open>A \<open>Tick\<close> is its number and the player who attacks at odd ones.\<close>

definition attack_player_index :: "u8 \<Rightarrow> u8 \<Rightarrow> u8" where
  "attack_player_index num first_attack_player_index =
     (if num mod 2 = 1 then first_attack_player_index else switch_player_index first_attack_player_index)"

text \<open>
  The loop runs at the ticks 1 to 255; the 256th is an error. The argument counts the ticks left,
  after which the byte has no next.
\<close>

fun march_loop ::
  "'rng battle_rand \<Rightarrow> 'rng caller \<Rightarrow> emo_Bases \<Rightarrow> u8 \<Rightarrow> nat \<Rightarrow> u8 \<Rightarrow> 'rng battle_state \<Rightarrow>
   (u8 \<times> u8 \<times> 'rng battle_state) js" where
  "march_loop rand act emo_bases first 0 num s = throwError ''reached maximum tick''"
| "march_loop rand act emo_bases first (Suc n) num s =
     bindE (battle_attack rand act (attack_player_index num first) s) (\<lambda>s.
     bindE (get_remaining_grades_if_finished s emo_bases) (\<lambda>o'.
       case o' of
         Some (g0, g1) \<Rightarrow> Inr (g0, g1, s)
       | None \<Rightarrow> march_loop rand act emo_bases first n (num + 1) s))"

fun with_battle_ids :: "BattleEmo list \<Rightarrow> u16 \<Rightarrow> Fighter list" where
  "with_battle_ids [] i = []"
| "with_battle_ids (e # es) i = with_battle_id e i # with_battle_ids es (i + 1)"

text \<open>
  The emojis of both boards have their ids from the counter, which stands at \<open>next_id\<close>, in the order
  the caller builds them.
\<close>

definition march_start ::
  "'rng battle_rand \<Rightarrow> u16 \<Rightarrow> BattleEmo list \<Rightarrow> BattleEmo list \<Rightarrow> u64 \<Rightarrow> 'rng battle_state" where
  "march_start rand next_id battle_emos0 battle_emos1 seed =
     \<lparr>ba_boards = [with_battle_ids battle_emos0 next_id,
        with_battle_ids battle_emos1 (next_id + word_of_nat (length battle_emos0))],
      ba_logs = [], ba_rng = br_seed rand seed,
      ba_next_id = next_id + word_of_nat (length battle_emos0 + length battle_emos1)\<rparr>"

definition march_boards ::
  "'rng battle_rand \<Rightarrow> nat \<Rightarrow> u16 \<Rightarrow> BattleEmo list \<Rightarrow> BattleEmo list \<Rightarrow> u64 \<Rightarrow> emo_Bases \<Rightarrow>
   (u8 \<times> u8 \<times> 'rng battle_state) js" where
  "march_boards rand depth next_id battle_emos0 battle_emos1 seed emo_bases =
     (let act = call_ability_normal_action depth rand emo_bases in
      bindE (get_first_attack_player_index rand (march_start rand next_id battle_emos0 battle_emos1 seed))
        (\<lambda>(first, s).
      bindE (call_pre_abilities act first s) (\<lambda>s.
      bindE (get_remaining_grades_if_finished s emo_bases) (\<lambda>o'.
        case o' of
          Some (g0, g1) \<Rightarrow> Inr (g0, g1, s)
        | None \<Rightarrow> march_loop rand act emo_bases first 255 1 s))))"

definition rust_march :: "'rng battle_rand \<Rightarrow> nat \<Rightarrow> u16 \<Rightarrow> march" where
  "rust_march rand depth next_id battle_emos0 battle_emos1 seed emo_bases =
     mapR (\<lambda>(g0, g1, s). (g0, g1, ba_logs s))
       (march_boards rand depth next_id battle_emos0 battle_emos1 seed emo_bases)"

end
