(* ===== verification/RustMatchFacts.thy ===== *)
theory RustMatchFacts
  imports RustMatch
begin

text \<open>
  Facts about a match: the catalog is cut from the pool, the pool a deck gives, and a battle keeps
  the state of the match in order.
\<close>

section \<open>The catalog\<close>

text \<open>What the \<open>rand\<close> crate promises of its two functions on emojis and of the choice of one.\<close>

definition rand_ok :: "'rng rand_crate \<Rightarrow> bool" where
  "rand_ok rand \<longleftrightarrow>
     (\<forall>rng n xs. mset (fst (choose_multiple rand rng n xs)) \<subseteq># mset xs \<and>
        length (fst (choose_multiple rand rng n xs)) = min n (length xs)) \<and>
     (\<forall>rng xs. mset (fst (shuffle_emos rand rng xs)) = mset xs) \<and>
     (\<forall>rng xs. case choose_one rand rng xs of None \<Rightarrow> xs = [] | Some x \<Rightarrow> x \<in> set xs)"

lemma pop_line_eq:
  "pop_line n emos =
     (if n \<le> length emos then Inr (take n (rev emos), take (length emos - n) emos)
      else throwError ''catalog failed'')"
proof (induction n arbitrary: emos)
  case (Suc n)
  then show ?case
    by (cases emos rule: rev_cases) (auto simp: take_append)
qed simp

lemma pop_catalog_eq:
  "pop_catalog n emos =
     (if 7 * n \<le> length emos then Inr (map (\<lambda>k. take 7 (drop (7 * k) (rev emos))) [0..<n])
      else throwError ''catalog failed'')"
proof (induction n arbitrary: emos)
  case (Suc n)
  have shift: "map f [0..<Suc n] = f 0 # map (\<lambda>k. f (Suc k)) [0..<n]" for f :: "nat \<Rightarrow> mtc_Emo list"
    by (simp add: upt_conv_Cons map_Suc_upt [symmetric] o_def del: upt_Suc)
  let ?rest = "take (length emos - 7) emos"
  show ?case
  proof (cases "7 \<le> length emos")
    case True
    then have rest: "rev ?rest = drop 7 (rev emos)" "length ?rest = length emos - 7"
      by (simp_all add: rev_take)
    have blocks: "map (\<lambda>k. take 7 (drop (7 * k) (rev ?rest))) [0..<n] =
        map (\<lambda>k. take 7 (drop (7 * Suc k) (rev emos))) [0..<n]"
      by (simp only: rest(1) drop_drop mult_Suc_right add.commute)
    show ?thesis
      using True by (simp only: pop_catalog.simps pop_line_eq CATALOG_LINE_EMO_COUNT_def if_True
          bindE_Inr prod.case Suc rest(2) blocks shift) auto
  qed (simp add: pop_line_eq CATALOG_LINE_EMO_COUNT_def)
qed simp

lemma concat_blocks:
  "7 * n \<le> length xs \<Longrightarrow> concat (map (\<lambda>k. take 7 (drop (7 * k) xs)) [0..<n]) = take (7 * n) xs"
proof (induction n)
  case (Suc n)
  have "take (7 * Suc n) xs = take (7 * n) xs @ take 7 (drop (7 * n) xs)"
    by (metis add.commute mult_Suc_right take_add)
  with Suc show ?case
    by simp
qed simp

lemma mset_take_subset: "mset (take n xs) \<subseteq># mset xs"
  by (metis append_take_drop_id mset_append mset_subset_eq_add_left)

text \<open>The emojis a catalog may show: those of the pool that are not on the board.\<close>

definition off_board :: "mtc_Emo list \<Rightarrow> mtc_Board \<Rightarrow> mtc_Emo list" where
  "off_board pool board = filter (\<lambda>e. me_id e \<notin> set (concat (map be_mtc_emo_ids board))) pool"

lemma get_catalog_cases:
  assumes "rand_ok rand"
  shows "if 35 \<le> length (off_board pool board)
    then \<exists>catalog. get_catalog rand pool board seed = Inr catalog \<and> length catalog = 5 \<and>
      list_all (\<lambda>l. length l = 7) catalog \<and> mset (concat catalog) \<subseteq># mset (off_board pool board)
    else get_catalog rand pool board seed = throwError ''catalog failed''"
proof -
  obtain emos rng where c: "choose_multiple rand (seed_from_u64 rand seed) 35 (off_board pool board) = (emos, rng)"
    by fastforce
  obtain emos' rng' where s: "shuffle_emos rand rng emos = (emos', rng')"
    by fastforce
  have "mset emos \<subseteq># mset (off_board pool board)" "length emos = min 35 (length (off_board pool board))"
    "mset emos' = mset emos"
    using assms c s unfolding rand_ok_def by (metis fst_conv)+
  then have sub: "mset emos' \<subseteq># mset (off_board pool board)"
    and len: "length emos' = min 35 (length (off_board pool board))"
    by (simp_all, metis mset_eq_length)
  have g: "get_catalog rand pool board seed = pop_catalog 5 emos'"
    using c s by (simp add: get_catalog_def off_board_def CATALOG_COUNT_def CATALOG_LINE_EMO_COUNT_def)
  show ?thesis
  proof (cases "35 \<le> length (off_board pool board)")
    case True
    let ?c = "map (\<lambda>k. take 7 (drop (7 * k) (rev emos'))) [0..<5]"
    have "concat ?c = take 35 (rev emos')"
      using concat_blocks [of 5 "rev emos'"] True len by simp
    then have "mset (concat ?c) \<subseteq># mset emos'"
      using mset_take_subset [of 35 "rev emos'"] by simp
    then have "mset (concat ?c) \<subseteq># mset (off_board pool board)"
      using sub by (rule subset_mset.order_trans)
    moreover have "list_all (\<lambda>l. length l = 7) ?c"
      using True len by (auto simp: list_all_iff)
    ultimately show ?thesis
      using True len by (simp add: g pop_catalog_eq)
  next
    case False
    then show ?thesis
      using len by (simp add: g pop_catalog_eq)
  qed
qed

section \<open>The pool\<close>

lemma push_copies_eq:
  "push_copies n b (deck, i) =
     (deck @ map (\<lambda>k. \<lparr>me_id = i + word_of_nat k, me_base_id = b\<rparr>) [0..<n], i + word_of_nat n)"
proof (induction n arbitrary: deck i)
  case (Suc n)
  have "map f [0..<Suc n] = f 0 # map (\<lambda>k. f (Suc k)) [0..<n]" for f :: "nat \<Rightarrow> mtc_Emo"
    by (simp add: upt_conv_Cons map_Suc_upt [symmetric] o_def del: upt_Suc)
  then show ?case
    by (simp only: push_copies.simps Suc) (simp add: algebra_simps)
qed simp

text \<open>The bases of the emojis of a pool, in order, without their ids.\<close>

definition pool_bases :: "emo_Bases \<Rightarrow> u16 list \<Rightarrow> u16 list js" where
  "pool_bases bases ids =
     mapR concat (mapE (\<lambda>i. bindE (find_base bases i) (\<lambda>base.
       mapR (\<lambda>num. replicate (toNumber num) (eb_id base)) (get_pool_emo_count_by_grade (eb_grade base)))) ids)"

lemma pool_loop:
  assumes "map me_id deck = map word_of_nat [1..<Suc (length deck)]"
    and "foldE (\<lambda>acc i. bindE (find_base bases i) (\<lambda>base.
        mapR (\<lambda>num. push_copies (toNumber num) (eb_id base) acc)
          (get_pool_emo_count_by_grade (eb_grade base))))
      (deck, word_of_nat (Suc (length deck))) ids = Inr (pool, n)"
  shows "map me_id pool = map word_of_nat [1..<Suc (length pool)] \<and>
    (\<exists>bs. pool_bases bases ids = Inr bs \<and> map me_base_id pool = map me_base_id deck @ bs)"
  using assms
proof (induction ids arbitrary: deck)
  case Nil
  then show ?case by (simp add: pool_bases_def)
next
  case (Cons i ids)
  from Cons.prems(2) obtain base num where b: "find_base bases i = Inr base"
    "get_pool_emo_count_by_grade (eb_grade base) = Inr num"
    by (auto simp: bindE_eq_Inr_iff mapR_eq_Inr_iff)
  let ?new = "map (\<lambda>k. \<lparr>me_id = word_of_nat (Suc (length deck)) + word_of_nat k, me_base_id = eb_id base\<rparr>)
    [0..<toNumber num]"
  have "map me_id (deck @ ?new) =
      map word_of_nat [1..<Suc (length deck)] @ map (\<lambda>k. word_of_nat (Suc (length deck) + k)) [0..<toNumber num]"
    using Cons.prems(1) by simp
  also have "\<dots> = map word_of_nat [1..<Suc (length (deck @ ?new))]"
  proof -
    have "[1..<Suc (a + n)] = [1..<Suc a] @ map (\<lambda>k. Suc a + k) [0..<n]" for a n :: nat
      by (induction n) auto
    then show ?thesis
      by (simp only: length_append length_map length_upt diff_zero map_append map_map comp_def)
  qed
  finally have ids': "map me_id (deck @ ?new) = map word_of_nat [1..<Suc (length (deck @ ?new))]" .
  have "word_of_nat (Suc (length deck)) + word_of_nat (toNumber num) = (word_of_nat (Suc (length (deck @ ?new))) :: u16)"
    by simp
  with Cons.prems(2) b have "map me_id pool = map word_of_nat [1..<Suc (length pool)] \<and>
      (\<exists>bs. pool_bases bases ids = Inr bs \<and> map me_base_id pool = map me_base_id (deck @ ?new) @ bs)"
    by (intro Cons.IH [OF ids']) (simp add: push_copies_eq add.assoc)
  then show ?case
    by (auto simp: pool_bases_def b mapR_eq_Inr_iff comp_def map_replicate_trivial map_replicate_const)
qed

lemma build_pool_ids:
  assumes "build_pool selected bases fixed built = Inr pool"
  shows "map me_id pool = map word_of_nat [1..<Suc (length pool)]"
    and "\<exists>ids bs. build_built_base_ids selected bases built = Inr ids \<and>
      pool_bases bases (ids @ fixed) = Inr bs \<and> map me_base_id pool = bs"
proof -
  from assms obtain ids n where ids: "build_built_base_ids selected bases built = Inr ids"
    and f: "foldE (\<lambda>acc i. bindE (find_base bases i) (\<lambda>base.
        mapR (\<lambda>num. push_copies (toNumber num) (eb_id base) acc)
          (get_pool_emo_count_by_grade (eb_grade base)))) ([], 1) (ids @ fixed) = Inr (pool, n)"
    by (auto simp: build_pool_def bindE_eq_Inr_iff mapR_eq_Inr_iff simp del: foldE_append)
  have "map me_id pool = map word_of_nat [1..<Suc (length pool)] \<and>
    (\<exists>bs. pool_bases bases (ids @ fixed) = Inr bs \<and> map me_base_id pool = map me_base_id [] @ bs)"
    using pool_loop [of "[]" bases "ids @ fixed" pool n] f by simp
  with ids show "map me_id pool = map word_of_nat [1..<Suc (length pool)]"
    "\<exists>ids bs. build_built_base_ids selected bases built = Inr ids \<and>
      pool_bases bases (ids @ fixed) = Inr bs \<and> map me_base_id pool = bs"
    by auto
qed

section \<open>The default deck is one the pool is built from\<close>

definition bases_ok :: "emo_Bases \<Rightarrow> bool" where
  "bases_ok bases \<longleftrightarrow> distinct (map fst bases) \<and> list_all (\<lambda>(k, b). eb_id b = k) bases"

lemma toUint16_toStringU [simp]: "toUint16 (toStringU (i :: u16)) = i"
  by (simp add: toUint16_def toStringU_def)

lemma found_base:
  assumes "bases_ok codec" "findEmoBaseByStringId s (buildEmoBases codec) = Inr m"
  shows "s = toStringU (eb_id m)" "find_base codec (eb_id m) = Inr m"
proof -
  from assms(2) have "map_of (rev (map (\<lambda>(k, v). (toStringU k, v)) codec)) s = Some m"
    by (auto simp: findEmoBaseByStringId_def buildEmoBases_def get_stringKey split: option.splits)
  then obtain k where k: "(k, m) \<in> set codec" "s = toStringU k"
    by (auto dest!: map_of_SomeD)
  with assms(1) have "eb_id m = k" "map_of codec k = Some m"
    by (auto simp: bases_ok_def list_all_iff)
  with k(2) show "s = toStringU (eb_id m)" "find_base codec (eb_id m) = Inr m"
    by (simp_all add: find_base_def)
qed

lemma built_ids_loop:
  assumes "\<forall>m\<in>set ms. find_base codec (eb_id m) = Inr m \<and> eb_id m \<in> set built"
    and "distinct (map eb_grade ms)" "set gs \<inter> eb_grade ` set ms = {}"
  shows "foldE (build_built_base_ids_step codec built) (ids, gs) (map eb_id ms) =
    Inr (ids @ map eb_id ms, gs @ map eb_grade ms)"
  using assms by (induction ms arbitrary: ids gs) (auto simp: build_built_base_ids_step_def)

lemma default_deck_built:
  assumes "bases_ok codec" "getDefaultDeck (buildEmoBases codec) ids = Inr deck" "length deck = 6"
  shows "build_built_base_ids (map toUint16 deck) codec (map toUint16 ids) = Inr (map toUint16 deck)"
proof -
  from assms(2) obtain gs where gs: "groupEmoBasesByGrades (buildEmoBases codec) ids = Inr gs"
    and deck: "deck = map (\<lambda>(_, ms). toStringU (eb_id (hd ms))) gs"
    by (rule getDefaultDeck_Inr)
  let ?ms = "map (\<lambda>(_, ms). hd ms) gs"
  have ids: "map toUint16 deck = map eb_id ?ms"
    by (simp add: deck case_prod_unfold)
  obtain found where found: "list_all2 (\<lambda>i m. findEmoBaseByStringId i (buildEmoBases codec) = Inr m) ids found"
    and sub: "\<forall>(k, ms')\<in>set gs. set ms' \<subseteq> set found"
    using set_groups_grades [OF gs] by blast
  have "find_base codec (eb_id m) = Inr m \<and> eb_id m \<in> set (map toUint16 ids)" if "m \<in> set found" for m
  proof -
    from that obtain k where "k < length found" "m = found ! k"
      by (metis in_set_conv_nth)
    then have "findEmoBaseByStringId (ids ! k) (buildEmoBases codec) = Inr m" "ids ! k \<in> set ids"
      using found by (auto simp: list_all2_conv_all_nth)
    then show ?thesis
      using found_base [OF assms(1)] by force
  qed
  moreover have "set ?ms \<subseteq> set found"
    using sub group_of_grade(1) [OF gs] by (fastforce simp: case_prod_unfold)
  ultimately have ok: "\<forall>m\<in>set ?ms. find_base codec (eb_id m) = Inr m \<and> eb_id m \<in> set (map toUint16 ids)"
    by blast
  have "map grade_order gs = map (\<lambda>m. toNumber (eb_grade m)) ?ms"
    using group_of_grade(3) [OF gs] by (auto simp: case_prod_unfold)
  then have "distinct (map (\<lambda>m. toNumber (eb_grade m)) ?ms)"
    using grades_sorted(2) [OF gs] by argo
  then have "distinct (map eb_grade ?ms)"
    by (auto simp: distinct_map inj_on_def)
  then have "foldE (build_built_base_ids_step codec (map toUint16 ids)) ([], []) (map eb_id ?ms) =
      Inr ([] @ map eb_id ?ms, [] @ map eb_grade ?ms)"
    by (intro built_ids_loop [OF ok]) simp_all
  then show ?thesis
    unfolding build_built_base_ids_def ids using assms(3) ids
    by (auto dest: arg_cong [where f = length] simp del: map_map)
qed

section \<open>A battle keeps the match in order\<close>

definition match_ok :: "MtcState \<Rightarrow> bool" where
  "match_ok s \<longleftrightarrow>
     length (ms_ghosts s) = 3 \<and> length (ms_ghostStates s) = 3 \<and> length (ms_ghostAddresses s) = 3 \<and>
     ms_battleGhostIndex s < 3 \<and> is_active (ms_ghostStates s ! ms_battleGhostIndex s) \<and>
     0 < ms_health s \<and> ms_health s < 256"

lemma damage_health_le: "damage_health g h health \<le> health"
  by (auto simp: damage_health_def saturating_sub_def word_le_nat_alt word_less_nat_alt unat_sub_if')

lemma length_battle_pvg_and_gvg:
  "battle_pvg_and_gvg march board grade health ghosts states i turn seed bases = Inr (h, states') \<Longrightarrow>
   length states' = length states \<and> h \<le> health"
  by (auto simp: battle_pvg_and_gvg_def battle_pvg_def bindE_eq_Inr_iff mapR_eq_Inr_iff damage_health_le
      Let_def split: list.splits if_splits)

lemma battle_all_result:
  assumes "battle_all march board health states grade ghosts i turn seed bases = Inr (h, states', place)"
  shows "length states' = length states \<and> h \<le> health \<and> place = calc_final_place h health states' states"
  using assms
  by (auto simp: battle_all_def battle_pvg_def bindE_eq_Inr_iff mapR_eq_Inr_iff damage_health_le
      dest: length_battle_pvg_and_gvg split: if_splits option.splits)

lemma place_loop:
  assumes "toNumber p + length xs < 256" "length ys = length xs"
  shows "toNumber p \<le> toNumber (foldl (calc_final_place_step pre) p (zip xs ys)) \<and>
    toNumber (foldl (calc_final_place_step pre) p (zip xs ys)) \<le> toNumber p + length xs"
  using assms
proof (induction xs arbitrary: p ys)
  case (Cons x xs)
  then obtain y ys' where ys: "ys = y # ys'" by (cases ys) auto
  let ?q = "calc_final_place_step pre p (x, y)"
  have "?q = p \<or> ?q = p + 1"
    by (auto simp: calc_final_place_step_def split: mtc_GhostState.split mtc_GhostState_Active.split)
  moreover have "toNumber (p + 1) = toNumber p + 1"
    using Cons.prems(1) by (simp add: unat_plus_if')
  ultimately have q: "toNumber p \<le> toNumber ?q" "toNumber ?q \<le> toNumber p + 1"
    by auto
  then have "toNumber ?q + length xs < 256"
    using Cons.prems(1) by simp
  with q show ?case
    using Cons.IH [of ?q ys'] Cons.prems(2) by (simp add: ys)
qed simp

lemma place_loop_active:
  assumes "toNumber p + length xs < 256" "length ys = length xs" "\<not> list_all (\<lambda>s. \<not> is_active s) xs"
  shows "toNumber p < toNumber (foldl (calc_final_place_step pre) p (zip xs ys))"
  using assms
proof (induction xs arbitrary: p ys)
  case (Cons x xs)
  then obtain y ys' where ys: "ys = y # ys'" by (cases ys) auto
  let ?q = "calc_final_place_step pre p (x, y)"
  have "?q = p \<or> ?q = p + 1"
    by (auto simp: calc_final_place_step_def split: mtc_GhostState.split mtc_GhostState_Active.split)
  moreover have p1: "toNumber (p + 1) = toNumber p + 1"
    using Cons.prems(1) by (simp add: unat_plus_if')
  ultimately have q: "toNumber p \<le> toNumber ?q" "toNumber ?q \<le> toNumber p + 1"
    by auto
  then have b: "toNumber ?q + length xs < 256" "length ys' = length xs"
    using Cons.prems by (simp_all add: ys)
  show ?case
  proof (cases "is_active x")
    case True
    then have "?q = p + 1"
      by (simp add: calc_final_place_step_def)
    then show ?thesis
      using place_loop [OF b, of pre] p1 by (simp add: ys)
  next
    case False
    then show ?thesis
      using Cons.IH [OF b] Cons.prems(3) q by (simp add: ys)
  qed
qed simp

lemma calc_final_place_cases:
  assumes "length states' = length states" "length states < 255"
  shows "case calc_final_place h pre states' states of
      None \<Rightarrow> h \<noteq> 0 \<and> list_ex is_active states'
    | Some p \<Rightarrow> 1 \<le> toNumber p \<and> toNumber p \<le> Suc (length states) \<and>
        (toNumber p = 1 \<longleftrightarrow> \<not> list_ex is_active states') \<and> (toNumber p = 1 \<or> h = 0)"
proof -
  let ?retired = "list_all (\<lambda>s. \<not> is_active s) states'"
  let ?p = "foldl (calc_final_place_step pre) 1 (zip states' states)"
  have ex: "list_ex is_active states' \<longleftrightarrow> \<not> ?retired"
    by (auto simp: list_all_iff list_ex_iff)
  have "1 \<le> toNumber ?p \<and> toNumber ?p \<le> Suc (length states)"
    using place_loop [OF _ assms(1) [symmetric], of 1 pre] assms by simp
  moreover have "1 < toNumber ?p" if "\<not> ?retired"
    using place_loop_active [OF _ assms(1) [symmetric], of 1 pre] assms that by simp
  ultimately show ?thesis
    unfolding ex calc_final_place_def Let_def by (cases ?retired; cases "h = 0") simp_all
qed

lemma live_indexes_eq:
  "live_indexes states = map word_of_nat (filter (\<lambda>i. is_active (states ! i)) [0..<length states])"
  by (simp add: live_indexes_def enumerate_nth filter_map comp_def)

lemma set_live_indexes: "set (live_indexes states) = word_of_nat ` {i. i < length states \<and> is_active (states ! i)}"
  by (auto simp: live_indexes_eq)

lemma distinct_live_indexes:
  assumes "length states \<le> 256"
  shows "distinct (live_indexes states)"
  unfolding live_indexes_eq distinct_map
proof (intro conjI inj_onI)
  fix i k
  assume "i \<in> set (filter (\<lambda>i. is_active (states ! i)) [0..<length states])"
    "k \<in> set (filter (\<lambda>i. is_active (states ! i)) [0..<length states])"
    and "(word_of_nat i :: u8) = word_of_nat k"
  moreover from this assms have "i < 256" "k < 256" by auto
  ultimately show "i = k"
    by (metis unat_small)
qed simp

text \<open>The next ghost is one that is active.\<close>

lemma select_battle_ghost_index_active:
  assumes "rand_ok rand" "length states \<le> 256" "list_ex is_active states"
  shows "\<exists>i. select_battle_ghost_index rand states previous seed = Inr i \<and> toNumber i < length states \<and>
    is_active (states ! toNumber i)"
proof -
  let ?live = "live_indexes states"
  have active: "toNumber i < length states \<and> is_active (states ! toNumber i)" if "i \<in> set ?live" for i
    using that assms(2) unat_small by (force simp: set_live_indexes)
  have "?live \<noteq> []"
    using assms(3) by (auto simp: set_live_indexes list_ex_iff in_set_conv_nth simp flip: set_empty)
  consider "length ?live = 1" | "1 < length ?live"
    using \<open>?live \<noteq> []\<close> by (cases ?live rule: list.exhaust) auto
  then show ?thesis
  proof cases
    case 1
    then show ?thesis
      using active [of "?live ! 0"] \<open>?live \<noteq> []\<close> by (simp add: select_battle_ghost_index_def Let_def)
  next
    case 2
    let ?others = "filter (\<lambda>i. i \<noteq> previous) ?live"
    have "?others \<noteq> []"
    proof
      assume "?others = []"
      then have "set ?live \<subseteq> {previous}"
        by (auto simp: filter_empty_conv)
      then have "length ?live \<le> 1"
        using distinct_card [OF distinct_live_indexes [OF assms(2)]] card_mono [of "{previous}" "set ?live"]
        by simp
      with 2 show False by simp
    qed
    moreover have "case choose_one rand (seed_from_u64 rand seed) ?others of
        None \<Rightarrow> ?others = [] | Some x \<Rightarrow> x \<in> set ?others"
      using assms(1) unfolding rand_ok_def by blast
    ultimately obtain i where "choose_one rand (seed_from_u64 rand seed) ?others = Some i" "i \<in> set ?others"
      by (cases "choose_one rand (seed_from_u64 rand seed) ?others") simp_all
    with 2 show ?thesis
      using active [of i] \<open>?live \<noteq> []\<close> by (simp add: select_battle_ghost_index_def Let_def)
  qed
qed

lemma with_seed_eq_Inr_iff: "with_seed seed f = Inr r \<longleftrightarrow> (\<exists>n. parse_u64 seed = Some n \<and> f n = Inr r)"
  by (auto simp: with_seed_def unwrap_def split: option.splits sum.splits js_error.splits)

lemma unwrap_Inr [simp]: "unwrap (Inr r) = Inr r"
  by (simp add: unwrap_def)

lemma battleAll_result:
  assumes "battleAll march board grade health ghosts states i turn seed bases = Inr (h, states', place)"
    and "health < 256"
  shows "length states' = length states" "h \<le> health" "\<exists>n. parse_u64 seed = Some n"
    and "place = calc_final_place (word_of_nat h) (word_of_nat health) states' states"
proof -
  from assms(1) obtain n h' where n: "parse_u64 seed = Some n" "h = toNumber h'"
    "battle_all march board (word_of_nat health) states (word_of_nat grade) ghosts (word_of_nat i)
       (word_of_nat turn) n (bs_codec bases) = Inr (h', states', place)"
    by (auto simp: battleAll_def mapR_eq_Inr_iff with_seed_eq_Inr_iff)
  then show "length states' = length states" "\<exists>n. parse_u64 seed = Some n"
    "place = calc_final_place (word_of_nat h) (word_of_nat health) states' states"
    using battle_all_result [OF n(3)] by simp_all
  show "h \<le> health"
    using battle_all_result [OF n(3)] n(2) assms(2) by (simp add: word_le_nat_alt unat_small)
qed

lemma finishBattle_keeps:
  assumes ok: "match_ok s" and rand: "rand_ok rand"
    and r: "finishBattle (battleAll march) (selectBattleGhostIndex rand) s bases = Inr (s', place)"
  shows "(case place of
      None \<Rightarrow> match_ok s' \<and> ms_turn s' = ms_turn s + 1
    | Some p \<Rightarrow> 1 \<le> p \<and> p \<le> 4 \<and> (p = 1 \<longleftrightarrow> \<not> list_ex is_active (ms_ghostStates s')) \<and>
        (p = 1 \<or> ms_health s' = 0)) \<and> ms_health s' \<le> ms_health s"
proof -
  from r obtain h states fp where b: "battleAll march (ms_board s) (ms_grade s) (ms_health s) (ms_ghosts s)
      (ms_ghostStates s) (ms_battleGhostIndex s) (ms_turn s) (ms_seed s) bases = Inr (h, states, fp)"
    by (auto simp: finishBattle_def bindE_eq_Inr_iff)
  have health: "ms_health s < 256" and len: "length (ms_ghostStates s) = 3"
    using ok by (simp_all add: match_ok_def)
  note res = battleAll_result [OF b health]
  then have h: "h < 256" using health by simp
  then have h0: "(word_of_nat h :: u8) = 0 \<longleftrightarrow> h = 0"
    using unat_small [of h] by auto
  have place: "case fp of
      None \<Rightarrow> h \<noteq> 0 \<and> list_ex is_active states
    | Some p \<Rightarrow> 1 \<le> toNumber p \<and> toNumber p \<le> 4 \<and>
        (toNumber p = 1 \<longleftrightarrow> \<not> list_ex is_active states) \<and> (toNumber p = 1 \<or> h = 0)"
    using calc_final_place_cases [OF res(1), of "word_of_nat h" "word_of_nat (ms_health s)"]
    unfolding res(4) [symmetric] len h0 by (auto simp: numeral_eq_Suc split: option.splits)
  show ?thesis
  proof (cases fp)
    case None
    with r b obtain i where i: "selectBattleGhostIndex rand states (ms_battleGhostIndex s) (ms_seed s) = Inr i"
      and s': "s' = s\<lparr>ms_health := h, ms_ghostStates := states, ms_turn := ms_turn s + 1,
        ms_upgradeCoin := map_option (\<lambda>c. max (c - 1) 0) (ms_upgradeCoin s), ms_battleGhostIndex := i\<rparr>"
      and p: "place = None"
      by (auto simp: finishBattle_def bindE_eq_Inr_iff)
    from i obtain a n where
      "select_battle_ghost_index rand states (word_of_nat (ms_battleGhostIndex s)) n = Inr a" "i = toNumber a"
      by (auto simp: selectBattleGhostIndex_def mapR_eq_Inr_iff with_seed_eq_Inr_iff)
    then have "i < length states \<and> is_active (states ! i)"
      using select_battle_ghost_index_active [OF rand, of states "word_of_nat (ms_battleGhostIndex s)" n]
        res(1) len place None by simp
    then show ?thesis
      using ok place None res(1,2) len h by (simp_all add: p s' match_ok_def)
  next
    case (Some q)
    then have "toNumber q \<noteq> 0" using place by simp
    with r b Some have "s' = s\<lparr>ms_health := h, ms_ghostStates := states\<rparr>" "place = Some (toNumber q)"
      by (auto simp: finishBattle_def Let_def)
    then show ?thesis
      using place Some res(2) by auto
  qed
qed

section \<open>What a march leaves\<close>

text \<open>
  What the fight promises of the grades that are left, which \<open>RustBattleFacts\<close> proves of the code: it
  ends when a board is empty, an empty board has no grades, and the seven emojis of a board are of grade
  six at most.
\<close>

definition bases_graded :: "emo_Bases \<Rightarrow> bool" where
  "bases_graded bases \<longleftrightarrow> (\<forall>i b. find_base bases i = Inr b \<longrightarrow> eb_grade b \<le> 6)"

definition march_fair :: "march \<Rightarrow> bool" where
  "march_fair march \<longleftrightarrow> (\<forall>emos0 emos1 seed bases b0 b1 logs.
     length emos0 \<le> 7 \<and> length emos1 \<le> 7 \<and> bases_graded bases \<and>
     march emos0 emos1 seed bases = Inr (b0, b1, logs) \<longrightarrow>
     (b0 = 0 \<or> b1 = 0) \<and> toNumber b0 \<le> 42 \<and> toNumber b1 \<le> 42)"

lemma march_pvg_fair:
  assumes "march_fair march" "bases_graded bases" "length board \<le> 7" "length ghost_board \<le> 7"
    and "march_pvg march board ghost_board n bases = Inr (b0, b1, logs)"
  shows "(b0 = 0 \<or> b1 = 0) \<and> toNumber b0 \<le> 42 \<and> toNumber b1 \<le> 42"
proof -
  from assms(5) obtain x y where "build_battle_emos board bases = Inr x" "build_battle_emos ghost_board bases = Inr y"
    and m: "march x y n bases = Inr (b0, b1, logs)"
    by (auto simp: march_pvg_def bindE_eq_Inr_iff)
  then have "length x \<le> 7" "length y \<le> 7"
    using assms(3,4) by (simp_all add: build_battle_emos_def mapE_length)
  with m show ?thesis
    using assms(1,2) unfolding march_fair_def by blast
qed

end
