(* ===== verification/RustBattleFacts.thy ===== *)
theory RustBattleFacts
  imports RustBattle RustMatchFacts
begin

text \<open>
  Every run of the fight is a sequence of changes of a few kinds: the step relation \<open>battle_change\<close>.
  The locale \<open>actor\<close> states what the operations of \<open>RustBattle\<close> rely on in the function that runs an
  action, that its runs are such sequences, and has the operations' runs as its lemmas; it is
  interpreted on \<open>call_ability_normal_action\<close> at every depth. What holds of the boards and the logs is
  then proved of the changes, one at a time.
\<close>

section \<open>The changes\<close>

abbreviation fighter_at :: "'rng battle_state \<Rightarrow> u8 \<Rightarrow> u8 \<Rightarrow> Fighter \<Rightarrow> bool" where
  "fighter_at s p i e \<equiv> get_emo_mut s p i = Inr e"

definition with_stats :: "u16 \<Rightarrow> u16 \<Rightarrow> Fighter \<Rightarrow> Fighter" where
  "with_stats attack health e =
     e\<lparr>bt_attributes := (bt_attributes e)\<lparr>at_attack := attack, at_health := health\<rparr>\<rparr>"

definition with_abilities :: "emo_ability_Ability list \<Rightarrow> Fighter \<Rightarrow> Fighter" where
  "with_abilities abilities e = e\<lparr>bt_attributes := (bt_attributes e)\<lparr>at_abilities := abilities\<rparr>\<rparr>"

definition stats_log :: "u8 \<Rightarrow> u8 \<Rightarrow> u16 \<Rightarrow> u16 \<Rightarrow> u16 \<Rightarrow> u16 \<Rightarrow> mtc_battle_Log_IncreaseStats" where
  "stats_log p i attack health calculated_attack calculated_health =
     \<lparr>ls_player_index = p, ls_emo_index = i, ls_attack = attack, ls_health = health,
      ls_calculated_attack = calculated_attack, ls_calculated_health = calculated_health\<rparr>"

inductive battle_change :: "emo_Bases \<Rightarrow> 'rng battle_state \<Rightarrow> 'rng battle_state \<Rightarrow> bool" for bases where
  drawn: "battle_change bases s (s\<lparr>ba_rng := r\<rparr>)"
| numbered: "battle_change bases s (s\<lparr>ba_next_id := n\<rparr>)"
| attacked: "fighter_at s p i e \<Longrightarrow> fighter_at s (switch_player_index p) j d \<Longrightarrow>
    battle_change bases s (battle_log (Log_Attack (mtc_battle_Log_Attack p i j)) s)"
| counted: "fighter_at s p i e \<Longrightarrow>
    battle_change bases s (put_emo p i (e\<lparr>bt_attack_and_survived_count := c\<rparr>) s)"
| increased: "fighter_at s p i e \<Longrightarrow>
    ca = saturating_add (at_attack (bt_attributes e)) a \<Longrightarrow> ch = saturating_add (at_health (bt_attributes e)) h \<Longrightarrow>
    battle_change bases s (battle_log (Log_IncreaseStats (stats_log p i a h ca ch))
      (put_emo p i (with_stats ca ch e) s))"
| decreased: "fighter_at s p i e \<Longrightarrow>
    ca = max (saturating_sub (at_attack (bt_attributes e)) a) 1 \<Longrightarrow>
    ch = max (saturating_sub (at_health (bt_attributes e)) h) 1 \<Longrightarrow>
    battle_change bases s (battle_log (Log_DecreaseStats (stats_log p i a h ca ch))
      (put_emo p i (with_stats ca ch e) s))"
| gained: "fighter_at s p i e \<Longrightarrow> abilities = at_abilities (bt_attributes e) \<Longrightarrow>
    length abilities < 255 \<Longrightarrow> \<not> (is_special b \<and> Ability_Battle b \<in> set abilities) \<Longrightarrow>
    battle_change bases s
      (battle_log (Log_AddBattleAbility (mtc_battle_Log_AddBattleAbility p i b (at_is_triple (bt_attributes e))))
        (put_emo p i (with_abilities (abilities @ [Ability_Battle b]) e) s))"
| lost: "fighter_at s p i e \<Longrightarrow> abilities = at_abilities (bt_attributes e) \<Longrightarrow>
    toNumber k < length abilities \<Longrightarrow> abilities ! toNumber k = Ability_Battle b \<Longrightarrow>
    battle_change bases s
      (battle_log (Log_RemoveBattleAbility (mtc_battle_Log_RemoveBattleAbility p i k b))
        (put_emo p i (with_abilities (take (toNumber k) abilities @ drop (Suc (toNumber k)) abilities) e) s))"
| damaged: "fighter_at s p i e \<Longrightarrow> h \<noteq> 0 \<Longrightarrow>
    battle_change bases s
      (put_emo p i (with_stats (at_attack (bt_attributes e)) h e)
        (battle_log (Log_Damage (mtc_battle_Log_Damage p i d h)) s))"
| retired: "fighter_at s p i e \<Longrightarrow> b = ba_boards s ! toNumber p \<Longrightarrow>
    battle_change bases s
      (battle_log (Log_Remove (mtc_battle_Log_Remove p i))
        (put_board p (take (toNumber i) b @ drop (Suc (toNumber i)) b)
          (battle_log (Log_Damage (mtc_battle_Log_Damage p i d 0)) s)))"
| entered: "get_board s p = Inr b \<Longrightarrow> (word_of_nat (length b) :: u8) < BOARD_EMO_MAX_COUNT \<Longrightarrow>
    i \<le> (word_of_nat (length b) :: u8) \<Longrightarrow> find_base bases base_id = Inr base \<Longrightarrow>
    bt_base_id e = eb_id base \<Longrightarrow> bt_attributes e = build_emo_attributes base t \<Longrightarrow>
    battle_change bases s
      (put_board p (take (toNumber i) b @ e # drop (toNumber i) b)
        (battle_log (Log_Add (mtc_battle_Log_Add p i (bt_base_id e) (bt_attributes e))) s))"

abbreviation battle_runs :: "emo_Bases \<Rightarrow> 'rng battle_state \<Rightarrow> 'rng battle_state \<Rightarrow> bool" where
  "battle_runs bases \<equiv> (battle_change bases)\<^sup>*\<^sup>*"

lemma runs_step: "battle_change bases s s' \<Longrightarrow> battle_runs bases s s'"
  by (rule r_into_rtranclp)

lemma runs_trans: "battle_runs bases s s' \<Longrightarrow> battle_runs bases s' s'' \<Longrightarrow> battle_runs bases s s''"
  by (rule rtranclp_trans)

lemma runs_draw: "draw f s = (a, s') \<Longrightarrow> battle_runs bases s s'"
  by (auto simp: draw_def split: prod.splits intro: runs_step drawn)

lemma runs_id: "generate_battle_emo_id s = (i, s') \<Longrightarrow> battle_runs bases s s'"
  by (auto simp: generate_battle_emo_id_def intro: runs_step numbered)

lemma runs_foldE:
  assumes "foldE f s xs = Inr s'" "\<And>a x b. x \<in> set xs \<Longrightarrow> f a x = Inr b \<Longrightarrow> battle_runs bases a b"
  shows "battle_runs bases s s'"
  by (rule foldE_invariant [OF assms(1)]) (auto intro: runs_trans assms(2))

lemma runs_for_abilities:
  assumes "for_abilities action_of f abilities s = Inr s'"
    and "\<And>i action a b. f i action a = Inr b \<Longrightarrow> battle_runs bases a b"
  shows "battle_runs bases s s'"
  by (rule runs_foldE [OF assms(1) [unfolded for_abilities_def]])
    (auto split: prod.splits option.splits intro: assms(2))

lemma get_board_eq: "get_board s p = Inr b \<longleftrightarrow> toNumber p < length (ba_boards s) \<and> b = ba_boards s ! toNumber p"
  by (auto simp: get_board_def js_at_def)

lemma get_board_mut_eq: "get_board_mut s p = Inr b \<longleftrightarrow> get_board s p = Inr b"
  by (auto simp: get_board_def get_board_mut_def js_at_def)

lemma get_emo_mut_eq:
  "fighter_at s p i e \<longleftrightarrow> toNumber p < length (ba_boards s) \<and>
     toNumber i < length (ba_boards s ! toNumber p) \<and> e = ba_boards s ! toNumber p ! toNumber i"
  by (auto simp: get_emo_mut_def bindE_eq_Inr_iff get_board_mut_eq get_board_eq js_at_def split: option.splits)

lemma battle_get_emo_eq: "battle_get_emo s p i = Inr e \<longleftrightarrow> fighter_at s p i e"
  by (auto simp: battle_get_emo_def get_emo_mut_eq bindE_eq_Inr_iff get_board_eq js_at_def split: option.splits)

section \<open>The operations that call no action\<close>

lemma runs_increase_emo_stats: "increase_emo_stats p a h s i = Inr s' \<Longrightarrow> battle_runs bases s s'"
  by (auto simp: increase_emo_stats_def mapR_eq_Inr_iff Let_def split: if_splits
      intro: runs_step increased [OF _ refl refl, unfolded with_stats_def stats_log_def])

lemma runs_decrease_emo_stats: "decrease_emo_stats p a h s i = Inr s' \<Longrightarrow> battle_runs bases s s'"
  by (auto simp: decrease_emo_stats_def mapR_eq_Inr_iff Let_def split: if_splits
      intro: runs_step decreased [OF _ refl refl, unfolded with_stats_def stats_log_def])

lemma runs_add_ability_to_emo: "add_ability_to_emo b p s i = Inr s' \<Longrightarrow> battle_runs bases s s'"
  by (auto simp: add_ability_to_emo_def mapR_eq_Inr_iff Let_def split: if_splits)
    (rule runs_step [OF gained [OF _ refl, unfolded with_abilities_def]]; simp)+

lemma runs_matched:
  "get_matched_emo_indexs_from_board_by_target_or_random rand b i t r s = Inr (v, s') \<Longrightarrow> battle_runs bases s s'"
  by (auto simp: get_matched_emo_indexs_from_board_by_target_or_random_def mapR_eq_Inr_iff
      split: emo_ability_TargetOrRandom.splits emo_ability_TargetOrRandom_Random.splits intro: runs_draw)

lemma runs_change_stats:
  assumes "change_stats rand change p i r t target a h s = Inr s'"
    and "\<And>a h s i s'. change p a h s i = Inr s' \<Longrightarrow> battle_runs bases s s'"
  shows "battle_runs bases s s'"
proof -
  from assms(1) obtain b v s1 a h where
    "get_matched_emo_indexs_from_board_by_target_or_random rand b i target r s = Inr (v, s1)"
    "foldE (change p a h) s1 v = Inr s'"
    by (auto simp: change_stats_def bindE_eq_Inr_iff split: prod.splits)
  then show ?thesis
    by (blast intro: runs_trans runs_matched runs_foldE assms(2))
qed

lemma runs_increase_stats:
  "battle_increase_stats rand p i r t target a h s = Inr s' \<Longrightarrow> battle_runs bases s s'"
  unfolding battle_increase_stats_def by (erule runs_change_stats) (rule runs_increase_emo_stats)

lemma runs_decrease_stats:
  "battle_decrease_stats rand p i r t target a h s = Inr s' \<Longrightarrow> battle_runs bases s s'"
  unfolding battle_decrease_stats_def by (erule runs_change_stats) (rule runs_decrease_emo_stats)

lemma runs_increase_stats_by_emo_count:
  "battle_increase_stats_by_emo_count rand p i r t target d c a h s = Inr s' \<Longrightarrow> battle_runs bases s s'"
  by (auto simp: battle_increase_stats_by_emo_count_def bindE_eq_Inr_iff intro: runs_increase_stats)

lemma runs_drawn:
  assumes "(let (v, s) = draw f s in foldE (add_ability_to_emo b p) s v) = Inr s'"
  shows "battle_runs bases s s'"
proof -
  obtain v s1 where d: "draw f s = (v, s1)" by (cases "draw f s")
  with assms have "foldE (add_ability_to_emo b p) s1 v = Inr s'" by simp
  then have "battle_runs bases s1 s'"
    by (rule runs_foldE) (rule runs_add_ability_to_emo)
  with runs_draw [OF d] show ?thesis by (rule runs_trans)
qed

lemma runs_add_battle_ability:
  "add_battle_ability rand p i r t target b s = Inr s' \<Longrightarrow> battle_runs bases s s'"
  by (auto simp only: add_battle_ability_def add_battle_ability_random_def bindE_eq_Inr_iff
      split: emo_ability_TargetOrRandom.splits emo_ability_TargetOrRandom_Random.splits
      intro: runs_drawn runs_foldE runs_add_ability_to_emo)

section \<open>The contract of the function that runs an action\<close>

locale actor =
  fixes act :: "'rng caller" and bases :: emo_Bases
  assumes act_runs: "act p action i r t s = Inr s' \<Longrightarrow> battle_runs bases s s'"
begin

lemma runs_as_oneself:
  "call_ability_normal_action_as_oneself act p action i r s = Inr s' \<Longrightarrow> battle_runs bases s s'"
  by (auto simp: call_ability_normal_action_as_oneself_def bindE_eq_Inr_iff intro: act_runs)

lemma runs_trigger_retire_actions:
  assumes "trigger_retire_actions act p i r j s = Inr s'"
  shows "battle_runs bases s s'"
proof -
  from assms obtain e and o' :: Fighter where "foldE (\<lambda>s action.
      let f = call_ability_normal_action_as_oneself act p action i r
      in bindE (if at_is_triple (bt_attributes o') then f s else Inr s) f) s (retire_actions e) = Inr s'"
    unfolding trigger_retire_actions_def bindE_eq_Inr_iff by blast
  then show ?thesis
    by (rule runs_foldE)
      (auto simp: bindE_eq_Inr_iff Let_def split: if_splits intro: runs_as_oneself runs_trans)
qed

lemma runs_as_ally:
  "call_ability_general_as_ally_action act p action i r j s = Inr s' \<Longrightarrow> battle_runs bases s s'"
  by (auto simp: call_ability_general_as_ally_action_def bindE_eq_Inr_iff
      split: emo_ability_battle_GeneralAsAllyAction.splits emo_ability_battle_AsAllyAction.splits
      intro: act_runs runs_trigger_retire_actions)

lemma runs_call_shield_removed_ability:
  "call_shield_removed_ability act p i s = Inr s' \<Longrightarrow> battle_runs bases s s'"
  unfolding call_shield_removed_ability_def bindE_eq_Inr_iff
  by (elim exE conjE, erule runs_foldE)
    (auto simp: bindE_eq_Inr_iff split: option.splits prod.splits intro: runs_as_oneself)

lemma runs_remove_shield:
  assumes "remove_shield act p i k s = Inr s'"
  shows "battle_runs bases s s'"
proof -
  from assms obtain e b where e: "fighter_at s p i e" and k: "toNumber k < length (at_abilities (bt_attributes e))"
    and b: "at_abilities (bt_attributes e) ! toNumber k = Ability_Battle b"
    and r: "call_shield_removed_ability act p i
      (battle_log (Log_RemoveBattleAbility (mtc_battle_Log_RemoveBattleAbility p i k b))
        (put_emo p i (with_abilities (take (toNumber k) (at_abilities (bt_attributes e)) @
          drop (Suc (toNumber k)) (at_abilities (bt_attributes e))) e) s)) = Inr s'"
    by (auto simp: remove_shield_def bindE_eq_Inr_iff Let_def battle_of_def with_abilities_def
        split: if_splits option.splits emo_ability_Ability.splits)
  show ?thesis
    by (rule runs_trans [OF runs_step [OF lost [OF e refl k b]] runs_call_shield_removed_ability [OF r]])
qed

lemma runs_remove_shield_if_exist:
  "remove_shield_if_exist act p i s = Inr (b, s') \<Longrightarrow> battle_runs bases s s'"
  by (auto simp: remove_shield_if_exist_def bindE_eq_Inr_iff mapR_eq_Inr_iff
      split: option.splits intro: runs_remove_shield)

lemma runs_retire_player_abilities:
  "call_emo_retire_player_abilities act p i e s = Inr s' \<Longrightarrow> battle_runs bases s s'"
  unfolding call_emo_retire_player_abilities_def bindE_eq_Inr_iff
  by (elim exE conjE, rule runs_trans, erule runs_foldE, erule runs_as_oneself,
      rule runs_trans, erule runs_for_abilities, erule runs_as_ally,
      erule runs_for_abilities, erule runs_as_oneself)

lemma runs_retire_rival_abilities:
  "call_emo_retire_rival_abilities act p e s = Inr s' \<Longrightarrow> battle_runs bases s s'"
  unfolding call_emo_retire_rival_abilities_def bindE_eq_Inr_iff Let_def
  by (elim exE conjE, erule runs_for_abilities, erule runs_as_oneself)

lemma runs_retire_emo:
  assumes "retire_emo act p i (battle_log (Log_Damage (mtc_battle_Log_Damage p i d 0)) s) = Inr s'"
  shows "battle_runs bases s s'"
proof -
  let ?b = "ba_boards s ! toNumber p"
  from assms obtain s1 where p: "toNumber p < length (ba_boards s)" and i: "toNumber i < length ?b"
    and s1: "call_emo_retire_player_abilities act p i (?b ! toNumber i)
      (battle_log (Log_Remove (mtc_battle_Log_Remove p i))
        (put_board p (take (toNumber i) ?b @ drop (Suc (toNumber i)) ?b)
          (battle_log (Log_Damage (mtc_battle_Log_Damage p i d 0)) s))) = Inr s1"
    and s': "call_emo_retire_rival_abilities act p (?b ! toNumber i) s1 = Inr s'"
    by (auto simp: retire_emo_def bindE_eq_Inr_iff Let_def get_board_mut_eq get_board_eq battle_log_def
        split: if_splits)
  have "fighter_at s p i (?b ! toNumber i)"
    using p i by (simp add: get_emo_mut_eq)
  from runs_step [OF retired [OF this refl]] runs_retire_player_abilities [OF s1]
    runs_retire_rival_abilities [OF s'] show ?thesis
    by (blast intro: runs_trans)
qed

lemma runs_damage_emo:
  assumes "damage_emo act d p i s = Inr (survived, s')"
  shows "battle_runs bases s s'"
proof -
  from assms obtain shielded s1 where s1: "remove_shield_if_exist act p i s = Inr (shielded, s1)"
    and r: "shielded \<or> d = 0 \<Longrightarrow> s' = s1"
      "\<not> (shielded \<or> d = 0) \<Longrightarrow> \<exists>e. fighter_at s1 p i e \<and>
        (let health = saturating_sub (at_health (bt_attributes e)) d;
             s = battle_log (Log_Damage (mtc_battle_Log_Damage p i d health)) s1
         in if health = 0 then mapR (Pair False) (retire_emo act p i s) = Inr (survived, s')
            else s' = put_emo p i (with_stats (at_attack (bt_attributes e)) health e) s)"
    by (auto simp: damage_emo_def bindE_eq_Inr_iff Let_def with_stats_def split: if_splits)
  have "battle_runs bases s1 s'"
  proof (cases "shielded \<or> d = 0")
    case True
    with r(1) show ?thesis by simp
  next
    case False
    with r(2) obtain e where e: "fighter_at s1 p i e" and
      h: "let health = saturating_sub (at_health (bt_attributes e)) d;
             s = battle_log (Log_Damage (mtc_battle_Log_Damage p i d health)) s1
         in if health = 0 then mapR (Pair False) (retire_emo act p i s) = Inr (survived, s')
            else s' = put_emo p i (with_stats (at_attack (bt_attributes e)) health e) s"
      by blast
    show ?thesis
    proof (cases "saturating_sub (at_health (bt_attributes e)) d = 0")
      case True
      with h show ?thesis by (auto simp: mapR_eq_Inr_iff intro: runs_retire_emo)
    next
      case False
      with h show ?thesis by (simp add: Let_def runs_step [OF damaged [OF e False]])
    qed
  qed
  with runs_remove_shield_if_exist [OF s1] show ?thesis
    by (rule runs_trans)
qed

lemma runs_damage_all_step: "damage_all_step act p d s i = Inr s' \<Longrightarrow> battle_runs bases s s'"
  by (auto simp: damage_all_step_def bindE_eq_Inr_iff mapR_eq_Inr_iff split: option.splits
      dest: runs_damage_emo)

lemma runs_damage_all_emos: "damage_all_emos act p d s = Inr s' \<Longrightarrow> battle_runs bases s s'"
  by (auto simp: damage_all_emos_def bindE_eq_Inr_iff elim!: runs_foldE intro: runs_damage_all_step)

lemma runs_damage_all: "damage_all act p t d a s = Inr s' \<Longrightarrow> battle_runs bases s s'"
  unfolding damage_all_def Let_def by (cases d) (auto dest: runs_damage_all_emos)

lemma runs_battle_add_emo:
  assumes "battle_add_emo act p i e s = Inr s'" "find_base bases base_id = Inr base"
    and "bt_base_id e = eb_id base" "bt_attributes e = build_emo_attributes base t"
  shows "battle_runs bases s s'"
proof -
  from assms(1) obtain b where b: "get_board s p = Inr b" by (auto simp: battle_add_emo_def bindE_eq_Inr_iff)
  let ?n = "word_of_nat (length b) :: u8"
  let ?s = "put_board p (take (toNumber i) b @ e # drop (toNumber i) b)
        (battle_log (Log_Add (mtc_battle_Log_Add p i (bt_base_id e) (bt_attributes e))) s)"
  show ?thesis
  proof (cases "?n < BOARD_EMO_MAX_COUNT")
    case False
    with assms(1) b show ?thesis by (simp add: battle_add_emo_def Let_def)
  next
    case True
    with assms(1) b have i: "i \<le> ?n" by (auto simp: battle_add_emo_def Let_def split: if_splits)
    then have "\<not> ?n < i" by simp
    with assms(1) b True have "battle_runs bases ?s s'"
      by (simp add: battle_add_emo_def Let_def) (erule runs_for_abilities, erule runs_as_ally)
    with runs_step [OF entered [OF b True i assms(2-4)]] show ?thesis by (rule runs_trans)
  qed
qed

lemma runs_battle_set_emo:
  assumes "battle_set_emo act bases p i base_id t c d s = Inr s'"
  shows "battle_runs bases s s'"
proof -
  obtain base where base: "find_base bases base_id = Inr base"
    using assms by (auto simp: battle_set_emo_def bindE_eq_Inr_iff)
  let ?e = "with_battle_id (new_with_attributes base (build_emo_attributes base t)) (ba_next_id s)"
    and ?s = "s\<lparr>ba_next_id := ba_next_id s + 1\<rparr>"
  have e: "bt_base_id (?e\<lparr>bt_attack_and_survived_count := c\<rparr>) = eb_id base"
    "bt_attributes (?e\<lparr>bt_attack_and_survived_count := c\<rparr>) = build_emo_attributes base t" for c
    by (simp_all add: with_battle_id_def new_with_attributes_def BattleEmo.extend_def Fighter.fields_def)
  obtain q j c where "battle_add_emo act q j (?e\<lparr>bt_attack_and_survived_count := c\<rparr>) ?s = Inr s'"
    using assms
    by (auto simp: battle_set_emo_def base battle_new_with_base_def generate_battle_emo_id_def Let_def
        set_emo_ally_def set_emo_rival_def bindE_eq_Inr_iff split: emo_ability_Side.splits)
  from runs_battle_add_emo [OF this base e] show ?thesis
    by (rule runs_trans [OF runs_step [OF numbered]])
qed

lemma runs_set_emos_by_attack_div:
  "set_emos_by_attack_div act bases p c a t i base_id k d s = Inr s' \<Longrightarrow> battle_runs bases s s'"
  by (auto simp: set_emos_by_attack_div_def split: if_splits elim!: runs_foldE intro: runs_battle_set_emo)

lemmas runs_actions =
  runs_battle_set_emo runs_set_emos_by_attack_div runs_increase_stats runs_decrease_stats
  runs_increase_stats_by_emo_count runs_add_battle_ability runs_damage_all

lemma runs_with:
  assumes "call_ability_normal_action_with act rand bases p action i r t s = Inr s'"
  shows "battle_runs bases s s'"
proof -
  obtain k e j where "(case r of Some e \<Rightarrow> Inr (True, e, i)
      | None \<Rightarrow> mapR (\<lambda>e. (False, e, i + 1)) (battle_get_emo s p i)) = Inr (k, e, j)"
    using assms by (auto simp: call_ability_normal_action_with_def bindE_eq_Inr_iff)
  with assms show ?thesis
    unfolding call_ability_normal_action_with_def
    by (auto split: emo_ability_battle_NormalAction.splits
        emo_ability_battle_NormalAction_SetEmo.splits emo_ability_battle_NormalAction_SetEmosByAttackDiv.splits
        emo_ability_battle_NormalAction_IncreaseStats.splits emo_ability_battle_NormalAction_DecreaseStats.splits
        emo_ability_battle_NormalAction_IncreaseStatsByEmoCount.splits
        emo_ability_battle_NormalAction_AddBattleAbility.splits emo_ability_battle_NormalAction_DamageAll.splits
        dest: runs_actions)
qed

lemma runs_attack_damage:
  assumes "attack_damage act p i j s = Inr s'"
  shows "battle_runs bases s s'"
proof -
  from assms obtain a b there s1 where s1: "damage_emo act a (switch_player_index p) j s = Inr (there, s1)"
    and rest: "s' = s1 \<or> bindE (damage_emo act b p i s1) (\<lambda>(survived, s).
      if survived then mapR (\<lambda>e. put_emo p i
          (e\<lparr>bt_attack_and_survived_count := bt_attack_and_survived_count e + 1\<rparr>) s) (get_emo_mut s p i)
      else Inr s) = Inr s'"
    by (fastforce simp: attack_damage_def bindE_eq_Inr_iff Let_def split: if_splits)
  from rest have "battle_runs bases s1 s'"
    by (auto simp: bindE_eq_Inr_iff mapR_eq_Inr_iff split: if_splits
        intro: runs_damage_emo runs_trans [OF runs_damage_emo runs_step [OF counted]])
  with runs_damage_emo [OF s1] show ?thesis by (rule runs_trans)
qed

lemma runs_call_pre_abilities:
  "call_pre_abilities act p s = Inr s' \<Longrightarrow> battle_runs bases s s'"
  unfolding call_pre_abilities_def
  by (erule runs_foldE) (auto simp: bindE_eq_Inr_iff elim!: runs_for_abilities intro: runs_as_oneself)

end

section \<open>The march as a sequence of changes\<close>

lemma call_ability_normal_action_runs:
  "call_ability_normal_action depth rand bases p action i r t s = Inr s' \<Longrightarrow> battle_runs bases s s'"
proof (induction depth arbitrary: p action i r t s s')
  case (Suc depth)
  have "actor (call_ability_normal_action depth rand bases) bases"
    by unfold_locales (rule Suc.IH)
  from actor.runs_with [OF this] Suc.prems show ?case by simp
qed simp

interpretation caller: actor "call_ability_normal_action depth rand bases" bases for depth rand bases
  by unfold_locales (rule call_ability_normal_action_runs)

lemma runs_first_attack: "get_first_attack_player_index rand s = Inr (p, s') \<Longrightarrow> battle_runs bases s s'"
  by (auto simp: get_first_attack_player_index_def bindE_eq_Inr_iff split: if_splits prod.splits intro: runs_draw)

lemma runs_defense: "get_defense_emo_index rand b l s = Inr (j, s') \<Longrightarrow> battle_runs bases s s'"
  by (auto simp: get_defense_emo_index_def get_lowest_attack_emo_index_def bindE_eq_Inr_iff
      split: if_splits intro: runs_draw)

lemma same_boards_draw: "draw f s = (a, s') \<Longrightarrow> ba_boards s' = ba_boards s \<and> ba_logs s' = ba_logs s"
  by (auto simp: draw_def split: prod.splits)

text \<open>The log of an attack comes before its emojis are read; when the attack succeeds they were there.\<close>

lemma runs_attack:
  assumes "battle_attack rand (call_ability_normal_action depth rand bases) p s = Inr s'"
  shows "battle_runs bases s s'"
proof -
  from assms obtain i j s1 b l where
    "get_defense_emo_index rand b l s = Inr (j, s1)"
    and dmg: "attack_damage (call_ability_normal_action depth rand bases) p i j
      (battle_log (Log_Attack (mtc_battle_Log_Attack p i j)) s1) = Inr s'"
    by (auto simp: battle_attack_def get_attack_and_defense_emo_indexes_def bindE_eq_Inr_iff mapR_eq_Inr_iff)
  from runs_defense [OF this(1)] have "battle_runs bases s s1" .
  also from dmg obtain e d where "fighter_at s1 p i e" "fighter_at s1 (switch_player_index p) j d"
    by (auto simp: attack_damage_def bindE_eq_Inr_iff Let_def battle_get_emo_eq get_emo_mut_eq battle_log_def)
  then have "battle_runs bases s1 (battle_log (Log_Attack (mtc_battle_Log_Attack p i j)) s1)"
    by (intro runs_step attacked)
  also have "battle_runs bases \<dots> s'"
    by (rule caller.runs_attack_damage [OF dmg])
  finally show ?thesis .
qed

lemma march_loop_ends:
  "march_loop rand (call_ability_normal_action depth rand bases) bases first n num s = Inr (g0, g1, s') \<Longrightarrow>
   battle_runs bases s s' \<and> get_remaining_grades_if_finished s' bases = Inr (Some (g0, g1))"
proof (induction n arbitrary: num s)
  case (Suc n)
  then obtain s1 where s1: "battle_runs bases s s1"
    and r: "get_remaining_grades_if_finished s1 bases = Inr (Some (g0, g1)) \<and> s' = s1 \<or>
      march_loop rand (call_ability_normal_action depth rand bases) bases first n (num + 1) s1 = Inr (g0, g1, s')"
    by (auto simp: bindE_eq_Inr_iff split: option.splits dest!: runs_attack)
  from r show ?case
    using s1 Suc.IH by (auto intro: runs_trans)
qed simp

lemma march_boards_ends:
  assumes "march_boards rand depth next_id emos0 emos1 seed bases = Inr (g0, g1, s)"
  shows "battle_runs bases (march_start rand next_id emos0 emos1 seed) s"
    "get_remaining_grades_if_finished s bases = Inr (Some (g0, g1))"
proof -
  let ?act = "call_ability_normal_action depth rand bases"
  from assms obtain first s1 s2 where
    s1: "get_first_attack_player_index rand (march_start rand next_id emos0 emos1 seed) = Inr (first, s1)"
    and s2: "call_pre_abilities ?act first s1 = Inr s2"
    and r: "get_remaining_grades_if_finished s2 bases = Inr (Some (g0, g1)) \<and> s = s2 \<or>
      march_loop rand ?act bases first 255 1 s2 = Inr (g0, g1, s)"
    by (auto simp: march_boards_def bindE_eq_Inr_iff Let_def simp del: march_loop.simps split: option.splits)
  from runs_first_attack [OF s1] caller.runs_call_pre_abilities [OF s2]
  have "battle_runs bases (march_start rand next_id emos0 emos1 seed) s2" by (rule runs_trans)
  with r march_loop_ends show "battle_runs bases (march_start rand next_id emos0 emos1 seed) s"
    "get_remaining_grades_if_finished s bases = Inr (Some (g0, g1))"
    by (blast intro: runs_trans)+
qed

section \<open>The size of the boards\<close>

definition two_boards :: "'rng battle_state \<Rightarrow> bool" where
  "two_boards s \<longleftrightarrow> length (ba_boards s) = 2 \<and> list_all (\<lambda>b. length b \<le> 7) (ba_boards s)"

lemma boards_put [simp]:
  "ba_boards (put_board p b s) = (ba_boards s)[toNumber p := b]"
  "ba_boards (put_emo p i e s) =
     (ba_boards s)[toNumber p := (ba_boards s ! toNumber p)[toNumber i := e]]"
  "ba_boards (battle_log l s) = ba_boards s"
  by (simp_all add: put_board_def put_emo_def battle_log_def)

lemma logs_put [simp]:
  "ba_logs (put_board p b s) = ba_logs s" "ba_logs (put_emo p i e s) = ba_logs s"
  "ba_logs (battle_log l s) = ba_logs s @ [l]"
  by (simp_all add: put_board_def put_emo_def battle_log_def)

lemma two_boards_nth: "two_boards s \<Longrightarrow> toNumber p < length (ba_boards s) \<Longrightarrow> length (ba_boards s ! toNumber p) \<le> 7"
  by (simp add: two_boards_def list_all_length)

lemma two_boards_update:
  "two_boards s \<Longrightarrow> length b \<le> 7 \<Longrightarrow> ba_boards s' = (ba_boards s)[toNumber p := b] \<Longrightarrow> two_boards s'"
  by (auto simp: two_boards_def list_all_iff dest!: set_update_subset_insert [THEN subsetD])

lemma lengths_put_emo [simp]: "map length (ba_boards (put_emo p i e s)) = map length (ba_boards s)"
proof (rule nth_equalityI)
  fix k assume "k < length (map length (ba_boards (put_emo p i e s)))"
  then show "map length (ba_boards (put_emo p i e s)) ! k = map length (ba_boards s) ! k"
    by (cases "k = toNumber p") simp_all
qed simp

lemma two_boards_same:
  fixes s s' :: "'rng battle_state"
  shows "two_boards s \<Longrightarrow> map length (ba_boards s') = map length (ba_boards s) \<Longrightarrow> two_boards s'"
proof -
  have "two_boards s \<longleftrightarrow> length (map length (ba_boards s)) = 2 \<and> list_all (\<lambda>n. n \<le> 7) (map length (ba_boards s))"
    for s :: "'rng battle_state"
    by (simp add: two_boards_def list_all_iff)
  then show "two_boards s \<Longrightarrow> map length (ba_boards s') = map length (ba_boards s) \<Longrightarrow> two_boards s'"
    by (simp only:)
qed

lemma change_two_boards: "battle_change bases s s' \<Longrightarrow> two_boards s \<Longrightarrow> two_boards s'"
proof (induction rule: battle_change.induct)
  case (retired s p i e b d)
  then show ?case
    using two_boards_nth [of s p]
    by (intro two_boards_update [OF retired.prems,
          of "take (toNumber i) b @ drop (Suc (toNumber i)) b" _ p]) (auto simp: get_emo_mut_eq)
next
  case (entered s p b i base_id base e t)
  have "length b \<le> 7"
    using entered.hyps(1) entered.prems by (auto simp: get_board_eq two_boards_nth)
  then have "length b < 7" "toNumber i \<le> length b"
    using entered.hyps(2,3)
    by (simp_all add: BOARD_EMO_MAX_COUNT_def word_less_nat_alt word_le_nat_alt unat_of_nat)
  then show ?case
    by (intro two_boards_update [OF entered.prems, of "take (toNumber i) b @ e # drop (toNumber i) b" _ p])
      simp_all
qed (erule two_boards_same, simp del: boards_put(2))+

lemma runs_two_boards: "battle_runs bases s s' \<Longrightarrow> two_boards s \<Longrightarrow> two_boards s'"
  by (induction rule: rtranclp_induct) (auto intro: change_two_boards)

lemma length_with_battle_ids [simp]: "length (with_battle_ids es i) = length es"
  by (induction es i rule: with_battle_ids.induct) auto

lemma march_start_two_boards:
  "length emos0 \<le> 7 \<Longrightarrow> length emos1 \<le> 7 \<Longrightarrow> two_boards (march_start rand next_id emos0 emos1 seed)"
  by (simp add: two_boards_def march_start_def)

section \<open>The grades that are left\<close>

lemma minus_one: "\<not> toNumber a + toNumber b < 256 \<Longrightarrow> toNumber (- 1 :: u8) \<le> toNumber a + toNumber (b :: u8)"
  by (simp add: unsigned_minus_1_eq_mask mask_eq_exp_minus_1)

lemma sum_grades_le:
  assumes "bases_graded bases"
  shows "foldE (\<lambda>sum' e. mapR (\<lambda>base. saturating_add sum' (eb_grade base)) (find_base bases (bt_base_id e)))
      g es = Inr g' \<Longrightarrow> toNumber g' \<le> toNumber g + 6 * length es"
proof (induction es arbitrary: g)
  case (Cons e es)
  then obtain base where base: "find_base bases (bt_base_id e) = Inr base"
    and "toNumber g' \<le> toNumber (saturating_add g (eb_grade base)) + 6 * length es"
    by (auto simp: bindE_eq_Inr_iff mapR_eq_Inr_iff)
  moreover have "toNumber (eb_grade base) \<le> 6"
    using assms base by (auto simp: bases_graded_def word_le_nat_alt)
  moreover have "toNumber (saturating_add g (eb_grade base)) \<le> toNumber g + toNumber (eb_grade base)"
    using minus_one [of g "eb_grade base"]
    by (auto simp: saturating_add_def word_less_nat_alt unat_plus_if' split: if_splits)
  ultimately show ?case by simp
qed simp

text \<open>A march that returns has emptied a board, and what is left of the other is no more than a board.\<close>

lemma finished_grades:
  assumes "get_remaining_grades_if_finished s bases = Inr (Some (g0, g1))" "two_boards s"
  obtains b0 b1 where "ba_boards s = [b0, b1]" "b0 = [] \<or> b1 = []" "length b0 \<le> 7" "length b1 \<le> 7"
    "sum_grades b0 bases = Inr g0" "sum_grades b1 bases = Inr g1"
proof -
  from assms(2) obtain b0 b1 where b: "ba_boards s = [b0, b1]" "length b0 \<le> 7" "length b1 \<le> 7"
    by (auto simp: two_boards_def numeral_2_eq_2 length_Suc_conv)
  then show ?thesis
    using assms(1) that
    by (auto simp: get_remaining_grades_if_finished_def is_empty_board_def bindE_eq_Inr_iff mapR_eq_Inr_iff
        get_board_eq split: if_splits)
qed

text \<open>What the rest of the development relies on.\<close>

lemma sum_grades_7:
  "bases_graded bases \<Longrightarrow> sum_grades es bases = Inr g \<Longrightarrow> length es \<le> 7 \<Longrightarrow> toNumber g \<le> 42"
  using sum_grades_le [of bases 0 es g] by (simp add: sum_grades_def)

lemma rust_march_fair: "march_fair (rust_march rand depth next_id)"
  unfolding march_fair_def
proof (intro allI impI)
  fix emos0 emos1 seed bases b0 b1 logs
  assume "length emos0 \<le> 7 \<and> length emos1 \<le> 7 \<and> bases_graded bases \<and>
    rust_march rand depth next_id emos0 emos1 seed bases = Inr (b0, b1, logs)"
  then obtain s where len: "length emos0 \<le> 7" "length emos1 \<le> 7" and bases: "bases_graded bases"
    and m: "march_boards rand depth next_id emos0 emos1 seed bases = Inr (b0, b1, s)"
    by (auto simp: rust_march_def mapR_eq_Inr_iff)
  have "two_boards s"
    by (rule runs_two_boards [OF march_boards_ends(1) [OF m] march_start_two_boards [OF len]])
  then obtain c0 c1 where c: "c0 = [] \<or> c1 = []" "length c0 \<le> 7" "length c1 \<le> 7"
      "sum_grades c0 bases = Inr b0" "sum_grades c1 bases = Inr b1"
    by (rule finished_grades [OF march_boards_ends(2) [OF m]])
  then have "b0 = 0 \<or> b1 = 0"
    by (auto simp: sum_grades_def)
  then show "(b0 = 0 \<or> b1 = 0) \<and> toNumber b0 \<le> 42 \<and> toNumber b1 \<le> 42"
    using sum_grades_7 [OF bases] c by blast
qed

end
