(* ===== verification/BattleView.thy ===== *)
theory BattleView
  imports EmoView BattleAnimation
begin

text \<open>
  What a viewer of a battle sees, as a state of its own: \<open>show_log\<close> says what each log does to
  it. The document shows a view when its boards have the shape of emojis' elements with no number
  left over from an animation; every operation of the animation keeps that relation, an error on
  one side being the same error on the other.
\<close>

definition shows_boards :: "boards \<Rightarrow> emo_view list list \<Rightarrow> bool" where
  "shows_boards = list_all2 shows_board"

section \<open>What a log does to a view\<close>

definition on_view ::
  "(emo_view list \<Rightarrow> emo_view list js) \<Rightarrow> nat \<Rightarrow> emo_view list list \<Rightarrow> emo_view list list js" where
  "on_view f player vss =
     bindE (orTypeError (js_at vss player)) (\<lambda>vs. mapR (\<lambda>vs'. vss[player := vs']) (f vs))"

definition show_stats :: "mtc_battle_Log_IncreaseStats \<Rightarrow> emo_view list list \<Rightarrow> emo_view list list js" where
  "show_stats p =
     on_view (view_at (\<lambda>v. Inr (change_view (stats_change_of p) v)) (sc_index (stats_change_of p)))
       (toNumber (ls_player_index p))"

fun show_log ::
  "to_json \<Rightarrow> names \<Rightarrow> EmoBases \<Rightarrow> emo_view list list \<Rightarrow> mtc_battle_Log \<Rightarrow> emo_view list list js" where
  "show_log json emoNames bases vss (Log_Attack (mtc_battle_Log_Attack p i j)) =
     bindE (on_view (view_at Inr (toNumber i)) (toNumber p) vss) (\<lambda>_.
       on_view (view_at Inr (toNumber j)) (toNumber (switchPlayerIndex p)) vss)"
| "show_log json emoNames bases vss (Log_Damage (mtc_battle_Log_Damage p i d h)) =
     on_view (view_at (\<lambda>v. Inr (v\<lparr>ev_health := toStringU h\<rparr>)) (toNumber i)) (toNumber p) vss"
| "show_log json emoNames bases vss (Log_Remove (mtc_battle_Log_Remove p i)) =
     on_view (view_remove (toNumber i)) (toNumber p) vss"
| "show_log json emoNames bases vss (Log_Add (mtc_battle_Log_Add p i base_id attributes)) =
     bindE (new_emo json emoNames bases
              \<lparr>be_base_id = base_id, be_attributes = attributes, be_mtc_emo_ids = []\<rparr>) (\<lambda>d.
       on_view (\<lambda>vs. Inr (insert_before (toNumber i) (view d) vs)) (toNumber p) vss)"
| "show_log json emoNames bases vss (Log_IncreaseStats p) = show_stats p vss"
| "show_log json emoNames bases vss (Log_DecreaseStats p) = show_stats p vss"
| "show_log json emoNames bases vss
     (Log_AddBattleAbility (mtc_battle_Log_AddBattleAbility p i ability isTriple)) =
     on_view (view_at (\<lambda>v.
       bindE (buildEmoAbilityText json emoNames (Ability_Battle ability) isTriple bases) (\<lambda>t.
         special_of ability True (v\<lparr>ev_rows := ev_rows v @ [text_row t]\<rparr>))) (toNumber i)) (toNumber p) vss"
| "show_log json emoNames bases vss
     (Log_RemoveBattleAbility (mtc_battle_Log_RemoveBattleAbility p i k ability)) =
     on_view (view_at (\<lambda>v.
       if toNumber k < length (ev_rows v)
       then special_of ability False
              (v\<lparr>ev_rows := take (toNumber k) (ev_rows v) @ drop (Suc (toNumber k)) (ev_rows v)\<rparr>)
       else Inl JsTypeError) (toNumber i)) (toNumber p) vss"

section \<open>Simulation\<close>

lemma on_board_same:
  assumes f: "\<And>b vs. shows_board b vs \<Longrightarrow> same shows_board (f b) (g vs)" and s: "shows_boards bs vss"
  shows "same shows_boards (on_board f i bs) (on_view g i vss)"
proof (cases "i < length bs")
  case True
  with s have "shows_board (bs ! i) (vss ! i)" "i < length vss"
    by (auto simp: shows_boards_def list_all2_conv_all_nth)
  with f have "same shows_board (f (bs ! i)) (g (vss ! i))" by blast
  then show ?thesis
    using True \<open>i < length vss\<close> s
    by (auto simp: on_board_def on_view_def js_at_def shows_boards_def intro!: same_mapR list_all2_update_cong)
next
  case False
  with s show ?thesis
    by (auto simp: on_board_def on_view_def js_at_def shows_boards_def dest: list_all2_lengthD)
qed

lemma on_body_same:
  assumes "\<And>p. calm p \<Longrightarrow> \<exists>q. update_at [0] f (emo_dom p) = emo_dom q \<and> calm q \<and> view q = view p"
    and "shows_boards bs vss"
  shows "same shows_boards (on_body f pl ei bs) (on_view (view_at Inr (toNumber ei)) (toNumber pl) vss)"
  unfolding on_body_def
proof (rule on_board_same [OF change_child_same assms(2)])
  fix p assume "calm p"
  with assms(1) obtain q where "update_at [0] f (emo_dom p) = emo_dom q" "calm q" "view q = view p"
    by blast
  then show "same shows_emo (mapR (\<lambda>p'. update_at p' f (emo_dom p)) (getEmoBodyOuterFromEmo (emo_dom p)))
      (Inr (view p))"
    by (auto intro: shows_emoI)
qed assumption

section \<open>One log at a time\<close>

lemma changeStats_same:
  "shows_boards bs vss \<Longrightarrow> same shows_boards (changeStats s p bs) (show_stats p vss)"
  unfolding changeStats_def show_stats_def by (rule on_board_same [OF updateStats_same])

lemma on_view_id: "on_view (view_at Inr i) p vss = Inr vss' \<Longrightarrow> vss' = vss"
  by (auto simp: on_view_def view_at_def bindE_eq_Inr_iff orTypeError_eq_Inr_iff js_at_eq_Some_iff
      split: if_splits)

lemma body_steps:
  "calm p \<Longrightarrow> \<exists>q. update_at [0] (set_style k v) (emo_dom p) = emo_dom q \<and> calm q \<and> view q = view p"
  "calm p \<Longrightarrow> \<exists>q. update_at [0] (animateIndefinitely kf) (emo_dom p) = emo_dom q \<and> calm q \<and> view q = view p"
  "calm p \<Longrightarrow> \<exists>q. update_at [0] (\<lambda>b. b) (emo_dom p) = emo_dom q \<and> calm q \<and> view q = view p"
  unfolding update_body
  by (metis view_simps(1,3), metis view_animate_body, intro exI [of _ p], simp add: emo_dom_def)

lemma attack_same:
  assumes s: "shows_boards bs vss"
  shows "same shows_boards (attack p bs) (show_log json emoNames bases vss (Log_Attack p))"
proof (cases p)
  case (mtc_battle_Log_Attack pl i j)
  let ?a = "on_view (view_at Inr (toNumber i)) (toNumber pl)"
  let ?d = "on_view (view_at Inr (toNumber j)) (toNumber (switchPlayerIndex pl))"
  have a: "same shows_boards (on_body f pl i b) (?a vss)"
    if "shows_boards b vss" "f = (\<lambda>x. x) \<or> (\<exists>k v. f = set_style k v) \<or> (\<exists>kf. f = animateIndefinitely kf)"
    for f b
    using that body_steps by (intro on_body_same) auto
  have d: "same shows_boards (on_body f (switchPlayerIndex pl) j b) (?d vss)"
    if "shows_boards b vss" "f = (\<lambda>x. x) \<or> (\<exists>k v. f = set_style k v) \<or> (\<exists>kf. f = animateIndefinitely kf)"
    for f b
    using that body_steps by (intro on_body_same) auto
  show ?thesis
  proof (cases "?a vss")
    case (Inl e)
    with a [OF s, of "\<lambda>x. x"] show ?thesis
      by (cases "on_body (\<lambda>x. x) pl i bs") (auto simp: attack_def mtc_battle_Log_Attack)
  next
    case va: (Inr v)
    with on_view_id have va: "?a vss = Inr vss" by metis
    show ?thesis
    proof (cases "?d vss")
      case (Inl e)
      obtain b where b: "on_body (\<lambda>x. x) pl i bs = Inr b" "shows_boards b vss"
        using a [OF s, of "\<lambda>x. x"] va by (cases "on_body (\<lambda>x. x) pl i bs") auto
      with d [OF b(2), of "\<lambda>x. x"] Inl show ?thesis
        by (cases "on_body (\<lambda>x. x) (switchPlayerIndex pl) j b")
          (auto simp: attack_def mtc_battle_Log_Attack va)
    next
      case (Inr v)
      with on_view_id have vd: "?d vss = Inr vss" by metis
      have "same shows_boards (attack p bs) (Inr vss)"
        unfolding attack_def mtc_battle_Log_Attack mtc_battle_Log_Attack.case Let_def
        by (intro same_again [where v = vss] a [unfolded va] d [unfolded vd] s) (auto simp: s)
      then show ?thesis by (simp add: mtc_battle_Log_Attack va vd)
    qed
  qed
qed

lemma damages_dom:
  "update_at [0, 0] (appendChild e) (emo_dom p) = emo_dom (p\<lparr>ep_damages := ep_damages p @ [e]\<rparr>)"
  "ep_damages p = [e] \<Longrightarrow> update_at [0, 0, 5] f (emo_dom p) = emo_dom (p\<lparr>ep_damages := [f e]\<rparr>)"
  "ep_damages p = [e] \<Longrightarrow> update_at [0, 0] (removeChildAt 5) (emo_dom p) = emo_dom (p\<lparr>ep_damages := []\<rparr>)"
  by (simp_all add: emo_dom_def body_dom_def info_dom_def specials_dom_def removeChildAt_def)

lemma inner_children: "\<exists>e. node_at (emo_dom p) [0, 0] = Some e \<and> length (children e) = 5 + length (ep_damages p)"
  by (simp add: emo_dom_def body_dom_def js_at_def)

lemma set_stat_damages [simp]:
  "ep_damages (set_stat k s v p) = ep_damages p" "ep_diffs (set_stat k s v p) = ep_diffs p"
  "set_stat k s v (p\<lparr>ep_damages := x\<rparr>) = (set_stat k s v p)\<lparr>ep_damages := x\<rparr>"
  by (cases k; simp add: set_stat_def)+

lemma damage_same:
  assumes "shows_boards bs vss"
  shows "same shows_boards (damage p bs) (show_log json emoNames bases vss (Log_Damage p))"
proof (cases p)
  case (mtc_battle_Log_Damage pl i d h)
  show ?thesis
    unfolding damage_def mtc_battle_Log_Damage mtc_battle_Log_Damage.case show_log.simps
  proof (rule on_board_same [OF change_child_same assms])
    fix q assume q: "calm q"
    then have no: "ep_damages q = []" by (simp add: calm_def)
    obtain e where e: "node_at (emo_dom q) [0, 0] = Some e" "length (children e) = 5"
      using inner_children [of q] no by auto
    have "calm (set_stat Health Negative (toStringU h) q)"
      "view (set_stat Health Negative (toStringU h) q) = (view q)\<lparr>ev_health := toStringU h\<rparr>"
      using q by (simp_all add: calm_def view_def set_stat_def)
    moreover have "(set_stat Health Negative (toStringU h) q)\<lparr>ep_damages := []\<rparr> =
        set_stat Health Negative (toStringU h) q"
      using no by (cases q) (simp add: set_stat_def)
    ultimately have "shows_emo (emo_dom ((set_stat Health Negative (toStringU h) q)\<lparr>ep_damages := []\<rparr>))
        ((view q)\<lparr>ev_health := toStringU h\<rparr>)"
      by (metis shows_emoI)
    then show "same shows_emo
        (bindE (getEmoBodyInnerFromEmo (emo_dom q)) (\<lambda>inner.
         bindE (orTypeError (node_at (emo_dom q) inner)) (\<lambda>innerElement.
           let k = length (children innerElement);
               damageEl = set_style ''opacity'' ''0'' (createEmoDamage (toStringU d));
               emoElement = update_at inner (appendChild damageEl) (emo_dom q);
               emoElement = update_at (inner @ [k])
                 (animateIndefinitely
                   [(''opacity'', [''0'', ''1'', ''1'']),
                    (''transform'', [''scale(0.7)'', ''scale(1.3)'', ''scale(0.9)'', ''scale(1)''])])
                 emoElement
           in mapR (update_at inner (removeChildAt k))
                (updateEmoStat Health Negative (toStringU h) emoElement))))
        (Inr ((view q)\<lparr>ev_health := toStringU h\<rparr>))"
      by (simp add: e damages_dom no Let_def del: update_at.simps node_at.simps)
  qed assumption
qed

lemma remove_same:
  "shows_boards bs vss \<Longrightarrow>
   same shows_boards (remove p bs) (show_log json emoNames bases vss (Log_Remove p))"
  by (cases p) (simp add: remove_def on_board_same [OF display.leave_law])

lemma add_same:
  assumes "shows_boards bs vss"
  shows "same shows_boards (add json emoNames bases p bs) (show_log json emoNames bases vss (Log_Add p))"
proof (cases p)
  case (mtc_battle_Log_Add pl i base_id attributes)
  let ?e = "\<lparr>be_base_id = base_id, be_attributes = attributes, be_mtc_emo_ids = []\<rparr>"
  show ?thesis
  proof (cases "new_emo json emoNames bases ?e")
    case (Inl e)
    then show ?thesis by (simp add: add_def mtc_battle_Log_Add createEmoWithBoardEmo_eq)
  next
    case (Inr d)
    have "same shows_boards
        (on_board (addEmoToBoard json emoNames ?e (toNumber i) bases) (toNumber pl) bs)
        (on_view (\<lambda>vs. Inr (insert_before (toNumber i) (view d) vs)) (toNumber pl) vss)"
    proof (rule on_board_same [OF _ assms])
      fix b vs assume "shows_board b vs"
      from display.enter_law [OF this, where i = "toNumber i" and e = ?e and json = json
          and emoNames = emoNames and bases = bases]
      show "same shows_board (addEmoToBoard json emoNames ?e (toNumber i) bases b)
          (Inr (insert_before (toNumber i) (view d) vs))"
        by (simp add: Inr)
    qed
    then show ?thesis
      by (simp add: add_def mtc_battle_Log_Add createEmoWithBoardEmo_eq Inr)
  qed
qed

lemma addBattleAbility_same:
  assumes "shows_boards bs vss"
  shows "same shows_boards (addBattleAbility json emoNames bases p bs)
    (show_log json emoNames bases vss (Log_AddBattleAbility p))"
proof (cases p)
  case (mtc_battle_Log_AddBattleAbility pl i ability t)
  show ?thesis
    unfolding addBattleAbility_def mtc_battle_Log_AddBattleAbility mtc_battle_Log_AddBattleAbility.case
      show_log.simps
  proof (rule on_board_same [OF change_child_same assms])
    fix q assume q: "calm q"
    then have no: "ep_damages q = []" by (simp add: calm_def)
    show "same shows_emo
        (bindE (addInfoAbility json emoNames (Ability_Battle ability) t bases (emo_dom q))
          (\<lambda>e. case ability of Battle_Special s \<Rightarrow> addSpecial (special_type s) e | _ \<Rightarrow> Inr e))
        (bindE (buildEmoAbilityText json emoNames (Ability_Battle ability) t bases) (\<lambda>x.
          special_of ability True ((view q)\<lparr>ev_rows := ev_rows (view q) @ [text_row x]\<rparr>)))"
    proof (cases "buildEmoAbilityText json emoNames (Ability_Battle ability) t bases")
      case (Inr x)
      let ?q = "q\<lparr>ep_rows := ep_rows q @ [text_row x]\<rparr>"
      have "ev_rows (view q) = ep_rows q" by (simp add: view_def)
      then show ?thesis
        using set_special_same [of ?q "special_type s" "''inline''" for s] q Inr
        by (cases ability) (auto simp: no special_of_def calm_rows intro: shows_emoI)
    qed (simp add: no)
  qed assumption
qed

lemma removeBattleAbility_same:
  assumes "shows_boards bs vss"
  shows "same shows_boards (removeBattleAbility p bs)
    (show_log json emoNames bases vss (Log_RemoveBattleAbility p))"
proof (cases p)
  case (mtc_battle_Log_RemoveBattleAbility pl i k ability)
  show ?thesis
    unfolding removeBattleAbility_def mtc_battle_Log_RemoveBattleAbility
      mtc_battle_Log_RemoveBattleAbility.case show_log.simps
  proof (rule on_board_same [OF change_child_same assms])
    fix q assume q: "calm q"
    then have no: "ep_damages q = []" by (simp add: calm_def)
    let ?r = "take (toNumber k) (ep_rows q) @ drop (Suc (toNumber k)) (ep_rows q)"
    have "ev_rows (view q) = ep_rows q" by (simp add: view_def)
    then show "same shows_emo
        (bindE (removeInfoAbility (toNumber k) (emo_dom q))
          (\<lambda>e. case ability of Battle_Special s \<Rightarrow> removeSpecial (special_type s) e | _ \<Rightarrow> Inr e))
        (if toNumber k < length (ev_rows (view q))
         then special_of ability False ((view q)\<lparr>ev_rows :=
                take (toNumber k) (ev_rows (view q)) @ drop (Suc (toNumber k)) (ev_rows (view q))\<rparr>)
         else Inl JsTypeError)"
      using set_special_same [of "q\<lparr>ep_rows := ?r\<rparr>" "special_type s" "''none''" for s] q
      by (cases ability) (auto simp: no removeInfoAbility_dom special_of_def calm_rows intro: shows_emoI)
  qed assumption
qed

section \<open>A batch is as good as its changes one after the other\<close>

text \<open>Each change of the list updates the element at its own index.\<close>

definition upds :: "(stats_change \<Rightarrow> 'a \<Rightarrow> 'a) \<Rightarrow> stats_change list \<Rightarrow> 'a list \<Rightarrow> 'a list" where
  "upds f cs ds = foldl (\<lambda>ds c. ds[sc_index c := f c (ds ! sc_index c)]) ds cs"

lemma upds_simps [simp]:
  "upds f [] ds = ds" "upds f (c # cs) ds = upds f cs (ds[sc_index c := f c (ds ! sc_index c)])"
  by (simp_all add: upds_def)

lemma length_upds [simp]: "length (upds f cs ds) = length ds"
  by (induction cs arbitrary: ds) auto

lemma upds_other: "i \<notin> sc_index ` set cs \<Longrightarrow> i < length ds \<Longrightarrow> upds f cs ds ! i = ds ! i"
  by (induction cs arbitrary: ds) auto

lemma upds_at:
  "distinct (map sc_index cs) \<Longrightarrow> c \<in> set cs \<Longrightarrow> sc_index c < length ds \<Longrightarrow>
   upds f cs ds ! sc_index c = f c (ds ! sc_index c)"
proof (induction cs arbitrary: ds)
  case (Cons a cs)
  then show ?case
    by (cases "c = a") (auto simp: upds_other nth_list_update image_iff)
qed simp

lemma upds_three:
  assumes "distinct (map sc_index cs)" "\<forall>c\<in>set cs. sc_index c < length ds"
    and "\<And>c d. d \<in> set ds \<Longrightarrow> h c d = f3 c (f2 c (f1 c d))"
  shows "upds f3 cs (upds f2 cs (upds f1 cs ds)) = upds h cs ds"
proof (rule nth_equalityI)
  fix i assume "i < length (upds f3 cs (upds f2 cs (upds f1 cs ds)))"
  then have i: "i < length ds" by simp
  show "upds f3 cs (upds f2 cs (upds f1 cs ds)) ! i = upds h cs ds ! i"
  proof (cases "i \<in> sc_index ` set cs")
    case True
    then obtain c where "c \<in> set cs" "i = sc_index c" by auto
    with assms i show ?thesis by (simp add: upds_at)
  qed (use i in \<open>simp add: upds_other\<close>)
qed simp

text \<open>A pass over a board stops at the first index that is out of range.\<close>

definition out_of :: "nat \<Rightarrow> stats_change list \<Rightarrow> stats_change option" where
  "out_of n cs = find (\<lambda>c. n \<le> sc_index c) cs"

lemma pass_board:
  assumes F: "\<And>c ds. Q ds \<Longrightarrow> F c (board_dom cls st ds) =
      (if sc_index c < length ds then Inr (board_dom cls st (ds[sc_index c := f c (ds ! sc_index c)]))
       else throwError (''not found div: '' @ show_nat (sc_index c)))"
    and Q: "\<And>c ds. Q ds \<Longrightarrow> sc_index c < length ds \<Longrightarrow> Q (ds[sc_index c := f c (ds ! sc_index c)])"
    and ds: "Q ds"
  shows "foldE (\<lambda>b c. F c b) (board_dom cls st ds) cs =
      (case out_of (length ds) cs of
         Some c \<Rightarrow> throwError (''not found div: '' @ show_nat (sc_index c))
       | None \<Rightarrow> Inr (board_dom cls st (upds f cs ds)))"
  using ds
proof (induction cs arbitrary: ds)
  case Nil
  then show ?case by (simp add: out_of_def)
next
  case (Cons c cs)
  then show ?case
    by (cases "sc_index c < length ds") (auto simp: F Q out_of_def split: option.split)
qed

lemma out_of_None: "out_of n cs = None \<longleftrightarrow> (\<forall>c\<in>set cs. sc_index c < n)"
  by (auto simp: out_of_def find_None_iff)

lemma pass_three:
  assumes "distinct (map sc_index cs)" "\<forall>p\<in>set ds. calm p"
  shows "bindE (foldE (\<lambda>b c. updateStats_start s c b) (board_dom cls st ds) cs) (\<lambda>b.
         bindE (foldE (\<lambda>b c. updateStats_middle s c b) b cs) (\<lambda>b.
           foldE (\<lambda>b c. updateStats_end s c b) b cs)) =
       foldE (\<lambda>b c. updateStats s c b) (board_dom cls st ds) cs"
proof -
  have start: "foldE (\<lambda>b c. updateStats_start s c b) (board_dom cls st ds) cs =
      (case out_of (length ds) cs of
         Some c \<Rightarrow> throwError (''not found div: '' @ show_nat (sc_index c))
       | None \<Rightarrow> Inr (board_dom cls st (upds (start_parts s) cs ds)))" for ds
    by (rule pass_board [where Q = "\<lambda>_. True"]) (simp_all add: updateStats_start_board)
  have middle: "foldE (\<lambda>b c. updateStats_middle s c b) (board_dom cls st ds) cs =
      (case out_of (length ds) cs of
         Some c \<Rightarrow> throwError (''not found div: '' @ show_nat (sc_index c))
       | None \<Rightarrow> Inr (board_dom cls st (upds (change_parts s) cs ds)))" for ds
    by (rule pass_board [where Q = "\<lambda>_. True"]) (simp_all add: updateStats_middle_board)
  have last: "foldE (\<lambda>b c. updateStats_end s c b) (board_dom cls st ds) cs =
      (case out_of (length ds) cs of
         Some c \<Rightarrow> throwError (''not found div: '' @ show_nat (sc_index c))
       | None \<Rightarrow> Inr (board_dom cls st (upds (end_parts s) cs ds)))" for ds
    by (rule pass_board [where Q = "\<lambda>_. True"]) (simp_all add: updateStats_end_board)
  have seq: "foldE (\<lambda>b c. updateStats s c b) (board_dom cls st ds) cs =
      (case out_of (length ds) cs of
         Some c \<Rightarrow> throwError (''not found div: '' @ show_nat (sc_index c))
       | None \<Rightarrow> Inr (board_dom cls st (upds (change_parts s) cs ds)))"
    by (rule pass_board [where Q = "\<lambda>ds. \<forall>p\<in>set ds. ep_diffs p = []"])
      (use assms(2) in \<open>auto simp: updateStats_board calm_def
        dest!: set_update_subset_insert [THEN subsetD]\<close>)
  show ?thesis
  proof (cases "out_of (length ds) cs")
    case None
    then have "upds (end_parts s) cs (upds (change_parts s) cs (upds (start_parts s) cs ds)) =
        upds (change_parts s) cs ds"
      using assms by (intro upds_three) (auto simp: out_of_None three_parts calm_def)
    with None show ?thesis by (simp add: start middle last seq)
  qed (simp add: start seq)
qed

text \<open>All the calls of a batch are on one board.\<close>

lemma mapR_overwrite [simp]: "mapR (list_update (bs[i := b]) i) m = mapR (list_update bs i) m"
  by (cases m) auto

lemma foldE_on_board:
  assumes "i < length bs" "\<forall>p\<in>set ps. idx p = i"
  shows "foldE (\<lambda>bs p. on_board (h p) (idx p) bs) bs ps =
    mapR (\<lambda>b. bs[i := b]) (foldE (\<lambda>b p. h p b) (bs ! i) ps)"
  using assms
proof (induction ps arbitrary: bs)
  case (Cons p ps)
  then show ?case
    by (cases "h p (bs ! i)") (auto simp: on_board_def js_at_def)
qed simp

lemma foldE_map: "foldE (\<lambda>s x. f s (g x)) s xs = foldE f s (map g xs)"
  by (induction xs arbitrary: s) auto

lemma changeStats_all_eq:
  assumes s: "shows_boards bs vss"
    and same_player: "\<forall>p\<in>set ps. ls_player_index p = pl"
    and distinct: "distinct (map ls_emo_index ps)"
  shows "changeStats_all s ps bs = foldE (\<lambda>bs p. changeStats s p bs) bs ps"
proof (cases "toNumber pl < length bs")
  case False
  then show ?thesis
    using same_player
    by (cases ps) (simp_all add: changeStats_all_def stats_phase_def changeStats_def on_board_def js_at_def)
next
  case True
  let ?i = "toNumber pl" and ?cs = "map stats_change_of ps"
  have idx: "\<forall>p\<in>set ps. toNumber (ls_player_index p) = ?i"
    using same_player by simp
  obtain cls st ds where b: "bs ! ?i = board_dom cls st ds" "\<forall>p\<in>set ds. calm p"
    using s True by (auto simp: shows_boards_def list_all2_conv_all_nth elim!: shows_boardE)
  have "distinct (map sc_index ?cs)"
    using distinct by (simp add: stats_change_of_def comp_def distinct_map inj_on_def word_unat_eq_iff)
  note three = pass_three [OF this b(2), of s cls st]
  have phase: "stats_phase part s bs' ps = mapR (\<lambda>b. bs'[?i := b]) (foldE (\<lambda>b c. part s c b) (bs' ! ?i) ?cs)"
    if "length bs' = length bs" for part bs'
    unfolding stats_phase_def
    using that True idx foldE_on_board [of ?i bs' ps "\<lambda>p. toNumber (ls_player_index p)"
        "\<lambda>p. part s (stats_change_of p)"]
    by (simp flip: foldE_map)
  have seq: "foldE (\<lambda>bs p. changeStats s p bs) bs ps =
      mapR (\<lambda>b. bs[?i := b]) (foldE (\<lambda>b c. updateStats s c b) (bs ! ?i) ?cs)"
    unfolding changeStats_def
    using True idx foldE_on_board [of ?i bs ps "\<lambda>p. toNumber (ls_player_index p)"
        "\<lambda>p. updateStats s (stats_change_of p)"]
    by (simp flip: foldE_map)
  have "changeStats_all s ps bs = mapR (\<lambda>b. bs[?i := b])
      (bindE (foldE (\<lambda>b c. updateStats_start s c b) (bs ! ?i) ?cs) (\<lambda>b.
       bindE (foldE (\<lambda>b c. updateStats_middle s c b) b ?cs) (\<lambda>b.
         foldE (\<lambda>b c. updateStats_end s c b) b ?cs)))"
    unfolding changeStats_all_def
    by (simp add: phase mapR_def True)
  then show ?thesis
    by (simp add: seq b three)
qed

lemma changeStats_all_same:
  assumes "shows_boards bs vss" "\<forall>p\<in>set ps. ls_player_index p = pl" "distinct (map ls_emo_index ps)"
  shows "same shows_boards (changeStats_all s ps bs) (foldE (\<lambda>v p. show_stats p v) vss ps)"
  unfolding changeStats_all_eq [OF assms]
  by (rule foldE_same [OF changeStats_same assms(1)])

section \<open>The whole animation\<close>

text \<open>A batch is open only before a change of statistics it goes with.\<close>

definition batch_ok :: "mtc_battle_Log_IncreaseStats list \<Rightarrow> mtc_battle_Logs \<Rightarrow> bool" where
  "batch_ok batch logs \<longleftrightarrow>
     batch = [] \<or>
     (\<exists>n rest. (logs = Log_IncreaseStats n # rest \<or> logs = Log_DecreaseStats n # rest) \<and>
        (\<forall>p\<in>set batch. ls_player_index p = ls_player_index n) \<and>
        distinct (map ls_emo_index (batch @ [n])))"

definition shows_state ::
  "boards \<times> mtc_battle_Log_IncreaseStats list \<Rightarrow> emo_view list list \<Rightarrow> bool" where
  "shows_state st vss \<longleftrightarrow> shows_boards (fst st) vss \<and> snd st = []"

lemma batches_with_ok:
  assumes "batches_with p batch next'" "batch_ok batch (l # logs)"
    and "l = Log_IncreaseStats p \<and> next' = next_increase logs \<or>
         l = Log_DecreaseStats p \<and> next' = next_decrease logs"
  shows "batch_ok (batch @ [p]) logs"
proof -
  from assms(1,3) obtain n rest where "logs = Log_IncreaseStats n # rest \<or> logs = Log_DecreaseStats n # rest"
    and n: "ls_player_index p = ls_player_index n" "ls_emo_index p \<noteq> ls_emo_index n"
      "toNumber (ls_emo_index n) \<notin> set (map (\<lambda>s. toNumber (ls_emo_index s)) batch)"
    by (auto simp: batches_with_def next_increase_def next_decrease_def
        split: option.splits list.splits mtc_battle_Log.splits)
  moreover have "\<forall>q\<in>set batch. ls_player_index q = ls_player_index p" "distinct (map ls_emo_index (batch @ [p]))"
    using assms(2,3) by (auto simp: batch_ok_def)
  moreover have "ls_emo_index n \<notin> set (map ls_emo_index batch)"
    using n(3) by auto
  ultimately show ?thesis
    unfolding batch_ok_def by (intro disjI2 exI [of _ n] exI [of _ rest]) auto
qed

lemma stats_step_same:
  assumes IH: "\<And>bs vss batch. shows_boards bs vss \<Longrightarrow> batch_ok batch logs \<Longrightarrow>
      same shows_state (animate_loop json emoNames bases logs (bs, batch))
        (bindE (foldE (\<lambda>v p. show_stats p v) vss batch) (\<lambda>v. foldE (show_log json emoNames bases) v logs))"
    and s: "shows_boards bs vss" and ok: "batch_ok batch (l # logs)"
    and l: "l = Log_IncreaseStats p \<and> next' = next_increase logs \<or>
            l = Log_DecreaseStats p \<and> next' = next_decrease logs"
  shows "same shows_state
      (bindE (updateStatsBatch sg p next' (bs, batch)) (animate_loop json emoNames bases logs))
      (bindE (foldE (\<lambda>v p. show_stats p v) vss batch) (\<lambda>v. foldE (show_log json emoNames bases) v (l # logs)))"
proof -
  have abs: "bindE (foldE (\<lambda>v p. show_stats p v) vss batch) (\<lambda>v. foldE (show_log json emoNames bases) v (l # logs)) =
      bindE (foldE (\<lambda>v p. show_stats p v) vss (batch @ [p])) (\<lambda>v. foldE (show_log json emoNames bases) v logs)"
    using l by (auto simp: foldE_append)
  show ?thesis
  proof (cases "batches_with p batch next'")
    case True
    then show ?thesis
      unfolding abs using IH [OF s batches_with_ok [OF True ok l]]
      by (simp add: updateStatsBatch_def)
  next
    case False
    have rest: "same shows_state (animate_loop json emoNames bases logs (b, []))
        (foldE (show_log json emoNames bases) v logs)" if "shows_boards b v" for b v
      using IH [OF that, of "[]"] by (simp add: batch_ok_def)
    show ?thesis
    proof (cases "batch = []")
      case True
      with False show ?thesis
        unfolding abs
        by (auto simp: updateStatsBatch_def mapR_def intro!: same_bindE [OF changeStats_same [OF s]] rest)
    next
      case nonempty: False
      have "same shows_boards (changeStats_all sg (batch @ [p]) bs)
          (foldE (\<lambda>v p. show_stats p v) vss (batch @ [p]))"
        using ok nonempty l by (intro changeStats_all_same [OF s]) (auto simp: batch_ok_def)
      with False nonempty show ?thesis
        unfolding abs
        by (auto simp: updateStatsBatch_def mapR_def intro!: same_bindE rest)
    qed
  qed
qed

lemma animate_loop_same:
  "shows_boards bs vss \<Longrightarrow> batch_ok batch logs \<Longrightarrow>
   same shows_state (animate_loop json emoNames bases logs (bs, batch))
     (bindE (foldE (\<lambda>v p. show_stats p v) vss batch) (\<lambda>v. foldE (show_log json emoNames bases) v logs))"
proof (induction logs arbitrary: bs vss batch)
  case Nil
  then show ?case by (simp add: batch_ok_def shows_state_def)
next
  case (Cons l logs)
  have other: ?case
    if "batch = []" "animate_log json emoNames bases l logs (bs, batch) = mapR (\<lambda>b. (b, batch)) m"
      "same shows_boards m (show_log json emoNames bases vss l)" for m
    using that
    by (auto simp: mapR_def intro!: same_bindE Cons.IH [where batch = "[]", simplified] simp: batch_ok_def)
  have nb: "batch = []" if "\<forall>p. l \<noteq> Log_IncreaseStats p \<and> l \<noteq> Log_DecreaseStats p"
    using Cons.prems(2) that by (auto simp: batch_ok_def)
  show ?case
  proof (cases l)
    case (Log_IncreaseStats p)
    then show ?thesis
      using stats_step_same [OF Cons.IH Cons.prems, where next' = "next_increase logs" and p = p]
      by (simp add: animate_log_def)
  next
    case (Log_DecreaseStats p)
    then show ?thesis
      using stats_step_same [OF Cons.IH Cons.prems, where next' = "next_decrease logs" and p = p]
      by (simp add: animate_log_def)
  next
    case (Log_Attack p)
    with nb show ?thesis
      by (intro other [where m = "attack p bs"])
        (simp_all add: animate_log_def attack_same [OF Cons.prems(1)] del: show_log.simps)
  next
    case (Log_Damage p)
    with nb show ?thesis
      by (intro other [where m = "damage p bs"])
        (simp_all add: animate_log_def damage_same [OF Cons.prems(1)] del: show_log.simps)
  next
    case (Log_Remove p)
    with nb show ?thesis
      by (intro other [where m = "remove p bs"])
        (simp_all add: animate_log_def remove_same [OF Cons.prems(1)] del: show_log.simps)
  next
    case (Log_Add p)
    with nb show ?thesis
      by (intro other [where m = "add json emoNames bases p bs"])
        (simp_all add: animate_log_def add_same [OF Cons.prems(1)] del: show_log.simps)
  next
    case (Log_AddBattleAbility p)
    with nb show ?thesis
      by (intro other [where m = "addBattleAbility json emoNames bases p bs"])
        (simp_all add: animate_log_def addBattleAbility_same [OF Cons.prems(1)] del: show_log.simps)
  next
    case (Log_RemoveBattleAbility p)
    with nb show ?thesis
      by (intro other [where m = "removeBattleAbility p bs"])
        (simp_all add: animate_log_def removeBattleAbility_same [OF Cons.prems(1)] del: show_log.simps)
  qed
qed

section \<open>From the boards of the match to the end of the battle\<close>

definition show_battle ::
  "to_json \<Rightarrow> names \<Rightarrow> EmoBases \<Rightarrow> mtc_Board \<Rightarrow> mtc_GhostBoard \<Rightarrow> mtc_battle_Logs \<Rightarrow>
   emo_view list list js" where
  "show_battle json emoNames bases playerBoard rivalBoard logs =
     bindE (new_views json emoNames bases playerBoard) (\<lambda>v1.
     bindE (new_views json emoNames bases rivalBoard) (\<lambda>v2.
       foldE (show_log json emoNames bases) [v1, v2] logs))"

lemma setup_loop:
  "\<forall>p\<in>set ds. calm p \<Longrightarrow>
   same shows_board
     (foldE (\<lambda>boardElement e.
        bindE (createEmoWithBoardEmo json emoNames e bases) (\<lambda>el.
        mapR (\<lambda>body. appendChild (update_at body (set_style ''opacity'' ''0'') el) boardElement)
          (getEmoBodyOuterFromEmo el))) (board_dom cls st ds) es)
     (mapR (\<lambda>vs. map view ds @ vs) (new_views json emoNames bases es))"
proof (induction es arbitrary: ds)
  case Nil
  then show ?case by (auto simp: new_views_def shows_board_def)
next
  case (Cons e es)
  show ?case
  proof (cases "new_emo json emoNames bases e")
    case (Inl err)
    then show ?thesis by (simp add: new_views_def createEmoWithBoardEmo_eq)
  next
    case (Inr d)
    let ?d = "set_body_style ''opacity'' ''0'' d"
    have "\<forall>p\<in>set (ds @ [?d]). calm p"
      using Cons.prems new_emo_calm [OF Inr] by auto
    from Cons.IH [OF this] show ?thesis
      by (simp add: new_views_def createEmoWithBoardEmo_eq Inr appendChild_board mapR_def del: update_at.simps)
  qed
qed

lemma removeAllChildren_board: "tagName b = ''DIV'' \<Longrightarrow> \<exists>cls st. removeAllChildren b = board_dom cls st []"
  by (cases b) (auto simp: board_dom_def)

lemma setup_board_same:
  assumes "tagName b = ''DIV''"
  shows "same shows_board (setup_board json emoNames bases b es) (new_views json emoNames bases es)"
proof -
  obtain cls st where "removeAllChildren b = board_dom cls st []"
    using removeAllChildren_board [OF assms] by blast
  then show ?thesis
    using setup_loop [of "[]" json emoNames bases cls st es]
    by (cases "new_views json emoNames bases es") (simp_all add: setup_board_def)
qed

lemma fade_in_dom: "fade_in (emo_dom p) = Inr (emo_dom (animate_body [(''opacity'', [''1''])] p))"
  by (simp add: fade_in_def del: update_at.simps)

lemma finish_fade_same:
  assumes "shows_board b vs"
  shows "same shows_board (finish_fade b) (Inr vs)"
proof -
  obtain cls st ds where b: "b = board_dom cls st ds" "\<forall>p\<in>set ds. calm p" "map view ds = vs"
    using assms by (rule shows_boardE)
  let ?ds = "map (animate_body [(''opacity'', [''1''])]) ds"
  have "mapE fade_in (map emo_dom ds) = Inr (map emo_dom ?ds)"
    by (induction ds) (simp_all add: fade_in_dom)
  then have "finish_fade b = Inr (board_dom cls st ?ds)"
    by (simp add: finish_fade_def b(1)) (simp add: board_dom_def)
  moreover have "shows_board (board_dom cls st ?ds) vs"
    unfolding shows_board_def using b
    by (intro exI [of _ cls] exI [of _ st] exI [of _ ?ds]) auto
  ultimately show ?thesis by simp
qed

text \<open>
  From two boards and any sequence of logs, the document ends showing what the logs say, or the
  same error is raised.
\<close>

lemma animate_same:
  assumes "tagName b1 = ''DIV''" "tagName b2 = ''DIV''"
  shows "same shows_boards (animate json emoNames bases b1 b2 playerBoard rivalBoard logs)
    (show_battle json emoNames bases playerBoard rivalBoard logs)"
proof -
  have fade: "same shows_boards (mapE finish_fade [c1, c2]) (Inr [v1, v2])"
    if "shows_board c1 v1" "shows_board c2 v2" for c1 c2 v1 v2
    using finish_fade_same [OF that(1)] finish_fade_same [OF that(2)]
    by (cases "finish_fade c1"; cases "finish_fade c2") (auto simp: shows_boards_def)
  have loop: "same shows_boards (mapR fst (animate_loop json emoNames bases logs (bs, [])))
      (foldE (show_log json emoNames bases) vss logs)" if "shows_boards bs vss" for bs vss
    using animate_loop_same [OF that, of "[]" logs json emoNames bases]
    by (cases "animate_loop json emoNames bases logs (bs, [])";
        cases "foldE (show_log json emoNames bases) vss logs") (auto simp: batch_ok_def shows_state_def)
  have last: "same shows_boards
      (bindE (mapE finish_fade [c1, c2]) (\<lambda>boards. mapR fst (animate_loop json emoNames bases logs (boards, []))))
      (foldE (show_log json emoNames bases) [v1, v2] logs)"
    if "shows_board c1 v1" "shows_board c2 v2" for c1 c2 v1 v2
    using fade [OF that] loop by (cases "mapE finish_fade [c1, c2]") auto
  show ?thesis
    unfolding animate_def setupBoards_def show_battle_def bindE_assoc
    by (rule same_bindE [OF setup_board_same [OF assms(1)]],
        rule same_bindE [OF setup_board_same [OF assms(2)]], rule last)
qed

end
