(* ===== verification/BattleShown.thy ===== *)
theory BattleShown
  imports RustBattleFacts BattleView
begin

text \<open>
  The fight of two boards and the display of its logs together: the Rust code and the front agree on
  what a log means. From the boards of the match drawn afresh, the logs of a march lead the display to
  the boards the march ends with, drawn afresh, unless something that is to be drawn has no text. It
  needs emojis of positive statistics that have a special once: a change of statistics by zero shows
  nothing, and the marks of a special count it once.
\<close>

section \<open>What the display shows of an emoji\<close>

definition fighter_emo :: "Fighter \<Rightarrow> mtc_BoardEmo" where
  "fighter_emo e = \<lparr>be_base_id = bt_base_id e, be_attributes = bt_attributes e, be_mtc_emo_ids = []\<rparr>"

definition displays :: "to_json \<Rightarrow> names \<Rightarrow> EmoBases \<Rightarrow> emo_view list list \<Rightarrow> Fighter list list \<Rightarrow> bool" where
  "displays json emoNames ebases =
     list_all2 (list_all2 (\<lambda>v e. new_view json emoNames ebases (fighter_emo e) = Inr v))"

text \<open>What cannot be drawn: an emoji, a text of an ability, the special without a mark.\<close>

definition unshowable :: "to_json \<Rightarrow> names \<Rightarrow> EmoBases \<Rightarrow> js_error \<Rightarrow> bool" where
  "unshowable json emoNames ebases err \<longleftrightarrow>
     (\<exists>e :: mtc_BoardEmo. new_emo json emoNames ebases e = Inl err) \<or>
     (\<exists>ability t. buildEmoAbilityText json emoNames (Ability_Battle ability) t ebases = Inl err) \<or>
     err = JsError ''undefined special type: AttackLowestAttack''"

definition specials_once :: "emo_ability_Ability list \<Rightarrow> bool" where
  "specials_once abilities \<longleftrightarrow>
     list_all (\<lambda>special. count_list abilities (Ability_Battle (Battle_Special special)) \<le> 1)
       [Special_Shield, Special_Attractive, Special_AttackLowestAttack]"

definition sturdy :: "emo_Attributes \<Rightarrow> bool" where
  "sturdy a \<longleftrightarrow> at_attack a \<noteq> 0 \<and> at_health a \<noteq> 0 \<and> specials_once (at_abilities a)"

definition sturdy_bases :: "emo_Bases \<Rightarrow> bool" where
  "sturdy_bases bases \<longleftrightarrow> (\<forall>i b. find_base bases i = Inr b \<longrightarrow>
     eb_attack b \<noteq> 0 \<and> eb_health b \<noteq> 0 \<and> specials_once (eb_abilities b))"

definition sturdy_boards :: "Fighter list list \<Rightarrow> bool" where
  "sturdy_boards = list_all (list_all (\<lambda>e. sturdy (bt_attributes e)))"

lemma specials_once_iff: "specials_once as \<longleftrightarrow> (\<forall>s. count_list as (Ability_Battle (Battle_Special s)) \<le> 1)"
proof
  assume "specials_once as"
  then have "count_list as (Ability_Battle (Battle_Special s)) \<le> 1" for s
    by (cases s) (simp_all add: specials_once_def)
  then show "\<forall>s. count_list as (Ability_Battle (Battle_Special s)) \<le> 1" ..
qed (simp add: specials_once_def)

lemma special_gone:
  assumes "specials_once (xs @ Ability_Battle (Battle_Special s) # ys)"
  shows "\<not> has_special s (xs @ ys)"
proof -
  have "count_list (xs @ Ability_Battle (Battle_Special s) # ys) (Ability_Battle (Battle_Special s)) \<le> 1"
    using assms unfolding specials_once_iff by blast
  then have "count_list (xs @ ys) (Ability_Battle (Battle_Special s)) = 0" by simp
  then show ?thesis by (simp only: has_special_def count_list_0_iff not_False_eq_True)
qed

lemma specials_once_remove: "specials_once (xs @ a # ys) \<Longrightarrow> specials_once (xs @ ys)"
  unfolding specials_once_iff by (force split: if_splits)

lemma specials_once_add:
  assumes "specials_once as" "\<not> (is_special b \<and> Ability_Battle b \<in> set as)"
  shows "specials_once (as @ [Ability_Battle b])"
  using assms by (auto simp: specials_once_iff is_special_def count_list_0_iff)

lemma nonzero_words:
  fixes a b :: u16
  shows "a \<noteq> 0 \<Longrightarrow> saturating_add a b \<noteq> 0" "a \<noteq> 0 \<Longrightarrow> saturating_mul a 2 \<noteq> 0" "max a 1 \<noteq> 0"
proof -
  show "saturating_add a b \<noteq> 0" if "a \<noteq> 0"
    using that by (auto simp: saturating_add_def word_gt_0)
  show "saturating_mul a 2 \<noteq> 0" if "a \<noteq> 0"
  proof (cases "unat a * 2 < 65536")
    case True
    then have "unat (a * 2) = unat a * 2" by (simp add: unat_word_ariths)
    with that True show ?thesis by (auto simp: saturating_mul_def simp flip: unat_eq_0)
  qed (simp add: saturating_mul_def)
  show "max a 1 \<noteq> 0" by (cases "a = 0") (auto simp: max_def)
qed

lemma build_emo_attributes_sturdy:
  "sturdy_bases bases \<Longrightarrow> find_base bases i = Inr base \<Longrightarrow> sturdy (build_emo_attributes base t)"
  unfolding sturdy_bases_def sturdy_def build_emo_attributes_def by (simp add: nonzero_words)

lemma special_of_on:
  "special_of b True v = (if b = Battle_Special Special_AttackLowestAttack
     then throwError ''undefined special type: AttackLowestAttack'' else Inr (special_on (Ability_Battle b) v))"
proof (cases b)
  case (Battle_Special s)
  then show ?thesis
    by (cases s) (simp_all add: special_of_def special_view_def special_type_def special_on_def)
qed (simp add: special_of_def special_on_def)

text \<open>The view of an emoji without one of its abilities.\<close>

lemma mapE_remove:
  "mapE f (xs @ x # ys) = Inr zs \<Longrightarrow>
   mapE f (xs @ ys) = Inr (take (length xs) zs @ drop (Suc (length xs)) zs)"
  by (induction xs arbitrary: zs) (auto simp: bindE_eq_Inr_iff mapR_eq_Inr_iff)

lemma new_view_without:
  assumes v: "new_view json emoNames ebases e = Inr v"
    and as: "at_abilities (be_attributes e) = xs @ Ability_Battle b # ys" "specials_once (xs @ Ability_Battle b # ys)"
    and v': "special_of b False (v\<lparr>ev_rows := take (length xs) (ev_rows v) @ drop (Suc (length xs)) (ev_rows v)\<rparr>) =
      Inr v'"
  shows "new_view json emoNames ebases (e\<lparr>be_attributes := (be_attributes e)\<lparr>at_abilities := xs @ ys\<rparr>\<rparr>) = Inr v'"
proof -
  have other: "has_special s (xs @ ys) \<longleftrightarrow> has_special s (xs @ Ability_Battle b # ys)"
    if "b \<noteq> Battle_Special s" for s
    using that by (auto simp: has_special_def)
  have gone: "\<not> has_special s (xs @ ys)" if "b = Battle_Special s" for s
    using special_gone [of xs s ys] as(2) that by simp
  from v obtain base emoji g name texts where
    new: "findEmoBase (be_base_id e) ebases = Inr base" "getEmoBaseEmoji base = Inr emoji"
      "getGradeText (toStringU (eb_grade base)) = Inr g" "getEmoName emoNames emoji = Inr name"
    and texts: "buildEmoAbilitiesText json emoNames (xs @ Ability_Battle b # ys)
      (at_is_triple (be_attributes e)) ebases = Inr texts"
    and v_eq: "v = view (new_parts emoji (eb_typ base) g (be_attributes e) False name texts)"
    by (auto simp: new_view_def new_emo_def bindE_eq_Inr_iff mapR_eq_Inr_iff as(1))
  let ?a = "(be_attributes e)\<lparr>at_abilities := xs @ ys\<rparr>"
    and ?texts = "take (length xs) texts @ drop (Suc (length xs)) texts"
  have "buildEmoAbilitiesText json emoNames (xs @ ys) (at_is_triple (be_attributes e)) ebases = Inr ?texts"
    using texts by (simp add: buildEmoAbilitiesText_def mapE_remove)
  with new have "new_view json emoNames ebases (e\<lparr>be_attributes := ?a\<rparr>) =
      Inr (view (new_parts emoji (eb_typ base) g ?a False name ?texts))"
    by (simp add: new_view_def new_emo_def)
  moreover have "view (new_parts emoji (eb_typ base) g ?a False name ?texts) = v'"
  proof (cases b)
    case (Battle_General x)
    then show ?thesis
      using v' other by (auto simp: v_eq special_of_def view_def new_parts_def as(1) take_map drop_map)
  next
    case (Battle_Special s)
    then show ?thesis
      using v' other gone [of s]
      by (cases s) (auto simp: v_eq special_of_def special_view_def special_type_def view_def new_parts_def as(1)
          shown_def display_def take_map drop_map)
  qed
  ultimately show ?thesis by simp
qed

section \<open>A change and its logs\<close>

abbreviation show_logs ::
  "to_json \<Rightarrow> names \<Rightarrow> EmoBases \<Rightarrow> emo_view list list \<Rightarrow> mtc_battle_Logs \<Rightarrow> emo_view list list js" where
  "show_logs json emoNames ebases \<equiv> foldE (show_log json emoNames ebases)"

text \<open>The display after some logs: the boards as they are, or what stopped it.\<close>

definition shown_as ::
  "to_json \<Rightarrow> names \<Rightarrow> EmoBases \<Rightarrow> emo_view list list js \<Rightarrow> Fighter list list \<Rightarrow> bool" where
  "shown_as json emoNames ebases r boards \<longleftrightarrow>
     (case r of
        Inr vss \<Rightarrow> displays json emoNames ebases vss boards
      | Inl err \<Rightarrow> unshowable json emoNames ebases err)"

lemma shown_as_simps [simp]:
  "shown_as json emoNames ebases (Inr vss) boards \<longleftrightarrow> displays json emoNames ebases vss boards"
  "shown_as json emoNames ebases (Inl err) boards \<longleftrightarrow> unshowable json emoNames ebases err"
  by (simp_all add: shown_as_def)

lemma switch_same [simp]: "switchPlayerIndex p = switch_player_index p"
  by (simp add: switchPlayerIndex_def switch_player_index_def)

lemma shown_as_append:
  assumes "shown_as json emoNames ebases (show_logs json emoNames ebases vss0 logs) bs"
    and "\<And>vss. displays json emoNames ebases vss bs \<Longrightarrow>
      shown_as json emoNames ebases (show_logs json emoNames ebases vss ls) bs'"
  shows "shown_as json emoNames ebases (show_logs json emoNames ebases vss0 (logs @ ls)) bs'"
  using assms by (cases "show_logs json emoNames ebases vss0 logs") (simp_all add: foldE_append)

lemma displays_nth:
  assumes "displays json emoNames ebases vss bs" "p < length bs"
  shows "p < length vss" "length (vss ! p) = length (bs ! p)"
    "i < length (bs ! p) \<Longrightarrow> new_view json emoNames ebases (fighter_emo (bs ! p ! i)) = Inr (vss ! p ! i)"
proof -
  show p: "p < length vss"
    using assms by (simp add: displays_def list_all2_lengthD)
  from assms p have "list_all2 (\<lambda>v e. new_view json emoNames ebases (fighter_emo e) = Inr v) (vss ! p) (bs ! p)"
    by (simp add: displays_def list_all2_conv_all_nth)
  then show "length (vss ! p) = length (bs ! p)"
    "i < length (bs ! p) \<Longrightarrow> new_view json emoNames ebases (fighter_emo (bs ! p ! i)) = Inr (vss ! p ! i)"
    by (simp_all add: list_all2_conv_all_nth)
qed

lemma displays_update:
  assumes "displays json emoNames ebases vss bs"
    and "list_all2 (\<lambda>v e. new_view json emoNames ebases (fighter_emo e) = Inr v) vs b"
  shows "displays json emoNames ebases (vss[p := vs]) (bs[p := b])"
  using assms unfolding displays_def by (rule list_all2_update_cong)

lemma displays_board:
  assumes "displays json emoNames ebases vss bs" "p < length bs"
  shows "list_all2 (\<lambda>v e. new_view json emoNames ebases (fighter_emo e) = Inr v) (vss ! p) (bs ! p)"
  using displays_nth [OF assms] by (simp add: list_all2_conv_all_nth)

lemma view_at_shown:
  assumes d: "displays json emoNames ebases vss bs" and p: "p < length bs" and i: "i < length (bs ! p)"
    and f: "case f (vss ! p ! i) of
        Inr v \<Rightarrow> new_view json emoNames ebases (fighter_emo e) = Inr v
      | Inl err \<Rightarrow> unshowable json emoNames ebases err"
  shows "shown_as json emoNames ebases (on_view (view_at f i) p vss) (bs[p := (bs ! p)[i := e]])"
proof (cases "f (vss ! p ! i)")
  case (Inl err)
  then show ?thesis
    using f displays_nth [OF d p] i by (simp add: on_view_def js_at_def view_at_def)
next
  case (Inr v)
  then have "new_view json emoNames ebases (fighter_emo e) = Inr v" using f by simp
  then have "list_all2 (\<lambda>v e. new_view json emoNames ebases (fighter_emo e) = Inr v)
      ((vss ! p)[i := v]) ((bs ! p)[i := e])"
    by (intro list_all2_update_cong displays_board [OF d p])
  then show ?thesis
    using Inr displays_nth [OF d p] i
    by (simp add: on_view_def js_at_def view_at_def displays_update [OF d])
qed

lemma fighter_emo_simps [simp]:
  "fighter_emo (e\<lparr>bt_attack_and_survived_count := c\<rparr>) = fighter_emo e"
  "fighter_emo (e\<lparr>bt_attributes := a\<rparr>) = (fighter_emo e)\<lparr>be_attributes := a\<rparr>"
  "be_attributes (fighter_emo e) = bt_attributes e"
  by (simp_all add: fighter_emo_def)

text \<open>A change of statistics shows the new ones: a part that is not shown is not changed.\<close>

lemma stats_shown:
  assumes v: "new_view json emoNames ebases (fighter_emo e) = Inr v"
    and "a = 0 \<Longrightarrow> ca = at_attack (bt_attributes e)" "h = 0 \<Longrightarrow> ch = at_health (bt_attributes e)"
  shows "new_view json emoNames ebases (fighter_emo (with_stats ca ch e)) =
    Inr (change_view (stats_change_of (stats_log p i a h ca ch)) v)"
proof -
  have "new_view json emoNames ebases (fighter_emo (with_stats ca ch e)) =
      Inr (v\<lparr>ev_attack := toStringU ca, ev_health := toStringU ch\<rparr>)"
    using new_view_attributes [OF v, of "(bt_attributes e)\<lparr>at_attack := ca, at_health := ch\<rparr>"]
    by (simp add: with_stats_def)
  also have "v\<lparr>ev_attack := toStringU ca, ev_health := toStringU ch\<rparr> =
      change_view (stats_change_of (stats_log p i a h ca ch)) v"
    using new_view_stats [OF v] assms(2,3)
    by (cases v) (auto simp: change_view_def stats_change_of_def stats_log_def unat_eq_0 Let_def)
  finally show ?thesis .
qed

lemma no_change:
  fixes x :: u16
  assumes "x \<noteq> 0"
  shows "max (saturating_sub x 0) 1 = x"
proof -
  have "1 \<le> unat x" using assms unat_gt_0 [of x] by linarith
  then have "1 \<le> x" by (simp add: word_le_nat_alt)
  then show ?thesis by (simp add: saturating_sub_def max_absorb1)
qed

section \<open>One change at a time\<close>

text \<open>The emojis of a state are sturdy and the display of its logs shows them.\<close>

definition in_view ::
  "to_json \<Rightarrow> names \<Rightarrow> EmoBases \<Rightarrow> emo_view list list \<Rightarrow> 'rng battle_state \<Rightarrow> bool" where
  "in_view json emoNames ebases vss0 s \<longleftrightarrow>
     sturdy_boards (ba_boards s) \<and>
     shown_as json emoNames ebases (show_logs json emoNames ebases vss0 (ba_logs s)) (ba_boards s)"

lemma in_view_frame:
  "in_view json emoNames ebases vss0 (s\<lparr>ba_rng := r\<rparr>) \<longleftrightarrow> in_view json emoNames ebases vss0 s"
  "in_view json emoNames ebases vss0 (s\<lparr>ba_next_id := n\<rparr>) \<longleftrightarrow> in_view json emoNames ebases vss0 s"
  by (simp_all add: in_view_def)

lemma in_view_step:
  assumes "in_view json emoNames ebases vss0 s" "ba_logs s' = ba_logs s @ ls"
    and "\<And>vss. displays json emoNames ebases vss (ba_boards s) \<Longrightarrow> sturdy_boards (ba_boards s) \<Longrightarrow>
      shown_as json emoNames ebases (show_logs json emoNames ebases vss ls) (ba_boards s')"
    and "sturdy_boards (ba_boards s) \<Longrightarrow> sturdy_boards (ba_boards s')"
  shows "in_view json emoNames ebases vss0 s'"
  using assms(1,4) shown_as_append [of json emoNames ebases vss0 "ba_logs s" "ba_boards s" ls "ba_boards s'"] assms(3)
  by (simp add: in_view_def assms(2))

lemma sturdy_at: "sturdy_boards bs \<Longrightarrow> p < length bs \<Longrightarrow> i < length (bs ! p) \<Longrightarrow> sturdy (bt_attributes (bs ! p ! i))"
  by (simp add: sturdy_boards_def list_all_length)

lemma sturdy_update: "sturdy_boards bs \<Longrightarrow> list_all (\<lambda>e. sturdy (bt_attributes e)) b \<Longrightarrow> sturdy_boards (bs[p := b])"
  by (auto simp: sturdy_boards_def list_all_iff dest!: set_update_subset_insert [THEN subsetD])

lemma sturdy_board: "sturdy_boards bs \<Longrightarrow> p < length bs \<Longrightarrow> list_all (\<lambda>e. sturdy (bt_attributes e)) (bs ! p)"
  by (simp add: sturdy_boards_def list_all_length)

lemma list_all_parts: "list_all P b \<Longrightarrow> list_all P (take i b)" "list_all P b \<Longrightarrow> list_all P (drop i b)"
  unfolding list_all_iff by (meson in_set_takeD in_set_dropD)+

lemma sturdy_update_at:
  "sturdy_boards bs \<Longrightarrow> p < length bs \<Longrightarrow> sturdy (bt_attributes e) \<Longrightarrow> sturdy_boards (bs[p := (bs ! p)[i := e]])"
  by (rule sturdy_update)
    (auto simp: list_all_iff dest!: sturdy_board set_update_subset_insert [THEN subsetD])

text \<open>A change of one emoji with one log on it.\<close>

lemma change_one:
  assumes "in_view json emoNames ebases vss0 s" "fighter_at s p i e"
    and "ba_boards s' = ba_boards (put_emo p i e' s)" "ba_logs s' = ba_logs s @ [l]"
    and "sturdy (bt_attributes e) \<Longrightarrow> sturdy (bt_attributes e')"
    and l: "\<And>vss. show_log json emoNames ebases vss l = on_view (view_at f (toNumber i)) (toNumber p) vss"
    and f: "\<And>v. new_view json emoNames ebases (fighter_emo e) = Inr v \<Longrightarrow> sturdy (bt_attributes e) \<Longrightarrow>
      case f v of
        Inr v' \<Rightarrow> new_view json emoNames ebases (fighter_emo e') = Inr v'
      | Inl err \<Rightarrow> unshowable json emoNames ebases err"
  shows "in_view json emoNames ebases vss0 s'"
proof (rule in_view_step [OF assms(1,4)])
  have at: "toNumber p < length (ba_boards s)" "toNumber i < length (ba_boards s ! toNumber p)"
    "e = ba_boards s ! toNumber p ! toNumber i"
    using assms(2) by (simp_all add: get_emo_mut_eq)
  fix vss assume d: "displays json emoNames ebases vss (ba_boards s)" and st: "sturdy_boards (ba_boards s)"
  have "shown_as json emoNames ebases (on_view (view_at f (toNumber i)) (toNumber p) vss)
      ((ba_boards s)[toNumber p := (ba_boards s ! toNumber p)[toNumber i := e']])"
    by (rule view_at_shown [OF d at(1,2)], rule f)
      (use displays_nth(3) [OF d at(1,2)] sturdy_at [OF st at(1,2)] at(3) in simp_all)
  then show "shown_as json emoNames ebases (show_logs json emoNames ebases vss [l]) (ba_boards s')"
    by (simp add: assms(3) l)
next
  assume "sturdy_boards (ba_boards s)"
  then show "sturdy_boards (ba_boards s')"
    using assms(2,3,5) sturdy_at by (auto simp: get_emo_mut_eq intro!: sturdy_update_at)
qed

lemma attacked_in_view:
  assumes "in_view json emoNames ebases vss0 s" "fighter_at s p i e" "fighter_at s (switch_player_index p) j d"
  shows "in_view json emoNames ebases vss0 (battle_log (Log_Attack (mtc_battle_Log_Attack p i j)) s)"
proof (rule in_view_step [OF assms(1), where ls = "[Log_Attack (mtc_battle_Log_Attack p i j)]"])
  fix vss assume "displays json emoNames ebases vss (ba_boards s)"
  then show "shown_as json emoNames ebases
      (show_logs json emoNames ebases vss [Log_Attack (mtc_battle_Log_Attack p i j)])
      (ba_boards (battle_log (Log_Attack (mtc_battle_Log_Attack p i j)) s))"
    using assms(2,3) displays_nth [of json emoNames ebases vss "ba_boards s"]
    by (simp add: get_emo_mut_eq on_view_def js_at_def view_at_def)
qed simp_all

lemma sturdy_with_stats: "sturdy (bt_attributes e) \<Longrightarrow> ca \<noteq> 0 \<Longrightarrow> ch \<noteq> 0 \<Longrightarrow> sturdy (bt_attributes (with_stats ca ch e))"
  by (simp add: sturdy_def with_stats_def)

lemma changed_stats_in_view:
  assumes "in_view json emoNames ebases vss0 s" "fighter_at s p i e"
    and "l = Log_IncreaseStats (stats_log p i a h ca ch) \<or> l = Log_DecreaseStats (stats_log p i a h ca ch)"
    and stats: "sturdy (bt_attributes e) \<Longrightarrow> ca \<noteq> 0 \<and> ch \<noteq> 0 \<and>
      (a = 0 \<longrightarrow> ca = at_attack (bt_attributes e)) \<and> (h = 0 \<longrightarrow> ch = at_health (bt_attributes e))"
  shows "in_view json emoNames ebases vss0 (battle_log l (put_emo p i (with_stats ca ch e) s))"
proof (rule change_one [OF assms(1,2), where l = l and e' = "with_stats ca ch e"
      and f = "\<lambda>v. Inr (change_view (stats_change_of (stats_log p i a h ca ch)) v)"])
  show "show_log json emoNames ebases vss l = on_view (view_at
      (\<lambda>v. Inr (change_view (stats_change_of (stats_log p i a h ca ch)) v)) (toNumber i)) (toNumber p) vss" for vss
    using assms(3) by (auto simp: show_stats_def stats_change_of_def stats_log_def)
next
  fix v assume v: "new_view json emoNames ebases (fighter_emo e) = Inr v" and "sturdy (bt_attributes e)"
  then have "a = 0 \<Longrightarrow> ca = at_attack (bt_attributes e)" "h = 0 \<Longrightarrow> ch = at_health (bt_attributes e)"
    using stats by simp_all
  from stats_shown [OF v this, where ?p = p and ?i = i]
  show "case Inr (change_view (stats_change_of (stats_log p i a h ca ch)) v) of
      Inr v' \<Rightarrow> new_view json emoNames ebases (fighter_emo (with_stats ca ch e)) = Inr v'
    | Inl err \<Rightarrow> unshowable json emoNames ebases err"
    by simp
qed (use stats in \<open>simp_all add: sturdy_with_stats\<close>)

lemma gained_in_view:
  assumes "in_view json emoNames ebases vss0 s" "fighter_at s p i e"
    and "\<not> (is_special b \<and> Ability_Battle b \<in> set (at_abilities (bt_attributes e)))"
  shows "in_view json emoNames ebases vss0
    (battle_log (Log_AddBattleAbility (mtc_battle_Log_AddBattleAbility p i b (at_is_triple (bt_attributes e))))
      (put_emo p i (with_abilities (at_abilities (bt_attributes e) @ [Ability_Battle b]) e) s))"
proof (rule change_one [OF assms(1,2) _ _ _ show_log.simps(7)])
  fix v assume v: "new_view json emoNames ebases (fighter_emo e) = Inr v"
  show "case bindE (buildEmoAbilityText json emoNames (Ability_Battle b) (at_is_triple (bt_attributes e)) ebases)
        (\<lambda>t. special_of b True (v\<lparr>ev_rows := ev_rows v @ [text_row t]\<rparr>)) of
      Inr v' \<Rightarrow> new_view json emoNames ebases
        (fighter_emo (with_abilities (at_abilities (bt_attributes e) @ [Ability_Battle b]) e)) = Inr v'
    | Inl err \<Rightarrow> unshowable json emoNames ebases err"
  proof (cases "buildEmoAbilityText json emoNames (Ability_Battle b) (at_is_triple (bt_attributes e)) ebases")
    case (Inl err)
    then show ?thesis by (auto simp: unshowable_def)
  next
    case (Inr t)
    with new_view_ability [OF v, of "Ability_Battle b" t] show ?thesis
      by (simp add: special_of_on unshowable_def with_abilities_def)
  qed
next
  show "sturdy (bt_attributes (with_abilities (at_abilities (bt_attributes e) @ [Ability_Battle b]) e))"
    if "sturdy (bt_attributes e)"
    using that assms(3) by (simp add: sturdy_def with_abilities_def specials_once_add)
qed simp_all

lemma lost_in_view:
  assumes "in_view json emoNames ebases vss0 s" "fighter_at s p i e"
    and k: "toNumber k < length (at_abilities (bt_attributes e))"
      "at_abilities (bt_attributes e) ! toNumber k = Ability_Battle b"
  shows "in_view json emoNames ebases vss0
    (battle_log (Log_RemoveBattleAbility (mtc_battle_Log_RemoveBattleAbility p i k b))
      (put_emo p i (with_abilities (take (toNumber k) (at_abilities (bt_attributes e)) @
        drop (Suc (toNumber k)) (at_abilities (bt_attributes e))) e) s))"
proof (rule change_one [OF assms(1,2) _ _ _ show_log.simps(8)])
  let ?xs = "take (toNumber k) (at_abilities (bt_attributes e))"
    and ?ys = "drop (Suc (toNumber k)) (at_abilities (bt_attributes e))"
  have as: "at_abilities (bt_attributes e) = ?xs @ Ability_Battle b # ?ys"
    using id_take_nth_drop [OF k(1)] k(2) by simp
  have len: "length ?xs = toNumber k" using k(1) by simp
  show "sturdy (bt_attributes (with_abilities (?xs @ ?ys) e))" if "sturdy (bt_attributes e)"
    using that specials_once_remove [of ?xs "Ability_Battle b" ?ys] as by (simp add: sturdy_def with_abilities_def)
  fix v assume v: "new_view json emoNames ebases (fighter_emo e) = Inr v" and st: "sturdy (bt_attributes e)"
  have rows: "length (ev_rows v) = length (at_abilities (bt_attributes e))"
    using v by (auto simp: new_view_def new_emo_def bindE_eq_Inr_iff mapR_eq_Inr_iff new_parts_def view_def
        buildEmoAbilitiesText_def fighter_emo_def dest: mapE_length)
  let ?r = "special_of b False (v\<lparr>ev_rows := take (toNumber k) (ev_rows v) @ drop (Suc (toNumber k)) (ev_rows v)\<rparr>)"
  have "case ?r of
      Inr v' \<Rightarrow> new_view json emoNames ebases (fighter_emo (with_abilities (?xs @ ?ys) e)) = Inr v'
    | Inl err \<Rightarrow> unshowable json emoNames ebases err"
  proof (cases ?r)
    case (Inl err)
    then show ?thesis
      by (auto simp: special_of_def special_view_def special_type_def unshowable_def
          split: emo_ability_battle_Battle.splits if_splits emo_ability_battle_Special.splits)
  next
    case (Inr v')
    have "new_view json emoNames ebases
        ((fighter_emo e)\<lparr>be_attributes := (be_attributes (fighter_emo e))\<lparr>at_abilities := ?xs @ ?ys\<rparr>\<rparr>) = Inr v'"
      by (rule new_view_without [OF v, of ?xs b ?ys]) (use as st Inr len in \<open>simp_all add: sturdy_def\<close>)
    then show ?thesis using Inr by (simp add: with_abilities_def)
  qed
  then show "case if toNumber k < length (ev_rows v) then ?r else Inl JsTypeError of
      Inr v' \<Rightarrow> new_view json emoNames ebases (fighter_emo (with_abilities (?xs @ ?ys) e)) = Inr v'
    | Inl err \<Rightarrow> unshowable json emoNames ebases err"
    using rows k(1) by simp
qed simp_all

lemma health_shown:
  assumes "new_view json emoNames ebases (fighter_emo e) = Inr v"
  shows "new_view json emoNames ebases (fighter_emo (with_stats (at_attack (bt_attributes e)) h e)) =
    Inr (v\<lparr>ev_health := toStringU h\<rparr>)"
proof -
  have "new_view json emoNames ebases (fighter_emo (with_stats (at_attack (bt_attributes e)) h e)) =
      Inr (v\<lparr>ev_attack := toStringU (at_attack (bt_attributes e)), ev_health := toStringU h\<rparr>)"
    using new_view_attributes [OF assms, of "(bt_attributes e)\<lparr>at_health := h\<rparr>"]
    by (simp add: with_stats_def)
  then show ?thesis
    using new_view_stats [OF assms] by (cases v) simp
qed

lemma damaged_in_view:
  assumes "in_view json emoNames ebases vss0 s" "fighter_at s p i e" "h \<noteq> 0"
  shows "in_view json emoNames ebases vss0
    (put_emo p i (with_stats (at_attack (bt_attributes e)) h e)
      (battle_log (Log_Damage (mtc_battle_Log_Damage p i d h)) s))"
proof (rule change_one [OF assms(1,2) _ _ _ show_log.simps(2)])
  fix v assume "new_view json emoNames ebases (fighter_emo e) = Inr v"
  from health_shown [OF this] show "case Inr (v\<lparr>ev_health := toStringU h\<rparr>) of
      Inr v' \<Rightarrow> new_view json emoNames ebases
        (fighter_emo (with_stats (at_attack (bt_attributes e)) h e)) = Inr v'
    | Inl err \<Rightarrow> unshowable json emoNames ebases err"
    by simp
qed (use assms(3) in \<open>simp_all add: sturdy_def with_stats_def\<close>)

lemma retired_in_view:
  assumes "in_view json emoNames ebases vss0 s" "fighter_at s p i e"
  shows "in_view json emoNames ebases vss0
    (battle_log (Log_Remove (mtc_battle_Log_Remove p i))
      (put_board p (take (toNumber i) (ba_boards s ! toNumber p) @ drop (Suc (toNumber i)) (ba_boards s ! toNumber p))
        (battle_log (Log_Damage (mtc_battle_Log_Damage p i d 0)) s)))"
proof (rule in_view_step [OF assms(1), where
      ls = "[Log_Damage (mtc_battle_Log_Damage p i d 0), Log_Remove (mtc_battle_Log_Remove p i)]"])
  let ?p = "toNumber p" and ?i = "toNumber i" and ?b = "ba_boards s ! toNumber p"
  have at: "?p < length (ba_boards s)" "?i < length ?b"
    using assms(2) by (simp_all add: get_emo_mut_eq)
  {
    fix vss assume d: "displays json emoNames ebases vss (ba_boards s)"
    have "list_all2 (\<lambda>v e. new_view json emoNames ebases (fighter_emo e) = Inr v)
        (take ?i (vss ! ?p) @ drop (Suc ?i) (vss ! ?p)) (take ?i ?b @ drop (Suc ?i) ?b)"
      using displays_board [OF d at(1)] by (intro list_all2_appendI list_all2_takeI list_all2_dropI)
    from displays_update [OF d this] show "shown_as json emoNames ebases (show_logs json emoNames ebases vss
        [Log_Damage (mtc_battle_Log_Damage p i d 0), Log_Remove (mtc_battle_Log_Remove p i)])
      (ba_boards (battle_log (Log_Remove (mtc_battle_Log_Remove p i))
        (put_board p (take ?i ?b @ drop (Suc ?i) ?b)
          (battle_log (Log_Damage (mtc_battle_Log_Damage p i d 0)) s))))"
      using at displays_nth [OF d at(1)]
      by (simp add: on_view_def js_at_def view_at_def view_remove_def)
  }
  show "sturdy_boards (ba_boards s) \<Longrightarrow> sturdy_boards (ba_boards (battle_log (Log_Remove (mtc_battle_Log_Remove p i))
        (put_board p (take ?i ?b @ drop (Suc ?i) ?b)
          (battle_log (Log_Damage (mtc_battle_Log_Damage p i d 0)) s))))"
    using sturdy_board [of "ba_boards s" ?p] at by (simp add: sturdy_update list_all_parts)
qed simp_all

lemma entered_in_view:
  assumes "in_view json emoNames ebases vss0 s" "get_board s p = Inr b" "sturdy (bt_attributes e)"
  shows "in_view json emoNames ebases vss0
    (put_board p (take (toNumber i) b @ e # drop (toNumber i) b)
      (battle_log (Log_Add (mtc_battle_Log_Add p i (bt_base_id e) (bt_attributes e))) s))"
proof (rule in_view_step [OF assms(1), where ls = "[Log_Add (mtc_battle_Log_Add p i (bt_base_id e) (bt_attributes e))]"])
  let ?p = "toNumber p" and ?i = "toNumber i"
  have at: "?p < length (ba_boards s)" "b = ba_boards s ! ?p"
    using assms(2) by (simp_all add: get_board_eq)
  {
    fix vss assume d: "displays json emoNames ebases vss (ba_boards s)"
    show "shown_as json emoNames ebases (show_logs json emoNames ebases vss
        [Log_Add (mtc_battle_Log_Add p i (bt_base_id e) (bt_attributes e))])
      (ba_boards (put_board p (take ?i b @ e # drop ?i b)
        (battle_log (Log_Add (mtc_battle_Log_Add p i (bt_base_id e) (bt_attributes e))) s)))"
    proof (cases "new_emo json emoNames ebases (fighter_emo e)")
      case (Inl err)
      then show ?thesis by (auto simp: unshowable_def simp flip: fighter_emo_def)
    next
      case (Inr x)
      then have "new_view json emoNames ebases (fighter_emo e) = Inr (view x)" by (simp add: new_view_def)
      then have "list_all2 (\<lambda>v e. new_view json emoNames ebases (fighter_emo e) = Inr v)
          (insert_before ?i (view x) (vss ! ?p)) (insert_before ?i e b)"
        using displays_board [OF d at(1)] at(2) by (intro list_all2_insert) simp_all
      from displays_update [OF d this] show ?thesis
        using Inr displays_nth(1) [OF d at(1)]
        by (simp add: on_view_def js_at_def insert_before_def flip: fighter_emo_def)
    qed
  }
  show "sturdy_boards (ba_boards s) \<Longrightarrow> sturdy_boards (ba_boards (put_board p (take ?i b @ e # drop ?i b)
        (battle_log (Log_Add (mtc_battle_Log_Add p i (bt_base_id e) (bt_attributes e))) s)))"
    using sturdy_board [of "ba_boards s" ?p] at assms(3) by (simp add: sturdy_update list_all_parts)
qed simp_all

lemma change_in_view:
  assumes "battle_change bases s s'" "sturdy_bases bases"
  shows "in_view json emoNames ebases vss0 s \<Longrightarrow> in_view json emoNames ebases vss0 s'"
  using assms(1)
proof (induction rule: battle_change.induct)
  case (counted s p i e c)
  have at: "toNumber p < length (ba_boards s)" "toNumber i < length (ba_boards s ! toNumber p)"
    "e = ba_boards s ! toNumber p ! toNumber i"
    using counted.hyps by (simp_all add: get_emo_mut_eq)
  show ?case
  proof (rule in_view_step [OF counted.prems, where ls = "[]"])
    fix vss assume d: "displays json emoNames ebases vss (ba_boards s)"
    have "shown_as json emoNames ebases (on_view (view_at Inr (toNumber i)) (toNumber p) vss)
        ((ba_boards s)[toNumber p := (ba_boards s ! toNumber p)[toNumber i := e\<lparr>bt_attack_and_survived_count := c\<rparr>]])"
      by (rule view_at_shown [OF d at(1,2)]) (use displays_nth(3) [OF d at(1,2)] at(3) in simp)
    then show "shown_as json emoNames ebases (show_logs json emoNames ebases vss [])
        (ba_boards (put_emo p i (e\<lparr>bt_attack_and_survived_count := c\<rparr>) s))"
      using displays_nth [OF d at(1)] at by (simp add: on_view_def js_at_def view_at_def)
  qed (use at sturdy_at in \<open>auto intro!: sturdy_update_at\<close>)
next
  case (increased s p i e ca a ch h)
  then show ?case
    by (intro changed_stats_in_view [where a = a and h = h])
      (auto simp: sturdy_def nonzero_words)
next
  case (decreased s p i e ca a ch h)
  then show ?case
    by (intro changed_stats_in_view [where a = a and h = h])
      (auto simp: sturdy_def nonzero_words no_change)
next
  case (entered s p b i base_id base e t)
  then show ?case
    using build_emo_attributes_sturdy [OF assms(2)] by (intro entered_in_view) simp_all
qed (simp_all add: in_view_frame attacked_in_view gained_in_view lost_in_view damaged_in_view retired_in_view)

lemma runs_in_view:
  "battle_runs bases s s' \<Longrightarrow> sturdy_bases bases \<Longrightarrow> in_view json emoNames ebases vss0 s \<Longrightarrow>
   in_view json emoNames ebases vss0 s'"
  by (induction rule: rtranclp_induct) (auto intro: change_in_view)

end
