(* ===== verification/PlainMarch.thy ===== *)
theory PlainMarch
  imports RustBattleFacts
begin

text \<open>
  The fight of boards without abilities, on which every attack can be followed: its emojis lose health
  or retire and nothing else happens. With attacks that are not zero a march returns within the ticks it
  has, when there is not more health than ticks; without any attack it runs out of them. The emoji with
  the lowest attack is chosen from a list that is given as a function of the attacks.
\<close>

section \<open>Attacks on plain boards\<close>

definition plain :: "'a BattleEmo_scheme \<Rightarrow> bool" where
  "plain e \<longleftrightarrow> at_abilities (bt_attributes e) = []"

text \<open>What \<open>gen_range\<close> promises.\<close>

definition range_ok :: "'rng battle_rand \<Rightarrow> bool" where
  "range_ok rand \<longleftrightarrow> (\<forall>rng n. n \<noteq> 0 \<longrightarrow> fst (br_range rand rng n) < n)"

definition plain_boards :: "(Fighter \<Rightarrow> bool) \<Rightarrow> Fighter list list \<Rightarrow> bool" where
  "plain_boards P bs \<longleftrightarrow> length bs = 2 \<and> list_all (\<lambda>b. length b \<le> 7 \<and> list_all (\<lambda>e. plain e \<and> P e) b) bs"

lemma plain_no_abilities:
  "plain e \<Longrightarrow> get_abilities e = []" "plain e \<Longrightarrow> retire_actions e = []"
  by (simp_all add: plain_def get_abilities_def retire_actions_def indexed_def List.map_filter_simps)

lemma board_abilities_plain:
  assumes "list_all plain b"
  shows "board_abilities_of b = []"
proof -
  have "snd x \<in> set b" if "x \<in> set (indexed b)" for x
    using that set_zip_rightD [of "fst x" "snd x"] by (simp add: indexed_def)
  then show ?thesis
    using assms by (auto simp: board_abilities_of_def list_all_iff plain_def List.map_filter_simps)
qed

lemma plain_board:
  "plain_boards P bs \<Longrightarrow> p < 2 \<Longrightarrow> list_all (\<lambda>e. plain e \<and> P e) (bs ! p) \<and> length (bs ! p) \<le> 7"
  by (simp add: plain_boards_def list_all_length)

lemma plain_update:
  "plain_boards P bs \<Longrightarrow> list_all (\<lambda>e. plain e \<and> P e) b \<Longrightarrow> length b \<le> 7 \<Longrightarrow> plain_boards P (bs[p := b])"
  by (auto simp: plain_boards_def list_all_iff dest!: set_update_subset_insert [THEN subsetD])

lemma plain_abilities:
  assumes "plain_boards P (ba_boards s)" "toNumber p < 2"
  shows "get_board_abilities s p = Inr []"
proof -
  have "get_board s p = Inr (ba_boards s ! toNumber p)"
    using assms by (simp add: get_board_eq plain_boards_def)
  moreover have "list_all plain (ba_boards s ! toNumber p)"
    using plain_board [OF assms] by (simp add: list_all_iff)
  ultimately show ?thesis
    by (simp add: get_board_abilities_def board_abilities_plain)
qed

lemma switch_less: "toNumber (switch_player_index p) < 2"
  by (simp add: switch_player_index_def)

text \<open>What damage makes of the boards.\<close>

definition after_damage :: "u16 \<Rightarrow> nat \<Rightarrow> nat \<Rightarrow> Fighter list list \<Rightarrow> Fighter list list" where
  "after_damage d p i bs =
     (let b = bs ! p; e = b ! i; health = saturating_sub (at_health (bt_attributes e)) d in
      if d = 0 then bs
      else if health = 0 then bs[p := take i b @ drop (Suc i) b]
      else bs[p := b[i := with_stats (at_attack (bt_attributes e)) health e]])"

definition survives :: "u16 \<Rightarrow> Fighter \<Rightarrow> bool" where
  "survives d e \<longleftrightarrow> d = 0 \<or> saturating_sub (at_health (bt_attributes e)) d \<noteq> 0"

lemma damage_plain:
  assumes s: "plain_boards P (ba_boards s)" and e: "fighter_at s p i e"
  shows "\<exists>s'. damage_emo act d p i s = Inr (survives d e, s') \<and>
    ba_boards s' = after_damage d (toNumber p) (toNumber i) (ba_boards s)"
proof -
  let ?b = "ba_boards s ! toNumber p" and ?h = "saturating_sub (at_health (bt_attributes e)) d"
  have at: "toNumber p < 2" "toNumber p < length (ba_boards s)" "toNumber i < length ?b" "e = ?b ! toNumber i"
    using s e by (auto simp: get_emo_mut_eq plain_boards_def)
  have pl: "plain e"
    using plain_board [OF s at(1)] at(3,4) by (simp add: list_all_length)
  have "battle_get_emo s p i = Inr e" using e by (simp add: battle_get_emo_eq)
  then have shield: "remove_shield_if_exist act p i s = Inr (False, s)"
    by (simp add: remove_shield_if_exist_def plain_no_abilities(1) [OF pl])
  show ?thesis
  proof (cases "d = 0")
    case True
    then show ?thesis by (simp add: damage_emo_def shield survives_def after_damage_def Let_def)
  next
    case d: False
    let ?s = "battle_log (Log_Damage (mtc_battle_Log_Damage p i d ?h)) s"
    show ?thesis
    proof (cases "?h = 0")
      case False
      then show ?thesis
        using d e at by (simp add: damage_emo_def shield survives_def after_damage_def Let_def with_stats_def)
    next
      case True
      let ?b' = "take (toNumber i) ?b @ drop (Suc (toNumber i)) ?b"
      let ?r = "battle_log (Log_Remove (mtc_battle_Log_Remove p i)) (put_board p ?b' ?s)"
      have r: "plain_boards P (ba_boards ?r)"
        using plain_board [OF s at(1)]
        by (simp, intro plain_update [OF s]) (auto simp: list_all_iff dest: in_set_takeD in_set_dropD)
      have "get_board_mut ?s p = Inr ?b"
        using at(2) by (simp add: get_board_mut_eq get_board_eq)
      then have "retire_emo act p i ?s = Inr ?r"
        using at(3,4) plain_no_abilities(2) [OF pl] plain_abilities [OF r at(1)] plain_abilities [OF r switch_less]
        by (simp add: retire_emo_def Let_def call_emo_retire_player_abilities_def
            call_emo_retire_rival_abilities_def for_abilities_def)
      then show ?thesis
        using d e at True by (simp add: damage_emo_def shield survives_def after_damage_def Let_def)
    qed
  qed
qed

text \<open>The health of a board, an emoji counting one more: what damage takes from.\<close>

definition board_bulk :: "'a BattleEmo_scheme list \<Rightarrow> nat" where
  "board_bulk b = sum_list (map (\<lambda>e. Suc (toNumber (at_health (bt_attributes e)))) b)"

definition bulk :: "Fighter list list \<Rightarrow> nat" where
  "bulk bs = sum_list (map board_bulk bs)"

lemma board_bulk_simps [simp]:
  "board_bulk [] = 0" "board_bulk (e # b) = Suc (toNumber (at_health (bt_attributes e))) + board_bulk b"
  "board_bulk (b @ c) = board_bulk b + board_bulk c"
  by (simp_all add: board_bulk_def)

lemma bulk_update: "p < length bs \<Longrightarrow> bulk (bs[p := b]) + board_bulk (bs ! p) = bulk bs + board_bulk b"
  using elem_le_sum_list [of p "map board_bulk bs"]
  by (simp add: bulk_def map_update sum_list_update)

lemma board_bulk_update:
  "i < length b \<Longrightarrow> board_bulk (b[i := e]) + toNumber (at_health (bt_attributes (b ! i))) =
     board_bulk b + toNumber (at_health (bt_attributes e))"
  using id_take_nth_drop [of i b] by (simp add: upd_conv_take_nth_drop) (metis board_bulk_simps(2,3) add.commute
      add.left_commute add_Suc)

lemma board_bulk_remove: "i < length b \<Longrightarrow> board_bulk (take i b @ drop (Suc i) b) < board_bulk b"
  by (subst (3) id_take_nth_drop [of i b]) simp_all

lemma saturating_sub_less:
  fixes h d :: u16
  assumes "d \<noteq> 0" "saturating_sub h d \<noteq> 0"
  shows "toNumber (saturating_sub h d) < toNumber h"
proof -
  have "\<not> h < d" and s: "saturating_sub h d = h - d"
    using assms(2) by (auto simp: saturating_sub_def split: if_splits)
  then have "toNumber (h - d) = toNumber h - toNumber d" "toNumber d \<le> toNumber h"
    by (simp_all add: unat_sub_if_size word_le_nat_alt linorder_not_less)
  with assms(1) show ?thesis
    unfolding s using unat_gt_0 [of d] by linarith
qed

text \<open>What an attack keeps of an emoji: its base and its attack.\<close>

abbreviation keeps :: "(u16 \<Rightarrow> u16 \<Rightarrow> bool) \<Rightarrow> Fighter \<Rightarrow> bool" where
  "keeps Q e \<equiv> Q (bt_base_id e) (at_attack (bt_attributes e))"

lemma after_damage_facts:
  assumes bs: "plain_boards (keeps Q) bs" and p: "p < 2" and i: "i < length (bs ! p)"
  shows "plain_boards (keeps Q) (after_damage d p i bs)"
    "bulk (after_damage d p i bs) \<le> bulk bs" "d \<noteq> 0 \<Longrightarrow> bulk (after_damage d p i bs) < bulk bs"
    "q \<noteq> p \<Longrightarrow> after_damage d p i bs ! q = bs ! q" "d = 0 \<Longrightarrow> after_damage d p i bs = bs"
    "survives d (bs ! p ! i) \<Longrightarrow> i < length (after_damage d p i bs ! p)"
proof -
  let ?b = "bs ! p" and ?h = "saturating_sub (at_health (bt_attributes (bs ! p ! i))) d"
  let ?e = "with_stats (at_attack (bt_attributes (?b ! i))) ?h (?b ! i)"
  have pl: "list_all (\<lambda>e. plain e \<and> keeps Q e) ?b" "length ?b \<le> 7"
    using plain_board [OF bs p] by simp_all
  have len: "p < length bs" using bs p by (simp add: plain_boards_def)
  have e: "plain ?e \<and> keeps Q ?e"
    using pl(1) i by (simp add: list_all_length plain_def with_stats_def)
  have "list_all (\<lambda>e. plain e \<and> keeps Q e) (?b[i := ?e])"
    using pl(1) e by (auto simp: list_all_iff dest!: set_update_subset_insert [THEN subsetD])
  moreover have "list_all (\<lambda>e. plain e \<and> keeps Q e) (take i ?b @ drop (Suc i) ?b)"
    using pl(1) by (auto simp: list_all_iff dest: in_set_takeD in_set_dropD)
  ultimately show "plain_boards (keeps Q) (after_damage d p i bs)"
    using bs pl(2) i by (auto simp: after_damage_def Let_def intro!: plain_update)
  show less: "bulk (after_damage d p i bs) < bulk bs" if d: "d \<noteq> 0"
  proof (cases "?h = 0")
    case True
    then show ?thesis
      using d bulk_update [OF len, of "take i ?b @ drop (Suc i) ?b"] board_bulk_remove [OF i]
      by (simp add: after_damage_def Let_def)
  next
    case False
    then show ?thesis
      using d bulk_update [OF len, of "?b[i := ?e]"] board_bulk_update [OF i, of ?e]
        saturating_sub_less [OF d False]
      by (simp add: after_damage_def with_stats_def Let_def)
  qed
  show "d = 0 \<Longrightarrow> after_damage d p i bs = bs" by (simp add: after_damage_def)
  with less show "bulk (after_damage d p i bs) \<le> bulk bs"
    by (cases "d = 0") simp_all
  show "q \<noteq> p \<Longrightarrow> after_damage d p i bs ! q = bs ! q"
    by (simp add: after_damage_def Let_def)
  show "survives d (bs ! p ! i) \<Longrightarrow> i < length (after_damage d p i bs ! p)"
    using i len by (auto simp: after_damage_def survives_def Let_def)
qed

section \<open>Who attacks whom\<close>

lemma indexed_set: "length b \<le> 7 \<Longrightarrow> (i, e) \<in> set (indexed b) \<Longrightarrow> toNumber i < length b"
  by (auto simp: indexed_def set_zip unat_of_nat)

lemma foldl_picks:
  assumes "\<And>i c x. fst (f (i, c) x) \<in> {i, fst x}"
  shows "fst (foldl f (i, c) xs) \<in> insert i (fst ` set xs)"
proof (induction xs arbitrary: i c)
  case (Cons x xs)
  obtain j c' where f: "f (i, c) x = (j, c')" by (cases "f (i, c) x")
  with assms [of i c x] Cons.IH [of j c'] show ?case by auto
qed simp

lemma attack_emo_index:
  assumes "b \<noteq> []" "length b \<le> 7"
  shows "\<exists>i. get_attack_emo_index b = Inr i \<and> toNumber i < length b"
proof -
  have "indexed b \<noteq> []" using assms(1) by (simp add: indexed_def zip_eq_Nil_iff)
  then obtain i e rest where b: "indexed b = (i, e) # rest" by (cases "indexed b") auto
  let ?f = "\<lambda>(index, min_count) (i, e). if min_count > bt_attack_and_survived_count e
    then (i, bt_attack_and_survived_count e) else (index, min_count)"
  have "fst (foldl ?f (i, bt_attack_and_survived_count e) rest) \<in> insert i (fst ` set rest)"
    by (rule foldl_picks) (auto split: prod.splits)
  then obtain j where j: "get_attack_emo_index b = Inr j" "j \<in> insert i (fst ` set rest)"
    by (simp add: get_attack_emo_index_def b)
  then have "\<exists>e. (j, e) \<in> set (indexed b)" using b by force
  with j(1) indexed_set [OF assms(2)] show ?thesis by auto
qed

lemma not_special:
  assumes "list_all plain b"
  shows "attractive_emo_indexes b = []"
proof -
  have "plain (snd x)" if "x \<in> set (indexed b)" for x
    using that set_zip_rightD [of "fst x" "snd x"] assms by (simp add: indexed_def list_all_iff)
  then show ?thesis
    by (auto simp: attractive_emo_indexes_def filter_empty_conv fighter_has_def has_special_def plain_def)
qed

lemma small_length: "length b \<le> 7 \<Longrightarrow> toNumber (word_of_nat (length b) :: u8) = length b"
  by (simp add: unat_of_nat)

lemma indexes_plain:
  assumes s: "plain_boards P (ba_boards s)" and p: "toNumber p < 2" and full: "\<forall>b\<in>set (ba_boards s). b \<noteq> []"
    and rand: "range_ok rand"
  shows "\<exists>i j s'. get_attack_and_defense_emo_indexes rand p s = Inr (i, j, s') \<and> ba_boards s' = ba_boards s \<and>
    toNumber i < length (ba_boards s ! toNumber p) \<and>
    toNumber j < length (ba_boards s ! toNumber (switch_player_index p))"
proof -
  let ?b = "ba_boards s ! toNumber p" and ?d = "ba_boards s ! toNumber (switch_player_index p)"
  have len: "length (ba_boards s) = 2" using s by (simp add: plain_boards_def)
  have b: "?b \<noteq> []" "length ?b \<le> 7" "list_all plain ?b" "get_board s p = Inr ?b"
    using plain_board [OF s p] full p len by (auto simp: list_all_iff get_board_eq)
  have d: "?d \<noteq> []" "length ?d \<le> 7" "list_all plain ?d" "get_board s (switch_player_index p) = Inr ?d"
    using plain_board [OF s switch_less] full len switch_less by (auto simp: list_all_iff get_board_eq)
  obtain i where i: "get_attack_emo_index ?b = Inr i" "toNumber i < length ?b"
    using attack_emo_index [OF b(1,2)] by blast
  have e: "battle_get_emo s p i = Inr (?b ! toNumber i)"
    using i(2) p len by (simp add: battle_get_emo_eq get_emo_mut_eq)
  have "\<not> fighter_has Special_AttackLowestAttack (?b ! toNumber i)"
    using b(3) i(2) by (simp add: list_all_length fighter_has_def has_special_def plain_def)
  then have "get_attack_and_defense_emo_indexes rand p s =
      mapR (Pair i) (Inr (draw (\<lambda>rng. br_range rand rng (word_of_nat (length ?d))) s))"
    using d(1) not_special [OF d(3)]
    by (simp add: get_attack_and_defense_emo_indexes_def b(4) i(1) e d(4) get_defense_emo_index_def)
  moreover obtain j rng where j: "br_range rand (ba_rng s) (word_of_nat (length ?d)) = (j, rng)"
    by (cases "br_range rand (ba_rng s) (word_of_nat (length ?d))")
  moreover have "toNumber j < length ?d"
  proof -
    have "word_of_nat (length ?d) \<noteq> (0 :: u8)"
      using d(1) small_length [OF d(2)] by (metis length_0_conv unat_0)
    then have "j < word_of_nat (length ?d)"
      using rand j unfolding range_ok_def by (metis fst_conv)
    then show ?thesis using small_length [OF d(2)] by (simp add: word_less_nat_alt)
  qed
  ultimately show ?thesis
    using i(2) by (simp add: draw_def)
qed

section \<open>An attack\<close>

lemma counted_plain:
  assumes t: "plain_boards (keeps Q) (ba_boards t)" and p: "toNumber p < 2" and x: "fighter_at t p i x"
    and b: "bs = ba_boards (put_emo p i (x\<lparr>bt_attack_and_survived_count := c\<rparr>) t)"
  shows "plain_boards (keeps Q) bs" "bulk bs = bulk (ba_boards t)" "map length bs = map length (ba_boards t)"
proof -
  let ?x = "x\<lparr>bt_attack_and_survived_count := c\<rparr>" and ?b = "ba_boards t ! toNumber p"
  have at: "toNumber i < length ?b" "x = ?b ! toNumber i" "toNumber p < length (ba_boards t)"
    using x by (simp_all add: get_emo_mut_eq)
  have "plain ?x \<and> keeps Q ?x"
    using plain_board [OF t p] at by (simp add: list_all_length plain_def)
  then have "list_all (\<lambda>e. plain e \<and> keeps Q e) (?b[toNumber i := ?x])"
    using plain_board [OF t p] by (auto simp: list_all_iff dest!: set_update_subset_insert [THEN subsetD])
  then show "plain_boards (keeps Q) bs"
    unfolding b boards_put(2) using plain_board [OF t p] by (intro plain_update [OF t]) simp_all
  show "bulk bs = bulk (ba_boards t)"
    using bulk_update [OF at(3), of "?b[toNumber i := ?x]"] board_bulk_update [OF at(1), of ?x] at(2)
    by (simp add: b)
  show "map length bs = map length (ba_boards t)"
    unfolding b by (rule lengths_put_emo)
qed

lemma attack_plain:
  assumes s: "plain_boards (keeps Q) (ba_boards s)" and p: "toNumber p < 2"
    and full: "\<forall>b\<in>set (ba_boards s). b \<noteq> []" and rand: "range_ok rand"
  shows "\<exists>s'. battle_attack rand act p s = Inr s' \<and> plain_boards (keeps Q) (ba_boards s') \<and>
    ((\<forall>i a. Q i a \<longrightarrow> a \<noteq> 0) \<longrightarrow> bulk (ba_boards s') < bulk (ba_boards s)) \<and>
    ((\<forall>i a. Q i a \<longrightarrow> a = 0) \<longrightarrow> map length (ba_boards s') = map length (ba_boards s))"
proof -
  let ?q = "switch_player_index p"
  have pq: "toNumber ?q < 2" "toNumber ?q \<noteq> toNumber p"
    using p by (auto simp: switch_player_index_def unat_eq_0 split: if_splits)
  have len: "length (ba_boards s) = 2" using s by (simp add: plain_boards_def)
  obtain i j s0 where ij: "get_attack_and_defense_emo_indexes rand p s = Inr (i, j, s0)"
    "ba_boards s0 = ba_boards s" and i: "toNumber i < length (ba_boards s ! toNumber p)"
    and j: "toNumber j < length (ba_boards s ! toNumber ?q)"
    using indexes_plain [OF s p full rand] by blast
  let ?s = "battle_log (Log_Attack (mtc_battle_Log_Attack p i j)) s0"
  let ?e = "ba_boards s ! toNumber p ! toNumber i" and ?d = "ba_boards s ! toNumber ?q ! toNumber j"
  let ?a = "at_attack (bt_attributes ?e)" and ?c = "at_attack (bt_attributes ?d)"
  have e: "fighter_at ?s p i ?e" and d: "fighter_at ?s ?q j ?d"
    using i j p pq len by (simp_all add: get_emo_mut_eq ij(2))
  have Q: "Q (bt_base_id ?e) ?a" "Q (bt_base_id ?d) ?c"
    using plain_board [OF s p] plain_board [OF s pq(1)] i j by (simp_all add: list_all_length)
  have s1: "plain_boards (keeps Q) (ba_boards ?s)" using s by (simp add: ij(2))
  obtain t1 where t1: "damage_emo act ?a ?q j ?s = Inr (survives ?a ?d, t1)"
    and b1: "ba_boards t1 = after_damage ?a (toNumber ?q) (toNumber j) (ba_boards s)"
    using damage_plain [OF s1 d] by (auto simp: ij(2))
  note f1 = after_damage_facts [OF s pq(1) j, where d = ?a]
  have p1: "ba_boards t1 ! toNumber p = ba_boards s ! toNumber p"
    unfolding b1 by (rule f1(4)) (use pq in simp)
  have pl1: "plain_boards (keeps Q) (ba_boards t1)" using f1(1) by (simp add: b1)
  then have len1: "length (ba_boards t1) = 2" by (simp add: plain_boards_def)
  have there: "has_emo_at_index t1 p i = Inr True"
    using i p len1 small_length [of "ba_boards s ! toNumber p"] plain_board [OF s p]
    by (simp add: has_emo_at_index_def count_board_emos_def mapR_def get_board_def js_at_def p1 word_less_nat_alt)
  have e1: "fighter_at t1 p i ?e" using i p len1 by (simp add: get_emo_mut_eq p1)
  obtain t2 where t2: "damage_emo act ?c p i t1 = Inr (survives ?c ?e, t2)"
    and b2: "ba_boards t2 = after_damage ?c (toNumber p) (toNumber i) (ba_boards t1)"
    using damage_plain [OF pl1 e1] by blast
  have i1: "toNumber i < length (ba_boards t1 ! toNumber p)" using i by (simp add: p1)
  note f2 = after_damage_facts [OF pl1 p i1, where d = ?c]
  have pl2: "plain_boards (keeps Q) (ba_boards t2)" using f2(1) by (simp add: b2)
  then have len2: "length (ba_boards t2) = 2" by (simp add: plain_boards_def)
  have damaged: "bulk (ba_boards t2) \<le> bulk (ba_boards s)" "?a \<noteq> 0 \<Longrightarrow> bulk (ba_boards t2) < bulk (ba_boards s)"
    "?a = 0 \<Longrightarrow> ?c = 0 \<Longrightarrow> ba_boards t2 = ba_boards s"
    using f1(2,3,5) f2(2,5) by (simp_all add: b1 b2)
  obtain s' where s': "battle_attack rand act p s = Inr s'" and b': "ba_boards s' = ba_boards t2 \<or>
      (\<exists>x c. fighter_at t2 p i x \<and> ba_boards s' = ba_boards (put_emo p i (x\<lparr>bt_attack_and_survived_count := c\<rparr>) t2))"
  proof (cases "survives ?c ?e")
    case False
    then have "battle_attack rand act p s = Inr t2"
      using e d by (simp add: battle_attack_def ij(1) attack_damage_def Let_def battle_get_emo_eq [THEN iffD2] t1
          there t2)
    then show ?thesis using that by blast
  next
    case True
    then have "toNumber i < length (ba_boards t2 ! toNumber p)"
      using f2(6) by (simp add: b2 p1)
    then obtain x where x: "fighter_at t2 p i x" using p len2 by (auto simp: get_emo_mut_eq)
    then have "battle_attack rand act p s =
        Inr (put_emo p i (x\<lparr>bt_attack_and_survived_count := bt_attack_and_survived_count x + 1\<rparr>) t2)"
      using e d True by (simp add: battle_attack_def ij(1) attack_damage_def Let_def battle_get_emo_eq [THEN iffD2] t1
          there t2)
    then show ?thesis using that x by blast
  qed
  have same: "plain_boards (keeps Q) (ba_boards s')" "bulk (ba_boards s') = bulk (ba_boards t2)"
    "map length (ba_boards s') = map length (ba_boards t2)"
    using b' counted_plain [OF pl2 p] pl2 by metis+
  show ?thesis
    using s' same damaged Q by auto
qed

section \<open>The march of plain boards\<close>

lemma finished_plain:
  assumes s: "plain_boards (keeps Q) (ba_boards s)"
  shows "\<forall>b\<in>set (ba_boards s). b \<noteq> [] \<Longrightarrow> get_remaining_grades_if_finished s bases = Inr None"
    "\<not> (\<forall>b\<in>set (ba_boards s). b \<noteq> []) \<Longrightarrow> (\<forall>i a. Q i a \<longrightarrow> (\<exists>base. find_base bases i = Inr base)) \<Longrightarrow>
      \<exists>g0 g1. get_remaining_grades_if_finished s bases = Inr (Some (g0, g1))"
proof -
  obtain b0 b1 where b: "ba_boards s = [b0, b1]"
    using s by (auto simp: plain_boards_def numeral_2_eq_2 length_Suc_conv)
  then have g: "get_board s 0 = Inr b0" "get_board s 1 = Inr b1"
    by (simp_all add: get_board_eq)
  show "\<forall>b\<in>set (ba_boards s). b \<noteq> [] \<Longrightarrow> get_remaining_grades_if_finished s bases = Inr None"
    by (simp add: get_remaining_grades_if_finished_def is_empty_board_def g b)
  assume e: "\<not> (\<forall>b\<in>set (ba_boards s). b \<noteq> [])" and found: "\<forall>i a. Q i a \<longrightarrow> (\<exists>base. find_base bases i = Inr base)"
  have sum: "\<exists>g. foldE (\<lambda>sum' e. mapR (\<lambda>base. saturating_add sum' (eb_grade base)) (find_base bases (bt_base_id e))) g0 b
      = Inr g" if "list_all (\<lambda>e. plain e \<and> keeps Q e) b" for b g0
    using that found by (induction b arbitrary: g0) fastforce+
  obtain g0 g1 where "sum_grades b0 bases = Inr g0" "sum_grades b1 bases = Inr g1"
    using s sum unfolding sum_grades_def plain_boards_def b by fastforce
  then show "\<exists>g0 g1. get_remaining_grades_if_finished s bases = Inr (Some (g0, g1))"
    using e by (auto simp: get_remaining_grades_if_finished_def is_empty_board_def g b)
qed

lemma attacker: "toNumber first < 2 \<Longrightarrow> toNumber (attack_player_index num first) < 2"
  by (simp add: attack_player_index_def switch_less)

lemma plain_loop:
  assumes rand: "range_ok rand" and first: "toNumber first < 2"
    and Q: "\<forall>i a. Q i a \<longrightarrow> a \<noteq> 0" "\<forall>i a. Q i a \<longrightarrow> (\<exists>base. find_base bases i = Inr base)"
  shows "plain_boards (keeps Q) (ba_boards s) \<Longrightarrow> \<forall>b\<in>set (ba_boards s). b \<noteq> [] \<Longrightarrow> bulk (ba_boards s) \<le> n \<Longrightarrow>
    \<exists>g0 g1 s'. march_loop rand act bases first n num s = Inr (g0, g1, s')"
proof (induction n arbitrary: num s)
  case 0
  then obtain b0 b1 where "ba_boards s = [b0, b1]"
    by (auto simp: plain_boards_def numeral_2_eq_2 length_Suc_conv)
  with 0 show ?case by (cases b0) (auto simp: bulk_def)
next
  case (Suc n)
  obtain s' where s': "battle_attack rand act (attack_player_index num first) s = Inr s'"
    "plain_boards (keeps Q) (ba_boards s')" "bulk (ba_boards s') < bulk (ba_boards s)"
    using attack_plain [OF Suc.prems(1) attacker [OF first] Suc.prems(2) rand] Q(1) by blast
  show ?case
  proof (cases "\<forall>b\<in>set (ba_boards s'). b \<noteq> []")
    case True
    have "\<exists>g0 g1 t. march_loop rand act bases first n (num + 1) s' = Inr (g0, g1, t)"
      using Suc.prems(3) s'(3) by (intro Suc.IH [OF s'(2) True]) simp
    then show ?thesis by (simp add: s'(1) finished_plain(1) [OF s'(2) True])
  next
    case False
    from finished_plain(2) [OF s'(2) this Q(2)] show ?thesis by (auto simp: s'(1))
  qed
qed

lemma idle_loop:
  assumes rand: "range_ok rand" and first: "toNumber first < 2" and Q: "\<forall>i a. Q i a \<longrightarrow> a = 0"
  shows "plain_boards (keeps Q) (ba_boards s) \<Longrightarrow> \<forall>b\<in>set (ba_boards s). b \<noteq> [] \<Longrightarrow>
    march_loop rand act bases first n num s = throwError ''reached maximum tick''"
proof (induction n arbitrary: num s)
  case (Suc n)
  obtain s' where s': "battle_attack rand act (attack_player_index num first) s = Inr s'"
    "plain_boards (keeps Q) (ba_boards s')" and l: "map length (ba_boards s') = map length (ba_boards s)"
    using attack_plain [OF Suc.prems(1) attacker [OF first] Suc.prems(2) rand] Q by blast
  have "0 \<notin> set (map length (ba_boards s'))"
    unfolding l using Suc.prems(2) by auto
  then have full: "\<forall>b\<in>set (ba_boards s'). b \<noteq> []" by auto
  then show ?case
    using Suc.IH [OF s'(2) full] by (simp add: s'(1) finished_plain(1) [OF s'(2) full])
qed simp

lemma with_battle_id_simps [simp]:
  "bt_base_id (with_battle_id e i) = bt_base_id e" "bt_attributes (with_battle_id e i) = bt_attributes e"
  by (simp_all add: with_battle_id_def BattleEmo.extend_def Fighter.fields_def)

lemma with_battle_ids_all:
  "list_all (\<lambda>e. plain e \<and> Q (bt_base_id e) (at_attack (bt_attributes e))) es \<Longrightarrow>
   list_all (\<lambda>e. plain e \<and> keeps Q e) (with_battle_ids es i)"
  by (induction es i rule: with_battle_ids.induct) (auto simp: plain_def)

lemma board_bulk_with_ids [simp]: "board_bulk (with_battle_ids es i) = board_bulk es"
  by (induction es i rule: with_battle_ids.induct) auto

lemma first_attack:
  assumes "count_board_emos s 0 = Inr n0" "count_board_emos s 1 = Inr n1"
  shows "\<exists>first s'. get_first_attack_player_index rand s = Inr (first, s') \<and> toNumber first < 2 \<and>
    ba_boards s' = ba_boards s"
proof -
  obtain b s1 where d: "draw (br_bool rand) s = (b, s1)" by (cases "draw (br_bool rand) s")
  have "get_first_attack_player_index rand s =
      (if n0 > n1 then Inr (0, s) else if n0 < n1 then Inr (1, s) else Inr (if b then 0 else 1, s1))"
    by (simp add: get_first_attack_player_index_def assms d)
  moreover have "ba_boards s1 = ba_boards s"
    using same_boards_draw [OF d] by simp
  ultimately show ?thesis by (cases b) simp_all
qed

text \<open>Up to the first attack nothing happens on plain boards.\<close>

lemma march_plain_start:
  assumes "length emos0 \<le> 7" "length emos1 \<le> 7"
    and "list_all (\<lambda>e. plain e \<and> Q (bt_base_id e) (at_attack (bt_attributes e))) (emos0 @ emos1)"
  obtains first s where "toNumber first < 2" "plain_boards (keeps Q) (ba_boards s)"
    "ba_boards s = ba_boards (march_start rand next_id emos0 emos1 seed)"
    "march_boards rand depth next_id emos0 emos1 seed bases =
      bindE (get_remaining_grades_if_finished s bases) (\<lambda>o'. case o' of
          Some (g0, g1) \<Rightarrow> Inr (g0, g1, s)
        | None \<Rightarrow> march_loop rand (call_ability_normal_action depth rand bases) bases first 255 1 s)"
proof -
  let ?s = "march_start rand next_id emos0 emos1 seed"
  have pl: "plain_boards (keeps Q) (ba_boards ?s)"
    using assms by (simp add: plain_boards_def march_start_def with_battle_ids_all)
  obtain first s where f: "get_first_attack_player_index rand ?s = Inr (first, s)" "toNumber first < 2"
    "ba_boards s = ba_boards ?s"
  proof -
    have c: "\<exists>n. count_board_emos ?s p = Inr n" if "p = 0 \<or> p = 1" for p
      using that by (auto simp: count_board_emos_def get_board_def js_at_def march_start_def)
    obtain n0 n1 where "count_board_emos ?s 0 = Inr n0" "count_board_emos ?s 1 = Inr n1"
      using c by blast
    from first_attack [OF this, of rand] that show ?thesis by blast
  qed
  have s: "plain_boards (keeps Q) (ba_boards s)" using pl f(3) by simp
  have "call_pre_abilities act first s = Inr s" for act
    using plain_abilities [OF s f(2)] plain_abilities [OF s switch_less]
    by (simp add: call_pre_abilities_def for_abilities_def)
  then show ?thesis
    using that f s by (simp add: march_boards_def Let_def del: march_loop.simps)
qed

lemma not_isl_found: "\<not> isl m \<longleftrightarrow> (\<exists>r. m = Inr r)"
  by (cases m) auto

lemma plain_march:
  assumes "length emos0 \<le> 7" "length emos1 \<le> 7" "range_ok rand" "board_bulk emos0 + board_bulk emos1 \<le> 255"
    and "list_all (\<lambda>e. plain e \<and> at_attack (bt_attributes e) \<noteq> 0 \<and> \<not> isl (find_base bases (bt_base_id e)))
      (emos0 @ emos1)"
  shows "\<exists>r. rust_march rand depth next_id emos0 emos1 seed bases = Inr r"
proof -
  let ?Q = "\<lambda>i a. a \<noteq> 0 \<and> \<not> isl (find_base bases i)"
  obtain first s where first: "toNumber first < 2" and s: "plain_boards (keeps ?Q) (ba_boards s)"
    and b: "ba_boards s = ba_boards (march_start rand next_id emos0 emos1 seed)"
    and m: "march_boards rand depth next_id emos0 emos1 seed bases =
      bindE (get_remaining_grades_if_finished s bases) (\<lambda>o'. case o' of
          Some (g0, g1) \<Rightarrow> Inr (g0, g1, s)
        | None \<Rightarrow> march_loop rand (call_ability_normal_action depth rand bases) bases first 255 1 s)"
    using march_plain_start [OF assms(1,2), of ?Q rand next_id seed depth bases] assms(5) by auto
  have Q: "\<forall>i a. ?Q i a \<longrightarrow> a \<noteq> 0" "\<forall>i a. ?Q i a \<longrightarrow> (\<exists>base. find_base bases i = Inr base)"
    by (auto simp: not_isl_found)
  have bulk: "bulk (ba_boards s) \<le> 255"
    using assms(4) by (simp add: b march_start_def bulk_def)
  have "\<exists>r. march_boards rand depth next_id emos0 emos1 seed bases = Inr r"
  proof (cases "\<forall>b\<in>set (ba_boards s). b \<noteq> []")
    case True
    from plain_loop [OF assms(3) first Q s True bulk] show ?thesis
      by (auto simp: m finished_plain(1) [OF s True] simp del: march_loop.simps)
  next
    case False
    from finished_plain(2) [OF s False Q(2)] show ?thesis by (auto simp: m)
  qed
  then show ?thesis by (auto simp: rust_march_def)
qed

lemma idle_march:
  assumes "length emos0 \<le> 7" "length emos1 \<le> 7" "emos0 \<noteq> []" "emos1 \<noteq> []" "range_ok rand"
    and "list_all (\<lambda>e. plain e \<and> at_attack (bt_attributes e) = 0) (emos0 @ emos1)"
  shows "rust_march rand depth next_id emos0 emos1 seed bases = throwError ''reached maximum tick''"
proof -
  let ?Q = "\<lambda>i a. a = (0 :: u16)"
  obtain first s where first: "toNumber first < 2" and s: "plain_boards (keeps ?Q) (ba_boards s)"
    and b: "ba_boards s = ba_boards (march_start rand next_id emos0 emos1 seed)"
    and m: "march_boards rand depth next_id emos0 emos1 seed bases =
      bindE (get_remaining_grades_if_finished s bases) (\<lambda>o'. case o' of
          Some (g0, g1) \<Rightarrow> Inr (g0, g1, s)
        | None \<Rightarrow> march_loop rand (call_ability_normal_action depth rand bases) bases first 255 1 s)"
    using march_plain_start [OF assms(1,2), of ?Q rand next_id seed depth bases] assms(6) by auto
  have full: "\<forall>b\<in>set (ba_boards s). b \<noteq> []"
    using assms(3,4) by (cases emos0; cases emos1) (simp_all add: b march_start_def)
  have "march_loop rand (call_ability_normal_action depth rand bases) bases first 255 1 s =
      throwError ''reached maximum tick''"
    by (rule idle_loop [OF assms(5) first _ s full]) simp
  then show ?thesis
    by (simp add: rust_march_def m finished_plain(1) [OF s full] del: march_loop.simps)
qed

section \<open>The lowest attack\<close>

text \<open>
  The indexes of the lowest attack, the first of them twice unless it is the first of all: the loop puts
  a new lowest attack into the list and then finds it equal to the lowest.
\<close>

definition lowest_indexes :: "u16 list \<Rightarrow> nat list" where
  "lowest_indexes as = filter (\<lambda>i. as ! i = Min (set as)) [0..<length as]"

definition drawn_indexes :: "u16 list \<Rightarrow> nat list" where
  "drawn_indexes as =
     (let js = lowest_indexes as in if hd js = 0 then js else hd js # js)"

lemma lowest_indexes_set: "set (lowest_indexes as) = {i. i < length as \<and> as ! i = Min (set as)}"
  by (auto simp: lowest_indexes_def)

lemma lowest_indexes_nonempty: "as \<noteq> [] \<Longrightarrow> lowest_indexes as \<noteq> []"
  using Min_in [of "set as"] by (auto simp: lowest_indexes_def filter_empty_conv in_set_conv_nth)

lemma lowest_indexes_snoc:
  assumes "as \<noteq> []"
  shows "lowest_indexes (as @ [y]) =
    (if y < Min (set as) then [length as]
     else if y = Min (set as) then lowest_indexes as @ [length as] else lowest_indexes as)"
proof -
  let ?m = "Min (set (as @ [y]))"
  have m: "?m = min y (Min (set as))" using assms by simp
  have nth: "as ! i \<ge> Min (set as)" if "i < length as" for i using that by simp
  have "lowest_indexes (as @ [y]) = filter (\<lambda>i. as ! i = ?m) [0..<length as] @ (if y = ?m then [length as] else [])"
  proof -
    have "filter (\<lambda>i. (as @ [y]) ! i = ?m) [0..<length as] = filter (\<lambda>i. as ! i = ?m) [0..<length as]"
      by (rule filter_cong) (simp_all add: nth_append)
    then show ?thesis by (simp add: lowest_indexes_def)
  qed
  moreover have "filter (\<lambda>i. as ! i = ?m) [0..<length as] = (if y < Min (set as) then [] else lowest_indexes as)"
  proof (cases "y < Min (set as)")
    case True
    have "as ! i \<noteq> y" if "i < length as" for i
      using nth [OF that] True by (metis leD)
    moreover have "?m = y" unfolding m by (rule min_absorb1 [OF less_imp_le [OF True]])
    ultimately show ?thesis by (simp add: True filter_empty_conv del: set_append)
  next
    case False
    then have "?m = Min (set as)" by (simp only: m) (simp add: min_def)
    then show ?thesis by (simp add: False lowest_indexes_def del: set_append)
  qed
  ultimately have eq: "lowest_indexes (as @ [y]) = (if y < Min (set as) then [] else lowest_indexes as) @
      (if y = min y (Min (set as)) then [length as] else [])"
    by (simp only: m)
  define k where "k = Min (set as)"
  show ?thesis
    unfolding eq k_def [symmetric] by (cases "y < k"; cases "y = k") (auto simp: min_def)
qed

lemma drawn_indexes_snoc:
  assumes "as \<noteq> []"
  shows "drawn_indexes (as @ [y]) =
    (if y < Min (set as) then [length as, length as]
     else if y = Min (set as) then drawn_indexes as @ [length as] else drawn_indexes as)"
  using assms lowest_indexes_nonempty [OF assms]
  by (simp add: drawn_indexes_def lowest_indexes_snoc Let_def)

lemma indexed_Cons: "indexed (e # es) = (0, e) # zip (map word_of_nat [1..<Suc (length es)]) es"
  by (simp add: indexed_def upt_conv_Cons del: upt_Suc)

lemma lowest_attack_step_snoc:
  assumes "as \<noteq> []" "y = at_attack (bt_attributes e)"
  shows "lowest_attack_step (map word_of_nat (drawn_indexes as), Min (set as)) (word_of_nat (length as), e) =
    (map word_of_nat (drawn_indexes (as @ [y])), Min (set (as @ [y])))"
proof -
  define m where "m = Min (set as)"
  have min: "Min (set (as @ [y])) = min y m" using assms(1) by (simp add: m_def)
  have drawn: "drawn_indexes (as @ [y]) = (if y < m then [length as, length as]
      else if y = m then drawn_indexes as @ [length as] else drawn_indexes as)"
    by (simp only: m_def drawn_indexes_snoc [OF assms(1)])
  show ?thesis
    unfolding min drawn m_def [symmetric] using assms(2)
    by (auto simp: lowest_attack_step_def Let_def min_def)
qed

lemma lowest_attack_fold:
  "foldl lowest_attack_step ([0], at_attack (bt_attributes e)) (tl (indexed (e # es))) =
    (map word_of_nat (drawn_indexes (map (\<lambda>e. at_attack (bt_attributes e)) (e # es))),
     Min (set (map (\<lambda>e. at_attack (bt_attributes e)) (e # es))))"
proof (induction es rule: rev_induct)
  case Nil
  show ?case by (simp add: indexed_def drawn_indexes_def lowest_indexes_def)
next
  case (snoc x es)
  let ?as = "map (\<lambda>e. at_attack (bt_attributes e)) (e # es)"
  have "tl (indexed (e # es @ [x])) = tl (indexed (e # es)) @ [(word_of_nat (length ?as), x)]"
    by (simp add: indexed_Cons upt_Suc_append del: upt_Suc)
  then have "foldl lowest_attack_step ([0], at_attack (bt_attributes e)) (tl (indexed (e # es @ [x]))) =
      lowest_attack_step (map word_of_nat (drawn_indexes ?as), Min (set ?as)) (word_of_nat (length ?as), x)"
    by (simp only: snoc foldl_append foldl.simps)
  also have "\<dots> = (map word_of_nat (drawn_indexes (?as @ [at_attack (bt_attributes x)])),
      Min (set (?as @ [at_attack (bt_attributes x)])))"
    by (rule lowest_attack_step_snoc) simp_all
  finally show ?case by simp
qed

lemma lowest_attack_emo_indexes_eq:
  assumes "emos \<noteq> []"
  shows "lowest_attack_emo_indexes emos =
    Inr (map word_of_nat (drawn_indexes (map (\<lambda>e. at_attack (bt_attributes e)) emos)))"
proof -
  obtain e es where emos: "emos = e # es" using assms by (cases emos) auto
  show ?thesis
    using lowest_attack_fold [of e es]
    by (simp add: lowest_attack_emo_indexes_def emos indexed_Cons del: upt_Suc)
qed

end
