(* ===== verification/ShopScreen.thy ===== *)
theory ShopScreen
  imports RustMatchFacts
begin

text \<open>
  The screen of the shop: \<open>front/src/components/common/Mtc/Shop/\<close> (\<open>tasks.ts\<close>, \<open>index.tsx\<close>,
  \<open>Nav.tsx\<close>, \<open>Catalog.tsx\<close>), \<open>MtcShopBoard/index.tsx\<close> and \<open>EmoLineButtons.tsx\<close>, \<open>Emo.tsx\<close> and
  \<open>PowButton.tsx\<close>. A component is the function from its properties to what it renders, of which the
  model keeps the buttons, the texts and the emojis; a render that throws is an error. The state
  hooks of \<open>Shop\<close> and \<open>MtcShopBoard\<close>, the state of the match that \<open>Shop\<close> changes and the element of
  the board make the record \<open>screen\<close>. A step of the screen is a click on a button that is rendered
  and not disabled, or the end of the operation that runs.
\<close>

section \<open>The state of the shop (Shop/tasks.ts)\<close>

record State =
  st_currentCatalogLineIndex :: nat
  st_soldMtcEmoIds :: "string list"
  st_playerOperations :: "mtc_shop_PlayerOperation list"
  st_coin :: int
  st_nextCatalogLineCounter :: nat

definition isMulliganAvailable :: "nat \<Rightarrow> nat \<Rightarrow> bool" where
  "isMulliganAvailable turn nextCatalogLineCounter \<longleftrightarrow>
     turn = 1 \<and> nextCatalogLineCounter < mulliganCount"

definition isNextCatalogLineAvailable :: "nat \<Rightarrow> nat \<Rightarrow> bool" where
  "isNextCatalogLineAvailable catalogLineCount currentCatalogLineIndex \<longleftrightarrow>
     int catalogLineCount - 2 \<ge> int currentCatalogLineIndex"

definition id_texts :: "mtc_BoardEmo \<Rightarrow> string list" where
  "id_texts e = map toStringU (be_mtc_emo_ids e)"

text \<open>
  A \<open>Move\<close> is made of texts of indexes, each decoded as a \<open>u8\<close>. An \<open>undefined\<close> among them would come
  from a move out of range, which the checks before exclude.
\<close>

definition createMove :: "string option list \<Rightarrow> mtc_shop_PlayerOperation js" where
  "createMove indexes =
     mapR (\<lambda>is. PlayerOperation_Move (mtc_shop_PlayerOperation_Move is))
       (mapE (\<lambda>i. case i of
            None \<Rightarrow> Inl JsTypeError
          | Some t \<Rightarrow> (case parseInt10 t of None \<Rightarrow> Inl JsTypeError | Some n \<Rightarrow> Inr (word_of_nat n)))
         indexes)"

definition move_to :: "mtc_Board \<Rightarrow> nat \<Rightarrow> bool \<Rightarrow> nat js" where
  "move_to board idx isRight =
     (if js_at board idx = None then throwError ''invalid board index''
      else if isRight
      then if js_at board (idx + 1) = None then throwError ''no right emoji'' else Inr (idx + 1)
      else if idx < 1 then throwError ''no left emoji'' else Inr (idx - 1))"

text \<open>The recorded operations without the last one, if that is a move, and the indexes to go on from.\<close>

definition last_move :: "mtc_Board \<Rightarrow> mtc_shop_PlayerOperation list \<Rightarrow>
   mtc_shop_PlayerOperation list \<times> string list" where
  "last_move board ops =
     (case rev ops of
        PlayerOperation_Move (mtc_shop_PlayerOperation_Move is) # _ \<Rightarrow> (butlast ops, map toStringU is)
      | _ \<Rightarrow> (ops, map show_nat [0..<length board]))"

definition finishShopBoardOperation ::
  "Operation \<Rightarrow> mtc_Board \<Rightarrow> int \<Rightarrow> MtcState \<Rightarrow> State \<Rightarrow> (MtcState \<times> State) js" where
  "finishShopBoardOperation boardOperation board coinDiff mtcState shopState =
     (let newShopState = shopState\<lparr>st_coin := st_coin shopState + coinDiff\<rparr>;
          ops = st_playerOperations shopState
      in mapR (\<lambda>newShopState. (mtcState\<lparr>ms_board := board\<rparr>, newShopState))
        (case boardOperation of
           Operation_set index mtcEmo \<Rightarrow>
             Inr (newShopState\<lparr>st_playerOperations := ops @
               [PlayerOperation_Buy (mtc_shop_PlayerOperation_Buy (me_id mtcEmo) (word_of_nat index))]\<rparr>)
         | Operation_sell index \<Rightarrow>
             bindE (orTypeError (js_at (ms_board mtcState) index)) (\<lambda>e.
               Inr (newShopState\<lparr>
                 st_soldMtcEmoIds := st_soldMtcEmoIds shopState @ id_texts e,
                 st_playerOperations := ops @
                   [PlayerOperation_Sell (mtc_shop_PlayerOperation_Sell (word_of_nat index))]\<rparr>))
         | Operation_move idx isRight \<Rightarrow>
             bindE (move_to (ms_board mtcState) idx isRight) (\<lambda>toIdx.
               let (ops, indexes) = last_move (ms_board mtcState) ops in
               mapR (\<lambda>m. newShopState\<lparr>st_playerOperations := ops @ [m]\<rparr>)
                 (createMove (moveArrayElement indexes idx toIdx)))
         | _ \<Rightarrow> Inr newShopState))"

section \<open>Emojis on a screen (Emo.tsx)\<close>

record Emo_props =
  pr_emoji :: string
  pr_typ :: emo_Typ
  pr_grade :: string
  pr_attributes :: emo_Attributes
  pr_isInactive :: bool

definition EmoBase :: "emo_Base \<Rightarrow> bool \<Rightarrow> bool \<Rightarrow> Emo_props js" where
  "EmoBase base isTriple isInactive =
     mapR (\<lambda>emoji. \<lparr>pr_emoji = emoji, pr_typ = eb_typ base, pr_grade = toStringU (eb_grade base),
         pr_attributes = \<lparr>at_attack = eb_attack base, at_health = eb_health base,
           at_abilities = eb_abilities base, at_is_triple = False\<rparr>,
         pr_isInactive = isInactive\<rparr>)
       (getEmoBaseEmoji base)"

text \<open>The effect of \<open>Emo\<close> fills its container, and its cleanup empties it.\<close>

definition Emo_effect :: "to_json \<Rightarrow> names \<Rightarrow> EmoBases \<Rightarrow> Emo_props \<Rightarrow> node \<Rightarrow> node js" where
  "Emo_effect json emoNames bases p container =
     mapR (\<lambda>emoElement. appendChild emoElement container)
       (createEmo json emoNames (pr_emoji p) (pr_typ p) (pr_grade p) (pr_attributes p)
         (pr_isInactive p) bases)"

definition Emo_cleanup :: "node \<Rightarrow> node" where
  "Emo_cleanup container = removeAllChildren container"

section \<open>Buttons\<close>

datatype action =
  NextCatalogLine
| Upgrade
| Battle "nat option"
| Select "mtc_Emo option"
| SetOperation Operation
| SelectRival nat
| RivalBoardCurrent bool

record button =
  bn_label :: string
  bn_disabled :: bool
  bn_action :: action

text \<open>
  \<open>PowButton\<close> is enabled once the worker has found a solution. A match on the chain needs one for
  its battles (\<open>kind: pow\<close>), a trial does not.
\<close>

datatype finish_kind = Pow "nat option" | NoPow

definition PowButton :: "nat option \<Rightarrow> bool \<Rightarrow> button" where
  "PowButton solution disabled =
     (case solution of
        Some s \<Rightarrow> \<lparr>bn_label = ''Battle!'', bn_disabled = disabled, bn_action = Battle (Some s)\<rparr>
      | None \<Rightarrow> \<lparr>bn_label = ''Battle!'', bn_disabled = True, bn_action = Battle None\<rparr>)"

section \<open>The head of the screen (Shop/Nav.tsx)\<close>

record Nav_view =
  nv_health :: string
  nv_grade :: string
  nv_coin :: string
  nv_buttons :: "button list"

definition Nav ::
  "nat \<Rightarrow> nat \<Rightarrow> int option \<Rightarrow> bool \<Rightarrow> finish_kind \<Rightarrow> int \<Rightarrow> nat \<Rightarrow> nat \<Rightarrow> bool \<Rightarrow> Nav_view js" where
  "Nav health grade upgradeCoin nextCatalogLineFn finishFn coin turn nextCatalogLineCounter disabled =
     mapR (\<lambda>gradeText. \<lparr>nv_health = show_nat health, nv_grade = gradeText, nv_coin = getCoinText coin,
         nv_buttons =
          [\<lparr>bn_label = ''Next Catalog Line '' @
              getCoinText (if isMulliganAvailable turn nextCatalogLineCounter then 0 else 1),
            bn_disabled = (disabled \<or> \<not> nextCatalogLineFn), bn_action = NextCatalogLine\<rparr>,
           \<lparr>bn_label = ''Upgrade '' @ (case upgradeCoin of None \<Rightarrow> '''' | Some c \<Rightarrow> getCoinText c),
            bn_disabled = (disabled \<or> (case upgradeCoin of None \<Rightarrow> True | Some c \<Rightarrow> c > coin)),
            bn_action = Upgrade\<rparr>,
           (case finishFn of
              Pow solution \<Rightarrow> PowButton solution disabled
            | NoPow \<Rightarrow> \<lparr>bn_label = ''Battle!'', bn_disabled = disabled, bn_action = Battle None\<rparr>)]\<rparr>)
       (getGradeText (show_nat grade))"

section \<open>The catalog (Shop/Catalog.tsx)\<close>

definition with_grade :: "EmoBases \<Rightarrow> mtc_Emo \<Rightarrow> (mtc_Emo \<times> emo_Base) js" where
  "with_grade bases mtcEmo = mapR (Pair mtcEmo) (findEmoBase (me_base_id mtcEmo) bases)"

definition is_unavailable :: "string list \<Rightarrow> mtc_Emo \<Rightarrow> bool" where
  "is_unavailable unavailableToBuyMtcEmoIds mtcEmo \<longleftrightarrow>
     toStringU (me_id mtcEmo) \<in> set unavailableToBuyMtcEmoIds"

definition CurrentLine ::
  "EmoBases \<Rightarrow> mtc_Emo list \<Rightarrow> nat \<Rightarrow> bool \<Rightarrow> string list \<Rightarrow> bool \<Rightarrow> (button \<times> Emo_props) list js" where
  "CurrentLine bases catalogLine grade isPurchasable unavailableToBuyMtcEmoIds disabled =
     bindE (mapE (with_grade bases) catalogLine) (\<lambda>emos.
       mapE (\<lambda>(mtcEmo, base).
           let emoGrade = toNumber (eb_grade base);
               isUnavailable = is_unavailable unavailableToBuyMtcEmoIds mtcEmo
           in mapR (Pair \<lparr>bn_label = ''Buy '' @ getCoinText (int emoBuyCoin),
                  bn_disabled = (\<not> (\<not> disabled \<and> isPurchasable \<and> \<not> isUnavailable \<and> grade \<ge> emoGrade)),
                  bn_action = Select (Some mtcEmo)\<rparr>)
                (EmoBase base False (isUnavailable \<or> grade < emoGrade)))
         (sort_key (\<lambda>(_, base). toNumber (eb_grade base)) emos))"

definition Line :: "EmoBases \<Rightarrow> mtc_Emo list \<Rightarrow> nat \<Rightarrow> string list \<Rightarrow> Emo_props list js" where
  "Line bases catalogLine grade unavailableToBuyMtcEmoIds =
     bindE (mapE (with_grade bases) catalogLine) (\<lambda>emos.
       mapE (\<lambda>(mtcEmo, base).
           EmoBase base False
             (is_unavailable unavailableToBuyMtcEmoIds mtcEmo \<or> grade < toNumber (eb_grade base)))
         (sort_key (\<lambda>(_, base). toNumber (eb_grade base)) emos))"

record Catalog_view =
  cv_unselect :: "button list"
  cv_currentLine :: "(button \<times> Emo_props) list"
  cv_lines :: "Emo_props list list"

definition Catalog ::
  "EmoBases \<Rightarrow> mtc_Emo list list \<Rightarrow> nat \<Rightarrow> nat \<Rightarrow> mtc_Emo option \<Rightarrow> bool \<Rightarrow> int \<Rightarrow> string list \<Rightarrow> bool \<Rightarrow>
   Catalog_view js" where
  "Catalog bases catalog currentCatalogLineIndex grade selectedEmoToBuy isMaxBoard coin
     unavailableToBuyMtcEmoIds disabled =
     (let isPurchasable = (\<not> isMaxBoard \<and> coin \<ge> int emoBuyCoin) in
      case drop currentCatalogLineIndex catalog of
        [] \<Rightarrow> throwError ''Invalid state: currentCatalogLine''
      | currentCatalogLine # catalog \<Rightarrow>
          bindE (CurrentLine bases currentCatalogLine grade isPurchasable unavailableToBuyMtcEmoIds disabled)
            (\<lambda>currentLine.
          mapR (\<lambda>lines. \<lparr>cv_unselect =
                (case selectedEmoToBuy of
                   None \<Rightarrow> []
                 | Some _ \<Rightarrow> [\<lparr>bn_label = ''Unselect'', bn_disabled = False, bn_action = Select None\<rparr>]),
              cv_currentLine = currentLine, cv_lines = lines\<rparr>)
            (mapE (\<lambda>l. Line bases l grade unavailableToBuyMtcEmoIds) catalog)))"

section \<open>The buttons over the board (MtcShopBoard/EmoLineButtons.tsx)\<close>

definition EmoLineButtons :: "nat \<Rightarrow> bool \<Rightarrow> mtc_Emo option \<Rightarrow> button list list" where
  "EmoLineButtons boardEmoCount disabled mtcEmoForSet =
     (if disabled then []
      else case mtcEmoForSet of
        Some mtcEmo \<Rightarrow>
          map (\<lambda>index. [\<lparr>bn_label = ''Set'', bn_disabled = False,
              bn_action = SetOperation (Operation_set index mtcEmo)\<rparr>])
            (range (boardEmoCount + 1))
      | None \<Rightarrow>
          map (\<lambda>i.
            [\<lparr>bn_label = ''<'', bn_disabled = (i = 0), bn_action = SetOperation (Operation_move i False)\<rparr>,
             \<lparr>bn_label = ''Sell'', bn_disabled = False, bn_action = SetOperation (Operation_sell i)\<rparr>,
             \<lparr>bn_label = ''>'', bn_disabled = (i + 1 = boardEmoCount),
              bn_action = SetOperation (Operation_move i True)\<rparr>])
            (range boardEmoCount))"

section \<open>The rivals (Shop/index.tsx)\<close>

record Rival_row =
  rv_active :: bool
  rv_identicon :: string
  rv_address :: string
  rv_health :: nat
  rv_dead :: bool
  rv_grade :: string
  rv_next :: bool
  rv_onClick :: "action option"

definition RivalsToggle ::
  "mtc_Ghost list \<Rightarrow> string list \<Rightarrow> mtc_GhostState list \<Rightarrow> nat \<Rightarrow> nat \<Rightarrow> nat \<Rightarrow> Rival_row list js" where
  "RivalsToggle ghosts ghostAddresses ghostStates battleGhostIndex selectedGhostIndex turn =
     mapE (\<lambda>(i, ghost).
         bindE (orTypeError (js_at ghostStates i)) (\<lambda>state.
         bindE (getGradeAndGhostBoard (gh_history ghost) state turn) (\<lambda>gg.
         bindE (orTypeError (js_at ghostAddresses i)) (\<lambda>addr.
         mapR (\<lambda>gradeText.
             let health = getHealthFromState state in
             \<lparr>rv_active = (i = selectedGhostIndex), rv_identicon = addr,
              rv_address = getShortAddress addr, rv_health = health, rv_dead = (health = 0),
              rv_grade = gradeText, rv_next = (i = battleGhostIndex),
              rv_onClick = (if i = selectedGhostIndex then None else Some (SelectRival i))\<rparr>)
           (getGradeText (toStringU (gg_grade gg)))))))
       (List.enumerate 0 ghosts)"

definition RivalBoard :: "EmoBases \<Rightarrow> mtc_GhostBoard \<Rightarrow> Emo_props list js" where
  "RivalBoard bases ghostBoardEmos =
     mapE (\<lambda>emo.
         bindE (findEmoBase (be_base_id emo) bases) (\<lambda>base.
         mapR (\<lambda>emoji. \<lparr>pr_emoji = emoji, pr_typ = eb_typ base, pr_grade = toStringU (eb_grade base),
             pr_attributes = be_attributes emo, pr_isInactive = False\<rparr>)
           (getEmoBaseEmoji base)))
       ghostBoardEmos"

section \<open>The screen (Shop/index.tsx, MtcShopBoard/index.tsx)\<close>

text \<open>
  What does not change while the screen is up: the bases and the looks, the catalog, which the
  first render computes, and how a battle is started.
\<close>

record 'rng shop_env =
  en_json :: to_json
  en_emoNames :: names
  en_bases :: EmoBases
  en_fontSize :: string
  en_rand :: "'rng rand_crate"
  en_catalog :: mtc_shop_Catalog
  en_finish :: finish_kind

record screen =
  sc_mtcState :: MtcState
  sc_shopState :: State
  sc_selectedCatalogLineEmo :: "mtc_Emo option"
  sc_selectedRivalIndex :: nat
  sc_isBoardOperating :: bool
  sc_isRivalBoardCurrent :: bool
  sc_operation :: Operation
  sc_buttonsDisabled :: bool
  sc_element :: node

text \<open>
  An operation is set by a click, and the effect that follows the render starts it, before another
  event is handled; at the first render the operation is \<open>pre-shop\<close>.
\<close>

definition start_operation :: "Operation \<Rightarrow> screen \<Rightarrow> screen" where
  "start_operation op sc =
     (let sc = sc\<lparr>sc_operation := op, sc_isBoardOperating := True, sc_buttonsDisabled := True\<rparr> in
      case op of Operation_set _ _ \<Rightarrow> sc\<lparr>sc_selectedCatalogLineEmo := None\<rparr> | _ \<Rightarrow> sc)"

definition initial_shop_state :: "nat \<Rightarrow> State" where
  "initial_shop_state turn =
     \<lparr>st_currentCatalogLineIndex = 0, st_soldMtcEmoIds = [], st_playerOperations = [],
      st_coin = int (toNumber (get_initial_coin_by_turn (word_of_nat turn))),
      st_nextCatalogLineCounter = 0\<rparr>"

definition shop_init :: "MtcState \<Rightarrow> node \<Rightarrow> screen js" where
  "shop_init mtcState element =
     (if ms_seed mtcState = '''' then throwError ''seed null, invalid state''
      else Inr (start_operation Operation_pre_shop
        \<lparr>sc_mtcState = mtcState, sc_shopState = initial_shop_state (ms_turn mtcState),
         sc_selectedCatalogLineEmo = None, sc_selectedRivalIndex = ms_battleGhostIndex mtcState,
         sc_isBoardOperating = False, sc_isRivalBoardCurrent = True, sc_operation = Operation_none,
         sc_buttonsDisabled = False, sc_element = element\<rparr>))"

definition unavailable_ids :: "screen \<Rightarrow> string list" where
  "unavailable_ids sc =
     uniqueArray (concat (map id_texts (ms_board (sc_mtcState sc)))) @
     st_soldMtcEmoIds (sc_shopState sc)"

definition nextCatalogLineFn :: "'rng shop_env \<Rightarrow> screen \<Rightarrow> bool" where
  "nextCatalogLineFn env sc \<longleftrightarrow>
     (st_coin (sc_shopState sc) \<ge> int nextCatalogLineCoin \<or>
      isMulliganAvailable (ms_turn (sc_mtcState sc)) (st_nextCatalogLineCounter (sc_shopState sc))) \<and>
     isNextCatalogLineAvailable (length (en_catalog env)) (st_currentCatalogLineIndex (sc_shopState sc))"

record Shop_view =
  sv_nav :: Nav_view
  sv_catalog :: Catalog_view
  sv_board :: "button list list"
  sv_rivals :: "Rival_row list"
  sv_rivalBoardButtons :: "button list"
  sv_rivalBoard :: "Emo_props list"

definition rival_board :: "screen \<Rightarrow> nat \<Rightarrow> mtc_GhostBoard js" where
  "rival_board sc turn =
     (let s = sc_mtcState sc; i = sc_selectedRivalIndex sc in
      bindE (orTypeError (js_at (ms_ghosts s) i)) (\<lambda>ghost.
      bindE (orTypeError (js_at (ms_ghostStates s) i)) (\<lambda>state.
        mapR gg_board (getGradeAndGhostBoard (gh_history ghost) state turn))))"

definition Shop :: "'rng shop_env \<Rightarrow> screen \<Rightarrow> Shop_view js" where
  "Shop env sc =
     (let s = sc_mtcState sc; st = sc_shopState sc; bases = en_bases env; disabled = sc_isBoardOperating sc in
      bindE (rival_board sc (ms_turn s)) (\<lambda>currentGhostBoard.
      bindE (rival_board sc 255) (\<lambda>finalGhostBoard.
      bindE (Nav (ms_health s) (ms_grade s) (ms_upgradeCoin s) (nextCatalogLineFn env sc) (en_finish env)
               (st_coin st) (ms_turn s) (st_nextCatalogLineCounter st) disabled) (\<lambda>nav.
      bindE (Catalog bases (en_catalog env) (st_currentCatalogLineIndex st) (ms_grade s)
               (sc_selectedCatalogLineEmo sc) (length (ms_board s) \<ge> boardSize) (st_coin st)
               (unavailable_ids sc) disabled) (\<lambda>catalog.
      bindE (RivalsToggle (ms_ghosts s) (ms_ghostAddresses s) (ms_ghostStates s) (ms_battleGhostIndex s)
               (sc_selectedRivalIndex sc) (ms_turn s)) (\<lambda>rivals.
      mapR (\<lambda>rivalBoard. \<lparr>sv_nav = nav, sv_catalog = catalog,
          sv_board = EmoLineButtons (length (ms_board s)) (sc_buttonsDisabled sc)
            (sc_selectedCatalogLineEmo sc),
          sv_rivals = rivals,
          sv_rivalBoardButtons =
            [\<lparr>bn_label = ''Current'', bn_disabled = sc_isRivalBoardCurrent sc, bn_action = RivalBoardCurrent True\<rparr>,
             \<lparr>bn_label = ''Final'', bn_disabled = (\<not> sc_isRivalBoardCurrent sc),
              bn_action = RivalBoardCurrent False\<rparr>],
          sv_rivalBoard = rivalBoard\<rparr>)
        (RivalBoard bases (if sc_isRivalBoardCurrent sc then currentGhostBoard else finalGhostBoard))))))))"

text \<open>The actions a view offers: those of its buttons that are not disabled, and of the rows of the rivals.\<close>

definition view_buttons :: "Shop_view \<Rightarrow> button list" where
  "view_buttons v =
     nv_buttons (sv_nav v) @ cv_unselect (sv_catalog v) @ map fst (cv_currentLine (sv_catalog v)) @
     concat (sv_board v) @ sv_rivalBoardButtons v"

definition offered :: "Shop_view \<Rightarrow> action list" where
  "offered v =
     map bn_action (filter (\<lambda>b. \<not> bn_disabled b) (view_buttons v)) @
     List.map_filter rv_onClick (sv_rivals v)"

section \<open>Actions\<close>

definition next_catalog_line :: "screen \<Rightarrow> screen" where
  "next_catalog_line sc =
     (let st = sc_shopState sc;
          isM = isMulliganAvailable (ms_turn (sc_mtcState sc)) (st_nextCatalogLineCounter st)
      in sc\<lparr>sc_selectedCatalogLineEmo := None,
           sc_shopState := st\<lparr>
             st_coin := (if isM then st_coin st else st_coin st - int nextCatalogLineCoin),
             st_currentCatalogLineIndex := st_currentCatalogLineIndex st + 1,
             st_nextCatalogLineCounter := st_nextCatalogLineCounter st + 1,
             st_playerOperations := st_playerOperations st @ [PlayerOperation_NextCatalogLine]\<rparr>\<rparr>)"

text \<open>\<open>get_upgrade_coin(s.grade + 2) || null\<close>.\<close>

definition upgradeFn :: "screen \<Rightarrow> screen js" where
  "upgradeFn sc =
     (let s = sc_mtcState sc; st = sc_shopState sc in
      case ms_upgradeCoin s of
        None \<Rightarrow> throwError ''invalid state: upgradeCoin null''
      | Some upgradeCoin \<Rightarrow>
          Inr (sc\<lparr>
            sc_shopState := st\<lparr>
              st_playerOperations := st_playerOperations st @ [PlayerOperation_Upgrade],
              st_coin := st_coin st - upgradeCoin\<rparr>,
            sc_mtcState := s\<lparr>
              ms_grade := ms_grade s + 1,
              ms_upgradeCoin :=
                (case get_upgrade_coin (word_of_nat (ms_grade s + 2)) of
                   None \<Rightarrow> None
                 | Some c \<Rightarrow> if c = 0 then None else Some (int (toNumber c)))\<rparr>\<rparr>))"

definition perform :: "action \<Rightarrow> screen \<Rightarrow> screen js" where
  "perform a sc =
     (case a of
        NextCatalogLine \<Rightarrow> Inr (next_catalog_line sc)
      | Upgrade \<Rightarrow> upgradeFn sc
      | Battle solution \<Rightarrow> Inr sc
      | Select e \<Rightarrow> Inr (sc\<lparr>sc_selectedCatalogLineEmo := e\<rparr>)
      | SetOperation op \<Rightarrow> Inr (start_operation op sc)
      | SelectRival i \<Rightarrow> Inr (sc\<lparr>sc_selectedRivalIndex := i\<rparr>)
      | RivalBoardCurrent b \<Rightarrow> Inr (sc\<lparr>sc_isRivalBoardCurrent := b\<rparr>))"

text \<open>The end of an operation: \<open>then\<close> of \<open>operate\<close> and \<open>onFinishOperation\<close>.\<close>

definition finish_operation :: "operate_result \<Rightarrow> node \<Rightarrow> screen \<Rightarrow> screen js" where
  "finish_operation r element sc =
     mapR (\<lambda>(mtcState, shopState).
         sc\<lparr>sc_operation := Operation_none, sc_buttonsDisabled := False, sc_isBoardOperating := False,
            sc_mtcState := mtcState, sc_shopState := shopState, sc_element := element\<rparr>)
       (finishShopBoardOperation (or_operation r) (or_newBoardEmos r) (or_coinDiff r)
          (sc_mtcState sc) (sc_shopState sc))"

definition run_operation :: "'rng shop_env \<Rightarrow> u16 \<Rightarrow> screen \<Rightarrow> (operate_result \<times> node) js" where
  "run_operation env next_id sc =
     operate (en_json env) (en_emoNames env) (en_bases env) (en_fontSize env)
       (rust_shop (shuffle_ids (en_rand env)) (seed_from_u64 (en_rand env)) next_id)
       (sc_element sc) (ms_board (sc_mtcState sc)) (sc_operation sc) (ms_seed (sc_mtcState sc))"

text \<open>The module's counter of ids may have any value when a call starts.\<close>

inductive shop_step :: "'rng shop_env \<Rightarrow> screen \<Rightarrow> screen \<Rightarrow> bool" for env where
  click: "Shop env sc = Inr v \<Longrightarrow> a \<in> set (offered v) \<Longrightarrow> perform a sc = Inr sc' \<Longrightarrow> shop_step env sc sc'"
| finish: "sc_isBoardOperating sc \<Longrightarrow> run_operation env next_id sc = Inr (r, element) \<Longrightarrow>
    finish_operation r element sc = Inr sc' \<Longrightarrow> shop_step env sc sc'"

end
