(* ===== verification/ShopScreenFacts.thy ===== *)
theory ShopScreenFacts
  imports ShopScreen
begin

text \<open>
  Facts about the screen of the shop: what its buttons offer, the invariant of its states, and that
  the operations it records lead to the board, the coins and the grade it shows.
\<close>

section \<open>What is offered\<close>

text \<open>An emoji that may be bought: in the current line, neither on the board nor sold, of a grade reached.\<close>

definition buyable :: "'rng shop_env \<Rightarrow> screen \<Rightarrow> mtc_Emo \<Rightarrow> bool" where
  "buyable env sc e \<longleftrightarrow>
     e \<in> set (en_catalog env ! st_currentCatalogLineIndex (sc_shopState sc)) \<and>
     toStringU (me_id e) \<notin> set (unavailable_ids sc) \<and>
     (\<exists>base. findEmoBase (me_base_id e) (en_bases env) = Inr base \<and>
        toNumber (eb_grade base) \<le> ms_grade (sc_mtcState sc))"

fun operation_fits :: "'rng shop_env \<Rightarrow> screen \<Rightarrow> Operation \<Rightarrow> bool" where
  "operation_fits env sc (Operation_set i e) \<longleftrightarrow> i \<le> length (ms_board (sc_mtcState sc))"
| "operation_fits env sc (Operation_sell i) \<longleftrightarrow> i < length (ms_board (sc_mtcState sc))"
| "operation_fits env sc (Operation_move i True) \<longleftrightarrow> Suc i < length (ms_board (sc_mtcState sc))"
| "operation_fits env sc (Operation_move i False) \<longleftrightarrow> 0 < i \<and> i < length (ms_board (sc_mtcState sc))"
| "operation_fits env sc Operation_pre_shop \<longleftrightarrow> False"
| "operation_fits env sc Operation_none \<longleftrightarrow> False"

fun allowed :: "'rng shop_env \<Rightarrow> screen \<Rightarrow> action \<Rightarrow> bool" where
  "allowed env sc NextCatalogLine \<longleftrightarrow> \<not> sc_isBoardOperating sc \<and> nextCatalogLineFn env sc"
| "allowed env sc Upgrade \<longleftrightarrow> \<not> sc_isBoardOperating sc \<and>
     (\<exists>c. ms_upgradeCoin (sc_mtcState sc) = Some c \<and> c \<le> st_coin (sc_shopState sc))"
| "allowed env sc (Battle s) \<longleftrightarrow> \<not> sc_isBoardOperating sc \<and>
     (case en_finish env of Pow solution \<Rightarrow> solution \<noteq> None \<and> s = solution | NoPow \<Rightarrow> s = None)"
| "allowed env sc (Select None) \<longleftrightarrow> sc_selectedCatalogLineEmo sc \<noteq> None"
| "allowed env sc (Select (Some e)) \<longleftrightarrow> \<not> sc_isBoardOperating sc \<and>
     length (ms_board (sc_mtcState sc)) < boardSize \<and> int emoBuyCoin \<le> st_coin (sc_shopState sc) \<and>
     buyable env sc e"
| "allowed env sc (SetOperation op) \<longleftrightarrow> \<not> sc_buttonsDisabled sc \<and> operation_fits env sc op \<and>
     sc_selectedCatalogLineEmo sc = (case op of Operation_set i e \<Rightarrow> Some e | _ \<Rightarrow> None)"
| "allowed env sc (SelectRival i) \<longleftrightarrow>
     i < length (ms_ghosts (sc_mtcState sc)) \<and> i \<noteq> sc_selectedRivalIndex sc"
| "allowed env sc (RivalBoardCurrent b) \<longleftrightarrow> sc_isRivalBoardCurrent sc \<noteq> b"

text \<open>The actions of the buttons of a list that are not disabled.\<close>

definition enabled :: "button list \<Rightarrow> action list" where
  "enabled bs = map bn_action (filter (\<lambda>b. \<not> bn_disabled b) bs)"

lemma enabled_simps [simp]:
  "enabled [] = []" "enabled (bs @ cs) = enabled bs @ enabled cs"
  "a \<in> set (enabled (b # bs)) \<longleftrightarrow> \<not> bn_disabled b \<and> a = bn_action b \<or> a \<in> set (enabled bs)"
  by (auto simp: enabled_def)

lemma enabled_map: "a \<in> set (enabled (map f xs)) \<longleftrightarrow> (\<exists>x\<in>set xs. \<not> bn_disabled (f x) \<and> a = bn_action (f x))"
  by (auto simp: enabled_def)

lemma in_enabled_concat: "a \<in> set (enabled (concat bss)) \<longleftrightarrow> (\<exists>bs\<in>set bss. a \<in> set (enabled bs))"
  by (induction bss) auto

lemma Nav_offers:
  assumes "Nav health grade (ms_upgradeCoin (sc_mtcState sc)) (nextCatalogLineFn env sc) (en_finish env)
      (st_coin (sc_shopState sc)) turn counter (sc_isBoardOperating sc) = Inr v"
  shows "a \<in> set (enabled (nv_buttons v)) \<longleftrightarrow>
    (a = NextCatalogLine \<or> a = Upgrade \<or> (\<exists>s. a = Battle s)) \<and> allowed env sc a"
  using assms
  by (cases "ms_upgradeCoin (sc_mtcState sc)")
    (auto simp: Nav_def mapR_eq_Inr_iff PowButton_def split: finish_kind.splits option.splits)

lemma CurrentLine_offers:
  assumes "CurrentLine bases l grade p unav dis = Inr rows"
  shows "a \<in> set (enabled (map fst rows)) \<longleftrightarrow>
    (\<exists>e base. a = Select (Some e) \<and> e \<in> set l \<and> findEmoBase (me_base_id e) bases = Inr base \<and>
       toNumber (eb_grade base) \<le> grade \<and> \<not> dis \<and> p \<and> toStringU (me_id e) \<notin> set unav)"
proof -
  let ?buy = "\<lambda>mtcEmo base. \<lparr>bn_label = ''Buy '' @ getCoinText (int emoBuyCoin),
    bn_disabled = (\<not> (\<not> dis \<and> p \<and> \<not> is_unavailable unav mtcEmo \<and> grade \<ge> toNumber (eb_grade base))),
    bn_action = Select (Some mtcEmo)\<rparr>"
  from assms obtain emos where emos: "mapE (with_grade bases) l = Inr emos"
    and rows: "mapE (\<lambda>(mtcEmo, base). mapR (Pair (?buy mtcEmo base))
        (EmoBase base False (is_unavailable unav mtcEmo \<or> grade < toNumber (eb_grade base))))
      (sort_key (\<lambda>(_, base). toNumber (eb_grade base)) emos) = Inr rows"
    by (auto simp: CurrentLine_def bindE_eq_Inr_iff Let_def)
  have pairs: "(e, base) \<in> set emos \<longleftrightarrow> e \<in> set l \<and> findEmoBase (me_base_id e) bases = Inr base" for e base
    using emos unfolding mapE_eq_Inr_iff
    by (induction rule: list_all2_induct) (auto simp: with_grade_def mapR_eq_Inr_iff)
  have "map fst rows = map (\<lambda>(e, base). ?buy e base) (sort_key (\<lambda>(_, base). toNumber (eb_grade base)) emos)"
    using rows unfolding mapE_eq_Inr_iff by (induction rule: list_all2_induct) (auto simp: mapR_eq_Inr_iff)
  then have "a \<in> set (enabled (map fst rows)) \<longleftrightarrow>
      (\<exists>e base. (e, base) \<in> set emos \<and> \<not> bn_disabled (?buy e base) \<and> a = Select (Some e))"
    by (simp only: enabled_map set_sort) (auto simp: Bex_def)
  then show ?thesis
    by (auto simp: pairs is_unavailable_def)
qed

lemma Catalog_offers:
  assumes "Catalog (en_bases env) (en_catalog env) (st_currentCatalogLineIndex (sc_shopState sc))
      (ms_grade (sc_mtcState sc)) (sc_selectedCatalogLineEmo sc)
      (length (ms_board (sc_mtcState sc)) \<ge> boardSize) (st_coin (sc_shopState sc))
      (unavailable_ids sc) (sc_isBoardOperating sc) = Inr v"
  shows "a \<in> set (enabled (cv_unselect v @ map fst (cv_currentLine v))) \<longleftrightarrow>
    (\<exists>e. a = Select e) \<and> allowed env sc a"
proof -
  from assms obtain l ls rows where
    d: "drop (st_currentCatalogLineIndex (sc_shopState sc)) (en_catalog env) = l # ls"
    and rows: "CurrentLine (en_bases env) l (ms_grade (sc_mtcState sc))
        (\<not> length (ms_board (sc_mtcState sc)) \<ge> boardSize \<and> st_coin (sc_shopState sc) \<ge> int emoBuyCoin)
        (unavailable_ids sc) (sc_isBoardOperating sc) = Inr rows"
    and v: "cv_currentLine v = rows" "cv_unselect v = (case sc_selectedCatalogLineEmo sc of
        None \<Rightarrow> [] | Some _ \<Rightarrow> [\<lparr>bn_label = ''Unselect'', bn_disabled = False, bn_action = Select None\<rparr>])"
    by (auto simp: Catalog_def bindE_eq_Inr_iff mapR_eq_Inr_iff split: list.splits)
  from d have l: "l = en_catalog env ! st_currentCatalogLineIndex (sc_shopState sc)"
    by (metis drop_eq_Nil2 hd_drop_conv_nth linorder_not_less list.distinct(1) list.sel(1))
  have "a \<in> set (enabled (cv_unselect v)) \<longleftrightarrow> a = Select None \<and> sc_selectedCatalogLineEmo sc \<noteq> None"
    by (cases "sc_selectedCatalogLineEmo sc") (auto simp: v(2))
  moreover have "a \<in> set (enabled (map fst rows)) \<longleftrightarrow> (\<exists>e. a = Select (Some e) \<and> allowed env sc a)"
    unfolding CurrentLine_offers [OF rows] by (auto simp: buyable_def l)
  ultimately show ?thesis
    unfolding v(1) enabled_simps(2) set_append Un_iff by (metis allowed.simps(4) option.exhaust)
qed

lemma EmoLineButtons_offers:
  "a \<in> set (enabled (concat (EmoLineButtons (length (ms_board (sc_mtcState sc))) (sc_buttonsDisabled sc)
      (sc_selectedCatalogLineEmo sc)))) \<longleftrightarrow> (\<exists>op. a = SetOperation op) \<and> allowed env sc a"
proof (cases "sc_buttonsDisabled sc")
  case True
  then show ?thesis by (auto simp: EmoLineButtons_def)
next
  case False
  let ?n = "length (ms_board (sc_mtcState sc))"
  show ?thesis
  proof (cases "sc_selectedCatalogLineEmo sc")
    case (Some e)
    have "a \<in> set (enabled (concat (EmoLineButtons ?n False (Some e)))) \<longleftrightarrow>
        (\<exists>i\<le>?n. a = SetOperation (Operation_set i e))"
      unfolding in_enabled_concat EmoLineButtons_def range_def by auto
    with False Some show ?thesis
      by (auto split: Operation.splits)
  next
    case None
    have "a \<in> set (enabled (concat (EmoLineButtons ?n False None))) \<longleftrightarrow>
        (\<exists>i<?n. a = SetOperation (Operation_sell i) \<or> 0 < i \<and> a = SetOperation (Operation_move i False) \<or>
           Suc i \<noteq> ?n \<and> a = SetOperation (Operation_move i True))"
      unfolding in_enabled_concat EmoLineButtons_def range_def by (auto split: if_splits)
    moreover have "(\<exists>op. a = SetOperation op) \<and> allowed env sc a \<longleftrightarrow>
        (\<exists>i<?n. a = SetOperation (Operation_sell i) \<or> 0 < i \<and> a = SetOperation (Operation_move i False) \<or>
           Suc i \<noteq> ?n \<and> a = SetOperation (Operation_move i True))"
    proof (cases a)
      case (SetOperation op)
      with False None show ?thesis
        by (cases "(env, sc, op)" rule: operation_fits.cases) auto
    qed auto
    ultimately show ?thesis
      using False None by simp
  qed
qed

lemma RivalsToggle_offers:
  assumes "RivalsToggle ghosts addrs states battle selected turn = Inr rows"
  shows "a \<in> set (List.map_filter rv_onClick rows) \<longleftrightarrow> (\<exists>i<length ghosts. a = SelectRival i \<and> i \<noteq> selected)"
proof -
  have "map rv_onClick rows =
      map (\<lambda>(i, ghost). if i = selected then None else Some (SelectRival i)) (List.enumerate 0 ghosts)"
    using assms unfolding RivalsToggle_def mapE_eq_Inr_iff
    by (induction rule: list_all2_induct) (auto simp: bindE_eq_Inr_iff mapR_eq_Inr_iff Let_def)
  moreover have "a \<in> set (List.map_filter rv_onClick rows) \<longleftrightarrow> Some a \<in> set (map rv_onClick rows)"
    by (induction rows) (auto simp: List.map_filter_simps split: option.splits)
  ultimately show ?thesis
    by (auto simp: in_set_enumerate_eq image_iff Bex_def)
qed

text \<open>The rendered screen offers exactly what is allowed.\<close>

lemma offered_iff:
  assumes "Shop env sc = Inr v"
  shows "a \<in> set (offered v) \<longleftrightarrow> allowed env sc a"
proof -
  from assms obtain nav catalog rivals where
    nav: "Nav (ms_health (sc_mtcState sc)) (ms_grade (sc_mtcState sc)) (ms_upgradeCoin (sc_mtcState sc))
      (nextCatalogLineFn env sc) (en_finish env) (st_coin (sc_shopState sc)) (ms_turn (sc_mtcState sc))
      (st_nextCatalogLineCounter (sc_shopState sc)) (sc_isBoardOperating sc) = Inr nav"
    and catalog: "Catalog (en_bases env) (en_catalog env) (st_currentCatalogLineIndex (sc_shopState sc))
      (ms_grade (sc_mtcState sc)) (sc_selectedCatalogLineEmo sc)
      (length (ms_board (sc_mtcState sc)) \<ge> boardSize) (st_coin (sc_shopState sc))
      (unavailable_ids sc) (sc_isBoardOperating sc) = Inr catalog"
    and rivals: "RivalsToggle (ms_ghosts (sc_mtcState sc)) (ms_ghostAddresses (sc_mtcState sc))
      (ms_ghostStates (sc_mtcState sc)) (ms_battleGhostIndex (sc_mtcState sc)) (sc_selectedRivalIndex sc)
      (ms_turn (sc_mtcState sc)) = Inr rivals"
    and v: "sv_nav v = nav" "sv_catalog v = catalog" "sv_rivals v = rivals"
      "sv_board v = EmoLineButtons (length (ms_board (sc_mtcState sc))) (sc_buttonsDisabled sc)
        (sc_selectedCatalogLineEmo sc)"
      "sv_rivalBoardButtons v =
        [\<lparr>bn_label = ''Current'', bn_disabled = sc_isRivalBoardCurrent sc, bn_action = RivalBoardCurrent True\<rparr>,
         \<lparr>bn_label = ''Final'', bn_disabled = (\<not> sc_isRivalBoardCurrent sc), bn_action = RivalBoardCurrent False\<rparr>]"
    by (auto simp: Shop_def Let_def bindE_eq_Inr_iff mapR_eq_Inr_iff)
  have "set (offered v) = set (enabled (nv_buttons nav)) \<union>
      set (enabled (cv_unselect catalog @ map fst (cv_currentLine catalog))) \<union>
      set (enabled (concat (sv_board v))) \<union> set (enabled (sv_rivalBoardButtons v)) \<union>
      set (List.map_filter rv_onClick rivals)"
    unfolding offered_def view_buttons_def enabled_def [symmetric] v(1-3) by auto
  moreover have "a \<in> set (enabled (sv_rivalBoardButtons v)) \<longleftrightarrow>
      (\<exists>b. a = RivalBoardCurrent b) \<and> allowed env sc a"
    unfolding v(5) by auto
  moreover have "a \<in> set (List.map_filter rv_onClick rivals) \<longleftrightarrow> (\<exists>i. a = SelectRival i) \<and> allowed env sc a"
    unfolding RivalsToggle_offers [OF rivals] by auto
  ultimately show ?thesis
    using Nav_offers [OF nav] Catalog_offers [OF catalog] EmoLineButtons_offers [of a sc env]
    unfolding v(4) by (cases a) auto
qed

lemma offered_allowed: "Shop env sc = Inr v \<Longrightarrow> a \<in> set (offered v) \<Longrightarrow> allowed env sc a"
  by (simp add: offered_iff)

section \<open>The invariant of the screen\<close>

definition operation_ok :: "'rng shop_env \<Rightarrow> screen \<Rightarrow> bool" where
  "operation_ok env sc \<longleftrightarrow>
     (case sc_operation sc of
        Operation_none \<Rightarrow> \<not> sc_isBoardOperating sc
      | Operation_pre_shop \<Rightarrow> sc_isBoardOperating sc
      | Operation_set i e \<Rightarrow> sc_isBoardOperating sc \<and> i \<le> length (ms_board (sc_mtcState sc)) \<and>
          length (ms_board (sc_mtcState sc)) < boardSize \<and> buyable env sc e
      | op \<Rightarrow> sc_isBoardOperating sc \<and> operation_fits env sc op)"

definition selection_ok :: "'rng shop_env \<Rightarrow> screen \<Rightarrow> bool" where
  "selection_ok env sc \<longleftrightarrow>
     (case sc_selectedCatalogLineEmo sc of
        None \<Rightarrow> True
      | Some e \<Rightarrow> \<not> sc_isBoardOperating sc \<and> buyable env sc e \<and>
          length (ms_board (sc_mtcState sc)) < boardSize)"

definition board_shown :: "'rng shop_env \<Rightarrow> screen \<Rightarrow> bool" where
  "board_shown env sc \<longleftrightarrow>
     (if sc_operation sc = Operation_pre_shop then shows_board (sc_element sc) []
      else draws (en_json env) (en_emoNames env) (en_bases env) (sc_element sc) (ms_board (sc_mtcState sc)))"

definition line_ok :: "'rng shop_env \<Rightarrow> screen \<Rightarrow> bool" where
  "line_ok env sc \<longleftrightarrow>
     st_currentCatalogLineIndex (sc_shopState sc) < length (en_catalog env) \<and>
     st_nextCatalogLineCounter (sc_shopState sc) = st_currentCatalogLineIndex (sc_shopState sc)"

definition screen_inv :: "'rng shop_env \<Rightarrow> screen \<Rightarrow> bool" where
  "screen_inv env sc \<longleftrightarrow>
     length (ms_board (sc_mtcState sc)) \<le> boardSize \<and> board_shown env sc \<and> line_ok env sc \<and>
     sc_buttonsDisabled sc = sc_isBoardOperating sc \<and> operation_ok env sc \<and> selection_ok env sc"

lemmas screen_parts = screen_inv_def operation_ok_def selection_ok_def board_shown_def line_ok_def

inductive_cases shop_stepE: "shop_step env sc sc'"

lemma finishShop_frame:
  assumes "finishShopBoardOperation op b d s st = Inr (s', st')"
  shows "s' = s\<lparr>ms_board := b\<rparr>" "st_coin st' = st_coin st + d"
    "st_currentCatalogLineIndex st' = st_currentCatalogLineIndex st"
    "st_nextCatalogLineCounter st' = st_nextCatalogLineCounter st"
  using assms
  by (cases "last_move (ms_board s) (st_playerOperations st)";
      auto simp: finishShopBoardOperation_def Let_def mapR_eq_Inr_iff bindE_eq_Inr_iff
      split: Operation.splits)+

lemma idle: "screen_inv env sc \<Longrightarrow> sc_isBoardOperating sc \<longleftrightarrow> sc_operation sc \<noteq> Operation_none"
  by (auto simp: screen_inv_def operation_ok_def split: Operation.splits)

lemma operate_operation:
  "operate json names bases fs w element board op seed = Inr (r, element') \<Longrightarrow> or_operation r = op"
  by (auto simp: operate_def bindE_eq_Inr_iff mapR_eq_Inr_iff split: Operation.splits)

lemma init_inv:
  assumes "shop_init s element = Inr sc" "shows_board element []" "length (ms_board s) \<le> boardSize"
    and "en_catalog env \<noteq> []"
  shows "screen_inv env sc"
  using assms
  by (auto simp: shop_init_def start_operation_def initial_shop_state_def screen_parts split: if_splits)

lemma buyable_cong:
  "sc_shopState sc' = sc_shopState sc \<Longrightarrow> sc_mtcState sc' = sc_mtcState sc \<Longrightarrow> buyable env sc' = buyable env sc"
  by (simp add: buyable_def unavailable_ids_def fun_eq_iff)

lemma buyable_upgrade:
  assumes "upgradeFn sc = Inr sc'" "buyable env sc e"
  shows "buyable env sc' e"
  using assms by (auto simp: upgradeFn_def buyable_def unavailable_ids_def Let_def split: option.splits)

lemma operation_ok_cong:
  assumes "sc_shopState sc' = sc_shopState sc" "sc_mtcState sc' = sc_mtcState sc"
    and "sc_operation sc' = sc_operation sc" "sc_isBoardOperating sc' = sc_isBoardOperating sc"
  shows "operation_ok env sc' = operation_ok env sc"
proof -
  have "operation_fits env sc' op = operation_fits env sc op" for op
    using assms(2) by (cases "(env, sc, op)" rule: operation_fits.cases) simp_all
  then show ?thesis
    using assms buyable_cong [OF assms(1,2), of env]
    by (cases "sc_operation sc") (simp_all add: operation_ok_def)
qed

lemma click_inv:
  assumes inv: "screen_inv env sc" and a: "allowed env sc a" and p: "perform a sc = Inr sc'"
  shows "screen_inv env sc'"
proof (cases a)
  case NextCatalogLine
  moreover have "sc_operation sc = Operation_none" "\<not> sc_isBoardOperating sc"
    using idle [OF inv] a NextCatalogLine by auto
  ultimately show ?thesis
    using inv a p
    by (auto simp: screen_parts perform_def next_catalog_line_def Let_def nextCatalogLineFn_def
        isNextCatalogLineAvailable_def)
next
  case Upgrade
  then have u: "upgradeFn sc = Inr sc'"
    using p by (simp add: perform_def)
  moreover have "sc_operation sc = Operation_none" "\<not> sc_isBoardOperating sc"
    using idle [OF inv] a Upgrade by auto
  moreover have "sc_operation sc' = sc_operation sc" "sc_isBoardOperating sc' = sc_isBoardOperating sc"
    "sc_buttonsDisabled sc' = sc_buttonsDisabled sc" "sc_element sc' = sc_element sc"
    "sc_selectedCatalogLineEmo sc' = sc_selectedCatalogLineEmo sc"
    "ms_board (sc_mtcState sc') = ms_board (sc_mtcState sc)"
    "st_currentCatalogLineIndex (sc_shopState sc') = st_currentCatalogLineIndex (sc_shopState sc)"
    "st_nextCatalogLineCounter (sc_shopState sc') = st_nextCatalogLineCounter (sc_shopState sc)"
    using u by (auto simp: upgradeFn_def Let_def split: option.splits)
  ultimately show ?thesis
    using inv buyable_upgrade [OF u]
    by (auto simp: screen_inv_def operation_ok_def selection_ok_def board_shown_def line_ok_def
        split: option.splits)
next
  case (Select e)
  then show ?thesis
    using inv a p operation_ok_cong [of sc' sc env] buyable_cong [of sc' sc env]
    by (cases e) (auto simp: screen_inv_def selection_ok_def board_shown_def line_ok_def perform_def)
next
  case (SetOperation op)
  then have sc': "sc' = start_operation op sc"
    using p by (simp add: perform_def)
  have off: "sc_operation sc = Operation_none" "\<not> sc_isBoardOperating sc"
    and fits: "operation_fits env sc op"
    and sel: "sc_selectedCatalogLineEmo sc = (case op of Operation_set i e \<Rightarrow> Some e | _ \<Rightarrow> None)"
    using idle [OF inv] a SetOperation inv by (auto simp: screen_inv_def)
  have "operation_fits env sc' op = operation_fits env sc op"
    by (cases "(env, sc, op)" rule: operation_fits.cases) (simp_all add: sc' start_operation_def)
  moreover have parts: "sc_operation sc' = op" "sc_isBoardOperating sc'" "sc_buttonsDisabled sc'"
    "sc_element sc' = sc_element sc" "sc_mtcState sc' = sc_mtcState sc" "sc_shopState sc' = sc_shopState sc"
    "sc_selectedCatalogLineEmo sc' =
      (case op of Operation_set i e \<Rightarrow> None | _ \<Rightarrow> sc_selectedCatalogLineEmo sc)"
    by (cases op; simp add: sc' start_operation_def)+
  moreover have "buyable env sc' = buyable env sc"
    by (rule buyable_cong) (simp_all add: parts)
  ultimately show ?thesis
    using inv off fits sel
    unfolding screen_inv_def selection_ok_def board_shown_def line_ok_def operation_ok_def
    by (cases op) simp_all
qed (use inv p operation_ok_cong [of sc' sc env] buyable_cong [of sc' sc env] in
    \<open>auto simp: screen_inv_def selection_ok_def board_shown_def line_ok_def perform_def split: option.splits\<close>)

lemma finish_inv:
  assumes inv: "screen_inv env sc" and op: "sc_isBoardOperating sc"
    and r: "run_operation env g sc = Inr (r, element)" and f: "finish_operation r element sc = Inr sc'"
  shows "screen_inv env sc'"
proof -
  have sel: "sc_selectedCatalogLineEmo sc = None"
    using inv op by (auto simp: screen_parts split: option.splits)
  have "draws (en_json env) (en_emoNames env) (en_bases env) element (or_newBoardEmos r) \<and>
      length (or_newBoardEmos r) \<le> boardSize"
    using inv r unfolding run_operation_def
    by (intro rust.operate_draws) (auto simp: screen_inv_def board_shown_def split: if_splits)
  moreover from f obtain s st where
    fin: "finishShopBoardOperation (or_operation r) (or_newBoardEmos r) (or_coinDiff r) (sc_mtcState sc)
      (sc_shopState sc) = Inr (s, st)"
    and sc': "sc' = sc\<lparr>sc_operation := Operation_none, sc_buttonsDisabled := False,
      sc_isBoardOperating := False, sc_mtcState := s, sc_shopState := st, sc_element := element\<rparr>"
    by (auto simp: finish_operation_def mapR_eq_Inr_iff)
  ultimately show ?thesis
    using inv sel finishShop_frame [OF fin] by (simp add: sc' screen_parts)
qed

lemma step_inv: "shop_step env sc sc' \<Longrightarrow> screen_inv env sc \<Longrightarrow> screen_inv env sc'"
  by (erule shop_stepE) (blast intro: click_inv finish_inv offered_allowed)+

lemma reachable_inv: "(shop_step env)\<^sup>*\<^sup>* sc sc' \<Longrightarrow> screen_inv env sc \<Longrightarrow> screen_inv env sc'"
  by (induction rule: rtranclp_induct) (auto intro: step_inv)

section \<open>What the recorded operations mean\<close>

text \<open>
  The player's account of a shop phase, and what an operation does to it: the guards are those of the
  chain (\<open>common/rs/src/mtc/shop/player_operation.rs\<close>) but for the coins, which may run below zero here.
\<close>

record account =
  ac_board :: mtc_Board
  ac_coin :: int
  ac_line :: nat
  ac_sold :: "string list"
  ac_grade :: nat
  ac_upgradeCoin :: "int option"

definition account_of :: "screen \<Rightarrow> account" where
  "account_of sc =
     \<lparr>ac_board = ms_board (sc_mtcState sc), ac_coin = st_coin (sc_shopState sc),
      ac_line = st_currentCatalogLineIndex (sc_shopState sc),
      ac_sold = st_soldMtcEmoIds (sc_shopState sc), ac_grade = ms_grade (sc_mtcState sc),
      ac_upgradeCoin = ms_upgradeCoin (sc_mtcState sc)\<rparr>"

definition rearrangement :: "nat \<Rightarrow> u8 list \<Rightarrow> bool" where
  "rearrangement n is \<longleftrightarrow> mset (map toNumber is) = mset [0..<n]"

inductive play_op ::
  "'rng shop_env \<Rightarrow> nat \<Rightarrow> account \<Rightarrow> mtc_shop_PlayerOperation \<Rightarrow> account \<Rightarrow> bool" for env turn where
  play_buy:
    "ac_line p < length (en_catalog env) \<Longrightarrow>
     find (\<lambda>e. me_id e = i) (en_catalog env ! ac_line p) = Some e \<Longrightarrow>
     toStringU i \<notin> set (ac_sold p) \<Longrightarrow> i \<notin> set (concat (map be_mtc_emo_ids (ac_board p))) \<Longrightarrow>
     findEmoBase (me_base_id e) (en_bases env) = Inr base \<Longrightarrow> toNumber (eb_grade base) \<le> ac_grade p \<Longrightarrow>
     addEmo g (ac_board p) [i] (me_base_id e) False (toNumber index) (en_bases env) = Inr (board, c, logs) \<Longrightarrow>
     play_op env turn p (PlayerOperation_Buy (mtc_shop_PlayerOperation_Buy i index))
       (p\<lparr>ac_board := board, ac_coin := ac_coin p - int emoBuyCoin + int c\<rparr>)"
| play_sell:
    "js_at (ac_board p) (toNumber index) = Some e \<Longrightarrow>
     sellEmo g (ac_board p) (toNumber index) (en_bases env) = Inr (board, c, logs) \<Longrightarrow>
     play_op env turn p (PlayerOperation_Sell (mtc_shop_PlayerOperation_Sell index))
       (p\<lparr>ac_board := board, ac_coin := ac_coin p + int c, ac_sold := ac_sold p @ id_texts e\<rparr>)"
| play_move:
    "rearrangement (length (ac_board p)) is \<Longrightarrow>
     play_op env turn p (PlayerOperation_Move (mtc_shop_PlayerOperation_Move is))
       (p\<lparr>ac_board := map (\<lambda>i. ac_board p ! toNumber i) is\<rparr>)"
| play_next:
    "play_op env turn p PlayerOperation_NextCatalogLine
       (p\<lparr>ac_line := ac_line p + 1,
          ac_coin := ac_coin p - (if turn = 1 \<and> ac_line p < mulliganCount then 0 else int nextCatalogLineCoin)\<rparr>)"
| play_upgrade:
    "ac_upgradeCoin p = Some c \<Longrightarrow>
     play_op env turn p PlayerOperation_Upgrade
       (p\<lparr>ac_coin := ac_coin p - c, ac_grade := ac_grade p + 1,
          ac_upgradeCoin := map_option (\<lambda>c. int (toNumber c)) (get_upgrade_coin (word_of_nat (ac_grade p + 2)))\<rparr>)"

text \<open>
  A run of operations, each of which keeps to a bound on the coins before and after it; \<open>plays\<close> is the
  run without a bound.
\<close>

inductive plays_within ::
  "(int \<Rightarrow> mtc_shop_PlayerOperation \<Rightarrow> int \<Rightarrow> bool) \<Rightarrow> 'rng shop_env \<Rightarrow> nat \<Rightarrow> account \<Rightarrow>
   mtc_shop_PlayerOperation list \<Rightarrow> account \<Rightarrow> bool" for allows env turn where
  plays_none: "plays_within allows env turn p [] p"
| plays_snoc: "plays_within allows env turn p ops q \<Longrightarrow> play_op env turn q op r \<Longrightarrow>
    allows (ac_coin q) op (ac_coin r) \<Longrightarrow> plays_within allows env turn p (ops @ [op]) r"

abbreviation unbounded :: "int \<Rightarrow> mtc_shop_PlayerOperation \<Rightarrow> int \<Rightarrow> bool" where
  "unbounded \<equiv> \<lambda>_ _ _. True"

abbreviation plays ::
  "'rng shop_env \<Rightarrow> nat \<Rightarrow> account \<Rightarrow> mtc_shop_PlayerOperation list \<Rightarrow> account \<Rightarrow> bool" where
  "plays \<equiv> plays_within unbounded"

inductive_cases play_op_moveE: "play_op env turn p (PlayerOperation_Move (mtc_shop_PlayerOperation_Move is)) q"

lemma plays_last:
  assumes "plays_within allows env turn p ops r" "ops \<noteq> []"
  obtains q where "plays_within allows env turn p (butlast ops) q" "play_op env turn q (last ops) r"
    "allows (ac_coin q) (last ops) (ac_coin r)"
  using assms by (cases rule: plays_within.cases) auto

lemma moveEmo_swaps:
  assumes "moveEmo g board i r = Inr (board', c, logs)" "length board \<le> 7" "i < length board"
  shows "board' = swap_at i (if r then i + 1 else i - 1) board" "c = 0"
proof -
  let ?s = "taken_in board g" and ?i = "word_of_nat i :: u8"
  let ?j = "if r then ?i + 1 else ?i - 1"
  have len: "length (sh_board ?s) = length board"
    by (rule taken_in(2))
  have b: "map into_board_emo (sh_board ?s) = board"
    using from_board_into [of board "\<lparr>sh_board = [], sh_logs = [], sh_next_id = g\<rparr>"]
    by (simp add: taken_in_def)
  have i: "toNumber ?i = i"
    using assms(2,3) by (simp add: unat_small)
  from assms(1) have "move_emo ?i r ?s = Inr (0, ?s\<lparr>sh_board := swap_at i (toNumber ?j) (sh_board ?s),
      sh_logs := sh_logs ?s @ [BoardLog_Move (mtc_shop_BoardLog_Move ?i ?j)]\<rparr>) \<and> c = 0 \<and>
      board' = map into_board_emo (swap_at i (toNumber ?j) (sh_board ?s)) \<and> toNumber ?j < length board \<and>
      \<not> (?i = 0 \<and> \<not> r)"
    by (auto simp: moveEmo_def decode_and_encode_for_shop_def move_emo_def swap_emos_def Let_def i len
        add_log_def split: sum.splits js_error.splits if_splits)
  then have j: "toNumber ?j < length board" "\<not> (?i = 0 \<and> \<not> r)" and c: "c = 0"
    and board': "board' = swap_at i (toNumber ?j) (map into_board_emo (sh_board ?s))"
    using len assms(3) by (auto simp: map_swap_at)
  have "toNumber ?j = (if r then i + 1 else i - 1)"
  proof (cases r)
    case True
    then show ?thesis
      using assms(2,3) i by (simp add: unat_plus_if')
  next
    case False
    with j(2) i have "1 \<le> toNumber ?i"
      by (metis One_nat_def Suc_leI unat_gt_0)
    with False i show ?thesis
      by (simp add: unat_sub word_le_nat_alt)
  qed
  with board' c show "board' = swap_at i (if r then i + 1 else i - 1) board" "c = 0"
    by (simp_all only: b)
qed

section \<open>The recorded operations lead to what is shown\<close>

lemma createMove_texts: "createMove (map Some (map toStringU is)) = Inr (PlayerOperation_Move (mtc_shop_PlayerOperation_Move is))"
proof -
  have "mapE (\<lambda>i. case i of None \<Rightarrow> Inl JsTypeError
      | Some t \<Rightarrow> (case parseInt10 t of None \<Rightarrow> Inl JsTypeError | Some n \<Rightarrow> Inr (word_of_nat n)))
      (map Some (map toStringU is)) = Inr is"
    by (induction "is") (simp_all add: toStringU_def)
  then show ?thesis
    by (simp add: createMove_def)
qed

lemma rearrangement_swap:
  assumes "rearrangement n is" "i < length is" "j < length is"
  shows "rearrangement n (swap_at i j is)"
  using assms by (simp add: rearrangement_def map_swap_at mset_swap_at)

lemma rearrangement_length: "rearrangement n is \<Longrightarrow> length is = n"
  unfolding rearrangement_def by (metis diff_zero length_map length_upt mset_eq_length)

lemma rearrangement_upt: "n \<le> 256 \<Longrightarrow> rearrangement n (map word_of_nat [0..<n])"
proof -
  assume "n \<le> 256"
  then have "map (toNumber \<circ> (word_of_nat :: nat \<Rightarrow> u8)) [0..<n] = map (\<lambda>i. i) [0..<n]"
    by (intro map_cong) (simp_all add: unat_small)
  then show ?thesis
    by (simp add: rearrangement_def)
qed

text \<open>The moves recorded last, or none, as one rearrangement of an earlier board.\<close>

lemma last_move_base:
  assumes "plays_within allows env turn p ops r" "length (ac_board r) \<le> 7"
  obtains q ops' is0 where "plays_within allows env turn p ops' q" "last_move (ac_board r) ops = (ops', map toStringU is0)"
    "rearrangement (length (ac_board q)) is0" "length (ac_board q) = length (ac_board r)"
    "r = q\<lparr>ac_board := map (\<lambda>i. ac_board q ! toNumber i) is0\<rparr>"
proof (cases "\<exists>is. ops \<noteq> [] \<and> last ops = PlayerOperation_Move (mtc_shop_PlayerOperation_Move is)")
  case True
  then obtain is0 where l: "ops \<noteq> []" "last ops = PlayerOperation_Move (mtc_shop_PlayerOperation_Move is0)"
    by blast
  obtain q where q: "plays_within allows env turn p (butlast ops) q" "play_op env turn q (last ops) r"
    by (rule plays_last [OF assms(1) l(1)])
  have rev: "rev ops = last ops # rev (butlast ops)"
    using l(1) by (metis append_butlast_last_id rev_eq_Cons_iff rev_rev_ident)
  have "last_move (ac_board r) ops = (butlast ops, map toStringU is0)"
    unfolding last_move_def rev l(2) by simp
  moreover from q(2) have "rearrangement (length (ac_board q)) is0"
    "r = q\<lparr>ac_board := map (\<lambda>i. ac_board q ! toNumber i) is0\<rparr>"
    unfolding l(2) by (auto elim: play_op_moveE)
  ultimately show thesis
    using q(1) rearrangement_length by (intro that) auto
next
  case False
  let ?is = "map word_of_nat [0..<length (ac_board r)] :: u8 list"
  have "rev ops = [] \<or> (\<nexists>is ys. rev ops = PlayerOperation_Move (mtc_shop_PlayerOperation_Move is) # ys)"
    using False by (metis last_rev list.sel(1) rev.simps(1) rev_rev_ident hd_rev)
  then have "last_move (ac_board r) ops = (ops, map show_nat [0..<length (ac_board r)])"
    by (auto simp: last_move_def split: list.splits mtc_shop_PlayerOperation.splits
        mtc_shop_PlayerOperation_Move.splits)
  moreover have "map show_nat [0..<length (ac_board r)] = map toStringU ?is"
    using assms(2) by (simp add: toStringU_def unat_small)
  moreover have "map (\<lambda>i. ac_board r ! toNumber i) ?is = ac_board r"
    using assms(2) by (intro nth_equalityI) (simp_all add: unat_small)
  ultimately show thesis
    using that [of ops r ?is] assms rearrangement_upt [of "length (ac_board r)"] by simp
qed

text \<open>The account after the start of the shop, from the state of the match when the screen came up.\<close>

definition started :: "'rng shop_env \<Rightarrow> MtcState \<Rightarrow> account \<Rightarrow> bool" where
  "started env s0 p \<longleftrightarrow>
     (\<exists>g board c logs. startShop (shuffle_ids (en_rand env)) (seed_from_u64 (en_rand env)) g (ms_board s0)
        (ms_seed s0) (en_bases env) = Inr (board, c, logs) \<and>
      p = \<lparr>ac_board = board, ac_coin = st_coin (initial_shop_state (ms_turn s0)) + int c, ac_line = 0,
        ac_sold = [], ac_grade = ms_grade s0, ac_upgradeCoin = ms_upgradeCoin s0\<rparr>)"

definition recorded :: "(int \<Rightarrow> mtc_shop_PlayerOperation \<Rightarrow> int \<Rightarrow> bool) \<Rightarrow> 'rng shop_env \<Rightarrow> MtcState \<Rightarrow> screen \<Rightarrow> bool" where
  "recorded allows env s0 sc \<longleftrightarrow>
     ms_turn (sc_mtcState sc) = ms_turn s0 \<and> ms_seed (sc_mtcState sc) = ms_seed s0 \<and>
     (if sc_operation sc = Operation_pre_shop
      then sc_mtcState sc = s0 \<and> sc_shopState sc = initial_shop_state (ms_turn s0)
      else \<exists>p. started env s0 p \<and>
        plays_within allows env (ms_turn s0) p (st_playerOperations (sc_shopState sc)) (account_of sc))"

lemma recorded_snoc:
  assumes "recorded allows env s0 sc" "sc_operation sc \<noteq> Operation_pre_shop"
    and "play_op env (ms_turn s0) (account_of sc) op (account_of sc')"
    and "allows (st_coin (sc_shopState sc)) op (st_coin (sc_shopState sc'))"
    and "st_playerOperations (sc_shopState sc') = st_playerOperations (sc_shopState sc) @ [op]"
    and "sc_operation sc' \<noteq> Operation_pre_shop"
    and "ms_turn (sc_mtcState sc') = ms_turn (sc_mtcState sc)" "ms_seed (sc_mtcState sc') = ms_seed (sc_mtcState sc)"
  shows "recorded allows env s0 sc'"
proof -
  have "allows (ac_coin (account_of sc)) op (ac_coin (account_of sc'))"
    using assms(4) by (simp add: account_of_def)
  with assms show ?thesis by (auto simp: recorded_def intro: plays_snoc)
qed

lemma recorded_same:
  assumes "recorded allows env s0 sc" "sc_operation sc \<noteq> Operation_pre_shop" "sc_operation sc' \<noteq> Operation_pre_shop"
    and "sc_mtcState sc' = sc_mtcState sc" "sc_shopState sc' = sc_shopState sc"
  shows "recorded allows env s0 sc'"
  using assms by (simp add: recorded_def account_of_def)

lemma upgrade_null:
  "(case get_upgrade_coin n of None \<Rightarrow> None | Some c \<Rightarrow> if c = 0 then None else Some (int (toNumber c))) =
   map_option (\<lambda>c. int (toNumber c)) (get_upgrade_coin n)"
  by (simp add: get_upgrade_coin_def)

fun is_buy :: "mtc_shop_PlayerOperation \<Rightarrow> bool" where
  "is_buy (PlayerOperation_Buy _) \<longleftrightarrow> True"
| "is_buy _ \<longleftrightarrow> False"

lemma click_recorded:
  assumes inv: "screen_inv env sc" and rec: "recorded allows env s0 sc" and a: "allowed env sc a"
    and p: "perform a sc = Inr sc'"
    and allows: "\<And>op. \<not> is_buy op \<Longrightarrow> allows (st_coin (sc_shopState sc)) op (st_coin (sc_shopState sc'))"
  shows "recorded allows env s0 sc'"
proof (cases a)
  case NextCatalogLine
  have op: "sc_operation sc = Operation_none"
    using idle [OF inv] a NextCatalogLine by auto
  have sc': "sc' = next_catalog_line sc"
    using p NextCatalogLine by (simp add: perform_def)
  have line: "st_nextCatalogLineCounter (sc_shopState sc) = st_currentCatalogLineIndex (sc_shopState sc)"
    using inv by (simp add: screen_inv_def line_ok_def)
  have turn: "ms_turn (sc_mtcState sc) = ms_turn s0"
    using rec by (simp add: recorded_def)
  have "account_of sc' = (account_of sc)\<lparr>ac_line := ac_line (account_of sc) + 1,
      ac_coin := ac_coin (account_of sc) -
        (if ms_turn s0 = 1 \<and> ac_line (account_of sc) < mulliganCount then 0 else int nextCatalogLineCoin)\<rparr>"
    by (simp add: sc' next_catalog_line_def Let_def account_of_def isMulliganAvailable_def line turn)
  then have "play_op env (ms_turn s0) (account_of sc) PlayerOperation_NextCatalogLine (account_of sc')"
    using play_next by metis
  then show ?thesis
    using allows [of PlayerOperation_NextCatalogLine]
    by (intro recorded_snoc [OF rec]) (simp_all add: op sc' next_catalog_line_def Let_def)
next
  case Upgrade
  have op: "sc_operation sc = Operation_none"
    using idle [OF inv] a Upgrade by auto
  have u: "upgradeFn sc = Inr sc'"
    using p Upgrade by (simp add: perform_def)
  then obtain c where c: "ms_upgradeCoin (sc_mtcState sc) = Some c"
    by (auto simp: upgradeFn_def Let_def split: option.splits)
  have "account_of sc' = (account_of sc)\<lparr>ac_coin := ac_coin (account_of sc) - c,
      ac_grade := ac_grade (account_of sc) + 1,
      ac_upgradeCoin := map_option (\<lambda>c. int (toNumber c))
        (get_upgrade_coin (word_of_nat (ac_grade (account_of sc) + 2)))\<rparr>"
    using u c by (auto simp: upgradeFn_def Let_def account_of_def upgrade_null)
  moreover have "ac_upgradeCoin (account_of sc) = Some c"
    by (simp add: account_of_def c)
  ultimately have "play_op env (ms_turn s0) (account_of sc) PlayerOperation_Upgrade (account_of sc')"
    using play_upgrade by metis
  then show ?thesis
    using allows [of PlayerOperation_Upgrade] u c
    by (intro recorded_snoc [OF rec]) (auto simp: op upgradeFn_def Let_def)
next
  case (SetOperation op)
  have off: "sc_operation sc = Operation_none"
    using idle [OF inv] a inv SetOperation by (auto simp: screen_inv_def)
  have sc': "sc' = start_operation op sc" and "operation_fits env sc op"
    using p a SetOperation by (simp_all add: perform_def)
  with rec off show ?thesis
    by (intro recorded_same [OF rec]; cases op) (simp_all add: start_operation_def)
qed (use rec p in \<open>auto simp: perform_def recorded_def account_of_def\<close>)


lemma operate_calls:
  assumes "operate json names bases fs w element board op seed = Inr (r, element')"
  shows "case op of
      Operation_pre_shop \<Rightarrow> \<exists>c logs. w_startShop w board seed bases = Inr (or_newBoardEmos r, c, logs) \<and>
        or_coinDiff r = int c
    | Operation_set i e \<Rightarrow> \<exists>c logs. w_addEmo w board [me_id e] (me_base_id e) False i bases =
        Inr (or_newBoardEmos r, c, logs) \<and> or_coinDiff r = int c - int emoBuyCoin
    | Operation_sell i \<Rightarrow> \<exists>c logs. w_sellEmo w board i bases = Inr (or_newBoardEmos r, c, logs) \<and>
        or_coinDiff r = int c
    | Operation_move i t \<Rightarrow> \<exists>c logs. w_moveEmo w board i t = Inr (or_newBoardEmos r, c, logs) \<and>
        or_coinDiff r = int c
    | Operation_none \<Rightarrow> False"
  using assms by (cases op) (auto simp: operate_def bindE_eq_Inr_iff mapR_eq_Inr_iff)

text \<open>Within one line of the catalog an emoji is known by its id.\<close>

definition catalog_ok :: "'rng shop_env \<Rightarrow> bool" where
  "catalog_ok env \<longleftrightarrow> en_catalog env \<noteq> [] \<and> list_all (\<lambda>l. distinct (map me_id l)) (en_catalog env)"

lemma find_by_id: "distinct (map me_id l) \<Longrightarrow> e \<in> set l \<Longrightarrow> find (\<lambda>e'. me_id e' = me_id e) l = Some e"
  by (induction l) auto

lemma play_set:
  assumes inv: "screen_inv env sc" and cat: "catalog_ok env" and op: "sc_operation sc = Operation_set i e"
    and call: "addEmo g (ms_board (sc_mtcState sc)) [me_id e] (me_base_id e) False i (en_bases env) =
      Inr (board, c, logs)"
  shows "play_op env turn (account_of sc)
    (PlayerOperation_Buy (mtc_shop_PlayerOperation_Buy (me_id e) (word_of_nat i)))
    ((account_of sc)\<lparr>ac_board := board, ac_coin := ac_coin (account_of sc) - int emoBuyCoin + int c\<rparr>)"
proof -
  let ?line = "en_catalog env ! ac_line (account_of sc)"
  have i: "i < 256" and buy: "buyable env sc e"
    using inv op by (simp_all add: screen_inv_def operation_ok_def boardSize_def)
  have line: "ac_line (account_of sc) < length (en_catalog env)"
    using inv by (simp add: screen_inv_def line_ok_def account_of_def)
  then have "distinct (map me_id ?line)"
    using cat by (simp add: catalog_ok_def list_all_length)
  moreover have "e \<in> set ?line"
    using buy by (simp add: buyable_def account_of_def)
  ultimately have found: "find (\<lambda>e'. me_id e' = me_id e) ?line = Some e"
    by (rule find_by_id)
  obtain base where base: "findEmoBase (me_base_id e) (en_bases env) = Inr base"
    "toNumber (eb_grade base) \<le> ms_grade (sc_mtcState sc)"
    using buy by (auto simp: buyable_def)
  have free: "toStringU (me_id e) \<notin> set (ac_sold (account_of sc))"
    "me_id e \<notin> set (concat (map be_mtc_emo_ids (ac_board (account_of sc))))"
    using buy by (auto simp: buyable_def unavailable_ids_def account_of_def id_texts_def)
  have call': "addEmo g (ac_board (account_of sc)) [me_id e] (me_base_id e) False
      (toNumber (word_of_nat i :: u8)) (en_bases env) = Inr (board, c, logs)"
    using call i by (simp add: account_of_def unat_small)
  show ?thesis
    by (rule play_buy [OF line found free base(1) _ call']) (use base(2) in \<open>simp add: account_of_def\<close>)
qed

lemma finish_recorded:
  assumes inv: "screen_inv env sc" and cat: "catalog_ok env" and rec: "recorded allows env s0 sc"
    and op: "sc_isBoardOperating sc"
    and r: "run_operation env g sc = Inr (r, element)" and f: "finish_operation r element sc = Inr sc'"
    and allows: "\<And>op. (is_buy op \<Longrightarrow> \<exists>i e. sc_operation sc = Operation_set i e) \<Longrightarrow>
      allows (st_coin (sc_shopState sc)) op (st_coin (sc_shopState sc'))"
  shows "recorded allows env s0 sc'"
proof -
  let ?s = "sc_mtcState sc" and ?st = "sc_shopState sc"
  have rop: "or_operation r = sc_operation sc"
    using r unfolding run_operation_def by (rule operate_operation)
  note call = operate_calls [OF r [unfolded run_operation_def]]
  from f obtain s st where
    fin: "finishShopBoardOperation (sc_operation sc) (or_newBoardEmos r) (or_coinDiff r) ?s ?st = Inr (s, st)"
    and sc': "sc' = sc\<lparr>sc_operation := Operation_none, sc_buttonsDisabled := False,
      sc_isBoardOperating := False, sc_mtcState := s, sc_shopState := st, sc_element := element\<rparr>"
    by (auto simp: finish_operation_def mapR_eq_Inr_iff rop)
  note frame = finishShop_frame [OF fin]
  have len: "length (ms_board ?s) \<le> 7"
    using inv by (simp add: screen_inv_def boardSize_def)
  have same: "sc_operation sc' \<noteq> Operation_pre_shop" "ms_turn (sc_mtcState sc') = ms_turn ?s"
    "ms_seed (sc_mtcState sc') = ms_seed ?s"
    by (simp_all add: sc' frame)
  have acc: "account_of sc' = (account_of sc)\<lparr>ac_board := or_newBoardEmos r,
      ac_coin := ac_coin (account_of sc) + or_coinDiff r, ac_sold := st_soldMtcEmoIds st\<rparr>"
    by (simp add: account_of_def sc' frame)
  show ?thesis
  proof (cases "sc_operation sc")
    case Operation_pre_shop
    with rec have s: "?s = s0" "?st = initial_shop_state (ms_turn s0)"
      by (simp_all add: recorded_def)
    have st: "st = ?st\<lparr>st_coin := st_coin ?st + or_coinDiff r\<rparr>"
      using fin Operation_pre_shop by (simp add: finishShopBoardOperation_def)
    have "account_of sc' = \<lparr>ac_board = or_newBoardEmos r,
        ac_coin = st_coin (initial_shop_state (ms_turn s0)) + or_coinDiff r, ac_line = 0, ac_sold = [],
        ac_grade = ms_grade s0, ac_upgradeCoin = ms_upgradeCoin s0\<rparr>"
      by (simp add: account_of_def sc' frame st s) (simp add: initial_shop_state_def)
    then have "started env s0 (account_of sc')"
      using call Operation_pre_shop s by (auto simp: started_def rust_shop_def)
    moreover have "st_playerOperations st = []"
      by (simp add: st s initial_shop_state_def)
    ultimately show ?thesis
      using plays_none [of allows env "ms_turn s0" "account_of sc'"] same s unfolding recorded_def
      by (auto simp: sc')
  next
    case (Operation_set i e)
    with call obtain c logs where c: "addEmo g (ms_board ?s) [me_id e] (me_base_id e) False i (en_bases env) =
        Inr (or_newBoardEmos r, c, logs)" "or_coinDiff r = int c - int emoBuyCoin"
      by (auto simp: rust_shop_def)
    have st: "st_playerOperations st = st_playerOperations ?st @
        [PlayerOperation_Buy (mtc_shop_PlayerOperation_Buy (me_id e) (word_of_nat i))]"
      "st_soldMtcEmoIds st = st_soldMtcEmoIds ?st"
      using fin Operation_set by (auto simp: finishShopBoardOperation_def)
    have "account_of sc' = (account_of sc)\<lparr>ac_board := or_newBoardEmos r,
        ac_coin := ac_coin (account_of sc) - int emoBuyCoin + int c\<rparr>"
      by (simp add: acc c(2) st) (simp add: account_of_def)
    then show ?thesis
      using play_set [OF inv cat Operation_set c(1), of "ms_turn s0"]
      using allows [of "PlayerOperation_Buy (mtc_shop_PlayerOperation_Buy (me_id e) (word_of_nat i))"]
      by (intro recorded_snoc [OF rec _ _ _ _ same]) (simp_all add: Operation_set sc' st)
  next
    case (Operation_sell i)
    with call obtain c logs where c: "sellEmo g (ms_board ?s) i (en_bases env) =
        Inr (or_newBoardEmos r, c, logs)" "or_coinDiff r = int c"
      by (auto simp: rust_shop_def)
    have i: "i < length (ms_board ?s)"
      using inv Operation_sell by (simp add: screen_inv_def operation_ok_def)
    then have st: "st_playerOperations st = st_playerOperations ?st @
        [PlayerOperation_Sell (mtc_shop_PlayerOperation_Sell (word_of_nat i))]"
      "st_soldMtcEmoIds st = st_soldMtcEmoIds ?st @ id_texts (ms_board ?s ! i)"
      using fin Operation_sell by (auto simp: finishShopBoardOperation_def js_at_def)
    have "play_op env (ms_turn s0) (account_of sc) (PlayerOperation_Sell (mtc_shop_PlayerOperation_Sell (word_of_nat i)))
        ((account_of sc)\<lparr>ac_board := or_newBoardEmos r, ac_coin := ac_coin (account_of sc) + int c,
          ac_sold := ac_sold (account_of sc) @ id_texts (ms_board ?s ! i)\<rparr>)"
      by (rule play_sell [where g = g and logs = logs])
        (use i len c(1) in \<open>simp_all add: account_of_def js_at_def unat_small\<close>)
    moreover have "account_of sc' = (account_of sc)\<lparr>ac_board := or_newBoardEmos r,
        ac_coin := ac_coin (account_of sc) + int c,
        ac_sold := ac_sold (account_of sc) @ id_texts (ms_board ?s ! i)\<rparr>"
      by (simp add: acc c(2) st) (simp add: account_of_def)
    ultimately show ?thesis
      using allows [of "PlayerOperation_Sell (mtc_shop_PlayerOperation_Sell (word_of_nat i))"]
      by (intro recorded_snoc [OF rec _ _ _ _ same]) (simp_all add: Operation_sell sc' st)
  next
    case (Operation_move i t)
    let ?j = "if t then i + 1 else i - 1"
    let ?m = "if t then i else i - 1"
    have ij: "i < length (ms_board ?s)" "Suc ?m < length (ms_board ?s)" "t \<or> 0 < i"
      using inv Operation_move by (cases t; auto simp: screen_inv_def operation_ok_def)+
    from call Operation_move obtain c logs where
      c: "moveEmo g (ms_board ?s) i t = Inr (or_newBoardEmos r, c, logs)" "or_coinDiff r = int c"
      by (auto simp: rust_shop_def)
    note swaps = moveEmo_swaps [OF c(1) len ij(1)]
    have board: "or_newBoardEmos r = swap_at (Suc ?m) ?m (ms_board ?s)"
      using ij(3) by (cases t) (auto simp: swaps(1) swap_at_sym)
    from rec Operation_move obtain p where p: "started env s0 p"
      "plays_within allows env (ms_turn s0) p (st_playerOperations ?st) (account_of sc)"
      by (auto simp: recorded_def)
    have b: "ac_board (account_of sc) = ms_board ?s"
      by (simp add: account_of_def)
    with len have len': "length (ac_board (account_of sc)) \<le> 7"
      by simp
    obtain q ops' is0 where q: "plays_within allows env (ms_turn s0) p ops' q"
      "last_move (ms_board ?s) (st_playerOperations ?st) = (ops', map toStringU is0)"
      "rearrangement (length (ac_board q)) is0" "length (ac_board q) = length (ms_board ?s)"
      "account_of sc = q\<lparr>ac_board := map (\<lambda>i. ac_board q ! toNumber i) is0\<rparr>"
      by (rule last_move_base [OF p(2) len', unfolded b])
    let ?is = "swap_at (Suc ?m) ?m is0"
    have is0: "length is0 = length (ms_board ?s)"
      using rearrangement_length [OF q(3)] q(4) by simp
    have "moveArrayElement (map toStringU is0) i ?j = map Some (swap_at (Suc ?m) ?m (map toStringU is0))"
      using moveArrayElement_adjacent [of ?m "map toStringU is0"] ij is0 by (cases t) auto
    also have "\<dots> = map Some (map toStringU ?is)"
      using ij is0 by (simp add: map_swap_at)
    finally have "createMove (moveArrayElement (map toStringU is0) i ?j) =
        Inr (PlayerOperation_Move (mtc_shop_PlayerOperation_Move ?is))"
      by (simp only: createMove_texts)
    moreover have "move_to (ms_board ?s) i t = Inr ?j"
      using ij by (cases t) (auto simp: move_to_def js_at_def)
    ultimately have st: "st_playerOperations st = ops' @ [PlayerOperation_Move (mtc_shop_PlayerOperation_Move ?is)]"
      "st_soldMtcEmoIds st = st_soldMtcEmoIds ?st"
      using fin Operation_move by (auto simp: finishShopBoardOperation_def Let_def q(2))
    have ops: "st_playerOperations (sc_shopState sc') =
        ops' @ [PlayerOperation_Move (mtc_shop_PlayerOperation_Move ?is)]"
      by (simp add: sc' st)
    have "account_of sc' = (account_of sc)\<lparr>ac_board := or_newBoardEmos r\<rparr>"
      by (simp add: acc c(2) swaps(2) st) (simp add: account_of_def)
    also have "\<dots> = q\<lparr>ac_board := map (\<lambda>i. ac_board q ! toNumber i) ?is\<rparr>"
    proof -
      have "ms_board ?s = map (\<lambda>i. ac_board q ! toNumber i) is0"
        using arg_cong [OF q(5), of ac_board] by (simp add: account_of_def)
      moreover have "swap_at (Suc ?m) ?m (map f is0) = map f ?is" for f :: "u8 \<Rightarrow> mtc_BoardEmo"
        using ij(2) is0 by (intro map_swap_at [symmetric]) simp_all
      ultimately have "or_newBoardEmos r = map (\<lambda>i. ac_board q ! toNumber i) ?is"
        unfolding board by (simp only:)
      then show ?thesis
        unfolding q(5) by simp
    qed
    finally have "play_op env (ms_turn s0) q (PlayerOperation_Move (mtc_shop_PlayerOperation_Move ?is)) (account_of sc')"
      using play_move [of q ?is env "ms_turn s0"] rearrangement_swap [OF q(3), of "Suc ?m" ?m] ij is0 by simp
    moreover have "allows (ac_coin q) (PlayerOperation_Move (mtc_shop_PlayerOperation_Move ?is)) (ac_coin (account_of sc'))"
      using allows [of "PlayerOperation_Move (mtc_shop_PlayerOperation_Move ?is)"] arg_cong [OF q(5), of ac_coin]
      by (simp add: account_of_def)
    ultimately have "plays_within allows env (ms_turn s0) p (st_playerOperations (sc_shopState sc')) (account_of sc')"
      using plays_snoc [OF q(1)] ops by metis
    with p(1) show ?thesis
      using rec same unfolding recorded_def by auto
  qed (use inv op in \<open>simp add: screen_inv_def operation_ok_def\<close>)
qed

end
