(* ===== verification/ShopRuns.thy ===== *)
theory ShopRuns
  imports ShopScreenFacts
begin

text \<open>
  Runs of the screen of the shop: the states it reaches from its first render, the coins, that every
  state reached renders, and scripts of clicks to run it on an example.
\<close>

section \<open>Reachable states\<close>

lemma init_recorded: "shop_init s0 element = Inr sc \<Longrightarrow> recorded allows env s0 sc"
  by (auto simp: shop_init_def start_operation_def recorded_def split: if_splits)

lemma step_recorded:
  "shop_step env sc sc' \<Longrightarrow> catalog_ok env \<Longrightarrow> screen_inv env sc \<Longrightarrow> recorded unbounded env s0 sc \<Longrightarrow>
   recorded unbounded env s0 sc'"
  by (erule shop_stepE) (blast intro: click_recorded finish_recorded offered_allowed)+

text \<open>The states a screen reaches from its first render, on an empty element.\<close>

definition reaches :: "'rng shop_env \<Rightarrow> MtcState \<Rightarrow> node \<Rightarrow> screen \<Rightarrow> bool" where
  "reaches env s0 element sc \<longleftrightarrow>
     shows_board element [] \<and> length (ms_board s0) \<le> boardSize \<and> catalog_ok env \<and>
     (\<exists>sc0. shop_init s0 element = Inr sc0 \<and> (shop_step env)\<^sup>*\<^sup>* sc0 sc)"

lemma reachesD:
  assumes "reaches env s0 element sc"
  shows "screen_inv env sc" "recorded unbounded env s0 sc"
proof -
  from assms obtain sc0 where sc0: "shop_init s0 element = Inr sc0" "(shop_step env)\<^sup>*\<^sup>* sc0 sc"
    and ok: "shows_board element []" "length (ms_board s0) \<le> boardSize" "catalog_ok env"
    by (auto simp: reaches_def)
  have inv0: "screen_inv env sc0"
    by (rule init_inv [OF sc0(1) ok(1,2)]) (use ok(3) in \<open>simp add: catalog_ok_def\<close>)
  from sc0(2) have "screen_inv env sc \<and> recorded unbounded env s0 sc"
    by (induction rule: rtranclp_induct)
      (auto intro: inv0 init_recorded [OF sc0(1)] step_inv step_recorded [OF _ ok(3)])
  then show "screen_inv env sc" "recorded unbounded env s0 sc" by simp_all
qed

section \<open>Coins\<close>

text \<open>
  The steps of a player who does not upgrade while an emoji to buy is selected: the price of the emoji
  was checked when it was selected, and an upgrade does not unselect it.
\<close>

inductive careful_step :: "'rng shop_env \<Rightarrow> screen \<Rightarrow> screen \<Rightarrow> bool" for env where
  careful_click: "Shop env sc = Inr v \<Longrightarrow> a \<in> set (offered v) \<Longrightarrow>
    (a = Upgrade \<longrightarrow> sc_selectedCatalogLineEmo sc = None) \<Longrightarrow> perform a sc = Inr sc' \<Longrightarrow> careful_step env sc sc'"
| careful_finish: "sc_isBoardOperating sc \<Longrightarrow> run_operation env next_id sc = Inr (r, element) \<Longrightarrow>
    finish_operation r element sc = Inr sc' \<Longrightarrow> careful_step env sc sc'"

inductive_cases careful_stepE: "careful_step env sc sc'"

definition buying :: "screen \<Rightarrow> bool" where
  "buying sc \<longleftrightarrow> sc_selectedCatalogLineEmo sc \<noteq> None \<or> (\<exists>i e. sc_operation sc = Operation_set i e)"

definition coin_inv :: "int \<Rightarrow> screen \<Rightarrow> bool" where
  "coin_inv m sc \<longleftrightarrow>
     m - int emoBuyCoin \<le> st_coin (sc_shopState sc) \<and> (buying sc \<longrightarrow> m \<le> st_coin (sc_shopState sc)) \<and>
     (case ms_upgradeCoin (sc_mtcState sc) of None \<Rightarrow> True | Some c \<Rightarrow> 0 \<le> c)"

lemma click_coin:
  assumes inv: "screen_inv env sc" and c: "coin_inv m sc" and m: "m \<le> 3"
    and a: "allowed env sc a" "a = Upgrade \<longrightarrow> m \<le> 0 \<or> sc_selectedCatalogLineEmo sc = None"
    and p: "perform a sc = Inr sc'"
  shows "coin_inv m sc'"
proof (cases a)
  case NextCatalogLine
  have "sc_operation sc = Operation_none"
    using idle [OF inv] a NextCatalogLine by auto
  then show ?thesis
    using c m a p NextCatalogLine
    by (auto simp: perform_def next_catalog_line_def Let_def coin_inv_def buying_def nextCatalogLineFn_def constants
        split: option.splits)
next
  case Upgrade
  have "sc_operation sc = Operation_none"
    using idle [OF inv] a Upgrade by auto
  then show ?thesis
    using c m a p Upgrade
    by (auto simp: perform_def upgradeFn_def upgrade_null Let_def coin_inv_def buying_def constants
        split: option.splits)
next
  case (Select e)
  then show ?thesis
    using c m a p by (cases e) (auto simp: perform_def coin_inv_def buying_def constants)
next
  case (SetOperation op)
  have "sc_operation sc = Operation_none"
    using idle [OF inv] a SetOperation inv by (auto simp: screen_inv_def)
  then show ?thesis
    using c m a p SetOperation
    by (cases op) (auto simp: perform_def start_operation_def coin_inv_def buying_def)
qed (use c p in \<open>auto simp: perform_def coin_inv_def buying_def\<close>)

lemma finish_coin:
  assumes inv: "screen_inv env sc" and op: "sc_isBoardOperating sc" and c: "coin_inv m sc"
    and r: "run_operation env g sc = Inr (r, element)" and f: "finish_operation r element sc = Inr sc'"
  shows "coin_inv m sc'"
proof -
  have sel: "sc_selectedCatalogLineEmo sc = None"
    using inv op by (auto simp: screen_inv_def selection_ok_def split: option.splits)
  from f obtain s st where
    fin: "finishShopBoardOperation (or_operation r) (or_newBoardEmos r) (or_coinDiff r) (sc_mtcState sc)
      (sc_shopState sc) = Inr (s, st)"
    and sc': "sc' = sc\<lparr>sc_operation := Operation_none, sc_buttonsDisabled := False,
      sc_isBoardOperating := False, sc_mtcState := s, sc_shopState := st, sc_element := element\<rparr>"
    by (auto simp: finish_operation_def mapR_eq_Inr_iff)
  have "(\<exists>i e. sc_operation sc = Operation_set i e) \<and> - int emoBuyCoin \<le> or_coinDiff r \<or> 0 \<le> or_coinDiff r"
    using operate_calls [OF r [unfolded run_operation_def]] by (cases "sc_operation sc") auto
  then show ?thesis
    using c sel by (auto simp: coin_inv_def buying_def sc' finishShop_frame [OF fin])
qed


lemma reaches_induct [consumes 1, case_names init click finish]:
  assumes "reaches env s0 element sc"
    and "\<And>sc. shop_init s0 element = Inr sc \<Longrightarrow> P sc"
    and "\<And>sc a sc'. screen_inv env sc \<Longrightarrow> P sc \<Longrightarrow> allowed env sc a \<Longrightarrow> perform a sc = Inr sc' \<Longrightarrow> P sc'"
    and "\<And>sc g r el sc'. screen_inv env sc \<Longrightarrow> P sc \<Longrightarrow> sc_isBoardOperating sc \<Longrightarrow>
      run_operation env g sc = Inr (r, el) \<Longrightarrow> finish_operation r el sc = Inr sc' \<Longrightarrow> P sc'"
  shows "P sc"
proof -
  from assms(1) obtain sc0 where sc0: "shop_init s0 element = Inr sc0" "(shop_step env)\<^sup>*\<^sup>* sc0 sc"
    and ok: "shows_board element []" "length (ms_board s0) \<le> boardSize" "catalog_ok env"
    by (auto simp: reaches_def)
  have inv0: "screen_inv env sc0"
    by (rule init_inv [OF sc0(1) ok(1,2)]) (use ok(3) in \<open>simp add: catalog_ok_def\<close>)
  from sc0(2) have "screen_inv env sc \<and> P sc"
  proof (induction rule: rtranclp_induct)
    case base
    then show ?case using inv0 assms(2) [OF sc0(1)] by simp
  next
    case (step y z)
    then have "screen_inv env z" by (auto intro: step_inv)
    moreover from step(2,3) have "P z"
      by (auto elim!: shop_stepE intro: assms(3,4) offered_allowed)
    ultimately show ?case ..
  qed
  then show ?thesis ..
qed

lemma init_coin:
  assumes "shop_init s0 element = Inr sc" "m \<le> 3"
    and "case ms_upgradeCoin s0 of None \<Rightarrow> True | Some c \<Rightarrow> 0 \<le> c"
  shows "coin_inv m sc"
proof -
  have "m - int emoBuyCoin \<le> int (toNumber (get_initial_coin_by_turn (word_of_nat (ms_turn s0))))"
    using assms(2) by (simp add: constants order_trans [of "m - 3" 0])
  then show ?thesis
    using assms(1,3)
    by (auto simp: shop_init_def start_operation_def initial_shop_state_def coin_inv_def buying_def
        simp del: of_nat_unat split: if_splits)
qed

lemma careful_is_step: "careful_step env sc sc' \<Longrightarrow> shop_step env sc sc'"
  by (erule careful_stepE) (auto intro: shop_step.intros)

lemma careful_coin:
  assumes "careful_step env sc sc'" "screen_inv env sc" "coin_inv 3 sc"
  shows "coin_inv 3 sc'"
  using assms(1)
  by (rule careful_stepE) (use assms(2,3) in \<open>auto intro: click_coin finish_coin offered_allowed\<close>)

lemma step_coin:
  assumes "shop_step env sc sc'" "screen_inv env sc" "coin_inv 0 sc"
  shows "coin_inv 0 sc'"
  using assms(1)
  by (rule shop_stepE) (use assms(2,3) in \<open>auto intro: click_coin finish_coin offered_allowed\<close>)

lemma runs_coin:
  assumes "shop_init s0 element = Inr sc0" "shows_board element []" "length (ms_board s0) \<le> boardSize"
    and "catalog_ok env" "case ms_upgradeCoin s0 of None \<Rightarrow> True | Some c \<Rightarrow> 0 \<le> c"
  shows "(shop_step env)\<^sup>*\<^sup>* sc0 sc \<Longrightarrow> - 3 \<le> st_coin (sc_shopState sc)"
    and "(careful_step env)\<^sup>*\<^sup>* sc0 sc \<Longrightarrow> 0 \<le> st_coin (sc_shopState sc)"
proof -
  have inv0: "screen_inv env sc0"
    by (rule init_inv [OF assms(1-3)]) (use assms(4) in \<open>simp add: catalog_ok_def\<close>)
  assume "(shop_step env)\<^sup>*\<^sup>* sc0 sc"
  then have "screen_inv env sc \<and> coin_inv 0 sc"
    by (induction rule: rtranclp_induct)
      (use inv0 init_coin [OF assms(1) _ assms(5), of 0] in \<open>auto intro: step_inv step_coin\<close>)
  then show "- 3 \<le> st_coin (sc_shopState sc)"
    by (simp add: coin_inv_def constants)
next
  have inv0: "screen_inv env sc0"
    by (rule init_inv [OF assms(1-3)]) (use assms(4) in \<open>simp add: catalog_ok_def\<close>)
  assume "(careful_step env)\<^sup>*\<^sup>* sc0 sc"
  then have "screen_inv env sc \<and> coin_inv 3 sc"
    by (induction rule: rtranclp_induct)
      (use inv0 init_coin [OF assms(1) _ assms(5), of 3] in
        \<open>auto intro: step_inv [OF careful_is_step] careful_coin\<close>)
  then show "0 \<le> st_coin (sc_shopState sc)"
    by (simp add: coin_inv_def constants)
qed

section \<open>The screen renders\<close>

definition nameless :: "EmoBases \<Rightarrow> u16 \<Rightarrow> bool" where
  "nameless bases i \<longleftrightarrow> isl (bindE (findEmoBase i bases) getEmoBaseEmoji)"

lemma nameless_iff: "nameless bases i \<longleftrightarrow> \<not> (\<exists>b t. findEmoBase i bases = Inr b \<and> getEmoBaseEmoji b = Inr t)"
  by (cases "bindE (findEmoBase i bases) getEmoBaseEmoji")
    (auto simp: nameless_def bindE_eq_Inr_iff bindE_eq_Inl_iff)

definition ghost_ok :: "EmoBases \<Rightarrow> mtc_Ghost \<Rightarrow> bool" where
  "ghost_ok bases ghost \<longleftrightarrow>
     list_all (\<lambda>gg. 1 \<le> gg_grade gg \<and> gg_grade gg \<le> 6 \<and> length (gg_board gg) \<le> boardSize \<and>
       list_all (\<lambda>e. \<not> nameless bases (be_base_id e)) (gg_board gg)) (gh_history ghost)"

definition final_turn_ok :: "mtc_GhostState \<Rightarrow> bool" where
  "final_turn_ok s \<longleftrightarrow> (case s of GhostState_Retired (mtc_GhostState_Retired t) \<Rightarrow> t \<noteq> 0 | _ \<Rightarrow> True)"

definition rivals_ok :: "EmoBases \<Rightarrow> MtcState \<Rightarrow> bool" where
  "rivals_ok bases s \<longleftrightarrow>
     length (ms_ghostStates s) = length (ms_ghosts s) \<and> length (ms_ghostAddresses s) = length (ms_ghosts s) \<and>
     ms_battleGhostIndex s < length (ms_ghosts s) \<and> 1 \<le> ms_turn s \<and> ms_turn s < 256 \<and>
     list_all (ghost_ok bases) (ms_ghosts s) \<and> list_all final_turn_ok (ms_ghostStates s)"

text \<open>The last grade has no price.\<close>

definition grade_ok :: "MtcState \<Rightarrow> bool" where
  "grade_ok s \<longleftrightarrow> 1 \<le> ms_grade s \<and> ms_grade s \<le> 6 \<and> (ms_upgradeCoin s \<noteq> None \<longrightarrow> ms_grade s \<le> 5)"

definition catalog_named :: "'rng shop_env \<Rightarrow> bool" where
  "catalog_named env \<longleftrightarrow>
     list_all (list_all (\<lambda>e. \<not> nameless (en_bases env) (me_base_id e))) (en_catalog env)"

lemma grade_and_ghost_board_ok:
  assumes "1 \<le> turn" "turn < 256" "final_turn_ok state"
  shows "\<exists>gg. getGradeAndGhostBoard h state turn = Inr gg \<and>
    (gg = EMPTY_GRADE_AND_GHOST_BOARD \<or> gg \<in> set h)"
proof -
  let ?t = "word_of_nat turn :: u8" and ?n = "word_of_nat (length h) :: u8"
  define e where "e = (case state of
      GhostState_Retired (mtc_GhostState_Retired t) \<Rightarrow> min ?t t | _ \<Rightarrow> ?t)"
  have "?t \<noteq> 0"
    using assms(1,2) unat_small [of turn] by (metis One_nat_def not_less_eq_eq unat_0 le_zero_eq)
  then have e: "e \<noteq> 0"
    using assms(3)
    by (auto simp: e_def final_turn_ok_def min_def split: mtc_GhostState.splits mtc_GhostState_Retired.splits)
  have n: "toNumber ?n \<le> length h"
    by (simp add: unat_of_nat)
  have "toNumber e - 1 < length h" if "e \<le> ?n" "?n \<noteq> 0"
    using that e n unat_gt_0 [of e] by (simp add: word_le_nat_alt)
  moreover have "toNumber ?n - 1 < length h" if "?n \<noteq> 0"
    using that n unat_gt_0 [of ?n] by linarith
  ultimately show ?thesis
    using e by (auto simp: getGradeAndGhostBoard_def get_grade_and_ghost_board_def Let_def at_or_trap_def
        simp flip: e_def)
qed


lemma rival_board_ok:
  assumes "rivals_ok bases (sc_mtcState sc)" "sc_selectedRivalIndex sc < length (ms_ghosts (sc_mtcState sc))"
    and "1 \<le> turn" "turn < 256"
  shows "\<exists>b. rival_board sc turn = Inr b \<and> list_all (\<lambda>e. \<not> nameless bases (be_base_id e)) b"
proof -
  let ?i = "sc_selectedRivalIndex sc" and ?s = "sc_mtcState sc"
  have i: "?i < length (ms_ghostStates ?s)" "final_turn_ok (ms_ghostStates ?s ! ?i)"
    and ghost: "ghost_ok bases (ms_ghosts ?s ! ?i)"
    using assms(1,2) by (auto simp: rivals_ok_def list_all_length)
  from grade_and_ghost_board_ok [OF assms(3,4) i(2), of "gh_history (ms_ghosts ?s ! ?i)"] obtain gg where
    gg: "getGradeAndGhostBoard (gh_history (ms_ghosts ?s ! ?i)) (ms_ghostStates ?s ! ?i) turn = Inr gg"
    "gg = EMPTY_GRADE_AND_GHOST_BOARD \<or> gg \<in> set (gh_history (ms_ghosts ?s ! ?i))" by blast
  then have "list_all (\<lambda>e. \<not> nameless bases (be_base_id e)) (gg_board gg)"
    using ghost by (auto simp: ghost_ok_def EMPTY_GRADE_AND_GHOST_BOARD_def list_all_iff)
  then show ?thesis
    using gg(1) i(1) assms(2) by (simp add: rival_board_def Let_def js_at_def)
qed

lemma RivalBoard_ok:
  "list_all (\<lambda>e. \<not> nameless bases (be_base_id e)) b \<Longrightarrow> \<exists>v. RivalBoard bases b = Inr v"
  unfolding RivalBoard_def mapE_ok_iff list_all_iff nameless_iff by force

lemma RivalsToggle_ok:
  assumes "rivals_ok bases s"
  shows "\<exists>v. RivalsToggle (ms_ghosts s) (ms_ghostAddresses s) (ms_ghostStates s) b sel (ms_turn s) = Inr v"
  unfolding RivalsToggle_def mapE_ok_iff
proof (intro ballI)
  fix p assume "p \<in> set (List.enumerate 0 (ms_ghosts s))"
  then obtain i where i: "p = (i, ms_ghosts s ! i)" "i < length (ms_ghosts s)"
    by (auto simp: enumerate_nth)
  then have ghost: "ghost_ok bases (ms_ghosts s ! i)" "final_turn_ok (ms_ghostStates s ! i)"
    and len: "i < length (ms_ghostStates s)" "i < length (ms_ghostAddresses s)"
    and turn: "1 \<le> ms_turn s" "ms_turn s < 256"
    using assms by (auto simp: rivals_ok_def list_all_length)
  from grade_and_ghost_board_ok [OF turn ghost(2), of "gh_history (ms_ghosts s ! i)"] obtain gg where
    gg: "getGradeAndGhostBoard (gh_history (ms_ghosts s ! i)) (ms_ghostStates s ! i) (ms_turn s) = Inr gg"
    "gg = EMPTY_GRADE_AND_GHOST_BOARD \<or> gg \<in> set (gh_history (ms_ghosts s ! i))" by blast
  then have "1 \<le> gg_grade gg \<and> gg_grade gg \<le> 6"
    using ghost(1) by (auto simp: ghost_ok_def EMPTY_GRADE_AND_GHOST_BOARD_def list_all_iff)
  then have "1 \<le> toNumber (gg_grade gg) \<and> toNumber (gg_grade gg) \<le> 6"
    by (simp add: word_le_nat_alt)
  then obtain t where "getGradeText (toStringU (gg_grade gg)) = Inr t"
    unfolding toStringU_def getGradeText_ok_iff [symmetric] by blast
  then show "\<exists>v. (case p of (i, ghost) \<Rightarrow>
      bindE (orTypeError (js_at (ms_ghostStates s) i)) (\<lambda>state.
      bindE (getGradeAndGhostBoard (gh_history ghost) state (ms_turn s)) (\<lambda>gg.
      bindE (orTypeError (js_at (ms_ghostAddresses s) i)) (\<lambda>addr.
      mapR (\<lambda>gradeText. let health = getHealthFromState state in
        \<lparr>rv_active = (i = sel), rv_identicon = addr, rv_address = getShortAddress addr, rv_health = health,
         rv_dead = (health = 0), rv_grade = gradeText, rv_next = (i = b),
         rv_onClick = (if i = sel then None else Some (SelectRival i))\<rparr>)
        (getGradeText (toStringU (gg_grade gg))))))) = Inr v"
    using gg(1) len by (simp add: i(1) js_at_def Let_def)
qed

lemma Line_ok:
  assumes "list_all (\<lambda>e. \<not> nameless bases (me_base_id e)) l"
  shows "\<exists>v. CurrentLine bases l g p u d = Inr v" "\<exists>v. Line bases l g u = Inr v"
proof -
  have "\<forall>e\<in>set l. \<exists>q. with_grade bases e = Inr q"
    using assms by (auto simp: list_all_iff nameless_iff with_grade_def)
  then obtain emos where emos: "mapE (with_grade bases) l = Inr emos"
    unfolding mapE_ok_iff [symmetric] by blast
  have base: "\<exists>v. EmoBase base t i = Inr v" if "(e, base) \<in> set emos" for e base t i
  proof -
    from mapE_member [OF emos that] have "e \<in> set l" "findEmoBase (me_base_id e) bases = Inr base"
      by (auto simp: with_grade_def mapR_eq_Inr_iff)
    with assms show ?thesis
      by (fastforce simp: list_all_iff nameless_iff EmoBase_def)
  qed
  then show "\<exists>v. Line bases l g u = Inr v"
    by (auto simp: Line_def emos mapE_ok_iff)
  have "\<exists>v. mapR f (EmoBase base t i) = Inr v" if "(e, base) \<in> set emos" for e base t i and f :: "Emo_props \<Rightarrow> button \<times> Emo_props"
    using base [OF that, of t i] by auto
  then show "\<exists>v. CurrentLine bases l g p u d = Inr v"
    by (auto simp: CurrentLine_def emos mapE_ok_iff Let_def)
qed


definition renderable :: "'rng shop_env \<Rightarrow> screen \<Rightarrow> bool" where
  "renderable env sc \<longleftrightarrow>
     rivals_ok (en_bases env) (sc_mtcState sc) \<and> grade_ok (sc_mtcState sc) \<and>
     sc_selectedRivalIndex sc < length (ms_ghosts (sc_mtcState sc))"

lemma Shop_renders:
  assumes "line_ok env sc" "renderable env sc" "catalog_named env"
  shows "\<exists>v. Shop env sc = Inr v"
proof -
  let ?s = "sc_mtcState sc" and ?st = "sc_shopState sc"
  have ok: "rivals_ok (en_bases env) ?s" "grade_ok ?s" "sc_selectedRivalIndex sc < length (ms_ghosts ?s)"
    using assms(2) by (simp_all add: renderable_def)
  have turn: "1 \<le> ms_turn ?s" "ms_turn ?s < 256"
    using ok(1) by (simp_all add: rivals_ok_def)
  obtain b1 where b1: "rival_board sc (ms_turn ?s) = Inr b1"
    "list_all (\<lambda>e. \<not> nameless (en_bases env) (be_base_id e)) b1"
    using rival_board_ok [OF ok(1,3) turn] by blast
  obtain b2 where b2: "rival_board sc 255 = Inr b2"
    "list_all (\<lambda>e. \<not> nameless (en_bases env) (be_base_id e)) b2"
    using rival_board_ok [OF ok(1,3), of 255] by auto
  obtain nav where nav: "Nav (ms_health ?s) (ms_grade ?s) (ms_upgradeCoin ?s) (nextCatalogLineFn env sc)
      (en_finish env) (st_coin ?st) (ms_turn ?s) (st_nextCatalogLineCounter ?st) (sc_isBoardOperating sc) = Inr nav"
    using ok(2) getGradeText_ok_iff [of "ms_grade ?s"] by (auto simp: Nav_def grade_ok_def)
  obtain l ls where d: "drop (st_currentCatalogLineIndex ?st) (en_catalog env) = l # ls"
    using assms(1) by (metis Cons_nth_drop_Suc line_ok_def)
  have named: "list_all (\<lambda>e. \<not> nameless (en_bases env) (me_base_id e)) k" if "k \<in> set (l # ls)" for k
    using that assms(3) unfolding d [symmetric] by (auto simp: catalog_named_def list_all_iff dest: in_set_dropD)
  obtain lines where "mapE (\<lambda>l. Line (en_bases env) l (ms_grade ?s) (unavailable_ids sc)) ls = Inr lines"
    using named Line_ok(2) mapE_ok_iff [of _ ls] by (metis list.set_intros(2))
  then obtain catalog where catalog: "Catalog (en_bases env) (en_catalog env) (st_currentCatalogLineIndex ?st)
      (ms_grade ?s) (sc_selectedCatalogLineEmo sc) (length (ms_board ?s) \<ge> boardSize) (st_coin ?st)
      (unavailable_ids sc) (sc_isBoardOperating sc) = Inr catalog"
    using Line_ok(1) [OF named [OF list.set_intros(1)], of "ms_grade ?s"
        "\<not> length (ms_board ?s) \<ge> boardSize \<and> st_coin ?st \<ge> int emoBuyCoin" "unavailable_ids sc"
        "sc_isBoardOperating sc"]
    by (auto simp: Catalog_def d Let_def)
  obtain rivals where rivals: "RivalsToggle (ms_ghosts ?s) (ms_ghostAddresses ?s) (ms_ghostStates ?s)
      (ms_battleGhostIndex ?s) (sc_selectedRivalIndex sc) (ms_turn ?s) = Inr rivals"
    using RivalsToggle_ok [OF ok(1)] by blast
  obtain rivalBoard where "RivalBoard (en_bases env) (if sc_isRivalBoardCurrent sc then b1 else b2) = Inr rivalBoard"
    using RivalBoard_ok b1(2) b2(2) by (metis (full_types))
  then show ?thesis
    by (simp add: Shop_def Let_def b1(1) b2(1) nav catalog rivals)
qed

lemma upgraded_grade:
  assumes "grade_ok s" "ms_upgradeCoin s = Some c"
  shows "grade_ok (s\<lparr>ms_grade := ms_grade s + 1,
    ms_upgradeCoin := map_option (\<lambda>c. int (toNumber c)) (get_upgrade_coin (word_of_nat (ms_grade s + 2)))\<rparr>)"
proof -
  have "ms_grade s = 1 \<or> ms_grade s = 2 \<or> ms_grade s = 3 \<or> ms_grade s = 4 \<or> ms_grade s = 5"
    using assms by (auto simp: grade_ok_def)
  then show ?thesis
    by (auto simp: grade_ok_def get_upgrade_coin_def)
qed

lemma click_renderable:
  assumes "renderable env sc" "allowed env sc a" "perform a sc = Inr sc'"
  shows "renderable env sc'"
proof (cases "a = Upgrade")
  case True
  then obtain c where c: "ms_upgradeCoin (sc_mtcState sc) = Some c"
    using assms(2) by auto
  show ?thesis
    using assms True c upgraded_grade [OF _ c]
    by (auto simp: perform_def upgradeFn_def upgrade_null Let_def renderable_def rivals_ok_def)
next
  case False
  then show ?thesis
    using assms
    by (cases a) (auto simp: perform_def next_catalog_line_def start_operation_def Let_def renderable_def
        split: Operation.splits)
qed

lemma finish_renderable:
  assumes "renderable env sc" "finish_operation r el sc = Inr sc'"
  shows "renderable env sc'"
  using assms finishShop_frame(1)
  by (fastforce simp: finish_operation_def mapR_eq_Inr_iff renderable_def rivals_ok_def grade_ok_def)

lemma reaches_renderable:
  assumes "reaches env s0 element sc" "rivals_ok (en_bases env) s0" "grade_ok s0"
  shows "renderable env sc"
  using assms(1)
proof (induction rule: reaches_induct)
  case (init sc)
  then show ?case
    using assms(2,3)
    by (auto simp: shop_init_def start_operation_def renderable_def rivals_ok_def split: if_splits)
qed (blast intro: click_renderable finish_renderable)+

section \<open>A script of clicks\<close>

text \<open>A run of the screen: an action that is clicked, or the end of an operation (\<open>None\<close>).\<close>

primrec follow :: "'rng shop_env \<Rightarrow> action option list \<Rightarrow> screen \<Rightarrow> screen js" where
  "follow env [] sc = Inr sc"
| "follow env (x # xs) sc =
     bindE (case x of
         Some a \<Rightarrow> bindE (Shop env sc) (\<lambda>v. if a \<in> set (offered v) then perform a sc else Inl JsTypeError)
       | None \<Rightarrow> if sc_isBoardOperating sc
           then bindE (run_operation env 0 sc) (\<lambda>(r, element). finish_operation r element sc)
           else Inl JsTypeError) (follow env xs)"

lemma follow_steps: "follow env xs sc = Inr sc' \<Longrightarrow> (shop_step env)\<^sup>*\<^sup>* sc sc'"
proof (induction xs arbitrary: sc)
  case (Cons x xs)
  then obtain sc1 where "follow env xs sc1 = Inr sc'" "shop_step env sc sc1"
    by (cases x) (auto simp: bindE_eq_Inr_iff split: if_splits intro: shop_step.intros)
  with Cons.IH show ?case
    by (meson converse_rtranclp_into_rtranclp)
qed simp

end
