(* ===== verification/Examples.thy ===== *)
theory Examples
  imports ShopRuns
begin

text \<open>
  Concrete values on which the theorems are applied: two bases, a match at its second turn, a
  catalog of one line and a run of the screen of the shop.
\<close>

definition sample_base :: "u16 \<Rightarrow> emo_Base" where
  "sample_base i = \<lparr>eb_id = i, eb_typ = Typ_Food, eb_codepoint = 65, eb_grade = 1, eb_attack = 2,
     eb_health = 3, eb_abilities = []\<rparr>"

definition sample_bases :: EmoBases where
  "sample_bases = buildEmoBases [(4, sample_base 4), (5, sample_base 5)]"

definition sample_rand :: "nat rand_crate" where
  "sample_rand = \<lparr>seed_from_u64 = (\<lambda>_. 0), choose_multiple = (\<lambda>r n xs. (take n xs, r)),
     shuffle_emos = (\<lambda>r xs. (xs, r)), shuffle_ids = (\<lambda>r xs. (xs, r)),
     choose_one = (\<lambda>r xs. case xs of [] \<Rightarrow> None | x # _ \<Rightarrow> Some x)\<rparr>"

lemma sample_rand_ok: "rand_ok sample_rand"
  by (auto simp: rand_ok_def sample_rand_def mset_take_subset split: list.splits)

definition sample_mtc_emo :: mtc_Emo where "sample_mtc_emo = \<lparr>me_id = 1, me_base_id = 4\<rparr>"

definition sample_env :: "nat shop_env" where
  "sample_env = \<lparr>en_json = (\<lambda>_. ''''), en_emoNames = (\<lambda>_. Some ''a''), en_bases = sample_bases,
     en_fontSize = ''1em'', en_rand = sample_rand,
     en_catalog = [[sample_mtc_emo, \<lparr>me_id = 2, me_base_id = 5\<rparr>]], en_finish = NoPow\<rparr>"

definition sample_match :: MtcState where
  "sample_match = \<lparr>ms_previousEp = 300, ms_turn = 2, ms_seed = ''5'', ms_pool = [], ms_board = [],
     ms_grade = 1, ms_upgradeCoin = Some 4, ms_health = 30,
     ms_ghosts = replicate 3 \<lparr>gh_history = []\<rparr>, ms_ghostStates = build_initial_ghost_states,
     ms_ghostAddresses = replicate 3 zeroAddress, ms_battleGhostIndex = 0\<rparr>"

definition sample_element :: node where "sample_element = board_dom [] [] []"

lemma parse_5: "parse_u64 ''5'' = Some 5"
  by (simp add: parse_u64_def digit_value_def)

definition sample_init :: screen where
  "sample_init = \<lparr>sc_mtcState = sample_match, sc_shopState = initial_shop_state 2,
     sc_selectedCatalogLineEmo = None, sc_selectedRivalIndex = 0, sc_isBoardOperating = True,
     sc_isRivalBoardCurrent = True, sc_operation = Operation_pre_shop, sc_buttonsDisabled = True,
     sc_element = sample_element\<rparr>"

definition sample_start :: screen where
  "sample_start = sample_init\<lparr>sc_isBoardOperating := False, sc_operation := Operation_none,
     sc_buttonsDisabled := False\<rparr>"

lemma sample_init: "shop_init sample_match sample_element = Inr sample_init"
  by (simp add: shop_init_def sample_init_def sample_match_def start_operation_def)

lemma sample_pre_shop: "shop_step sample_env sample_init sample_start"
proof (rule shop_step.finish)
  show "sc_isBoardOperating sample_init" by (simp add: sample_init_def)
  let ?r = "\<lparr>or_newBoardEmos = [], or_coinDiff = 0, or_operation = Operation_pre_shop\<rparr>"
  show "run_operation sample_env 0 sample_init = Inr (?r, sample_element)"
    by (simp add: run_operation_def operate_def sample_init_def sample_match_def rust_shop_def
        startShop_def parse_5 decode_and_encode_for_shop_def taken_in_def start_shop_def start_shop_with_def
        get_board_pre_abilities_def setupEmoLineEmosElement_def shop_animate_def)
  show "finish_operation ?r sample_element sample_init = Inr sample_start"
    by (simp add: finish_operation_def finishShopBoardOperation_def sample_start_def sample_init_def
        initial_shop_state_def sample_match_def)
qed

lemma sample_ok:
  "rivals_ok sample_bases sample_match" "grade_ok sample_match" "catalog_named sample_env" "catalog_ok sample_env"
  by code_simp+

lemma sample_shows: "shows_board sample_element []"
  by (auto simp: shows_board_def sample_element_def)

lemma sample_reaches_init: "reaches sample_env sample_match sample_element sample_init"
  using sample_init sample_ok(4) by (auto simp: reaches_def sample_shows sample_match_def)

lemma reaches_step: "reaches env s0 el sc \<Longrightarrow> shop_step env sc sc' \<Longrightarrow> reaches env s0 el sc'"
  by (auto simp: reaches_def intro: rtranclp.rtrancl_into_rtrancl)

lemma sample_reaches_start: "reaches sample_env sample_match sample_element sample_start"
  using sample_reaches_init sample_pre_shop by (rule reaches_step)

lemma reaches_click:
  assumes "reaches env s0 el sc" "rivals_ok (en_bases env) s0" "grade_ok s0" "catalog_named env"
    and "allowed env sc a" "perform a sc = Inr sc'"
  shows "reaches env s0 el sc'"
proof -
  have "line_ok env sc" using reachesD(1) [OF assms(1)] by (simp add: screen_inv_def)
  then obtain v where "Shop env sc = Inr v"
    using Shop_renders reaches_renderable [OF assms(1-3)] assms(4) by blast
  then show ?thesis
    using reaches_step [OF assms(1) shop_step.click [OF _ _ assms(6)]] assms(5) by (simp add: offered_iff)
qed

lemmas sample_click = reaches_click [of sample_env sample_match sample_element, OF _ _ sample_ok(2,3)]

text \<open>An emoji is selected, the grade is raised with the coins for it, and the emoji is set.\<close>

definition sample_bought :: screen where
  "sample_bought = projr (bindE (perform (Select (Some sample_mtc_emo)) sample_start) (\<lambda>sc.
     bindE (perform Upgrade sc) (perform (SetOperation (Operation_set 0 sample_mtc_emo)))))"

lemma sample_found: "findEmoBase 4 sample_bases = Inr (sample_base 4)"
  by code_simp

lemma sample_reaches_bought: "reaches sample_env sample_match sample_element sample_bought"
proof -
  let ?sel = "sample_start\<lparr>sc_selectedCatalogLineEmo := Some sample_mtc_emo\<rparr>"
  let ?up = "projr (perform Upgrade ?sel)"
  have rivals: "rivals_ok (en_bases sample_env) sample_match"
    using sample_ok(1) by (simp add: sample_env_def)
  note sample = sample_env_def sample_mtc_emo_def sample_start_def sample_init_def sample_match_def
    initial_shop_state_def
  have "reaches sample_env sample_match sample_element ?sel"
    by (rule sample_click [OF sample_reaches_start rivals, of "Select (Some sample_mtc_emo)"])
      (simp_all add: sample buyable_def unavailable_ids_def constants sample_found perform_def
        get_initial_coin_by_turn_def MAX_COIN_def, simp add: sample_base_def)
  then have "reaches sample_env sample_match sample_element ?up"
    by (rule sample_click [OF _ rivals, of _ Upgrade])
      (simp_all add: sample get_initial_coin_by_turn_def MAX_COIN_def perform_def upgradeFn_def)
  then have "reaches sample_env sample_match sample_element
      (projr (perform (SetOperation (Operation_set 0 sample_mtc_emo)) ?up))"
    by (rule sample_click [OF _ rivals, of _ "SetOperation (Operation_set 0 sample_mtc_emo)"])
      (simp_all add: sample perform_def upgradeFn_def)
  moreover have "sample_bought = projr (perform (SetOperation (Operation_set 0 sample_mtc_emo)) ?up)"
    by (simp add: sample_bought_def perform_def upgradeFn_def sample)
  ultimately show ?thesis by simp
qed

definition sample_negative :: screen where
  "sample_negative = projr (bindE (run_operation sample_env 0 sample_bought)
     (\<lambda>(r, element). finish_operation r element sample_bought))"

lemma sample_set_runs:
  "\<not> isl (bindE (run_operation sample_env 0 sample_bought)
     (\<lambda>(r, element). finish_operation r element sample_bought)) \<and>
   st_coin (sc_shopState sample_negative) = - 3"
  by code_simp

lemma sample_reaches_negative: "reaches sample_env sample_match sample_element sample_negative"
proof -
  have "sc_isBoardOperating sample_bought"
    by code_simp
  moreover obtain sc' where f: "bindE (run_operation sample_env 0 sample_bought)
      (\<lambda>(r, element). finish_operation r element sample_bought) = Inr sc'"
    using sample_set_runs by (metis isl_def sum.exhaust)
  then have "sample_negative = sc'"
    by (simp add: sample_negative_def)
  moreover from f obtain r el where "run_operation sample_env 0 sample_bought = Inr (r, el)"
    "finish_operation r el sample_bought = Inr sc'"
    by (auto simp: bindE_eq_Inr_iff)
  ultimately show ?thesis
    using reaches_step [OF sample_reaches_bought] by (auto intro: finish)
qed

end
