(* ===== verification/BattleTheorems.thy ===== *)
theory BattleTheorems
  imports BattleShown PlainMarch Examples
begin

text \<open>
  What is stated of the fight of two boards: what it leaves, what the front shows of it, when it returns
  and when it cannot, and whom an emoji that attacks the lowest attack draws from; with concrete fights.
\<close>

section \<open>From the boards of the match\<close>

lemma new_emo_ghost:
  "new_emo json emoNames bases e =
   new_emo json emoNames bases \<lparr>be_base_id = be_base_id e, be_attributes = be_attributes e, be_mtc_emo_ids = []\<rparr>"
  by (simp add: new_emo_def)

lemma new_views_unshowable:
  "new_views json emoNames bases b = Inl err \<Longrightarrow> unshowable json emoNames bases err"
proof (induction b)
  case Nil
  then show ?case by (simp add: new_views_def)
next
  case (Cons e b)
  then have "new_emo json emoNames bases e = Inl err \<or> new_views json emoNames bases b = Inl err"
    by (cases "new_emo json emoNames bases e"; cases "new_views json emoNames bases b")
      (auto simp: new_views_def)
  with Cons.IH show ?case
    unfolding unshowable_def by (subst (asm) new_emo_ghost) blast
qed

text \<open>The emojis of a board in a battle: those of the board, under the ids of their bases.\<close>

definition same_emo :: "'a mtc_GhostBoardEmo_scheme \<Rightarrow> 'b BattleEmo_scheme \<Rightarrow> bool" where
  "same_emo e f \<longleftrightarrow> bt_base_id f = be_base_id e \<and> bt_attributes f = be_attributes e"

lemma find_base_id: "bases_ok bases \<Longrightarrow> find_base bases i = Inr base \<Longrightarrow> eb_id base = i"
  by (auto simp: find_base_def bases_ok_def list_all_iff dest!: map_of_SomeD split: option.splits)

lemma built_emos:
  assumes "bases_ok bases" "build_battle_emos b bases = Inr emos"
  shows "list_all2 same_emo b (with_battle_ids emos i)"
proof -
  have "list_all2 same_emo b emos"
    using assms(2) unfolding build_battle_emos_def mapE_eq_Inr_iff
    by (rule list_all2_mono)
      (auto simp: mapR_eq_Inr_iff same_emo_def new_with_attributes_def find_base_id [OF assms(1)])
  then show ?thesis
    by (induction arbitrary: i rule: list_all2_induct) (simp_all add: same_emo_def)
qed

lemma views_of_fighters:
  assumes "new_views json emoNames bases b = Inr vs" "list_all2 same_emo b fs"
  shows "list_all2 (\<lambda>v f. new_view json emoNames bases (fighter_emo f) = Inr v) vs fs"
  using assms(2,1)
proof (induction arbitrary: vs rule: list_all2_induct)
  case (Cons e b f fs)
  then have "fighter_emo f = \<lparr>be_base_id = be_base_id e, be_attributes = be_attributes e, be_mtc_emo_ids = []\<rparr>"
    by (simp add: fighter_emo_def same_emo_def)
  then have "new_emo json emoNames bases (fighter_emo f) = new_emo json emoNames bases e"
    by (simp add: new_emo_def)
  with Cons show ?case
    by (auto simp: new_views_def bindE_eq_Inr_iff mapR_eq_Inr_iff new_view_def)
qed (simp add: new_views_def)

lemma sturdy_fighters:
  "list_all2 same_emo b fs \<Longrightarrow> list_all (\<lambda>e. sturdy (be_attributes e)) b \<Longrightarrow>
   list_all (\<lambda>f. sturdy (bt_attributes f)) fs"
  by (induction rule: list_all2_induct) (auto simp: same_emo_def)

lemma displays_two:
  assumes "displays json emoNames bases vss [b0, b1]"
  obtains v0 v1 where "vss = [v0, v1]" "new_views json emoNames bases (map fighter_emo b0) = Inr v0"
    "new_views json emoNames bases (map fighter_emo b1) = Inr v1"
proof -
  from assms obtain v0 v1 where v: "vss = [v0, v1]"
    "list_all2 (\<lambda>v f. new_view json emoNames bases (fighter_emo f) = Inr v) v0 b0"
    "list_all2 (\<lambda>v f. new_view json emoNames bases (fighter_emo f) = Inr v) v1 b1"
    by (auto simp: displays_def list_all2_Cons2)
  have "new_views json emoNames bases (map fighter_emo b) = Inr v"
    if "list_all2 (\<lambda>v f. new_view json emoNames bases (fighter_emo f) = Inr v) v b" for v b
    using that by (simp add: new_views_iff list_all2_conv_all_nth)
  with v that show ?thesis by blast
qed

text \<open>A march of two boards of the match and the display of its logs.\<close>

lemma display_of_march:
  assumes m: "march_pvg (rust_march rand depth next_id) board ghost_board seed (bs_codec bases) = Inr (g0, g1, logs)"
    and len: "length board \<le> boardSize" "length ghost_board \<le> boardSize"
    and bases: "bases_ok (bs_codec bases)" "sturdy_bases (bs_codec bases)"
    and sturdy: "list_all (\<lambda>e. sturdy (be_attributes e)) board" "list_all (\<lambda>e. sturdy (be_attributes e)) ghost_board"
  shows "\<exists>b0 b1. shown_as json emoNames bases (show_battle json emoNames bases board ghost_board logs) [b0, b1] \<and>
    (b0 = [] \<or> b1 = []) \<and> length b0 \<le> boardSize \<and> length b1 \<le> boardSize \<and>
    sum_grades b0 (bs_codec bases) = Inr g0 \<and> sum_grades b1 (bs_codec bases) = Inr g1"
proof -
  from m obtain emos0 emos1 s where e: "build_battle_emos board (bs_codec bases) = Inr emos0"
    "build_battle_emos ghost_board (bs_codec bases) = Inr emos1"
    and s: "march_boards rand depth next_id emos0 emos1 seed (bs_codec bases) = Inr (g0, g1, s)" and logs: "logs = ba_logs s"
    by (auto simp: march_pvg_def bindE_eq_Inr_iff rust_march_def mapR_eq_Inr_iff)
  let ?s = "march_start rand next_id emos0 emos1 seed"
  have runs: "battle_runs (bs_codec bases) ?s s" by (rule march_boards_ends(1) [OF s])
  have "two_boards s"
    by (rule runs_two_boards [OF runs march_start_two_boards])
      (use len e in \<open>simp_all add: build_battle_emos_def mapE_length boardSize_def\<close>)
  then obtain b0 b1 where b: "ba_boards s = [b0, b1]" "b0 = [] \<or> b1 = []" "length b0 \<le> 7" "length b1 \<le> 7"
    "sum_grades b0 (bs_codec bases) = Inr g0" "sum_grades b1 (bs_codec bases) = Inr g1"
    by (rule finished_grades [OF march_boards_ends(2) [OF s]])
  note same = built_emos [OF bases(1) e(1), of next_id]
    built_emos [OF bases(1) e(2), of "next_id + word_of_nat (length emos0)"]
  have "shown_as json emoNames bases (show_battle json emoNames bases board ghost_board logs) [b0, b1]"
  proof (cases "\<exists>v0 v1. new_views json emoNames bases board = Inr v0 \<and> new_views json emoNames bases ghost_board = Inr v1")
    case True
    then obtain v0 v1 where v: "new_views json emoNames bases board = Inr v0"
      "new_views json emoNames bases ghost_board = Inr v1" by blast
    have "in_view json emoNames bases [v0, v1] ?s"
      using views_of_fighters [OF v(1) same(1)] views_of_fighters [OF v(2) same(2)]
        sturdy_fighters [OF same(1) sturdy(1)] sturdy_fighters [OF same(2) sturdy(2)]
      by (simp add: in_view_def march_start_def sturdy_boards_def displays_def)
    from runs_in_view [OF runs bases(2) this] show ?thesis
      by (simp add: in_view_def b(1) show_battle_def v logs)
  next
    case False
    then show ?thesis
      using new_views_unshowable
      by (cases "new_views json emoNames bases board"; cases "new_views json emoNames bases ghost_board")
        (auto simp: show_battle_def)
  qed
  with b show ?thesis by (auto simp: boardSize_def)
qed

text \<open>The list of the lowest attacks as a set, and when it holds each once.\<close>

lemma hd_lowest:
  assumes "as \<noteq> []"
  shows "hd (lowest_indexes as) = 0 \<longleftrightarrow> as ! 0 = Min (set as)"
proof -
  obtain n where "length as = Suc n" using assms by (cases as) auto
  then have "lowest_indexes as = (if as ! 0 = Min (set as) then [0] else []) @
      filter (\<lambda>i. as ! i = Min (set as)) [1..<length as]"
    by (simp add: lowest_indexes_def upt_conv_Cons del: upt_Suc)
  moreover have "hd xs \<noteq> 0" if "xs = filter (\<lambda>i. as ! i = Min (set as)) [1..<length as]" "xs \<noteq> []" for xs
    using hd_in_set [OF that(2)] unfolding that(1) by auto
  ultimately show ?thesis
    using lowest_indexes_nonempty [OF assms] by auto
qed

lemma lowest_attack_drawn:
  fixes emos :: "Fighter list"
  defines "as \<equiv> map (\<lambda>e. at_attack (bt_attributes e)) emos"
  assumes "emos \<noteq> []"
  shows "lowest_attack_emo_indexes emos = Inr (map word_of_nat (drawn_indexes as)) \<and>
    set (drawn_indexes as) = {i. i < length emos \<and> as ! i = Min (set as)} \<and>
    (drawn_indexes as = lowest_indexes as \<longleftrightarrow> as ! 0 = Min (set as))"
proof -
  have as: "as \<noteq> []" "length as = length emos" using assms by simp_all
  have "set (drawn_indexes as) = set (lowest_indexes as)"
    using hd_in_set [OF lowest_indexes_nonempty [OF as(1)]] by (auto simp: drawn_indexes_def Let_def)
  moreover have "drawn_indexes as = lowest_indexes as \<longleftrightarrow> hd (lowest_indexes as) = 0"
    by (auto simp: drawn_indexes_def Let_def)
  ultimately show ?thesis
    using lowest_attack_emo_indexes_eq [OF assms(2)] hd_lowest [OF as(1)] as(2)
    by (simp add: lowest_indexes_set as_def)
qed

section \<open>Concrete fights\<close>

text \<open>A generator that always gives the first, and an emoji with a shield that leaves another one behind.\<close>

definition first_rand :: "unit battle_rand" where
  "first_rand = \<lparr>br_seed = (\<lambda>_. ()), br_bool = (\<lambda>_. (True, ())), br_range = (\<lambda>_ _. (0, ())),
     br_choose = (\<lambda>_ xs. (hd xs, ())), br_choose_multiple = (\<lambda>_ n xs. (take n xs, ())),
     br_shuffle = (\<lambda>_ xs. (xs, ()))\<rparr>"

definition as_oneself :: "emo_ability_battle_GeneralAsOneselfTrigger \<Rightarrow> emo_ability_battle_NormalAction \<Rightarrow>
  emo_ability_Ability" where
  "as_oneself trigger action =
     Ability_Battle (Battle_General (General_AsOneself (emo_ability_battle_General_AsOneself trigger action)))"

definition fight_emo :: "u16 \<Rightarrow> u16 \<Rightarrow> emo_ability_Ability list \<Rightarrow> mtc_BoardEmo" where
  "fight_emo attack' health abilities = \<lparr>be_base_id = 4, be_attributes = \<lparr>at_attack = attack', at_health = health,
     at_abilities = abilities, at_is_triple = False\<rparr>, be_mtc_emo_ids = []\<rparr>"

definition fight_board :: mtc_Board where
  "fight_board = [fight_emo 2 3 [Ability_Battle (Battle_Special Special_Shield),
     as_oneself GeneralAsOneselfTrigger_Retire (BattleNormalAction_SetEmo
       (emo_ability_battle_NormalAction_SetEmo Side_Ally 5))]]"

definition fight_ghost :: mtc_GhostBoard where
  "fight_ghost = map mtc_GhostBoardEmo.truncate [fight_emo 2 3 []]"

definition fight :: "(u8 \<times> u8 \<times> mtc_battle_Logs) js" where
  "fight = march_pvg (rust_march first_rand 8 0) fight_board fight_ghost 5 (bs_codec sample_bases)"

text \<open>What \<open>code_simp\<close> evaluates is a call only when its argument has succeeded.\<close>

declare bindE_def [code_unfold]

lemma sample_bases_sturdy: "sturdy_bases (bs_codec sample_bases)"
proof -
  have bases: "list_all (\<lambda>(i, b). eb_attack b \<noteq> 0 \<and> eb_health b \<noteq> 0 \<and> specials_once (eb_abilities b)) (bs_codec sample_bases)"
    by code_simp
  then show ?thesis
    by (auto simp: sturdy_bases_def find_base_def list_all_iff dest!: map_of_SomeD split: option.splits)
qed

text \<open>Three emojis of which the last two have the lowest attack, and two without abilities.\<close>

definition fight_fighters :: "Fighter list" where
  "fight_fighters = with_battle_ids
     (case build_battle_emos [fight_emo 3 3 [], fight_emo 2 3 [], fight_emo 2 1 []] (bs_codec sample_bases) of
        Inr emos \<Rightarrow> emos | Inl _ \<Rightarrow> []) 0"

definition plain_emos :: "u16 \<Rightarrow> u16 \<Rightarrow> BattleEmo list" where
  "plain_emos attack' health =
     (let e = \<lparr>bt_base_id = 4, bt_typ = Typ_Nature, bt_attributes = \<lparr>at_attack = attack', at_health = health,
        at_abilities = [], at_is_triple = False\<rparr>, bt_attack_and_survived_count = 0\<rparr>
      in [e, e])"

lemma first_rand_range: "range_ok first_rand"
  by (simp add: range_ok_def first_rand_def word_gt_0)

text \<open>
  The abilities of a board are collected with their indexes before the first of them runs. Here the
  first emoji retires the second with its damage, and the ability of the second looks for the emoji at an
  index that no longer exists.
\<close>

lemma collected_index_is_stale:
  "march_pvg (rust_march first_rand 8 0)
     [fight_emo 2 3 [as_oneself GeneralAsOneselfTrigger_Pre (BattleNormalAction_DamageAll
        (emo_ability_battle_NormalAction_DamageAll Side_Ally 1))],
      fight_emo 2 1 [as_oneself GeneralAsOneselfTrigger_Pre (BattleNormalAction_DamageAll
        (emo_ability_battle_NormalAction_DamageAll Side_Ally 1))]]
     fight_ghost 5 (bs_codec sample_bases) = throwError ''emo not found: 1''"
  by code_simp

section \<open>What a fight leaves\<close>

text \<open>
  C5 (invariant). A march of two boards of at most seven emojis, over bases of a grade of six at most,
  leaves grades on one side at most, and no more than a board of the highest grade has, whatever the
  abilities do and however the random numbers fall: the promise the battles of a turn rely on.
\<close>

theorem march_keeps_its_promise: "march_fair (rust_march rand depth next_id)"
  by (rule rust_march_fair)



section \<open>When it returns\<close>

text \<open>
  C21 (liveness). A fight of emojis without abilities returns: when every attack is positive, every base
  is known and the health of both boards, with one for each emoji, is within the 255 ticks a march has,
  a board is empty in time, whoever is attacked.
\<close>

theorem plain_march_returns:
  assumes "length emos0 \<le> 7" "length emos1 \<le> 7" "range_ok rand" "board_bulk emos0 + board_bulk emos1 \<le> 255"
    and "list_all (\<lambda>e. plain e \<and> at_attack (bt_attributes e) \<noteq> 0 \<and> \<not> isl (find_base bases (bt_base_id e)))
      (emos0 @ emos1)"
  shows "\<exists>g0 g1 logs. rust_march rand depth next_id emos0 emos1 seed bases = Inr (g0, g1, logs)"
  using plain_march [OF assms, of depth next_id seed] by auto

theorem plain_march_returns_witness:
  "\<exists>g0 g1 logs. rust_march first_rand 8 0 (plain_emos 2 3) (plain_emos 1 4) 5 (bs_codec sample_bases) = Inr (g0, g1, logs)"
proof (rule plain_march_returns [OF _ _ first_rand_range])
  show "length (plain_emos 2 3) \<le> 7" "length (plain_emos 1 4) \<le> 7"
    "board_bulk (plain_emos 2 3) + board_bulk (plain_emos 1 4) \<le> 255"
    by (simp_all add: plain_emos_def Let_def)
  show "list_all (\<lambda>e. plain e \<and> at_attack (bt_attributes e) \<noteq> 0 \<and>
      \<not> isl (find_base (bs_codec sample_bases) (bt_base_id e))) (plain_emos 2 3 @ plain_emos 1 4)"
    by code_simp
qed



text \<open>
  C29 (functional). An emoji that attacks the lowest attack draws from a list that holds exactly the
  emojis with the lowest attack, but the first of them twice, unless it is the first of the board: of two
  such emojis behind another the left one is attacked twice as often.
\<close>

theorem lowest_attack_is_drawn:
  assumes "emos \<noteq> []"
  shows "let attacks = map (\<lambda>e. at_attack (bt_attributes e)) emos in
    lowest_attack_emo_indexes emos = Inr (map word_of_nat (drawn_indexes attacks)) \<and>
    set (drawn_indexes attacks) = {i. i < length emos \<and> attacks ! i = Min (set attacks)} \<and>
    (drawn_indexes attacks = lowest_indexes attacks \<longleftrightarrow> attacks ! 0 = Min (set attacks))"
  unfolding Let_def using assms by (rule lowest_attack_drawn)

theorem lowest_attack_is_drawn_witness:
  "lowest_attack_emo_indexes fight_fighters = Inr [1, 1, 2]"
proof -
  have f: "fight_fighters \<noteq> []" "map (\<lambda>e. at_attack (bt_attributes e)) fight_fighters = [3, 2, 2]" by code_simp+
  have "drawn_indexes [3, 2, 2 :: u16] = [1, 1, 2]" by code_simp
  then show ?thesis using lowest_attack_is_drawn [OF f(1)] unfolding f(2) by (simp add: Let_def)
qed

end
