(* ===== verification/BattleScreen.thy ===== *)
theory BattleScreen
  imports BattleAnimation ShopScreen
begin

text \<open>
  The screens of a battle and of the result, in \<open>front/src/components/common/\<close>:
  \<open>MtcBattleBoards/index.tsx\<close>, \<open>Mtc/Battle/index.tsx\<close> with its \<open>tasks.ts\<close>, and \<open>Mtc/Result.tsx\<close>. The
  boxes of the players are elements; a text beside other children is an element of its own here, of
  the name \<open>#text\<close>. The identicon of an address is a picture a library draws.
\<close>

section \<open>The boxes of the players (Battle/index.tsx)\<close>

definition text_node :: "string \<Rightarrow> node" where "text_node t = Node ''#text'' [] [] t []"

definition Identicon :: "string \<Rightarrow> node" where "Identicon address = Node ''IDENTICON'' [] [] address []"

text \<open>
  The element with the id \<open>mtc-battle-player-box\<close>, or \<open>mtc-battle-rival-box\<close>, with the styles of the
  box and of the grade, and the classes of the health.
\<close>

definition box_dom ::
  "(string, string) jsmap \<Rightarrow> string \<Rightarrow> string \<Rightarrow> string list \<Rightarrow> string \<Rightarrow> (string, string) jsmap \<Rightarrow>
   string \<Rightarrow> node" where
  "box_dom style address title healthClasses health gradeStyle gradeText =
     Node ''DIV'' [''player-icon-and-text-box''] style ''''
      [Node ''DIV'' [''player-icon-and-text-box-main''] [] ''''
        [Node ''DIV'' [] [] '''' [Identicon address],
         Node ''DIV'' [] [] ''''
          [Node ''STRONG'' [] [] title [],
           Node ''BR'' [] [] '''' [],
           text_node ''Health '',
           Node ''STRONG'' healthClasses [] health [],
           text_node '', Grade '',
           Node ''SPAN'' [''mtc-battle-player-box-grade''] gradeStyle gradeText []]]]"

definition PlayerBox :: "string \<Rightarrow> string option \<Rightarrow> nat \<Rightarrow> string \<Rightarrow> node js" where
  "PlayerBox address name health grade =
     mapR (box_dom [] address (case name of Some n \<Rightarrow> n | None \<Rightarrow> getShortAddress address)
            [''mtc-battle-player-box-health''] (show_nat health) [])
       (getGradeText grade)"

record Battle_view =
  bv_rival :: mtc_GradeAndGhostBoard
  bv_rivalHealth :: nat
  bv_rivalBox :: node
  bv_playerBox :: node

definition Battle_screen :: "string \<Rightarrow> MtcState \<Rightarrow> Battle_view js" where
  "Battle_screen playerAddress s =
     (let i = ms_battleGhostIndex s in
      bindE (orTypeError (js_at (ms_ghosts s) i)) (\<lambda>ghost.
      bindE (orTypeError (js_at (ms_ghostStates s) i)) (\<lambda>state.
      bindE (getGradeAndGhostBoard (gh_history ghost) state (ms_turn s)) (\<lambda>rival.
      bindE (orTypeError (js_at (ms_ghostAddresses s) i)) (\<lambda>rivalAddress.
        let rivalHealth = getHealthFromState state in
        bindE (PlayerBox rivalAddress None rivalHealth (toStringU (gg_grade rival))) (\<lambda>rivalBox.
        mapR (\<lambda>playerBox. \<lparr>bv_rival = rival, bv_rivalHealth = rivalHealth, bv_rivalBox = rivalBox,
            bv_playerBox = playerBox\<rparr>)
          (PlayerBox playerAddress (Some ''You'') (ms_health s) (show_nat (ms_grade s)))))))))"

section \<open>The end of a battle (Battle/tasks.ts)\<close>

text \<open>A style for every element of a class under an element.\<close>

fun style_class :: "string \<Rightarrow> string \<Rightarrow> string \<Rightarrow> node \<Rightarrow> node" where
  "style_class cl k v (Node t c s x ch) =
     Node t c (if cl \<in> set c then jsmap_set s k v else s) x (map (style_class cl k v) ch)"

definition scale_box :: "string \<Rightarrow> node \<Rightarrow> node" where
  "scale_box s = animateIndefinitely [(''transform'', [s])]"

text \<open>
  The box of the side that won and that of the side that lost. The element that shows the damage
  is removed at the end, and the animations that leave nothing behind are left out.
\<close>

definition animateBox :: "nat \<Rightarrow> nat \<Rightarrow> nat \<Rightarrow> node \<times> node \<Rightarrow> node \<times> node" where
  "animateBox wonSideGrade wonSideBoardGrade lostSideHealth boxes =
     (let (won, lost) = boxes;
          damage = wonSideBoardGrade + wonSideGrade;
          won = scale_box ''scale(1.1)'' won;
          lost = scale_box ''scale(1.1)'' lost
      in case first_match (has_class ''mtc-battle-player-box-grade'') won of
        None \<Rightarrow> (won, lost)
      | Some p \<Rightarrow>
          let won = set_style ''zIndex'' ''1'' (update_at p (set_style ''color'' ''yellow'') won);
              lost =
                (case first_match (has_class ''mtc-battle-player-box-health'') lost of
                   None \<Rightarrow> lost
                 | Some q \<Rightarrow>
                     update_at q (\<lambda>e. classList_add ''oeb-negative''
                         (set_text (show_int (int lostSideHealth - int damage)) e)) lost)
          in (scale_box ''scale(1)'' won, scale_box ''scale(1)'' lost))"

text \<open>What the screen of a battle holds: the two boards, the player's box and the rival's.\<close>

type_synonym battle_dom = "boards \<times> node \<times> node"

definition animateFinish ::
  "nat \<Rightarrow> nat \<Rightarrow> nat \<Rightarrow> nat \<Rightarrow> nat \<Rightarrow> nat \<Rightarrow> battle_dom \<Rightarrow> battle_dom" where
  "animateFinish playerGrade rivalGrade playerBoardGrade rivalBoardGrade playerHealth rivalHealth screen =
     (let (boards, player, rival) = screen;
          boards = map (style_class ''emo-body-inner-grade'' ''color'' ''yellow'') boards
      in if playerBoardGrade \<noteq> 0
         then let (player, rival) = animateBox playerGrade playerBoardGrade rivalHealth (player, rival)
              in (boards, player, rival)
         else if rivalBoardGrade \<noteq> 0
         then let (rival, player) = animateBox rivalGrade rivalBoardGrade playerHealth (rival, player)
              in (boards, player, rival)
         else (boards, player, rival))"

section \<open>The boards of a battle (MtcBattleBoards/index.tsx)\<close>

definition play ::
  "to_json \<Rightarrow> names \<Rightarrow> march \<Rightarrow> EmoBases \<Rightarrow> mtc_Board \<Rightarrow> mtc_GhostBoard \<Rightarrow> string \<Rightarrow> node \<Rightarrow> node \<Rightarrow>
   (nat \<times> nat \<times> boards) js" where
  "play json emoNames march bases board ghostBoard seed playerBoard rivalBoard =
     bindE (marchPvg march board ghostBoard seed bases) (\<lambda>(boardGrade, ghostBoardGrade, logs).
       mapR (\<lambda>boards. (boardGrade, ghostBoardGrade, boards))
         (animate json emoNames bases playerBoard rivalBoard board ghostBoard logs))"

text \<open>The battle as it is shown: the render, the march and its animation, and the end.\<close>

definition show_battle_screen ::
  "to_json \<Rightarrow> names \<Rightarrow> march \<Rightarrow> EmoBases \<Rightarrow> string \<Rightarrow> MtcState \<Rightarrow> node \<Rightarrow> node \<Rightarrow> battle_dom js" where
  "show_battle_screen json emoNames march bases playerAddress s playerBoard rivalBoard =
     bindE (Battle_screen playerAddress s) (\<lambda>v.
     mapR (\<lambda>(boardGrade, ghostBoardGrade, boards).
         animateFinish (ms_grade s) (toNumber (gg_grade (bv_rival v))) boardGrade ghostBoardGrade
           (ms_health s) (bv_rivalHealth v) (boards, bv_playerBox v, bv_rivalBox v))
       (play json emoNames march bases (ms_board s) (gg_board (bv_rival v)) (ms_seed s) playerBoard
         rivalBoard))"

section \<open>The result (Result.tsx)\<close>

record ResultState =
  re_place :: nat
  re_ep :: nat

definition getRankingString :: "nat \<Rightarrow> string js" where
  "getRankingString n =
     (if n = 1 then Inr ''1st Place!!'' else if n = 2 then Inr ''2nd Place!''
      else if n = 3 then Inr ''3rd Place'' else if n = 4 then Inr ''4th Place''
      else throwError ''not implemented'')"

definition Ranking :: "nat \<Rightarrow> (string \<times> string) js" where
  "Ranking place =
     (let cssClass = (if place = 1 then ''first-place-text''
                      else if place = 2 then ''second-place-text'' else '''')
      in mapR (Pair cssClass) (getRankingString place))"

definition Ep :: "nat \<Rightarrow> nat \<Rightarrow> string \<times> string" where
  "Ep previousEp newEp =
     (if newEp \<ge> previousEp then ''+'' @ show_nat (newEp - previousEp)
      else ''-'' @ show_nat (previousEp - newEp), show_nat newEp)"

record Result_view =
  rw_ranking :: "string \<times> string"
  rw_ep :: "string \<times> string"
  rw_emos :: "Emo_props list"

definition Result :: "EmoBases \<Rightarrow> MtcState \<Rightarrow> ResultState \<Rightarrow> Result_view js" where
  "Result emoBases mtcState resultState =
     bindE (Ranking (re_place resultState)) (\<lambda>ranking.
     mapR (\<lambda>emos. \<lparr>rw_ranking = ranking, rw_ep = Ep (ms_previousEp mtcState) (re_ep resultState),
         rw_emos = emos\<rparr>)
       (mapE (\<lambda>e.
           bindE (findEmoBase (be_base_id e) emoBases) (\<lambda>base.
           mapR (\<lambda>emoji. \<lparr>pr_emoji = emoji, pr_typ = eb_typ base, pr_grade = toStringU (eb_grade base),
               pr_attributes = be_attributes e, pr_isInactive = False\<rparr>)
             (getEmoBaseEmoji base)))
         (ms_board mtcState)))"

section \<open>What the boxes show at the end\<close>

definition box_health :: "node \<Rightarrow> string option" where
  "box_health box =
     (case first_match (has_class ''mtc-battle-player-box-health'') box of
        None \<Rightarrow> None
      | Some p \<Rightarrow> map_option textContent (node_at box p))"

lemma box_parts [simp]:
  "first_match (has_class ''mtc-battle-player-box-grade'')
     (box_dom st a t (''mtc-battle-player-box-health'' # cls) h gst g) =
   (if ''mtc-battle-player-box-grade'' \<in> set cls then Some [0, Suc 0, 3] else Some [0, Suc 0, 5])"
  "first_match (has_class ''mtc-battle-player-box-health'')
     (box_dom st a t (''mtc-battle-player-box-health'' # cls) h gst g) = Some [0, Suc 0, 3]"
  by (auto simp: box_dom_def has_class_def text_node_def Identicon_def)

lemma box_health_dom [simp]: "box_health (box_dom st a t (''mtc-battle-player-box-health'' # cls) h gst g) = Some h"
  by (simp add: box_health_def) (simp add: box_dom_def js_at_def numeral_eq_Suc)

lemma box_updates [simp]:
  "set_style k v (box_dom st a t cls h gst g) = box_dom (jsmap_set st k v) a t cls h gst g"
  "update_at [0, Suc 0, 5] (set_style k v) (box_dom st a t cls h gst g) =
     box_dom st a t cls h (jsmap_set gst k v) g"
  "update_at [0, Suc 0, 3] (\<lambda>e. classList_add cl (set_text x e)) (box_dom st a t cls h gst g) =
     box_dom st a t (if cl \<in> set cls then cls else cls @ [cl]) x gst g"
  by (simp_all add: box_dom_def numeral_eq_Suc)

lemma scale_box_dom [simp]:
  "scale_box s (box_dom st a t cls h gst g) = box_dom (jsmap_set st ''transform'' s) a t cls h gst g"
  by (simp add: scale_box_def animateIndefinitely_def)

text \<open>The health the animation of the end leaves in the boxes, the winner's first.\<close>

lemma animateBox_health:
  assumes "PlayerBox a n hw gw = Inr won" "PlayerBox a' n' hl gl = Inr lost"
    and "animateBox grade boardGrade health (won, lost) = (won', lost')"
  shows "box_health won' = Some (show_nat hw)"
    "box_health lost' = Some (show_int (int health - int (boardGrade + grade)))"
  using assms by (auto simp: PlayerBox_def mapR_eq_Inr_iff animateBox_def simp del: update_at.simps)

lemma PlayerBox_health: "PlayerBox a n h g = Inr box \<Longrightarrow> box_health box = Some (show_nat h)"
  by (auto simp: PlayerBox_def mapR_eq_Inr_iff)

end
