(* ===== verification/Connection.thy ===== *)
theory Connection
  imports MtcUtils
begin

text \<open>
  Transactions, accounts and connections: \<open>common/js/src/api.ts\<close> and \<open>contract.ts\<close>,
  \<open>front/src/components/App/ConnectionProvider/\<close> (\<open>tasks.ts\<close>, \<open>Chain/tasks.ts\<close> and the transactions
  of \<open>Contract/tasks.ts\<close>) and \<open>front/src/misc/accountUtils.ts\<close>. polkadot-js, its extension and the
  nodes are parameters: what they answer is an argument. A promise that is awaited is its result,
  and a rejection an error; the calls of a \<open>Promise.all\<close> are taken in their order.
\<close>

section \<open>Transactions (common/js/src/api.ts)\<close>

record meta_error =
  er_docs :: "string list"
  er_index :: nat
  er_name :: string
  er_section :: string

datatype dispatch_error = Module_error nat | Other_error string

definition join_with :: "string \<Rightarrow> string list \<Rightarrow> string" where
  "join_with sep xs = (case xs of [] \<Rightarrow> '''' | x # ys \<Rightarrow> x @ concat (map (\<lambda>y. sep @ y) ys))"

definition buildErrorText :: "(nat \<Rightarrow> meta_error) \<Rightarrow> dispatch_error \<Rightarrow> string" where
  "buildErrorText findMetaError dispatchError =
     (case dispatchError of
        Module_error m \<Rightarrow>
          let e = findMetaError m in
          er_section e @ ''.'' @ er_name e @ '': ('' @ show_nat (er_index e) @ '') '' @
          join_with '' '' (er_docs e)
      | Other_error t \<Rightarrow> t)"

text \<open>
  A result reported for a sent extrinsic. \<open>rs_sudid\<close> is the record \<open>sudo.Sudid\<close>, if there is one,
  with its error, if it has one.
\<close>

record tx_result =
  rs_isCompleted :: bool
  rs_isError :: bool
  rs_isSuccess :: bool
  rs_sudid :: "dispatch_error option option"
  rs_dispatchError :: "dispatch_error option"

text \<open>What the callback makes of a completed result; an \<open>Error\<close> in a template is its name and message.\<close>

definition completed_result :: "(nat \<Rightarrow> meta_error) \<Rightarrow> tx_result \<Rightarrow> tx_result js" where
  "completed_result findMetaError result =
     (if rs_isError result then throwError ''result.isError''
      else if rs_isSuccess result then
        (case rs_sudid result of
           Some (Some e) \<Rightarrow> throwError (''sudo: '' @ buildErrorText findMetaError e)
         | _ \<Rightarrow> Inr result)
      else case rs_dispatchError result of
        Some e \<Rightarrow> throwError (buildErrorText findMetaError e)
      | None \<Rightarrow> throwError ''unknown state'')"

definition error_text :: "js_error \<Rightarrow> string" where
  "error_text e = (case e of JsError m \<Rightarrow> ''Error: '' @ m | JsTypeError \<Rightarrow> ''TypeError''
     | JsRangeError \<Rightarrow> ''RangeError'' | WasmTrap \<Rightarrow> ''RuntimeError: unreachable'')"

text \<open>
  The results in the order they are reported; the promise is settled by the first that is completed,
  and stays pending (\<open>None\<close>) as long as there is none.
\<close>

fun settle :: "(nat \<Rightarrow> meta_error) \<Rightarrow> tx_result list \<Rightarrow> (string + tx_result) option" where
  "settle findMetaError [] = None"
| "settle findMetaError (result # results) =
     (if \<not> rs_isCompleted result then settle findMetaError results
      else Some (case completed_result findMetaError result of
          Inl e \<Rightarrow> Inl (''tx error: '' @ error_text e)
        | Inr r \<Rightarrow> Inr r))"

definition override :: "'signer signer_options \<Rightarrow> 'signer signer_options \<Rightarrow> 'signer signer_options" where
  "override options overrideOptions =
     \<lparr>so_signer = (case so_signer overrideOptions of None \<Rightarrow> so_signer options | s \<Rightarrow> s),
      so_tip = (case so_tip overrideOptions of None \<Rightarrow> so_tip options | t \<Rightarrow> t)\<rparr>"

text \<open>
  \<open>signAndSend\<close> is polkadot-js: it rejects with a reason, or sends and reports results.
\<close>

definition tx ::
  "(nat \<Rightarrow> meta_error) \<Rightarrow> ('pair + string \<Rightarrow> 'signer signer_options \<Rightarrow> string + tx_result list) \<Rightarrow>
   ('pair, 'signer) account_arg \<Rightarrow> nat option \<Rightarrow> 'signer signer_options \<Rightarrow> (string + tx_result) option" where
  "tx findMetaError signAndSend account powSolution overrideOptions =
     (let (pairOrAddress, options) = extractTxArgs account powSolution in
      case signAndSend pairOrAddress (override options overrideOptions) of
        Inl r \<Rightarrow> Some (Inl (''tx failed: '' @ r))
      | Inr results \<Rightarrow> settle findMetaError results)"

section \<open>The contract (common/js/src/contract.ts)\<close>

record query_result =
  qr_result :: "dispatch_error + unit"
  qr_output :: "u8 list option"

text \<open>The functions of a contract, by name: its queries and its messages.\<close>

definition queryContract ::
  "(nat \<Rightarrow> meta_error) \<Rightarrow> (string \<rightharpoonup> 'arg list \<Rightarrow> query_result) \<Rightarrow> string \<Rightarrow> 'arg list \<Rightarrow> u8 list js" where
  "queryContract findMetaError contract_query fnName fnArgs =
     (case contract_query fnName of
        None \<Rightarrow> throwError (''query fn not found: '' @ fnName)
      | Some f \<Rightarrow>
          let r = f fnArgs in
          case qr_result r of
            Inl e \<Rightarrow> throwError
              (''query error: '' @ fnName @ '', error: '' @ buildErrorText findMetaError e)
          | Inr _ \<Rightarrow>
              (case qr_output r of
                 None \<Rightarrow> throwError (''query output null: '' @ fnName @ ''}'')
               | Some output \<Rightarrow> Inr output))"

definition txContract ::
  "(nat \<Rightarrow> meta_error) \<Rightarrow>
   (string \<rightharpoonup> 'arg list \<Rightarrow> 'pair + string \<Rightarrow> 'signer signer_options \<Rightarrow> string + tx_result list) \<Rightarrow>
   string \<Rightarrow> 'arg list \<Rightarrow> ('pair, 'signer) account_arg \<Rightarrow> 'signer signer_options \<Rightarrow>
   js_error + (string + tx_result) option" where
  "txContract findMetaError contract_tx fnName fnArgs account overrideOptions =
     (case contract_tx fnName of
        None \<Rightarrow> throwError (''tx fn not found: '' @ fnName)
      | Some f \<Rightarrow>
          Inr (tx findMetaError (f fnArgs) account None
            (override \<lparr>so_signer = None, so_tip = Some 1\<rparr> overrideOptions)))"

section \<open>Accounts and connections (ConnectionProvider/tasks.ts)\<close>

datatype ConnectionKind = Kind_chain | Kind_contract

record 'signer AccountChainPlayer =
  ap_address :: string
  ap_powCount :: nat
  ap_signer :: 'signer

record AccountChainSession =
  as_address :: string
  as_mnemonic :: string
  as_powCount :: nat
  as_isActive :: bool

datatype 'signer Account =
  Account_chain string "'signer AccountChainPlayer" AccountChainSession
| Account_contract string 'signer

fun account_kind :: "'signer Account \<Rightarrow> ConnectionKind" where
  "account_kind (Account_chain _ _ _) = Kind_chain"
| "account_kind (Account_contract _ _) = Kind_contract"

fun account_address :: "'signer Account \<Rightarrow> string" where
  "account_address (Account_chain a _ _) = a"
| "account_address (Account_contract a _) = a"

text \<open>
  What a connection answers at one time: the queries, and what becomes of a transaction. An account id
  stands for its text.
\<close>

record 'signer Connection =
  cn_kind :: ConnectionKind
  cn_deckFixedEmoBaseIds :: "u16 list js"
  cn_deckBuiltEmoBaseIds :: "u16 list js"
  cn_matchmakingGhostsInfo :: "nat \<Rightarrow> (nat \<times> string) list option js"
  cn_matchmakingGhostByIndex :: "nat \<Rightarrow> nat \<Rightarrow> mtc_Ghost option js"
  cn_leaderboard :: "(u16 \<times> string) list js"
  cn_playerEp :: "string \<Rightarrow> u16 option js"
  cn_playerSeed :: "string \<Rightarrow> u64 option js"
  cn_playerMtcImmutable :: "string \<Rightarrow> (mtc_Emo list \<times> (string \<times> mtc_Ghost) list) js"
  cn_playerMtcMutable :: "string \<Rightarrow> mtc_storage_PlayerMutable option js"
  cn_startMtc :: "string list \<Rightarrow> 'signer Account \<Rightarrow> nat option \<Rightarrow> unit js"
  cn_finishMtcShop :: "mtc_shop_PlayerOperation list \<Rightarrow> 'signer Account \<Rightarrow> nat option \<Rightarrow> unit js"
  cn_emoBases :: EmoBases
  cn_transformAddress :: "string \<Rightarrow> string"

section \<open>The connection to the chain (Chain/tasks.ts)\<close>

definition endpointStorageKey :: string where "endpointStorageKey = ''endpointV5''"

definition getEndpoint :: "(string \<rightharpoonup> string) \<Rightarrow> string \<Rightarrow> string" where
  "getEndpoint localStorage chainEndpoint =
     (case localStorage endpointStorageKey of
        Some endpoint \<Rightarrow> if endpoint \<noteq> '''' then endpoint else chainEndpoint
      | None \<Rightarrow> chainEndpoint)"

definition setEndpoint :: "string \<Rightarrow> (string \<rightharpoonup> string) \<Rightarrow> (string \<rightharpoonup> string)" where
  "setEndpoint endpoint localStorage = localStorage(endpointStorageKey \<mapsto> endpoint)"

text \<open>The calls the chain is sent.\<close>

datatype chain_call =
  Call_startMtcBySession "u16 list"
| Call_startMtc string "u16 list"
| Call_finishMtcShop "mtc_shop_PlayerOperation list"

text \<open>The storage the queries read, and \<open>tx\<close> for a call, with mnemonics for the pairs they make.\<close>

record 'signer chain_api =
  ca_emoBases :: "emo_Bases option"
  ca_deckFixedEmoBaseIds :: "u16 list option"
  ca_deckBuiltEmoBaseIds :: "u16 list option"
  ca_playerEp :: "string \<Rightarrow> u16 option"
  ca_playerSeed :: "string \<Rightarrow> u64 option"
  ca_tx :: "chain_call \<Rightarrow> (string, 'signer) account_arg \<Rightarrow> nat option \<Rightarrow> unit js"
  ca_encodeAddress :: "string \<Rightarrow> string"

text \<open>\<open>createType("Vec<u16>", ids)\<close> of ids as texts.\<close>

definition deck_codec :: "string list \<Rightarrow> u16 list js" where
  "deck_codec ids = mapE (\<lambda>s. case parseInt10 s of None \<Rightarrow> Inl JsTypeError | Some n \<Rightarrow> Inr (word_of_nat n)) ids"

definition chain_startMtc ::
  "'signer chain_api \<Rightarrow> string list \<Rightarrow> 'signer Account \<Rightarrow> nat option \<Rightarrow> unit js" where
  "chain_startMtc api deckEmoBaseIds account powSolution =
     (case account of
        Account_contract _ _ \<Rightarrow> throwError ''invalid connection kind''
      | Account_chain _ player session \<Rightarrow>
          bindE (deck_codec deckEmoBaseIds) (\<lambda>deck.
            if as_isActive session
            then ca_tx api (Call_startMtcBySession deck) (KeyringPair (as_mnemonic session)) powSolution
            else ca_tx api (Call_startMtc (as_address session) deck)
                   (AddressAndSigner (ap_address player) (ap_signer player)) powSolution))"

definition chain_finishMtcShop ::
  "'signer chain_api \<Rightarrow> mtc_shop_PlayerOperation list \<Rightarrow> 'signer Account \<Rightarrow> nat option \<Rightarrow> unit js" where
  "chain_finishMtcShop api ops account powSolution =
     (case account of
        Account_contract _ _ \<Rightarrow> throwError ''invalid connection kind''
      | Account_chain _ player session \<Rightarrow>
          ca_tx api (Call_finishMtcShop ops) (KeyringPair (as_mnemonic session)) powSolution)"

definition buildConnection :: "'signer chain_api \<Rightarrow> 'signer Connection js" where
  "buildConnection api =
     mapR (\<lambda>codec.
         \<lparr>cn_kind = Kind_chain,
          cn_deckFixedEmoBaseIds = orTypeError (ca_deckFixedEmoBaseIds api),
          cn_deckBuiltEmoBaseIds = orTypeError (ca_deckBuiltEmoBaseIds api),
          cn_matchmakingGhostsInfo = (\<lambda>band. throwError ''unimplemented''),
          cn_matchmakingGhostByIndex = (\<lambda>band index. throwError ''unimplemented''),
          cn_leaderboard = throwError ''unimplemented'',
          cn_playerEp = (\<lambda>address. Inr (ca_playerEp api address)),
          cn_playerSeed = (\<lambda>address. Inr (ca_playerSeed api address)),
          cn_playerMtcImmutable = (\<lambda>address. throwError ''unimplemented''),
          cn_playerMtcMutable = (\<lambda>address. throwError ''unimplemented''),
          cn_startMtc = chain_startMtc api, cn_finishMtcShop = chain_finishMtcShop api,
          cn_emoBases = buildEmoBases codec, cn_transformAddress = ca_encodeAddress api\<rparr>)
       (orTypeError (ca_emoBases api))"

section \<open>The transactions of the contract (Contract/tasks.ts)\<close>

datatype contract_arg = Deck_arg "string list" | Ops_arg "mtc_shop_PlayerOperation list"

type_synonym 'signer contract_tx =
  "string \<Rightarrow> contract_arg list \<Rightarrow> (string, 'signer) account_arg \<Rightarrow> unit js"

definition contract_startMtc ::
  "'signer contract_tx \<Rightarrow> string list \<Rightarrow> 'signer Account \<Rightarrow> nat option \<Rightarrow> unit js" where
  "contract_startMtc send deckEmoBaseIds account powSolution =
     (case account of
        Account_chain _ _ _ \<Rightarrow> throwError ''invalid connection kind''
      | Account_contract address signer \<Rightarrow>
          send ''startMtc'' [Deck_arg deckEmoBaseIds] (AddressAndSigner address signer))"

definition contract_finishMtcShop ::
  "'signer contract_tx \<Rightarrow> mtc_shop_PlayerOperation list \<Rightarrow> 'signer Account \<Rightarrow> nat option \<Rightarrow> unit js" where
  "contract_finishMtcShop send ops account powSolution =
     (case account of
        Account_chain _ _ _ \<Rightarrow> throwError ''invalid connection kind''
      | Account_contract address signer \<Rightarrow>
          send ''finishMtcShop'' [Ops_arg ops] (AddressAndSigner address signer))"

section \<open>Accounts of the extension (accountUtils.ts)\<close>

record ExtensionAccount =
  ea_address :: string
  ea_name :: "string option"

text \<open>What the browser's extension answers: the extensions enabled, and the accounts they share.\<close>

record 'signer web3 =
  wb_extensions :: nat
  wb_accounts :: "ExtensionAccount list"
  wb_signer :: "string \<Rightarrow> 'signer js"
  wb_mnemonic :: string
  wb_pair_address :: "string \<Rightarrow> string"
  wb_powCount :: "string \<Rightarrow> nat option js"

definition buildExtensionAccounts ::
  "ExtensionAccount list \<Rightarrow> 'signer Connection \<Rightarrow> ExtensionAccount list" where
  "buildExtensionAccounts injectedAccounts connection =
     map (\<lambda>a. \<lparr>ea_address = cn_transformAddress connection (ea_address a),
         ea_name = (if ea_name a = Some '''' then None else ea_name a)\<rparr>) injectedAccounts"

text \<open>The refusals are messages for the player.\<close>

definition setupExtension :: "'signer web3 \<Rightarrow> string + ExtensionAccount list" where
  "setupExtension web3 =
     (if wb_extensions web3 = 0
      then Inl ''Please install Polkadot{.js} extension and try again.''
      else if wb_accounts web3 = []
      then Inl ''Please add at least one account on the Polkadot{.js} extension and try again.''
      else Inr (wb_accounts web3))"

definition generateAccount :: "'signer web3 \<Rightarrow> 'signer Connection \<Rightarrow> string \<Rightarrow> 'signer Account js" where
  "generateAccount web3 connection playerAddress =
     bindE (wb_signer web3 playerAddress) (\<lambda>signer.
       case cn_kind connection of
         Kind_chain \<Rightarrow>
           mapR (\<lambda>accountData. Account_chain playerAddress
               \<lparr>ap_address = playerAddress, ap_powCount = (case accountData of Some n \<Rightarrow> n | None \<Rightarrow> 0),
                ap_signer = signer\<rparr>
               \<lparr>as_address = wb_pair_address web3 (wb_mnemonic web3), as_mnemonic = wb_mnemonic web3,
                as_powCount = 0, as_isActive = False\<rparr>)
             (wb_powCount web3 playerAddress)
       | Kind_contract \<Rightarrow> Inr (Account_contract playerAddress signer))"

definition setupAccounts ::
  "'signer web3 \<Rightarrow> 'signer Connection \<Rightarrow> 'signer Account option \<Rightarrow>
   (string + 'signer Account \<times> ExtensionAccount list) js" where
  "setupAccounts web3 connection account =
     (if (case account of Some a \<Rightarrow> cn_kind connection \<noteq> account_kind a | None \<Rightarrow> False)
      then throwError ''invalid state: kinds of connection and account are different''
      else case setupExtension web3 of
        Inl message \<Rightarrow> Inr (Inl message)
      | Inr injectedAccounts \<Rightarrow>
          let extensionAccounts = buildExtensionAccounts injectedAccounts connection in
          mapR (\<lambda>newAccount. Inr (newAccount, extensionAccounts))
            (case account of
               Some a \<Rightarrow>
                 if account_address a \<in> set (map ea_address extensionAccounts) then Inr a
                 else generateAccount web3 connection (ea_address (hd extensionAccounts))
             | None \<Rightarrow> generateAccount web3 connection (ea_address (hd extensionAccounts))))"

text \<open>The click on a \<open>PowButton\<close> counts the solution it hands out.\<close>

definition count_pow :: "bool \<Rightarrow> 'signer Account \<Rightarrow> 'signer Account" where
  "count_pow isSession account =
     (case account of
        Account_chain address player session \<Rightarrow>
          if isSession
          then Account_chain address player (session\<lparr>as_powCount := as_powCount session + 1\<rparr>)
          else Account_chain address (player\<lparr>ap_powCount := ap_powCount player + 1\<rparr>) session
      | a \<Rightarrow> a)"

section \<open>Facts\<close>

text \<open>The promise is settled by the first completed result.\<close>

lemma settle_find:
  "settle findMetaError results =
     map_option (\<lambda>r. case completed_result findMetaError r of
         Inl e \<Rightarrow> Inl (''tx error: '' @ error_text e) | Inr r \<Rightarrow> Inr r)
       (find rs_isCompleted results)"
  by (induction results) auto

lemma completed_result_ok_iff:
  "completed_result findMetaError r = Inr r' \<longleftrightarrow>
   r' = r \<and> \<not> rs_isError r \<and> rs_isSuccess r \<and> (\<forall>e. rs_sudid r \<noteq> Some (Some e))"
  by (auto simp: completed_result_def split: option.splits)

lemma settle_iff:
  "settle findMetaError results = Some (Inr r) \<longleftrightarrow>
   find rs_isCompleted results = Some r \<and> \<not> rs_isError r \<and> rs_isSuccess r \<and>
   (\<forall>e. rs_sudid r \<noteq> Some (Some e))"
proof (cases "find rs_isCompleted results")
  case (Some r')
  show ?thesis
  proof (cases "completed_result findMetaError r'")
    case (Inl e)
    then show ?thesis
      using completed_result_ok_iff [of findMetaError r' r'] by (auto simp: settle_find Some)
  next
    case (Inr r'')
    then have "settle findMetaError results = Some (Inr r'')"
      by (simp add: settle_find Some)
    with Inr show ?thesis
      by (auto simp: Some completed_result_ok_iff)
  qed
qed (simp add: settle_find)

lemma setupAccounts_address:
  assumes "setupAccounts web3 connection account = Inr (Inr (a, extensionAccounts))"
  shows "account_address a \<in> ea_address ` set extensionAccounts" "account_kind a = cn_kind connection"
proof -
  have gen: "account_address a = p \<and> account_kind a = cn_kind connection"
    if "generateAccount web3 connection p = Inr a" for p
    using that
    by (cases "cn_kind connection") (auto simp: generateAccount_def bindE_eq_Inr_iff mapR_eq_Inr_iff)
  from assms have ext: "extensionAccounts \<noteq> []"
    by (auto simp: setupAccounts_def setupExtension_def buildExtensionAccounts_def mapR_eq_Inr_iff Let_def
        split: if_splits option.splits)
  have "account_address a \<in> ea_address ` set extensionAccounts \<and> account_kind a = cn_kind connection"
    using assms gen hd_in_set [OF ext]
    by (auto simp: setupAccounts_def mapR_eq_Inr_iff Let_def split: if_splits option.splits sum.splits)
  then show "account_address a \<in> ea_address ` set extensionAccounts" "account_kind a = cn_kind connection"
    by auto
qed

end
