(* ===== verification/MatchFlow.thy ===== *)
theory MatchFlow
  imports BattleScreen Connection
begin

text \<open>
  The course of a match: \<open>front/src/components/pages/Mtc/\<close> (\<open>index.tsx\<close> and \<open>tasks.ts\<close>), where the
  match is on the chain or the contract, and \<open>pages/MtcTrial/\<close>, where it is in the browser alone. A
  page is its state hooks, with the state of the shop's screen while that is mounted; a handler is a
  function of the page, and what it awaits is an argument. The two state machines follow.
\<close>

section \<open>Pages\<close>

datatype Phase = Phase_setup | Phase_shop | Phase_battle | Phase_result

text \<open>The state of the frame around a page that a match changes: \<open>App/Frame/index.tsx\<close>.\<close>

record Frame =
  fr_waiting :: bool
  fr_errorMessage :: "js_error option"
  fr_nav :: bool

record 'signer page =
  pg_phase :: "Phase option"
  pg_mtcState :: "MtcState option"
  pg_resultState :: "ResultState option"
  pg_account :: "'signer Account option"
  pg_frame :: Frame
  pg_shop :: "(mtc_shop_Catalog \<times> screen) option"

definition setWaiting :: "bool \<Rightarrow> 'signer page \<Rightarrow> 'signer page" where
  "setWaiting b p = p\<lparr>pg_frame := (pg_frame p)\<lparr>fr_waiting := b\<rparr>\<rparr>"

definition setErrorModalMessage :: "js_error \<Rightarrow> 'signer page \<Rightarrow> 'signer page" where
  "setErrorModalMessage e p = p\<lparr>pg_frame := (pg_frame p)\<lparr>fr_errorMessage := Some e\<rparr>\<rparr>"

definition setNav :: "bool \<Rightarrow> 'signer page \<Rightarrow> 'signer page" where
  "setNav b p = p\<lparr>pg_frame := (pg_frame p)\<lparr>fr_nav := b\<rparr>\<rparr>"

text \<open>
  \<open>Shop\<close> is mounted when the phase becomes \<open>shop\<close>: it computes the catalog once and starts with a
  board element that is empty. \<open>en_catalog\<close> of the environment is set to that catalog.
\<close>

definition shop_element :: node where
  "shop_element = Node ''DIV'' [''emo-group-line'', ''emo-group-line-emo''] [] '''' []"

definition mount_shop :: "'rng shop_env \<Rightarrow> MtcState \<Rightarrow> (mtc_shop_Catalog \<times> screen) js" where
  "mount_shop env s =
     bindE (getCatalog (en_rand env) (ms_pool s) (ms_board s) (ms_seed s)) (\<lambda>catalog.
       mapR (Pair catalog) (shop_init s shop_element))"

definition with_catalog :: "'rng shop_env \<Rightarrow> mtc_shop_Catalog \<Rightarrow> 'rng shop_env" where
  "with_catalog env catalog = env\<lparr>en_catalog := catalog\<rparr>"

text \<open>The state of the match of the page while \<open>Shop\<close> is mounted is the one \<open>Shop\<close> is given and sets.\<close>

definition step_shop :: "mtc_shop_Catalog \<Rightarrow> screen \<Rightarrow> 'signer page \<Rightarrow> 'signer page" where
  "step_shop catalog sc p = p\<lparr>pg_shop := Some (catalog, sc), pg_mtcState := Some (sc_mtcState sc)\<rparr>"

section \<open>A match on the chain or the contract (pages/Mtc/tasks.ts)\<close>

definition getSeed :: "'signer Connection \<Rightarrow> string \<Rightarrow> string js" where
  "getSeed connection address =
     bindE (cn_playerSeed connection address) (\<lambda>s.
       case s of None \<Rightarrow> throwError ''no seed'' | Some n \<Rightarrow> Inr (toStringU n))"

text \<open>The state a match starts with, from the answers to the three queries.\<close>

definition start_state :: "'signer Connection \<Rightarrow> string \<Rightarrow> nat \<Rightarrow> MtcState js" where
  "start_state connection address previousEp =
     bindE (getSeed connection address) (\<lambda>seed.
     bindE (cn_playerMtcImmutable connection address) (\<lambda>(pool, ghosts).
     bindE (cn_playerMtcMutable connection address) (\<lambda>mutable.
     mapR (\<lambda>m. buildInitialMtcState previousEp seed pool (map snd ghosts)
         (map (\<lambda>(a, _). cn_transformAddress connection a) ghosts) (toNumber (pm_health m))
         (map_option (\<lambda>c. int (toNumber c)) (pm_upgrade_coin m)) (pm_ghost_states m)
         (toNumber (pm_battle_ghost_index m)))
       (orTypeError mutable))))"

definition start ::
  "'signer Connection \<Rightarrow> 'signer Account \<Rightarrow> string list \<Rightarrow> nat \<Rightarrow> nat option \<Rightarrow> 'signer page \<Rightarrow>
   MtcState js \<times> 'signer page" where
  "start connection account deckEmoBaseIds previousEp solution p =
     (if cn_kind connection \<noteq> account_kind account then (throwError ''different kinds'', p)
      else if (account_kind account = Kind_chain) = (solution = None)
      then (throwError ''invalid solution'', p)
      else withToggleAsync setWaiting (\<lambda>p.
          case cn_startMtc connection deckEmoBaseIds account solution of
            Inl e \<Rightarrow> (Inl e, setErrorModalMessage e p)
          | Inr _ \<Rightarrow> (start_state connection (account_address account) previousEp, p)) p)"

text \<open>In development the front compares its state with that of the chain.\<close>

definition ensureFinished :: "bool \<Rightarrow> 'signer Connection \<Rightarrow> string \<Rightarrow> unit js" where
  "ensureFinished isDevelopment connection address =
     (if \<not> isDevelopment then Inr ()
      else bindE (cn_playerMtcMutable connection address) (\<lambda>p.
        if p \<noteq> None then throwError ''looks like not finished'' else Inr ()))"

definition ensureNoStateDiff ::
  "bool \<Rightarrow> 'signer Connection \<Rightarrow> string \<Rightarrow> nat \<Rightarrow> mtc_Board \<Rightarrow> unit js" where
  "ensureNoStateDiff isDevelopment connection address health board =
     (if \<not> isDevelopment then Inr ()
      else
        bindE (cn_playerMtcMutable connection address) (\<lambda>m.
        bindE (orTypeError m) (\<lambda>m.
          let subHealth = toNumber (pm_health m) in
          if health \<noteq> subHealth
          then throwError (''state diff found for health (front: '' @ show_nat health @ '', sub: '' @
            show_nat subHealth @ '')'')
          else
            let subBoards = pm_grade_and_board_history m in
            bindE (orTypeError (if subBoards = [] then None else Some (last subBoards))) (\<lambda>l.
              let localIds = concat (map id_texts board); subIds = concat (map id_texts (gb_board l)) in
              if \<not> checkArraysEquality localIds subIds
              then throwError (''state diff found for board: local: '' @ join_with '','' localIds @
                '', sub: '' @ join_with '','' subIds)
              else Inr ()))))"

text \<open>The result, if there is one, comes with a query that is awaited later.\<close>

definition finishBattleAndBuildState ::
  "march \<Rightarrow> 'rng rand_crate \<Rightarrow> 'signer Connection \<Rightarrow> string \<Rightarrow> MtcState \<Rightarrow> EmoBases \<Rightarrow>
   (MtcState \<times> ResultState js option) js" where
  "finishBattleAndBuildState march rand connection address mtcState emoBases =
     mapR (\<lambda>(s, finalPlace). (s,
         case finalPlace of
           Some place \<Rightarrow> Some (bindE (cn_playerEp connection address) (\<lambda>ep.
             mapR (\<lambda>ep. \<lparr>re_place = place, re_ep = toNumber ep\<rparr>) (orTypeError ep)))
         | None \<Rightarrow> None))
       (finishBattle (battleAll march) (selectBattleGhostIndex rand) mtcState emoBases)"

section \<open>The page of a match (pages/Mtc/index.tsx)\<close>

definition initial_page :: "'signer Account option \<Rightarrow> 'signer page" where
  "initial_page account =
     \<lparr>pg_phase = Some Phase_setup, pg_mtcState = None, pg_resultState = None, pg_account = account,
      pg_frame = \<lparr>fr_waiting = False, fr_errorMessage = None, fr_nav = True\<rparr>, pg_shop = None\<rparr>"

definition activate_session :: "'signer Account \<Rightarrow> 'signer Account" where
  "activate_session account =
     (case account of
        Account_chain address player session \<Rightarrow>
          Account_chain address player (session\<lparr>as_isActive := True\<rparr>)
      | a \<Rightarrow> a)"

text \<open>A phase that becomes \<open>shop\<close> mounts the shop; what that throws ends the page.\<close>

definition enter_shop :: "'rng shop_env \<Rightarrow> MtcState \<Rightarrow> 'signer page \<Rightarrow> 'signer page js" where
  "enter_shop env s p =
     mapR (\<lambda>m. p\<lparr>pg_phase := Some Phase_shop, pg_mtcState := Some s, pg_shop := Some m\<rparr>)
       (mount_shop env s)"

text \<open>
  A handler returns the page, or the page with the error its promise rejects with. The environment's
  bases are those of the connection.
\<close>

type_synonym 'signer outcome = "('signer page \<times> js_error option) js"

definition startMtc ::
  "'rng shop_env \<Rightarrow> 'signer Connection \<Rightarrow> string list \<Rightarrow> nat \<Rightarrow> nat option \<Rightarrow> 'signer page \<Rightarrow>
   'signer outcome" where
  "startMtc env connection deckEmoBaseIds previousEp solution p =
     (case pg_account p of
        None \<Rightarrow> Inr (p, Some (JsError ''account null''))
      | Some account \<Rightarrow>
          (case start connection account deckEmoBaseIds previousEp solution p of
             (Inl e, p) \<Rightarrow> Inr (p, Some e)
           | (Inr s, p) \<Rightarrow>
               mapR (\<lambda>p. (p, None))
                 (enter_shop env s (setNav False (p\<lparr>pg_account := Some (activate_session account)\<rparr>)))))"

definition startBattle ::
  "'signer Connection \<Rightarrow> mtc_shop_PlayerOperation list \<Rightarrow> nat option \<Rightarrow> MtcState \<Rightarrow> 'signer page \<Rightarrow>
   'signer outcome" where
  "startBattle connection ops solution mtcState p =
     (case pg_account p of
        None \<Rightarrow> throwError ''invalid shop state''
      | Some account \<Rightarrow>
          (case withToggleAsync setWaiting (\<lambda>p.
               case cn_finishMtcShop connection ops account solution of
                 Inl e \<Rightarrow> (Inl e, setErrorModalMessage e p)
               | Inr _ \<Rightarrow>
                   (case getSeed connection (account_address account) of
                      Inl e \<Rightarrow> (Inl e, p)
                    | Inr seed \<Rightarrow>
                        (Inr (), p\<lparr>pg_mtcState := Some (mtcState\<lparr>ms_seed := seed\<rparr>),
                           pg_phase := Some Phase_battle, pg_shop := None\<rparr>))) p of
             (Inl e, p) \<Rightarrow> Inr (p, Some e)
           | (Inr _, p) \<Rightarrow> Inr (p, None)))"

definition finish ::
  "'rng shop_env \<Rightarrow> march \<Rightarrow> 'signer Connection \<Rightarrow> 'signer page \<Rightarrow> 'signer outcome" where
  "finish env march connection p =
     (case (pg_mtcState p, pg_account p) of
        (Some mtcState, Some account) \<Rightarrow>
          (case finishBattleAndBuildState march (en_rand env) connection (account_address account)
                  mtcState (en_bases env) of
             Inl e \<Rightarrow> Inr (p, Some e)
           | Inr (s, None) \<Rightarrow> mapR (\<lambda>p. (p, None)) (enter_shop env s p)
           | Inr (s, Some resultState) \<Rightarrow>
               (case withToggleAsync setWaiting (\<lambda>p. (resultState, p)) (p\<lparr>pg_mtcState := Some s\<rparr>) of
                  (Inl e, p) \<Rightarrow> Inr (p, Some e)
                | (Inr rs, p) \<Rightarrow>
                    Inr (setNav True (p\<lparr>pg_resultState := Some rs, pg_phase := Some Phase_result\<rparr>), None)))
      | _ \<Rightarrow> throwError ''invalid battle state'')"

definition startAgain :: "'signer page \<Rightarrow> 'signer page" where
  "startAgain p = p\<lparr>pg_phase := Some Phase_setup, pg_mtcState := None, pg_resultState := None\<rparr>"

section \<open>A trial (pages/MtcTrial/)\<close>

text \<open>\<open>Math.round\<close> rounds halves up.\<close>

definition trial_getSeed :: "rat \<Rightarrow> string" where
  "trial_getSeed random = show_nat (nat (floor (random * 10000 + 1 / 2)))"

definition initialGhostState :: mtc_GhostState where
  "initialGhostState = GhostState_Active (mtc_GhostState_Active 20)"

definition buildMtcState ::
  "'signer Connection \<Rightarrow> (nat \<Rightarrow> rat) \<Rightarrow> rat \<Rightarrow> MtcState js" where
  "buildMtcState connection rnd random =
     (let epBand = initialEp div 100 in
      bindE (cn_deckBuiltEmoBaseIds connection) (\<lambda>builtIds.
      bindE (cn_deckFixedEmoBaseIds connection) (\<lambda>fixedIds.
      bindE (cn_matchmakingGhostsInfo connection epBand) (\<lambda>ghostsInfoOpt.
        let builtEmoBaseIds = map toStringU builtIds; fixedEmoBaseIds = map toStringU fixedIds in
        case ghostsInfoOpt of
          None \<Rightarrow> throwError ''not enough ghosts''
        | Some ghostsInfo \<Rightarrow>
            if length ghostsInfo < 3 then throwError ''not enough ghosts''
            else
              let ghostAddressesAndIndexes =
                    fst (sampleArray rnd (map (\<lambda>(i, _, a). (a, i)) (List.enumerate 0 ghostsInfo)) 3) in
              bindE (mapE (\<lambda>(_, ghostIndex).
                  bindE (cn_matchmakingGhostByIndex connection epBand ghostIndex) orTypeError)
                ghostAddressesAndIndexes) (\<lambda>ghosts.
              bindE (getDefaultDeck (cn_emoBases connection) builtEmoBaseIds) (\<lambda>deckEmoBaseIds.
              mapR (\<lambda>pool. buildInitialMtcState initialEp (trial_getSeed random) pool ghosts
                  (map fst ghostAddressesAndIndexes) initialPlayerHealth
                  (case get_upgrade_coin 2 of
                     None \<Rightarrow> None | Some c \<Rightarrow> if c = 0 then None else Some (int (toNumber c)))
                  [initialGhostState, initialGhostState, initialGhostState] 0)
                (buildPool deckEmoBaseIds (cn_emoBases connection) fixedEmoBaseIds builtEmoBaseIds)))))))"

definition trial_page :: "'signer page" where
  "trial_page =
     \<lparr>pg_phase = None, pg_mtcState = None, pg_resultState = None, pg_account = None,
      pg_frame = \<lparr>fr_waiting = False, fr_errorMessage = None, fr_nav = True\<rparr>, pg_shop = None\<rparr>"

definition trial_setup :: "'rng shop_env \<Rightarrow> MtcState \<Rightarrow> 'signer page \<Rightarrow> 'signer page js" where
  "trial_setup env s p = enter_shop env s (setNav False (p\<lparr>pg_account := None\<rparr>))"

definition trial_startBattle :: "rat \<Rightarrow> MtcState \<Rightarrow> 'signer page \<Rightarrow> 'signer page" where
  "trial_startBattle random mtcState p =
     p\<lparr>pg_mtcState := Some (mtcState\<lparr>ms_seed := trial_getSeed random\<rparr>), pg_phase := Some Phase_battle,
       pg_shop := None\<rparr>"

definition trial_finish :: "'rng shop_env \<Rightarrow> march \<Rightarrow> MtcState \<Rightarrow> 'signer page \<Rightarrow> 'signer page js" where
  "trial_finish env march mtcState p =
     bindE (finishBattle (battleAll march) (selectBattleGhostIndex (en_rand env)) mtcState (en_bases env))
       (\<lambda>(s, finalPlace).
         case finalPlace of
           Some place \<Rightarrow>
             Inr (setNav True (p\<lparr>pg_mtcState := Some s,
               pg_resultState := Some \<lparr>re_place = place, re_ep = initialEp + 50\<rparr>,
               pg_phase := Some Phase_result\<rparr>))
         | None \<Rightarrow> enter_shop env s p)"

definition trial_startAgain :: "'signer page \<Rightarrow> 'signer page" where
  "trial_startAgain p = p\<lparr>pg_phase := None, pg_mtcState := None, pg_resultState := None\<rparr>"

section \<open>What a page renders\<close>

datatype page_view =
  View_loading
| View_setup
| View_shop Shop_view
| View_battle Battle_view
| View_result Result_view

definition player_address :: "'signer page \<Rightarrow> string" where
  "player_address p = (case pg_account p of Some a \<Rightarrow> account_address a | None \<Rightarrow> zeroAddress)"

definition Mtc_render :: "'rng shop_env \<Rightarrow> 'signer page \<Rightarrow> page_view js" where
  "Mtc_render env p =
     (case pg_phase p of
        Some Phase_shop \<Rightarrow>
          (case (pg_mtcState p, pg_account p, pg_shop p) of
             (Some s, Some a, Some (catalog, sc)) \<Rightarrow> mapR View_shop (Shop (with_catalog env catalog) sc)
           | _ \<Rightarrow> throwError ''invalid shop state'')
      | Some Phase_battle \<Rightarrow>
          (case (pg_mtcState p, pg_account p) of
             (Some s, Some a) \<Rightarrow> mapR View_battle (Battle_screen (player_address p) s)
           | _ \<Rightarrow> throwError ''invalid battle state'')
      | Some Phase_result \<Rightarrow>
          (case (pg_mtcState p, pg_resultState p, pg_account p) of
             (Some s, Some r, Some a) \<Rightarrow> mapR View_result (Result (en_bases env) s r)
           | _ \<Rightarrow> throwError ''invalid result state'')
      | _ \<Rightarrow> Inr View_setup)"

definition Trial_render :: "'rng shop_env \<Rightarrow> 'signer page \<Rightarrow> page_view js" where
  "Trial_render env p =
     (case (pg_phase p, pg_mtcState p) of
        (Some Phase_shop, Some s) \<Rightarrow>
          (case pg_shop p of
             Some (catalog, sc) \<Rightarrow> mapR View_shop (Shop (with_catalog env catalog) sc)
           | None \<Rightarrow> Inr View_loading)
      | (Some Phase_battle, Some s) \<Rightarrow> mapR View_battle (Battle_screen (player_address p) s)
      | (Some Phase_result, Some s) \<Rightarrow>
          (case pg_resultState p of
             Some r \<Rightarrow> mapR View_result (Result (en_bases env) s r)
           | None \<Rightarrow> throwError ''invalid state: result state null'')
      | _ \<Rightarrow> Inr View_loading)"


section \<open>Steps\<close>

text \<open>
  A page takes a step when something is clicked that its view offers, when an operation on the board
  ends, or, at the start of a trial, when the answers are there. A connection answers differently at
  different times; \<open>trusted\<close> tells which answers a node gives. While the frame shows that it waits,
  its modal covers the page.
\<close>

inductive trial_step ::
  "'rng shop_env \<Rightarrow> march \<Rightarrow> ('signer Connection \<Rightarrow> bool) \<Rightarrow> 'signer page \<Rightarrow> 'signer page \<Rightarrow> bool"
  for env march trusted where
  load: "pg_phase p = None \<Longrightarrow> trusted connection \<Longrightarrow> buildMtcState connection rnd random = Inr s \<Longrightarrow>
    trial_setup env s p = Inr p' \<Longrightarrow> trial_step env march trusted p p'"
| shop: "pg_phase p = Some Phase_shop \<Longrightarrow> pg_shop p = Some (catalog, sc) \<Longrightarrow>
    shop_step (with_catalog env catalog) sc sc' \<Longrightarrow> trial_step env march trusted p (step_shop catalog sc' p)"
| battle: "pg_phase p = Some Phase_shop \<Longrightarrow> pg_shop p = Some (catalog, sc) \<Longrightarrow>
    Shop (with_catalog env catalog) sc = Inr v \<Longrightarrow> Battle solution \<in> set (offered v) \<Longrightarrow>
    trial_step env march trusted p (trial_startBattle random (sc_mtcState sc) p)"
| finished: "pg_phase p = Some Phase_battle \<Longrightarrow> pg_mtcState p = Some s \<Longrightarrow> trial_finish env march s p = Inr p' \<Longrightarrow>
    trial_step env march trusted p p'"
| again: "pg_phase p = Some Phase_result \<Longrightarrow> trial_step env march trusted p (trial_startAgain p)"

inductive mtc_step ::
  "'rng shop_env \<Rightarrow> march \<Rightarrow> ('signer Connection \<Rightarrow> bool) \<Rightarrow> 'signer page \<Rightarrow> 'signer page \<Rightarrow> bool"
  for env march trusted where
  start: "\<not> fr_waiting (pg_frame p) \<Longrightarrow> pg_phase p = Some Phase_setup \<Longrightarrow> trusted connection \<Longrightarrow>
    startMtc env connection deck previousEp solution p = Inr (p', e) \<Longrightarrow> mtc_step env march trusted p p'"
| shop: "pg_phase p = Some Phase_shop \<Longrightarrow> pg_shop p = Some (catalog, sc) \<Longrightarrow>
    shop_step (with_catalog env catalog) sc sc' \<Longrightarrow> mtc_step env march trusted p (step_shop catalog sc' p)"
| battle: "\<not> fr_waiting (pg_frame p) \<Longrightarrow> pg_phase p = Some Phase_shop \<Longrightarrow> pg_shop p = Some (catalog, sc) \<Longrightarrow>
    Shop (with_catalog env catalog) sc = Inr v \<Longrightarrow> Battle solution \<in> set (offered v) \<Longrightarrow>
    startBattle connection (st_playerOperations (sc_shopState sc)) solution (sc_mtcState sc) p = Inr (p', e) \<Longrightarrow>
    mtc_step env march trusted p p'"
| finished: "\<not> fr_waiting (pg_frame p) \<Longrightarrow> pg_phase p = Some Phase_battle \<Longrightarrow> finish env march connection p = Inr (p', e) \<Longrightarrow>
    mtc_step env march trusted p p'"
| again: "\<not> fr_waiting (pg_frame p) \<Longrightarrow> pg_phase p = Some Phase_result \<Longrightarrow>
    mtc_step env march trusted p (startAgain p)"

end
