(* ===== verification/DemoBattle.thy ===== *)
theory DemoBattle
  imports MatchFlow Examples
begin

text \<open>
  The battle on the first page (\<open>front/src/components/pages/Top/DemoMtcBattle.tsx\<close>): two boards dealt from
  the shuffled pool of fixed bases, once the node has answered.
\<close>

section \<open>The deal\<close>

definition demo_emo :: "u16 \<Rightarrow> emo_Base \<Rightarrow> mtc_BoardEmo" where
  "demo_emo id' base =
     \<lparr>be_base_id = id', be_attributes = buildEmoAttributesWithBase base, be_mtc_emo_ids = []\<rparr>"

definition demo_ghost_emo :: "u16 \<Rightarrow> emo_Base \<Rightarrow> mtc_GhostBoardEmo" where
  "demo_ghost_emo id' base = \<lparr>be_base_id = id', be_attributes = buildEmoAttributesWithBase base\<rparr>"

text \<open>The loop over the ids: a base of a low grade is passed over, and full boards end it.\<close>

fun demo_loop :: "EmoBases \<Rightarrow> u16 list \<Rightarrow> mtc_Board \<Rightarrow> mtc_GhostBoard \<Rightarrow> (mtc_Board \<times> mtc_GhostBoard) js" where
  "demo_loop bases [] board ghostBoard = Inr (board, ghostBoard)"
| "demo_loop bases (id' # ids) board ghostBoard =
     bindE (findEmoBase id' bases) (\<lambda>base.
       if toNumber (eb_grade base) > 2
       then if length board < 7 then demo_loop bases ids (board @ [demo_emo id' base]) ghostBoard
         else if length ghostBoard < 7
         then demo_loop bases ids board (ghostBoard @ [demo_ghost_emo id' base])
         else Inr (board, ghostBoard)
       else demo_loop bases ids board ghostBoard)"

definition demo_boards :: "(nat \<Rightarrow> rat) \<Rightarrow> EmoBases \<Rightarrow> u16 list \<Rightarrow> (mtc_Board \<times> mtc_GhostBoard) js" where
  "demo_boards rnd bases ids = demo_loop bases (shuffleArray rnd ids) [] []"

section \<open>The component\<close>

record demo =
  dm_isMounted :: bool
  dm_seed :: "string option"
  dm_board :: "mtc_Board option"
  dm_ghostBoard :: "mtc_GhostBoard option"

definition demo_mounted :: demo where
  "demo_mounted = \<lparr>dm_isMounted = True, dm_seed = None, dm_board = None, dm_ghostBoard = None\<rparr>"

definition demo_unmount :: "demo \<Rightarrow> demo" where
  "demo_unmount d = d\<lparr>dm_isMounted := False\<rparr>"

text \<open>The answer to \<open>deckFixedEmoBaseIds\<close>; a deal that throws leaves the state as it is.\<close>

definition demo_answered :: "(nat \<Rightarrow> rat) \<Rightarrow> rat \<Rightarrow> EmoBases \<Rightarrow> u16 list \<Rightarrow> demo \<Rightarrow> demo" where
  "demo_answered rnd random bases ids d =
     (case demo_boards rnd bases ids of
        Inl _ \<Rightarrow> d
      | Inr (board, ghostBoard) \<Rightarrow>
          if dm_isMounted d
          then d\<lparr>dm_seed := Some (trial_getSeed random), dm_board := Some board,
                 dm_ghostBoard := Some ghostBoard\<rparr>
          else d)"

text \<open>The boards and the seed of the battle that is rendered, when there is one.\<close>

definition DemoMtcBattle ::
  "bool \<Rightarrow> bool \<Rightarrow> demo \<Rightarrow> (mtc_Board \<times> mtc_GhostBoard \<times> string) option" where
  "DemoMtcBattle isWasmReady isConnected d =
     (if \<not> isWasmReady \<or> \<not> isConnected then None
      else case (dm_seed d, dm_board d, dm_ghostBoard d) of
          (Some seed, Some board, Some ghostBoard) \<Rightarrow> Some (board, ghostBoard, seed)
        | _ \<Rightarrow> None)"

section \<open>What is dealt\<close>

text \<open>The base of an id in the order of the ids, those of the higher grades.\<close>

definition strong_bases :: "EmoBases \<Rightarrow> u16 list \<Rightarrow> (u16 \<times> emo_Base) list" where
  "strong_bases bases ids =
     filter (\<lambda>(_, base). toNumber (eb_grade base) > 2) (map (\<lambda>i. (i, projr (findEmoBase i bases))) ids)"

lemma demo_loop_deals:
  fixes b :: mtc_Board and g :: mtc_GhostBoard
  assumes "\<forall>i\<in>set ids. \<not> isl (findEmoBase i bases)" "length g \<le> 7" "length b \<le> 7" "length b < 7 \<longrightarrow> g = []"
  shows "demo_loop bases ids b g =
    (let strong = strong_bases bases ids; k = 7 - length b in
     Inr (b @ map (\<lambda>(i, base). demo_emo i base) (take k strong),
       g @ map (\<lambda>(i, base). demo_ghost_emo i base) (take (7 - length g) (drop k strong))))"
  using assms
proof (induction ids arbitrary: b g)
  case Nil
  then show ?case by (simp add: strong_bases_def)
next
  case (Cons i ids)
  from Cons.prems(1) obtain base where base: "findEmoBase i bases = Inr base"
    by (cases "findEmoBase i bases") auto
  then have strong: "strong_bases bases (i # ids) =
      (if toNumber (eb_grade base) > 2 then (i, base) # strong_bases bases ids else strong_bases bases ids)"
    by (simp add: strong_bases_def)
  consider "length b < 7" | "length b = 7" "length g < 7" | "length b = 7" "length g = 7"
    using Cons.prems by linarith
  then show ?case
  proof cases
    case 1
    then have "7 - length b = Suc (6 - length b)" by linarith
    with 1 show ?thesis
      using Cons.IH [where b = "b @ [demo_emo i base]" and g = g] Cons.IH [where b = b and g = g] Cons.prems by (simp add: base strong Let_def)
  next
    case 2
    then have "7 - length g = Suc (6 - length g)" by linarith
    with 2 show ?thesis
      using Cons.IH [where b = b and g = "g @ [demo_ghost_emo i base]"] Cons.IH [where b = b and g = g] Cons.prems by (simp add: base strong Let_def)
  next
    case 3
    then show ?thesis
      using Cons.IH [where b = b and g = g] Cons.prems by (simp add: base strong Let_def)
  qed
qed

lemma strong_bases_ids:
  "distinct ids \<Longrightarrow> distinct (map fst (strong_bases bases ids))"
  by (induction ids) (auto simp: strong_bases_def)

lemma mset_shuffleArray:
  assumes "\<forall>i. 0 \<le> rnd i \<and> rnd i < 1"
  shows "mset (shuffleArray rnd xs) = mset xs"
proof (cases xs)
  case (Cons x xs')
  then show ?thesis
    unfolding shuffleArray_def using assms random_index_le by (intro mset_shuffle_rounds) auto
qed (simp add: shuffleArray_def)

lemma base_ids_dealt:
  "be_base_id ` (\<lambda>(i, base). demo_emo i base) ` A = fst ` A"
  "be_base_id ` (\<lambda>(i, base). demo_ghost_emo i base) ` A = fst ` A"
  by (force simp: demo_emo_def demo_ghost_emo_def image_iff)+

text \<open>
  C37 (functional). The battle on the first page is dealt from the shuffled pool: of its bases with a
  grade above two, in the order of the shuffle, the first seven make one board and the next seven the
  other, so that in a pool without repetition no emoji meets itself.
\<close>

theorem demo_is_dealt:
  assumes "\<forall>i\<in>set ids. \<not> isl (findEmoBase i bases)" "\<forall>i. 0 \<le> rnd i \<and> rnd i < 1"
  shows "\<exists>board ghostBoard. demo_boards rnd bases ids = Inr (board, ghostBoard) \<and>
    mset (shuffleArray rnd ids) = mset ids \<and>
    (let strong = strong_bases bases (shuffleArray rnd ids) in
      board = map (\<lambda>(i, base). demo_emo i base) (take 7 strong) \<and>
      ghostBoard = map (\<lambda>(i, base). demo_ghost_emo i base) (take 7 (drop 7 strong))) \<and>
    (distinct ids \<longrightarrow> be_base_id ` set board \<inter> be_base_id ` set ghostBoard = {})"
proof -
  let ?ids = "shuffleArray rnd ids" and ?strong = "strong_bases bases (shuffleArray rnd ids)"
  have perm: "mset ?ids = mset ids" by (rule mset_shuffleArray [OF assms(2)])
  have disjoint: "fst ` set (take 7 ?strong) \<inter> fst ` set (take 7 (drop 7 ?strong)) = {}" if "distinct ids"
  proof -
    have "distinct ?ids" using that perm by (metis mset_eq_imp_distinct_iff)
    then have "set (take 7 (map fst ?strong)) \<inter> set (drop 7 (map fst ?strong)) = {}"
      by (intro set_take_disj_set_drop_if_distinct strong_bases_ids) simp_all
    moreover have "fst ` set (take 7 (drop 7 ?strong)) \<subseteq> set (drop 7 (map fst ?strong))"
      using set_take_subset [of 7 "drop 7 ?strong"] by (auto simp: drop_map)
    ultimately show ?thesis by (auto simp: take_map)
  qed
  have "\<forall>i\<in>set ?ids. \<not> isl (findEmoBase i bases)" using assms(1) perm by (metis set_mset_mset)
  from demo_loop_deals [OF this, of "[]" "[]"] show ?thesis
    using perm disjoint by (simp add: demo_boards_def Let_def base_ids_dealt)
qed

text \<open>Eight of the same base and a base of the first grade: seven for one board, one for the other.\<close>

definition demo_bases :: EmoBases where
  "demo_bases = buildEmoBases [(4, (sample_base 4)\<lparr>eb_grade := 3\<rparr>), (5, sample_base 5)]"

definition demo_ids :: "u16 list" where
  "demo_ids = [5, 4, 4, 4, 4, 4, 4, 4, 4]"

lemma demo_found: "findEmoBase 4 demo_bases = Inr ((sample_base 4)\<lparr>eb_grade := 3\<rparr>)"
    "findEmoBase 5 demo_bases = Inr (sample_base 5)"
  by (simp_all add: demo_bases_def findEmoBase_eq jsmap_wf_def)

lemma demo_shuffled: "shuffleArray (\<lambda>_. 0) demo_ids = [4, 4, 4, 4, 4, 4, 4, 4, 5]"
  by (simp add: shuffleArray_def demo_ids_def random_index_def swap_at_def eval_nat_numeral)

lemma demo_is_dealt_witness:
  "\<exists>board ghostBoard. demo_boards (\<lambda>_. 0) demo_bases demo_ids = Inr (board, ghostBoard) \<and>
     length board = 7 \<and> length ghostBoard = 1"
proof -
  have known: "\<forall>i\<in>set demo_ids. \<not> isl (findEmoBase i demo_bases)"
    by (simp add: demo_ids_def demo_found)
  have "length (strong_bases demo_bases [4, 4, 4, 4, 4, 4, 4, 4, 5]) = 8"
    by (simp add: strong_bases_def demo_found sample_base_def)
  then show ?thesis
    using demo_is_dealt [OF known, of "\<lambda>_. 0"] unfolding demo_shuffled by (auto simp: Let_def)
qed

end
