(* ===== verification/PowChain.thy ===== *)
theory PowChain
  imports Utils
begin

unbundle bit_operations_syntax

text \<open>
  The chain's side of a transaction paid by proof of work: \<open>check_solution\<close> of
  \<open>common/rs/src/pow.rs\<close> and \<open>which_payment_kind\<close> of the pallet
  \<open>transaction-payment-pow\<close>. BLAKE2b is a parameter (a crate), and so is the front's solver
  (a WebAssembly binary). The theory ends with the agreement of the two sides on the layout of
  the hashed buffer and on the encoding of the solution in the tip.
\<close>

section \<open>pow.rs and the payment pallet\<close>

type_synonym u128 = "128 word"

definition to_le_bytes :: "nat \<Rightarrow> 'a::len word \<Rightarrow> u8 list" where
  "to_le_bytes n w = map (\<lambda>k. ucast (drop_bit (8 * k) w)) [0..<n]"

definition from_le_bytes :: "u8 list \<Rightarrow> u32" where
  "from_le_bytes bs = word_of_nat (\<Sum>k<4. unat (bs ! k) * 256 ^ k)"

definition THRESHOLD :: u32 where "THRESHOLD = 2655"

text \<open>\<open>input[a..b].copy_from_slice(s)\<close> for a slice of the right length.\<close>

definition copy_from_slice :: "nat \<Rightarrow> u8 list \<Rightarrow> u8 list \<Rightarrow> u8 list" where
  "copy_from_slice a s input = take a input @ s @ drop (a + length s) input"

definition pow_input :: "u8 list \<Rightarrow> u32 \<Rightarrow> u64 \<Rightarrow> u8 list" where
  "pow_input account count' solution =
     (let input = replicate 128 0;
          input = copy_from_slice 0 account input;
          input = copy_from_slice 32 (to_le_bytes 4 count') input;
          input = input[36 := 123]
      in copy_from_slice 120 (to_le_bytes 8 solution) input)"

definition check_solution :: "(u8 list \<Rightarrow> u8 list) \<Rightarrow> u8 list \<Rightarrow> u32 \<Rightarrow> u64 \<Rightarrow> bool" where
  "check_solution blake2b account count' solution =
     (from_le_bytes (take 4 (blake2b (pow_input account count' solution))) < THRESHOLD)"

datatype PaymentKind = PaymentKind_Root | PaymentKind_Payment | PaymentKind_Pow u64

definition which_payment_kind :: "'account \<Rightarrow> 'account \<Rightarrow> u128 \<Rightarrow> PaymentKind" where
  "which_payment_kind sudo_key who tip =
     (if who = sudo_key then PaymentKind_Root
      else if tip AND push_bit 127 1 = 0 then PaymentKind_Payment
      else PaymentKind_Pow (ucast (tip AND NOT (push_bit 64 (- 1)))))"

section \<open>Little-endian bytes\<close>

lemma length_to_le_bytes [simp]: "length (to_le_bytes n w) = n"
  by (simp add: to_le_bytes_def)

lemma getPowSolutionBN_less: "getPowSolutionBNFromBytes bs < 256 ^ length bs"
proof (induction bs)
  case (Cons b bs)
  have "unat b < 256" using unsigned_less [of b, where ?'a = nat] by simp
  with Cons show ?case by simp
qed simp

lemma getPowSolutionBN_byte:
  "k < length bs \<Longrightarrow> getPowSolutionBNFromBytes bs div 256 ^ k mod 256 = unat (bs ! k)"
proof (induction bs arbitrary: k)
  case (Cons b bs)
  have b: "unat b < 256" using unsigned_less [of b, where ?'a = nat] by simp
  show ?case
  proof (cases k)
    case 0
    with b show ?thesis by simp
  next
    case (Suc j)
    have "(unat b + 256 * getPowSolutionBNFromBytes bs) div 256 ^ Suc j =
        (unat b + 256 * getPowSolutionBNFromBytes bs) div 256 div 256 ^ j"
      by (simp add: div_mult2_eq)
    also have "(unat b + 256 * getPowSolutionBNFromBytes bs) div 256 = getPowSolutionBNFromBytes bs"
      using b by simp
    finally show ?thesis
      using Cons Suc by simp
  qed
qed simp

lemma div_256_power: "n div 256 ^ k = drop_bit (8 * k) n" for n :: nat
  by (simp add: drop_bit_eq_div power_mult)

lemma ucast_drop_bit_word_of_nat:
  assumes "8 * k + 8 \<le> LENGTH('a::len)"
  shows "(ucast (drop_bit (8 * k) (word_of_nat n :: 'a word)) :: u8) = word_of_nat (n div 256 ^ k)"
proof (rule bit_word_eqI)
  fix i assume "i < LENGTH(8)"
  then show "bit (ucast (drop_bit (8 * k) (word_of_nat n :: 'a word)) :: u8) i =
      bit (word_of_nat (n div 256 ^ k) :: u8) i"
    using assms
    unfolding div_256_power by (auto simp: bit_simps)
qed

lemma setUint32_le_eq: "setUint32_le n = to_le_bytes 4 (word_of_nat n :: u32)"
  by (simp add: setUint32_le_def to_le_bytes_def ucast_drop_bit_word_of_nat)

lemma to_le_bytes_getPowSolutionBN:
  assumes "length bs = 8"
  shows "to_le_bytes 8 (word_of_nat (getPowSolutionBNFromBytes bs) :: u64) = bs"
proof (rule nth_equalityI)
  fix i assume "i < length (to_le_bytes 8 (word_of_nat (getPowSolutionBNFromBytes bs) :: u64))"
  then have i: "i < 8" by simp
  then have "to_le_bytes 8 (word_of_nat (getPowSolutionBNFromBytes bs) :: u64) ! i =
      word_of_nat (getPowSolutionBNFromBytes bs div 256 ^ i)"
    by (simp add: to_le_bytes_def ucast_drop_bit_word_of_nat)
  also have "\<dots> = bs ! i"
    using getPowSolutionBN_byte [of i bs] i assms
    by (simp add: word_unat_eq_iff unat_of_nat)
  finally show "to_le_bytes 8 (word_of_nat (getPowSolutionBNFromBytes bs) :: u64) ! i = bs ! i" .
qed (simp add: assms)

section \<open>The two sides agree\<close>

lemma replicate_91: "replicate 91 x = x # x # x # replicate 88 x"
  using replicate_add [of 3 88 x] by (simp add: numeral_3_eq_3)

lemma replicate_92: "replicate 92 x = x # replicate 91 x"
  using replicate_Suc [of 91 x] by simp

lemma pow_buffer_layout:
  assumes "length publicKey = 32"
  shows "pow_buffer publicKey n =
    Inr (publicKey @ to_le_bytes 4 (word_of_nat n :: u32) @ [123] @ replicate 91 0)"
proof -
  have "setUint32_le 123 = [123, 0, 0, 0]"
    by (simp add: setUint32_le_def upt_conv_Cons)
  then show ?thesis
    using assms
    by (simp add: pow_buffer_def u8a_set_def setUint32_le_eq [of n] replicate_91)
qed

lemma pow_input_layout:
  assumes "length account = 32"
  shows "pow_input account c solution =
    account @ to_le_bytes 4 c @ [123] @ replicate 83 0 @ to_le_bytes 8 solution"
  using assms
  by (simp add: pow_input_def copy_from_slice_def Let_def list_update_append replicate_92)

lemma bit_less_64: "s < 2 ^ 64 \<Longrightarrow> bit s n \<Longrightarrow> n < 64" for s :: nat
  by (metis bit_take_bit_iff take_bit_nat_eq_self_iff)

lemma exp_plus_eq_or:
  fixes s :: nat
  assumes "s < 2 ^ 64" "64 \<le> m"
  shows "2 ^ m + s = (2 ^ m OR s)"
proof (rule disjunctive_add_eq_or, rule bit_eqI)
  fix n
  have "\<not> bit s m"
    using bit_less_64 [OF assms(1)] assms(2) by (meson not_le)
  then show "bit (2 ^ m AND s) n = bit 0 n"
    by (auto simp: bit_simps)
qed

lemma bit_u128: "bit (word_of_nat k :: u128) n \<longleftrightarrow> n < 128 \<and> bit k n"
  by (simp add: bit_of_nat_iff possible_bit_word)

lemma bit_tip:
  assumes "s < 2 ^ 64"
  shows "bit (word_of_nat (2 ^ 127 + s) :: u128) n \<longleftrightarrow> n = 127 \<or> bit s n"
proof -
  have "2 ^ 127 + s = (2 ^ 127 OR s)"
    by (rule exp_plus_eq_or [OF assms]) simp
  then have "bit (word_of_nat (2 ^ 127 + s) :: u128) n \<longleftrightarrow> n < 128 \<and> bit (2 ^ 127 OR s) n"
    by (simp only: bit_u128)
  also have "\<dots> \<longleftrightarrow> n = 127 \<or> bit s n"
    unfolding bit_or_iff bit_exp_iff using bit_less_64 [OF assms, of n] by auto
  finally show ?thesis .
qed

lemma which_payment_kind_tip:
  assumes "who \<noteq> sudo" "s < 2 ^ 64"
  shows "which_payment_kind sudo who (word_of_nat (2 ^ 127 + s)) = PaymentKind_Pow (word_of_nat s)"
proof -
  let ?t = "word_of_nat (2 ^ 127 + s) :: u128"
  have "bit (?t AND push_bit 127 1) 127"
    unfolding bit_and_iff bit_tip [OF assms(2)] by (simp add: bit_simps)
  then have "?t AND push_bit 127 1 \<noteq> 0" by (metis bit_0_eq bot_apply bot_bool_def)
  moreover have "ucast (?t AND NOT (push_bit 64 (- 1))) = (word_of_nat s :: u64)"
    by (rule bit_word_eqI, unfold bit_ucast_iff bit_and_iff bit_tip [OF assms(2)])
      (auto simp: bit_simps)
  ultimately show ?thesis
    using assms(1) by (simp add: which_payment_kind_def del: of_nat_add of_nat_power)
qed

text \<open>
  What the solver promises of its second result: a hash found below the threshold, of the buffer
  it was given with the last eight bytes replaced.
\<close>

definition solver_ok :: "(u8 list \<Rightarrow> u8 list) \<Rightarrow> (u8 list \<Rightarrow> nat \<Rightarrow> u8 list \<times> u8 list) \<Rightarrow> bool" where
  "solver_ok blake2b solver \<longleftrightarrow>
     (\<forall>buffer threshold. length buffer = 128 \<longrightarrow>
        (let (s, hash) = solver buffer threshold in
         length hash \<noteq> 0 \<longrightarrow> length s = 128 \<and> take 120 s = take 120 buffer \<and>
           unat (from_le_bytes (take 4 (blake2b s))) < threshold))"

lemma solvePowPure_accepted:
  assumes solver: "solver_ok blake2b solver"
    and key: "length publicKey = 32"
    and sol: "solvePowPure solver publicKey (unat c) = Inr solution"
  shows "length solution = 8"
    and "check_solution blake2b publicKey c (word_of_nat (getPowSolutionBNFromBytes solution))"
proof -
  obtain s hash where sh: "solver (publicKey @ to_le_bytes 4 c @ [123] @ replicate 91 0) PowThreshold = (s, hash)"
    by fastforce
  let ?b = "publicKey @ to_le_bytes 4 c @ [123] @ replicate 91 0"
  have hash: "length hash \<noteq> 0" and solution: "solution = slice_last 8 s"
    using sol sh by (auto simp: solvePowPure_def pow_buffer_layout [OF key] Let_def split: if_splits)
  have s: "length s = 128" "take 120 s = take 120 ?b"
    "unat (from_le_bytes (take 4 (blake2b s))) < PowThreshold"
    using solver [unfolded solver_ok_def, rule_format, of ?b PowThreshold] key sh hash by auto
  show len: "length solution = 8"
    using s(1) by (simp add: solution slice_last_def)
  have "s = take 120 s @ solution"
    using s(1) by (simp add: solution slice_last_def)
  also have "take 120 s = publicKey @ to_le_bytes 4 c @ [123] @ replicate 83 0"
    using key by (simp add: s(2) take_Cons')
  finally have "s = pow_input publicKey c (word_of_nat (getPowSolutionBNFromBytes solution))"
    by (simp add: pow_input_layout [OF key] to_le_bytes_getPowSolutionBN [OF len])
  then show "check_solution blake2b publicKey c (word_of_nat (getPowSolutionBNFromBytes solution))"
    using s(3) by (simp add: check_solution_def THRESHOLD_def PowThreshold_def word_less_nat_alt)
qed

end
