(* ===== verification/Base64.thy ===== *)
theory Base64
  imports Prelude
begin

unbundle bit_operations_syntax

text \<open>
  \<open>common/js/src/pow/base64.ts\<close>: the codec the proof-of-work binary is shipped in. The bitwise
  operators of JavaScript work on 32-bit integers (\<open>u32\<close> here) and read \<open>undefined\<close>, an access
  past the end, as 0; a \<open>Uint8Array\<close> keeps the low byte of what is stored in it and ignores a
  store past its end. The theory ends with the round trip for every sequence of bytes.
\<close>

section \<open>Tables\<close>

definition CHARS :: string where
  "CHARS = ''ABCDEFGHIJKLMNOPQRSTUVWXYZabcdefghijklmnopqrstuvwxyz0123456789+/''"

definition EQ_CHAR :: char where
  "EQ_CHAR = CHR ''=''"

definition lookup :: "u8 list" where
  "lookup = foldl (\<lambda>t i. t[of_char (CHARS ! i) := word_of_nat i]) (replicate 256 0) [0..<length CHARS]"

text \<open>An operand of a bitwise operator: \<open>undefined\<close> counts as 0.\<close>

definition to_int32 :: "u8 option \<Rightarrow> u32" where
  "to_int32 v = (case v of None \<Rightarrow> 0 | Some b \<Rightarrow> ucast b)"

text \<open>\<open>lookup[base64.charCodeAt(i)]\<close>; past the end the code is \<open>NaN\<close> and the entry \<open>undefined\<close>.\<close>

definition lookup_at :: "string \<Rightarrow> nat \<Rightarrow> u32" where
  "lookup_at s i =
     to_int32 (case js_at s i of None \<Rightarrow> None | Some c \<Rightarrow> js_at lookup (of_char c))"

text \<open>\<open>CHARS.charAt(n)\<close>, the empty string out of range.\<close>

definition charAt :: "u32 \<Rightarrow> string" where
  "charAt n = (case js_at CHARS (unat n) of None \<Rightarrow> [] | Some c \<Rightarrow> [c])"

section \<open>encode\<close>

definition encode_group :: "u32 \<Rightarrow> u32 \<Rightarrow> u32 \<Rightarrow> string" where
  "encode_group b0 b1 b2 =
     charAt (drop_bit 2 b0) @
     charAt (push_bit 4 (b0 AND 3) OR drop_bit 4 b1) @
     charAt (push_bit 2 (b1 AND 15) OR drop_bit 6 b2) @
     charAt (b2 AND 63)"

fun encode_loop :: "u8 list \<Rightarrow> string" where
  "encode_loop [] = []"
| "encode_loop (b # bs) =
     encode_group (ucast b) (to_int32 (js_at bs 0)) (to_int32 (js_at bs 1)) @
     encode_loop (drop 2 bs)"

definition encode :: "u8 list \<Rightarrow> string" where
  "encode bytes =
     (let len = length bytes; base64 = encode_loop bytes in
      if len mod 3 = 2 then take (length base64 - 1) base64 @ ''=''
      else if len mod 3 = 1 then take (length base64 - 2) base64 @ ''==''
      else base64)"

section \<open>decode\<close>

definition decode_group :: "u32 \<Rightarrow> u32 \<Rightarrow> u32 \<Rightarrow> u32 \<Rightarrow> u8 list" where
  "decode_group encoded1 encoded2 encoded3 encoded4 =
     [ucast (push_bit 2 encoded1 OR drop_bit 4 encoded2),
      ucast (push_bit 4 (encoded2 AND 15) OR drop_bit 2 encoded3),
      ucast (push_bit 6 (encoded3 AND 3) OR (encoded4 AND 63))]"

fun decode_loop :: "string \<Rightarrow> u8 list" where
  "decode_loop [] = []"
| "decode_loop (c # cs) =
     decode_group (lookup_at (c # cs) 0) (lookup_at (c # cs) 1)
       (lookup_at (c # cs) 2) (lookup_at (c # cs) 3) @
     decode_loop (drop 3 cs)"

text \<open>
  The stores go to \<open>bytes[0]\<close>, \<open>bytes[1]\<close>, and so on; what the loop does not reach stays 0. A
  negative length (of the lone string \<open>=\<close>) is refused by the constructor.
\<close>

definition char_is_eq :: "string \<Rightarrow> nat \<Rightarrow> bool" where
  "char_is_eq s k = (k \<le> length s \<and> js_at s (length s - k) = Some EQ_CHAR)"

definition decode :: "string \<Rightarrow> u8 list js" where
  "decode base64 =
     (let len = length base64;
          bufferLength = int (len * 3 mod 2 ^ 32 div 4);
          bufferLength = (if char_is_eq base64 1 then bufferLength - 1 else bufferLength);
          bufferLength = (if char_is_eq base64 2 then bufferLength - 1 else bufferLength)
      in if bufferLength < 0 then Inl JsRangeError
         else Inr (take (nat bufferLength)
                     (decode_loop base64 @ replicate (nat bufferLength) 0)))"

section \<open>Round trip\<close>

lemma length_CHARS [simp]: "length CHARS = 64"
  by (simp add: CHARS_def)

lemma distinct_CHARS: "distinct CHARS" "EQ_CHAR \<notin> set CHARS"
  by (simp_all add: CHARS_def EQ_CHAR_def)

lemma stores_at:
  assumes "distinct ks" "n \<le> length ks" "\<forall>k\<in>set ks. k < length t"
  shows "length (foldl (\<lambda>t i. t[ks ! i := w i]) t [0..<n]) = length t" (is "length (?f n) = _")
    and "i < n \<Longrightarrow> foldl (\<lambda>t i. t[ks ! i := w i]) t [0..<n] ! (ks ! i) = w i"
    and "k \<notin> set (take n ks) \<Longrightarrow> foldl (\<lambda>t i. t[ks ! i := w i]) t [0..<n] ! k = t ! k"
proof -
  show len: "length (?f n) = length t"
    by (induction n) auto
  show "i < n \<Longrightarrow> ?f n ! (ks ! i) = w i"
    using assms
  proof (induction n)
    case (Suc n)
    have "length (?f n) = length t" by (induction n) auto
    with Suc show ?case
      by (cases "i = n") (auto simp: nth_list_update nth_eq_iff_index_eq)
  qed simp
  show "k \<notin> set (take n ks) \<Longrightarrow> ?f n ! k = t ! k"
    using assms
  proof (induction n)
    case (Suc n)
    then show ?case
      by (auto simp: take_Suc_conv_app_nth)
  qed simp
qed

lemma lookup_stores:
  "lookup = foldl (\<lambda>t i. t[map of_char CHARS ! i := word_of_nat i]) (replicate 256 0) [0..<64]"
  unfolding lookup_def length_CHARS by (rule foldl_cong) auto

lemma codes_ok:
  "distinct (map of_char CHARS :: nat list)" "\<forall>k\<in>set (map of_char CHARS). k < (256::nat)"
  by (auto simp: distinct_map distinct_CHARS inj_on_def of_char_eq_iff)

lemma length_lookup [simp]: "length lookup = 256"
  using codes_ok unfolding lookup_stores by (simp add: stores_at(1))

lemma lookup_CHARS: "i < 64 \<Longrightarrow> js_at lookup (of_char (CHARS ! i)) = Some (word_of_nat i)"
proof -
  assume i: "i < 64"
  then have "of_char (CHARS ! i) < (256 :: nat)"
    using codes_ok(2) by simp
  moreover have "lookup ! of_char (CHARS ! i) = word_of_nat i"
    using stores_at(2) [OF codes_ok(1), of 64 "replicate 256 0" i word_of_nat] codes_ok(2) i
    unfolding lookup_stores by simp
  ultimately show ?thesis
    by (simp add: js_at_def)
qed

lemma lookup_EQ: "js_at lookup (of_char EQ_CHAR) = Some 0"
proof -
  have "of_char EQ_CHAR \<notin> set (take 64 (map of_char CHARS :: nat list))"
    using distinct_CHARS(2) by (auto simp: of_char_eq_iff)
  from stores_at(3) [OF codes_ok(1) _ _ this, of "replicate 256 0" word_of_nat] codes_ok(2)
  have "lookup ! of_char EQ_CHAR = 0"
    unfolding lookup_stores by (simp add: EQ_CHAR_def)
  then show ?thesis
    by (simp add: js_at_def EQ_CHAR_def)
qed

lemma charAt_6:
  assumes "n < (64 :: u32)"
  shows "charAt n = [CHARS ! unat n]"
    and "js_at lookup (of_char (CHARS ! unat n)) = Some (ucast n)"
    and "CHARS ! unat n \<noteq> EQ_CHAR"
proof -
  have n: "unat n < 64"
    using assms by (simp add: word_less_nat_alt)
  then show "charAt n = [CHARS ! unat n]"
    by (simp add: charAt_def js_at_def)
  from n have "CHARS ! unat n \<in> set CHARS" by simp
  then show "CHARS ! unat n \<noteq> EQ_CHAR"
    using distinct_CHARS(2) by metis
  show "js_at lookup (of_char (CHARS ! unat n)) = Some (ucast n)"
    using lookup_CHARS [OF n] by simp
qed

text \<open>The sextets of three bytes are in range, and give the bytes back.\<close>

definition sextets :: "u8 \<Rightarrow> u8 \<Rightarrow> u8 \<Rightarrow> u32 list" where
  "sextets a b c =
     (let b0 = ucast a; b1 = ucast b; b2 = ucast c in
      [drop_bit 2 b0, push_bit 4 (b0 AND 3) OR drop_bit 4 b1,
       push_bit 2 (b1 AND 15) OR drop_bit 6 b2, b2 AND 63])"

lemma and_masks: "w AND 3 = take_bit 2 w" "w AND 15 = take_bit 4 w" "w AND 63 = take_bit 6 w"
  for w :: u32
  by (simp_all add: take_bit_eq_mask mask_eq_exp_minus_1)

lemma less_64_iff: "w < 64 \<longleftrightarrow> take_bit 6 w = w" for w :: u32
  by (simp add: word_unat_eq_iff unsigned_take_bit_eq take_bit_nat_eq_self_iff word_less_nat_alt)

lemma bit_u8D: "bit b k \<Longrightarrow> k < 8" for b :: u8
  using bit_imp_le_length [of b k] by simp

lemma no_high_bit [simp]: "8 \<le> k \<Longrightarrow> \<not> bit b k" for b :: u8
  using bit_u8D [of b k] by auto

lemma sub_add_2: "2 \<le> n \<Longrightarrow> Suc (Suc (n - 2)) = n" for n :: nat
  by simp

lemma sextets_less: "\<forall>n\<in>set (sextets a b c). n < 64"
  unfolding sextets_def Let_def and_masks less_64_iff list.set ball_simps
  by (intro conjI bit_word_eqI) (auto simp: bit_simps dest: bit_u8D)

lemma decode_sextets:
  "decode_group (sextets a b c ! 0) (sextets a b c ! 1) (sextets a b c ! 2) (sextets a b c ! 3) = [a, b, c]"
  unfolding sextets_def decode_group_def Let_def and_masks
  by (auto intro!: bit_word_eqI simp: bit_simps sub_add_2)

definition chars_of :: "u8 \<Rightarrow> u8 \<Rightarrow> u8 \<Rightarrow> string" where
  "chars_of a b c = map (\<lambda>n. CHARS ! unat n) (sextets a b c)"

lemma length_sextets [simp]: "length (sextets a b c) = 4"
  by (simp add: sextets_def Let_def)

lemma length_chars_of [simp]: "length (chars_of a b c) = 4"
  by (simp add: chars_of_def)

lemma encode_group_eq: "encode_group (ucast a) (ucast b) (ucast c) = chars_of a b c"
  using sextets_less [of a b c]
  by (simp add: encode_group_def chars_of_def sextets_def Let_def charAt_6(1))

lemma ucast_ucast_64: "w < 64 \<Longrightarrow> ucast (ucast w :: u8) = w" for w :: u32
  by (simp add: word_unat_eq_iff unsigned_ucast_eq unsigned_take_bit_eq word_less_nat_alt
      take_bit_nat_eq_self_iff)

lemma lookup_at_chars:
  assumes "i < 4"
  shows "lookup_at (chars_of a b c @ cs) i = sextets a b c ! i"
proof -
  have "sextets a b c ! i < 64"
    using sextets_less [of a b c] assms by simp
  from charAt_6(2) [OF this] show ?thesis
    using assms
    by (simp add: lookup_at_def js_at_def chars_of_def nth_append to_int32_def ucast_ucast_64
        \<open>sextets a b c ! i < 64\<close>)
qed

lemma decode_loop_step:
  assumes "length s = 4"
  shows "decode_loop (s @ cs) =
    decode_group (lookup_at (s @ cs) 0) (lookup_at (s @ cs) 1) (lookup_at (s @ cs) 2)
      (lookup_at (s @ cs) 3) @ decode_loop cs"
proof -
  from assms obtain a b c d where "s = [a, b, c, d]"
    by (auto simp: numeral_eq_Suc length_Suc_conv)
  then show ?thesis by simp
qed

lemma decode_loop_chars: "decode_loop (chars_of a b c @ cs) = a # b # c # decode_loop cs"
  using decode_sextets [of a b c] by (simp add: decode_loop_step lookup_at_chars)

text \<open>Whole groups of three, and the one or two bytes left.\<close>

definition whole :: "(u8 \<times> u8 \<times> u8) list \<Rightarrow> u8 list" where
  "whole gs = concat (map (\<lambda>(a, b, c). [a, b, c]) gs)"

lemma whole_simps [simp]:
  "whole [] = []" "whole ((a, b, c) # gs) = a # b # c # whole gs"
  "length (whole gs) = 3 * length gs"
  by (simp_all add: whole_def length_concat sum_list_triv comp_def case_prod_unfold)

lemma split_whole:
  obtains gs tail where "bytes = whole gs @ tail" "length tail < 3"
proof -
  have "\<exists>gs tail. bytes = whole gs @ tail \<and> length tail < 3"
  proof (induction bytes rule: length_induct)
    case (1 bytes)
    show ?case
    proof (cases "length bytes < 3")
      case True
      then show ?thesis by (intro exI [of _ "[]"] exI [of _ bytes]) simp
    next
      case False
      then obtain a b c r where b: "bytes = a # b # c # r"
        by (auto simp: numeral_eq_Suc not_less Suc_le_length_iff)
      with 1 obtain gs tail where "r = whole gs @ tail" "length tail < 3"
        by (metis length_Cons less_Suc_eq)
      with b show ?thesis
        by (intro exI [of _ "(a, b, c) # gs"] exI [of _ tail]) simp
    qed
  qed
  with that show thesis by blast
qed

lemma encode_loop_3: "encode_loop (a # b # c # r) = chars_of a b c @ encode_loop r"
  by (simp add: to_int32_def js_at_def encode_group_eq)

lemma encode_loop_tail:
  "encode_loop [] = []" "encode_loop [a] = chars_of a 0 0" "encode_loop [a, b] = chars_of a b 0"
  using encode_group_eq [of a 0 0] encode_group_eq [of a b 0]
  by (simp_all add: to_int32_def js_at_def)

lemma length_encode_loop_whole:
  "length (encode_loop (whole gs @ tail)) = 4 * length gs + length (encode_loop tail)"
  by (induction gs) (auto simp: encode_loop_3 simp del: encode_loop.simps)

lemma decode_encode_whole:
  "\<exists>s. length s = 4 * length gs \<and> (\<forall>tail. encode_loop (whole gs @ tail) = s @ encode_loop tail) \<and>
       (\<forall>cs. decode_loop (s @ cs) = whole gs @ decode_loop cs)"
proof (induction gs)
  case Nil
  show ?case by (intro exI [of _ "[]"]) simp
next
  case (Cons g gs)
  obtain a b c where g: "g = (a, b, c)" by (cases g)
  from Cons obtain s where s: "length s = 4 * length gs"
    "\<forall>tail. encode_loop (whole gs @ tail) = s @ encode_loop tail"
    "\<forall>cs. decode_loop (s @ cs) = whole gs @ decode_loop cs" by blast
  then show ?case
    by (intro exI [of _ "chars_of a b c @ s"])
      (simp add: g encode_loop_3 decode_loop_chars del: encode_loop.simps decode_loop.simps)
qed

text \<open>The padded last group decodes to the bytes it stands for, and zeros.\<close>

lemma chars_of_expand:
  "chars_of a b c = [chars_of a b c ! 0, chars_of a b c ! 1, chars_of a b c ! 2, chars_of a b c ! 3]"
  by (simp add: chars_of_def sextets_def Let_def)

lemma chars_of_not_EQ: "i < 4 \<Longrightarrow> chars_of a b c ! i \<noteq> EQ_CHAR"
  using sextets_less [of a b c] by (simp add: chars_of_def charAt_6(3))

lemma sextets_0: "sextets a b 0 ! 3 = 0" "sextets a 0 0 ! 2 = 0"
  by (simp_all add: sextets_def Let_def)

lemma lookup_at_pad:
  "lookup_at [x, y, z, EQ_CHAR] 3 = 0" "lookup_at [x, y, EQ_CHAR, w] 2 = 0"
  using lookup_EQ by (auto simp: lookup_at_def js_at_def to_int32_def split: if_splits)

lemma lookup_at_cong: "js_at s i = js_at t i \<Longrightarrow> lookup_at s i = lookup_at t i"
  by (simp add: lookup_at_def)

lemma decode_loop_pad:
  "decode_loop (take 3 (chars_of a b 0) @ [EQ_CHAR]) = [a, b, 0]"
  "decode_loop (take 2 (chars_of a 0 0) @ [EQ_CHAR, EQ_CHAR]) = [a, 0, 0]"
proof -
  have at: "lookup_at (chars_of a b c) i = sextets a b c ! i" if "i < 4" for a b c i
    using lookup_at_chars [OF that, of a b c "[]"] by simp
  let ?s = "take 3 (chars_of a b 0) @ [EQ_CHAR]" and ?t = "take 2 (chars_of a 0 0) @ [EQ_CHAR, EQ_CHAR]"
  have s: "lookup_at ?s i = sextets a b 0 ! i" if "i < 4" for i
  proof (cases "i = 3")
    case True
    then show ?thesis
      by (subst chars_of_expand) (simp add: lookup_at_pad sextets_0)
  next
    case False
    then show ?thesis
      using that by (subst at [OF that, symmetric], intro lookup_at_cong) (auto simp: js_at_def nth_append)
  qed
  have t: "lookup_at ?t i = sextets a 0 0 ! i" if "i < 4" for i
  proof (cases "i < 2")
    case True
    then show ?thesis
      by (subst at [symmetric], simp, intro lookup_at_cong) (auto simp: js_at_def nth_append)
  next
    case False
    then have "i = 2 \<or> i = 3" using that by auto
    then show ?thesis
      by (subst chars_of_expand) (auto simp: lookup_at_pad sextets_0)
  qed
  show "decode_loop ?s = [a, b, 0]" "decode_loop ?t = [a, 0, 0]"
    using decode_loop_step [of ?s "[]"] decode_loop_step [of ?t "[]"]
      decode_sextets [of a b 0] decode_sextets [of a 0 0]
    by (simp_all add: s t del: decode_loop.simps(2))
qed

lemma EQ_not_in_last:
  assumes "0 < k" "k \<le> 4"
  shows "\<not> char_is_eq (s @ chars_of a b c) k"
  using assms chars_of_not_EQ [of "4 - k" a b c]
  by (auto simp: char_is_eq_def js_at_def nth_append)

lemma decode_padded:
  assumes "length s = 4 * k" "12 * k < 2 ^ 32" "length (decode_loop s) = 3 * k"
    and "char_is_eq s 1 \<longleftrightarrow> 1 \<le> p" "char_is_eq s 2 \<longleftrightarrow> 2 \<le> p" "p \<le> 2" "p \<le> 3 * k"
  shows "decode s = Inr (take (3 * k - p) (decode_loop s))"
proof -
  have "length s * 3 mod 2 ^ 32 div 4 = 3 * k"
    using assms(1,2) by simp
  moreover have "p = 0 \<or> p = 1 \<or> p = 2"
    using assms(6) by auto
  ultimately show ?thesis
    using assms(3-) by (auto simp: decode_def Let_def nat_diff_distrib' nat_mult_distrib simp del: decode_loop.simps)
qed

lemma decode_encode:
  assumes "length bytes < 2 ^ 28"
  shows "decode (encode bytes) = Inr bytes"
proof -
  obtain gs tail where b: "bytes = whole gs @ tail" "length tail < 3"
    by (rule split_whole)
  obtain s where s: "length s = 4 * length gs"
    "\<And>tail. encode_loop (whole gs @ tail) = s @ encode_loop tail"
    "\<And>cs. decode_loop (s @ cs) = whole gs @ decode_loop cs"
    using decode_encode_whole [of gs] by blast
  have small: "12 * length gs + 12 < 2 ^ 32"
    using assms b by simp
  consider "tail = []" | a where "tail = [a]" | a c where "tail = [a, c]"
    using b(2) by (cases tail; cases "tl tail") auto
  then show ?thesis
  proof cases
    case 1
    show ?thesis
    proof (cases gs rule: rev_cases)
      case Nil
      then show ?thesis
        using 1 b by (simp add: encode_def decode_def char_is_eq_def)
    next
      case (snoc hs g)
      obtain x y z where "g = (x, y, z)" by (cases g)
      obtain s' where "s = s' @ chars_of x y z"
        using decode_encode_whole [of hs] s(2) [of "[]"] snoc \<open>g = (x, y, z)\<close>
        by (auto simp: whole_def encode_loop_3 simp del: encode_loop.simps(2))
      then have "\<not> char_is_eq s 1" "\<not> char_is_eq s 2"
        by (simp_all add: EQ_not_in_last)
      moreover have "encode bytes = s"
        using 1 b s(2) [of "[]"] by (simp add: encode_def)
      ultimately show ?thesis
        using s(1) s(3) [of "[]"] 1 b small decode_padded [of s "length gs" 0] by simp
    qed
  next
    case 2
    have e: "encode bytes = s @ take 2 (chars_of a 0 0) @ [EQ_CHAR, EQ_CHAR]"
      using 2 b s(1) s(2) [of tail]
      by (simp add: encode_def encode_loop_tail EQ_CHAR_def del: encode_loop.simps(2))
    have "char_is_eq (s @ take 2 (chars_of a 0 0) @ [EQ_CHAR, EQ_CHAR]) k" if "k = 1 \<or> k = 2" for k
      using that by (auto simp: char_is_eq_def js_at_def nth_append)
    then show ?thesis
      using s(1) s(3) [of "take 2 (chars_of a 0 0) @ [EQ_CHAR, EQ_CHAR]"] small
        decode_padded [of "s @ take 2 (chars_of a 0 0) @ [EQ_CHAR, EQ_CHAR]" "Suc (length gs)" 2]
      unfolding e by (simp add: decode_loop_pad b 2)
  next
    case 3
    have "Suc (Suc (3 * length gs)) mod 3 = 2" by presburger
    then have e: "encode bytes = s @ take 3 (chars_of a c 0) @ [EQ_CHAR]"
      using 3 b s(1) s(2) [of tail]
      by (simp add: encode_def encode_loop_tail EQ_CHAR_def del: encode_loop.simps(2))
    have "char_is_eq (s @ take 3 (chars_of a c 0) @ [EQ_CHAR]) 1"
      "\<not> char_is_eq (s @ take 3 (chars_of a c 0) @ [EQ_CHAR]) 2"
      using chars_of_not_EQ [of 2 a c 0]
      by (simp_all add: char_is_eq_def js_at_def nth_append)
    then show ?thesis
      using s(1) s(3) [of "take 3 (chars_of a c 0) @ [EQ_CHAR]"] small
        decode_padded [of "s @ take 3 (chars_of a c 0) @ [EQ_CHAR]" "Suc (length gs)" 1]
      unfolding e by (simp add: decode_loop_pad b 3)
  qed
qed

end
