(* ===== verification/CodecDefs.thy ===== *)
theory CodecDefs
  imports Utils
begin

text \<open>
  The definitions the codec types are generated from, \<open>tools/codecTypesDefs.ts\<close>, and the
  generator \<open>tools/generateCodecTypes.ts\<close>: the object for polkadot-js and the lines of the Rust
  file. The theory shows that the object is the one checked in as \<open>_definitions.json\<close>, that no
  type of it overwrites another and that every type it mentions is defined in it.
\<close>

section \<open>Definitions as data\<close>

datatype enum_params =
  StructParams "(string \<times> string) list"
| TupleParams "string list"

datatype AnyDef =
  ModDef string "AnyDef list"
| StructDef string "(string \<times> string) list"
| TupleDef string "string list"
| EnumDef string "(string \<times> enum_params option) list"

definition defs_mtc_shop :: "AnyDef list" where
  "defs_mtc_shop =
    [TupleDef ''Catalog'' [''Vec<mtc::shop::CatalogLine>''],
     TupleDef ''CatalogLine'' [''Vec<mtc::Emo>''],
     EnumDef ''PlayerOperation''
      [(''Buy'', Some (StructParams [(''mtc_emo_id'', ''u16''), (''index'', ''u8'')])),
       (''Sell'', Some (StructParams [(''index'', ''u8'')])),
       (''Move'', Some (StructParams [(''indexes'', ''Vec<u8>'')])),
       (''NextCatalogLine'', None),
       (''Upgrade'', None)],
     TupleDef ''BoardLogs'' [''Vec<mtc::shop::BoardLog>''],
     EnumDef ''BoardLog''
      [(''Add'', Some (StructParams [(''index'', ''u8''), (''board_emo'', ''mtc::BoardEmo'')])),
       (''Remove'', Some (StructParams [(''index'', ''u8'')])),
       (''Move'', Some (StructParams [(''from_index'', ''u8''), (''to_index'', ''u8'')])),
       (''IncreaseStats'', Some (StructParams [(''index'', ''u8''), (''attack'', ''u16''),
          (''health'', ''u16''), (''calculated_attack'', ''u16''), (''calculated_health'', ''u16'')])),
       (''AddAbility'', Some (StructParams [(''index'', ''u8''), (''ability'', ''emo::ability::Ability''),
          (''is_target_triple'', ''bool'')])),
       (''Triple'', Some (StructParams [(''removed_indexes'', ''Vec<u8>'')]))]]"

definition defs_mtc_battle :: "AnyDef list" where
  "defs_mtc_battle =
    [TupleDef ''Logs'' [''Vec<mtc::battle::Log>''],
     EnumDef ''Log''
      [(''Attack'', Some (StructParams [(''attack_player_index'', ''u8''), (''attack_emo_index'', ''u8''),
          (''defense_emo_index'', ''u8'')])),
       (''Damage'', Some (StructParams [(''player_index'', ''u8''), (''emo_index'', ''u8''),
          (''damage'', ''u16''), (''health'', ''u16'')])),
       (''Remove'', Some (StructParams [(''player_index'', ''u8''), (''emo_index'', ''u8'')])),
       (''Add'', Some (StructParams [(''player_index'', ''u8''), (''emo_index'', ''u8''),
          (''base_id'', ''u16''), (''attributes'', ''emo::Attributes'')])),
       (''IncreaseStats'', Some (StructParams [(''player_index'', ''u8''), (''emo_index'', ''u8''),
          (''attack'', ''u16''), (''health'', ''u16''), (''calculated_attack'', ''u16''),
          (''calculated_health'', ''u16'')])),
       (''DecreaseStats'', Some (StructParams [(''player_index'', ''u8''), (''emo_index'', ''u8''),
          (''attack'', ''u16''), (''health'', ''u16''), (''calculated_attack'', ''u16''),
          (''calculated_health'', ''u16'')])),
       (''AddBattleAbility'', Some (StructParams [(''player_index'', ''u8''), (''emo_index'', ''u8''),
          (''ability'', ''emo::ability::battle::Battle''), (''is_emo_triple'', ''bool'')])),
       (''RemoveBattleAbility'', Some (StructParams [(''player_index'', ''u8''), (''emo_index'', ''u8''),
          (''ability_index'', ''u8''), (''ability'', ''emo::ability::battle::Battle'')]))]]"

definition defs_mtc_storage :: "AnyDef list" where
  "defs_mtc_storage =
    [StructDef ''PlayerMutable'' [(''health'', ''u8''),
        (''grade_and_board_history'', ''Vec<mtc::GradeAndBoard>''), (''upgrade_coin'', ''Option<u8>''),
        (''ghost_states'', ''Vec<mtc::GhostState>''), (''battle_ghost_index'', ''u8'')]]"

definition defs_mtc :: "AnyDef list" where
  "defs_mtc =
    [StructDef ''Emo'' [(''id'', ''u16''), (''base_id'', ''u16'')],
     StructDef ''GradeAndBoard'' [(''grade'', ''u8''), (''board'', ''mtc::Board'')],
     TupleDef ''Board'' [''Vec<mtc::BoardEmo>''],
     StructDef ''BoardEmo'' [(''mtc_emo_ids'', ''Vec<u16>''), (''base_id'', ''u16''),
        (''attributes'', ''emo::Attributes'')],
     StructDef ''Ghost'' [(''history'', ''Vec<mtc::GradeAndGhostBoard>'')],
     StructDef ''GradeAndGhostBoard'' [(''grade'', ''u8''), (''board'', ''mtc::GhostBoard'')],
     TupleDef ''GhostBoard'' [''Vec<mtc::GhostBoardEmo>''],
     StructDef ''GhostBoardEmo'' [(''base_id'', ''u16''), (''attributes'', ''emo::Attributes'')],
     EnumDef ''GhostState''
      [(''Active'', Some (StructParams [(''health'', ''u8'')])),
       (''Retired'', Some (StructParams [(''final_turn'', ''u8'')]))],
     ModDef ''shop'' defs_mtc_shop,
     ModDef ''battle'' defs_mtc_battle,
     ModDef ''storage'' defs_mtc_storage]"

definition def_shop_NormalAction :: AnyDef where
  "def_shop_NormalAction =
     EnumDef ''NormalAction''
      [(''SetEmo'', Some (StructParams [(''base_id'', ''u16'')])),
       (''IncreaseStats'', Some (StructParams [(''target'', ''emo::ability::Target''),
          (''attack'', ''u16''), (''health'', ''u16'')])),
       (''IncreaseStatsByEmoCount'', Some (StructParams [(''target'', ''emo::ability::Target''),
          (''count_condition'', ''emo::ability::TypOptAndIsTripleOpt''), (''attack'', ''u16''),
          (''health'', ''u16'')])),
       (''IncreaseStatsByGrade'', Some (StructParams [(''target'', ''emo::ability::Target''),
          (''attack'', ''u16''), (''health'', ''u16'')])),
       (''IncreaseStatsOfAdjacentMenagerie'', Some (StructParams [(''attack'', ''u16''),
          (''health'', ''u16'')])),
       (''AddAbility'', Some (StructParams [(''target'', ''emo::ability::Target''),
          (''ability'', ''Box<emo::ability::Ability>'')])),
       (''GetCoin'', Some (StructParams [(''coin'', ''u8'')])),
       (''GetCoinByEmoCountDiv'', Some (StructParams [(''count_condition'', ''emo::ability::TypOptAndIsTripleOpt''),
          (''divisor'', ''u8'')]))]"

definition defs_emo_ability_shop :: "AnyDef list" where
  "defs_emo_ability_shop =
    [EnumDef ''Shop''
      [(''Pre'', Some (TupleParams [''emo::ability::shop::Pre''])),
       (''Peri'', Some (TupleParams [''emo::ability::shop::Peri''])),
       (''Special'', Some (TupleParams [''emo::ability::shop::Special'']))],
     EnumDef ''Pre''
      [(''Normal'', Some (TupleParams [''emo::ability::shop::NormalAction''])),
       (''Random'', Some (TupleParams [''emo::ability::shop::RandomAction'']))],
     EnumDef ''Peri''
      [(''AsOneself'', Some (StructParams [(''trigger'', ''emo::ability::shop::PeriAsOneselfTrigger''),
          (''action'', ''emo::ability::shop::NormalAction'')])),
       (''AsAlly'', Some (StructParams [(''trigger'', ''emo::ability::shop::PeriAsAllyTrigger''),
          (''action'', ''emo::ability::shop::PeriAsAllyAction'')]))],
     EnumDef ''Special''
      [(''Placeholder'', None)],
     EnumDef ''PeriAsOneselfTrigger''
      [(''Set'', None),
       (''Sell'', None),
       (''AllySet'', Some (StructParams [(''typ_and_triple'', ''emo::ability::TypOptAndIsTripleOpt'')]))],
     EnumDef ''PeriAsAllyTrigger''
      [(''AllySet'', Some (StructParams [(''typ_and_triple'', ''emo::ability::TypOptAndIsTripleOpt'')]))],
     EnumDef ''PeriAsAllyAction''
      [(''OneselfTripleNormal'', Some (TupleParams [''emo::ability::shop::NormalAction''])),
       (''Custom'', Some (TupleParams [''emo::ability::shop::AsAllyAction'']))],
     def_shop_NormalAction,
     EnumDef ''RandomAction''
      [(''IncreaseStatsOfMenagerie'', Some (StructParams [(''typ_count'', ''u8''), (''attack'', ''u16''),
          (''health'', ''u16'')]))],
     EnumDef ''AsAllyAction''
      [(''TriggerSetActions'', None)]]"

definition def_battle_NormalAction :: AnyDef where
  "def_battle_NormalAction =
     EnumDef ''NormalAction''
      [(''SetEmo'', Some (StructParams [(''side'', ''emo::ability::Side''), (''base_id'', ''u16'')])),
       (''SetEmosByAttackDiv'', Some (StructParams [(''side'', ''emo::ability::Side''),
          (''base_id'', ''u16''), (''divisor'', ''u8'')])),
       (''IncreaseStats'', Some (StructParams [(''target_or_random'', ''emo::ability::TargetOrRandom''),
          (''attack'', ''u16''), (''health'', ''u16'')])),
       (''DecreaseStats'', Some (StructParams [(''target_or_random'', ''emo::ability::TargetOrRandom''),
          (''attack'', ''u16''), (''health'', ''u16'')])),
       (''IncreaseStatsByEmoCount'', Some (StructParams [(''side'', ''emo::ability::Side''),
          (''target_or_random'', ''emo::ability::TargetOrRandom''),
          (''count_condition'', ''emo::ability::TypOptAndIsTripleOpt''), (''attack'', ''u16''),
          (''health'', ''u16'')])),
       (''AddBattleAbility'', Some (StructParams [(''target_or_random'', ''emo::ability::TargetOrRandom''),
          (''ability'', ''Box<emo::ability::battle::Battle>'')])),
       (''DamageAll'', Some (StructParams [(''side'', ''emo::ability::Side''), (''damage'', ''u16'')]))]"

definition defs_emo_ability_battle :: "AnyDef list" where
  "defs_emo_ability_battle =
    [EnumDef ''Battle''
      [(''General'', Some (TupleParams [''emo::ability::battle::General''])),
       (''Special'', Some (TupleParams [''emo::ability::battle::Special'']))],
     EnumDef ''General''
      [(''AsOneself'', Some (StructParams [(''trigger'', ''emo::ability::battle::GeneralAsOneselfTrigger''),
          (''action'', ''emo::ability::battle::NormalAction'')])),
       (''AsAlly'', Some (StructParams [(''trigger'', ''emo::ability::battle::GeneralAsAllyTrigger''),
          (''action'', ''emo::ability::battle::GeneralAsAllyAction'')]))],
     EnumDef ''Special''
      [(''Shield'', None),
       (''Attractive'', None),
       (''AttackLowestAttack'', None)],
     EnumDef ''GeneralAsOneselfTrigger''
      [(''Pre'', None),
       (''Retire'', None),
       (''AllyRetire'', Some (StructParams [(''typ_and_triple'', ''emo::ability::TypOptAndIsTripleOpt'')])),
       (''RivalRetire'', Some (StructParams [(''typ_and_triple'', ''emo::ability::TypOptAndIsTripleOpt'')])),
       (''AllyBattleAbilityRemoved'', Some (StructParams [(''typ_and_triple'', ''emo::ability::TypOptAndIsTripleOpt''),
          (''excludes_same_base'', ''bool''), (''ability'', ''Box<emo::ability::battle::Battle>'')]))],
     EnumDef ''GeneralAsAllyTrigger''
      [(''AllySet'', Some (StructParams [(''typ_and_triple'', ''emo::ability::TypOptAndIsTripleOpt'')])),
       (''AllyRetire'', Some (StructParams [(''typ_and_triple'', ''emo::ability::TypOptAndIsTripleOpt'')]))],
     EnumDef ''GeneralAsAllyAction''
      [(''OneselfTripleNormal'', Some (TupleParams [''emo::ability::battle::NormalAction''])),
       (''Custom'', Some (TupleParams [''emo::ability::battle::AsAllyAction'']))],
     def_battle_NormalAction,
     EnumDef ''AsAllyAction''
      [(''TriggerRetireActions'', None)]]"

definition defs_emo_ability :: "AnyDef list" where
  "defs_emo_ability =
    [EnumDef ''Ability''
      [(''Shop'', Some (TupleParams [''emo::ability::shop::Shop''])),
       (''Battle'', Some (TupleParams [''emo::ability::battle::Battle'']))],
     ModDef ''shop'' defs_emo_ability_shop,
     ModDef ''battle'' defs_emo_ability_battle,
     EnumDef ''TargetOrRandom''
      [(''Target'', Some (TupleParams [''emo::ability::Target''])),
       (''Random'', Some (StructParams [(''typ_and_triple'', ''emo::ability::TypOptAndIsTripleOpt''),
          (''count'', ''u8'')]))],
     EnumDef ''Target''
      [(''Oneself'', None),
       (''Others'', Some (StructParams [(''destination'', ''emo::ability::Destination''),
          (''typ_and_triple'', ''emo::ability::TypOptAndIsTripleOpt'')]))],
     EnumDef ''Destination''
      [(''Left'', None),
       (''Right'', None),
       (''All'', None)],
     StructDef ''TypOptAndIsTripleOpt'' [(''typ_opt'', ''Option<emo::Typ>''),
        (''is_triple_opt'', ''Option<bool>'')],
     EnumDef ''Side''
      [(''Ally'', None),
       (''Rival'', None)]]"

definition defs_emo :: "AnyDef list" where
  "defs_emo =
    [TupleDef ''Bases'' [''BTreeMap<u16, emo::Base>''],
     StructDef ''Base'' [(''id'', ''u16''), (''typ'', ''emo::Typ''), (''codepoint'', ''u32''),
        (''grade'', ''u8''), (''attack'', ''u16''), (''health'', ''u16''),
        (''abilities'', ''Vec<emo::ability::Ability>'')],
     EnumDef ''Typ''
      [(''Human'', None),
       (''Nature'', None),
       (''Food'', None),
       (''Object'', None)],
     StructDef ''Attributes'' [(''attack'', ''u16''), (''health'', ''u16''),
        (''abilities'', ''Vec<emo::ability::Ability>''), (''is_triple'', ''bool'')],
     ModDef ''ability'' defs_emo_ability]"

definition defs :: "AnyDef list" where
  "defs =
    [ModDef ''mtc'' defs_mtc,
     ModDef ''emo'' defs_emo]"

section \<open>The object for polkadot-js\<close>

datatype ts_value =
  TsStruct "(string, string) jsmap"
| TsAlias string
| TsEnum "(string \<times> string option) list"

definition word_char :: "char \<Rightarrow> bool" where
  "word_char c =
     (let n = of_char c :: nat in
      48 \<le> n \<and> n \<le> 57 \<or> 65 \<le> n \<and> n \<le> 90 \<or> 97 \<le> n \<and> n \<le> 122 \<or> n = 95)"

definition is_word :: "string \<Rightarrow> bool" where
  "is_word s = (s \<noteq> [] \<and> list_all word_char s)"

definition is_digits :: "string \<Rightarrow> bool" where
  "is_digits s = (s \<noteq> [] \<and> list_all (\<lambda>c. digit_value c \<noteq> None) s)"

text \<open>What stands between a fixed prefix and a fixed suffix, when the string has both.\<close>

definition between :: "string \<Rightarrow> string \<Rightarrow> string \<Rightarrow> string option" where
  "between pre suf s =
     (let n = length s - length pre - length suf; m = take n (drop (length pre) s) in
      if s = pre @ m @ suf then Some m else None)"

text \<open>The first separator and what is on its two sides (\<open>\w\<close> matches no separator).\<close>

fun split_first :: "string \<Rightarrow> string \<Rightarrow> (string \<times> string) option" where
  "split_first sep [] = None"
| "split_first sep (c # cs) =
     (if take (length sep) (c # cs) = sep then Some ([], drop (length sep) (c # cs))
      else map_option (\<lambda>(a, b). (c # a, b)) (split_first sep cs))"

definition match_wrapped :: "string \<Rightarrow> string \<Rightarrow> string option" where
  "match_wrapped pre name =
     (case between pre ''>'' name of Some m \<Rightarrow> if is_word m then Some m else None | None \<Rightarrow> None)"

definition match_array :: "string \<Rightarrow> (string \<times> string) option" where
  "match_array name =
     (case between ''['' '']'' name of
        None \<Rightarrow> None
      | Some m \<Rightarrow>
          (case split_first ''; '' m of
             None \<Rightarrow> None
           | Some (a, b) \<Rightarrow> if is_word a \<and> is_digits b then Some (a, b) else None))"

definition match_btree :: "string \<Rightarrow> (string \<times> string) option" where
  "match_btree name =
     (case between ''BTreeMap<'' ''>'' name of
        None \<Rightarrow> None
      | Some m \<Rightarrow>
          (case split_first '', '' m of
             None \<Rightarrow> None
           | Some (a, b) \<Rightarrow> if is_word a \<and> is_word b then Some (a, b) else None))"

text \<open>\<open>n.split("::").join("_")\<close>.\<close>

fun replace_colons :: "string \<Rightarrow> string" where
  "replace_colons (c # d # cs) =
     (if c = CHR '':'' \<and> d = CHR '':'' then CHR ''_'' # replace_colons cs
      else c # replace_colons (d # cs))"
| "replace_colons s = s"

text \<open>Each match overwrites the three variables of those before it.\<close>

definition buildTsValue :: "string \<Rightarrow> string" where
  "buildTsValue name =
     (let st = ('''', name, '''');
          st = (case match_wrapped ''Vec<'' name of None \<Rightarrow> st | Some m \<Rightarrow> (''Vec<'', m, ''>''));
          st = (case match_array name of None \<Rightarrow> st | Some (a, k) \<Rightarrow> (''['', a, ''; '' @ k @ '']''));
          st = (case match_btree name of None \<Rightarrow> st
                | Some (k, v) \<Rightarrow> (''BTreeMap<'' @ k @ '', '', v, ''>''));
          st = (case match_wrapped ''Option<'' name of None \<Rightarrow> st | Some m \<Rightarrow> (''Option<'', m, ''>''));
          st = (case match_wrapped ''Box<'' name of None \<Rightarrow> st | Some m \<Rightarrow> (''Box<'', m, ''>''));
          (pre, n, suf) = st
      in pre @ replace_colons n @ suf)"

definition buildTsName :: "string \<Rightarrow> string list \<Rightarrow> string" where
  "buildTsName name mods = join ''_'' (mods @ [name])"

definition buildTsStructParams :: "(string \<times> string) list \<Rightarrow> (string, string) jsmap" where
  "buildTsStructParams params = foldl (\<lambda>o' (k, v). jsmap_set o' k (buildTsValue v)) [] params"

definition buildTsTupleParams :: "string list \<Rightarrow> string" where
  "buildTsTupleParams params = ''('' @ join '', '' (map buildTsValue params) @ '')''"

definition gen_variant ::
  "string \<Rightarrow> (string \<times> string option) list \<times> (string, ts_value) jsmap \<Rightarrow>
   string \<times> enum_params option \<Rightarrow> (string \<times> string option) list \<times> (string, ts_value) jsmap" where
  "gen_variant name st p =
     (let (en, obj) = st in
      case snd p of
        Some (StructParams ps) \<Rightarrow>
          (let n = name @ ''_'' @ fst p in
           (jsmap_set en (fst p) (Some n), jsmap_set obj n (TsStruct (buildTsStructParams ps))))
      | Some (TupleParams ps) \<Rightarrow> (jsmap_set en (fst p) (Some (buildTsTupleParams ps)), obj)
      | None \<Rightarrow> (jsmap_set en (fst p) None, obj))"

fun genTsObj :: "AnyDef list \<Rightarrow> (string, ts_value) jsmap \<Rightarrow> string list \<Rightarrow> (string, ts_value) jsmap" where
  "genTsObj [] obj mods = obj"
| "genTsObj (ModDef n params # ds) obj mods =
     genTsObj ds (genTsObj params obj (mods @ [n])) mods"
| "genTsObj (StructDef n params # ds) obj mods =
     genTsObj ds (jsmap_set obj (buildTsName n mods) (TsStruct (buildTsStructParams params))) mods"
| "genTsObj (TupleDef n params # ds) obj mods =
     genTsObj ds (jsmap_set obj (buildTsName n mods) (TsAlias (buildTsTupleParams params))) mods"
| "genTsObj (EnumDef n params # ds) obj mods =
     (let name = buildTsName n mods; (en, obj) = foldl (gen_variant name) ([], obj) params in
      genTsObj ds (jsmap_set obj name (TsEnum en)) mods)"

definition ts_object :: "(string, ts_value) jsmap" where
  "ts_object = genTsObj defs [] []"

section \<open>The lines of the Rust file\<close>

definition rsDeriveStatement :: string where
  "rsDeriveStatement =
     ''#[derive(PartialEq, Eq, PartialOrd, Ord, Clone, Hash, Debug, Encode, Decode)]'' @ [CHR 0x0A] @
     ''#[cfg_attr(feature = \"contract-std\", derive(TypeInfo, StorageLayout))]''"

definition rsDeriveDefaultStatement :: string where
  "rsDeriveDefaultStatement =
     ''#[derive(Default, PartialEq, Eq, PartialOrd, Ord, Clone, Hash, Debug, Encode, Decode)]'' @
     [CHR 0x0A] @ ''#[cfg_attr(feature = \"contract-std\", derive(TypeInfo, StorageLayout))]''"

definition rs_variant :: "string \<times> enum_params option \<Rightarrow> string" where
  "rs_variant p =
     (case snd p of
        Some (StructParams ps) \<Rightarrow>
          fst p @ '' { '' @ join '', '' (map (\<lambda>(k, v). k @ '': '' @ v) ps) @ '' },''
      | Some (TupleParams ps) \<Rightarrow> fst p @ '' ('' @ join '', '' ps @ ''),''
      | None \<Rightarrow> fst p @ '','')"

text \<open>The default of an enum is its first variant; \<open>def.params[0]\<close> of none would raise.\<close>

definition rs_default :: "(string \<times> enum_params option) list \<Rightarrow> string js" where
  "rs_default params =
     bindE (orTypeError (js_at params 0)) (\<lambda>p.
       Inr (case snd p of
          Some (StructParams ps) \<Rightarrow>
            ''Self::'' @ fst p @ '' { '' @ join '', '' (map (\<lambda>(k, _). k @ '': Default::default()'') ps) @ '' }''
        | Some (TupleParams ps) \<Rightarrow>
            ''Self::'' @ fst p @ '' ('' @ join '', '' (map (\<lambda>_. ''Default::default()'') ps) @ '')''
        | None \<Rightarrow> ''Self::'' @ fst p))"

fun genRsLines :: "AnyDef list \<Rightarrow> string list \<Rightarrow> string list js" where
  "genRsLines [] lines = Inr lines"
| "genRsLines (ModDef n params # ds) lines =
     bindE (genRsLines params (lines @ [''''] @ [''pub mod '' @ n @ '' {''] @ [''use super::*;'']))
       (\<lambda>lines. genRsLines ds (lines @ [''}'']))"
| "genRsLines (StructDef n params # ds) lines =
     genRsLines ds (lines @ [''''] @ [rsDeriveDefaultStatement] @
       [''pub struct '' @ n @ '' { '' @ join '', '' (map (\<lambda>(k, v). ''pub '' @ k @ '': '' @ v) params) @ '' }''])"
| "genRsLines (TupleDef n params # ds) lines =
     genRsLines ds (lines @ [''''] @ [rsDeriveDefaultStatement] @
       [''pub struct '' @ n @ ''('' @ join '', '' (map (\<lambda>p. ''pub '' @ p) params) @ '');''])"
| "genRsLines (EnumDef n params # ds) lines =
     bindE (rs_default params) (\<lambda>d.
       genRsLines ds (lines @ [''''] @ [rsDeriveStatement] @ [''pub enum '' @ n @ '' {''] @
         map rs_variant params @ [''}''] @ [''impl Default for '' @ n @ '' {''] @
         [''fn default() -> Self {''] @ [d] @ [''}''] @ [''}'']))"

section \<open>The checked-in object\<close>

text \<open>\<open>common/js/src/interfaces/all/_definitions.json\<close>.\<close>

definition definitions_json :: "(string, ts_value) jsmap" where
  "definitions_json =
    [(''mtc_Emo'', TsStruct [(''id'', ''u16''), (''base_id'', ''u16'')]),
     (''mtc_GradeAndBoard'', TsStruct [(''grade'', ''u8''), (''board'', ''mtc_Board'')]),
     (''mtc_Board'', TsAlias ''(Vec<mtc_BoardEmo>)''),
     (''mtc_BoardEmo'', TsStruct [(''mtc_emo_ids'', ''Vec<u16>''), (''base_id'', ''u16''),
      (''attributes'', ''emo_Attributes'')]),
     (''mtc_Ghost'', TsStruct [(''history'', ''Vec<mtc_GradeAndGhostBoard>'')]),
     (''mtc_GradeAndGhostBoard'', TsStruct [(''grade'', ''u8''), (''board'', ''mtc_GhostBoard'')]),
     (''mtc_GhostBoard'', TsAlias ''(Vec<mtc_GhostBoardEmo>)''),
     (''mtc_GhostBoardEmo'', TsStruct [(''base_id'', ''u16''), (''attributes'', ''emo_Attributes'')]),
     (''mtc_GhostState_Active'', TsStruct [(''health'', ''u8'')]),
     (''mtc_GhostState_Retired'', TsStruct [(''final_turn'', ''u8'')]),
     (''mtc_GhostState'', TsEnum [(''Active'', Some ''mtc_GhostState_Active''),
      (''Retired'', Some ''mtc_GhostState_Retired'')]),
     (''mtc_shop_Catalog'', TsAlias ''(Vec<mtc_shop_CatalogLine>)''),
     (''mtc_shop_CatalogLine'', TsAlias ''(Vec<mtc_Emo>)''),
     (''mtc_shop_PlayerOperation_Buy'', TsStruct [(''mtc_emo_id'', ''u16''), (''index'', ''u8'')]),
     (''mtc_shop_PlayerOperation_Sell'', TsStruct [(''index'', ''u8'')]),
     (''mtc_shop_PlayerOperation_Move'', TsStruct [(''indexes'', ''Vec<u8>'')]),
     (''mtc_shop_PlayerOperation'', TsEnum [(''Buy'', Some ''mtc_shop_PlayerOperation_Buy''),
      (''Sell'', Some ''mtc_shop_PlayerOperation_Sell''),
      (''Move'', Some ''mtc_shop_PlayerOperation_Move''), (''NextCatalogLine'', None),
      (''Upgrade'', None)]),
     (''mtc_shop_BoardLogs'', TsAlias ''(Vec<mtc_shop_BoardLog>)''),
     (''mtc_shop_BoardLog_Add'', TsStruct [(''index'', ''u8''), (''board_emo'', ''mtc_BoardEmo'')]),
     (''mtc_shop_BoardLog_Remove'', TsStruct [(''index'', ''u8'')]),
     (''mtc_shop_BoardLog_Move'', TsStruct [(''from_index'', ''u8''), (''to_index'', ''u8'')]),
     (''mtc_shop_BoardLog_IncreaseStats'', TsStruct [(''index'', ''u8''), (''attack'', ''u16''),
      (''health'', ''u16''), (''calculated_attack'', ''u16''), (''calculated_health'', ''u16'')]),
     (''mtc_shop_BoardLog_AddAbility'', TsStruct [(''index'', ''u8''),
      (''ability'', ''emo_ability_Ability''), (''is_target_triple'', ''bool'')]),
     (''mtc_shop_BoardLog_Triple'', TsStruct [(''removed_indexes'', ''Vec<u8>'')]),
     (''mtc_shop_BoardLog'', TsEnum [(''Add'', Some ''mtc_shop_BoardLog_Add''),
      (''Remove'', Some ''mtc_shop_BoardLog_Remove''), (''Move'', Some ''mtc_shop_BoardLog_Move''),
      (''IncreaseStats'', Some ''mtc_shop_BoardLog_IncreaseStats''),
      (''AddAbility'', Some ''mtc_shop_BoardLog_AddAbility''),
      (''Triple'', Some ''mtc_shop_BoardLog_Triple'')]),
     (''mtc_battle_Logs'', TsAlias ''(Vec<mtc_battle_Log>)''),
     (''mtc_battle_Log_Attack'', TsStruct [(''attack_player_index'', ''u8''),
      (''attack_emo_index'', ''u8''), (''defense_emo_index'', ''u8'')]),
     (''mtc_battle_Log_Damage'', TsStruct [(''player_index'', ''u8''), (''emo_index'', ''u8''),
      (''damage'', ''u16''), (''health'', ''u16'')]),
     (''mtc_battle_Log_Remove'', TsStruct [(''player_index'', ''u8''), (''emo_index'', ''u8'')]),
     (''mtc_battle_Log_Add'', TsStruct [(''player_index'', ''u8''), (''emo_index'', ''u8''),
      (''base_id'', ''u16''), (''attributes'', ''emo_Attributes'')]),
     (''mtc_battle_Log_IncreaseStats'', TsStruct [(''player_index'', ''u8''), (''emo_index'', ''u8''),
      (''attack'', ''u16''), (''health'', ''u16''), (''calculated_attack'', ''u16''),
      (''calculated_health'', ''u16'')]),
     (''mtc_battle_Log_DecreaseStats'', TsStruct [(''player_index'', ''u8''), (''emo_index'', ''u8''),
      (''attack'', ''u16''), (''health'', ''u16''), (''calculated_attack'', ''u16''),
      (''calculated_health'', ''u16'')]),
     (''mtc_battle_Log_AddBattleAbility'', TsStruct [(''player_index'', ''u8''), (''emo_index'', ''u8''),
      (''ability'', ''emo_ability_battle_Battle''), (''is_emo_triple'', ''bool'')]),
     (''mtc_battle_Log_RemoveBattleAbility'', TsStruct [(''player_index'', ''u8''),
      (''emo_index'', ''u8''), (''ability_index'', ''u8''), (''ability'', ''emo_ability_battle_Battle'')]),
     (''mtc_battle_Log'', TsEnum [(''Attack'', Some ''mtc_battle_Log_Attack''),
      (''Damage'', Some ''mtc_battle_Log_Damage''), (''Remove'', Some ''mtc_battle_Log_Remove''),
      (''Add'', Some ''mtc_battle_Log_Add''), (''IncreaseStats'', Some ''mtc_battle_Log_IncreaseStats''),
      (''DecreaseStats'', Some ''mtc_battle_Log_DecreaseStats''),
      (''AddBattleAbility'', Some ''mtc_battle_Log_AddBattleAbility''),
      (''RemoveBattleAbility'', Some ''mtc_battle_Log_RemoveBattleAbility'')]),
     (''mtc_storage_PlayerMutable'', TsStruct [(''health'', ''u8''),
      (''grade_and_board_history'', ''Vec<mtc_GradeAndBoard>''), (''upgrade_coin'', ''Option<u8>''),
      (''ghost_states'', ''Vec<mtc_GhostState>''), (''battle_ghost_index'', ''u8'')]),
     (''emo_Bases'', TsAlias ''(BTreeMap<u16, emo_Base>)''),
     (''emo_Base'', TsStruct [(''id'', ''u16''), (''typ'', ''emo_Typ''), (''codepoint'', ''u32''),
      (''grade'', ''u8''), (''attack'', ''u16''), (''health'', ''u16''),
      (''abilities'', ''Vec<emo_ability_Ability>'')]),
     (''emo_Typ'', TsEnum [(''Human'', None), (''Nature'', None), (''Food'', None), (''Object'', None)]),
     (''emo_Attributes'', TsStruct [(''attack'', ''u16''), (''health'', ''u16''),
      (''abilities'', ''Vec<emo_ability_Ability>''), (''is_triple'', ''bool'')]),
     (''emo_ability_Ability'', TsEnum [(''Shop'', Some ''(emo_ability_shop_Shop)''),
      (''Battle'', Some ''(emo_ability_battle_Battle)'')]),
     (''emo_ability_shop_Shop'', TsEnum [(''Pre'', Some ''(emo_ability_shop_Pre)''),
      (''Peri'', Some ''(emo_ability_shop_Peri)''), (''Special'', Some ''(emo_ability_shop_Special)'')]),
     (''emo_ability_shop_Pre'', TsEnum [(''Normal'', Some ''(emo_ability_shop_NormalAction)''),
      (''Random'', Some ''(emo_ability_shop_RandomAction)'')]),
     (''emo_ability_shop_Peri_AsOneself'', TsStruct [(''trigger'', ''emo_ability_shop_PeriAsOneselfTrigger''),
      (''action'', ''emo_ability_shop_NormalAction'')]),
     (''emo_ability_shop_Peri_AsAlly'', TsStruct [(''trigger'', ''emo_ability_shop_PeriAsAllyTrigger''),
      (''action'', ''emo_ability_shop_PeriAsAllyAction'')]),
     (''emo_ability_shop_Peri'', TsEnum [(''AsOneself'', Some ''emo_ability_shop_Peri_AsOneself''),
      (''AsAlly'', Some ''emo_ability_shop_Peri_AsAlly'')]),
     (''emo_ability_shop_Special'', TsEnum [(''Placeholder'', None)]),
     (''emo_ability_shop_PeriAsOneselfTrigger_AllySet'', TsStruct [(''typ_and_triple'', ''emo_ability_TypOptAndIsTripleOpt'')]),
     (''emo_ability_shop_PeriAsOneselfTrigger'', TsEnum [(''Set'', None), (''Sell'', None),
      (''AllySet'', Some ''emo_ability_shop_PeriAsOneselfTrigger_AllySet'')]),
     (''emo_ability_shop_PeriAsAllyTrigger_AllySet'', TsStruct [(''typ_and_triple'', ''emo_ability_TypOptAndIsTripleOpt'')]),
     (''emo_ability_shop_PeriAsAllyTrigger'', TsEnum [(''AllySet'', Some ''emo_ability_shop_PeriAsAllyTrigger_AllySet'')]),
     (''emo_ability_shop_PeriAsAllyAction'', TsEnum [(''OneselfTripleNormal'', Some ''(emo_ability_shop_NormalAction)''),
      (''Custom'', Some ''(emo_ability_shop_AsAllyAction)'')]),
     (''emo_ability_shop_NormalAction_SetEmo'', TsStruct [(''base_id'', ''u16'')]),
     (''emo_ability_shop_NormalAction_IncreaseStats'', TsStruct [(''target'', ''emo_ability_Target''),
      (''attack'', ''u16''), (''health'', ''u16'')]),
     (''emo_ability_shop_NormalAction_IncreaseStatsByEmoCount'', TsStruct [(''target'', ''emo_ability_Target''),
      (''count_condition'', ''emo_ability_TypOptAndIsTripleOpt''), (''attack'', ''u16''),
      (''health'', ''u16'')]),
     (''emo_ability_shop_NormalAction_IncreaseStatsByGrade'', TsStruct [(''target'', ''emo_ability_Target''),
      (''attack'', ''u16''), (''health'', ''u16'')]),
     (''emo_ability_shop_NormalAction_IncreaseStatsOfAdjacentMenagerie'', TsStruct [(''attack'', ''u16''),
      (''health'', ''u16'')]),
     (''emo_ability_shop_NormalAction_AddAbility'', TsStruct [(''target'', ''emo_ability_Target''),
      (''ability'', ''Box<emo_ability_Ability>'')]),
     (''emo_ability_shop_NormalAction_GetCoin'', TsStruct [(''coin'', ''u8'')]),
     (''emo_ability_shop_NormalAction_GetCoinByEmoCountDiv'', TsStruct [(''count_condition'', ''emo_ability_TypOptAndIsTripleOpt''),
      (''divisor'', ''u8'')]),
     (''emo_ability_shop_NormalAction'', TsEnum [(''SetEmo'', Some ''emo_ability_shop_NormalAction_SetEmo''),
      (''IncreaseStats'', Some ''emo_ability_shop_NormalAction_IncreaseStats''),
      (''IncreaseStatsByEmoCount'', Some ''emo_ability_shop_NormalAction_IncreaseStatsByEmoCount''),
      (''IncreaseStatsByGrade'', Some ''emo_ability_shop_NormalAction_IncreaseStatsByGrade''),
      (''IncreaseStatsOfAdjacentMenagerie'', Some ''emo_ability_shop_NormalAction_IncreaseStatsOfAdjacentMenagerie''),
      (''AddAbility'', Some ''emo_ability_shop_NormalAction_AddAbility''),
      (''GetCoin'', Some ''emo_ability_shop_NormalAction_GetCoin''),
      (''GetCoinByEmoCountDiv'', Some ''emo_ability_shop_NormalAction_GetCoinByEmoCountDiv'')]),
     (''emo_ability_shop_RandomAction_IncreaseStatsOfMenagerie'', TsStruct [(''typ_count'', ''u8''),
      (''attack'', ''u16''), (''health'', ''u16'')]),
     (''emo_ability_shop_RandomAction'', TsEnum [(''IncreaseStatsOfMenagerie'', Some ''emo_ability_shop_RandomAction_IncreaseStatsOfMenagerie'')]),
     (''emo_ability_shop_AsAllyAction'', TsEnum [(''TriggerSetActions'', None)]),
     (''emo_ability_battle_Battle'', TsEnum [(''General'', Some ''(emo_ability_battle_General)''),
      (''Special'', Some ''(emo_ability_battle_Special)'')]),
     (''emo_ability_battle_General_AsOneself'', TsStruct [(''trigger'', ''emo_ability_battle_GeneralAsOneselfTrigger''),
      (''action'', ''emo_ability_battle_NormalAction'')]),
     (''emo_ability_battle_General_AsAlly'', TsStruct [(''trigger'', ''emo_ability_battle_GeneralAsAllyTrigger''),
      (''action'', ''emo_ability_battle_GeneralAsAllyAction'')]),
     (''emo_ability_battle_General'', TsEnum [(''AsOneself'', Some ''emo_ability_battle_General_AsOneself''),
      (''AsAlly'', Some ''emo_ability_battle_General_AsAlly'')]),
     (''emo_ability_battle_Special'', TsEnum [(''Shield'', None), (''Attractive'', None),
      (''AttackLowestAttack'', None)]),
     (''emo_ability_battle_GeneralAsOneselfTrigger_AllyRetire'', TsStruct [(''typ_and_triple'', ''emo_ability_TypOptAndIsTripleOpt'')]),
     (''emo_ability_battle_GeneralAsOneselfTrigger_RivalRetire'', TsStruct [(''typ_and_triple'', ''emo_ability_TypOptAndIsTripleOpt'')]),
     (''emo_ability_battle_GeneralAsOneselfTrigger_AllyBattleAbilityRemoved'', TsStruct [(''typ_and_triple'', ''emo_ability_TypOptAndIsTripleOpt''),
      (''excludes_same_base'', ''bool''), (''ability'', ''Box<emo_ability_battle_Battle>'')]),
     (''emo_ability_battle_GeneralAsOneselfTrigger'', TsEnum [(''Pre'', None), (''Retire'', None),
      (''AllyRetire'', Some ''emo_ability_battle_GeneralAsOneselfTrigger_AllyRetire''),
      (''RivalRetire'', Some ''emo_ability_battle_GeneralAsOneselfTrigger_RivalRetire''),
      (''AllyBattleAbilityRemoved'', Some ''emo_ability_battle_GeneralAsOneselfTrigger_AllyBattleAbilityRemoved'')]),
     (''emo_ability_battle_GeneralAsAllyTrigger_AllySet'', TsStruct [(''typ_and_triple'', ''emo_ability_TypOptAndIsTripleOpt'')]),
     (''emo_ability_battle_GeneralAsAllyTrigger_AllyRetire'', TsStruct [(''typ_and_triple'', ''emo_ability_TypOptAndIsTripleOpt'')]),
     (''emo_ability_battle_GeneralAsAllyTrigger'', TsEnum [(''AllySet'', Some ''emo_ability_battle_GeneralAsAllyTrigger_AllySet''),
      (''AllyRetire'', Some ''emo_ability_battle_GeneralAsAllyTrigger_AllyRetire'')]),
     (''emo_ability_battle_GeneralAsAllyAction'', TsEnum [(''OneselfTripleNormal'', Some ''(emo_ability_battle_NormalAction)''),
      (''Custom'', Some ''(emo_ability_battle_AsAllyAction)'')]),
     (''emo_ability_battle_NormalAction_SetEmo'', TsStruct [(''side'', ''emo_ability_Side''),
      (''base_id'', ''u16'')]),
     (''emo_ability_battle_NormalAction_SetEmosByAttackDiv'', TsStruct [(''side'', ''emo_ability_Side''),
      (''base_id'', ''u16''), (''divisor'', ''u8'')]),
     (''emo_ability_battle_NormalAction_IncreaseStats'', TsStruct [(''target_or_random'', ''emo_ability_TargetOrRandom''),
      (''attack'', ''u16''), (''health'', ''u16'')]),
     (''emo_ability_battle_NormalAction_DecreaseStats'', TsStruct [(''target_or_random'', ''emo_ability_TargetOrRandom''),
      (''attack'', ''u16''), (''health'', ''u16'')]),
     (''emo_ability_battle_NormalAction_IncreaseStatsByEmoCount'', TsStruct [(''side'', ''emo_ability_Side''),
      (''target_or_random'', ''emo_ability_TargetOrRandom''),
      (''count_condition'', ''emo_ability_TypOptAndIsTripleOpt''), (''attack'', ''u16''),
      (''health'', ''u16'')]),
     (''emo_ability_battle_NormalAction_AddBattleAbility'', TsStruct [(''target_or_random'', ''emo_ability_TargetOrRandom''),
      (''ability'', ''Box<emo_ability_battle_Battle>'')]),
     (''emo_ability_battle_NormalAction_DamageAll'', TsStruct [(''side'', ''emo_ability_Side''),
      (''damage'', ''u16'')]),
     (''emo_ability_battle_NormalAction'', TsEnum [(''SetEmo'', Some ''emo_ability_battle_NormalAction_SetEmo''),
      (''SetEmosByAttackDiv'', Some ''emo_ability_battle_NormalAction_SetEmosByAttackDiv''),
      (''IncreaseStats'', Some ''emo_ability_battle_NormalAction_IncreaseStats''),
      (''DecreaseStats'', Some ''emo_ability_battle_NormalAction_DecreaseStats''),
      (''IncreaseStatsByEmoCount'', Some ''emo_ability_battle_NormalAction_IncreaseStatsByEmoCount''),
      (''AddBattleAbility'', Some ''emo_ability_battle_NormalAction_AddBattleAbility''),
      (''DamageAll'', Some ''emo_ability_battle_NormalAction_DamageAll'')]),
     (''emo_ability_battle_AsAllyAction'', TsEnum [(''TriggerRetireActions'', None)]),
     (''emo_ability_TargetOrRandom_Random'', TsStruct [(''typ_and_triple'', ''emo_ability_TypOptAndIsTripleOpt''),
      (''count'', ''u8'')]),
     (''emo_ability_TargetOrRandom'', TsEnum [(''Target'', Some ''(emo_ability_Target)''),
      (''Random'', Some ''emo_ability_TargetOrRandom_Random'')]),
     (''emo_ability_Target_Others'', TsStruct [(''destination'', ''emo_ability_Destination''),
      (''typ_and_triple'', ''emo_ability_TypOptAndIsTripleOpt'')]),
     (''emo_ability_Target'', TsEnum [(''Oneself'', None),
      (''Others'', Some ''emo_ability_Target_Others'')]),
     (''emo_ability_Destination'', TsEnum [(''Left'', None), (''Right'', None), (''All'', None)]),
     (''emo_ability_TypOptAndIsTripleOpt'', TsStruct [(''typ_opt'', ''Option<emo_Typ>''),
      (''is_triple_opt'', ''Option<bool>'')]),
     (''emo_ability_Side'', TsEnum [(''Ally'', None), (''Rival'', None)])]"

section \<open>A type value only loses its colons\<close>

lemma replace_colons_Cons: "c \<noteq> CHR '':'' \<Longrightarrow> replace_colons (c # cs) = c # replace_colons cs"
  by (cases cs) auto

lemma replace_colons_prefix:
  "CHR '':'' \<notin> set xs \<Longrightarrow> replace_colons (xs @ ys) = xs @ replace_colons ys"
  by (induction xs) (auto simp: replace_colons_Cons)

lemma replace_colons_none: "CHR '':'' \<notin> set xs \<Longrightarrow> replace_colons xs = xs"
  using replace_colons_prefix [of xs "[]"] by simp

lemma replace_colons_suffix:
  "CHR '':'' \<notin> set ys \<Longrightarrow> replace_colons (xs @ ys) = replace_colons xs @ ys"
proof (induction xs rule: replace_colons.induct)
  case (1 c d cs)
  then show ?case by auto
qed (cases ys; auto simp: replace_colons_none)+

lemma word_no_colon: "is_word s \<Longrightarrow> CHR '':'' \<notin> set s"
  by (auto simp: is_word_def list_all_iff word_char_def)

lemma digits_no_colon: "is_digits s \<Longrightarrow> CHR '':'' \<notin> set s"
  by (auto simp: is_digits_def list_all_iff digit_value_def)

lemma between_Some: "between pre suf s = Some m \<Longrightarrow> s = pre @ m @ suf"
  by (auto simp: between_def Let_def split: if_splits)

lemma split_first_Some: "split_first sep s = Some (a, b) \<Longrightarrow> s = a @ sep @ b"
proof (induction s arbitrary: a)
  case (Cons c cs)
  then show ?case
    by (auto split: if_splits) (metis append_take_drop_id)
qed simp

lemma match_wrapped_Some:
  "match_wrapped pre s = Some m \<Longrightarrow> s = pre @ m @ ''>'' \<and> CHR '':'' \<notin> set m"
  by (auto simp: match_wrapped_def word_no_colon split: option.splits if_splits dest!: between_Some)

lemma match_array_Some:
  "match_array s = Some (a, k) \<Longrightarrow>
   s = ''['' @ a @ ''; '' @ k @ '']'' \<and> CHR '':'' \<notin> set a \<and> CHR '':'' \<notin> set k"
  by (auto simp: match_array_def word_no_colon digits_no_colon split: option.splits if_splits
      dest!: between_Some split_first_Some)

lemma match_btree_Some:
  "match_btree s = Some (k, v) \<Longrightarrow>
   s = ''BTreeMap<'' @ k @ '', '' @ v @ ''>'' \<and> CHR '':'' \<notin> set k \<and> CHR '':'' \<notin> set v"
  by (auto simp: match_btree_def word_no_colon split: option.splits if_splits
      dest!: between_Some split_first_Some)

definition split_ok :: "string \<Rightarrow> string \<times> string \<times> string \<Rightarrow> bool" where
  "split_ok name st \<longleftrightarrow>
     (case st of (pre, n, suf) \<Rightarrow>
        name = pre @ n @ suf \<and> CHR '':'' \<notin> set pre \<and> CHR '':'' \<notin> set suf)"

lemma split_ok_step:
  "split_ok name st \<Longrightarrow> (\<And>m. r = Some m \<Longrightarrow> split_ok name (f m)) \<Longrightarrow>
   split_ok name (case r of None \<Rightarrow> st | Some m \<Rightarrow> f m)"
  by (cases r) auto

lemma buildTsValue_eq: "buildTsValue name = replace_colons name"
proof -
  let ?s1 = "case match_wrapped ''Vec<'' name of None \<Rightarrow> ('''', name, '''') | Some m \<Rightarrow> (''Vec<'', m, ''>'')"
  let ?s2 = "case match_array name of None \<Rightarrow> ?s1 | Some (a, k) \<Rightarrow> (''['', a, ''; '' @ k @ '']'')"
  let ?s3 = "case match_btree name of None \<Rightarrow> ?s2
    | Some (k, v) \<Rightarrow> (''BTreeMap<'' @ k @ '', '', v, ''>'')"
  let ?s4 = "case match_wrapped ''Option<'' name of None \<Rightarrow> ?s3 | Some m \<Rightarrow> (''Option<'', m, ''>'')"
  let ?s5 = "case match_wrapped ''Box<'' name of None \<Rightarrow> ?s4 | Some m \<Rightarrow> (''Box<'', m, ''>'')"
  have "split_ok name ?s1"
    by (rule split_ok_step) (auto simp: split_ok_def dest!: match_wrapped_Some)
  then have "split_ok name ?s2"
    by (rule split_ok_step) (auto simp: split_ok_def dest!: match_array_Some)
  then have "split_ok name ?s3"
    by (rule split_ok_step) (auto simp: split_ok_def dest!: match_btree_Some)
  then have "split_ok name ?s4"
    by (rule split_ok_step) (auto simp: split_ok_def dest!: match_wrapped_Some)
  then have "split_ok name ?s5"
    by (rule split_ok_step) (auto simp: split_ok_def dest!: match_wrapped_Some)
  moreover have "buildTsValue name = (case ?s5 of (pre, n, suf) \<Rightarrow> pre @ replace_colons n @ suf)"
    by (simp only: buildTsValue_def Let_def)
  ultimately show ?thesis
    by (auto simp: split_ok_def replace_colons_prefix replace_colons_suffix split: prod.splits)
qed

section \<open>The entries, one after the other\<close>

definition variant_entries ::
  "string \<Rightarrow> (string \<times> enum_params option) list \<Rightarrow> (string \<times> ts_value) list" where
  "variant_entries name params =
     concat (map (\<lambda>p. case snd p of
         Some (StructParams ps) \<Rightarrow> [(name @ ''_'' @ fst p, TsStruct (buildTsStructParams ps))]
       | _ \<Rightarrow> []) params)"

definition variant_names ::
  "string \<Rightarrow> (string \<times> enum_params option) list \<Rightarrow> (string \<times> string option) list" where
  "variant_names name params =
     foldl (\<lambda>en p. jsmap_set en (fst p)
         (case snd p of
            Some (StructParams ps) \<Rightarrow> Some (name @ ''_'' @ fst p)
          | Some (TupleParams ps) \<Rightarrow> Some (buildTsTupleParams ps)
          | None \<Rightarrow> None)) [] params"

fun entries :: "AnyDef list \<Rightarrow> string list \<Rightarrow> (string \<times> ts_value) list" where
  "entries [] mods = []"
| "entries (ModDef n params # ds) mods = entries params (mods @ [n]) @ entries ds mods"
| "entries (StructDef n params # ds) mods =
     (buildTsName n mods, TsStruct (buildTsStructParams params)) # entries ds mods"
| "entries (TupleDef n params # ds) mods =
     (buildTsName n mods, TsAlias (buildTsTupleParams params)) # entries ds mods"
| "entries (EnumDef n params # ds) mods =
     variant_entries (buildTsName n mods) params @
     (buildTsName n mods, TsEnum (variant_names (buildTsName n mods) params)) # entries ds mods"

abbreviation set_all :: "('k, 'v) jsmap \<Rightarrow> ('k \<times> 'v) list \<Rightarrow> ('k, 'v) jsmap" where
  "set_all obj es \<equiv> foldl (\<lambda>m e. jsmap_set m (fst e) (snd e)) obj es"

lemma gen_variants:
  "foldl (gen_variant name) (en, obj) params =
   (foldl (\<lambda>en p. jsmap_set en (fst p)
      (case snd p of Some (StructParams ps) \<Rightarrow> Some (name @ ''_'' @ fst p)
       | Some (TupleParams ps) \<Rightarrow> Some (buildTsTupleParams ps) | None \<Rightarrow> None)) en params,
    set_all obj (variant_entries name params))"
  by (induction params arbitrary: en obj)
    (auto simp: gen_variant_def variant_entries_def Let_def split: option.split enum_params.split)

lemma genTsObj_entries: "genTsObj ds obj mods = set_all obj (entries ds mods)"
  by (induction ds obj mods rule: genTsObj.induct) (auto simp: gen_variants variant_names_def Let_def)

lemma set_all_append:
  "distinct (map fst (obj @ es)) \<Longrightarrow> set_all obj es = obj @ es"
proof (induction es arbitrary: obj)
  case (Cons e es)
  have "jsmap_set obj (fst e) (snd e) = obj @ [e]"
    using Cons.prems by (induction obj) (auto simp: update_conv')
  with Cons show ?case by simp
qed simp

lemma entries_checked_in: "entries defs [] = definitions_json"
  by (simp add: defs_def defs_mtc_def defs_emo_def defs_emo_ability_def defs_mtc_shop_def
      defs_mtc_battle_def defs_mtc_storage_def defs_emo_ability_shop_def defs_emo_ability_battle_def
      def_shop_NormalAction_def def_battle_NormalAction_def buildTsName_def variant_entries_def
      variant_names_def buildTsStructParams_def buildTsTupleParams_def buildTsValue_eq
      definitions_json_def)

lemma distinct_definitions: "distinct (map fst definitions_json)"
  by code_simp

lemma ts_object_entries: "ts_object = definitions_json"
  using set_all_append [of "[]" definitions_json] distinct_definitions
  by (simp add: ts_object_def genTsObj_entries entries_checked_in)

end
