(* ===== verification/EmoTables.thy ===== *)
theory EmoTables
  imports ShopScreen Connection
begin

text \<open>
  The pages of tables: all bases and those that can be met (\<open>front/src/components/pages/EmoBases/\<close>),
  and the leaderboard (\<open>pages/Leaderboard/\<close>) with the names of addresses (\<open>common/js/src/identity.ts\<close>).
\<close>

section \<open>Array.prototype.sort with a comparator\<close>

text \<open>A stable sort: an element goes before the first that is not less than it.\<close>

fun js_insert :: "('a \<Rightarrow> 'a \<Rightarrow> int) \<Rightarrow> 'a \<Rightarrow> 'a list \<Rightarrow> 'a list" where
  "js_insert cmp x [] = [x]"
| "js_insert cmp x (y # ys) = (if cmp x y \<le> 0 then x # y # ys else y # js_insert cmp x ys)"

definition js_sort :: "('a \<Rightarrow> 'a \<Rightarrow> int) \<Rightarrow> 'a list \<Rightarrow> 'a list" where
  "js_sort cmp xs = foldr (js_insert cmp) xs []"

lemma js_insert_key: "js_insert (\<lambda>a b. int (f a) - int (f b)) x ys = insort_key f x ys"
  by (induction ys) auto

text \<open>A comparator that subtracts keys sorts by the key.\<close>

lemma js_sort_key: "js_sort (\<lambda>a b. int (f a) - int (f b)) xs = sort_key f xs"
proof -
  have "js_insert (\<lambda>a b. int (f a) - int (f b)) = insort_key f"
    by (intro ext js_insert_key)
  then show ?thesis
    by (simp only: js_sort_def sort_key_def)
qed

lemma mset_js_insert [simp]: "mset (js_insert cmp x ys) = add_mset x (mset ys)"
  by (induction ys) auto

lemma mset_js_sort [simp]: "mset (js_sort cmp xs) = mset xs"
  by (induction xs) (simp_all add: js_sort_def)

section \<open>All bases (AllEmos.tsx)\<close>

definition EmoTypSelector :: "string \<Rightarrow> (string \<times> bool) list" where
  "EmoTypSelector active = map (\<lambda>t. (t, t = active)) emoTypsWithAll"

definition typ_shown :: "string \<Rightarrow> emo_Base \<Rightarrow> bool" where
  "typ_shown typ b \<longleftrightarrow> typ = ''All'' \<or> typ = typ_name (eb_typ b)"

definition hex_char :: "nat \<Rightarrow> char" where
  "hex_char d = (if d < 10 then char_of (48 + d) else char_of (87 + d))"

fun show_hex :: "nat \<Rightarrow> string" where
  "show_hex n = (if n < 16 then [hex_char n] else show_hex (n div 16) @ [hex_char (n mod 16)])"

declare show_hex.simps [simp del]

definition by_grade_and_codepoint :: "emo_Base \<Rightarrow> emo_Base \<Rightarrow> int" where
  "by_grade_and_codepoint a b =
     (if eb_grade a \<noteq> eb_grade b then int (toNumber (eb_grade a)) - int (toNumber (eb_grade b))
      else int (toNumber (eb_codepoint a)) - int (toNumber (eb_codepoint b)))"

definition AbilitiesTable ::
  "to_json \<Rightarrow> names \<Rightarrow> EmoBases \<Rightarrow> emo_ability_Ability list \<Rightarrow> bool \<Rightarrow> ability_text list js" where
  "AbilitiesTable json emoNames bases abilities isTriple =
     (if abilities = [] then Inr [] else buildEmoAbilitiesText json emoNames abilities isTriple bases)"

record base_line =
  br_id :: string
  br_typ :: string
  br_emoji :: string
  br_codepoint :: "string \<times> string"
  br_name :: string
  br_numbers :: "string \<times> string \<times> string"
  br_abilities :: "ability_text list"
  br_tripleAbilities :: "ability_text list"

definition base_row :: "to_json \<Rightarrow> names \<Rightarrow> EmoBases \<Rightarrow> emo_Base \<Rightarrow> base_line js" where
  "base_row json emoNames bases b =
     bindE (getEmoBaseEmoji b) (\<lambda>emoji.
     bindE (getEmoBaseName emoNames b) (\<lambda>name.
     bindE (AbilitiesTable json emoNames bases (eb_abilities b) False) (\<lambda>abilities.
     mapR (\<lambda>tripleAbilities.
         \<lparr>br_id = toStringU (eb_id b), br_typ = typ_name (eb_typ b), br_emoji = emoji,
          br_codepoint = (show_nat (toNumber (eb_codepoint b)), show_hex (toNumber (eb_codepoint b))),
          br_name = name,
          br_numbers = (toStringU (eb_grade b), toStringU (eb_attack b), toStringU (eb_health b)),
          br_abilities = abilities, br_tripleAbilities = tripleAbilities\<rparr>)
       (AbilitiesTable json emoNames bases (eb_abilities b) True))))"

definition AllEmos :: "to_json \<Rightarrow> names \<Rightarrow> EmoBases \<Rightarrow> emo_Base list \<Rightarrow> string \<Rightarrow> base_line list js" where
  "AllEmos json emoNames bases bs typ =
     mapE (base_row json emoNames bases) (js_sort by_grade_and_codepoint (filter (typ_shown typ) bs))"

section \<open>The bases that can be met (AvailableEmosByGrades.tsx)\<close>

record availables =
  al_fixed :: "string list"
  al_built :: "string list"

definition compareGrades :: "string \<Rightarrow> string \<Rightarrow> int" where
  "compareGrades g0 g1 =
     (case (parseInt10 g0, parseInt10 g1) of (Some a, Some b) \<Rightarrow> int a - int b | _ \<Rightarrow> 0)"

fun index_of :: "'a \<Rightarrow> 'a list \<Rightarrow> int" where
  "index_of x [] = -1"
| "index_of x (y # ys) = (if x = y then 0 else let i = index_of x ys in if i < 0 then -1 else i + 1)"

text \<open>
  A base with its number in a pool and where it comes from. The number is the module's
  \<open>get_pool_emo_count_by_grade\<close>, which traps on another grade.
\<close>

definition available_entry :: "availables \<Rightarrow> emo_Base \<Rightarrow> (emo_Base \<times> nat \<times> string) js" where
  "available_entry availables m =
     mapR (\<lambda>n. (m, toNumber n, if toStringU (eb_id m) \<in> set (al_fixed availables) then ''fixed'' else ''built''))
       (unwrap (get_pool_emo_count_by_grade (eb_grade m)))"

definition entries_total :: "(emo_Base \<times> nat \<times> string) list \<Rightarrow> nat" where
  "entries_total bases = foldl (\<lambda>acc (_, n, _). acc + n) 0 bases"

definition entries_of :: "string \<Rightarrow> (emo_Base \<times> nat \<times> string) list \<Rightarrow> (emo_Base \<times> nat \<times> string) list" where
  "entries_of t bases = filter (\<lambda>(_, _, t'). t' = t) bases"

text \<open>
  The comparator of a row compares the types of two bases as objects (\<open>a.typ !== b.typ\<close>): two bases
  never share one, so that its second test is never reached.
\<close>

definition by_typ :: "emo_Base \<times> nat \<times> string \<Rightarrow> emo_Base \<times> nat \<times> string \<Rightarrow> int" where
  "by_typ x y = index_of (typ_name (eb_typ (fst x))) emoTyps - index_of (typ_name (eb_typ (fst y))) emoTyps"

record available_line =
  ar_grade :: string
  ar_emos :: "(string \<times> Emo_props) list"
  ar_count :: string
  ar_percent :: string

record available_view =
  aw_counts :: "string \<times> string \<times> string"
  aw_totals :: "string \<times> string \<times> string"
  aw_typs :: "string option"
  aw_rows :: "available_line list"

text \<open>\<open>percent\<close> is the text of the rounded percentage, computed in doubles.\<close>

definition available_row ::
  "(nat \<Rightarrow> nat \<Rightarrow> string) \<Rightarrow> nat \<Rightarrow> string \<times> (emo_Base \<times> nat \<times> string) list \<Rightarrow> available_line js" where
  "available_row percent matchTotal g =
     (let (grade, bases) = g; gradeTotal = entries_total bases in
      bindE (mapE (\<lambda>(base, _, t). mapR (Pair t) (EmoBase base False False)) (js_sort by_typ bases)) (\<lambda>emos.
      bindE (unwrap (get_pool_emo_count_by_grade (case parseInt10 grade of Some n \<Rightarrow> word_of_nat n | None \<Rightarrow> 0))) (\<lambda>n.
        Inr \<lparr>ar_grade = grade, ar_emos = emos,
          ar_count = show_nat (length bases) @ '' * '' @ toStringU n @ '' = '' @ show_nat gradeTotal,
          ar_percent = percent gradeTotal matchTotal\<rparr>)))"

definition AvailableEmosByGrades ::
  "(nat \<Rightarrow> nat \<Rightarrow> string) \<Rightarrow> availables \<Rightarrow> emo_Base list \<Rightarrow> string \<Rightarrow> available_view option js" where
  "AvailableEmosByGrades percent availables bs typ =
     (if al_fixed availables = [] then Inr None
      else
        bindE (mapE (available_entry availables)
            (filter (\<lambda>m. toStringU (eb_id m) \<in> set (al_fixed availables) \<or>
                toStringU (eb_id m) \<in> set (al_built availables)) (filter (typ_shown typ) bs))) (\<lambda>bases.
          let matchTotal = entries_total bases;
              fixed = entries_of ''fixed'' bases; built = entries_of ''built'' bases
          in mapR (\<lambda>rows. Some
              \<lparr>aw_counts = (show_nat (length bases), show_nat (length fixed), show_nat (length built)),
               aw_totals = (show_nat matchTotal, show_nat (entries_total fixed), show_nat (entries_total built)),
               aw_typs =
                 (if typ \<noteq> ''All'' then None
                  else Some (join_with '', '' (map (\<lambda>(typ, bases).
                      typ @ '': '' @ percent (entries_total bases) matchTotal @ ''%'')
                    (js_sort (\<lambda>(a, _) (b, _). index_of a emoTyps - index_of b emoTyps)
                      (groupBy bases (\<lambda>(base, _) _ _. typ_name (eb_typ base))))))),
               aw_rows = rows\<rparr>)
            (mapE (available_row percent matchTotal)
              (js_sort (\<lambda>(g0, _) (g1, _). compareGrades g0 g1)
                (groupBy bases (\<lambda>(base, _) _ _. toStringU (eb_grade base)))))))"

section \<open>Names of addresses (identity.ts)\<close>

text \<open>
  What the identity pallet answers for an address: its parent and the name it has there, and the
  display name of its own identity; a name that is not raw is \<open>None\<close>. \<open>multi\<close> answers for a list of
  addresses in order.
\<close>

record identity_api =
  ia_superOf :: "string \<Rightarrow> (string \<times> string option) option"
  ia_identityOf :: "string \<Rightarrow> string option option"

record child_name =
  ch_parentAddress :: string
  ch_name :: string

definition getChildlen ::
  "string list \<Rightarrow> (string \<Rightarrow> string) \<Rightarrow> identity_api \<Rightarrow> (string, child_name) jsmap" where
  "getChildlen addresses transformAddress api =
     foldl (\<lambda>childMap (address, opt).
         case opt of
           Some (accountId, Some name) \<Rightarrow>
             jsmap_set childMap address \<lparr>ch_parentAddress = transformAddress accountId, ch_name = name\<rparr>
         | _ \<Rightarrow> childMap)
       [] (zip addresses (map (ia_superOf api) addresses))"

definition getParents :: "string list \<Rightarrow> identity_api \<Rightarrow> (string, string) jsmap" where
  "getParents addresses api =
     foldl (\<lambda>parents (address, opt).
         case opt of Some (Some name) \<Rightarrow> jsmap_set parents address name | _ \<Rightarrow> parents)
       [] (zip addresses (map (ia_identityOf api) addresses))"

text \<open>A missing name in a template is \<open>undefined\<close>.\<close>

definition name_step ::
  "(string, child_name) jsmap \<Rightarrow> (string, string) jsmap \<Rightarrow> (string, string) jsmap \<Rightarrow> string \<Rightarrow>
   (string, string) jsmap" where
  "name_step childMap parents addressNames address =
     (let addressNames =
            (case jsmap_get childMap address of
               None \<Rightarrow> addressNames
             | Some child \<Rightarrow> jsmap_set addressNames address
                 ((case jsmap_get parents (ch_parentAddress child) of Some n \<Rightarrow> n | None \<Rightarrow> ''undefined'') @
                  '' / '' @ ch_name child))
      in case jsmap_get parents address of
           None \<Rightarrow> addressNames
         | Some parent \<Rightarrow> if parent = '''' then addressNames else jsmap_set addressNames address parent)"

definition queryAddressNames ::
  "string list \<Rightarrow> (string \<Rightarrow> string) \<Rightarrow> identity_api \<Rightarrow> (string, string) jsmap" where
  "queryAddressNames addresses transformAddress api =
     (if addresses = [] then []
      else
        let childMap = getChildlen addresses transformAddress api;
            parents = getParents (uniqueArray (addresses @ map (ch_parentAddress \<circ> snd) childMap)) api
        in foldl (name_step childMap parents) [] addresses)"

section \<open>The leaderboard (Leaderboard/index.tsx)\<close>

record leader_line =
  lr_rank :: string
  lr_account :: string
  lr_ep :: string
  lr_own :: bool

definition leader_row :: "(string, string) jsmap \<Rightarrow> string list \<Rightarrow> LeaderboardElement \<Rightarrow> leader_line" where
  "leader_row addressNames extensionAddresses l =
     \<lparr>lr_rank = show_nat (le_rank l),
      lr_account = (case jsmap_get addressNames (le_address l) of
          Some name \<Rightarrow> name @ '' ('' @ le_address l @ '')'' | None \<Rightarrow> le_address l),
      lr_ep = show_nat (le_ep l), lr_own = (le_address l \<in> set extensionAddresses)\<rparr>"

text \<open>The table when all that is asked for has been answered.\<close>

definition Leaderboard_table ::
  "'signer Connection \<Rightarrow> 'signer web3 \<Rightarrow> identity_api \<Rightarrow> leader_line list js" where
  "Leaderboard_table connection web3 api =
     mapR (\<lambda>l.
         let leaders = translateLeaderboardCodec l (cn_transformAddress connection);
             addressNames = queryAddressNames (map le_address leaders) (cn_transformAddress connection) api;
             extensionAddresses =
               (if wb_extensions web3 > 0
                then map ea_address (buildExtensionAccounts (wb_accounts web3) connection) else [])
         in map (leader_row addressNames extensionAddresses) leaders)
       (cn_leaderboard connection)"

section \<open>Facts\<close>

lemma by_typ_key: "by_typ x y = int (nat (index_of (typ_name (eb_typ (fst x))) emoTyps)) -
    int (nat (index_of (typ_name (eb_typ (fst y))) emoTyps))"
proof -
  have "0 \<le> index_of (typ_name t) emoTyps" for t
    by (cases t) (simp_all add: typ_name_def emoTyps_def)
  then show ?thesis by (simp add: by_typ_def)
qed

text \<open>A row is in the order of the types alone.\<close>

lemma js_sort_by_typ:
  "js_sort by_typ bases = sort_key (\<lambda>(b, _). nat (index_of (typ_name (eb_typ b)) emoTyps)) bases"
  unfolding by_typ_key [abs_def] js_sort_key by (simp add: case_prod_unfold)

lemma children_lookup:
  "jsmap_get (getChildlen addresses f api) a =
     (if a \<in> set addresses then
        case ia_superOf api a of
          Some (p, Some n) \<Rightarrow> Some \<lparr>ch_parentAddress = f p, ch_name = n\<rparr> | _ \<Rightarrow> None
      else None)"
proof -
  have "jsmap_get (foldl (\<lambda>childMap (address, opt). case opt of
         Some (accountId, Some name) \<Rightarrow>
           jsmap_set childMap address \<lparr>ch_parentAddress = f accountId, ch_name = name\<rparr>
       | _ \<Rightarrow> childMap) [] (zip xs (map (ia_superOf api) xs))) a =
     (if a \<in> set xs then
        case ia_superOf api a of
          Some (p, Some n) \<Rightarrow> Some \<lparr>ch_parentAddress = f p, ch_name = n\<rparr> | _ \<Rightarrow> None
      else None)" for xs
    by (induction xs rule: rev_induct) (auto simp: jsmap_get_set split: option.splits prod.splits)
  then show ?thesis by (simp add: getChildlen_def)
qed

lemma parents_lookup:
  "jsmap_get (getParents addresses api) a =
     (if a \<in> set addresses then case ia_identityOf api a of Some (Some n) \<Rightarrow> Some n | _ \<Rightarrow> None else None)"
proof -
  have "jsmap_get (foldl (\<lambda>parents (address, opt).
         case opt of Some (Some name) \<Rightarrow> jsmap_set parents address name | _ \<Rightarrow> parents)
       [] (zip xs (map (ia_identityOf api) xs))) a =
     (if a \<in> set xs then case ia_identityOf api a of Some (Some n) \<Rightarrow> Some n | _ \<Rightarrow> None else None)" for xs
    by (induction xs rule: rev_induct) (auto simp: jsmap_get_set split: option.splits)
  then show ?thesis by (simp add: getParents_def)
qed

text \<open>
  The name of an address: its own when that is not empty, or that of its parent with the one it has
  there.
\<close>

definition own_name :: "identity_api \<Rightarrow> string \<Rightarrow> string option" where
  "own_name api a = (case ia_identityOf api a of Some n \<Rightarrow> n | None \<Rightarrow> None)"

definition name_of :: "(string \<Rightarrow> string) \<Rightarrow> identity_api \<Rightarrow> string \<Rightarrow> string option" where
  "name_of f api a =
     (case ia_superOf api a of
        Some (p, Some n) \<Rightarrow>
          (case own_name api a of
             Some (c # cs) \<Rightarrow> Some (c # cs)
           | _ \<Rightarrow> Some ((case own_name api (f p) of Some m \<Rightarrow> m | None \<Rightarrow> ''undefined'') @ '' / '' @ n))
      | _ \<Rightarrow> (case own_name api a of Some (c # cs) \<Rightarrow> Some (c # cs) | _ \<Rightarrow> None))"

lemma queryAddressNames_lookup:
  assumes "a \<in> set addresses"
  shows "jsmap_get (queryAddressNames addresses f api) a = name_of f api a"
proof -
  let ?childMap = "getChildlen addresses f api"
  define parents where
    "parents = getParents (uniqueArray (addresses @ map (ch_parentAddress \<circ> snd) ?childMap)) api"
  have parent: "jsmap_get parents b = own_name api b" if "b \<in> set addresses" for b
    using that by (auto simp: parents_def parents_lookup own_name_def split: option.splits)
  have child: "jsmap_get parents (ch_parentAddress c) = own_name api (ch_parentAddress c)"
    if "jsmap_get ?childMap b = Some c" for b c
  proof -
    have "ch_parentAddress c \<in> set (map (ch_parentAddress \<circ> snd) ?childMap)"
      using map_of_SomeD [OF that] by force
    then show ?thesis
      by (auto simp: parents_def parents_lookup own_name_def split: option.splits)
  qed
  have step: "jsmap_get (name_step ?childMap parents m b) a =
      (if a = b then case name_of f api b of Some n \<Rightarrow> Some n | None \<Rightarrow> jsmap_get m a else jsmap_get m a)"
    if b: "b \<in> set addresses" for m b
  proof (cases "jsmap_get ?childMap b")
    case None
    then have "name_of f api b = (case own_name api b of Some (c # cs) \<Rightarrow> Some (c # cs) | _ \<Rightarrow> None)"
      using b by (auto simp: children_lookup name_of_def split: option.splits)
    then show ?thesis
      using None parent [OF b] by (auto simp: name_step_def jsmap_get_set split: option.splits list.splits)
  next
    case (Some c)
    from child [OF Some] have "name_of f api b = (case own_name api b of Some (d # ds) \<Rightarrow> Some (d # ds) | _ \<Rightarrow>
        Some ((case jsmap_get parents (ch_parentAddress c) of Some m \<Rightarrow> m | None \<Rightarrow> ''undefined'') @ '' / '' @ ch_name c))"
      using b Some by (auto simp: children_lookup name_of_def split: option.splits list.splits)
    then show ?thesis
      using Some parent [OF b] by (auto simp: name_step_def Let_def jsmap_get_set split: option.split list.split)
  qed
  have "jsmap_get (foldl (name_step ?childMap parents) [] xs) a = (if a \<in> set xs then name_of f api a else None)"
    if "set xs \<subseteq> set addresses" for xs
    using that
  proof (induction xs rule: rev_induct)
    case (snoc x xs)
    then show ?case
      using step [of x "foldl (name_step ?childMap parents) [] xs"] by (auto split: option.split)
  qed simp
  from this [of addresses] assms show ?thesis
    by (auto simp: queryAddressNames_def Let_def parents_def)
qed

end
