(* ===== verification/RustReplay.thy ===== *)
theory RustReplay
  imports RustMatch
begin

text \<open>
  What the chain and the contract make of the operations the front has recorded:
  \<open>common/rs/src/mtc/shop/player_operation.rs\<close>. The board stays the one \<open>ShopBoard\<close> during the
  replay, where the front takes its board in anew for every operation. The logs, which the build of
  the chain leaves out, are kept; nothing reads them.
\<close>

definition NEXT_CATALOG_LINE_COIN :: u8 where "NEXT_CATALOG_LINE_COIN = 1"
definition EMO_BUY_COIN :: u8 where "EMO_BUY_COIN = 3"
definition LAST_GRADE :: u8 where "LAST_GRADE = 6"
definition MULLIGAN_COUNT :: u8 where "MULLIGAN_COUNT = 2"

text \<open>The mutable variables of \<open>verify_player_operations_and_update\<close>.\<close>

record replay =
  rp_board :: shop_state
  rp_coin :: u8
  rp_line :: u8
  rp_counter :: u8
  rp_sold :: "u16 list"
  rp_grade :: u8
  rp_upgradeCoin :: "u8 option"

definition checked_sub :: "string \<Rightarrow> u8 \<Rightarrow> u8 \<Rightarrow> u8 js" where
  "checked_sub message a b = (if a < b then throwError message else Inr (a - b))"

definition checked_succ :: "string \<Rightarrow> u8 \<Rightarrow> u8 js" where
  "checked_succ message a = (if a = 255 then throwError message else Inr (a + 1))"

definition replay_buy ::
  "mtc_shop_Catalog \<Rightarrow> emo_Bases \<Rightarrow> u16 \<Rightarrow> u8 \<Rightarrow> replay \<Rightarrow> replay js" where
  "replay_buy catalog emo_bases bought_mtc_emo_id bought_emo_index r =
     (if bought_mtc_emo_id \<in> set (rp_sold r) then throwError ''sold emo''
      else if list_ex (\<lambda>board_emo. bought_mtc_emo_id \<in> set (be_mtc_emo_ids board_emo)) (sh_board (rp_board r))
      then throwError ''already on board''
      else
        bindE (checked_sub ''Not enough coin to buy'' (rp_coin r) EMO_BUY_COIN) (\<lambda>coin.
          case js_at catalog (toNumber (rp_line r)) of
            None \<Rightarrow> throwError ''non catalog_line''
          | Some current_catalog_line \<Rightarrow>
              (case find (\<lambda>ec. me_id ec = bought_mtc_emo_id) current_catalog_line of
                 None \<Rightarrow> throwError ''target emo to buy not found''
               | Some mtc_emo \<Rightarrow>
                   bindE (find_base emo_bases (me_base_id mtc_emo)) (\<lambda>base.
                     if \<not> eb_grade base \<le> rp_grade r then throwError ''higher grade''
                     else mapR (\<lambda>(gotten_coin, s). r\<lparr>rp_board := s, rp_coin := saturating_add coin gotten_coin\<rparr>)
                       (add_emo [bought_mtc_emo_id] (eb_id base) False bought_emo_index emo_bases (rp_board r))))))"

definition get_emo_by_index :: "shop_state \<Rightarrow> u8 \<Rightarrow> ShopBoardEmo js" where
  "get_emo_by_index s emo_index =
     (case js_at (sh_board s) (toNumber emo_index) of
        None \<Rightarrow> throwError (''get_emo_by_index: emo not found (index '' @ toStringU emo_index @ '')'')
      | Some e \<Rightarrow> Inr e)"

definition replay_sell :: "emo_Bases \<Rightarrow> u8 \<Rightarrow> replay \<Rightarrow> replay js" where
  "replay_sell emo_bases sold_emo_index r =
     bindE (get_emo_by_index (rp_board r) sold_emo_index) (\<lambda>e.
       mapR (\<lambda>(c, s). r\<lparr>rp_board := s, rp_coin := saturating_add (rp_coin r) c,
           rp_sold := rp_sold r @ be_mtc_emo_ids e\<rparr>)
         (sell_emo sold_emo_index emo_bases (rp_board r)))"

definition emo_indexes :: "shop_state \<Rightarrow> u8 list" where
  "emo_indexes s = map word_of_nat [0..<length (sh_board s)]"

definition position_of :: "'a \<Rightarrow> 'a list \<Rightarrow> nat option" where
  "position_of x xs = map_option fst (find (\<lambda>(_, y). y = x) (List.enumerate 0 xs))"

text \<open>The loop has an iteration for each index of the board, so \<open>idx\<close> is one of \<open>current_indexes\<close>.\<close>

definition mov_step :: "u8 list \<times> shop_state \<Rightarrow> nat \<times> u8 \<Rightarrow> (u8 list \<times> shop_state) js" where
  "mov_step acc p =
     (case (acc, p) of ((current_indexes, s), (idx, result_index)) \<Rightarrow>
        case position_of result_index current_indexes of
          None \<Rightarrow> throwError ''invalid index''
        | Some actual_index \<Rightarrow>
            mapR (Pair (swap_at idx actual_index current_indexes))
              (swap_emos (word_of_nat idx) (word_of_nat actual_index) s))"

definition mov :: "u8 list \<Rightarrow> shop_state \<Rightarrow> shop_state js" where
  "mov result_indexes s =
     (if length (emo_indexes s) \<noteq> length result_indexes then throwError ''invalid indexes len''
      else mapR snd (foldE mov_step (emo_indexes s, s) (List.enumerate 0 result_indexes)))"

definition replay_next_catalog_line :: "u8 \<Rightarrow> replay \<Rightarrow> replay js" where
  "replay_next_catalog_line turn r =
     bindE (if turn > 1 \<or> rp_counter r \<ge> MULLIGAN_COUNT
            then checked_sub ''Not enough coin for next catalog_line'' (rp_coin r) NEXT_CATALOG_LINE_COIN
            else Inr (rp_coin r)) (\<lambda>coin.
     bindE (checked_succ ''invalid counter'' (rp_counter r)) (\<lambda>counter.
     mapR (\<lambda>line. r\<lparr>rp_coin := coin, rp_counter := counter, rp_line := line\<rparr>)
       (checked_succ ''invalid index'' (rp_line r))))"

definition replay_upgrade :: "replay \<Rightarrow> replay js" where
  "replay_upgrade r =
     (case rp_upgradeCoin r of
        Some c \<Rightarrow>
          bindE (checked_sub ''Not enough coin for upgrade'' (rp_coin r) c) (\<lambda>coin.
            if \<not> rp_grade r < LAST_GRADE then throwError ''already last grade''
            else
              let grade = rp_grade r + 1 in
              Inr (r\<lparr>rp_coin := coin, rp_grade := grade, rp_upgradeCoin := get_upgrade_coin grade\<rparr>))
      | None \<Rightarrow> throwError ''no upgrade'')"

definition replay_operation ::
  "mtc_shop_Catalog \<Rightarrow> emo_Bases \<Rightarrow> u8 \<Rightarrow> replay \<Rightarrow> mtc_shop_PlayerOperation \<Rightarrow> replay js" where
  "replay_operation catalog emo_bases turn r op =
     (case op of
        PlayerOperation_Buy (mtc_shop_PlayerOperation_Buy mtc_emo_id index) \<Rightarrow>
          replay_buy catalog emo_bases mtc_emo_id index r
      | PlayerOperation_Sell (mtc_shop_PlayerOperation_Sell index) \<Rightarrow> replay_sell emo_bases index r
      | PlayerOperation_Move (mtc_shop_PlayerOperation_Move indexes) \<Rightarrow>
          mapR (\<lambda>s. r\<lparr>rp_board := s\<rparr>) (mov indexes (rp_board r))
      | PlayerOperation_NextCatalogLine \<Rightarrow> replay_next_catalog_line turn r
      | PlayerOperation_Upgrade \<Rightarrow> replay_upgrade r)"

text \<open>\<open>next_id\<close> is the counter of ids when the call starts. The results are the board, the grade and the price.\<close>

definition verify_player_operations_and_update ::
  "'rng rand_crate \<Rightarrow> u16 \<Rightarrow> mtc_Board \<Rightarrow> u8 \<Rightarrow> u8 option \<Rightarrow> mtc_shop_PlayerOperation list \<Rightarrow> mtc_Emo list \<Rightarrow>
   u64 \<Rightarrow> u8 \<Rightarrow> emo_Bases \<Rightarrow> (mtc_Board \<times> u8 \<times> u8 option) js" where
  "verify_player_operations_and_update rand next_id board grade upgrade_coin ops pool seed turn emo_bases =
     (if \<not> length ops < 200 then throwError ''too big ops''
      else
        bindE (get_catalog rand pool board seed) (\<lambda>catalog.
        bindE (start_shop (shuffle_ids rand) (seed_from_u64 rand) seed emo_bases (taken_in board next_id))
          (\<lambda>(c, s).
        mapR (\<lambda>r. (map into_board_emo (sh_board (rp_board r)), rp_grade r, rp_upgradeCoin r))
          (foldE (replay_operation catalog emo_bases turn)
            \<lparr>rp_board = s, rp_coin = saturating_add (get_initial_coin_by_turn turn) c, rp_line = 0,
             rp_counter = 0, rp_sold = [], rp_grade = grade, rp_upgradeCoin = upgrade_coin\<rparr> ops))))"

end
