(* ===== verification/RustContract.thy ===== *)
theory RustContract
  imports RustReplay
begin

text \<open>
  The contract a match is played on: its storage and messages (\<open>contract/game/src/lib.rs\<close>), its
  functions (\<open>functions.rs\<close>), and what they use of \<open>common/rs/src/mtc/\<close>: \<open>ep.rs\<close>, \<open>finish.rs\<close> and
  \<open>ghost.rs\<close>. An account is its address. A message that panics is reverted, its result is the trap. The
  hash that makes a seed and the functions of the \<open>rand\<close> crate are parameters.
\<close>

section \<open>Points of a player (ep.rs)\<close>

definition INITIAL_EP :: u16 where "INITIAL_EP = 300"
definition EP_BANDWIDTH :: u16 where "EP_BANDWIDTH = 100"
definition MIN_EP :: u16 where "MIN_EP = 1"
definition EP_UNFINISH_PENALTY :: u16 where "EP_UNFINISH_PENALTY = 60"

definition get_ep_band :: "u16 \<Rightarrow> u16" where
  "get_ep_band ep = ep div EP_BANDWIDTH"

definition reduce_ep :: "u16 \<Rightarrow> u16 \<Rightarrow> u16" where
  "reduce_ep ep penalty = (let e = saturating_sub ep penalty in if e > MIN_EP then e else MIN_EP)"

text \<open>Another place than the four panics.\<close>

definition calc_new_ep :: "u8 \<Rightarrow> u16 \<Rightarrow> u16 js" where
  "calc_new_ep place old_ep =
     (case (if place = 1 then Some 70 else if place = 2 then Some 50 else None) of
        Some gain \<Rightarrow>
          Inr (saturating_add
            (if old_ep > INITIAL_EP
             then let x = (old_ep - INITIAL_EP) div 40 in if x < gain then gain - x else 1
             else gain) old_ep)
      | None \<Rightarrow>
          if place = 3 then Inr (reduce_ep old_ep 30)
          else if place = 4 then Inr (reduce_ep old_ep 50)
          else Inl WasmTrap)"

section \<open>The leaderboard (functions.rs)\<close>

definition LEADERBOARD_SIZE :: nat where "LEADERBOARD_SIZE = 100"

text \<open>
  The loop over the entries: \<open>None\<close> is the early return, else the indexes of the account's entry and of
  the first entry that is not above the new points.
\<close>

fun scan_leaderboard ::
  "u16 \<Rightarrow> string \<Rightarrow> nat \<Rightarrow> nat option \<times> nat option \<Rightarrow> (u16 \<times> string) list \<Rightarrow> (nat option \<times> nat option) option"
where
  "scan_leaderboard ep account index acc [] = Some acc"
| "scan_leaderboard ep account index (same_pos, new_pos) ((iter_ep, iter_account) # rest) =
     (if iter_account = account \<and> iter_ep > ep then None
      else
        let same_pos = (if iter_account = account then Some index else same_pos);
            new_pos = (if new_pos = None \<and> iter_ep \<le> ep then Some index else new_pos)
        in if same_pos \<noteq> None \<and> new_pos \<noteq> None then Some (same_pos, new_pos)
           else scan_leaderboard ep account (Suc index) (same_pos, new_pos) rest)"

text \<open>\<open>rotate_right(1)\<close> on the entries from \<open>a\<close> to \<open>b\<close>.\<close>

definition rotate_entries :: "nat \<Rightarrow> nat \<Rightarrow> 'a list \<Rightarrow> 'a list" where
  "rotate_entries a b xs = take a xs @ xs ! b # drop a (take b xs) @ drop (Suc b) xs"

definition update_leaderboard ::
  "(u16 \<times> string) list \<Rightarrow> u16 \<Rightarrow> string \<Rightarrow> (u16 \<times> string) list option js" where
  "update_leaderboard leaderboard ep account =
     (case scan_leaderboard ep account 0 (None, None) leaderboard of
        None \<Rightarrow> Inr None
      | Some (Some same_pos, None) \<Rightarrow> Inl WasmTrap
      | Some (Some same_pos, Some new_pos) \<Rightarrow>
          if same_pos = new_pos \<and> fst (leaderboard ! same_pos) = ep then Inr None
          else
            let leaderboard = leaderboard[same_pos := (ep, snd (leaderboard ! same_pos))] in
            Inr (Some (if new_pos < same_pos then rotate_entries new_pos same_pos leaderboard else leaderboard))
      | Some (None, Some new_pos) \<Rightarrow>
          Inr (Some (take LEADERBOARD_SIZE (take new_pos leaderboard @ (ep, account) # drop new_pos leaderboard)))
      | Some (None, None) \<Rightarrow>
          if length leaderboard < LEADERBOARD_SIZE then Inr (Some (leaderboard @ [(ep, account)])) else Inr None)"

section \<open>Ghosts (ghost.rs)\<close>

definition GHOST_COUNT :: nat where "GHOST_COUNT = 3"

text \<open>The choices of the \<open>rand\<close> crate that are made for ghosts.\<close>

record 'rng ghost_rand =
  gr_seed :: "u64 \<Rightarrow> 'rng"
  gr_choose_multiple :: "'rng \<Rightarrow> nat \<Rightarrow> (string \<times> u8) list \<Rightarrow> (string \<times> u8) list \<times> 'rng"
  gr_shuffle :: "'rng \<Rightarrow> (string \<times> mtc_Ghost) option list \<Rightarrow> (string \<times> mtc_Ghost) option list"

text \<open>The bands from that of the player downwards, until three ghosts are known.\<close>

fun ghosts_infos :: "(u16 \<Rightarrow> string list option) \<Rightarrow> nat \<Rightarrow> nat \<Rightarrow> (u16 \<times> string list) list" where
  "ghosts_infos get_ghosts_info band known =
     (let here = get_ghosts_info (word_of_nat band);
          known = known + (case here of Some v \<Rightarrow> length v | None \<Rightarrow> 0);
          found = (case here of Some v \<Rightarrow> [(word_of_nat band, v)] | None \<Rightarrow> [])
      in if here \<noteq> None \<and> GHOST_COUNT \<le> known then found
         else case band of 0 \<Rightarrow> found | Suc band \<Rightarrow> found @ ghosts_infos get_ghosts_info band known)"

declare ghosts_infos.simps [simp del]

definition with_index :: "'a list \<Rightarrow> ('a \<times> u8) list" where
  "with_index v = map (\<lambda>(i, a). (a, word_of_nat i)) (List.enumerate 0 v)"

definition choose_step ::
  "'rng ghost_rand \<Rightarrow> (u16 \<times> u8 \<Rightarrow> mtc_Ghost option) \<Rightarrow>
   (string \<times> mtc_Ghost) option list \<times> 'rng \<Rightarrow> u16 \<times> string list \<Rightarrow>
   ((string \<times> mtc_Ghost) option list \<times> 'rng) js" where
  "choose_step rand get_ghost acc p =
     (case (acc, p) of ((choosen, rng), (band, v)) \<Rightarrow>
        let (chosen, rng) = gr_choose_multiple rand rng (GHOST_COUNT - length choosen) (with_index v) in
        mapR (\<lambda>new. (choosen @ new, rng))
          (mapE (\<lambda>(a, index). case get_ghost (band, index) of
               None \<Rightarrow> Inl WasmTrap | Some g \<Rightarrow> Inr (Some (a, g))) chosen))"

definition choose_ghosts ::
  "'rng ghost_rand \<Rightarrow> u16 \<Rightarrow> u64 \<Rightarrow> (u16 \<Rightarrow> string list option) \<Rightarrow> (u16 \<times> u8 \<Rightarrow> mtc_Ghost option) \<Rightarrow>
   (string \<times> mtc_Ghost) option list js" where
  "choose_ghosts rand ep seed get_ghosts_info get_ghost =
     mapR (\<lambda>(choosen, rng).
         let choosen = gr_shuffle rand rng choosen in
         choosen @ replicate (GHOST_COUNT - length choosen) None)
       (foldE (choose_step rand get_ghost) ([], gr_seed rand seed)
         (ghosts_infos get_ghosts_info (toNumber (get_ep_band ep)) 0))"

definition build_ghost_board_from_board :: "mtc_Board \<Rightarrow> mtc_GhostBoard" where
  "build_ghost_board_from_board board =
     map (\<lambda>be. \<lparr>be_base_id = be_base_id be, be_attributes = be_attributes be\<rparr>) board"

definition build_ghost_from_history :: "mtc_GradeAndBoard list \<Rightarrow> mtc_Ghost" where
  "build_ghost_from_history history =
     \<lparr>gh_history = map (\<lambda>h. \<lparr>gg_grade = gb_grade h, gg_board = build_ghost_board_from_board (gb_board h)\<rparr>) history\<rparr>"

section \<open>The state of a match (finish.rs, functions.rs)\<close>

definition get_turn_and_previous_grade_and_board :: "mtc_GradeAndBoard list \<Rightarrow> (u8 \<times> u8 \<times> mtc_Board) js" where
  "get_turn_and_previous_grade_and_board history =
     (let turn = word_of_nat (length history) + 1 :: u8;
          l = (if history = [] then \<lparr>gb_grade = 1, gb_board = []\<rparr> else last history)
      in if turn < 40 then Inr (turn, gb_grade l, gb_board l) else Inl WasmTrap)"

definition initial_ghost_health :: "u16 \<Rightarrow> u8" where
  "initial_ghost_health ep =
     (let band = get_ep_band ep in
      if band = 0 then 14 else if band = 1 then 16 else if band = 2 then 18 else if band = 3 then 20
      else if band = 4 then 22 else if band = 5 then 24 else if band = 6 then 26 else if band = 7 then 28
      else 30)"

definition build_contract_ghost_states :: "u16 \<Rightarrow> mtc_GhostState list" where
  "build_contract_ghost_states ep =
     replicate 3 (GhostState_Active (mtc_GhostState_Active (initial_ghost_health ep)))"

definition update_player_mtc_mutable_after_battle ::
  "'rng rand_crate \<Rightarrow> u64 \<Rightarrow> mtc_storage_PlayerMutable \<Rightarrow> mtc_storage_PlayerMutable js" where
  "update_player_mtc_mutable_after_battle rand new_seed m =
     mapR (\<lambda>i. m\<lparr>pm_upgrade_coin := decrease_upgrade_coin (pm_upgrade_coin m), pm_battle_ghost_index := i\<rparr>)
       (unwrap (select_battle_ghost_index rand (pm_ghost_states m) (pm_battle_ghost_index m) new_seed))"

section \<open>The storage (lib.rs)\<close>

type_synonym player_immutable = "mtc_Emo list \<times> (string \<times> mtc_Ghost) option list"

record contract =
  ct_admins :: "string list"
  ct_emo_bases :: "emo_Bases option"
  ct_deck_fixed_emo_base_ids :: "u16 list option"
  ct_deck_built_emo_base_ids :: "u16 list option"
  ct_matchmaking_ghosts_info :: "u16 \<rightharpoonup> (u32 \<times> string) list"
  ct_matchmaking_ghost_by_index :: "u16 \<times> u8 \<rightharpoonup> mtc_Ghost"
  ct_leaderboard :: "(u16 \<times> string) list option"
  ct_player_ep :: "string \<rightharpoonup> u16"
  ct_player_seed :: "string \<rightharpoonup> u64"
  ct_player_mtc_immutable :: "string \<rightharpoonup> player_immutable"
  ct_player_mtc_mutable :: "string \<rightharpoonup> mtc_storage_PlayerMutable"

text \<open>
  A call: the caller, which must be the origin, the number of the block, and the hash of a subject, an
  account and the time of the block, of which the first bytes are a seed.
\<close>

record call =
  cl_caller :: string
  cl_caller_is_origin :: bool
  cl_block_number :: u32
  cl_random :: "string \<Rightarrow> string \<Rightarrow> u64"

definition or_trap :: "'a option \<Rightarrow> 'a js" where
  "or_trap x = (case x of None \<Rightarrow> Inl WasmTrap | Some a \<Rightarrow> Inr a)"

definition get_leaderboard :: "contract \<Rightarrow> (u16 \<times> string) list" where
  "get_leaderboard ct = (case ct_leaderboard ct of Some l \<Rightarrow> l | None \<Rightarrow> [])"

definition get_insecure_random_seed :: "call \<Rightarrow> string \<Rightarrow> string \<Rightarrow> u64 js" where
  "get_insecure_random_seed cl account_id subject =
     (if cl_caller_is_origin cl then Inr (cl_random cl subject account_id) else Inl WasmTrap)"

section \<open>Starting a match\<close>

definition create_or_update_player_ep :: "string \<Rightarrow> contract \<Rightarrow> u16 \<times> contract" where
  "create_or_update_player_ep player ct =
     (case ct_player_ep ct player of
        Some old_ep \<Rightarrow>
          if ct_player_mtc_mutable ct player = None then (old_ep, ct)
          else let new_ep = reduce_ep old_ep EP_UNFINISH_PENALTY in
               (new_ep, ct\<lparr>ct_player_ep := (ct_player_ep ct)(player \<mapsto> new_ep)\<rparr>)
      | None \<Rightarrow> (INITIAL_EP, ct\<lparr>ct_player_ep := (ct_player_ep ct)(player \<mapsto> INITIAL_EP)\<rparr>))"

definition start_mtc :: "'rng ghost_rand \<Rightarrow> call \<Rightarrow> u16 list \<Rightarrow> contract \<Rightarrow> contract js" where
  "start_mtc rand cl deck_emo_base_ids ct =
     (let player = cl_caller cl in
      bindE (get_insecure_random_seed cl player ''start_mtc'') (\<lambda>seed.
        let (ep, ct) = create_or_update_player_ep player ct;
            ct = ct\<lparr>ct_player_seed := (ct_player_seed ct)(player \<mapsto> seed)\<rparr>
        in
        bindE (or_trap (ct_emo_bases ct)) (\<lambda>emo_bases.
        bindE (or_trap (ct_deck_fixed_emo_base_ids ct)) (\<lambda>fixed.
        bindE (or_trap (ct_deck_built_emo_base_ids ct)) (\<lambda>built.
        bindE (unwrap (build_pool deck_emo_base_ids emo_bases fixed built)) (\<lambda>pool.
        mapR (\<lambda>ghosts.
            ct\<lparr>ct_player_mtc_immutable := (ct_player_mtc_immutable ct)(player \<mapsto> (pool, ghosts)),
               ct_player_mtc_mutable := (ct_player_mtc_mutable ct)(player \<mapsto>
                 \<lparr>pm_health = PLAYER_INITIAL_HEALTH, pm_grade_and_board_history = [],
                  pm_upgrade_coin = get_upgrade_coin 2, pm_ghost_states = build_contract_ghost_states ep,
                  pm_battle_ghost_index = 0\<rparr>)\<rparr>)
          (choose_ghosts rand ep seed (\<lambda>band. map_option (map snd) (ct_matchmaking_ghosts_info ct band))
            (ct_matchmaking_ghost_by_index ct))))))))"

section \<open>Finishing a shop\<close>

text \<open>The oldest entry of a band, the first of them.\<close>

definition oldest_step :: "nat \<times> u32 \<Rightarrow> nat \<times> u32 \<Rightarrow> nat \<times> u32" where
  "oldest_step oldest p = (if snd p < snd oldest then p else oldest)"

definition oldest_index :: "(u32 \<times> string) list \<Rightarrow> nat" where
  "oldest_index info =
     (case List.enumerate 0 (map fst info) of [] \<Rightarrow> 0 | p # ps \<Rightarrow> fst (foldl oldest_step p ps))"

definition place_ghost_info ::
  "string \<Rightarrow> u32 \<times> string \<Rightarrow> (u32 \<times> string) list \<Rightarrow> (u32 \<times> string) list \<times> nat" where
  "place_ghost_info player element info =
     (case position_of player (map snd info) of
        Some i \<Rightarrow> (info[i := element], i)
      | None \<Rightarrow>
          if length info < 20 then (info @ [element], length info)
          else let i = oldest_index info in (info[i := element], i))"

definition add_matchmaking_ghost ::
  "call \<Rightarrow> string \<Rightarrow> u16 \<Rightarrow> mtc_GradeAndBoard list \<Rightarrow> contract \<Rightarrow> contract" where
  "add_matchmaking_ghost cl player ep history ct =
     (let ep_band = get_ep_band ep;
          element = (cl_block_number cl, player);
          (info, index) =
            (case ct_matchmaking_ghosts_info ct ep_band of
               Some info \<Rightarrow> place_ghost_info player element info
             | None \<Rightarrow> ([element], 0))
      in ct\<lparr>ct_matchmaking_ghosts_info := (ct_matchmaking_ghosts_info ct)(ep_band \<mapsto> info),
            ct_matchmaking_ghost_by_index :=
              (ct_matchmaking_ghost_by_index ct)((ep_band, word_of_nat index) \<mapsto> build_ghost_from_history history)\<rparr>)"

definition finish_mtc :: "call \<Rightarrow> string \<Rightarrow> u8 \<Rightarrow> mtc_GradeAndBoard list \<Rightarrow> contract \<Rightarrow> contract js" where
  "finish_mtc cl player place history ct =
     bindE (or_trap (ct_player_ep ct player)) (\<lambda>old_ep.
     bindE (calc_new_ep place old_ep) (\<lambda>new_ep.
     bindE (update_leaderboard (get_leaderboard ct) new_ep player) (\<lambda>leaderboard.
       let ct = (case leaderboard of Some l \<Rightarrow> ct\<lparr>ct_leaderboard := Some l\<rparr> | None \<Rightarrow> ct);
           ct = ct\<lparr>ct_player_ep := (ct_player_ep ct)(player \<mapsto> new_ep)\<rparr>
       in if history = [] then Inl WasmTrap
          else
            let ct = (if gb_board (last history) \<noteq> [] then add_matchmaking_ghost cl player old_ep history ct else ct)
            in Inr (ct\<lparr>ct_player_mtc_immutable := (ct_player_mtc_immutable ct)(player := None),
                 ct_player_mtc_mutable := (ct_player_mtc_mutable ct)(player := None)\<rparr>))))"

definition finish_mtc_turn ::
  "'rng rand_crate \<Rightarrow> string \<Rightarrow> mtc_storage_PlayerMutable \<Rightarrow> u64 \<Rightarrow> contract \<Rightarrow> contract js" where
  "finish_mtc_turn rand player m new_seed ct =
     mapR (\<lambda>m. ct\<lparr>ct_player_mtc_mutable := (ct_player_mtc_mutable ct)(player \<mapsto> m)\<rparr>)
       (update_player_mtc_mutable_after_battle rand new_seed m)"

definition update_for_finish_mtc_shop ::
  "'rng rand_crate \<Rightarrow> call \<Rightarrow> string \<Rightarrow> u8 \<Rightarrow> mtc_Board \<Rightarrow> u64 \<Rightarrow> mtc_storage_PlayerMutable \<Rightarrow> u8 option \<Rightarrow>
   contract \<Rightarrow> contract js" where
  "update_for_finish_mtc_shop rand cl player grade board new_seed m final_place ct =
     (let m = m\<lparr>pm_grade_and_board_history := pm_grade_and_board_history m @ [\<lparr>gb_grade = grade, gb_board = board\<rparr>]\<rparr>
      in mapR (\<lambda>ct. ct\<lparr>ct_player_seed := (ct_player_seed ct)(player \<mapsto> new_seed)\<rparr>)
        (case final_place of
           Some place \<Rightarrow> finish_mtc cl player place (pm_grade_and_board_history m) ct
         | None \<Rightarrow> finish_mtc_turn rand player m new_seed ct))"

definition ghosts_or_default :: "(string \<times> mtc_Ghost) option list \<Rightarrow> mtc_Ghost list" where
  "ghosts_or_default ghosts = map (\<lambda>o'. case o' of Some (_, g) \<Rightarrow> g | None \<Rightarrow> \<lparr>gh_history = []\<rparr>) ghosts"

text \<open>\<open>next_id\<close> is the counter of the ids of emojis when the message starts.\<close>

definition finish_mtc_shop ::
  "'rng rand_crate \<Rightarrow> march \<Rightarrow> u16 \<Rightarrow> call \<Rightarrow> mtc_shop_PlayerOperation list \<Rightarrow> contract \<Rightarrow> contract js" where
  "finish_mtc_shop rand march next_id cl ops ct =
     (let player = cl_caller cl in
      bindE (or_trap (ct_emo_bases ct)) (\<lambda>emo_bases.
      bindE (or_trap (ct_player_mtc_immutable ct player)) (\<lambda>(pool, ghosts).
      bindE (or_trap (ct_player_mtc_mutable ct player)) (\<lambda>m.
      bindE (get_turn_and_previous_grade_and_board (pm_grade_and_board_history m)) (\<lambda>(turn, grade, board).
      bindE (or_trap (ct_player_seed ct player)) (\<lambda>seed.
      bindE (unwrap (verify_player_operations_and_update rand next_id board grade (pm_upgrade_coin m) ops pool
               seed turn emo_bases)) (\<lambda>(board, grade, upgrade_coin).
      bindE (get_insecure_random_seed cl player ''finish_mtc_shop'') (\<lambda>new_seed.
      bindE (unwrap (battle_all march board (pm_health m) (pm_ghost_states m) grade (ghosts_or_default ghosts)
               (pm_battle_ghost_index m) turn new_seed emo_bases)) (\<lambda>(health, ghost_states, final_place).
        update_for_finish_mtc_shop rand cl player grade board new_seed
          (m\<lparr>pm_health := health, pm_ghost_states := ghost_states, pm_upgrade_coin := upgrade_coin\<rparr>)
          final_place ct)))))))))"

section \<open>Administration (lib.rs, emo_bases.rs)\<close>

definition new_contract :: "call \<Rightarrow> contract" where
  "new_contract cl =
     \<lparr>ct_admins = [cl_caller cl], ct_emo_bases = None, ct_deck_fixed_emo_base_ids = None,
      ct_deck_built_emo_base_ids = None, ct_matchmaking_ghosts_info = Map.empty,
      ct_matchmaking_ghost_by_index = Map.empty, ct_leaderboard = None, ct_player_ep = Map.empty,
      ct_player_seed = Map.empty, ct_player_mtc_immutable = Map.empty, ct_player_mtc_mutable = Map.empty\<rparr>"

definition assert_admin :: "call \<Rightarrow> contract \<Rightarrow> unit js" where
  "assert_admin cl ct = (if cl_caller cl \<in> set (ct_admins ct) then Inr () else Inl WasmTrap)"

definition add_admin :: "call \<Rightarrow> string \<Rightarrow> contract \<Rightarrow> contract js" where
  "add_admin cl account_id ct =
     mapR (\<lambda>_. ct\<lparr>ct_admins := ct_admins ct @ [account_id]\<rparr>) (assert_admin cl ct)"

definition remove_admin :: "call \<Rightarrow> string \<Rightarrow> contract \<Rightarrow> contract js" where
  "remove_admin cl account_id ct =
     mapR (\<lambda>_. ct\<lparr>ct_admins := filter (\<lambda>a. a \<noteq> account_id) (ct_admins ct)\<rparr>) (assert_admin cl ct)"

text \<open>The order of the map of bases is that of insertion; Rust only looks a base up by its id.\<close>

definition check_and_build_emo_bases ::
  "emo_Bases option \<Rightarrow> emo_Bases \<Rightarrow> u16 list \<Rightarrow> u16 list \<Rightarrow> bool \<Rightarrow> emo_Bases js" where
  "check_and_build_emo_bases bases_opt new_bases fixed_base_ids built_base_ids force_bases_update =
     (let bases = (case bases_opt of Some b \<Rightarrow> b | None \<Rightarrow> []);
          bases =
            (if force_bases_update then new_bases
             else foldl (\<lambda>bases (i, value).
                 if jsmap_get bases i \<noteq> None then bases else jsmap_set bases i value) bases new_bases);
          base_keys = map fst bases
      in if \<not> list_all (\<lambda>i. i \<in> set base_keys) fixed_base_ids
         then throwError ''invalid emo bases: fixed_base_ids''
         else if \<not> list_all (\<lambda>i. i \<in> set base_keys) built_base_ids
         then throwError ''invalid emo bases: built_base_ids''
         else Inr bases)"

definition update_emo_bases ::
  "call \<Rightarrow> emo_Bases \<Rightarrow> u16 list \<Rightarrow> u16 list \<Rightarrow> bool \<Rightarrow> contract \<Rightarrow> contract js" where
  "update_emo_bases cl new_bases fixed_base_ids built_base_ids force_bases_update ct =
     bindE (assert_admin cl ct) (\<lambda>_.
       mapR (\<lambda>bases. ct\<lparr>ct_emo_bases := Some bases, ct_deck_fixed_emo_base_ids := Some fixed_base_ids,
            ct_deck_built_emo_base_ids := Some built_base_ids\<rparr>)
         (unwrap (check_and_build_emo_bases (ct_emo_bases ct) new_bases fixed_base_ids built_base_ids
            force_bases_update)))"

end
