(* ===== verification/Leaderboard.thy ===== *)
theory Leaderboard
  imports RustContract
begin

text \<open>
  The leaderboard of the contract (\<open>update_leaderboard\<close>, \<open>contract/game/src/functions.rs\<close>) against a
  reference: the account is taken out and put before the first entry that is not above its new
  points, unless it has an entry above them.
\<close>

definition above :: "u16 \<Rightarrow> u16 \<times> string \<Rightarrow> bool" where
  "above ep p \<longleftrightarrow> ep < fst p"

definition ranked :: "u16 \<Rightarrow> string \<Rightarrow> (u16 \<times> string) list \<Rightarrow> (u16 \<times> string) list" where
  "ranked ep account l =
     (if list_ex (\<lambda>p. snd p = account \<and> above ep p) l then l
      else let others = filter (\<lambda>p. snd p \<noteq> account) l
           in take LEADERBOARD_SIZE (takeWhile (above ep) others @ (ep, account) # dropWhile (above ep) others))"

definition leaderboard_ok :: "(u16 \<times> string) list \<Rightarrow> bool" where
  "leaderboard_ok l \<longleftrightarrow>
     sorted_wrt (\<lambda>p q. fst q \<le> fst p) l \<and> distinct (map snd l) \<and> length l \<le> LEADERBOARD_SIZE"

abbreviation others :: "string \<Rightarrow> (u16 \<times> string) list \<Rightarrow> bool" where
  "others account xs \<equiv> list_all (\<lambda>p. snd p \<noteq> account) xs"

lemma scan_above:
  "list_all (above ep) xs \<Longrightarrow> others account xs \<Longrightarrow>
   scan_leaderboard ep account i (None, None) (xs @ ys) =
   scan_leaderboard ep account (i + length xs) (None, None) ys"
  by (induction xs arbitrary: i) (auto simp: above_def Let_def)

lemma scan_rest:
  "others account xs \<Longrightarrow>
   scan_leaderboard ep account i (None, Some k) (xs @ ys) =
   scan_leaderboard ep account (i + length xs) (None, Some k) ys"
  by (induction xs arbitrary: i) (auto simp: Let_def)

lemma scan_first_below:
  assumes "list_all (above ep) hi" "others account hi" "\<not> above ep p" "snd p \<noteq> account"
  shows "scan_leaderboard ep account 0 (None, None) (hi @ p # lo) =
    scan_leaderboard ep account (Suc (length hi)) (None, Some (length hi)) lo"
  unfolding scan_above [OF assms(1,2)] using assms(3,4) by (cases p) (simp add: above_def not_less)

lemma scan_absent:
  assumes "list_all (above ep) hi" "list_all (\<lambda>p. \<not> above ep p) lo" "others account (hi @ lo)"
  shows "scan_leaderboard ep account 0 (None, None) (hi @ lo) =
    Some (None, if lo = [] then None else Some (length hi))"
proof (cases lo)
  case Nil
  then show ?thesis using scan_above [of ep hi account 0 "[]"] assms by simp
next
  case (Cons p lo')
  then have "scan_leaderboard ep account 0 (None, None) (hi @ lo) =
      scan_leaderboard ep account (Suc (length hi)) (None, Some (length hi)) (lo' @ [])"
    using assms by (simp add: scan_first_below)
  also have "\<dots> = Some (None, Some (length hi))"
    using scan_rest [of account lo' ep "Suc (length hi)" "length hi" "[]"] assms(3) Cons by simp
  finally show ?thesis by (simp add: Cons)
qed

lemma scan_present:
  assumes "list_all (above ep) hi" "list_all (\<lambda>p. \<not> above ep p) (lo @ (e, account) # lo')"
    and "others account (hi @ lo)"
  shows "scan_leaderboard ep account 0 (None, None) (hi @ lo @ (e, account) # lo') =
    Some (Some (length hi + length lo), Some (length hi))"
proof (cases lo)
  case Nil
  have "others account hi" using assms(3) by simp
  from scan_above [OF assms(1) this] show ?thesis
    using assms(2) Nil by (simp add: above_def not_less Let_def)
next
  case (Cons p lo1)
  then have "scan_leaderboard ep account 0 (None, None) (hi @ lo @ (e, account) # lo') =
      scan_leaderboard ep account (Suc (length hi)) (None, Some (length hi)) (lo1 @ (e, account) # lo')"
    using assms by (simp add: scan_first_below)
  also have "\<dots> = Some (Some (length hi + length lo), Some (length hi))"
    using scan_rest [of account lo1 ep "Suc (length hi)" "length hi" "(e, account) # lo'"] assms(2,3) Cons
    by (simp add: above_def not_less Let_def)
  finally show ?thesis .
qed

lemma scan_higher:
  assumes "list_all (above ep) hi" "(e, account) \<in> set hi"
  shows "scan_leaderboard ep account 0 (None, None) (hi @ lo) = None"
proof -
  have "\<exists>p\<in>set hi. snd p = account" using assms(2) by force
  then obtain xs p ys where hi: "hi = xs @ p # ys" "snd p = account" "\<forall>q\<in>set xs. snd q \<noteq> account"
    using split_list_first_prop [of hi "\<lambda>p. snd p = account"] by blast
  have "others account xs" "list_all (above ep) xs" "above ep p"
    using hi assms(1) by (auto simp: list_all_iff)
  with scan_above [OF this(2,1)] hi(2) show ?thesis
    by (cases p) (simp add: hi(1) above_def)
qed

lemma sorted_split:
  assumes "sorted_wrt (\<lambda>p q. fst q \<le> fst p) l"
  shows "list_all (\<lambda>p. \<not> above ep p) (dropWhile (above ep) l)"
  using assms
proof (induction l)
  case (Cons p l)
  show ?case
  proof (cases "above ep p")
    case True
    then show ?thesis using Cons by simp
  next
    case False
    have "\<forall>q\<in>set l. fst q \<le> fst p" using Cons.prems by simp
    then have "list_all (\<lambda>q. \<not> above ep q) l"
      unfolding list_all_iff above_def using False [unfolded above_def] order.strict_trans2 by blast
    then show ?thesis using False by simp
  qed
qed simp

lemma takeWhile_hi_lo:
  assumes "list_all P hi" "list_all (\<lambda>x. \<not> P x) lo"
  shows "takeWhile P (hi @ lo) = hi" "dropWhile P (hi @ lo) = lo"
proof -
  have "takeWhile P lo = []" "dropWhile P lo = lo"
    using assms(2) by (cases lo; simp)+
  then show "takeWhile P (hi @ lo) = hi" "dropWhile P (hi @ lo) = lo"
    using assms(1) by (induction hi) simp_all
qed

lemma rotate_entries_split:
  "rotate_entries (length hi) (length hi + length lo) (hi @ lo @ x # lo') = hi @ x # lo @ lo'"
  by (simp add: rotate_entries_def nth_append)

text \<open>The update is the reference; it never panics.\<close>

lemma update_leaderboard_ranked:
  assumes "leaderboard_ok l"
  shows "case update_leaderboard l ep account of
      Inl _ \<Rightarrow> False
    | Inr None \<Rightarrow> ranked ep account l = l
    | Inr (Some l') \<Rightarrow> l' = ranked ep account l"
proof -
  define hi lo where "hi = takeWhile (above ep) l" and "lo = dropWhile (above ep) l"
  have l: "l = hi @ lo" and hi: "list_all (above ep) hi"
    by (auto simp: hi_def lo_def list_all_iff dest: set_takeWhileD)
  have lo: "list_all (\<lambda>p. \<not> above ep p) lo"
    using assms sorted_split by (simp add: leaderboard_ok_def lo_def)
  have len: "length hi + length lo \<le> LEADERBOARD_SIZE" and dist: "distinct (map snd (hi @ lo))"
    using assms unfolding l leaderboard_ok_def by simp_all
  consider e where "(e, account) \<in> set hi" | e where "(e, account) \<in> set lo" | "others account (hi @ lo)"
    by (fastforce simp: list_all_iff)
  then show ?thesis
  proof cases
    case (1 e)
    then have "list_ex (\<lambda>p. snd p = account \<and> above ep p) l"
      using hi by (force simp: l list_ex_iff list_all_iff)
    then show ?thesis
      using scan_higher [OF hi 1, of lo] by (simp add: update_leaderboard_def ranked_def l)
  next
    case (2 e)
    then obtain lo1 lo2 where lo12: "lo = lo1 @ (e, account) # lo2"
      by (meson split_list)
    have oth: "others account hi" "others account lo1" "others account lo2"
      using dist by (auto simp: lo12 list_all_iff image_iff)
    have no: "\<not> list_ex (\<lambda>p. snd p = account \<and> above ep p) l"
      using oth lo by (auto simp: l lo12 list_ex_iff list_all_iff)
    have filter: "filter (\<lambda>p. snd p \<noteq> account) l = hi @ lo1 @ lo2"
      using oth by (simp add: l lo12 list_all_iff)
    have lo12': "list_all (\<lambda>p. \<not> above ep p) (lo1 @ lo2)"
      using lo by (simp add: lo12)
    have "Suc (length hi + (length lo1 + length lo2)) \<le> LEADERBOARD_SIZE"
      using len by (simp add: lo12)
    then have ranked: "ranked ep account l = hi @ (ep, account) # lo1 @ lo2"
      using no hi lo12' by (simp add: ranked_def filter takeWhile_hi_lo del: takeWhile_append dropWhile_append)
    have scan: "scan_leaderboard ep account 0 (None, None) l = Some (Some (length hi + length lo1), Some (length hi))"
      using scan_present [OF hi, of lo1 e account lo2] lo oth by (simp add: l lo12)
    have at: "l ! (length hi + length lo1) = (e, account)"
      by (simp add: l lo12 nth_append)
    have upd: "l[length hi + length lo1 := (ep, account)] = hi @ lo1 @ (ep, account) # lo2"
      by (simp add: l lo12 list_update_append)
    show ?thesis
      using rotate_entries_split [of hi lo1 "(ep, account)" lo2] ranked
      by (auto simp: update_leaderboard_def scan at upd Let_def) (simp_all add: l lo12)
  next
    case 3
    then have "filter (\<lambda>p. snd p \<noteq> account) l = l" and no: "\<not> list_ex (\<lambda>p. snd p = account \<and> above ep p) l"
      by (auto simp: l list_ex_iff list_all_iff)
    then have ranked: "ranked ep account l = take LEADERBOARD_SIZE (hi @ (ep, account) # lo)"
      by (simp add: ranked_def hi_def lo_def)
    have scan: "scan_leaderboard ep account 0 (None, None) l = Some (None, if lo = [] then None else Some (length hi))"
      using scan_absent [OF hi lo 3] by (simp add: l)
    show ?thesis
      using ranked scan len by (auto simp: update_leaderboard_def l not_less)
  qed
qed

lemma ranked_ok:
  assumes "leaderboard_ok l"
  shows "leaderboard_ok (ranked ep account l)"
proof (cases "list_ex (\<lambda>p. snd p = account \<and> above ep p) l")
  case False
  define hi lo where "hi = takeWhile (above ep) (filter (\<lambda>p. snd p \<noteq> account) l)"
    and "lo = dropWhile (above ep) (filter (\<lambda>p. snd p \<noteq> account) l)"
  have o: "filter (\<lambda>p. snd p \<noteq> account) l = hi @ lo"
    by (simp add: hi_def lo_def)
  have sorted: "sorted_wrt (\<lambda>p q. fst q \<le> fst p) (hi @ lo)" and dist: "distinct (map snd (hi @ lo))"
    and oth: "others account (hi @ lo)"
    using assms unfolding o [symmetric] by (simp_all add: leaderboard_ok_def sorted_wrt_filter distinct_map_filter list_all_iff)
  have lo: "\<not> above ep p" if "p \<in> set lo" for p
    using sorted_split [OF sorted, of ep] that unfolding o [symmetric] lo_def [symmetric] by (simp add: list_all_iff)
  have hi: "above ep p" if "p \<in> set hi" for p
    using that unfolding hi_def by (blast dest: set_takeWhileD)
  have "sorted_wrt (\<lambda>p q. fst q \<le> fst p) (hi @ (ep, account) # lo)"
    using sorted hi lo by (auto simp: sorted_wrt_append above_def not_less intro: less_imp_le)
  moreover have "distinct (map snd (hi @ (ep, account) # lo))"
    using dist oth by (auto simp: list_all_iff image_iff)
  ultimately have "leaderboard_ok (take LEADERBOARD_SIZE (hi @ (ep, account) # lo))"
    unfolding leaderboard_ok_def take_map [symmetric] by (intro conjI sorted_wrt_take distinct_take) simp_all
  then show ?thesis
    using False by (simp add: ranked_def Let_def hi_def lo_def)
qed (use assms in \<open>simp add: ranked_def\<close>)

end
