(* ===== verification/ReplayNames.thy ===== *)
theory ReplayNames
  imports RustReplay
begin

text \<open>
  The emojis of a board of the shop have ids that say nothing to the player: the front takes a board in
  anew for every operation, the chain keeps the ids of one replay. This theory shows that the
  operations do the same on two boards that differ in their ids alone.
\<close>

section \<open>Steps that fail together\<close>

text \<open>An error names ids, so that two errors count as the same here.\<close>

abbreviation both :: "('a \<Rightarrow> 'b \<Rightarrow> bool) \<Rightarrow> 'a js \<Rightarrow> 'b js \<Rightarrow> bool" where
  "both R \<equiv> rel_sum (\<lambda>_ _. True) R"

lemma both_bindE:
  "both R m n \<Longrightarrow> (\<And>a b. R a b \<Longrightarrow> both S (f a) (g b)) \<Longrightarrow> both S (bindE m f) (bindE n g)"
  by (cases m; cases n) auto

lemma both_mapR: "both R m n \<Longrightarrow> (\<And>a b. R a b \<Longrightarrow> S (f a) (g b)) \<Longrightarrow> both S (mapR f m) (mapR g n)"
  by (cases m; cases n) auto

lemma both_look: "(\<And>a. both S (f a) (g a)) \<Longrightarrow> both S (bindE m f) (bindE m g)"
  by (cases m) auto

lemma both_refl: "(\<And>a. R a a) \<Longrightarrow> both R m m"
  by (cases m) auto

lemma foldE_both:
  "(\<And>a b x. R a b \<Longrightarrow> x \<in> set xs \<Longrightarrow> both R (f a x) (g b (h x))) \<Longrightarrow> R a b \<Longrightarrow>
   both R (foldE f a xs) (foldE g b (map h xs))"
proof (induction xs arbitrary: a b)
  case (Cons x xs)
  then have "both R (f a x) (g b (h x))" by simp
  then show ?case
    unfolding foldE.simps list.map by (rule both_bindE) (rule Cons.IH, use Cons.prems(1) in auto)
qed simp

lemma foldE_both_id:
  "(\<And>a b x. R a b \<Longrightarrow> x \<in> set xs \<Longrightarrow> both R (f a x) (g b x)) \<Longrightarrow> R a b \<Longrightarrow>
   both R (foldE f a xs) (foldE g b xs)"
  using foldE_both [where h = "\<lambda>x. x" and R = R and f = f and g = g and a = a and b = b and xs = xs]
  by (simp only: list.map_ident)

lemma both_Inr: "both R m n \<Longrightarrow> m = Inr a \<Longrightarrow> \<exists>b. n = Inr b \<and> R a b"
  by (cases n) auto

section \<open>Boards that differ in their ids\<close>

text \<open>
  A renaming of ids, the counters of the two boards when an operation starts, and the ids there are
  before it; at most 64 ids are given during the operation.
\<close>

record naming =
  nm_of :: "u16 \<Rightarrow> u16"
  nm_from :: u16
  nm_to :: u16
  nm_old :: "u16 set"

definition naming_ok :: "naming \<Rightarrow> bool" where
  "naming_ok N \<longleftrightarrow> inj (nm_of N) \<and>
     (\<forall>k<64. nm_of N (nm_from N + of_nat k) = nm_to N + of_nat k \<and> nm_from N + of_nat k \<notin> nm_old N)"

definition with_id :: "naming \<Rightarrow> ShopBoardEmo \<Rightarrow> ShopBoardEmo" where
  "with_id N e = e\<lparr>se_id := nm_of N (se_id e)\<rparr>"

definition given :: "naming \<Rightarrow> nat \<Rightarrow> u16 set" where
  "given N j = nm_old N \<union> (\<lambda>k. nm_from N + of_nat k) ` {..<j}"

definition alike :: "naming \<Rightarrow> shop_state \<Rightarrow> shop_state \<Rightarrow> bool" where
  "alike N s t \<longleftrightarrow> naming_ok N \<and> sh_board t = map (with_id N) (sh_board s) \<and>
     length (sh_board s) \<le> 7 \<and> distinct (emo_ids s) \<and>
     (\<exists>j. sh_next_id s = nm_from N + of_nat j \<and> sh_next_id t = nm_to N + of_nat j \<and>
        j + potential (sh_board s) \<le> 63 \<and> set (emo_ids s) \<subseteq> given N j)"

definition coins_alike :: "naming \<Rightarrow> coin_state \<Rightarrow> coin_state \<Rightarrow> bool" where
  "coins_alike N a b \<longleftrightarrow> fst a = fst b \<and> alike N (snd a) (snd b)"

lemma coins_alike_simps [simp]: "coins_alike N (c, s) (d, t) \<longleftrightarrow> c = d \<and> alike N s t"
  by (simp add: coins_alike_def)

lemma with_id_simps [simp]:
  "se_id (with_id N e) = nm_of N (se_id e)" "be_base_id (with_id N e) = be_base_id e"
  "be_attributes (with_id N e) = be_attributes e" "be_mtc_emo_ids (with_id N e) = be_mtc_emo_ids e"
  "into_board_emo (with_id N e) = into_board_emo e"
  "with_id N (e\<lparr>be_attributes := a\<rparr>) = (with_id N e)\<lparr>be_attributes := a\<rparr>"
  by (simp_all add: with_id_def into_board_emo_def mtc_BoardEmo.truncate_def)

lemma alike_board: "alike N s t \<Longrightarrow> sh_board t = map (with_id N) (sh_board s)"
  by (simp add: alike_def)

lemma alike_into: "alike N s t \<Longrightarrow> map into_board_emo (sh_board t) = map into_board_emo (sh_board s)"
  by (simp add: alike_board comp_def)

lemma alike_inj: "alike N s t \<Longrightarrow> nm_of N i = nm_of N k \<longleftrightarrow> i = k"
  by (auto simp: alike_def naming_ok_def inj_eq)

lemma alike_length: "alike N s t \<Longrightarrow> length (sh_board t) = length (sh_board s)"
  by (simp add: alike_board)

lemma alike_length_7: "alike N s t \<Longrightarrow> length (sh_board s) \<le> 7"
  by (simp add: alike_def)

lemma add_log_board [simp]: "sh_board (add_log l s) = sh_board s"
  by (simp add: add_log_def)

lemma alike_log [simp]: "alike N (add_log l s) (add_log l' t) \<longleftrightarrow> alike N s t"
  by (simp add: alike_def add_log_def emo_ids_def)

lemma alike_count: "alike N s t \<Longrightarrow> count_emos t = count_emos s"
  by (simp add: count_emos_def alike_length)

lemma potential_mset: "mset b = mset b' \<Longrightarrow> potential b = potential b'"
  unfolding potential_def triples_def by (metis mset_filter size_mset)

text \<open>A change of the boards that keeps the emojis, or takes some away, with a lower potential.\<close>

lemma alike_boards:
  assumes "alike N s t" "set (map se_id b) \<subseteq> set (emo_ids s)" "distinct (map se_id b)"
    and "potential b \<le> potential (sh_board s)" "length b \<le> 7"
  shows "alike N (s\<lparr>sh_board := b\<rparr>) (t\<lparr>sh_board := map (with_id N) b\<rparr>)"
proof -
  from assms(1) obtain j where "sh_next_id s = nm_from N + of_nat j" "sh_next_id t = nm_to N + of_nat j"
    "j + potential (sh_board s) \<le> 63" "set (emo_ids s) \<subseteq> given N j"
    by (auto simp: alike_def)
  moreover have "set (map se_id b) \<subseteq> given N j"
    using assms(2) calculation(4) by blast
  ultimately show ?thesis
    using assms unfolding alike_def emo_ids_def by auto
qed

section \<open>What is looked up\<close>

fun pointer :: "naming \<Rightarrow> EmoPointer \<Rightarrow> EmoPointer" where
  "pointer N (OnBoard i) = OnBoard (nm_of N i)"
| "pointer N (Removed e k) = Removed (with_id N e) k"

lemma index_of_id_alike:
  assumes "alike N s t"
  shows "index_of_id (nm_of N i) (sh_board t) = index_of_id i (sh_board s)"
proof -
  have "index_of_id (nm_of N i) (map (with_id N) b) = index_of_id i b" for b
    by (induction b) (simp_all add: alike_inj [OF assms])
  then show ?thesis by (simp add: alike_board [OF assms])
qed

lemma emo_ids_alike: "alike N s t \<Longrightarrow> emo_ids t = map (nm_of N) (emo_ids s)"
  by (simp add: emo_ids_def alike_board comp_def)

lemma get_emo_by_id_both:
  "alike N s t \<Longrightarrow> both (\<lambda>e e'. e' = with_id N e) (get_emo_by_id s i) (get_emo_by_id t (nm_of N i))"
  using index_of_id_Some [of i "sh_board s"]
  by (cases "index_of_id i (sh_board s)") (simp_all add: get_emo_by_id_def index_of_id_alike, simp add: alike_board)

lemma get_emo_index_by_id_both:
  "alike N s t \<Longrightarrow> both (=) (get_emo_index_by_id s i) (get_emo_index_by_id t (nm_of N i))"
  by (auto simp: get_emo_index_by_id_def index_of_id_alike split: option.split)

lemma get_emo_id_by_index_both:
  "alike N s t \<Longrightarrow> both (\<lambda>a b. b = nm_of N a) (get_emo_id_by_index s i) (get_emo_id_by_index t i)"
  by (auto simp: get_emo_id_by_index_def js_at_def alike_board)

lemma get_emo_both:
  "alike N s t \<Longrightarrow> both (\<lambda>e e'. e' = with_id N e) (get_emo p s) (get_emo (pointer N p) t)"
  by (cases p) (simp_all add: get_emo_def get_emo_by_id_both)

lemma get_emo_id_pointer [simp]: "get_emo_id (pointer N p) = nm_of N (get_emo_id p)"
  by (cases p) (simp_all add: get_emo_id_def)

lemma get_emo_index_both: "alike N s t \<Longrightarrow> both (=) (get_emo_index p s) (get_emo_index (pointer N p) t)"
  by (cases p) (simp_all add: get_emo_index_def get_emo_index_by_id_both)

lemma right_index_both: "alike N s t \<Longrightarrow> both (=) (right_index p s) (right_index (pointer N p) t)"
  by (cases p) (auto simp: right_index_def intro!: both_mapR [OF get_emo_index_by_id_both])

lemma get_right_emo_id_both:
  assumes "alike N s t"
  shows "both (\<lambda>a b. b = map_option (nm_of N) a) (get_right_emo_id s p) (get_right_emo_id t (pointer N p))"
  unfolding get_right_emo_id_def
proof (rule both_mapR [OF right_index_both [OF assms]])
  fix a b :: u8 assume "a = b"
  then show "(case get_emo_id_by_index t b of Inl e \<Rightarrow> None | Inr j \<Rightarrow> Some j) =
      map_option (nm_of N) (case get_emo_id_by_index s a of Inl e \<Rightarrow> None | Inr j \<Rightarrow> Some j)"
    using get_emo_id_by_index_both [OF assms, of a]
    by (cases "get_emo_id_by_index s a"; cases "get_emo_id_by_index t a") auto
qed

lemma get_left_emo_id_both:
  assumes "alike N s t"
  shows "both (\<lambda>a b. b = map_option (nm_of N) a) (get_left_emo_id s p) (get_left_emo_id t (pointer N p))"
  unfolding get_left_emo_id_def
  by (rule both_bindE [OF get_emo_index_both [OF assms]])
    (auto intro!: both_mapR [OF get_emo_id_by_index_both [OF assms]])

lemma is_matched_with_id [simp]:
  "is_matched_typ_and_triple_board_emo c (with_id N e) bases = is_matched_typ_and_triple_board_emo c e bases"
  by (simp add: is_matched_typ_and_triple_board_emo_def)

lemma count_emos_by_both:
  assumes "alike N s t"
  shows "both (=) (count_emos_by_typ_and_triple s p c bases) (count_emos_by_typ_and_triple t (pointer N p) c bases)"
  unfolding count_emos_by_typ_and_triple_def alike_board [OF assms]
  by (rule foldE_both) (auto simp: alike_inj [OF assms] intro: both_refl)

lemma target_others_both:
  assumes "alike N s t"
  shows "both (\<lambda>a b. b = map (nm_of N) a) (get_emo_ids_by_target_others s p d c bases)
    (get_emo_ids_by_target_others t (pointer N p) d c bases)"
  unfolding get_emo_ids_by_target_others_def
proof (rule both_bindE [where R = "\<lambda>a b. b = map (nm_of N) a"])
  have "filter (\<lambda>i. i \<noteq> get_emo_id (pointer N p)) (emo_ids t) =
      map (nm_of N) (filter (\<lambda>i. i \<noteq> get_emo_id p) (emo_ids s))"
    by (simp add: emo_ids_alike [OF assms] filter_map comp_def alike_inj [OF assms])
  then show "both (\<lambda>a b. b = map (nm_of N) a)
      (case d of Destination_Right \<Rightarrow> mapR (\<lambda>o'. case o' of Some i \<Rightarrow> [i] | None \<Rightarrow> []) (get_right_emo_id s p)
       | Destination_Left \<Rightarrow> mapR (\<lambda>o'. case o' of Some i \<Rightarrow> [i] | None \<Rightarrow> []) (get_left_emo_id s p)
       | Destination_All \<Rightarrow> Inr (filter (\<lambda>i. i \<noteq> get_emo_id p) (emo_ids s)))
      (case d of Destination_Right \<Rightarrow>
         mapR (\<lambda>o'. case o' of Some i \<Rightarrow> [i] | None \<Rightarrow> []) (get_right_emo_id t (pointer N p))
       | Destination_Left \<Rightarrow> mapR (\<lambda>o'. case o' of Some i \<Rightarrow> [i] | None \<Rightarrow> []) (get_left_emo_id t (pointer N p))
       | Destination_All \<Rightarrow> Inr (filter (\<lambda>i. i \<noteq> get_emo_id (pointer N p)) (emo_ids t)))"
    by (cases d) (auto intro!: both_mapR [OF get_right_emo_id_both [OF assms]]
        both_mapR [OF get_left_emo_id_both [OF assms]] split: option.split)
next
  fix a b assume b: "b = map (nm_of N) a"
  show "both (\<lambda>a b. b = map (nm_of N) a)
      (foldE (\<lambda>filtered_ids i. bindE (get_emo_by_id s i) (\<lambda>e.
         mapR (\<lambda>b. if b then filtered_ids @ [i] else filtered_ids)
           (is_matched_typ_and_triple_board_emo c e bases))) [] a)
      (foldE (\<lambda>filtered_ids i. bindE (get_emo_by_id t i) (\<lambda>e.
         mapR (\<lambda>b. if b then filtered_ids @ [i] else filtered_ids)
           (is_matched_typ_and_triple_board_emo c e bases))) [] b)"
    unfolding b
    by (rule foldE_both)
      (auto intro!: both_bindE [OF get_emo_by_id_both [OF assms]] both_mapR [where R = "(=)"] both_refl)
qed

lemma target_both:
  assumes "alike N s t"
  shows "both (\<lambda>a b. b = map (nm_of N) a) (get_emo_ids_by_target s p target bases)
    (get_emo_ids_by_target t (pointer N p) target bases)"
  unfolding get_emo_ids_by_target_def
  by (cases p) (auto split: emo_ability_Target.split emo_ability_Target_Others.split
      intro: target_others_both [OF assms, of "OnBoard i" for i, simplified]
        target_others_both [OF assms, of "Removed e k" for e k, simplified])

section \<open>Changes of emojis\<close>

lemma alike_update:
  assumes "alike N s t" "k < length (sh_board s)"
    and "at_is_triple (f (be_attributes (sh_board s ! k))) = at_is_triple (be_attributes (sh_board s ! k))"
  shows "alike N (update_emo k f s) (update_emo k f t)"
proof -
  let ?b = "(sh_board s)[k := (sh_board s ! k)\<lparr>be_attributes := f (be_attributes (sh_board s ! k))\<rparr>]"
  have ids: "map se_id ?b = emo_ids s"
    using assms(2) by (simp add: emo_ids_def map_update list_update_same_conv)
  have "potential ?b = potential (sh_board s)"
    using assms(2,3) by (simp add: potential_def triples_update)
  moreover have "distinct (map se_id ?b)"
    using assms(1) unfolding ids by (simp add: alike_def)
  ultimately have "alike N (s\<lparr>sh_board := ?b\<rparr>) (t\<lparr>sh_board := map (with_id N) ?b\<rparr>)"
    using assms(1) by (intro alike_boards) (simp_all add: ids alike_def)
  moreover have "t\<lparr>sh_board := map (with_id N) ?b\<rparr> = update_emo k f t"
    using assms(2) by (simp add: update_emo_def Let_def alike_board [OF assms(1)] map_update)
  ultimately show ?thesis
    by (simp add: update_emo_def Let_def)
qed

lemma stats_both:
  assumes "alike N s t"
  shows "both (alike N) (add_attack_and_health_to_emo attack health s i)
    (add_attack_and_health_to_emo attack health t (nm_of N i))"
proof (cases "index_of_id i (sh_board s)")
  case None
  then show ?thesis by (simp add: add_attack_and_health_to_emo_def index_of_id_alike [OF assms])
next
  case (Some k)
  then have k: "k < length (sh_board s)" by (simp add: index_of_id_Some)
  then have "be_attributes (sh_board t ! k) = be_attributes (sh_board s ! k)"
    by (simp add: alike_board [OF assms])
  then show ?thesis
    using k assms
    by (auto simp: add_attack_and_health_to_emo_def index_of_id_alike [OF assms] Some Let_def intro!: alike_update)
qed

lemma ability_both:
  assumes "alike N s t"
  shows "both (alike N) (add_ability_to ability s i) (add_ability_to ability t (nm_of N i))"
proof (cases "index_of_id i (sh_board s)")
  case None
  then show ?thesis by (simp add: add_ability_to_def index_of_id_alike [OF assms])
next
  case (Some k)
  then have k: "k < length (sh_board s)" by (simp add: index_of_id_Some)
  then have "be_attributes (sh_board t ! k) = be_attributes (sh_board s ! k)"
    by (simp add: alike_board [OF assms])
  then show ?thesis
    using k assms
    by (auto simp: add_ability_to_def index_of_id_alike [OF assms] Some Let_def intro!: alike_update)
qed

lemma add_stats_both:
  assumes "alike N s t"
  shows "both (alike N) (add_attack_and_health_to_emos p target attack health bases s)
    (add_attack_and_health_to_emos (pointer N p) target attack health bases t)"
  unfolding add_attack_and_health_to_emos_def
  by (rule both_bindE [OF target_both [OF assms]]) (auto intro!: foldE_both stats_both assms)

lemma add_ability_both:
  assumes "alike N s t"
  shows "both (alike N) (add_ability p bases target ability s) (add_ability (pointer N p) bases target ability t)"
  unfolding add_ability_def
  by (rule both_bindE [OF target_both [OF assms]]) (auto intro!: foldE_both ability_both assms)

lemma increase_stats_both:
  "alike N s t \<Longrightarrow> both (alike N) (increase_stats p tr bases target attack health s)
     (increase_stats (pointer N p) tr bases target attack health t)"
  unfolding increase_stats_def by (auto split: prod.split intro: add_stats_both)

lemma increase_by_grade_both:
  assumes "alike N s t"
  shows "both (alike N) (increase_stats_by_grade p tr bases target attack health s)
    (increase_stats_by_grade (pointer N p) tr bases target attack health t)"
  unfolding increase_stats_by_grade_def Let_def
  by (auto split: prod.split intro!: both_bindE [OF get_emo_both [OF assms]] both_look add_stats_both assms)

lemma increase_by_count_both:
  assumes "alike N s t"
  shows "both (alike N) (increase_stats_by_emo_count p tr bases target c attack health s)
    (increase_stats_by_emo_count (pointer N p) tr bases target c attack health t)"
  unfolding increase_stats_by_emo_count_def Let_def
  by (auto split: prod.split intro!: both_bindE [OF count_emos_by_both [OF assms]] add_stats_both assms)

lemma increase_adjacent_both:
  assumes "alike N s t"
  shows "both (alike N) (increase_stats_of_adjacent_menagerie p tr bases attack health s)
    (increase_stats_of_adjacent_menagerie (pointer N p) tr bases attack health t)"
proof -
  let ?R = "\<lambda>a b. fst a = fst b \<and> alike N (snd a) (snd b)"
  obtain a h where d: "double_attack_and_health_if tr attack health = (a, h)" by fastforce
  have left: "both ?R
      (case left of
         Some i \<Rightarrow> bindE (get_emo_by_id s i) (\<lambda>e. bindE (find_base bases (be_base_id e)) (\<lambda>base.
           mapR (\<lambda>s. (Some (eb_typ base), s)) (add_attack_and_health_to_emo a h s (se_id e))))
       | None \<Rightarrow> Inr (None, s))
      (case map_option (nm_of N) left of
         Some i \<Rightarrow> bindE (get_emo_by_id t i) (\<lambda>e. bindE (find_base bases (be_base_id e)) (\<lambda>base.
           mapR (\<lambda>s. (Some (eb_typ base), s)) (add_attack_and_health_to_emo a h t (se_id e))))
       | None \<Rightarrow> Inr (None, t))" for left
    using assms
    by (auto split: option.split intro!: both_bindE [OF get_emo_by_id_both [OF assms]] both_look
        both_mapR [OF stats_both [OF assms]])
  have right: "both (alike N)
      (case right of None \<Rightarrow> Inr s' | Some i \<Rightarrow> bindE (get_emo_by_id s' i) (\<lambda>e. case lt of
           Some left_typ \<Rightarrow> bindE (find_base bases (be_base_id e)) (\<lambda>base.
             if left_typ \<noteq> eb_typ base then add_attack_and_health_to_emo a h s' (se_id e) else Inr s')
         | None \<Rightarrow> add_attack_and_health_to_emo a h s' (se_id e)))
      (case map_option (nm_of N) right of None \<Rightarrow> Inr t' | Some i \<Rightarrow> bindE (get_emo_by_id t' i) (\<lambda>e. case lt of
           Some left_typ \<Rightarrow> bindE (find_base bases (be_base_id e)) (\<lambda>base.
             if left_typ \<noteq> eb_typ base then add_attack_and_health_to_emo a h t' (se_id e) else Inr t')
         | None \<Rightarrow> add_attack_and_health_to_emo a h t' (se_id e)))"
    if "alike N s' t'" for right s' t' lt
    using that
    by (auto split: option.split intro!: both_bindE [OF get_emo_by_id_both [OF that]] both_look stats_both)
  show ?thesis
    unfolding increase_stats_of_adjacent_menagerie_def d Let_def prod.case
    by (rule both_bindE [OF get_left_emo_id_both [OF assms]], simp only:,
        rule both_bindE [OF left], clarsimp split: prod.split,
        rule both_bindE [OF get_right_emo_id_both], assumption, simp only:, rule right, assumption)
qed

lemma menagerie_loop_both:
  "alike N s t \<Longrightarrow> both (alike N) (menagerie_loop bases i n attack health typs ids s)
     (menagerie_loop bases (nm_of N i) n attack health typs (map (nm_of N) ids) t)"
proof (induction ids arbitrary: s t typs)
  case (Cons k ids)
  note inj = alike_inj [OF Cons.prems]
  show ?case
    using Cons.prems Cons.IH
    by (auto simp: inj Let_def intro!: both_bindE [OF get_emo_by_id_both [OF Cons.prems]] both_look
        both_bindE [OF stats_both [OF Cons.prems]])
qed simp

section \<open>New emojis\<close>

definition front :: "ShopBoardEmo \<Rightarrow> shop_state \<Rightarrow> shop_state" where
  "front e s = s\<lparr>sh_board := e # sh_board s\<rparr>"

lemma front_simps [simp]:
  "sh_board (front e s) = e # sh_board s" "sh_next_id (front e s) = sh_next_id s"
  "emo_ids (front e s) = se_id e # emo_ids s"
  by (simp_all add: front_def emo_ids_def)

lemma of_nat_u16_eq: "a < 65536 \<Longrightarrow> b < 65536 \<Longrightarrow> (of_nat a :: u16) = of_nat b \<longleftrightarrow> a = b"
  by (auto dest: arg_cong [where f = unat] simp: unat_of_nat)

text \<open>An emoji that is new takes the next id, on a board that has lost some emojis or none.\<close>

lemma alike_new:
  assumes "alike N s t" "set (map se_id b) \<subseteq> set (emo_ids s)" "distinct (map se_id b)" "length b < 7"
    and "at_is_triple attributes = tr"
    and "potential (\<lparr>be_base_id = base_id, be_attributes = attributes, be_mtc_emo_ids = ids, se_id = 0\<rparr> # b)
      < potential (sh_board s)"
    and e: "from_attributes ids base_id attributes (s\<lparr>sh_board := b\<rparr>) = (e, s')"
  shows "\<exists>t'. from_attributes ids base_id attributes (t\<lparr>sh_board := map (with_id N) b\<rparr>) = (with_id N e, t') \<and>
    sh_board s' = b \<and> alike N (front e s') (front (with_id N e) t')"
proof -
  from assms(1) obtain j where j: "sh_next_id s = nm_from N + of_nat j" "sh_next_id t = nm_to N + of_nat j"
    "j + potential (sh_board s) \<le> 63" "set (emo_ids s) \<subseteq> given N j" and N: "naming_ok N"
    by (auto simp: alike_def)
  have e': "e = \<lparr>be_base_id = base_id, be_attributes = attributes, be_mtc_emo_ids = ids, se_id = nm_from N + of_nat j\<rparr>"
    and s': "s' = s\<lparr>sh_board := b, sh_next_id := nm_from N + of_nat j + 1\<rparr>"
    using e j(1) by (auto simp: from_attributes_def generate_shop_board_emo_id_def Let_def)
  have pot: "potential (e # b) < potential (sh_board s)"
    using assms(6) by (simp add: potential_def e')
  have "nm_of N (nm_from N + of_nat j) = nm_to N + of_nat j" "nm_from N + of_nat j \<notin> nm_old N"
    using N j(3) pot by (simp_all add: naming_ok_def)
  moreover have "nm_from N + of_nat j \<noteq> nm_from N + of_nat k" if "k < j" for k
    using that j(3) of_nat_u16_eq [of j k] by simp
  ultimately have new: "nm_from N + of_nat j \<notin> given N j" "nm_of N (nm_from N + of_nat j) = nm_to N + of_nat j"
    by (auto simp: given_def)
  have "given N j \<subseteq> given N (Suc j)" "nm_from N + of_nat j \<in> given N (Suc j)"
    by (auto simp: given_def)
  then have ids: "set (emo_ids (front e s')) \<subseteq> given N (Suc j)" "distinct (emo_ids (front e s'))"
    using assms(2,3) j(4) new(1) by (auto simp: s' e' emo_ids_def)
  let ?t = "t\<lparr>sh_board := map (with_id N) b, sh_next_id := nm_to N + of_nat j + 1\<rparr>"
  have "from_attributes ids base_id attributes (t\<lparr>sh_board := map (with_id N) b\<rparr>) = (with_id N e, ?t)"
    using j(2) new(2) by (simp add: from_attributes_def generate_shop_board_emo_id_def Let_def with_id_def e')
  moreover have "alike N (front e s') (front (with_id N e) ?t)"
    unfolding alike_def
    using N ids pot assms(4) j(3)
    by (auto simp: s' intro!: exI [of _ "Suc j"])
  ultimately show ?thesis
    by (auto simp: s')
qed

lemma set_actions_with_id [simp]:
  "get_peri_abilities (with_id N e) = get_peri_abilities e" "set_actions (with_id N e) = set_actions e"
  "sell_actions (with_id N e) = sell_actions e"
  by (simp_all add: get_peri_abilities_def set_actions_def sell_actions_def)

text \<open>Removing by index does not look at ids.\<close>

lemma remove_emo_map:
  "remove_emo i (t\<lparr>sh_board := map f b\<rparr>) =
   mapR (\<lambda>(e, s'). (f e, t\<lparr>sh_board := map f (sh_board s')\<rparr>)) (remove_emo i (s\<lparr>sh_board := b\<rparr>))"
  by (simp add: remove_emo_def take_map drop_map)

lemma remove_triple_emos_map:
  assumes "remove_triple_emos ix s = Inr (removed, s')" "sh_board t = map f (sh_board s)"
  shows "remove_triple_emos ix t = Inr (map f removed, t\<lparr>sh_board := map f (sh_board s')\<rparr>)"
proof -
  let ?step = "\<lambda>(removed, s) i. mapR (\<lambda>(e, s). (removed @ [e], s)) (remove_emo i s)"
  let ?R = "\<lambda>(r, s) (r', u). r' = map f r \<and> u = t\<lparr>sh_board := map f (sh_board s)\<rparr>"
  have "both ?R (foldE ?step ([], s) (rev ix)) (foldE ?step ([], t) (rev ix))"
  proof (rule foldE_both_id)
    fix a b :: "ShopBoardEmo list \<times> shop_state" and i
    assume "?R a b"
    then obtain r u where ab: "a = (r, u)" "b = (map f r, t\<lparr>sh_board := map f (sh_board u)\<rparr>)"
      by (cases a; cases b) auto
    show "both ?R (?step a i) (?step b i)"
      using remove_emo_map [where i = i and t = t and f = f and b = "sh_board u" and s = u]
      by (cases "remove_emo i u") (auto simp: ab)
  qed (use assms(2) in simp)
  then show ?thesis
    using assms(1) by (auto simp: remove_triple_emos_def mapR_eq_Inr_iff rev_map dest!: both_Inr)
qed

section \<open>The abilities, over the function that adds an emoji\<close>

locale renamed_adder =
  fixes N :: naming and bases :: emo_Bases and add :: adder
  assumes add_law: "alike N (front e s) (front (with_id N e) t) \<Longrightarrow>
    both (coins_alike N) (add s e i) (add t (with_id N e) i)"
begin

lemma add_new:
  assumes "alike N s t" "length (sh_board s) < 7"
  shows "both (coins_alike N) (add_emo_with add ids base_id tr i bases s) (add_emo_with add ids base_id tr i bases t)"
proof -
  have "both (coins_alike N)
      (let (board_emo, s) = new_with_base ids base tr s in add s board_emo i)
      (let (board_emo, s) = new_with_base ids base tr t in add s board_emo i)" for base
  proof -
    obtain e s' where e: "new_with_base ids base tr s = (e, s')" by fastforce
    have "\<exists>t'. from_attributes ids (eb_id base) (build_emo_attributes base tr)
        (t\<lparr>sh_board := map (with_id N) (sh_board s)\<rparr>) = (with_id N e, t') \<and>
        sh_board s' = sh_board s \<and> alike N (front e s') (front (with_id N e) t')"
      using assms e
      by (intro alike_new [OF assms(1)])
        (auto simp: emo_ids_def new_with_base_def alike_def intro!: potential_Cons_less)
    then obtain t' where "new_with_base ids base tr t = (with_id N e, t')"
      "alike N (front e s') (front (with_id N e) t')"
      by (auto simp: new_with_base_def simp flip: alike_board [OF assms(1)])
    then show ?thesis
      using add_law by (simp add: e)
  qed
  then show ?thesis
    unfolding add_emo_with_def by (intro both_look)
qed

lemma set_emo_both:
  assumes "coins_alike N cs cs'"
  shows "both (coins_alike N) (set_emo add p tr bases base_id cs) (set_emo add (pointer N p) tr bases base_id cs')"
proof -
  obtain c s t where cs: "cs = (c, s)" "cs' = (c, t)" and a: "alike N s t"
    using assms by (cases cs; cases cs') auto
  show ?thesis
    unfolding set_emo_def cs prod.case alike_count [OF a] count_emos_less [OF alike_length_7 [OF a]]
    using a by (auto intro!: both_bindE [OF right_index_both [OF a]] both_mapR [OF add_new])
qed

lemma on_state_both:
  "coins_alike N cs cs' \<Longrightarrow> (\<And>s t. alike N s t \<Longrightarrow> both (alike N) (f s) (f' t)) \<Longrightarrow>
   both (coins_alike N) (on_state f cs) (on_state f' cs')"
  by (cases cs; cases cs') (auto simp: on_state_def intro!: both_mapR)

lemma call_action_both:
  assumes "coins_alike N cs cs'"
  shows "both (coins_alike N) (call_ability_action add bases action p tr cs)
    (call_ability_action add bases action (pointer N p) tr cs')"
proof -
  obtain c s t where cs: "cs = (c, s)" "cs' = (c, t)" and a: "alike N s t"
    using assms by (cases cs; cases cs') auto
  show ?thesis
    unfolding call_ability_action_def cs get_coin_by_emo_count_div_def
    using a assms [unfolded cs]
    by (auto split: emo_ability_shop_NormalAction.split emo_ability_shop_NormalAction_SetEmo.split
      emo_ability_shop_NormalAction_IncreaseStats.split
      emo_ability_shop_NormalAction_IncreaseStatsOfAdjacentMenagerie.split
      emo_ability_shop_NormalAction_IncreaseStatsByGrade.split
      emo_ability_shop_NormalAction_IncreaseStatsByEmoCount.split
      emo_ability_shop_NormalAction_AddAbility.split emo_ability_shop_NormalAction_GetCoin.split
      emo_ability_shop_NormalAction_GetCoinByEmoCountDiv.split
      intro!: set_emo_both on_state_both increase_stats_both increase_by_grade_both increase_adjacent_both
        increase_by_count_both add_ability_both both_bindE [OF count_emos_by_both [OF a]])
qed

lemma as_oneself_both:
  assumes "coins_alike N cs cs'"
  shows "both (coins_alike N) (call_ability_action_as_oneself add bases action p cs)
    (call_ability_action_as_oneself add bases action (pointer N p) cs')"
proof -
  have "alike N (snd cs) (snd cs')" using assms by (simp add: coins_alike_def)
  then show ?thesis
    unfolding call_ability_action_as_oneself_def
    using call_action_both [OF assms] by (auto intro!: both_bindE [OF get_emo_both])
qed

lemma trigger_both:
  assumes "coins_alike N cs cs'"
  shows "both (coins_alike N) (trigger_set_actions add bases p tr cs) (trigger_set_actions add bases (pointer N p) tr cs')"
proof -
  have "alike N (snd cs) (snd cs')" using assms by (simp add: coins_alike_def)
  then show ?thesis
    unfolding trigger_set_actions_def Let_def
    by (auto intro!: both_bindE [OF get_emo_both] foldE_both_id both_bindE [where R = "coins_alike N"]
        call_action_both assms)
qed

lemma as_ally_both:
  assumes "coins_alike N cs cs'"
  shows "both (coins_alike N) (call_ability_action_as_ally add bases action i p cs)
    (call_ability_action_as_ally add bases action (nm_of N i) (pointer N p) cs')"
proof -
  have "alike N (snd cs) (snd cs')" using assms by (simp add: coins_alike_def)
  then show ?thesis
    unfolding call_ability_action_as_ally_def Let_def
    by (auto split: emo_ability_shop_PeriAsAllyAction.split emo_ability_shop_AsAllyAction.split
        intro!: both_bindE [OF get_emo_by_id_both] call_action_both trigger_both assms)
qed

lemma ally_ability_both:
  assumes "coins_alike N cs cs'"
  shows "both (coins_alike N) (call_ally_ability add bases i typ' tr cs (k, ability))
    (call_ally_ability add bases (nm_of N i) typ' tr cs' (nm_of N k, ability))"
proof -
  have "alike N (snd cs) (snd cs')" using assms by (simp add: coins_alike_def)
  note inj = alike_inj [OF this]
  show ?thesis
    unfolding call_ally_ability_def prod.case inj
    using assms as_ally_both [OF assms, where p = "OnBoard i"] as_oneself_both [OF assms, where p = "OnBoard k"]
    by (auto split: emo_ability_shop_Peri.split emo_ability_shop_Peri_AsAlly.split
      emo_ability_shop_PeriAsAllyTrigger.split emo_ability_shop_PeriAsAllyTrigger_AllySet.split
      emo_ability_shop_Peri_AsOneself.split emo_ability_shop_PeriAsOneselfTrigger.split
      emo_ability_shop_PeriAsOneselfTrigger_AllySet.split)
qed

lemma peri_abilities_alike:
  "alike N s t \<Longrightarrow> get_board_peri_abilities t = map (map_prod (nm_of N) id) (get_board_peri_abilities s)"
  by (simp add: get_board_peri_abilities_def alike_board map_concat comp_def)

lemma addition_abilities_both:
  assumes "coins_alike N cs cs'"
  shows "both (coins_alike N) (call_emo_addition_abilities add bases i cs)
    (call_emo_addition_abilities add bases (nm_of N i) cs')"
proof -
  have a: "alike N (snd cs) (snd cs')" using assms by (simp add: coins_alike_def)
  have fold: "both (coins_alike N)
      (foldE (call_ally_ability add bases i typ' tr) cs (get_board_peri_abilities (snd cs)))
      (foldE (call_ally_ability add bases (nm_of N i) typ' tr) cs' (get_board_peri_abilities (snd cs')))"
    if "coins_alike N cs cs'" for cs cs' typ' tr
  proof -
    have "alike N (snd cs) (snd cs')" using that by (simp add: coins_alike_def)
    from peri_abilities_alike [OF this] show ?thesis
      using that ally_ability_both by (auto intro!: foldE_both)
  qed
  show ?thesis
    unfolding call_emo_addition_abilities_def
    using as_oneself_both [where p = "OnBoard i"] assms
    by (auto intro!: both_bindE [OF get_emo_by_id_both [OF a]] both_look both_bindE [where R = "coins_alike N"]
        foldE_both_id fold)
qed

text \<open>Three of a kind.\<close>

lemma process_triple_both:
  assumes "coins_alike N cs cs'"
  shows "both (coins_alike N) (process_triple add bases i cs) (process_triple add bases (nm_of N i) cs')"
proof -
  obtain c s t where cs: "cs = (c, s)" "cs' = (c, t)" and a: "alike N s t"
    using assms by (cases cs; cases cs') auto
  have len: "length (sh_board s) \<le> 7" using a by (simp add: alike_def)
  have step: "both (coins_alike N)
      (bindE (remove_triple_emos ix s) (\<lambda>(removed, s).
         bindE (build_triple_emo removed base_id bases s) (\<lambda>(triple_emo, s).
           mapR f (add (add_log l s) triple_emo k))))
      (bindE (remove_triple_emos ix t) (\<lambda>(removed, s).
         bindE (build_triple_emo removed base_id bases s) (\<lambda>(triple_emo, s).
           mapR f (add (add_log l s) triple_emo k))))"
    if ix: "ix = same_base_not_triple_indexes base_id s" "3 \<le> length ix"
      and f: "\<And>x. snd (f x) = snd x" "\<And>x y. fst x = fst y \<Longrightarrow> fst (f x) = fst (f y)"
    for ix base_id k l and f :: "coin_state \<Rightarrow> coin_state"
  proof -
    obtain removed b' where rm: "remove_triple_emos ix s = Inr (removed, s\<lparr>sh_board := b'\<rparr>)"
      and b': "b' = nths (sh_board s) (- set (map toNumber ix))"
      and tr: "triples b' = triples (sh_board s)" "length b' + length ix = length (sh_board s)"
      using remove_same_base [OF len ix(1)] by blast
    have rm_t: "remove_triple_emos ix t = Inr (map (with_id N) removed, t\<lparr>sh_board := map (with_id N) b'\<rparr>)"
      using remove_triple_emos_map [OF rm alike_board [OF a]] by simp
    have ids: "set (map se_id b') \<subseteq> set (emo_ids s)" "distinct (map se_id b')"
      using a unfolding b' by (auto simp: emo_ids_def alike_def nths_map [symmetric] distinct_nthsI dest: in_set_nthsD)
    have len': "length b' < 7" using tr(2) ix(2) len by simp
    show ?thesis
    proof (cases "find_base bases base_id")
      case (Inl e)
      then show ?thesis by (simp add: rm rm_t build_triple_emo_def)
    next
      case (Inr base)
      let ?ids = "concat (map be_mtc_emo_ids removed)"
      define attrs where "attrs =
        \<lparr>at_attack = fst (build_triple_emo_nums base removed), at_health = snd (build_triple_emo_nums base removed),
         at_abilities = build_triple_abilities (eb_abilities base) removed, at_is_triple = True\<rparr>"
      have "build_triple_emo_nums base (map (with_id N) removed) = build_triple_emo_nums base removed"
        "build_triple_abilities abilities (map (with_id N) removed) = build_triple_abilities abilities removed"
        for abilities
        by (simp_all add: build_triple_emo_nums_def build_triple_abilities_def comp_def)
      then have attrs: "at_is_triple attrs = True"
        "\<And>r. build_triple_emo removed base_id bases r = Inr (from_attributes ?ids (eb_id base) attrs r)"
        "\<And>r. build_triple_emo (map (with_id N) removed) base_id bases r =
           Inr (from_attributes ?ids (eb_id base) attrs r)"
        using Inr by (simp_all add: build_triple_emo_def attrs_def case_prod_unfold comp_def Let_def)
      obtain e s' where e: "from_attributes ?ids (eb_id base) attrs (s\<lparr>sh_board := b'\<rparr>) = (e, s')"
        by fastforce
      have "\<exists>t'. from_attributes ?ids (eb_id base) attrs (t\<lparr>sh_board := map (with_id N) b'\<rparr>) = (with_id N e, t') \<and>
          sh_board s' = b' \<and> alike N (front e s') (front (with_id N e) t')"
        using attrs(1) tr ix(2) len triples_le [of b']
        by (intro alike_new [OF a ids len' attrs(1) _ e]) (auto simp: potential_def)
      then obtain t' where t': "from_attributes ?ids (eb_id base) attrs (t\<lparr>sh_board := map (with_id N) b'\<rparr>) =
          (with_id N e, t')" and a': "alike N (front e s') (front (with_id N e) t')"
        by blast
      have "alike N (front e (add_log l s')) (front (with_id N e) (add_log l t'))"
        using a' by (simp add: alike_def front_def add_log_def emo_ids_def)
      from add_law [OF this] show ?thesis
        using f by (auto simp: rm rm_t attrs(2,3) e t' coins_alike_def intro!: both_mapR)
    qed
  qed
  have ix: "same_base_not_triple_indexes base_id t = same_base_not_triple_indexes base_id s" for base_id
    by (auto simp: same_base_not_triple_indexes_def alike_board [OF a] enumerate_nth filter_map comp_def
        intro!: arg_cong [where f = "map word_of_nat"] filter_cong)
  show ?thesis
    unfolding process_triple_def cs prod.case Let_def
    using a by (auto intro!: both_bindE [OF get_emo_by_id_both [OF a]] both_bindE [OF get_emo_index_by_id_both [OF a]]
        step simp: ix)
qed

lemma body_both:
  assumes "alike N (front e s) (front (with_id N e) t)"
  shows "both (coins_alike N) (add_emo_body add bases s e i) (add_emo_body add bases t (with_id N e) i)"
proof -
  have b: "sh_board t = map (with_id N) (sh_board s)" and len: "length (sh_board s) < 7"
    using assms by (auto simp: alike_def)
  have count: "count_emos t = count_emos s"
    by (simp add: count_emos_def b)
  show ?thesis
  proof (cases "i \<le> count_emos s")
    case False
    then show ?thesis by (simp add: add_emo_body_def Let_def count)
  next
    case True
    then have i: "toNumber i \<le> length (sh_board s)"
      using len unat_small [of "length (sh_board s)"] by (simp add: count_emos_def word_le_nat_alt)
    let ?b = "take (toNumber i) (sh_board s) @ e # drop (toNumber i) (sh_board s)"
    have "mset ?b = mset (e # sh_board s)"
      by (metis append_take_drop_id mset.simps(2) mset_append union_mset_add_mset_right)
    then have "mset (map se_id ?b) = mset (map se_id (e # sh_board s))"
      by (simp only: mset_map)
    then have ids: "set (map se_id ?b) = set (map se_id (e # sh_board s))"
      "distinct (map se_id ?b) \<longleftrightarrow> distinct (map se_id (e # sh_board s))"
      by (metis mset_eq_setD, metis mset_eq_imp_distinct_iff)
    have "alike N ((front e s)\<lparr>sh_board := ?b\<rparr>) ((front (with_id N e) t)\<lparr>sh_board := map (with_id N) ?b\<rparr>)"
    proof (rule alike_boards [OF assms])
      show "set (map se_id ?b) \<subseteq> set (emo_ids (front e s))" "distinct (map se_id ?b)"
        using ids assms by (simp_all add: alike_def emo_ids_def)
    qed (use len potential_insert [of "toNumber i" "sh_board s" e] in simp_all)
    then have a: "alike N (s\<lparr>sh_board := ?b\<rparr>) (t\<lparr>sh_board := map (with_id N) ?b\<rparr>)"
      by (simp add: front_def)
    let ?l = "BoardLog_Add (mtc_shop_BoardLog_Add i (into_board_emo e))"
    have ins: "insert_emo i e (add_log ?l s) = Inr (add_log ?l (s\<lparr>sh_board := ?b\<rparr>))"
      "insert_emo i (with_id N e) (add_log ?l t) = Inr (add_log ?l (t\<lparr>sh_board := map (with_id N) ?b\<rparr>))"
      using i by (simp_all add: insert_emo_def add_log_def b take_map drop_map)
    show ?thesis
      using True a process_triple_both
      by (auto simp: add_emo_body_def Let_def count ins
          intro!: both_bindE [OF addition_abilities_both] both_refl)
  qed
qed

end

text \<open>The interface holds of the code's function, by induction on the depth of the recursion.\<close>

lemma add_emo_both:
  "alike N (front e s) (front (with_id N e) t) \<Longrightarrow>
   both (coins_alike N) (add_emo_with_board_emo n bases s e i) (add_emo_with_board_emo n bases t (with_id N e) i)"
proof (induction n arbitrary: s t e i)
  case (Suc n)
  have "renamed_adder N (add_emo_with_board_emo n bases)"
    by unfold_locales (rule Suc.IH)
  from renamed_adder.body_both [OF this Suc.prems] show ?case by simp
qed simp

interpretation renamed: renamed_adder N bases "add_emo_with_board_emo shop_fuel bases" for N bases
  by unfold_locales (rule add_emo_both)

end
