(* ===== verification/ReplayFacts.thy ===== *)
theory ReplayFacts
  imports ReplayNames ShopRuns
begin

text \<open>
  The chain accepts what the front records: the replay of the operations (\<open>RustReplay\<close>) follows the
  account of the screen (\<open>plays_within\<close> of \<open>ShopScreenFacts\<close>), as long as the coins do not run out and
  fit a byte.
\<close>

section \<open>Selling and the start of the shop on boards alike\<close>

text \<open>At the start of an operation no id has been given yet, and the board may shrink.\<close>

lemma alike_start:
  assumes "alike N s t" "sh_next_id s = nm_from N" "set (map se_id b) \<subseteq> set (emo_ids s)" "distinct (map se_id b)"
    and "length b \<le> 7"
  shows "alike N (s\<lparr>sh_board := b\<rparr>) (t\<lparr>sh_board := map (with_id N) b\<rparr>)"
proof -
  from assms(1) obtain j where j: "sh_next_id s = nm_from N + of_nat j" "sh_next_id t = nm_to N + of_nat j"
    "j + potential (sh_board s) \<le> 63" "set (emo_ids s) \<subseteq> given N j"
    by (auto simp: alike_def)
  with assms(2) have "(of_nat j :: u16) = of_nat 0" by simp
  then have "j = 0"
    using j(3) by (subst (asm) of_nat_u16_eq) auto
  with j assms(3) have "sh_next_id s = nm_from N + of_nat 0" "sh_next_id t = nm_to N + of_nat 0"
    "set (map se_id b) \<subseteq> given N 0"
    by auto
  moreover have "naming_ok N"
    using assms(1) by (simp add: alike_def)
  ultimately show ?thesis
    using assms(4,5) potential_63 [of b] unfolding alike_def emo_ids_def
    by (intro conjI exI [of _ 0]) simp_all
qed

lemma log_then_board: "(add_log l s)\<lparr>sh_board := b\<rparr> = add_log l (s\<lparr>sh_board := b\<rparr>)"
  by (simp add: add_log_def)

lemma remove_both:
  assumes "alike N s t" "sh_next_id s = nm_from N"
  shows "both (\<lambda>(e, s) (e', t). e' = with_id N e \<and> alike N s t) (remove_emo i (add_log l s)) (remove_emo i (add_log l t))"
proof (cases "toNumber i < length (sh_board s)")
  case True
  let ?b = "take (toNumber i) (sh_board s) @ drop (Suc (toNumber i)) (sh_board s)"
  have d: "distinct (emo_ids s)" and len: "length (sh_board s) \<le> 7"
    using assms(1) by (simp_all add: alike_def)
  have ids: "map se_id ?b = take (toNumber i) (emo_ids s) @ drop (Suc (toNumber i)) (emo_ids s)"
    by (simp add: emo_ids_def take_map drop_map)
  have "distinct (map se_id ?b)"
    unfolding ids using d set_take_disj_set_drop_if_distinct [of "emo_ids s" "toNumber i" "Suc (toNumber i)"]
    by simp
  moreover have "set (map se_id ?b) \<subseteq> set (emo_ids s)"
    unfolding ids by (auto dest: in_set_takeD in_set_dropD)
  ultimately have "alike N (s\<lparr>sh_board := ?b\<rparr>) (t\<lparr>sh_board := map (with_id N) ?b\<rparr>)"
    using len by (intro alike_start [OF assms]) simp_all
  then have "alike N (add_log l (s\<lparr>sh_board := ?b\<rparr>)) (add_log l (t\<lparr>sh_board := map (with_id N) ?b\<rparr>))"
    by simp
  then show ?thesis
    using True by (simp add: remove_emo_def alike_board [OF assms(1)] take_map drop_map log_then_board)
qed (simp add: remove_emo_def alike_length [OF assms(1)])

lemma sell_both:
  assumes "alike N s t" "sh_next_id s = nm_from N"
  shows "both (coins_alike N) (sell_emo i bases s) (sell_emo i bases t)"
proof -
  have loop: "both (coins_alike N)
      (foldE (\<lambda>cs action. call_ability_action_as_oneself (add_emo_with_board_emo shop_fuel bases) bases action
          (Removed e i) cs) (EMO_SELL_COIN, s') (sell_actions e))
      (foldE (\<lambda>cs action. call_ability_action_as_oneself (add_emo_with_board_emo shop_fuel bases) bases action
          (Removed (with_id N e) i) cs) (EMO_SELL_COIN, t') (sell_actions (with_id N e)))"
    if "alike N s' t'" for e s' t'
    using that renamed.as_oneself_both [where p = "Removed e i"]
    by (auto intro!: foldE_both_id)
  show ?thesis
    unfolding sell_emo_def sell_emo_with_def alike_count [OF assms(1)]
    by (auto intro!: both_bindE [OF remove_both [OF assms]] loop)
qed

text \<open>A shuffle moves elements without looking at them.\<close>

definition by_position :: "'rng shuffler \<Rightarrow> bool" where
  "by_position shuffle \<longleftrightarrow>
     (\<forall>rng f ids. shuffle rng (map f ids) = map_prod (map f) id (shuffle rng ids))"

lemma menagerie_both:
  assumes "by_position shuffle" "alike N s t"
  shows "both (\<lambda>a b. fst a = fst b \<and> alike N (snd a) (snd b))
    (increase_stats_of_menagerie shuffle bases i n attack health (rng, s))
    (increase_stats_of_menagerie shuffle bases (nm_of N i) n attack health (rng, t))"
proof -
  obtain ids rng' where sh: "shuffle rng (emo_ids s) = (ids, rng')" by fastforce
  then have "shuffle rng (emo_ids t) = (map (nm_of N) ids, rng')"
    using assms(1) by (simp add: by_position_def emo_ids_alike [OF assms(2)])
  then show ?thesis
    unfolding increase_stats_of_menagerie_def prod.case Let_def sh
    using assms(2)
    by (auto intro!: both_bindE [OF get_emo_by_id_both] both_mapR [OF menagerie_loop_both] split: prod.split)
qed

lemma pre_abilities_alike:
  "alike N s t \<Longrightarrow> get_board_pre_abilities t = map (map_prod (nm_of N) id) (get_board_pre_abilities s)"
proof -
  have "List.map_filter (\<lambda>a. case a of Ability_Shop (Shop_Pre p) \<Rightarrow> Some (f i, p) | _ \<Rightarrow> None) xs =
      map (map_prod f id) (List.map_filter (\<lambda>a. case a of Ability_Shop (Shop_Pre p) \<Rightarrow> Some (i, p) | _ \<Rightarrow> None) xs)"
    for f :: "u16 \<Rightarrow> u16" and i xs
    by (induction xs) (auto simp: List.map_filter_simps split: emo_ability_Ability.splits emo_ability_shop_Shop.splits)
  then show "alike N s t \<Longrightarrow> ?thesis"
    by (simp add: get_board_pre_abilities_def alike_board map_concat comp_def)
qed

lemma start_shop_both:
  assumes "by_position shuffle" "alike N s t"
  shows "both (coins_alike N) (start_shop shuffle seed_from seed bases s) (start_shop shuffle seed_from seed bases t)"
proof -
  let ?R = "\<lambda>a b. fst a = fst b \<and> coins_alike N (snd a) (snd b)"
  let ?add = "add_emo_with_board_emo shop_fuel bases"
  have step: "both ?R (call_pre_ability ?add shuffle bases a p)
      (call_pre_ability ?add shuffle bases b (map_prod (nm_of N) id p))" if r: "?R a b" for a b p
  proof -
    obtain rng c s t i ability where a: "a = (rng, c, s)" "b = (rng, c, t)" "p = (i, ability)" "alike N s t"
      using r by (cases a; cases b; cases p) auto
    show ?thesis
    proof (cases ability)
      case (Pre_Normal action)
      then show ?thesis
        using a renamed.as_oneself_both [where p = "OnBoard i" and N = N and bases = bases and action = action
            and cs = "(c, s)" and cs' = "(c, t)"]
        by (auto simp: call_pre_ability_def intro!: both_mapR [where R = "coins_alike N"])
    next
      case (Pre_Random r)
      then show ?thesis
        using a by (cases r rule: emo_ability_shop_RandomAction.exhaust)
          (auto simp: call_pre_ability_def
            split: emo_ability_shop_RandomAction_IncreaseStatsOfMenagerie.split
            intro!: both_mapR [OF menagerie_both [OF assms(1)]])
    qed
  qed
  show ?thesis
    unfolding start_shop_def start_shop_with_def pre_abilities_alike [OF assms(2)]
    by (rule both_mapR [where R = ?R], rule foldE_both) (use step assms(2) in auto)
qed

section \<open>A board taken in anew is like the one of the replay\<close>

lemma from_board_ids:
  "emo_ids (from_board b s) = emo_ids s @ map (\<lambda>k. sh_next_id s + of_nat k) [0..<length b] \<and>
   sh_next_id (from_board b s) = sh_next_id s + of_nat (length b)"
proof (induction b arbitrary: s)
  case (Cons e b)
  have shift: "map (\<lambda>k. i + (1 + of_nat k)) [0..<n] = map (\<lambda>k. i + of_nat k) [Suc 0..<Suc n]" for i :: u16 and n
    by (simp add: map_Suc_upt [symmetric] comp_def del: upt_Suc)
  have "[0..<Suc (length b)] = 0 # [Suc 0..<Suc (length b)]"
    by (rule upt_conv_Cons) simp
  let ?e = "fst (from_board_emo e s)" and ?s = "snd (from_board_emo e s)"
  have s: "sh_board ?s = sh_board s" "sh_next_id ?s = sh_next_id s + 1" "se_id ?e = sh_next_id s"
    by (simp_all add: from_board_emo_def from_attributes_def generate_shop_board_emo_id_def Let_def)
  let ?t = "?s\<lparr>sh_board := sh_board ?s @ [?e]\<rparr>"
  have t: "emo_ids ?t = emo_ids s @ [sh_next_id s]" "sh_next_id ?t = sh_next_id s + 1"
    by (simp_all add: emo_ids_def s)
  show ?case
    using Cons.IH [of ?t] \<open>[0..<Suc (length b)] = _\<close> unfolding t
    by (simp add: case_prod_unfold Let_def shift add.assoc del: upt_Suc)
qed (simp add: emo_ids_def)

lemma taken_in_ids:
  "emo_ids (taken_in b g) = map (\<lambda>k. g + of_nat k) [0..<length b]"
  "sh_next_id (taken_in b g) = g + of_nat (length b)"
  using from_board_ids [of b "\<lparr>sh_board = [], sh_logs = [], sh_next_id = g\<rparr>"]
  by (simp_all add: taken_in_def emo_ids_def)

lemma emo_eqI: "into_board_emo e = into_board_emo e' \<Longrightarrow> se_id e = se_id e' \<Longrightarrow> e = e'" for e e' :: ShopBoardEmo
  by (cases e; cases e') (simp add: into_board_emo_def mtc_BoardEmo.truncate_def)

text \<open>An injection on some ids is that of an injection on all of them.\<close>

lemma inj_extends:
  fixes f :: "u16 \<Rightarrow> u16"
  assumes "inj_on f A"
  obtains h where "inj h" "\<And>x. x \<in> A \<Longrightarrow> h x = f x"
proof -
  have "card (f ` A) = card A"
    using assms by (rule card_image)
  then have "card (- A) = card (- (f ` A))"
    by (simp add: Compl_eq_Diff_UNIV card_Diff_subset)
  then obtain k where k: "bij_betw k (- A) (- (f ` A))"
    using finite_same_card_bij by (metis finite)
  let ?h = "\<lambda>x. if x \<in> A then f x else k x"
  have "inj ?h"
  proof (rule injI)
    fix x y assume eq: "?h x = ?h y"
    have out: "k z \<notin> f ` A" if "z \<notin> A" for z
      using bij_betwE [OF k] that by blast
    consider "x \<in> A" "y \<in> A" | "x \<notin> A" "y \<notin> A" | "x \<in> A" "y \<notin> A" | "x \<notin> A" "y \<in> A"
      by blast
    then show "x = y"
    proof cases
      case 1
      then show ?thesis using eq inj_onD [OF assms] by simp
    next
      case 2
      then show ?thesis using eq inj_onD [OF bij_betw_imp_inj_on [OF k], of x y] by simp
    next
      case 3
      then show ?thesis using eq out [of y] by (metis imageI)
    next
      case 4
      then show ?thesis using eq out [of x] by (metis imageI)
    qed
  qed
  then show thesis by (rule that) simp
qed

text \<open>Ids given lately, of which none will be given again soon.\<close>

definition recent :: "nat \<Rightarrow> shop_state \<Rightarrow> bool" where
  "recent m t \<longleftrightarrow> length (sh_board t) \<le> 7 \<and> distinct (emo_ids t) \<and>
     (\<forall>i\<in>set (emo_ids t). \<exists>k. 0 < k \<and> k \<le> m \<and> i + of_nat k = sh_next_id t)"

lemma recent_fresh:
  assumes "recent m t" "m + n \<le> 65536" "k < n"
  shows "sh_next_id t + of_nat k \<notin> set (emo_ids t)"
proof
  assume "sh_next_id t + of_nat k \<in> set (emo_ids t)"
  with assms(1) obtain l where l: "0 < l" "l \<le> m" "sh_next_id t + of_nat k + of_nat l = sh_next_id t"
    by (auto simp: recent_def)
  then have "(of_nat (k + l) :: u16) = of_nat 0"
    by (simp add: add.assoc)
  then show False
    using l(1,2) assms(2,3) by (subst (asm) of_nat_u16_eq) auto
qed

lemma naming_exists:
  assumes "map into_board_emo (sh_board t) = board" "recent m t" "m + 64 \<le> 65536"
  obtains N where "alike N (taken_in board g) t" "nm_from N = sh_next_id (taken_in board g)"
    "nm_to N = sh_next_id t" "nm_old N = set (emo_ids (taken_in board g))"
proof -
  let ?s = "taken_in board g" and ?n = "length board"
  have len: "length (sh_board t) = ?n" "?n \<le> 7"
    using assms(1,2) by (auto simp: recent_def)
  have small: "(of_nat a :: u16) = of_nat b \<longleftrightarrow> a = b" if "a < ?n + 64" "b < ?n + 64" for a b
    using that len(2) by (intro of_nat_u16_eq) simp_all
  let ?new = "\<lambda>k. if k < ?n then emo_ids t ! k else sh_next_id t + of_nat (k - ?n)"
  let ?f = "\<lambda>x. ?new (unat (x - g))"
  let ?A = "(\<lambda>k. g + of_nat k) ` {..<?n + 64}"
  have f: "?f (g + of_nat k) = ?new k" if "k < ?n + 64" for k
    using that len(2) by (simp add: unat_of_nat)
  have new: "?new a \<noteq> ?new b" if "a < b" "b < ?n + 64" for a b
  proof -
    have ids: "distinct (emo_ids t)" "length (emo_ids t) = ?n"
      using assms(2) len(1) by (simp_all add: recent_def emo_ids_def)
    have fresh: "sh_next_id t + of_nat (b - ?n) \<noteq> emo_ids t ! a" if "a < ?n" "?n \<le> b"
      using recent_fresh [OF assms(2,3), of "b - ?n"] that \<open>b < ?n + 64\<close> ids(2) nth_mem [of a "emo_ids t"] by fastforce
    show ?thesis
      using that ids fresh small [of a b]
      by (auto simp: nth_eq_iff_index_eq)
  qed
  have "inj_on ?f ?A"
  proof (rule inj_onI)
    fix x y assume "x \<in> ?A" "y \<in> ?A" "?f x = ?f y"
    then obtain a b where ab: "x = g + of_nat a" "y = g + of_nat b" "a < ?n + 64" "b < ?n + 64" "?new a = ?new b"
      using f by auto
    then show "x = y"
      using new [of a b] new [of b a] by (cases a b rule: linorder_cases) auto
  qed
  then obtain h where h: "inj h" "\<And>x. x \<in> ?A \<Longrightarrow> h x = ?f x"
    by (rule inj_extends) blast
  have hk: "h (g + of_nat k) = ?new k" if "k < ?n + 64" for k
  proof -
    have "g + of_nat k \<in> ?A" using that by blast
    then show ?thesis using h(2) f [OF that] by simp
  qed
  define N where "N = \<lparr>nm_of = h, nm_from = sh_next_id ?s, nm_to = sh_next_id t, nm_old = set (emo_ids ?s)\<rparr>"
  have N: "nm_of N = h" "nm_from N = g + of_nat ?n" "nm_to N = sh_next_id t" "nm_old N = set (emo_ids ?s)"
    by (simp_all add: N_def taken_in_ids)
  have window: "nm_of N (nm_from N + of_nat k) = nm_to N + of_nat k \<and> nm_from N + of_nat k \<notin> nm_old N" if "k < 64" for k
  proof -
    have "nm_from N + of_nat k = g + of_nat (?n + k)"
      by (simp add: N add.assoc)
    moreover have "g + of_nat (?n + k) \<notin> (\<lambda>a. g + of_nat a) ` set [0..<?n]"
    proof
      assume "g + of_nat (?n + k) \<in> (\<lambda>a. g + of_nat a) ` set [0..<?n]"
      then obtain a where "a < ?n" "(of_nat (?n + k) :: u16) = of_nat a" by auto
      then show False using small [of "?n + k" a] that by simp
    qed
    moreover have "nm_old N = (\<lambda>a. g + of_nat a) ` set [0..<?n]"
      by (simp only: N taken_in_ids set_map)
    ultimately show ?thesis
      using hk [of "?n + k"] that by (simp only: N) simp
  qed
  have board: "sh_board t = map (with_id N) (sh_board ?s)"
  proof (rule nth_equalityI)
    show "length (sh_board t) = length (map (with_id N) (sh_board ?s))"
      by (simp add: len(1) taken_in)
    fix k assume k: "k < length (sh_board t)"
    have ks: "k < length (sh_board ?s)" using k len(1) by (simp add: taken_in)
    have "map into_board_emo (sh_board ?s) = board"
      using taken_in(1) [of board g] from_board_into [of board "\<lparr>sh_board = [], sh_logs = [], sh_next_id = g\<rparr>"]
      by (simp add: taken_in_def)
    then have "into_board_emo (sh_board ?s ! k) = into_board_emo (sh_board t ! k)"
      using assms(1) k ks by (metis nth_map)
    moreover have "se_id (sh_board ?s ! k) = g + of_nat k"
      using arg_cong [OF taken_in_ids(1) [of board g], of "\<lambda>x. x ! k"] ks k len(1) by (simp add: emo_ids_def)
    then have "nm_of N (se_id (sh_board ?s ! k)) = se_id (sh_board t ! k)"
      using hk [of k] k len(1) by (simp add: N emo_ids_def)
    ultimately show "sh_board t ! k = map (with_id N) (sh_board ?s) ! k"
      using ks by (intro emo_eqI) simp_all
  qed
  have "distinct (emo_ids ?s)"
    using small by (auto simp: taken_in_ids distinct_map inj_on_def)
  then have "alike N ?s t"
    unfolding alike_def naming_ok_def
    using h(1) window board len(2) potential_63 [of "sh_board ?s"]
    by (auto simp: N taken_in given_def taken_in_ids(2) intro!: exI [of _ 0])
  then show thesis
    by (rule that) (simp_all add: N_def)
qed

text \<open>What an operation leaves is recent too.\<close>

lemma recent_after:
  assumes "alike N s t" "nm_to N = sh_next_id t" "nm_old N = set (emo_ids s)" "recent m t" "alike N s' t'"
  shows "recent (m + 63) t'"
proof -
  from assms(5) obtain j where j: "sh_next_id t' = nm_to N + of_nat j" "j \<le> 63"
    "set (emo_ids s') \<subseteq> given N j" and N: "naming_ok N"
    and s': "length (sh_board s') \<le> 7" "distinct (emo_ids s')"
    by (auto simp: alike_def)
  have inj: "inj (nm_of N)" using N by (simp add: naming_ok_def)
  have "\<exists>k. 0 < k \<and> k \<le> m + 63 \<and> nm_of N i + of_nat k = sh_next_id t'" if i: "i \<in> set (emo_ids s')" for i
  proof (cases "i \<in> nm_old N")
    case True
    then have "nm_of N i \<in> set (emo_ids t)"
      using assms(3) emo_ids_alike [OF assms(1)] by simp
    then obtain k where "0 < k" "k \<le> m" "nm_of N i + of_nat k = sh_next_id t"
      using assms(4) by (auto simp: recent_def)
    then show ?thesis
      using j(1,2) assms(2) by (intro exI [of _ "k + j"]) (simp add: add.assoc [symmetric])
  next
    case False
    then obtain k where k: "i = nm_from N + of_nat k" "k < j"
      using i j(3) by (auto simp: given_def)
    then have "nm_of N i = nm_to N + of_nat k"
      using N j(2) by (simp add: naming_ok_def)
    then show ?thesis
      using k(2) j by (intro exI [of _ "j - k"]) (simp add: of_nat_diff)
  qed
  then show ?thesis
    using s' inj by (auto simp: recent_def emo_ids_alike [OF assms(5)] alike_length [OF assms(5)] distinct_map
        intro: inj_on_subset)
qed

text \<open>An operation of the front, and the same of the replay.\<close>

lemma replayed:
  assumes "decode_and_encode_for_shop g board f = Inr (board', c, logs)"
    and "map into_board_emo (sh_board t) = board" "recent m t" "m + 64 \<le> 65536"
    and "\<And>N s t. alike N s t \<Longrightarrow> sh_next_id s = nm_from N \<Longrightarrow> both (coins_alike N) (f s) (f t)"
  obtains d t' where "f t = Inr (d, t')" "toNumber d = c" "map into_board_emo (sh_board t') = board'" "recent (m + 63) t'"
proof -
  obtain N where N: "alike N (taken_in board g) t" "nm_from N = sh_next_id (taken_in board g)"
    "nm_to N = sh_next_id t" "nm_old N = set (emo_ids (taken_in board g))"
    by (rule naming_exists [OF assms(2-4)])
  from assms(1) obtain d s' where s': "f (taken_in board g) = Inr (d, s')" "board' = map into_board_emo (sh_board s')"
    "c = toNumber d"
    by (auto simp: decode_and_encode_for_shop_def split: sum.splits js_error.splits)
  from both_Inr [OF assms(5) [OF N(1) N(2) [symmetric]] s'(1)] obtain t' where
    t': "f t = Inr (d, t')" "alike N s' t'"
    by auto
  show thesis
    by (rule that [OF t'(1) s'(3) [symmetric]])
      (use s'(2) alike_into [OF t'(2)] recent_after [OF N(1,3,4) assms(3) t'(2)] in simp_all)
qed

section \<open>Moves\<close>

lemma position_of_nth: "distinct xs \<Longrightarrow> i < length xs \<Longrightarrow> position_of (xs ! i) xs = Some i"
proof -
  assume "distinct xs" "i < length xs"
  then have "find (\<lambda>(_, y). y = xs ! i) (List.enumerate 0 xs) = Some (i, xs ! i)"
    by (auto simp: find_Some_iff nth_enumerate_eq nth_eq_iff_index_eq intro!: exI [of _ i])
  then show ?thesis by (simp add: position_of_def)
qed

lemma swap_at_behind:
  "i < length rest \<Longrightarrow>
   swap_at (length done) (length done + i) (done @ rest) = done @ rest ! i # tl (swap_at 0 i rest)"
  by (cases rest) (auto simp: swap_at_def list_update_append nth_append split: nat.split)

lemma mset_swapped_rest: "i < length rest \<Longrightarrow> mset (rest ! i # tl (swap_at 0 i rest)) = mset rest"
proof -
  assume i: "i < length rest"
  then have eq: "swap_at 0 i rest = rest ! i # tl (swap_at 0 i rest)"
    by (cases rest; cases i) (auto simp: swap_at_def)
  have "mset (swap_at 0 i rest) = mset rest"
    using i by (intro mset_swap_at) auto
  then show ?thesis
    by (simp only: eq [symmetric])
qed

text \<open>The loop of \<open>mov\<close> puts the emoji of each index where the index stands.\<close>

lemma mov_loop:
  "mset rest = mset ys \<Longrightarrow> distinct (done @ rest) \<Longrightarrow> length (done @ rest) \<le> 7 \<Longrightarrow>
   sh_board s = map f (done @ rest) \<Longrightarrow>
   foldE mov_step (done @ rest, s) (List.enumerate (length done) ys) =
     Inr (done @ ys, s\<lparr>sh_board := map f (done @ ys)\<rparr>)"
proof (induction ys arbitrary: rest "done" s)
  case Nil
  then show ?case by simp
next
  case (Cons y ys)
  have "y \<in> set rest"
    using Cons.prems(1) by (metis list.set_intros(1) mset_eq_setD)
  then obtain i where i: "i < length rest" "y = rest ! i"
    by (auto simp: in_set_conv_nth)
  let ?rest = "tl (swap_at 0 i rest)" and ?k = "length done"
  have pos: "position_of y (done @ rest) = Some (?k + i)"
    using position_of_nth [OF Cons.prems(2), of "?k + i"] i by (simp add: nth_append)
  have swap: "swap_at ?k (?k + i) (done @ rest) = (done @ [y]) @ ?rest"
    using swap_at_behind [OF i(1), of "done"] i(2) by simp
  have small: "toNumber (word_of_nat ?k :: u8) = ?k" "toNumber (word_of_nat (?k + i) :: u8) = ?k + i"
    using i(1) Cons.prems(3) by (simp_all add: unat_small del: of_nat_add)
  have board: "swap_emos (word_of_nat ?k) (word_of_nat (?k + i)) s =
      Inr (s\<lparr>sh_board := map f ((done @ [y]) @ ?rest)\<rparr>)"
  proof -
    have "swap_at ?k (?k + i) (sh_board s) = map f (swap_at ?k (?k + i) (done @ rest))"
      unfolding Cons.prems(4) using i(1) by (intro map_swap_at [symmetric]) auto
    then have "swap_at ?k (?k + i) (sh_board s) = map f ((done @ [y]) @ ?rest)"
      by (simp only: swap)
    moreover have "?k + i < length (sh_board s)"
      using i(1) by (simp add: Cons.prems(4))
    ultimately show ?thesis
      by (simp only: swap_emos_def small if_True) simp
  qed
  have m: "mset (y # ?rest) = mset rest"
    using mset_swapped_rest [OF i(1)] i(2) by simp
  then have rest: "mset ?rest = mset ys"
    using Cons.prems(1) by simp
  have "mset ((done @ [y]) @ ?rest) = mset (done @ rest)"
    using m by simp
  then have "distinct ((done @ [y]) @ ?rest)" "length ((done @ [y]) @ ?rest) \<le> 7"
    using Cons.prems(2,3) by (metis mset_eq_imp_distinct_iff, metis mset_eq_length)
  from Cons.IH [OF rest this, of "s\<lparr>sh_board := map f ((done @ [y]) @ ?rest)\<rparr>"]
  moreover have "mov_step (done @ rest, s) (?k, y) =
      Inr ((done @ [y]) @ ?rest, s\<lparr>sh_board := map f ((done @ [y]) @ ?rest)\<rparr>)"
    by (simp only: mov_step_def prod.case pos option.case swap board mapR_simps)
  ultimately show ?case
    by simp
qed

lemma mov_rearranges:
  assumes "rearrangement (length (sh_board s)) is" "length (sh_board s) \<le> 7"
  shows "mov is s = Inr (s\<lparr>sh_board := map (\<lambda>i. sh_board s ! toNumber i) is\<rparr>)"
proof -
  let ?n = "length (sh_board s)"
  have ids: "map toNumber (emo_indexes s) = [0..<?n]"
    using assms(2) by (auto simp: emo_indexes_def unat_small intro: map_idI)
  then have "mset (map toNumber (emo_indexes s)) = mset (map toNumber is)"
    using assms(1) by (simp add: rearrangement_def)
  then have m: "mset (emo_indexes s) = mset is"
    by (metis (mono_tags, lifting) mset_map inj_def multiset.inj_map word_unat_eq_iff injD)
  have "distinct (map toNumber (emo_indexes s))"
    unfolding ids by simp
  then have d: "distinct (emo_indexes s)"
    by (simp add: distinct_map)
  have "map (\<lambda>i. sh_board s ! toNumber i) (emo_indexes s) = map (\<lambda>k. sh_board s ! k) (map toNumber (emo_indexes s))"
    by (simp add: comp_def)
  then have b: "sh_board s = map (\<lambda>i. sh_board s ! toNumber i) ([] @ emo_indexes s)"
    unfolding ids by (simp add: map_nth)
  have "foldE mov_step ([] @ emo_indexes s, s) (List.enumerate (length ([] :: u8 list)) is) =
      Inr ([] @ is, s\<lparr>sh_board := map (\<lambda>i. sh_board s ! toNumber i) ([] @ is)\<rparr>)"
    by (rule mov_loop [OF m _ _ b]) (use d assms(2) in \<open>simp_all add: emo_indexes_def\<close>)
  then show ?thesis
    using mset_eq_length [OF m] by (simp add: mov_def)
qed

lemma recent_le: "recent m t \<Longrightarrow> m \<le> m' \<Longrightarrow> recent m' t"
  by (fastforce simp: recent_def)

lemma recent_moved:
  assumes "recent m t" "rearrangement (length (sh_board t)) is"
  shows "recent m (t\<lparr>sh_board := map (\<lambda>i. sh_board t ! toNumber i) is\<rparr>)"
proof -
  let ?b = "map (\<lambda>i. sh_board t ! toNumber i) is"
  have "mset ?b = image_mset ((!) (sh_board t)) (mset (map toNumber is))"
    by (simp add: comp_def image_mset.compositionality)
  also have "\<dots> = mset (sh_board t)"
    using assms(2) unfolding rearrangement_def by (metis map_nth mset_map)
  finally have "mset (map se_id ?b) = mset (emo_ids t)"
    by (simp add: emo_ids_def mset_map del: map_map)
  then have "set (map se_id ?b) = set (emo_ids t)" "distinct (map se_id ?b)"
    using assms(1) by (metis mset_eq_setD, metis mset_eq_imp_distinct_iff recent_def)
  moreover have "length is = length (sh_board t)"
    using assms(2) by (rule rearrangement_length)
  ultimately show ?thesis
    using assms(1) unfolding recent_def emo_ids_def by simp
qed

section \<open>Coins that the chain accepts\<close>

text \<open>
  An emoji is bought with its price at hand, nothing is owed, and the coins stay within a byte. So do
  those of a careful player, who is never seen with more than 255 coins.
\<close>

definition payable :: "int \<Rightarrow> mtc_shop_PlayerOperation \<Rightarrow> int \<Rightarrow> bool" where
  "payable c op c' \<longleftrightarrow> 0 \<le> c \<and> c \<le> 255 \<and> 0 \<le> c' \<and> c' \<le> 255 \<and> (is_buy op \<longrightarrow> int emoBuyCoin \<le> c)"

definition paid_step :: "'rng shop_env \<Rightarrow> screen \<Rightarrow> screen \<Rightarrow> bool" where
  "paid_step env sc sc' \<longleftrightarrow> careful_step env sc sc' \<and> st_coin (sc_shopState sc') \<le> 255"

lemma coin_inv_0: "coin_inv 3 sc \<Longrightarrow> 0 \<le> st_coin (sc_shopState sc)"
  by (simp add: coin_inv_def constants)

lemma paid_recorded:
  assumes "paid_step env sc sc'" "catalog_ok env" "screen_inv env sc" "coin_inv 3 sc"
    and "st_coin (sc_shopState sc) \<le> 255" "recorded payable env s0 sc"
  shows "recorded payable env s0 sc'"
proof -
  from assms(1) have step: "careful_step env sc sc'" and max: "st_coin (sc_shopState sc') \<le> 255"
    by (simp_all add: paid_step_def)
  note c = coin_inv_0 [OF careful_coin [OF step assms(3,4)]] coin_inv_0 [OF assms(4)] max assms(5)
  have buy: "int emoBuyCoin \<le> st_coin (sc_shopState sc)" if "sc_operation sc = Operation_set i e" for i e
    using assms(4) that by (auto simp: coin_inv_def buying_def constants)
  from step show ?thesis
  proof (rule careful_stepE)
    fix v a
    assume "Shop env sc = Inr v" "a \<in> set (offered v)" "perform a sc = Inr sc'"
    then show ?thesis
      using c by (intro click_recorded [OF assms(3,6) offered_allowed]) (auto simp: payable_def)
  next
    fix next_id r element
    assume "sc_isBoardOperating sc" "run_operation env next_id sc = Inr (r, element)"
      "finish_operation r element sc = Inr sc'"
    then show ?thesis
      using c buy by (intro finish_recorded [OF assms(3,2,6)]) (auto simp: payable_def)
  qed
qed

definition paid_reaches :: "'rng shop_env \<Rightarrow> MtcState \<Rightarrow> node \<Rightarrow> screen \<Rightarrow> bool" where
  "paid_reaches env s0 element sc \<longleftrightarrow>
     shows_board element [] \<and> length (ms_board s0) \<le> boardSize \<and> catalog_ok env \<and>
     (\<exists>sc0. shop_init s0 element = Inr sc0 \<and> (paid_step env)\<^sup>*\<^sup>* sc0 sc)"

lemma initial_coin: "toNumber (get_initial_coin_by_turn turn) \<le> 8"
  by (auto simp: get_initial_coin_by_turn_def Let_def MAX_COIN_def word_less_nat_alt not_less)

lemma paid_reachesD:
  assumes "paid_reaches env s0 element sc" "case ms_upgradeCoin s0 of None \<Rightarrow> True | Some c \<Rightarrow> 0 \<le> c"
  shows "recorded payable env s0 sc"
proof -
  from assms(1) obtain sc0 where sc0: "shop_init s0 element = Inr sc0" "(paid_step env)\<^sup>*\<^sup>* sc0 sc"
    and ok: "shows_board element []" "length (ms_board s0) \<le> boardSize" "catalog_ok env"
    by (auto simp: paid_reaches_def)
  have "screen_inv env sc0"
    by (rule init_inv [OF sc0(1) ok(1,2)]) (use ok(3) in \<open>simp add: catalog_ok_def\<close>)
  moreover have "st_coin (sc_shopState sc0) \<le> 255"
    using sc0(1) initial_coin [of "word_of_nat (ms_turn s0)"]
    by (auto simp: shop_init_def start_operation_def initial_shop_state_def simp del: of_nat_unat split: if_splits)
  moreover have "coin_inv 3 sc0"
    by (rule init_coin [OF sc0(1) _ assms(2)]) simp
  ultimately have "screen_inv env sc0 \<and> coin_inv 3 sc0 \<and> st_coin (sc_shopState sc0) \<le> 255 \<and>
      recorded payable env s0 sc0"
    using init_recorded [OF sc0(1)] by blast
  with sc0(2) have "screen_inv env sc \<and> coin_inv 3 sc \<and> st_coin (sc_shopState sc) \<le> 255 \<and>
      recorded payable env s0 sc"
  proof (induction rule: rtranclp_induct)
    case (step y z)
    then have "careful_step env y z" "st_coin (sc_shopState z) \<le> 255"
      by (simp_all add: paid_step_def)
    with step show ?case
      using paid_recorded [OF step(2) ok(3)] careful_coin step_inv [OF careful_is_step] by blast
  qed simp
  then show ?thesis by simp
qed

section \<open>The replay follows the account\<close>

text \<open>
  The price of an upgrade at the front is at least that at the chain: after an upgrade the front takes
  the price of the grade after the next, and the chain that of the grade reached.
\<close>

definition price_ok :: "nat \<Rightarrow> int option \<Rightarrow> u8 option \<Rightarrow> bool" where
  "price_ok grade upgradeCoin upgrade_coin \<longleftrightarrow>
     (case upgradeCoin of
        None \<Rightarrow> True
      | Some c \<Rightarrow> grade < 6 \<and> (case upgrade_coin of None \<Rightarrow> False | Some d \<Rightarrow> int (toNumber d) \<le> c))"

definition follows :: "nat \<Rightarrow> account \<Rightarrow> replay \<Rightarrow> bool" where
  "follows m p r \<longleftrightarrow>
     map into_board_emo (sh_board (rp_board r)) = ac_board p \<and> recent m (rp_board r) \<and>
     0 \<le> ac_coin p \<and> ac_coin p \<le> int (toNumber (rp_coin r)) \<and>
     toNumber (rp_line r) = ac_line p \<and> rp_counter r = rp_line r \<and>
     map toStringU (rp_sold r) = ac_sold p \<and> toNumber (rp_grade r) = ac_grade p \<and> 1 \<le> ac_grade p \<and>
     price_ok (ac_grade p) (ac_upgradeCoin p) (rp_upgradeCoin r)"

lemma follows_le: "follows m p r \<Longrightarrow> m \<le> m' \<Longrightarrow> follows m' p r"
  by (auto simp: follows_def intro: recent_le)

lemma coins_gotten:
  fixes a d :: u8
  assumes "c \<le> int (toNumber a)" "c + int (toNumber d) \<le> 255"
  shows "c + int (toNumber d) \<le> int (toNumber (saturating_add a d))"
proof (cases "toNumber a + toNumber d < 256")
  case True
  then have "toNumber (a + d) = toNumber a + toNumber d"
    by (simp add: unat_add_lem [THEN iffD1])
  then show ?thesis
    using assms(1) by (simp add: saturating_add_def word_less_nat_alt del: of_nat_unat)
next
  case False
  then have "toNumber (a + d) < toNumber a"
    using unsigned_less [where ?'a = nat, of d] by (simp add: unat_plus_if')
  then show ?thesis
    using assms(2) by (simp add: saturating_add_def word_less_nat_alt unsigned_minus_1_eq_mask mask_eq_exp_minus_1 del: of_nat_unat)
qed

lemma paid:
  fixes a b :: u8
  assumes "c \<le> int (toNumber a)" "int (toNumber b) \<le> c"
  shows "\<exists>d. checked_sub message a b = Inr d \<and> c - int (toNumber b) \<le> int (toNumber d)"
proof -
  have "\<not> a < b"
    using assms by (simp add: word_less_nat_alt del: of_nat_unat)
  then show ?thesis
    using assms(1) by (simp add: checked_sub_def unat_sub word_le_nat_alt not_less of_nat_diff del: of_nat_unat)
qed

text \<open>The bases of the screen are those of the chain, in order.\<close>

definition same_bases :: "emo_Bases \<Rightarrow> 'rng shop_env \<Rightarrow> bool" where
  "same_bases codec env \<longleftrightarrow> bases_ok codec \<and> en_bases env = buildEmoBases codec"

lemma same_bases_find:
  assumes "same_bases codec env" "findEmoBase i (en_bases env) = Inr base"
  shows "find_base codec i = Inr base" "eb_id base = i"
  using found_base [of codec "toStringU i" base] assms
  by (auto simp: same_bases_def findEmoBase_def)

lemma same_bases_codec: "same_bases codec env \<Longrightarrow> bs_codec (en_bases env) = codec"
  by (simp add: same_bases_def buildEmoBases_def)

lemma add_emo_alike:
  assumes "alike N s t"
  shows "both (coins_alike N) (add_emo ids base_id tr i bases s) (add_emo ids base_id tr i bases t)"
proof (cases "length (sh_board s) < 7")
  case True
  then show ?thesis
    unfolding add_emo_def by (rule renamed.add_new [OF assms])
next
  case False
  then have full: "length (sh_board s) = 7" "length (sh_board t) = 7"
    using alike_length_7 [OF assms] alike_length [OF assms] by simp_all
  have stuck: "\<exists>e. add_emo_with_board_emo shop_fuel bases u e' i = Inl e" if "length (sh_board u) = 7" for u e'
    using count_emos_less [of u] that by (simp add: shop_fuel_def numeral_eq_Suc add_emo_body_def Let_def)
  have "\<exists>e. add_emo ids base_id tr i bases u = Inl e" if "length (sh_board u) = 7" for u
    using stuck that
    by (cases "find_base bases base_id")
      (auto simp: add_emo_def add_emo_with_def new_with_base_def from_attributes_def generate_shop_board_emo_id_def Let_def)
  from this [OF full(1)] this [OF full(2)] show ?thesis by auto
qed

lemma js_at_nth: "js_at xs i = Some x \<Longrightarrow> i < length xs \<and> x = xs ! i"
  by (auto simp: js_at_eq_Some_iff)

lemma buy_followed:
  assumes "play_op env turn p (PlayerOperation_Buy (mtc_shop_PlayerOperation_Buy i index)) q"
    and "payable (ac_coin p) (PlayerOperation_Buy (mtc_shop_PlayerOperation_Buy i index)) (ac_coin q)"
    and "follows m p r" "m + 64 \<le> 65536" "same_bases codec env"
  shows "\<exists>r'. replay_buy (en_catalog env) codec i index r = Inr r' \<and> follows (m + 63) q r'"
  using assms(1)
proof cases
  case (play_buy e base g board c logs)
  note b = same_bases_find [OF assms(5) play_buy(6)]
  have board: "map into_board_emo (sh_board (rp_board r)) = ac_board p" and rec: "recent m (rp_board r)"
    and line: "toNumber (rp_line r) = ac_line p" and ids: "map toStringU (rp_sold r) = ac_sold p"
    and grade: "eb_grade base \<le> rp_grade r"
    using assms(3) play_buy(4,7) by (auto simp: follows_def word_le_nat_alt)
  have sold: "i \<notin> set (rp_sold r)"
    using play_buy(4) unfolding ids [symmetric] by auto
  have eq: "map be_mtc_emo_ids (sh_board (rp_board r)) = map be_mtc_emo_ids (ac_board p)"
    by (simp flip: board add: comp_def into_board_emo_def mtc_BoardEmo.truncate_def)
  have new: "\<not> list_ex (\<lambda>e. i \<in> set (be_mtc_emo_ids e)) (sh_board (rp_board r))"
    using play_buy(5) unfolding eq [symmetric] by (auto simp: list_ex_iff)
  obtain coin where coin: "checked_sub ''Not enough coin to buy'' (rp_coin r) EMO_BUY_COIN = Inr coin"
    "ac_coin p - 3 \<le> int (toNumber coin)"
    using paid [of "ac_coin p" "rp_coin r" EMO_BUY_COIN] assms(2,3)
    by (auto simp: follows_def payable_def EMO_BUY_COIN_def constants simp del: of_nat_unat)
  have call: "decode_and_encode_for_shop g (ac_board p)
      (add_emo [i] (me_base_id e) False index codec) = Inr (board, c, logs)"
    using play_buy(8) by (simp add: addEmo_def same_bases_codec [OF assms(5)])
  obtain d t where t: "add_emo [i] (me_base_id e) False index codec (rp_board r) = Inr (d, t)" "toNumber d = c"
    "map into_board_emo (sh_board t) = board" "recent (m + 63) t"
    by (rule replayed [OF call board rec assms(4) add_emo_alike])
  let ?r = "r\<lparr>rp_board := t, rp_coin := saturating_add coin d\<rparr>"
  have "replay_buy (en_catalog env) codec i index r = Inr ?r"
    using sold new coin(1) line play_buy(2,3) b grade t(1)
    by (simp add: replay_buy_def js_at_def)
  moreover have "follows (m + 63) q ?r"
    using assms(2,3) t coin(2) coins_gotten [of "ac_coin p - 3" coin d]
    by (auto simp: follows_def play_buy(1) payable_def constants simp del: of_nat_unat)
  ultimately show ?thesis by blast
qed

lemma sell_followed:
  assumes "play_op env turn p (PlayerOperation_Sell (mtc_shop_PlayerOperation_Sell index)) q"
    and "payable (ac_coin p) (PlayerOperation_Sell (mtc_shop_PlayerOperation_Sell index)) (ac_coin q)"
    and "follows m p r" "m + 64 \<le> 65536" "same_bases codec env"
  shows "\<exists>r'. replay_sell codec index r = Inr r' \<and> follows (m + 63) q r'"
  using assms(1)
proof cases
  case (play_sell e g board c logs)
  have board: "map into_board_emo (sh_board (rp_board r)) = ac_board p" and rec: "recent m (rp_board r)"
    using assms(3) by (auto simp: follows_def)
  have len: "length (sh_board (rp_board r)) = length (ac_board p)"
    by (simp flip: board)
  have e: "toNumber index < length (ac_board p)" "e = ac_board p ! toNumber index"
    using js_at_nth [OF play_sell(2)] by simp_all
  then have e': "e = into_board_emo (sh_board (rp_board r) ! toNumber index)"
    using len nth_map [of "toNumber index" "sh_board (rp_board r)" into_board_emo] unfolding board by simp
  have call: "decode_and_encode_for_shop g (ac_board p) (sell_emo index codec) = Inr (board, c, logs)"
    using play_sell(3) by (simp add: sellEmo_def same_bases_codec [OF assms(5)])
  obtain d t where t: "sell_emo index codec (rp_board r) = Inr (d, t)" "toNumber d = c"
    "map into_board_emo (sh_board t) = board" "recent (m + 63) t"
    by (rule replayed [OF call board rec assms(4) sell_both])
  let ?e = "sh_board (rp_board r) ! toNumber index"
  let ?r = "r\<lparr>rp_board := t, rp_coin := saturating_add (rp_coin r) d, rp_sold := rp_sold r @ be_mtc_emo_ids ?e\<rparr>"
  have "replay_sell codec index r = Inr ?r"
    using e(1) len t(1) by (simp add: replay_sell_def get_emo_by_index_def js_at_def)
  moreover have "be_mtc_emo_ids ?e = be_mtc_emo_ids e"
    by (simp add: e' into_board_emo_def mtc_BoardEmo.truncate_def)
  then have "follows (m + 63) q ?r"
    using assms(2,3) t coins_gotten [of "ac_coin p" "rp_coin r" d]
    by (auto simp: follows_def play_sell(1) payable_def id_texts_def simp del: of_nat_unat)
  ultimately show ?thesis by blast
qed

lemma next_line_followed:
  assumes "play_op env turn p PlayerOperation_NextCatalogLine q"
    and "payable (ac_coin p) PlayerOperation_NextCatalogLine (ac_coin q)"
    and "follows m p r" "ac_line p < 255" "1 \<le> turn" "turn < 256"
  shows "\<exists>r'. replay_next_catalog_line (word_of_nat turn) r = Inr r' \<and> follows m q r'"
  using assms(1)
proof cases
  case play_next
  have line: "toNumber (rp_line r) = ac_line p" "rp_counter r = rp_line r"
    using assms(3) by (simp_all add: follows_def)
  have succ: "checked_succ message (rp_line r) = Inr (rp_line r + 1)" "toNumber (rp_line r + 1) = ac_line p + 1" for message
    using assms(4) line(1) by (auto simp: checked_succ_def unat_plus_if' word_unat_eq_iff)
  have free: "(word_of_nat turn :: u8) > 1 \<or> rp_counter r \<ge> MULLIGAN_COUNT \<longleftrightarrow> \<not> (turn = 1 \<and> ac_line p < mulliganCount)"
    using assms(5,6) line by (auto simp: word_less_nat_alt word_le_nat_alt unat_small MULLIGAN_COUNT_def constants)
  obtain coin where "(if (word_of_nat turn :: u8) > 1 \<or> rp_counter r \<ge> MULLIGAN_COUNT
      then checked_sub ''Not enough coin for next catalog_line'' (rp_coin r) NEXT_CATALOG_LINE_COIN
      else Inr (rp_coin r)) = Inr coin" "ac_coin q \<le> int (toNumber coin)"
  proof (cases "turn = 1 \<and> ac_line p < mulliganCount")
    case True
    then show thesis
      using that [of "rp_coin r"] free play_next assms(3) by (simp add: follows_def del: of_nat_unat)
  next
    case False
    then have "ac_coin q = ac_coin p - 1"
      by (simp only: play_next) (auto simp: constants)
    then show thesis
      using that False free assms(2,3) paid [of "ac_coin p" "rp_coin r" NEXT_CATALOG_LINE_COIN]
      by (auto simp: follows_def payable_def NEXT_CATALOG_LINE_COIN_def simp del: of_nat_unat)
  qed
  then show ?thesis
    using assms(2,3) succ line
    by (auto simp: replay_next_catalog_line_def follows_def payable_def play_next simp del: of_nat_unat)
qed

lemma upgrade_followed:
  assumes "play_op env turn p PlayerOperation_Upgrade q" "payable (ac_coin p) PlayerOperation_Upgrade (ac_coin q)"
    and "follows m p r"
  shows "\<exists>r'. replay_upgrade r = Inr r' \<and> follows m q r'"
  using assms(1)
proof cases
  case (play_upgrade c)
  then obtain d where d: "rp_upgradeCoin r = Some d" "int (toNumber d) \<le> c" and g: "ac_grade p < 6"
    and grade: "toNumber (rp_grade r) = ac_grade p" "1 \<le> ac_grade p"
    using assms(3) by (auto simp: follows_def price_ok_def split: option.splits)
  have "c \<le> ac_coin p" using assms(2) by (simp add: payable_def play_upgrade)
  then obtain coin where coin: "checked_sub ''Not enough coin for upgrade'' (rp_coin r) d = Inr coin"
    "ac_coin p - int (toNumber d) \<le> int (toNumber coin)"
    using paid [of "ac_coin p" "rp_coin r" d] assms(3) d(2) by (auto simp: follows_def simp del: of_nat_unat)
  have up: "toNumber (rp_grade r + 1) = ac_grade p + 1" "rp_grade r < LAST_GRADE"
    using g grade(1) by (simp_all add: unat_plus_if' word_less_nat_alt LAST_GRADE_def)
  then have succ: "rp_grade r + 1 = word_of_nat (ac_grade p + 1)"
    using g by (simp add: word_unat_eq_iff unat_small del: of_nat_add of_nat_Suc)
  have "ac_grade p \<in> {1, 2, 3, 4, 5}"
    using g grade(2) by auto
  then have price: "price_ok (ac_grade p + 1)
      (map_option (\<lambda>c. int (toNumber c)) (get_upgrade_coin (word_of_nat (ac_grade p + 2))))
      (get_upgrade_coin (word_of_nat (ac_grade p + 1)))"
    by (elim insertE emptyE) (simp_all add: price_ok_def get_upgrade_coin_def del: of_nat_unat)
  have "replay_upgrade r = Inr (r\<lparr>rp_coin := coin, rp_grade := rp_grade r + 1,
      rp_upgradeCoin := get_upgrade_coin (rp_grade r + 1)\<rparr>)"
    using d(1) coin(1) up(2) by (simp add: replay_upgrade_def Let_def)
  moreover have "follows m q (r\<lparr>rp_coin := coin, rp_grade := rp_grade r + 1,
      rp_upgradeCoin := get_upgrade_coin (rp_grade r + 1)\<rparr>)"
    using assms(2,3) coin(2) d(2) price up(1)
    by (auto simp: follows_def payable_def play_upgrade succ simp del: of_nat_add of_nat_unat)

  ultimately show ?thesis by blast
qed

lemma move_followed:
  assumes "play_op env turn p (PlayerOperation_Move (mtc_shop_PlayerOperation_Move is)) q" "follows m p r"
  shows "\<exists>t. mov is (rp_board r) = Inr t \<and> follows m q (r\<lparr>rp_board := t\<rparr>)"
  using assms(1)
proof cases
  case play_move
  have board: "map into_board_emo (sh_board (rp_board r)) = ac_board p" and rec: "recent m (rp_board r)"
    using assms(2) by (auto simp: follows_def)
  have len: "length (sh_board (rp_board r)) = length (ac_board p)"
    by (simp flip: board)
  let ?t = "(rp_board r)\<lparr>sh_board := map (\<lambda>i. sh_board (rp_board r) ! toNumber i) is\<rparr>"
  note re = play_move(2) [folded len]
  have "mov is (rp_board r) = Inr ?t"
    using rec by (intro mov_rearranges [OF re]) (simp add: recent_def)
  moreover have "into_board_emo (sh_board (rp_board r) ! toNumber i) = ac_board p ! toNumber i" if "i \<in> set is" for i
  proof -
    have "toNumber i \<in> set (map toNumber is)" using that by simp
    also have "\<dots> = {0..<length (ac_board p)}"
      using play_move(2) unfolding rearrangement_def by (metis mset_eq_setD set_upt)
    finally show ?thesis
      using len nth_map [of "toNumber i" "sh_board (rp_board r)" into_board_emo] unfolding board by simp
  qed
  then have "follows m q (r\<lparr>rp_board := ?t\<rparr>)"
    using assms(2) recent_moved [OF rec re] by (simp add: follows_def play_move(1))
  ultimately show ?thesis by blast
qed

lemma operation_followed:
  assumes "play_op env turn p op q" "payable (ac_coin p) op (ac_coin q)" "follows m p r" "m + 64 \<le> 65536"
    and "same_bases codec env" "ac_line p < 255" "1 \<le> turn" "turn < 256"
  shows "\<exists>r'. replay_operation (en_catalog env) codec (word_of_nat turn) r op = Inr r' \<and> follows (m + 63) q r'"
proof (cases op)
  case (PlayerOperation_Buy b)
  then show ?thesis
    using assms buy_followed by (cases b) (auto simp: replay_operation_def)
next
  case (PlayerOperation_Sell b)
  then show ?thesis
    using assms sell_followed by (cases b) (auto simp: replay_operation_def)
next
  case (PlayerOperation_Move b)
  then show ?thesis
    using assms move_followed follows_le [of m q _ "m + 63"] by (cases b) (fastforce simp: replay_operation_def)
next
  case PlayerOperation_NextCatalogLine
  then show ?thesis
    using assms next_line_followed follows_le [of m q _ "m + 63"] by (fastforce simp: replay_operation_def)
next
  case PlayerOperation_Upgrade
  then show ?thesis
    using assms upgrade_followed follows_le [of m q _ "m + 63"] by (fastforce simp: replay_operation_def)
qed

lemma play_op_line: "play_op env turn p op q \<Longrightarrow> ac_line q \<le> ac_line p + 1"
  by (induction rule: play_op.induct) auto

lemma plays_followed:
  assumes "plays_within payable env turn p ops q" "follows m p r" "ac_line p = 0" "length ops < 200" "m \<le> 1000"
    and "same_bases codec env" "1 \<le> turn" "turn < 256"
  shows "\<exists>r'. foldE (replay_operation (en_catalog env) codec (word_of_nat turn)) r ops = Inr r' \<and>
    follows (m + 63 * length ops) q r' \<and> ac_line q \<le> length ops"
  using assms(1-4)
proof (induction)
  case plays_none
  then show ?case by auto
next
  case (plays_snoc p ops q op r')
  then obtain r1 where r1: "foldE (replay_operation (en_catalog env) codec (word_of_nat turn)) r ops = Inr r1"
    "follows (m + 63 * length ops) q r1" "ac_line q \<le> length ops"
    using plays_snoc.IH plays_snoc.prems by auto
  obtain r2 where "replay_operation (en_catalog env) codec (word_of_nat turn) r1 op = Inr r2"
    "follows (m + 63 * length ops + 63) r' r2"
    using operation_followed [OF plays_snoc.hyps(2,3) r1(2) _ assms(6) _ assms(7,8)] r1(3) plays_snoc.prems assms(5) by auto
  then show ?case
    using r1 play_op_line [OF plays_snoc.hyps(2)] by (simp add: foldE_append algebra_simps)
qed

lemma plays_start: "plays_within payable env turn p ops q \<Longrightarrow> ops \<noteq> [] \<Longrightarrow> 0 \<le> ac_coin p \<and> ac_coin p \<le> 255"
proof (induction rule: plays_within.induct)
  case (plays_snoc p ops q op r)
  then show ?case
    by (cases "ops = []") (auto simp: payable_def elim: plays_within.cases)
qed simp

section \<open>The replay of a shop\<close>

lemma recent_taken_in: "length b \<le> 7 \<Longrightarrow> recent 7 (taken_in b g)"
proof -
  assume len: "length b \<le> 7"
  have small: "(of_nat i :: u16) = of_nat k \<longleftrightarrow> i = k" if "i < length b" "k < length b" for i k
    using that len by (intro of_nat_u16_eq) simp_all
  have "\<exists>k. 0 < k \<and> k \<le> 7 \<and> g + of_nat i + of_nat k = g + of_nat (length b)" if "i < length b" for i
    using that len by (intro exI [of _ "length b - i"]) (simp add: of_nat_diff)
  then show ?thesis
    using len small by (auto simp: recent_def taken_in_ids taken_in distinct_map inj_on_def)
qed

lemma start_replayed:
  assumes "started env s0 p" "parse_u64 (ms_seed s0) = Some seed" "same_bases codec env"
    and "by_position (shuffle_ids (en_rand env))" "length (ms_board s0) \<le> 7"
  obtains d t where
    "start_shop (shuffle_ids (en_rand env)) (seed_from_u64 (en_rand env)) seed codec (taken_in (ms_board s0) next_id) = Inr (d, t)"
    "ac_coin p = int (toNumber (get_initial_coin_by_turn (word_of_nat (ms_turn s0)))) + int (toNumber d)"
    "map into_board_emo (sh_board t) = ac_board p" "recent 70 t"
proof -
  from assms(1) obtain g board c logs where
    start: "startShop (shuffle_ids (en_rand env)) (seed_from_u64 (en_rand env)) g (ms_board s0) (ms_seed s0)
      (en_bases env) = Inr (board, c, logs)"
    and p: "ac_board p = board" "ac_coin p = st_coin (initial_shop_state (ms_turn s0)) + int c"
    by (auto simp: started_def)
  let ?f = "start_shop (shuffle_ids (en_rand env)) (seed_from_u64 (en_rand env)) seed codec"
  have call: "decode_and_encode_for_shop g (ms_board s0) ?f = Inr (board, c, logs)"
    using start assms(2) by (simp add: startShop_def same_bases_codec [OF assms(3)])
  have board: "map into_board_emo (sh_board (taken_in (ms_board s0) next_id)) = ms_board s0"
    using from_board_into [of "ms_board s0" "\<lparr>sh_board = [], sh_logs = [], sh_next_id = next_id\<rparr>"]
    by (simp add: taken_in_def)
  have rec: "recent 7 (taken_in (ms_board s0) next_id)"
    using assms(5) by (rule recent_taken_in)
  obtain d t where "?f (taken_in (ms_board s0) next_id) = Inr (d, t)" "toNumber d = c"
    "map into_board_emo (sh_board t) = board" "recent (7 + 63) t"
    by (rule replayed [OF call board rec _ start_shop_both [OF assms(4)]]) simp_all
  then show thesis
    by (intro that [of d t]) (simp_all add: p initial_shop_state_def)
qed

text \<open>
  What the chain holds of a player agrees with the state a shop starts from: the seed, the catalog drawn
  from the pool, the grade, a price that is at most the front's, and the turn.
\<close>

definition held ::
  "emo_Bases \<Rightarrow> mtc_Emo list \<Rightarrow> u64 \<Rightarrow> u8 option \<Rightarrow> 'rng shop_env \<Rightarrow> MtcState \<Rightarrow> bool" where
  "held codec pool seed upgrade_coin env s0 \<longleftrightarrow>
     same_bases codec env \<and> parse_u64 (ms_seed s0) = Some seed \<and>
     get_catalog (en_rand env) pool (ms_board s0) seed = Inr (en_catalog env) \<and>
     1 \<le> ms_turn s0 \<and> ms_turn s0 < 256 \<and> 1 \<le> ms_grade s0 \<and> ms_grade s0 \<le> 6 \<and>
     price_ok (ms_grade s0) (ms_upgradeCoin s0) upgrade_coin"

lemma replay_accepts:
  fixes env :: "'rng shop_env"
  assumes "paid_reaches env s0 element sc" "sc_operation sc \<noteq> Operation_pre_shop"
    and "length (st_playerOperations (sc_shopState sc)) < 200"
    and "held codec pool seed upgrade_coin env s0" "by_position (shuffle_ids (en_rand env))"
  shows "\<exists>price. verify_player_operations_and_update (en_rand env) next_id (ms_board s0) (word_of_nat (ms_grade s0))
      upgrade_coin (st_playerOperations (sc_shopState sc)) pool seed (word_of_nat (ms_turn s0)) codec =
      Inr (ms_board (sc_mtcState sc), word_of_nat (ms_grade (sc_mtcState sc)), price) \<and>
    price_ok (ms_grade (sc_mtcState sc)) (ms_upgradeCoin (sc_mtcState sc)) price"
proof -
  let ?ops = "st_playerOperations (sc_shopState sc)" and ?turn = "word_of_nat (ms_turn s0) :: u8"
  have h: "same_bases codec env" "parse_u64 (ms_seed s0) = Some seed"
    "get_catalog (en_rand env) pool (ms_board s0) seed = Inr (en_catalog env)"
    "1 \<le> ms_turn s0" "ms_turn s0 < 256" "1 \<le> ms_grade s0" "ms_grade s0 \<le> 6"
    "price_ok (ms_grade s0) (ms_upgradeCoin s0) upgrade_coin"
    using assms(4) by (simp_all add: held_def)
  have "case ms_upgradeCoin s0 of None \<Rightarrow> True | Some c \<Rightarrow> 0 \<le> c"
    using h(8) by (auto simp: price_ok_def intro: order_trans [OF uint_ge_0] split: option.splits)
  from paid_reachesD [OF assms(1) this] assms(2) obtain p where p: "started env s0 p"
    and plays: "plays_within payable env (ms_turn s0) p ?ops (account_of sc)"
    by (auto simp: recorded_def)
  have len: "length (ms_board s0) \<le> 7"
    using assms(1) by (simp add: paid_reaches_def boardSize_def)
  obtain d t where t: "start_shop (shuffle_ids (en_rand env)) (seed_from_u64 (en_rand env)) seed codec
      (taken_in (ms_board s0) next_id) = Inr (d, t)"
    and coin: "ac_coin p = int (toNumber (get_initial_coin_by_turn ?turn)) + int (toNumber d)"
    and board: "map into_board_emo (sh_board t) = ac_board p" and rec: "recent 70 t"
    by (rule start_replayed [OF p h(2,1) assms(5) len])
  let ?r = "\<lparr>rp_board = t, rp_coin = saturating_add (get_initial_coin_by_turn ?turn) d, rp_line = 0,
    rp_counter = 0, rp_sold = [], rp_grade = word_of_nat (ms_grade s0), rp_upgradeCoin = upgrade_coin\<rparr>"
  have acc: "ac_grade p = ms_grade s0" "ac_upgradeCoin p = ms_upgradeCoin s0" "ac_line p = 0" "ac_sold p = []"
    using p by (auto simp: started_def)
  have "\<exists>r'. foldE (replay_operation (en_catalog env) codec ?turn) ?r ?ops = Inr r' \<and>
      map into_board_emo (sh_board (rp_board r')) = ms_board (sc_mtcState sc) \<and>
      rp_grade r' = word_of_nat (ms_grade (sc_mtcState sc)) \<and>
      price_ok (ms_grade (sc_mtcState sc)) (ms_upgradeCoin (sc_mtcState sc)) (rp_upgradeCoin r')"
  proof (cases "?ops = []")
    case True
    then have "account_of sc = p"
      using plays by (auto elim: plays_within.cases)
    then have "ms_board (sc_mtcState sc) = ac_board p" "ms_grade (sc_mtcState sc) = ac_grade p"
      "ms_upgradeCoin (sc_mtcState sc) = ac_upgradeCoin p"
      by (auto simp: account_of_def)
    then show ?thesis
      using True board acc h(8) by simp
  next
    case False
    have "0 \<le> ac_coin p \<and> ac_coin p \<le> 255"
      using plays False by (rule plays_start)
    then have "follows 70 p ?r"
      using board rec acc h coin coins_gotten [of "int (toNumber (get_initial_coin_by_turn ?turn))" "get_initial_coin_by_turn ?turn" d]
      by (simp add: follows_def unat_small del: of_nat_unat)
    from plays_followed [OF plays this acc(3) assms(3) _ h(1,4,5)] obtain r' where
      r': "foldE (replay_operation (en_catalog env) codec ?turn) ?r ?ops = Inr r'"
      "follows (70 + 63 * length ?ops) (account_of sc) r'"
      by auto
    then have "toNumber (rp_grade r') = ms_grade (sc_mtcState sc)"
      by (simp add: follows_def account_of_def)
    then have "rp_grade r' = word_of_nat (ms_grade (sc_mtcState sc))"
      by (simp add: word_unat_eq_iff unat_of_nat flip: \<open>toNumber (rp_grade r') = _\<close>)
    with r' show ?thesis
      by (simp add: follows_def account_of_def)
  qed
  then show ?thesis
    using assms(3) h(3) t by (auto simp: verify_player_operations_and_update_def)
qed

end
