(* ===== verification/MatchFlowFacts.thy ===== *)
theory MatchFlowFacts
  imports MatchFlow ShopRuns
begin

text \<open>
  The course of a match: the battle that is shown is the battle that counts, what the battles of a turn
  leave of the match, the invariant of the pages, their rendering, and the end of a match whose battles
  are decided.
\<close>

section \<open>The battles of a turn\<close>

text \<open>What a battle may make of a ghost.\<close>

definition weakened :: "u8 \<Rightarrow> mtc_GhostState \<Rightarrow> mtc_GhostState \<Rightarrow> bool" where
  "weakened turn s s' \<longleftrightarrow> s' = s \<or> (\<exists>b g. s' = damage_ghost_health b g turn s)"

lemma weakened_simps [simp]: "weakened turn s s" "weakened turn s (damage_ghost_health b g turn s)"
  by (auto simp: weakened_def)

lemma battle_gvg_weakened:
  "battle_gvg march s0 h0 s1 h1 turn seed bases = Inr (s0', s1') \<Longrightarrow> weakened turn s0 s0' \<and> weakened turn s1 s1'"
  by (auto simp: battle_gvg_def bindE_eq_Inr_iff mapR_eq_Inr_iff)

lemma battle_pvg_weakened:
  "battle_pvg march grade health board s history turn seed bases = Inr (h, s') \<Longrightarrow> weakened turn s s'"
  by (auto simp: battle_pvg_def bindE_eq_Inr_iff mapR_eq_Inr_iff)

lemma less_3: "n < 3 \<longleftrightarrow> n = 0 \<or> n = Suc 0 \<or> n = 2"
  by auto

lemma list_3: "length xs = 3 \<longleftrightarrow> (\<exists>a b c. xs = [a, b, c])"
  by (auto simp: numeral_3_eq_3 length_Suc_conv)

lemma one_active:
  assumes "\<not> length (filter is_active states) > 1" "i < length states" "is_active (states ! i)"
  shows "first_active states = Some i"
proof -
  let ?P = "\<lambda>k. k < length states \<and> is_active (states ! k)"
  have "card {k. ?P k} \<le> 1"
    using assms(1) by (simp add: length_filter_conv_card)
  moreover have "finite {k. ?P k}" by simp
  ultimately have one: "k = i" if "?P k" for k
    using that assms(2,3) by (metis (mono_tags, lifting) card_le_Suc0_iff_eq One_nat_def mem_Collect_eq)
  have "find (\<lambda>(k, s). is_active s) (List.enumerate 0 states) = Some (i, states ! i)"
    unfolding find_Some_iff
  proof (intro exI [of _ i] conjI allI impI)
    fix j
    assume j: "j < i"
    with assms(2) one [of j] have "\<not> is_active (states ! j)" by auto
    with j assms(2) show "\<not> (\<lambda>(k, s). is_active s) (List.enumerate 0 states ! j)"
      by (simp add: nth_enumerate_eq)
  qed (use assms(2,3) in \<open>simp_all add: nth_enumerate_eq\<close>)
  then show ?thesis
    by (simp add: first_active_def)
qed

lemma swap_3:
  assumes "b < 3"
  obtains i1 i2 where "swap_at 0 b [0..<3] = [b, i1, i2]" "i1 < 3" "i2 < 3" "i1 \<noteq> b" "i2 \<noteq> b" "i1 \<noteq> i2"
proof -
  have u: "[0..<3] = [0, 1, 2::nat]" by (simp add: upt_rec)
  have s: "swap_at 0 0 [0..<3] = [0, 1, 2::nat]" "swap_at 0 1 [0..<3] = [1, 0, 2::nat]"
    "swap_at 0 2 [0..<3] = [2, 1, 0::nat]"
    by (simp_all add: u swap_at_def numeral_2_eq_2)
  from assms have "b = 0 \<or> b = 1 \<or> b = 2" by linarith
  then show thesis
  proof (elim disjE)
    assume "b = 0" then show thesis using s(1) by (intro that [of 1 2]) simp_all
  next
    assume "b = 1" then show thesis using s(2) by (intro that [of 0 2]) simp_all
  next
    assume "b = 2" then show thesis using s(3) by (intro that [of 1 0]) simp_all
  qed
qed

text \<open>
  With three ghosts, one of which at the index is active, the player meets that ghost; the others are
  weakened at most.
\<close>

lemma battle_pvg_and_gvg_3:
  assumes r: "battle_pvg_and_gvg march board grade health ghosts states i turn seed bases = Inr (h, states')"
    and len: "length ghosts = 3" "length states = 3" and i: "toNumber i < 3"
  shows "battle_pvg march grade health board (states ! toNumber i) (gh_history (ghosts ! toNumber i)) turn seed
      bases = Inr (h, states' ! toNumber i)"
    "list_all2 (weakened turn) states states'"
proof -
  obtain i1 i2 where sw: "swap_at 0 (toNumber i) [0..<3] = [toNumber i, i1, i2]" "i1 < 3" "i2 < 3"
    "i1 \<noteq> toNumber i" "i2 \<noteq> toNumber i" "i1 \<noteq> i2"
    using i by (rule swap_3)
  with r len i obtain s0 s1 s2 where
    pvg: "battle_pvg march grade health board (states ! toNumber i) (gh_history (ghosts ! toNumber i)) turn seed
      bases = Inr (h, s0)"
    and gvg: "battle_gvg march (states ! i1) (gh_history (ghosts ! i1)) (states ! i2) (gh_history (ghosts ! i2))
      turn seed bases = Inr (s1, s2)"
    and st: "states' = states[toNumber i := s0, i1 := s1, i2 := s2]"
    by (auto simp: battle_pvg_and_gvg_def Let_def bindE_eq_Inr_iff mapR_eq_Inr_iff split: if_splits)
  show "battle_pvg march grade health board (states ! toNumber i) (gh_history (ghosts ! toNumber i)) turn seed
      bases = Inr (h, states' ! toNumber i)"
    using pvg sw i len by (simp add: st)
  show "list_all2 (weakened turn) states states'"
    unfolding list_all2_conv_all_nth
  proof (intro conjI allI impI)
    fix j
    assume j: "j < length states"
    with sw i len have "j = toNumber i \<or> j = i1 \<or> j = i2" by linarith
    with j sw show "weakened turn (states ! j) (states' ! j)"
      using battle_pvg_weakened [OF pvg] battle_gvg_weakened [OF gvg] len i
      by (auto simp: st nth_list_update)
  qed (simp add: st)
qed

lemma battle_all_pvg:
  assumes r: "battle_all march board health states grade ghosts i turn seed bases = Inr (h, states', place)"
    and len: "length ghosts = 3" "length states = 3" and i: "toNumber i < 3" "is_active (states ! toNumber i)"
  shows "battle_pvg march grade health board (states ! toNumber i) (gh_history (ghosts ! toNumber i)) turn seed
      bases = Inr (h, states' ! toNumber i)"
    "list_all2 (weakened turn) states states'"
proof -
  have "battle_pvg march grade health board (states ! toNumber i) (gh_history (ghosts ! toNumber i)) turn seed
      bases = Inr (h, states' ! toNumber i) \<and> list_all2 (weakened turn) states states'"
  proof (cases "length (filter is_active states) > 1")
    case True
    with r have "battle_pvg_and_gvg march board grade health ghosts states i turn seed bases = Inr (h, states')"
      by (auto simp: battle_all_def mapR_eq_Inr_iff)
    from battle_pvg_and_gvg_3 [OF this len i(1)] show ?thesis ..
  next
    case False
    with r one_active [OF False _ i(2)] i(1) len obtain s' where
      s': "battle_pvg march grade health board (states ! toNumber i) (gh_history (ghosts ! toNumber i)) turn seed
        bases = Inr (h, s')" "states' = states[toNumber i := s']"
      by (auto simp: battle_all_def mapR_eq_Inr_iff bindE_eq_Inr_iff at_or_trap_def split: if_splits)
    then show ?thesis
      using i(1) len(2) battle_pvg_weakened [OF s'(1)]
      by (auto simp: list_all2_conv_all_nth nth_list_update)
  qed
  then show "battle_pvg march grade health board (states ! toNumber i) (gh_history (ghosts ! toNumber i)) turn
      seed bases = Inr (h, states' ! toNumber i)" "list_all2 (weakened turn) states states'"
    by auto
qed


section \<open>The battle that is shown\<close>

lemma show_int_nat [simp]: "show_int (int n) = show_nat n"
  by (simp add: show_int_def)

lemma animateFinish_health:
  assumes "PlayerBox a n ph pg = Inr player" "PlayerBox a' n' rh rg = Inr rival"
    and "animateFinish playerGrade rivalGrade pb rb ph rh (boards, player, rival) = (boards', player', rival')"
  shows "box_health player' = Some (show_int (int ph - (if pb = 0 \<and> rb \<noteq> 0 then int (rb + rivalGrade) else 0)))"
    "box_health rival' = Some (show_int (int rh - (if pb \<noteq> 0 then int (pb + playerGrade) else 0)))"
proof -
  have "box_health player' = Some (show_int (int ph - (if pb = 0 \<and> rb \<noteq> 0 then int (rb + rivalGrade) else 0))) \<and>
    box_health rival' = Some (show_int (int rh - (if pb \<noteq> 0 then int (pb + playerGrade) else 0)))"
  proof (cases "pb = 0")
    case False
    then have "animateBox playerGrade pb rh (player, rival) = (player', rival')"
      using assms(3) by (simp add: animateFinish_def Let_def split: prod.splits)
    from animateBox_health [OF assms(1,2) this] show ?thesis
      using False by simp
  next
    case True
    show ?thesis
    proof (cases "rb = 0")
      case False
      then have "animateBox rivalGrade rb ph (rival, player) = (rival', player')"
        using assms(3) True by (simp add: animateFinish_def Let_def split: prod.splits)
      from animateBox_health [OF assms(2,1) this] show ?thesis
        using True False by simp
    next
      case zero: True
      then show ?thesis
        using assms True PlayerBox_health by (auto simp: animateFinish_def Let_def)
    qed
  qed
  then show "box_health player' = Some (show_int (int ph - (if pb = 0 \<and> rb \<noteq> 0 then int (rb + rivalGrade) else 0)))"
    "box_health rival' = Some (show_int (int rh - (if pb \<noteq> 0 then int (pb + playerGrade) else 0)))"
    by simp_all
qed

lemma damage_health_nat:
  assumes "toNumber b + toNumber g < 256"
  shows "toNumber (damage_health b g h) =
    nat (int (toNumber h) - (if b \<noteq> 0 then int (toNumber b + toNumber g) else 0))"
proof -
  have s: "toNumber (b + g) = toNumber b + toNumber g"
    using assms by (simp add: unat_plus_if')
  show ?thesis
    by (auto simp: damage_health_def saturating_sub_def word_less_nat_alt unat_sub word_le_nat_alt s word_gt_0
        nat_diff_distrib' unat_eq_zero simp flip: of_nat_add)
qed

lemma damage_ghost_health_nat:
  assumes "toNumber b + toNumber g < 256"
  shows "getHealthFromState (damage_ghost_health b g turn s) =
    nat (int (getHealthFromState s) - (if b \<noteq> 0 then int (toNumber b + toNumber g) else 0))"
proof (cases s)
  case (GhostState_Active a)
  then obtain h where "s = GhostState_Active (mtc_GhostState_Active h)" by (cases a) auto
  moreover have "toNumber (damage_health b g h) = 0 \<longleftrightarrow> damage_health b g h = 0"
    by (simp add: unat_eq_zero)
  ultimately show ?thesis
    using damage_health_nat [OF assms, of h] by (auto simp: damage_ghost_health_def getHealthFromState_def Let_def)
qed (auto simp: damage_ghost_health_def getHealthFromState_def)


lemma ghost_board_cases:
  "get_grade_and_ghost_board h state turn = Inr gg \<Longrightarrow> gg = EMPTY_GRADE_AND_GHOST_BOARD \<or> gg \<in> set h"
  by (auto simp: get_grade_and_ghost_board_def Let_def at_or_trap_def split: if_splits)

lemma ghost_grade_le:
  assumes "get_grade_and_ghost_board (gh_history ghost) state turn = Inr gg" "ghost_ok bases ghost"
  shows "toNumber (gg_grade gg) \<le> 6" "length (gg_board gg) \<le> 7"
  using ghost_board_cases [OF assms(1)] assms(2)
  by (auto simp: ghost_ok_def EMPTY_GRADE_AND_GHOST_BOARD_def list_all_iff word_le_nat_alt boardSize_def)

lemma small_word [simp]: "n < 256 \<Longrightarrow> toNumber (word_of_nat n :: u8) = n"
  by (rule unat_small)

text \<open>
  What the two boxes show at the end of a battle is what the battle leaves of the two healths, with
  one difference: the module stops at zero.
\<close>

lemma shown_is_counted:
  assumes ok: "match_ok s" "ms_grade s \<le> 6" "list_all (ghost_ok bases) (ms_ghosts s)" "length (ms_board s) \<le> boardSize"
    and fair: "march_fair march" "bases_graded (bs_codec bases)"
    and shown: "show_battle_screen json emoNames march bases address s e1 e2 = Inr (boards, player, rival)"
    and counted: "battleAll march (ms_board s) (ms_grade s) (ms_health s) (ms_ghosts s) (ms_ghostStates s)
      (ms_battleGhostIndex s) (ms_turn s) (ms_seed s) bases = Inr (h, states, place)"
  shows "\<exists>p r. box_health player = Some (show_int p) \<and> h = nat p \<and>
    box_health rival = Some (show_int r) \<and> getHealthFromState (states ! ms_battleGhostIndex s) = nat r"
proof -
  let ?i = "ms_battleGhostIndex s" and ?state = "ms_ghostStates s ! ms_battleGhostIndex s"
    and ?ghost = "ms_ghosts s ! ms_battleGhostIndex s"
  have len: "length (ms_ghosts s) = 3" "length (ms_ghostStates s) = 3" and i: "?i < 3" "is_active ?state"
    and health: "ms_health s < 256"
    using ok(1) by (simp_all add: match_ok_def)
  have iw: "toNumber (word_of_nat ?i :: u8) = ?i"
    using i(1) by simp
  from counted obtain n hw where n: "parse_u64 (ms_seed s) = Some n" and h: "h = toNumber hw"
    and all: "battle_all march (ms_board s) (word_of_nat (ms_health s)) (ms_ghostStates s)
     (word_of_nat (ms_grade s)) (ms_ghosts s) (word_of_nat ?i) (word_of_nat (ms_turn s)) n (bs_codec bases) =
     Inr (hw, states, place)"
    by (auto simp: battleAll_def mapR_eq_Inr_iff with_seed_eq_Inr_iff)
  from battle_all_pvg(1) [OF all len] i iw obtain gg pb rb logs where
    gg: "get_grade_and_ghost_board (gh_history ?ghost) ?state (word_of_nat (ms_turn s)) = Inr gg"
    and march: "march_pvg march (ms_board s) (gg_board gg) n (bs_codec bases) = Inr (pb, rb, logs)"
    and hw: "hw = damage_health rb (gg_grade gg) (word_of_nat (ms_health s))"
    and st: "states ! ?i = damage_ghost_health pb (word_of_nat (ms_grade s)) (word_of_nat (ms_turn s)) ?state"
    by (auto simp: battle_pvg_def bindE_eq_Inr_iff mapR_eq_Inr_iff)
  from shown obtain v pb' rb' boards' where
    v: "Battle_screen address s = Inr v"
    and play: "play json emoNames march bases (ms_board s) (gg_board (bv_rival v)) (ms_seed s) e1 e2 =
      Inr (pb', rb', boards')"
    and fin: "animateFinish (ms_grade s) (toNumber (gg_grade (bv_rival v))) pb' rb' (ms_health s)
      (bv_rivalHealth v) (boards', bv_playerBox v, bv_rivalBox v) = (boards, player, rival)"
    by (auto simp: show_battle_screen_def bindE_eq_Inr_iff mapR_eq_Inr_iff)
  from v gg obtain t where rival: "bv_rival v = gg" "bv_rivalHealth v = getHealthFromState ?state"
    and boxes: "PlayerBox address (Some ''You'') (ms_health s) (show_nat (ms_grade s)) = Inr (bv_playerBox v)"
      "PlayerBox t None (bv_rivalHealth v) (toStringU (gg_grade gg)) = Inr (bv_rivalBox v)"
    by (auto simp: Battle_screen_def Let_def bindE_eq_Inr_iff mapR_eq_Inr_iff orTypeError_eq_Inr_iff
        js_at_eq_Some_iff getGradeAndGhostBoard_def)
  from play march n have b: "pb' = toNumber pb" "rb' = toNumber rb"
    by (auto simp: play_def marchPvg_def bindE_eq_Inr_iff mapR_eq_Inr_iff with_seed_eq_Inr_iff rival(1))
  have ghost: "ghost_ok bases ?ghost"
    using ok(3) i(1) len by (simp add: list_all_length)
  have f: "pb = 0 \<or> rb = 0" "toNumber pb \<le> 42" "toNumber rb \<le> 42"
    using march_pvg_fair [OF fair _ ghost_grade_le(2) [OF gg ghost] march] ok(4) by (simp_all add: boardSize_def)
  note grade = ghost_grade_le(1) [OF gg ghost]
  note healths = animateFinish_health [OF boxes fin [unfolded rival(1)]]
  have "h = nat (int (ms_health s) - (if pb' = 0 \<and> rb' \<noteq> 0 then int (rb' + toNumber (gg_grade gg)) else 0))"
    using damage_health_nat [of rb "gg_grade gg" "word_of_nat (ms_health s)"] f grade health
    by (auto simp: h hw b unat_eq_zero)
  moreover have "getHealthFromState (states ! ?i) =
      nat (int (bv_rivalHealth v) - (if pb' \<noteq> 0 then int (pb' + ms_grade s) else 0))"
    using damage_ghost_health_nat [of pb "word_of_nat (ms_grade s)" "word_of_nat (ms_turn s)" ?state] f ok(2)
    by (auto simp: st b rival(2) unat_eq_zero)
  ultimately show ?thesis
    using healths by blast
qed


section \<open>A match in order\<close>

definition bases_named :: "EmoBases \<Rightarrow> bool" where
  "bases_named bases \<longleftrightarrow> (\<forall>i b. find_base (bs_codec bases) i = Inr b \<longrightarrow> \<not> nameless bases i)"

definition board_named :: "EmoBases \<Rightarrow> 'a mtc_GhostBoardEmo_scheme list \<Rightarrow> bool" where
  "board_named bases = list_all (\<lambda>e. \<not> nameless bases (be_base_id e))"

definition pool_ok :: "EmoBases \<Rightarrow> mtc_Emo list \<Rightarrow> bool" where
  "pool_ok bases pool \<longleftrightarrow> distinct (map me_id pool) \<and> list_all (\<lambda>e. \<not> nameless bases (me_base_id e)) pool"

definition state_ok :: "EmoBases \<Rightarrow> MtcState \<Rightarrow> bool" where
  "state_ok bases s \<longleftrightarrow>
     match_ok s \<and> grade_ok s \<and> pool_ok bases (ms_pool s) \<and> length (ms_board s) \<le> boardSize \<and>
     board_named bases (ms_board s) \<and> list_all (ghost_ok bases) (ms_ghosts s) \<and>
     list_all final_turn_ok (ms_ghostStates s) \<and> 1 \<le> ms_turn s"

lemma state_rivals: "state_ok bases s \<Longrightarrow> ms_turn s < 256 \<Longrightarrow> rivals_ok bases s"
  by (simp add: state_ok_def match_ok_def rivals_ok_def)

lemma distinct_part: "mset xs \<subseteq># mset ys \<Longrightarrow> distinct ys \<Longrightarrow> distinct xs"
proof (induction xs arbitrary: ys)
  case (Cons x xs)
  from Cons.prems(1) have x: "x \<in># mset ys" "mset xs \<subseteq># mset (remove1 x ys)"
    by (auto simp: insert_subset_eq_iff)
  then have "distinct xs"
    using Cons.IH [of "remove1 x ys"] Cons.prems(2) by simp
  moreover have "set xs \<subseteq> set (remove1 x ys)"
    using x(2) by (metis set_mset_mono set_mset_mset)
  then have "x \<notin> set xs"
    using Cons.prems(2) by auto
  ultimately show ?case by simp
qed simp

lemma catalog_in_order:
  assumes "rand_ok rand" "pool_ok bases pool" "getCatalog rand pool board seed = Inr catalog"
  shows "catalog \<noteq> []" "list_all (\<lambda>l. distinct (map me_id l)) catalog"
    "list_all (list_all (\<lambda>e. \<not> nameless bases (me_base_id e))) catalog"
proof -
  from assms(3) obtain n where "get_catalog rand pool board n = Inr catalog"
    by (auto simp: getCatalog_def with_seed_eq_Inr_iff)
  with get_catalog_cases [OF assms(1), of pool board n] have c: "length catalog = 5"
    "mset (concat catalog) \<subseteq># mset (off_board pool board)"
    by (auto split: if_splits)
  show "catalog \<noteq> []" using c(1) by auto
  have "mset (off_board pool board) \<subseteq># mset pool"
    by (simp add: off_board_def multiset_filter_subset)
  with c(2) have m: "mset (concat catalog) \<subseteq># mset pool"
    by (rule subset_mset.order_trans)
  then have "mset (map me_id (concat catalog)) \<subseteq># mset (map me_id pool)"
    by (simp add: image_mset_subseteq_mono)
  then have "distinct (map me_id (concat catalog))"
    by (rule distinct_part) (use assms(2) in \<open>simp add: pool_ok_def\<close>)
  then show "list_all (\<lambda>l. distinct (map me_id l)) catalog"
    by (auto simp: list_all_iff map_concat distinct_concat_iff)
  from m have "set (concat catalog) \<subseteq> set pool"
    by (metis set_mset_mono set_mset_mset)
  then show "list_all (list_all (\<lambda>e. \<not> nameless bases (me_base_id e))) catalog"
    using assms(2) by (auto simp: pool_ok_def list_all_iff)
qed

text \<open>The screen of the shop of a match in order.\<close>

definition shop_ok :: "'rng shop_env \<Rightarrow> mtc_shop_Catalog \<Rightarrow> screen \<Rightarrow> bool" where
  "shop_ok env catalog sc \<longleftrightarrow> catalog_named (with_catalog env catalog) \<and>
     (\<exists>s0. state_ok (en_bases env) s0 \<and> ms_turn s0 = ms_turn (sc_mtcState sc) \<and>
       reaches (with_catalog env catalog) s0 shop_element sc)"

lemma with_catalog_simps [simp]:
  "en_bases (with_catalog env c) = en_bases env" "en_catalog (with_catalog env c) = c"
  "en_rand (with_catalog env c) = en_rand env" "en_json (with_catalog env c) = en_json env"
  "en_emoNames (with_catalog env c) = en_emoNames env"
  by (simp_all add: with_catalog_def)

lemma mount_shop_ok:
  assumes "rand_ok (en_rand env)" "state_ok (en_bases env) s" "mount_shop env s = Inr (catalog, sc)"
  shows "shop_ok env catalog sc" "sc_mtcState sc = s"
proof -
  from assms(3) have c: "getCatalog (en_rand env) (ms_pool s) (ms_board s) (ms_seed s) = Inr catalog"
    and sc: "shop_init s shop_element = Inr sc"
    by (auto simp: mount_shop_def bindE_eq_Inr_iff mapR_eq_Inr_iff)
  show s: "sc_mtcState sc = s"
    using sc by (auto simp: shop_init_def start_operation_def split: if_splits)
  have "shows_board shop_element []"
    by (auto simp: shows_board_def shop_element_def board_dom_def)
  then show "shop_ok env catalog sc"
    using assms(2) catalog_in_order [OF assms(1) _ c, of "en_bases env"] sc s
    by (auto simp: shop_ok_def catalog_named_def reaches_def state_ok_def catalog_ok_def)
qed


text \<open>A run of the shop changes the board, the grade and the price of the next grade alone.\<close>

definition same_match :: "MtcState \<Rightarrow> MtcState \<Rightarrow> bool" where
  "same_match s0 s \<longleftrightarrow>
     ms_previousEp s = ms_previousEp s0 \<and> ms_turn s = ms_turn s0 \<and> ms_seed s = ms_seed s0 \<and>
     ms_pool s = ms_pool s0 \<and> ms_health s = ms_health s0 \<and> ms_ghosts s = ms_ghosts s0 \<and>
     ms_ghostStates s = ms_ghostStates s0 \<and> ms_ghostAddresses s = ms_ghostAddresses s0 \<and>
     ms_battleGhostIndex s = ms_battleGhostIndex s0"

lemma same_match_trans: "same_match s0 s \<Longrightarrow> same_match s s' \<Longrightarrow> same_match s0 s'"
  by (simp add: same_match_def)

lemma perform_same: "perform a sc = Inr sc' \<Longrightarrow> same_match (sc_mtcState sc) (sc_mtcState sc')"
  by (cases a) (auto simp: perform_def next_catalog_line_def upgradeFn_def start_operation_def Let_def same_match_def
      split: option.splits if_splits Operation.splits)

lemma finish_same: "finish_operation r el sc = Inr sc' \<Longrightarrow> same_match (sc_mtcState sc) (sc_mtcState sc')"
  using finishShop_frame(1) by (fastforce simp: finish_operation_def mapR_eq_Inr_iff same_match_def)

lemma shop_step_same: "shop_step env sc sc' \<Longrightarrow> same_match (sc_mtcState sc) (sc_mtcState sc')"
  by (erule shop_stepE) (auto intro: perform_same finish_same)

lemma reaches_same: "reaches env s0 element sc \<Longrightarrow> same_match s0 (sc_mtcState sc)"
proof (induction rule: reaches_induct)
  case (init sc)
  then show ?case
    by (auto simp: shop_init_def start_operation_def same_match_def split: if_splits)
qed (blast intro: same_match_trans perform_same finish_same)+

lemma board_drawn_named:
  "draws json emoNames bases element board \<Longrightarrow> board_named bases board"
  by (fastforce simp: draws_def new_views_def new_emo_def board_named_def list_all_iff nameless_iff mapR_eq_Inr_iff
      bindE_eq_Inr_iff dest!: mapE_ok_iff [THEN iffD1, OF exI])

lemma battle_from_shop:
  assumes "shop_ok env catalog sc" "ms_turn (sc_mtcState sc) < 256"
    and "Shop (with_catalog env catalog) sc = Inr v" "Battle solution \<in> set (offered v)"
  shows "state_ok (en_bases env) (sc_mtcState sc)"
proof -
  let ?env = "with_catalog env catalog" and ?s = "sc_mtcState sc"
  from assms(1) obtain s0 where s0: "state_ok (en_bases env) s0" "ms_turn s0 = ms_turn ?s"
    and r: "reaches ?env s0 shop_element sc"
    by (auto simp: shop_ok_def)
  have inv: "screen_inv ?env sc" and same: "same_match s0 ?s"
    using reachesD(1) [OF r] reaches_same [OF r] .
  have "\<not> sc_isBoardOperating sc"
    using offered_allowed [OF assms(3,4)] by simp
  with idle [OF inv] have "sc_operation sc = Operation_none" by simp
  with inv have "draws (en_json env) (en_emoNames env) (en_bases env) (sc_element sc) (ms_board ?s)"
    by (simp add: screen_inv_def board_shown_def)
  then have "board_named (en_bases env) (ms_board ?s)"
    by (rule board_drawn_named)
  moreover have "renderable ?env sc"
    by (rule reaches_renderable [OF r]) (use s0 assms(2) state_rivals in \<open>auto simp: state_ok_def\<close>)
  moreover have "length (ms_board ?s) \<le> boardSize"
    using inv by (simp add: screen_inv_def)
  ultimately show ?thesis
    using s0(1) same by (simp add: state_ok_def renderable_def same_match_def match_ok_def)
qed


section \<open>A battle of a match in order\<close>

lemma weakened_final: "weakened t s s' \<Longrightarrow> t \<noteq> 0 \<Longrightarrow> final_turn_ok s \<Longrightarrow> final_turn_ok s'"
  by (auto simp: weakened_def damage_ghost_health_def final_turn_ok_def Let_def
      split: mtc_GhostState.splits mtc_GhostState_Active.splits)

lemma weakened_list:
  assumes "list_all2 (weakened t) states states'" "t \<noteq> 0" "list_all final_turn_ok states"
  shows "list_all final_turn_ok states'"
  using assms weakened_final by (auto simp: list_all_length list_all2_conv_all_nth)

lemma finishBattle_states:
  assumes "finishBattle (battleAll march) sel s bases = Inr (s', place)"
  shows "\<exists>h fp. battleAll march (ms_board s) (ms_grade s) (ms_health s) (ms_ghosts s) (ms_ghostStates s)
      (ms_battleGhostIndex s) (ms_turn s) (ms_seed s) bases = Inr (h, ms_ghostStates s', fp) \<and> ms_health s' = h"
  using assms by (auto simp: finishBattle_def bindE_eq_Inr_iff Let_def split: if_splits)

lemma battleAll_weakened:
  assumes ok: "match_ok s" and r: "battleAll march (ms_board s) (ms_grade s) (ms_health s) (ms_ghosts s)
      (ms_ghostStates s) (ms_battleGhostIndex s) (ms_turn s) (ms_seed s) bases = Inr (h, states, place)"
  shows "list_all2 (weakened (word_of_nat (ms_turn s))) (ms_ghostStates s) states"
proof -
  from r obtain n hw where "battle_all march (ms_board s) (word_of_nat (ms_health s)) (ms_ghostStates s)
      (word_of_nat (ms_grade s)) (ms_ghosts s) (word_of_nat (ms_battleGhostIndex s)) (word_of_nat (ms_turn s)) n
      (bs_codec bases) = Inr (hw, states, place)"
    by (auto simp: battleAll_def mapR_eq_Inr_iff with_seed_eq_Inr_iff)
  then show ?thesis
    by (rule battle_all_pvg(2)) (use ok in \<open>simp_all add: match_ok_def\<close>)
qed

lemma word_turn: "1 \<le> n \<Longrightarrow> n < 256 \<Longrightarrow> (word_of_nat n :: u8) \<noteq> 0"
  using small_word [of n] by (metis not_one_le_zero unat_0)

text \<open>What the screen of a battle needs; the state a match ends with has it too.\<close>

definition seen_ok :: "EmoBases \<Rightarrow> MtcState \<Rightarrow> bool" where
  "seen_ok bases s \<longleftrightarrow>
     length (ms_ghosts s) = 3 \<and> length (ms_ghostStates s) = 3 \<and> length (ms_ghostAddresses s) = 3 \<and>
     ms_battleGhostIndex s < 3 \<and> grade_ok s \<and> list_all (ghost_ok bases) (ms_ghosts s) \<and>
     list_all final_turn_ok (ms_ghostStates s) \<and> 1 \<le> ms_turn s"

lemma state_seen: "state_ok bases s \<Longrightarrow> seen_ok bases s"
  by (simp add: state_ok_def seen_ok_def match_ok_def)

lemma finishBattle_state_ok:
  assumes ok: "state_ok bases s" "ms_turn s < 256" and rand: "rand_ok rand"
    and f: "finishBattle (battleAll march) (selectBattleGhostIndex rand) s bases = Inr (s', place)"
  shows "place = None \<Longrightarrow> state_ok bases s'"
    and "place = Some p \<Longrightarrow> 1 \<le> p \<and> p \<le> 4"
    and "board_named bases (ms_board s')" "place = Some p \<Longrightarrow> seen_ok bases s'"
proof -
  have m: "match_ok s" using ok(1) by (simp add: state_ok_def)
  note keeps = finishBattle_keeps [OF m rand f] and cases = finishBattle_cases [OF f]
  from finishBattle_states [OF f] obtain h fp where
    "battleAll march (ms_board s) (ms_grade s) (ms_health s) (ms_ghosts s) (ms_ghostStates s)
      (ms_battleGhostIndex s) (ms_turn s) (ms_seed s) bases = Inr (h, ms_ghostStates s', fp)" by blast
  from weakened_list [OF battleAll_weakened [OF m this]] battleAll_weakened [OF m this]
  have st: "list_all final_turn_ok (ms_ghostStates s')" "length (ms_ghostStates s') = 3"
    using word_turn [of "ms_turn s"] ok list_all2_lengthD by (fastforce simp: state_ok_def match_ok_def)+
  then show "place = None \<Longrightarrow> state_ok bases s'"
    using keeps cases ok(1) by (auto simp: state_ok_def grade_ok_def)
  show "place = Some p \<Longrightarrow> 1 \<le> p \<and> p \<le> 4"
    using keeps by auto
  show "board_named bases (ms_board s')"
    using cases ok(1) by (simp add: state_ok_def)
  have "ms_ghostAddresses s' = ms_ghostAddresses s \<and> ms_battleGhostIndex s' = ms_battleGhostIndex s"
    if "place \<noteq> None"
    using f that by (auto simp: finishBattle_def bindE_eq_Inr_iff Let_def split: if_splits)
  then show "place = Some p \<Longrightarrow> seen_ok bases s'"
    using st cases ok(1) by (auto simp: seen_ok_def state_ok_def grade_ok_def match_ok_def)
qed

lemma Battle_screen_ok:
  assumes "seen_ok bases s" "ms_turn s < 256"
  shows "\<exists>v. Battle_screen address s = Inr v"
proof -
  let ?i = "ms_battleGhostIndex s"
  have g: "1 \<le> ms_grade s" "ms_grade s \<le> 6" "1 \<le> ms_turn s"
    and i: "?i < length (ms_ghosts s)" "?i < length (ms_ghostStates s)" "?i < length (ms_ghostAddresses s)"
    using assms(1) by (simp_all add: seen_ok_def grade_ok_def)
  have gh: "ghost_ok bases (ms_ghosts s ! ?i)" "final_turn_ok (ms_ghostStates s ! ?i)"
    using assms(1) i by (simp_all add: seen_ok_def list_all_length)
  from grade_and_ghost_board_ok [OF g(3) assms(2) gh(2), of "gh_history (ms_ghosts s ! ?i)"] obtain gg where
    gg: "getGradeAndGhostBoard (gh_history (ms_ghosts s ! ?i)) (ms_ghostStates s ! ?i) (ms_turn s) = Inr gg"
    "gg = EMPTY_GRADE_AND_GHOST_BOARD \<or> gg \<in> set (gh_history (ms_ghosts s ! ?i))" by blast
  then have "1 \<le> toNumber (gg_grade gg) \<and> toNumber (gg_grade gg) \<le> 6"
    using gh(1) by (auto simp: ghost_ok_def EMPTY_GRADE_AND_GHOST_BOARD_def list_all_iff word_le_nat_alt)
  then obtain t u where "getGradeText (toStringU (gg_grade gg)) = Inr t" "getGradeText (show_nat (ms_grade s)) = Inr u"
    using getGradeText_ok_iff g unfolding toStringU_def by meson
  then show ?thesis
    using gg(1) i by (simp add: Battle_screen_def Let_def js_at_def PlayerBox_def)
qed

lemma Result_ok:
  assumes "board_named bases (ms_board s)" "1 \<le> re_place r" "re_place r \<le> 4"
  shows "\<exists>v. Result bases s r = Inr v"
proof -
  have "re_place r = 1 \<or> re_place r = 2 \<or> re_place r = 3 \<or> re_place r = 4"
    using assms(2,3) by auto
  then obtain t where t: "Ranking (re_place r) = Inr t"
    by (auto simp: Ranking_def getRankingString_def)
  have "\<exists>y. bindE (findEmoBase (be_base_id e) bases) (\<lambda>base. mapR (\<lambda>emoji. \<lparr>pr_emoji = emoji, pr_typ = eb_typ base,
      pr_grade = toStringU (eb_grade base), pr_attributes = be_attributes e, pr_isInactive = False\<rparr>)
      (getEmoBaseEmoji base)) = Inr y" if "e \<in> set (ms_board s)" for e
    using that assms(1) by (force simp: board_named_def list_all_iff nameless_iff)
  then obtain emos where "mapE (\<lambda>e. bindE (findEmoBase (be_base_id e) bases) (\<lambda>base. mapR (\<lambda>emoji.
      \<lparr>pr_emoji = emoji, pr_typ = eb_typ base,
      pr_grade = toStringU (eb_grade base), pr_attributes = be_attributes e, pr_isInactive = False\<rparr>)
      (getEmoBaseEmoji base))) (ms_board s) = Inr emos"
    using mapE_ok_iff by meson
  with t show ?thesis by (simp add: Result_def)
qed


section \<open>The start of a match\<close>

lemma pool_count_le: "get_pool_emo_count_by_grade g = Inr n \<Longrightarrow> toNumber n \<le> 7"
  by (auto simp: get_pool_emo_count_by_grade_def split: if_splits)

lemma found_id: "bases_ok codec \<Longrightarrow> find_base codec i = Inr b \<Longrightarrow> eb_id b = i"
  by (auto simp: bases_ok_def find_base_def list_all_iff dest!: map_of_SomeD split: option.splits)

lemma pool_bases_le:
  "pool_bases codec ids = Inr bs \<Longrightarrow> bases_ok codec \<Longrightarrow>
   length bs \<le> 7 * length ids \<and> (\<forall>b\<in>set bs. \<exists>base. find_base codec b = Inr base)"
proof (induction ids arbitrary: bs)
  case (Cons i ids)
  from Cons.prems(1) obtain base n bs' where b: "find_base codec i = Inr base"
    "get_pool_emo_count_by_grade (eb_grade base) = Inr n" "pool_bases codec ids = Inr bs'"
    "bs = replicate (toNumber n) (eb_id base) @ bs'"
    by (auto simp: pool_bases_def bindE_eq_Inr_iff mapR_eq_Inr_iff)
  then show ?case
    using Cons.IH [OF b(3) Cons.prems(2)] pool_count_le [OF b(2)] found_id [OF Cons.prems(2) b(1)] by auto
qed (simp add: pool_bases_def)

lemma built_ids_length:
  "foldE (build_built_base_ids_step codec built) (ids, gs) sel = Inr r \<Longrightarrow> length (fst r) = length ids + length sel"
  by (induction sel arbitrary: ids gs)
    (auto simp: build_built_base_ids_step_def bindE_eq_Inr_iff split: if_splits)

lemma buildPool_ok:
  assumes r: "buildPool deck bases fixed built = Inr pool"
    and ok: "bases_ok (bs_codec bases)" "bases_named bases" and fixed: "length fixed \<le> 1000"
  shows "pool_ok bases pool"
proof -
  from r have p: "build_pool (map toUint16 deck) (bs_codec bases) (map toUint16 fixed) (map toUint16 built) = Inr pool"
    by (auto simp: buildPool_def unwrap_def split: sum.splits js_error.splits)
  note ids = build_pool_ids [OF p]
  from ids(2) obtain base_ids bs where
    b: "build_built_base_ids (map toUint16 deck) (bs_codec bases) (map toUint16 built) = Inr base_ids"
    "pool_bases (bs_codec bases) (base_ids @ map toUint16 fixed) = Inr bs" "map me_base_id pool = bs" by blast
  from b(1) have "length base_ids = 6"
    by (auto simp: build_built_base_ids_def mapR_eq_Inr_iff split: if_splits dest: built_ids_length)
  with pool_bases_le [OF b(2) ok(1)] fixed have len: "length bs \<le> 7042"
    and found: "\<forall>b\<in>set bs. \<exists>base. find_base (bs_codec bases) b = Inr base"
    by auto
  have "length pool \<le> 7042" using len b(3) by (metis length_map)
  have "inj_on (word_of_nat :: nat \<Rightarrow> u16) (set [1..<Suc (length pool)])"
  proof (rule inj_onI)
    fix x y assume "x \<in> set [1..<Suc (length pool)]" "y \<in> set [1..<Suc (length pool)]"
      "(word_of_nat x :: u16) = word_of_nat y"
    moreover have "unat (word_of_nat z :: u16) = z" if "z \<in> set [1..<Suc (length pool)]" for z
      using that \<open>length pool \<le> 7042\<close> by (auto simp: unat_of_nat intro!: mod_less)
    ultimately show "x = y" by metis
  qed
  then have "distinct (map me_id pool)"
    by (simp add: ids(1) distinct_map)
  moreover have "list_all (\<lambda>e. \<not> nameless bases (me_base_id e)) pool"
    using found ok(2) b(3) by (fastforce simp: list_all_iff bases_named_def)
  ultimately show ?thesis
    by (simp add: pool_ok_def)
qed

text \<open>What a trial relies on in the answers of a node.\<close>

definition answers_ok :: "'rng shop_env \<Rightarrow> 'signer Connection \<Rightarrow> bool" where
  "answers_ok env connection \<longleftrightarrow> cn_emoBases connection = en_bases env \<and>
     (case cn_deckFixedEmoBaseIds connection of Inl e \<Rightarrow> True | Inr ids \<Rightarrow> length ids \<le> 1000) \<and>
     (\<forall>band i ghost. cn_matchmakingGhostByIndex connection band i = Inr (Some ghost) \<longrightarrow>
        ghost_ok (en_bases env) ghost)"

lemma trial_state_ok:
  assumes "answers_ok env connection" "bases_ok (bs_codec (en_bases env))" "bases_named (en_bases env)"
    and r: "buildMtcState connection rnd random = Inr s"
  shows "state_ok (en_bases env) s"
proof -
  from r obtain built fixed info ghosts deck pool c where
    b: "cn_deckFixedEmoBaseIds connection = Inr fixed"
    "cn_matchmakingGhostsInfo connection (initialEp div 100) = Inr (Some info)" "3 \<le> length info"
    and ghosts: "mapE (\<lambda>(_, ghostIndex). bindE (cn_matchmakingGhostByIndex connection (initialEp div 100) ghostIndex)
        orTypeError) (fst (sampleArray rnd (map (\<lambda>(i, _, a). (a, i)) (List.enumerate 0 info)) 3)) = Inr ghosts"
    and pool: "buildPool deck (cn_emoBases connection) (map toStringU fixed) built = Inr pool"
    and s: "s = buildInitialMtcState initialEp (trial_getSeed random) pool ghosts
        (map fst (fst (sampleArray rnd (map (\<lambda>(i, _, a). (a, i)) (List.enumerate 0 info)) 3)))
        initialPlayerHealth c [initialGhostState, initialGhostState, initialGhostState] 0"
    by (auto simp: buildMtcState_def Let_def bindE_eq_Inr_iff mapR_eq_Inr_iff split: if_splits option.splits)
  let ?sample = "fst (sampleArray rnd (map (\<lambda>(i, _, a). (a, i)) (List.enumerate 0 info)) 3)"
  have len: "length ?sample = 3"
    using b(3) by (simp add: sampleArray_def shuffleArray_def Let_def)
  have "ghost_ok (en_bases env) g" if "g \<in> set ghosts" for g
    using mapE_member [OF ghosts that] assms(1)
    by (auto simp: answers_ok_def bindE_eq_Inr_iff orTypeError_eq_Inr_iff)
  then have "list_all (ghost_ok (en_bases env)) ghosts"
    by (simp add: list_all_iff)
  moreover have "pool_ok (en_bases env) pool"
    by (rule buildPool_ok [of deck _ "map toStringU fixed" built]) (use assms(1-3) pool b(1) in \<open>simp_all add: answers_ok_def\<close>)
  ultimately show ?thesis
    using len mapE_length [OF ghosts]
    by (simp add: s state_ok_def match_ok_def grade_ok_def buildInitialMtcState_def board_named_def
        initialGhostState_def is_active_def final_turn_ok_def initialPlayerHealth_def)
qed


section \<open>The pages\<close>

text \<open>
  A page is in order when its phase has the state it needs. The turns of the module are bytes, and
  what follows holds for turns below 256. After the end of a match the page of a battle waits for the
  player's points: it has the final state then.
\<close>

definition page_ok :: "'rng shop_env \<Rightarrow> 'signer page \<Rightarrow> bool" where
  "page_ok env p \<longleftrightarrow>
     (case pg_phase p of
        Some Phase_shop \<Rightarrow>
          (case (pg_shop p, pg_mtcState p) of
             (Some (catalog, sc), Some s) \<Rightarrow> s = sc_mtcState sc \<and> (ms_turn s < 256 \<longrightarrow> shop_ok env catalog sc)
           | _ \<Rightarrow> False)
      | Some Phase_battle \<Rightarrow>
          (case pg_mtcState p of
             Some s \<Rightarrow> ms_turn s < 256 \<longrightarrow> seen_ok (en_bases env) s \<and>
               (\<not> fr_waiting (pg_frame p) \<longrightarrow> state_ok (en_bases env) s)
           | None \<Rightarrow> False)
      | Some Phase_result \<Rightarrow>
          (case (pg_mtcState p, pg_resultState p) of
             (Some s, Some r) \<Rightarrow> ms_turn s < 256 \<longrightarrow> board_named (en_bases env) (ms_board s) \<and>
               1 \<le> re_place r \<and> re_place r \<le> 4
           | _ \<Rightarrow> False)
      | _ \<Rightarrow> True)"

definition page_turn :: "'signer page \<Rightarrow> nat" where
  "page_turn p = (case pg_mtcState p of Some s \<Rightarrow> ms_turn s | None \<Rightarrow> 0)"

lemma shop_renders:
  assumes "shop_ok env catalog sc" "ms_turn (sc_mtcState sc) < 256"
  shows "\<exists>v. Shop (with_catalog env catalog) sc = Inr v"
proof -
  from assms obtain s0 where s0: "state_ok (en_bases env) s0" "ms_turn s0 < 256"
    "reaches (with_catalog env catalog) s0 shop_element sc" "catalog_named (with_catalog env catalog)"
    by (auto simp: shop_ok_def)
  then have "renderable (with_catalog env catalog) sc"
    using reaches_renderable state_rivals by (fastforce simp: state_ok_def)
  with s0(4) reachesD(1) [OF s0(3)] show ?thesis
    by (intro Shop_renders) (simp_all add: screen_inv_def)
qed

lemma Trial_renders: "page_ok env p \<Longrightarrow> page_turn p < 256 \<Longrightarrow> \<exists>v. Trial_render env p = Inr v"
  using shop_renders Battle_screen_ok Result_ok
  by (fastforce simp: page_ok_def page_turn_def Trial_render_def split: option.splits Phase.splits)

lemma Mtc_renders:
  assumes "page_ok env p" "page_turn p < 256" "pg_account p = None \<longrightarrow> pg_phase p = Some Phase_setup"
  shows "\<exists>v. Mtc_render env p = Inr v"
  using assms shop_renders Battle_screen_ok Result_ok
  by (fastforce simp: page_ok_def page_turn_def Mtc_render_def split: option.splits Phase.splits)

lemma enter_shop_ok:
  assumes "rand_ok (en_rand env)" "ms_turn s < 256 \<longrightarrow> state_ok (en_bases env) s" "enter_shop env s p = Inr p'"
  shows "page_ok env p'"
  using assms mount_shop_ok
  by (fastforce simp: enter_shop_def mapR_eq_Inr_iff page_ok_def mount_shop_def bindE_eq_Inr_iff shop_init_def
      start_operation_def split: if_splits)

lemma shop_step_ok:
  assumes "shop_ok env catalog sc" "shop_step (with_catalog env catalog) sc sc'"
  shows "shop_ok env catalog sc'"
proof -
  from assms(1) obtain s0 where "state_ok (en_bases env) s0" "ms_turn s0 = ms_turn (sc_mtcState sc)"
    "reaches (with_catalog env catalog) s0 shop_element sc" "catalog_named (with_catalog env catalog)"
    by (auto simp: shop_ok_def)
  then show ?thesis
    using assms(2) shop_step_same [OF assms(2)]
    by (auto simp: shop_ok_def reaches_def same_match_def intro: rtranclp.rtrancl_into_rtrancl)
qed


section \<open>Runs of a trial\<close>

lemma setNav_simps [simp]:
  "pg_phase (setNav b p) = pg_phase p" "pg_mtcState (setNav b p) = pg_mtcState p"
  "pg_resultState (setNav b p) = pg_resultState p" "pg_account (setNav b p) = pg_account p"
  "pg_shop (setNav b p) = pg_shop p" "fr_waiting (pg_frame (setNav b p)) = fr_waiting (pg_frame p)"
  by (simp_all add: setNav_def)

lemma enter_shop_frame:
  "enter_shop env s p = Inr p' \<Longrightarrow> pg_frame p' = pg_frame p \<and> pg_account p' = pg_account p \<and>
   pg_phase p' = Some Phase_shop \<and> pg_mtcState p' = Some s"
  by (auto simp: enter_shop_def mapR_eq_Inr_iff)

definition bases_in_order :: "EmoBases \<Rightarrow> bool" where
  "bases_in_order bases \<longleftrightarrow> bases_ok (bs_codec bases) \<and> bases_named bases"

definition trial_ok :: "'rng shop_env \<Rightarrow> 'signer page \<Rightarrow> bool" where
  "trial_ok env p \<longleftrightarrow> page_ok env p \<and> \<not> fr_waiting (pg_frame p)"

lemma board_after_battle:
  assumes "ms_turn s < 256 \<longrightarrow> state_ok (en_bases env) s" "rand_ok rand"
    and "finishBattle (battleAll march) (selectBattleGhostIndex rand) s (en_bases env) = Inr (s', place)"
  shows "case place of
      None \<Rightarrow> ms_turn s' = ms_turn s + 1 \<and> (ms_turn s' < 256 \<longrightarrow> state_ok (en_bases env) s')
    | Some p \<Rightarrow> ms_turn s' = ms_turn s \<and> (ms_turn s' < 256 \<longrightarrow>
        board_named (en_bases env) (ms_board s') \<and> seen_ok (en_bases env) s' \<and> 1 \<le> p \<and> p \<le> 4)"
  using finishBattle_cases [OF assms(3)] finishBattle_state_ok [OF _ _ assms(2,3)] assms(1)
  by (auto split: option.splits)

lemma trial_step_ok:
  assumes "trial_step env march (answers_ok env) p p'" "trial_ok env p"
    and "rand_ok (en_rand env)" "bases_in_order (en_bases env)"
  shows "trial_ok env p'"
  using assms(1)
proof cases
  case (load connection rnd random s)
  then have "state_ok (en_bases env) s"
    using assms(4) trial_state_ok by (auto simp: bases_in_order_def)
  with load assms(2,3) show ?thesis
    by (auto simp: trial_setup_def trial_ok_def dest: enter_shop_frame intro: enter_shop_ok)
next
  case (shop catalog sc sc')
  then show ?thesis
    using assms(2) shop_step_ok [OF _ shop(4)] shop_step_same [OF shop(4)]
    by (auto simp: trial_ok_def page_ok_def step_shop_def same_match_def split: option.splits)
next
  case (battle catalog sc v solution)
  then have "ms_turn (sc_mtcState sc) < 256 \<longrightarrow> state_ok (en_bases env) (sc_mtcState sc)"
    using assms(2) battle_from_shop by (fastforce simp: trial_ok_def page_ok_def split: option.splits)
  then have "ms_turn (sc_mtcState sc) < 256 \<longrightarrow>
      state_ok (en_bases env) (sc_mtcState sc\<lparr>ms_seed := trial_getSeed random\<rparr>)" for random
    by (simp add: state_ok_def match_ok_def grade_ok_def)
  then show ?thesis
    using battle assms(2) state_seen
    by (fastforce simp: trial_ok_def page_ok_def trial_startBattle_def)
next
  case (finished s)
  then have "ms_turn s < 256 \<longrightarrow> state_ok (en_bases env) s"
    using assms(2) by (simp add: trial_ok_def page_ok_def)
  from finished(3) obtain s' place where f: "finishBattle (battleAll march) (selectBattleGhostIndex (en_rand env)) s
      (en_bases env) = Inr (s', place)"
    by (auto simp: trial_finish_def bindE_eq_Inr_iff)
  note after = board_after_battle [OF \<open>ms_turn s < 256 \<longrightarrow> _\<close> assms(3) f]
  show ?thesis
  proof (cases place)
    case None
    with finished f have "enter_shop env s' p = Inr p'" by (simp add: trial_finish_def)
    then show ?thesis
      using None after assms(2,3) by (auto simp: trial_ok_def dest: enter_shop_frame intro: enter_shop_ok)
  next
    case (Some n)
    then show ?thesis
      using finished f after assms(2)
      by (auto simp: trial_finish_def trial_ok_def page_ok_def)
  qed
next
  case again
  then show ?thesis
    using assms(2) by (simp add: trial_ok_def page_ok_def trial_startAgain_def)
qed

lemma trial_run_ok:
  assumes "(trial_step env march (answers_ok env))\<^sup>*\<^sup>* trial_page p"
    and "rand_ok (en_rand env)" "bases_in_order (en_bases env)"
  shows "trial_ok env p"
  using assms(1)
proof (induction rule: rtranclp_induct)
  case base
  then show ?case by (simp add: trial_ok_def page_ok_def trial_page_def)
qed (rule trial_step_ok [OF _ _ assms(2,3)])


section \<open>Runs of a match on the chain or the contract\<close>

text \<open>What the page relies on in the answers about a match that has started.\<close>

definition match_answers_ok :: "'rng shop_env \<Rightarrow> 'signer Connection \<Rightarrow> bool" where
  "match_answers_ok env connection \<longleftrightarrow>
     (\<forall>address pool ghosts. cn_playerMtcImmutable connection address = Inr (pool, ghosts) \<longrightarrow>
        pool_ok (en_bases env) pool \<and> length ghosts = 3 \<and> list_all (\<lambda>(a, g). ghost_ok (en_bases env) g) ghosts) \<and>
     (\<forall>address m. cn_playerMtcMutable connection address = Inr (Some m) \<longrightarrow>
        pm_health m \<noteq> 0 \<and> length (pm_ghost_states m) = 3 \<and> toNumber (pm_battle_ghost_index m) < 3 \<and>
        is_active (pm_ghost_states m ! toNumber (pm_battle_ghost_index m)) \<and>
        list_all final_turn_ok (pm_ghost_states m))"

lemma start_state_ok:
  assumes "match_answers_ok env connection" "start_state connection address previousEp = Inr s"
  shows "state_ok (en_bases env) s"
proof -
  from assms(2) obtain seed pool ghosts m where
    imm: "cn_playerMtcImmutable connection address = Inr (pool, ghosts)"
    and mut: "cn_playerMtcMutable connection address = Inr (Some m)"
    and s: "s = buildInitialMtcState previousEp seed pool (map snd ghosts)
         (map (\<lambda>(a, _). cn_transformAddress connection a) ghosts) (toNumber (pm_health m))
         (map_option (\<lambda>c. int (toNumber c)) (pm_upgrade_coin m)) (pm_ghost_states m)
         (toNumber (pm_battle_ghost_index m))"
    by (auto simp: start_state_def bindE_eq_Inr_iff mapR_eq_Inr_iff orTypeError_eq_Inr_iff)
  have i: "pool_ok (en_bases env) pool \<and> length ghosts = 3 \<and> list_all (\<lambda>(a, g). ghost_ok (en_bases env) g) ghosts"
    and m: "pm_health m \<noteq> 0 \<and> length (pm_ghost_states m) = 3 \<and> toNumber (pm_battle_ghost_index m) < 3 \<and>
        is_active (pm_ghost_states m ! toNumber (pm_battle_ghost_index m)) \<and>
        list_all final_turn_ok (pm_ghost_states m)"
    using assms(1) imm mut unfolding match_answers_ok_def by blast+
  have "0 < toNumber (pm_health m)" "toNumber (pm_health m) < 256"
    using m unat_gt_0 [of "pm_health m"] unsigned_less [of "pm_health m", where ?'a = nat] by simp_all
  with i m show ?thesis
    by (auto simp: s state_ok_def match_ok_def grade_ok_def buildInitialMtcState_def board_named_def list_all_iff)
qed

definition mtc_ok :: "'rng shop_env \<Rightarrow> 'signer page \<Rightarrow> bool" where
  "mtc_ok env p \<longleftrightarrow> page_ok env p \<and> (pg_account p = None \<longrightarrow> pg_phase p = Some Phase_setup)"

lemma setWaiting_simps [simp]:
  "pg_phase (setWaiting b p) = pg_phase p" "pg_mtcState (setWaiting b p) = pg_mtcState p"
  "pg_resultState (setWaiting b p) = pg_resultState p" "pg_account (setWaiting b p) = pg_account p"
  "pg_shop (setWaiting b p) = pg_shop p" "fr_waiting (pg_frame (setWaiting b p)) = b"
  by (simp_all add: setWaiting_def)

lemma setErrorModalMessage_simps [simp]:
  "pg_phase (setErrorModalMessage e p) = pg_phase p" "pg_mtcState (setErrorModalMessage e p) = pg_mtcState p"
  "pg_resultState (setErrorModalMessage e p) = pg_resultState p"
  "pg_account (setErrorModalMessage e p) = pg_account p" "pg_shop (setErrorModalMessage e p) = pg_shop p"
  "fr_waiting (pg_frame (setErrorModalMessage e p)) = fr_waiting (pg_frame p)"
  by (simp_all add: setErrorModalMessage_def)

lemma start_keeps:
  assumes "start connection account deck ep solution p = (r, p')"
  shows "pg_phase p' = pg_phase p" "pg_account p' = pg_account p"
    and "r = Inr s \<Longrightarrow> start_state connection (account_address account) ep = Inr s"
  using assms by (auto simp: start_def withToggleAsync_def Let_def split: if_splits sum.splits prod.splits)

lemma startMtc_ok:
  assumes "startMtc env connection deck ep solution p = Inr (p', e)" "pg_phase p = Some Phase_setup"
    and "match_answers_ok env connection" "rand_ok (en_rand env)"
  shows "mtc_ok env p'"
proof (cases "pg_account p")
  case None
  then show ?thesis
    using assms(1,2) by (auto simp: startMtc_def mtc_ok_def page_ok_def)
next
  case (Some account)
  obtain r q where r: "start connection account deck ep solution p = (r, q)" by fastforce
  note keeps = start_keeps [OF r]
  show ?thesis
  proof (cases r)
    case (Inl x)
    then show ?thesis
      using assms(1,2) Some r keeps(1,2) by (auto simp: startMtc_def mtc_ok_def page_ok_def)
  next
    case (Inr s)
    let ?q = "setNav False (q\<lparr>pg_account := Some (activate_session account)\<rparr>)"
    from Inr have s: "enter_shop env s ?q = Inr p'"
      using assms(1) Some r by (auto simp: startMtc_def mapR_eq_Inr_iff)
    have "state_ok (en_bases env) s"
      by (rule start_state_ok [OF assms(3)]) (use keeps(3) Inr in blast)
    then show ?thesis
      using enter_shop_ok [OF assms(4) _ s] enter_shop_frame [OF s] by (simp add: mtc_ok_def)
  qed
qed

lemma startBattle_ok:
  assumes "startBattle connection ops solution s p = Inr (p', e)" "mtc_ok env p" "pg_phase p = Some Phase_shop"
    and "ms_turn s < 256 \<longrightarrow> state_ok (en_bases env) s"
  shows "mtc_ok env p'"
proof -
  have "ms_turn s < 256 \<longrightarrow> state_ok (en_bases env) (s\<lparr>ms_seed := seed\<rparr>)" for seed
    using assms(4) by (simp add: state_ok_def match_ok_def grade_ok_def)
  then show ?thesis
    using assms(1-3) state_seen
    by (fastforce simp: startBattle_def withToggleAsync_def Let_def mtc_ok_def page_ok_def split: option.splits sum.splits)
qed

lemma finish_ok:
  assumes "finish env march connection p = Inr (p', e)" "mtc_ok env p" "pg_phase p = Some Phase_battle"
    and "\<not> fr_waiting (pg_frame p)" "rand_ok (en_rand env)"
  shows "mtc_ok env p'"
proof -
  obtain s account where s: "pg_mtcState p = Some s" "ms_turn s < 256 \<longrightarrow> state_ok (en_bases env) s"
    and account: "pg_account p = Some account"
    using assms(1-4) by (auto simp: mtc_ok_def page_ok_def finish_def split: option.splits)
  show ?thesis
  proof (cases "finishBattle (battleAll march) (selectBattleGhostIndex (en_rand env)) s (en_bases env)")
    case (Inl x)
    then show ?thesis
      using assms(1-3) s account by (auto simp: finish_def finishBattleAndBuildState_def)
  next
    case (Inr q)
    then obtain s' place where f: "finishBattle (battleAll march) (selectBattleGhostIndex (en_rand env)) s
        (en_bases env) = Inr (s', place)" by (cases q) auto
    note after = board_after_battle [OF s(2) assms(5) f]
    show ?thesis
    proof (cases place)
      case None
      then have "enter_shop env s' p = Inr p'"
        using assms(1) s(1) account f by (auto simp: finish_def finishBattleAndBuildState_def mapR_eq_Inr_iff)
      then show ?thesis
        using None after enter_shop_ok [OF assms(5), of s' p p'] enter_shop_frame [of env s' p p'] account
        by (simp add: mtc_ok_def)
    next
      case (Some n)
      then show ?thesis
        using assms(1,3) s(1) account f after
        by (auto simp: finish_def finishBattleAndBuildState_def withToggleAsync_def Let_def mtc_ok_def page_ok_def
            bindE_eq_Inr_iff mapR_eq_Inr_iff split: sum.splits)
    qed
  qed
qed

lemma mtc_step_ok:
  assumes "mtc_step env march (match_answers_ok env) p p'" "mtc_ok env p" "rand_ok (en_rand env)"
  shows "mtc_ok env p'"
  using assms(1)
proof cases
  case (start connection deck ep solution e)
  then show ?thesis using assms(3) by (blast intro: startMtc_ok)
next
  case (shop catalog sc sc')
  then show ?thesis
    using assms(2) shop_step_ok [OF _ shop(4)] shop_step_same [OF shop(4)]
    by (auto simp: mtc_ok_def page_ok_def step_shop_def same_match_def split: option.splits)
next
  case (battle catalog sc v solution connection e)
  then have "ms_turn (sc_mtcState sc) < 256 \<longrightarrow> state_ok (en_bases env) (sc_mtcState sc)"
    using assms(2) battle_from_shop by (fastforce simp: mtc_ok_def page_ok_def split: option.splits)
  with battle assms(2) show ?thesis by (blast intro: startBattle_ok)
next
  case (finished connection e)
  then show ?thesis using assms(2,3) by (blast intro: finish_ok)
next
  case again
  then show ?thesis
    using assms(2) by (simp add: mtc_ok_def page_ok_def startAgain_def)
qed

lemma mtc_run_ok:
  assumes "(mtc_step env march (match_answers_ok env))\<^sup>*\<^sup>* (initial_page account) p" "rand_ok (en_rand env)"
  shows "mtc_ok env p"
  using assms(1)
proof (induction rule: rtranclp_induct)
  case base
  then show ?case by (simp add: mtc_ok_def page_ok_def initial_page_def)
qed (rule mtc_step_ok [OF _ _ assms(2)])

end
