(* ===== verification/ContractFacts.thy ===== *)
theory ContractFacts
  imports Leaderboard ReplayFacts MatchFlowFacts
begin

text \<open>
  What the storage of the contract keeps, whatever messages it gets and from whom.
\<close>

section \<open>Ghosts of a band\<close>

text \<open>What the choices of the \<open>rand\<close> crate for ghosts are relied on for.\<close>

definition ghost_rand_ok :: "'rng ghost_rand \<Rightarrow> bool" where
  "ghost_rand_ok rand \<longleftrightarrow>
     (\<forall>rng n xs. set (fst (gr_choose_multiple rand rng n xs)) \<subseteq> set xs \<and>
        length (fst (gr_choose_multiple rand rng n xs)) = min n (length xs)) \<and>
     (\<forall>rng xs. mset (gr_shuffle rand rng xs) = mset xs)"

definition graded :: "u8 \<Rightarrow> bool" where "graded g \<longleftrightarrow> 1 \<le> g \<and> g \<le> 6"

definition ghost_graded :: "mtc_Ghost \<Rightarrow> bool" where
  "ghost_graded ghost \<longleftrightarrow> list_all (\<lambda>h. graded (gg_grade h)) (gh_history ghost)"

definition ghosts_known :: "contract \<Rightarrow> bool" where
  "ghosts_known ct \<longleftrightarrow>
     (\<forall>band info. ct_matchmaking_ghosts_info ct band = Some info \<longrightarrow>
        info \<noteq> [] \<and> length info \<le> 20 \<and> distinct (map snd info) \<and>
        (\<forall>i<length info. ct_matchmaking_ghost_by_index ct (band, word_of_nat i) \<noteq> None)) \<and>
     (\<forall>k ghost. ct_matchmaking_ghost_by_index ct k = Some ghost \<longrightarrow> ghost_graded ghost)"

lemma ghosts_infos_from: "(band, v) \<in> set (ghosts_infos get b known) \<Longrightarrow> get band = Some v"
proof (induction b arbitrary: known)
  case 0
  then show ?case
    unfolding ghosts_infos.simps [of get 0] by (auto simp: Let_def split: option.splits if_splits)
next
  case (Suc b)
  from Suc.prems show ?case
    unfolding ghosts_infos.simps [of get "Suc b" known]
    by (auto simp: Let_def split: option.splits if_splits dest: Suc.IH)
qed

lemma with_index_set: "(a, i) \<in> set (with_index v) \<Longrightarrow> \<exists>k<length v. i = word_of_nat k \<and> a = v ! k"
  by (auto simp: with_index_def enumerate_nth)

text \<open>Choosing ghosts never panics: it finds a ghost for each entry it picks, three in all with those missing.\<close>

lemma choose_step_ok:
  assumes "ghost_rand_ok rand" "length choosen \<le> 3"
    and "\<forall>i<length v. get (band, word_of_nat i) \<noteq> None"
    and "\<forall>g\<in>set choosen. \<exists>a ghost k. g = Some (a, ghost) \<and> get k = Some ghost"
  shows "\<exists>choosen' rng'. choose_step rand get (choosen, rng) (band, v) = Inr (choosen', rng') \<and>
    length choosen' \<le> 3 \<and> (\<forall>g\<in>set choosen'. \<exists>a ghost k. g = Some (a, ghost) \<and> get k = Some ghost)"
proof -
  obtain chosen rng' where c: "gr_choose_multiple rand rng (GHOST_COUNT - length choosen) (with_index v) = (chosen, rng')"
    by fastforce
  have sub: "set chosen \<subseteq> set (with_index v)" and len: "length chosen \<le> GHOST_COUNT - length choosen"
    using assms(1) c unfolding ghost_rand_ok_def by (metis fst_conv, metis fst_conv min.cobounded1)
  have found: "\<exists>ghost. get (band, i) = Some ghost" if "(a, i) \<in> set chosen" for a i
    using with_index_set [of a i v] sub that assms(3) by blast
  then obtain new where new: "mapE (\<lambda>(a, index). case get (band, index) of
      None \<Rightarrow> Inl WasmTrap | Some g \<Rightarrow> Inr (Some (a, g))) chosen = Inr new"
    using mapE_ok_iff [of "\<lambda>(a, index). case get (band, index) of
      None \<Rightarrow> Inl WasmTrap | Some g \<Rightarrow> Inr (Some (a, g))" chosen] by fastforce
  then have "\<forall>g\<in>set new. \<exists>a ghost k. g = Some (a, ghost) \<and> get k = Some ghost"
    by (auto dest!: mapE_member [OF new] split: option.splits) blast
  moreover have "length choosen + length new \<le> 3"
    using len mapE_length [OF new] assms(2) by (simp add: GHOST_COUNT_def)
  ultimately show ?thesis
    using new assms(4) by (auto simp: choose_step_def c)
qed

lemma choose_ghosts_ok:
  assumes rand: "ghost_rand_ok rand" and known: "ghosts_known ct"
  shows "\<exists>ghosts. choose_ghosts rand ep seed (\<lambda>band. map_option (map snd) (ct_matchmaking_ghosts_info ct band))
      (ct_matchmaking_ghost_by_index ct) = Inr ghosts \<and> length ghosts = 3 \<and>
    (\<forall>g\<in>set ghosts. case g of None \<Rightarrow> True | Some (a, ghost) \<Rightarrow> ghost_graded ghost)"
proof -
  let ?info = "\<lambda>band. map_option (map snd) (ct_matchmaking_ghosts_info ct band)"
  let ?get = "ct_matchmaking_ghost_by_index ct"
  have "\<exists>choosen rng. foldE (choose_step rand ?get) (cs, r) xs = Inr (choosen, rng) \<and> length choosen \<le> 3 \<and>
      (\<forall>g\<in>set choosen. \<exists>a ghost k. g = Some (a, ghost) \<and> ?get k = Some ghost)"
    if "length cs \<le> 3" "\<forall>g\<in>set cs. \<exists>a ghost k. g = Some (a, ghost) \<and> ?get k = Some ghost"
      "\<forall>(band, v)\<in>set xs. \<forall>i<length v. ?get (band, word_of_nat i) \<noteq> None" for cs r xs
    using that
  proof (induction xs arbitrary: cs r)
    case (Cons p xs)
    obtain band v where p: "p = (band, v)" by fastforce
    obtain cs' r' where "choose_step rand ?get (cs, r) (band, v) = Inr (cs', r')" "length cs' \<le> 3"
      "\<forall>g\<in>set cs'. \<exists>a ghost k. g = Some (a, ghost) \<and> ?get k = Some ghost"
      using choose_step_ok [OF rand Cons.prems(1), of v ?get band r] Cons.prems(2,3) by (auto simp: p)
    then show ?case
      using Cons.IH [of cs' r'] Cons.prems(3) by (simp add: p)
  qed simp
  moreover have "\<forall>(band, v)\<in>set (ghosts_infos ?info b n). \<forall>i<length v. ?get (band, word_of_nat i) \<noteq> None" for b n
    using known by (fastforce dest!: ghosts_infos_from simp: ghosts_known_def)
  ultimately obtain choosen rng where f: "foldE (choose_step rand ?get) ([], gr_seed rand seed)
      (ghosts_infos ?info (toNumber (get_ep_band ep)) 0) = Inr (choosen, rng)" "length choosen \<le> 3"
    and g: "\<forall>g\<in>set choosen. \<exists>a ghost k. g = Some (a, ghost) \<and> ?get k = Some ghost"
    by (metis (no_types, lifting) empty_iff list.set(1) list.size(3) zero_le)
  have m: "mset (gr_shuffle rand rng choosen) = mset choosen"
    using rand by (simp add: ghost_rand_ok_def)
  then have "set (gr_shuffle rand rng choosen) = set choosen" "length (gr_shuffle rand rng choosen) = length choosen"
    using mset_eq_setD mset_eq_length by blast+
  then show ?thesis
    using f g known by (auto simp: choose_ghosts_def GHOST_COUNT_def ghosts_known_def split: option.splits)
qed


section \<open>The state of a match in the storage\<close>

definition mutable_ok :: "mtc_storage_PlayerMutable \<Rightarrow> bool" where
  "mutable_ok m \<longleftrightarrow> length (pm_grade_and_board_history m) < 40 \<and>
     list_all (\<lambda>h. graded (gb_grade h)) (pm_grade_and_board_history m) \<and> pm_health m \<noteq> 0 \<and>
     length (pm_ghost_states m) = 3 \<and> toNumber (pm_battle_ghost_index m) < 3 \<and>
     is_active (pm_ghost_states m ! toNumber (pm_battle_ghost_index m))"

definition immutable_ok :: "player_immutable \<Rightarrow> bool" where
  "immutable_ok i \<longleftrightarrow> length (snd i) = 3 \<and>
     (\<forall>g\<in>set (snd i). case g of None \<Rightarrow> True | Some (a, ghost) \<Rightarrow> ghost_graded ghost)"

definition contract_inv :: "contract \<Rightarrow> bool" where
  "contract_inv ct \<longleftrightarrow> ghosts_known ct \<and> leaderboard_ok (get_leaderboard ct) \<and>
     (\<forall>p m. ct_player_mtc_mutable ct p = Some m \<longrightarrow> mutable_ok m \<and>
        ct_player_mtc_immutable ct p \<noteq> None \<and> ct_player_ep ct p \<noteq> None \<and> ct_player_seed ct p \<noteq> None) \<and>
     (\<forall>p i. ct_player_mtc_immutable ct p = Some i \<longrightarrow> immutable_ok i) \<and>
     (\<forall>p ep. ct_player_ep ct p = Some ep \<longrightarrow> 1 \<le> ep)"

lemma new_contract_inv: "contract_inv (new_contract cl)"
  by (simp add: contract_inv_def new_contract_def ghosts_known_def leaderboard_ok_def get_leaderboard_def)

lemma reduce_ep_pos: "1 \<le> reduce_ep ep penalty"
  by (auto simp: reduce_ep_def MIN_EP_def Let_def)

lemma create_or_update_frame:
  assumes "create_or_update_player_ep p ct = (ep, ct1)"
  shows "\<exists>eps. ct1 = ct\<lparr>ct_player_ep := eps\<rparr> \<and> eps p \<noteq> None \<and>
    (\<forall>q. ct_player_ep ct q \<noteq> None \<longrightarrow> eps q \<noteq> None) \<and>
    (\<forall>q e. eps q = Some e \<longrightarrow> 1 \<le> e \<or> ct_player_ep ct q = Some e)"
proof (cases "ct_player_ep ct p = None \<or> ct_player_mtc_mutable ct p \<noteq> None")
  case True
  define e where "e = (case ct_player_ep ct p of None \<Rightarrow> INITIAL_EP | Some o' \<Rightarrow> reduce_ep o' EP_UNFINISH_PENALTY)"
  have "1 \<le> e" by (simp add: e_def INITIAL_EP_def reduce_ep_pos split: option.split)
  moreover have "ct1 = ct\<lparr>ct_player_ep := (ct_player_ep ct)(p \<mapsto> e)\<rparr>"
    using True assms by (auto simp: create_or_update_player_ep_def Let_def e_def split: option.splits)
  ultimately show ?thesis
    by (intro exI [of _ "(ct_player_ep ct)(p \<mapsto> e)"]) auto
next
  case False
  then have "ct1 = ct" using assms by (auto simp: create_or_update_player_ep_def)
  then have "ct1 = ct\<lparr>ct_player_ep := ct_player_ep ct\<rparr>" by simp
  then show ?thesis using False by blast
qed

lemma initial_states_active: "i < 3 \<Longrightarrow> is_active (build_contract_ghost_states ep ! i)"
  by (simp add: build_contract_ghost_states_def is_active_def)

lemma get_leaderboard_simps [simp]:
  "get_leaderboard (ct\<lparr>ct_player_ep := a\<rparr>) = get_leaderboard ct"
  "get_leaderboard (ct\<lparr>ct_player_seed := b\<rparr>) = get_leaderboard ct"
  "get_leaderboard (ct\<lparr>ct_player_mtc_immutable := c\<rparr>) = get_leaderboard ct"
  "get_leaderboard (ct\<lparr>ct_player_mtc_mutable := d\<rparr>) = get_leaderboard ct"
  by (simp_all add: get_leaderboard_def)

lemma ghosts_known_simps [simp]:
  "ghosts_known (ct\<lparr>ct_player_ep := a\<rparr>) = ghosts_known ct"
  "ghosts_known (ct\<lparr>ct_player_seed := b\<rparr>) = ghosts_known ct"
  "ghosts_known (ct\<lparr>ct_player_mtc_immutable := c\<rparr>) = ghosts_known ct"
  "ghosts_known (ct\<lparr>ct_player_mtc_mutable := d\<rparr>) = ghosts_known ct"
  "ghosts_known (ct\<lparr>ct_leaderboard := l\<rparr>) = ghosts_known ct"
  by (simp_all add: ghosts_known_def)

lemma unwrap_eq_Inr_iff: "unwrap r = Inr a \<longleftrightarrow> r = Inr a"
  by (auto simp: unwrap_def split: sum.splits js_error.splits)

lemma start_mtc_storage:
  assumes "start_mtc rand cl deck ct = Inr ct'"
  obtains eps ep seed pool ghosts bases fixed built where
    "ct' = ct\<lparr>ct_player_ep := eps, ct_player_seed := (ct_player_seed ct)(cl_caller cl \<mapsto> seed),
      ct_player_mtc_immutable := (ct_player_mtc_immutable ct)(cl_caller cl \<mapsto> (pool, ghosts)),
      ct_player_mtc_mutable := (ct_player_mtc_mutable ct)(cl_caller cl \<mapsto>
        \<lparr>pm_health = PLAYER_INITIAL_HEALTH, pm_grade_and_board_history = [],
         pm_upgrade_coin = get_upgrade_coin 2, pm_ghost_states = build_contract_ghost_states ep,
         pm_battle_ghost_index = 0\<rparr>)\<rparr>"
    and "eps (cl_caller cl) \<noteq> None" "\<And>q. ct_player_ep ct q \<noteq> None \<Longrightarrow> eps q \<noteq> None"
    and "\<And>q e. eps q = Some e \<Longrightarrow> 1 \<le> e \<or> ct_player_ep ct q = Some e"
    and "choose_ghosts rand ep seed (\<lambda>band. map_option (map snd) (ct_matchmaking_ghosts_info ct band))
      (ct_matchmaking_ghost_by_index ct) = Inr ghosts"
    and "ct_emo_bases ct = Some bases" "build_pool deck bases fixed built = Inr pool"
proof -
  obtain ep ct1 where c: "create_or_update_player_ep (cl_caller cl) ct = (ep, ct1)" by fastforce
  obtain eps where ct1: "ct1 = ct\<lparr>ct_player_ep := eps\<rparr>" "eps (cl_caller cl) \<noteq> None"
    "\<And>q. ct_player_ep ct q \<noteq> None \<Longrightarrow> eps q \<noteq> None"
    "\<And>q e. eps q = Some e \<Longrightarrow> 1 \<le> e \<or> ct_player_ep ct q = Some e"
    using create_or_update_frame [OF c] by blast
  from assms c ct1(1) obtain seed pool ghosts bases fixed built where
    "ct' = ct\<lparr>ct_player_ep := eps, ct_player_seed := (ct_player_seed ct)(cl_caller cl \<mapsto> seed),
      ct_player_mtc_immutable := (ct_player_mtc_immutable ct)(cl_caller cl \<mapsto> (pool, ghosts)),
      ct_player_mtc_mutable := (ct_player_mtc_mutable ct)(cl_caller cl \<mapsto>
        \<lparr>pm_health = PLAYER_INITIAL_HEALTH, pm_grade_and_board_history = [],
         pm_upgrade_coin = get_upgrade_coin 2, pm_ghost_states = build_contract_ghost_states ep,
         pm_battle_ghost_index = 0\<rparr>)\<rparr>"
    "choose_ghosts rand ep seed (\<lambda>band. map_option (map snd) (ct_matchmaking_ghosts_info ct band))
      (ct_matchmaking_ghost_by_index ct) = Inr ghosts"
    "ct_emo_bases ct = Some bases" "build_pool deck bases fixed built = Inr pool"
    by (auto simp: start_mtc_def Let_def bindE_eq_Inr_iff mapR_eq_Inr_iff or_trap_def unwrap_eq_Inr_iff split: option.splits)
  from this(1) ct1(2-4) this(2-4) show thesis
    by (rule that)
qed

lemma start_mtc_inv:
  assumes "ghost_rand_ok rand" "contract_inv ct" "start_mtc rand cl deck ct = Inr ct'"
  shows "contract_inv ct'"
  using assms(3)
proof (rule start_mtc_storage)
  fix eps ep seed pool ghosts bases fixed built
  assume ct': "ct' = ct\<lparr>ct_player_ep := eps, ct_player_seed := (ct_player_seed ct)(cl_caller cl \<mapsto> seed),
      ct_player_mtc_immutable := (ct_player_mtc_immutable ct)(cl_caller cl \<mapsto> (pool, ghosts)),
      ct_player_mtc_mutable := (ct_player_mtc_mutable ct)(cl_caller cl \<mapsto>
        \<lparr>pm_health = PLAYER_INITIAL_HEALTH, pm_grade_and_board_history = [],
         pm_upgrade_coin = get_upgrade_coin 2, pm_ghost_states = build_contract_ghost_states ep,
         pm_battle_ghost_index = 0\<rparr>)\<rparr>"
    and eps: "eps (cl_caller cl) \<noteq> None" "\<And>q. ct_player_ep ct q \<noteq> None \<Longrightarrow> eps q \<noteq> None"
      "\<And>q e. eps q = Some e \<Longrightarrow> 1 \<le> e \<or> ct_player_ep ct q = Some e"
    and g: "choose_ghosts rand ep seed (\<lambda>band. map_option (map snd) (ct_matchmaking_ghosts_info ct band))
      (ct_matchmaking_ghost_by_index ct) = Inr ghosts"
  have known: "ghosts_known ct" using assms(2) by (simp add: contract_inv_def)
  have "immutable_ok (pool, ghosts)"
    using choose_ghosts_ok [OF assms(1) known, of ep seed] g by (simp add: immutable_ok_def)
  moreover have "mutable_ok \<lparr>pm_health = PLAYER_INITIAL_HEALTH, pm_grade_and_board_history = [],
       pm_upgrade_coin = get_upgrade_coin 2, pm_ghost_states = build_contract_ghost_states ep,
       pm_battle_ghost_index = 0\<rparr>"
    using initial_states_active [of 0 ep]
    by (simp add: mutable_ok_def PLAYER_INITIAL_HEALTH_def) (simp add: build_contract_ghost_states_def)
  moreover have "\<And>q e. eps q = Some e \<Longrightarrow> 1 \<le> e"
    using eps(3) assms(2) unfolding contract_inv_def by blast
  ultimately show ?thesis
    using assms(2) eps(1,2) unfolding ct' contract_inv_def by (auto split: if_splits)
qed

end
