(* ===== verification/ContractRuns.thy ===== *)
theory ContractRuns
  imports ContractFacts
begin

text \<open>
  What finishing a shop does to the contract (\<open>RustContract\<close>), and the invariant of its storage over
  every sequence of messages.
\<close>

section \<open>Finishing a shop\<close>

lemma case_option_eq_Inr_iff:
  "(case x of None \<Rightarrow> Inl e | Some a \<Rightarrow> f a) = Inr r \<longleftrightarrow> (\<exists>a. x = Some a \<and> f a = Inr r)"
  by (cases x) auto

lemma replay_graded:
  assumes "replay_operation catalog bases turn r op = Inr r'" "graded (rp_grade r)"
  shows "graded (rp_grade r')"
proof (cases op)
  case (PlayerOperation_Buy p)
  then show ?thesis
    using assms by (cases p) (auto simp: replay_operation_def replay_buy_def bindE_eq_Inr_iff mapR_eq_Inr_iff
        case_option_eq_Inr_iff split: if_splits)
next
  case PlayerOperation_Upgrade
  then obtain c where up: "rp_grade r' = rp_grade r + 1" "rp_grade r < 6"
    using assms by (auto simp: replay_operation_def replay_upgrade_def bindE_eq_Inr_iff LAST_GRADE_def Let_def
        split: if_splits option.splits)
  then have "toNumber (rp_grade r') = Suc (toNumber (rp_grade r))"
    by (simp add: unat_plus_simple word_less_nat_alt unat_word_ariths)
  then show ?thesis
    using up(2) assms(2) by (simp add: graded_def word_le_nat_alt word_less_nat_alt)
qed (use assms in \<open>auto simp: replay_operation_def replay_sell_def replay_next_catalog_line_def bindE_eq_Inr_iff
    mapR_eq_Inr_iff split: mtc_shop_PlayerOperation_Sell.splits mtc_shop_PlayerOperation_Move.splits\<close>)

lemma verify_graded:
  assumes "verify_player_operations_and_update rand next_id board grade uc ops pool seed turn bases =
      Inr (board', grade', price)" "graded grade"
  shows "graded grade'"
proof -
  from assms(1) obtain catalog r0 r where "foldE (replay_operation catalog bases turn) r0 ops = Inr r"
    "rp_grade r0 = grade" "grade' = rp_grade r"
    by (auto simp: verify_player_operations_and_update_def bindE_eq_Inr_iff mapR_eq_Inr_iff split: if_splits)
  then show ?thesis
    using foldE_invariant [of "replay_operation catalog bases turn" r0 ops r "\<lambda>r. graded (rp_grade r)"]
      replay_graded assms(2) by blast
qed

lemma position_of_Some: "position_of x xs = Some i \<Longrightarrow> i < length xs \<and> xs ! i = x"
  by (auto simp: position_of_def enumerate_nth find_Some_iff)

lemma position_of_None: "position_of x xs = None \<longleftrightarrow> x \<notin> set xs"
  by (auto simp: position_of_def enumerate_nth find_None_iff in_set_conv_nth)

lemma oldest_in: "foldl oldest_step p ps \<in> set (p # ps)"
proof (induction ps arbitrary: p)
  case (Cons q ps)
  have "oldest_step p q = p \<or> oldest_step p q = q" by (simp add: oldest_step_def)
  then show ?case
    using Cons.IH [of "oldest_step p q"] by auto
qed simp

lemma oldest_index_less:
  assumes "info \<noteq> []"
  shows "oldest_index info < length info"
proof -
  obtain p ps where e: "List.enumerate 0 (map fst info) = p # ps"
    using assms by (cases "List.enumerate 0 (map fst info)") (auto dest: arg_cong [where f = length])
  then have "fst (foldl oldest_step p ps) \<in> fst ` set (List.enumerate 0 (map fst info))"
    unfolding e by (intro imageI oldest_in)
  moreover have "oldest_index info = fst (foldl oldest_step p ps)"
    by (simp add: oldest_index_def e)
  ultimately show ?thesis
    by (auto simp: enumerate_nth)
qed

lemma place_ghost_info_ok:
  assumes "place_ghost_info player (n, player) info = (info', i)"
    and "info \<noteq> []" "length info \<le> 20" "distinct (map snd info)"
  shows "info' \<noteq> []" "length info' \<le> 20" "distinct (map snd info')" "i < length info'"
    "\<And>k. k < length info' \<Longrightarrow> k \<noteq> i \<Longrightarrow> k < length info"
proof -
  have "info' \<noteq> [] \<and> length info' \<le> 20 \<and> distinct (map snd info') \<and> i < length info' \<and>
    (\<forall>k. k < length info' \<longrightarrow> k \<noteq> i \<longrightarrow> k < length info)"
  proof (cases "position_of player (map snd info)")
    case (Some k)
    then have k: "k < length info" "snd (info ! k) = player"
      using position_of_Some [OF Some] by auto
    have "info' = info[k := (n, player)]" "i = k"
      using assms(1) Some by (auto simp: place_ghost_info_def)
    moreover have "map snd (info[k := (n, player)]) = map snd info"
      using k by (simp add: map_update list_update_same_conv)
    ultimately show ?thesis
      using k(1) assms(2-4) by (metis length_list_update list_update_nonempty)
  next
    case None
    show ?thesis
    proof (cases "length info < 20")
      case True
      then have "info' = info @ [(n, player)]" "i = length info"
        using assms(1) None by (auto simp: place_ghost_info_def)
      then show ?thesis
        using True assms(4) None [unfolded position_of_None] by (simp add: less_Suc_eq)
    next
      case False
      then have "info' = info[oldest_index info := (n, player)]" "i = oldest_index info"
        using assms(1) None by (auto simp: place_ghost_info_def Let_def)
      then show ?thesis
        using assms(2-4) oldest_index_less [OF assms(2)] None [unfolded position_of_None]
        by (simp add: map_update distinct_list_update)
    qed
  qed
  then show "info' \<noteq> []" "length info' \<le> 20" "distinct (map snd info')" "i < length info'"
    "\<And>k. k < length info' \<Longrightarrow> k \<noteq> i \<Longrightarrow> k < length info" by blast+
qed

lemma add_ghost_known:
  assumes "ghosts_known ct" "list_all (\<lambda>h. graded (gb_grade h)) history"
  shows "ghosts_known (add_matchmaking_ghost cl player ep history ct)"
proof -
  let ?band = "get_ep_band ep"
  obtain info' i where p: "(case ct_matchmaking_ghosts_info ct ?band of
      Some info \<Rightarrow> place_ghost_info player (cl_block_number cl, player) info
    | None \<Rightarrow> ([(cl_block_number cl, player)], 0)) = (info', i)"
    by fastforce
  have ok: "info' \<noteq> [] \<and> length info' \<le> 20 \<and> distinct (map snd info') \<and>
      (\<forall>k<length info'. k \<noteq> i \<longrightarrow> ct_matchmaking_ghost_by_index ct (?band, word_of_nat k) \<noteq> None)"
  proof (cases "ct_matchmaking_ghosts_info ct ?band")
    case None
    then show ?thesis using p by auto
  next
    case (Some info)
    then have known: "info \<noteq> []" "length info \<le> 20" "distinct (map snd info)"
      "\<forall>k<length info. ct_matchmaking_ghost_by_index ct (?band, word_of_nat k) \<noteq> None"
      using assms(1) by (auto simp: ghosts_known_def)
    then show ?thesis
      using place_ghost_info_ok [OF _ known(1-3)] p Some by auto
  qed
  have "ghost_graded (build_ghost_from_history history)"
    using assms(2) by (simp add: ghost_graded_def build_ghost_from_history_def list_all_iff)
  then show ?thesis
    using assms(1) ok unfolding add_matchmaking_ghost_def Let_def p prod.case ghosts_known_def
    by (auto split: if_splits)
qed


lemma calc_new_ep_ok:
  assumes "1 \<le> toNumber place" "toNumber place \<le> 4" "1 \<le> old_ep"
  shows "\<exists>ep. calc_new_ep place old_ep = Inr ep \<and> 1 \<le> ep"
proof -
  have sat: "1 \<le> saturating_add a old_ep" for a :: u16
  proof (cases "a + old_ep < a")
    case False
    then have "unat (a + old_ep) = unat a + unat old_ep"
      by (simp add: not_less unat_plus_simple)
    then show ?thesis using assms(3) False by (simp add: saturating_add_def word_le_nat_alt)
  qed (simp add: saturating_add_def)
  consider "place = 1" | "place = 2" | "place = 3" | "place = 4"
  proof -
    from assms(1,2) have "toNumber place = 1 \<or> toNumber place = 2 \<or> toNumber place = 3 \<or> toNumber place = 4"
      by linarith
    then have "place = 1 \<or> place = 2 \<or> place = 3 \<or> place = 4"
      by (simp add: word_unat_eq_iff)
    then show thesis using that by blast
  qed
  then show ?thesis
    by cases (simp_all add: calc_new_ep_def sat reduce_ep_pos)
qed

lemma update_leaderboard_ok:
  assumes "leaderboard_ok l"
  shows "\<exists>r. update_leaderboard l ep account = Inr r \<and> (case r of None \<Rightarrow> True | Some l' \<Rightarrow> leaderboard_ok l')"
  using update_leaderboard_ranked [OF assms, of ep account] ranked_ok [OF assms, of ep account]
  by (auto split: sum.splits option.splits)

text \<open>The end of a match: it never panics, and the storage is in order again.\<close>

lemma finish_mtc_ok:
  assumes inv: "contract_inv ct" and place: "1 \<le> toNumber place" "toNumber place \<le> 4"
    and h: "history \<noteq> []" "list_all (\<lambda>h. graded (gb_grade h)) history"
    and ep: "ct_player_ep ct player = Some old_ep"
  shows "\<exists>new_ep l known. finish_mtc cl player place history ct = Inr (known\<lparr>ct_leaderboard := l,
      ct_player_ep := (ct_player_ep ct)(player \<mapsto> new_ep),
      ct_player_mtc_immutable := (ct_player_mtc_immutable ct)(player := None),
      ct_player_mtc_mutable := (ct_player_mtc_mutable ct)(player := None)\<rparr>) \<and>
    calc_new_ep place old_ep = Inr new_ep \<and> 1 \<le> new_ep \<and> ghosts_known known \<and>
    (known = ct \<or> known = add_matchmaking_ghost cl player old_ep history ct) \<and>
    leaderboard_ok (case l of None \<Rightarrow> [] | Some l \<Rightarrow> l)"
proof -
  have "1 \<le> old_ep" using inv ep by (auto simp: contract_inv_def)
  then obtain new_ep where new_ep: "calc_new_ep place old_ep = Inr new_ep" "1 \<le> new_ep"
    using calc_new_ep_ok [OF place] by blast
  obtain r where r: "update_leaderboard (get_leaderboard ct) new_ep player = Inr r"
    "case r of None \<Rightarrow> True | Some l' \<Rightarrow> leaderboard_ok l'"
    using inv update_leaderboard_ok [of "get_leaderboard ct" new_ep player] unfolding contract_inv_def by blast
  let ?l = "case r of None \<Rightarrow> ct_leaderboard ct | Some l' \<Rightarrow> Some l'"
  have l: "leaderboard_ok (case ?l of None \<Rightarrow> [] | Some l \<Rightarrow> l)"
    using r(2) inv by (auto simp: contract_inv_def get_leaderboard_def split: option.splits)
  let ?known = "if gb_board (last history) \<noteq> [] then add_matchmaking_ghost cl player old_ep history ct else ct"
  have "ghosts_known ?known"
    using inv add_ghost_known h(2) by (simp add: contract_inv_def)
  moreover have "finish_mtc cl player place history ct = Inr (?known\<lparr>ct_leaderboard := ?l,
      ct_player_ep := (ct_player_ep ct)(player \<mapsto> new_ep),
      ct_player_mtc_immutable := (ct_player_mtc_immutable ct)(player := None),
      ct_player_mtc_mutable := (ct_player_mtc_mutable ct)(player := None)\<rparr>)"
    using ep new_ep(1) r(1) h(1)
    by (cases r) (simp_all add: finish_mtc_def or_trap_def add_matchmaking_ghost_def Let_def split: prod.split)
  ultimately show ?thesis
    using new_ep l by (intro exI conjI) auto
qed

lemma bindE_InrE: "bindE x f = Inr r \<Longrightarrow> (\<And>a. x = Inr a \<Longrightarrow> f a = Inr r \<Longrightarrow> P) \<Longrightarrow> P"
  by (auto simp: bindE_eq_Inr_iff)

lemma or_trap_eq_Inr_iff: "or_trap x = Inr a \<longleftrightarrow> x = Some a"
  by (cases x) (auto simp: or_trap_def)

text \<open>A shop that is finished, taken apart.\<close>

lemma finish_mtc_shop_parts:
  assumes "finish_mtc_shop rand march next_id cl ops ct = Inr ct'"
  shows "\<exists>bases pool ghosts m turn grade board seed board' grade' price new_seed health states place.
    ct_emo_bases ct = Some bases \<and> ct_player_mtc_immutable ct (cl_caller cl) = Some (pool, ghosts) \<and>
    ct_player_mtc_mutable ct (cl_caller cl) = Some m \<and>
    get_turn_and_previous_grade_and_board (pm_grade_and_board_history m) = Inr (turn, grade, board) \<and>
    ct_player_seed ct (cl_caller cl) = Some seed \<and>
    verify_player_operations_and_update rand next_id board grade (pm_upgrade_coin m) ops pool seed turn bases =
      Inr (board', grade', price) \<and>
    battle_all march board' (pm_health m) (pm_ghost_states m) grade' (ghosts_or_default ghosts)
      (pm_battle_ghost_index m) turn new_seed bases = Inr (health, states, place) \<and>
    update_for_finish_mtc_shop rand cl (cl_caller cl) grade' board' new_seed
      (m\<lparr>pm_health := health, pm_ghost_states := states, pm_upgrade_coin := price\<rparr>) place ct = Inr ct'"
  using assms
  unfolding finish_mtc_shop_def Let_def
  apply (simp (no_asm_use) only: bindE_eq_Inr_iff or_trap_eq_Inr_iff unwrap_eq_Inr_iff split_paired_Ex prod.case)
  apply (elim exE conjE)
  apply (intro exI conjI)
         apply assumption+
  done

lemma finish_mtc_turn_inv:
  assumes "rand_ok rand" "contract_inv ct" "ct_player_mtc_mutable ct p \<noteq> None"
    and m: "length (pm_grade_and_board_history m) < 40"
      "list_all (\<lambda>h. graded (gb_grade h)) (pm_grade_and_board_history m)" "pm_health m \<noteq> 0"
      "length (pm_ghost_states m) = 3" "list_ex is_active (pm_ghost_states m)"
    and "finish_mtc_turn rand p m new_seed ct = Inr ct'"
  shows "contract_inv ct'"
proof -
  obtain i where i: "select_battle_ghost_index rand (pm_ghost_states m) (pm_battle_ghost_index m) new_seed = Inr i"
    "toNumber i < 3" "is_active (pm_ghost_states m ! toNumber i)"
    using select_battle_ghost_index_active [OF assms(1), of "pm_ghost_states m"] m(4,5) by fastforce
  let ?m = "m\<lparr>pm_upgrade_coin := decrease_upgrade_coin (pm_upgrade_coin m), pm_battle_ghost_index := i\<rparr>"
  have "ct' = ct\<lparr>ct_player_mtc_mutable := (ct_player_mtc_mutable ct)(p \<mapsto> ?m)\<rparr>"
    using assms(9) i(1)
    by (auto simp: finish_mtc_turn_def update_player_mtc_mutable_after_battle_def mapR_eq_Inr_iff unwrap_eq_Inr_iff)
  moreover have "mutable_ok ?m"
    using m i by (simp add: mutable_ok_def)
  ultimately show ?thesis
    using assms(2,3) unfolding contract_inv_def by auto
qed

lemma contract_seed_inv: "contract_inv ct \<Longrightarrow> contract_inv (ct\<lparr>ct_player_seed := (ct_player_seed ct)(p \<mapsto> seed)\<rparr>)"
  by (auto simp: contract_inv_def)

lemma finish_mtc_inv:
  assumes "contract_inv ct" "1 \<le> toNumber place" "toNumber place \<le> 4"
    "history \<noteq> []" "list_all (\<lambda>h. graded (gb_grade h)) history"
    "finish_mtc cl player place history ct = Inr ct'"
  shows "contract_inv ct'"
proof -
  obtain old_ep where "ct_player_ep ct player = Some old_ep"
    using assms(6) by (auto simp: finish_mtc_def or_trap_def split: option.splits)
  then obtain new_ep l known where f: "finish_mtc cl player place history ct = Inr (known\<lparr>ct_leaderboard := l,
      ct_player_ep := (ct_player_ep ct)(player \<mapsto> new_ep),
      ct_player_mtc_immutable := (ct_player_mtc_immutable ct)(player := None),
      ct_player_mtc_mutable := (ct_player_mtc_mutable ct)(player := None)\<rparr>)"
    and e: "1 \<le> new_ep" "ghosts_known known" "leaderboard_ok (case l of None \<Rightarrow> [] | Some l \<Rightarrow> l)"
    and known: "known = ct \<or> known = add_matchmaking_ghost cl player old_ep history ct"
    using finish_mtc_ok [OF assms(1-5), of player old_ep cl] by blast
  from f assms(6) have ct': "ct' = known\<lparr>ct_leaderboard := l,
      ct_player_ep := (ct_player_ep ct)(player \<mapsto> new_ep),
      ct_player_mtc_immutable := (ct_player_mtc_immutable ct)(player := None),
      ct_player_mtc_mutable := (ct_player_mtc_mutable ct)(player := None)\<rparr>" by simp
  have "ct_player_seed known = ct_player_seed ct"
    using known by (auto simp: add_matchmaking_ghost_def Let_def split: prod.split)
  then show ?thesis
    using e assms(1) unfolding ct' contract_inv_def get_leaderboard_def ghosts_known_def by (auto split: if_splits)
qed

text \<open>A finished shop leaves the storage in order, whether the match goes on or is over.\<close>

lemma finish_mtc_shop_inv:
  assumes "rand_ok rand" "contract_inv ct" "finish_mtc_shop rand march next_id cl ops ct = Inr ct'"
  shows "contract_inv ct'"
proof -
  obtain bases pool ghosts m turn grade board seed board' grade' price new_seed health states place where
    im: "ct_player_mtc_immutable ct (cl_caller cl) = Some (pool, ghosts)"
      "ct_player_mtc_mutable ct (cl_caller cl) = Some m"
    and t: "get_turn_and_previous_grade_and_board (pm_grade_and_board_history m) = Inr (turn, grade, board)"
    and v: "verify_player_operations_and_update rand next_id board grade (pm_upgrade_coin m) ops pool seed turn bases =
      Inr (board', grade', price)"
    and b: "battle_all march board' (pm_health m) (pm_ghost_states m) grade' (ghosts_or_default ghosts)
      (pm_battle_ghost_index m) turn new_seed bases = Inr (health, states, place)"
    and u: "update_for_finish_mtc_shop rand cl (cl_caller cl) grade' board' new_seed
      (m\<lparr>pm_health := health, pm_ghost_states := states, pm_upgrade_coin := price\<rparr>) place ct = Inr ct'"
    using finish_mtc_shop_parts [OF assms(3)] by blast
  let ?h = "pm_grade_and_board_history m"
  let ?h' = "?h @ [\<lparr>gb_grade = grade', gb_board = board'\<rparr>]"
  let ?m = "m\<lparr>pm_health := health, pm_ghost_states := states, pm_upgrade_coin := price,
    pm_grade_and_board_history := ?h'\<rparr>"
  have m: "mutable_ok m" using assms(2) im(2) by (auto simp: contract_inv_def)
  then have h: "length ?h < 40" "list_all (\<lambda>h. graded (gb_grade h)) ?h"
    by (simp_all add: mutable_ok_def)
  have "graded grade"
    using t h(2) by (auto simp: get_turn_and_previous_grade_and_board_def Let_def graded_def list_all_iff split: if_splits)
  then have h': "list_all (\<lambda>h. graded (gb_grade h)) ?h'"
    using h(2) verify_graded [OF v] by simp
  have "(word_of_nat (length ?h) + 1 :: u8) < 40"
    using t by (auto simp: get_turn_and_previous_grade_and_board_def Let_def split: if_splits)
  moreover have "(word_of_nat (length ?h) + 1 :: u8) = word_of_nat (Suc (length ?h))" by simp
  ultimately have len: "length ?h' < 40"
    using h(1) by (simp add: word_less_nat_alt del: of_nat_Suc)
  note r = battle_all_result [OF b]
  have three: "length states = 3" "length (pm_ghost_states m) = 3" "length states = length (pm_ghost_states m)"
    using r m by (simp_all add: mutable_ok_def)
  have c: "case place of None \<Rightarrow> health \<noteq> 0 \<and> list_ex is_active states
    | Some p \<Rightarrow> 1 \<le> toNumber p \<and> toNumber p \<le> 4"
    using calc_final_place_cases [of states "pm_ghost_states m" health "pm_health m"] r three
    by (auto split: option.splits)
  obtain ct1 where ct': "ct' = ct1\<lparr>ct_player_seed := (ct_player_seed ct1)(cl_caller cl \<mapsto> new_seed)\<rparr>"
    and s: "(case place of
           Some place \<Rightarrow> finish_mtc cl (cl_caller cl) place ?h' ct
         | None \<Rightarrow> finish_mtc_turn rand (cl_caller cl) ?m new_seed ct) = Inr ct1"
    using u by (auto simp: update_for_finish_mtc_shop_def Let_def mapR_eq_Inr_iff cong: option.case_cong)
  have "contract_inv ct1"
  proof (cases place)
    case None
    then show ?thesis
      using finish_mtc_turn_inv [OF assms(1,2), of "cl_caller cl" ?m new_seed ct1] im(2) len h' c three s by simp
  next
    case (Some p)
    then show ?thesis
      using finish_mtc_inv [OF assms(2), of p ?h' cl "cl_caller cl" ct1] h' c s by simp
  qed
  then show ?thesis unfolding ct' by (rule contract_seed_inv)
qed

section \<open>Every storage that is reached is in order\<close>

lemma contract_frame:
  "contract_inv (ct\<lparr>ct_admins := a\<rparr>) = contract_inv ct"
  "contract_inv (ct\<lparr>ct_emo_bases := b, ct_deck_fixed_emo_base_ids := c, ct_deck_built_emo_base_ids := d\<rparr>) =
     contract_inv ct"
  by (simp_all add: contract_inv_def get_leaderboard_def ghosts_known_def)

lemma administration_inv:
  assumes "contract_inv ct"
  shows "add_admin cl a ct = Inr ct' \<Longrightarrow> contract_inv ct'"
    and "remove_admin cl a ct = Inr ct' \<Longrightarrow> contract_inv ct'"
    and "update_emo_bases cl new fixed built force ct = Inr ct' \<Longrightarrow> contract_inv ct'"
  using assms
  by (auto simp: contract_frame add_admin_def remove_admin_def update_emo_bases_def mapR_eq_Inr_iff
      bindE_eq_Inr_iff)

text \<open>A message to the contract, by any caller in any order; one that panics changes nothing.\<close>

inductive contract_step :: "'g ghost_rand \<Rightarrow> 'rng rand_crate \<Rightarrow> march \<Rightarrow> contract \<Rightarrow> contract \<Rightarrow> bool"
  for grand :: "'g ghost_rand" and rand :: "'rng rand_crate" and march :: march
where
  start: "start_mtc grand cl deck ct = Inr ct' \<Longrightarrow> contract_step grand rand march ct ct'"
| finish: "finish_mtc_shop rand march next_id cl ops ct = Inr ct' \<Longrightarrow> contract_step grand rand march ct ct'"
| admin: "add_admin cl a ct = Inr ct' \<Longrightarrow> contract_step grand rand march ct ct'"
| no_admin: "remove_admin cl a ct = Inr ct' \<Longrightarrow> contract_step grand rand march ct ct'"
| bases: "update_emo_bases cl new fixed built force ct = Inr ct' \<Longrightarrow> contract_step grand rand march ct ct'"

inductive contract_reached :: "'g ghost_rand \<Rightarrow> 'rng rand_crate \<Rightarrow> march \<Rightarrow> contract \<Rightarrow> bool"
  for grand :: "'g ghost_rand" and rand :: "'rng rand_crate" and march :: march
where
  deployed: "contract_reached grand rand march (new_contract cl)"
| sent: "contract_reached grand rand march ct \<Longrightarrow> contract_step grand rand march ct ct' \<Longrightarrow>
    contract_reached grand rand march ct'"

lemma contract_step_inv:
  assumes "ghost_rand_ok grand" "rand_ok rand" "contract_step grand rand march ct ct'" "contract_inv ct"
  shows "contract_inv ct'"
  using assms(3,4)
proof (induction rule: contract_step.induct)
  case (start cl deck ct ct')
  then show ?case using start_mtc_inv [OF assms(1)] by blast
next
  case (finish next_id cl ops ct ct')
  then show ?case using finish_mtc_shop_inv [OF assms(2)] by blast
qed (use administration_inv in blast)+

lemma contract_reached_inv:
  assumes "ghost_rand_ok grand" "rand_ok rand" "contract_reached grand rand march ct"
  shows "contract_inv ct"
  using assms(3)
  by (induction rule: contract_reached.induct) (use contract_step_inv [OF assms(1,2)] new_contract_inv in blast)+
end
