(* ===== verification/ContractConnection.thy ===== *)
theory ContractConnection
  imports Connection RustContract
begin

text \<open>
  The connection to the contract, \<open>front/src/components/App/ConnectionProvider/Contract/tasks.ts\<close>: each
  query of the front is a message of the contract, answered from its storage at that time, and the
  answer is decoded as the version of ink has it. The contract of the repository is written in version 4
  of ink; the deployment that \<open>envs/production.json\<close> names is of version 3. Both decodings are here.
\<close>

section \<open>Queries\<close>

text \<open>
  What a message that only reads returns: the value, or since version 4 of ink a result. The contract
  of this repository is written in version 4. A value that is decoded as what it is not, and \<open>asOk\<close> of
  an error, fail.
\<close>

datatype 'a ink_response = Ink_value 'a | Ink_result "unit + 'a"

definition respond :: "'a \<Rightarrow> 'a ink_response" where
  "respond a = Ink_result (Inr a)"

definition query :: "nat \<Rightarrow> 'a ink_response \<Rightarrow> 'a js" where
  "query inkVersion response =
     (if inkVersion = 3
      then (case response of Ink_value a \<Rightarrow> Inr a | Ink_result r \<Rightarrow> throwError ''createType'')
      else if inkVersion = 4
      then (case response of Ink_result (Inr a) \<Rightarrow> Inr a | Ink_result (Inl _) \<Rightarrow> throwError ''asOk''
             | Ink_value a \<Rightarrow> throwError ''createType'')
      else throwError (''undefined ink version: '' @ show_nat inkVersion))"

text \<open>The description the contract is called by, named by its deployment (\<open>common/js/src/contract.ts\<close>).\<close>

definition getGameContract :: "nat \<Rightarrow> string js" where
  "getGameContract inkVersion =
     (if inkVersion = 3 then Inr ''202109210_init''
      else if inkVersion = 4 then Inr ''202305270_ink4''
      else throwError (''undefined ink version: '' @ show_nat inkVersion))"

lemma query_respond [simp]: "query 4 (respond a) = Inr a"
  by (simp add: query_def respond_def)

text \<open>\<open>unwrapOrDefault\<close> of a ghost that is missing: the account of zeros and a ghost without history.\<close>

definition ghost_entry :: "nat \<Rightarrow> (string \<times> mtc_Ghost) option \<Rightarrow> (string \<times> mtc_Ghost) js" where
  "ghost_entry inkVersion x =
     (if inkVersion = 4 then Inr (case x of Some t \<Rightarrow> t | None \<Rightarrow> (zeroAddress, \<lparr>gh_history = []\<rparr>))
      else orTypeError x)"

definition query_playerMtcImmutable ::
  "nat \<Rightarrow> contract \<Rightarrow> string \<Rightarrow> (mtc_Emo list \<times> (string \<times> mtc_Ghost) list) js" where
  "query_playerMtcImmutable inkVersion ct address =
     bindE (query inkVersion (respond (ct_player_mtc_immutable ct address))) (\<lambda>o'.
     bindE (orTypeError o') (\<lambda>codec.
       mapR (Pair (fst codec)) (mapE (ghost_entry inkVersion) (snd codec))))"

section \<open>The connection\<close>

text \<open>\<open>send\<close> runs a message as a transaction; \<open>encodeAddress\<close> is that of the node's registry.\<close>

definition contract_buildConnection ::
  "nat \<Rightarrow> (string \<Rightarrow> string) \<Rightarrow> 'signer contract_tx \<Rightarrow> contract \<Rightarrow> 'signer Connection js" where
  "contract_buildConnection inkVersion encodeAddress send ct =
     bindE (getGameContract inkVersion) (\<lambda>_.
     bindE (query inkVersion (respond (ct_emo_bases ct))) (\<lambda>bases.
     mapR (\<lambda>codec.
         \<lparr>cn_kind = Kind_contract,
          cn_deckFixedEmoBaseIds =
            bindE (query inkVersion (respond (ct_deck_fixed_emo_base_ids ct))) orTypeError,
          cn_deckBuiltEmoBaseIds =
            bindE (query inkVersion (respond (ct_deck_built_emo_base_ids ct))) orTypeError,
          cn_matchmakingGhostsInfo = (\<lambda>band. query inkVersion (respond
            (map_option (map (\<lambda>(n, a). (toNumber n, a)))
              (ct_matchmaking_ghosts_info ct (word_of_nat band))))),
          cn_matchmakingGhostByIndex = (\<lambda>band index. query inkVersion (respond
            (ct_matchmaking_ghost_by_index ct (word_of_nat band, word_of_nat index)))),
          cn_leaderboard = query inkVersion (respond (get_leaderboard ct)),
          cn_playerEp = (\<lambda>address. query inkVersion (respond (ct_player_ep ct address))),
          cn_playerSeed = (\<lambda>address. query inkVersion (respond (ct_player_seed ct address))),
          cn_playerMtcImmutable = query_playerMtcImmutable inkVersion ct,
          cn_playerMtcMutable = (\<lambda>address. query inkVersion (respond (ct_player_mtc_mutable ct address))),
          cn_startMtc = contract_startMtc send, cn_finishMtcShop = contract_finishMtcShop send,
          cn_emoBases = buildEmoBases codec, cn_transformAddress = encodeAddress\<rparr>)
       (orTypeError bases)))"

lemma query_playerMtcImmutable_4:
  "query_playerMtcImmutable 4 ct address =
     (case ct_player_mtc_immutable ct address of
        None \<Rightarrow> orTypeError None
      | Some (pool, ghosts) \<Rightarrow>
          Inr (pool, map (\<lambda>x. case x of Some t \<Rightarrow> t | None \<Rightarrow> (zeroAddress, \<lparr>gh_history = []\<rparr>)) ghosts))"
proof -
  have "mapE (ghost_entry 4) ghosts =
      Inr (map (\<lambda>x. case x of Some t \<Rightarrow> t | None \<Rightarrow> (zeroAddress, \<lparr>gh_history = []\<rparr>)) ghosts)" for ghosts
    by (induction ghosts) (simp_all add: ghost_entry_def)
  then show ?thesis
    by (auto simp: query_playerMtcImmutable_def split: option.splits)
qed

text \<open>With the version of the contract, a connection answers with what the storage holds.\<close>

lemma contract_connection_4:
  assumes "contract_buildConnection 4 encodeAddress send ct = Inr connection"
  shows "cn_kind connection = Kind_contract" "\<exists>codec. ct_emo_bases ct = Some codec \<and> cn_emoBases connection = buildEmoBases codec"
    "cn_playerEp connection a = Inr (ct_player_ep ct a)" "cn_playerSeed connection a = Inr (ct_player_seed ct a)"
    "cn_playerMtcImmutable connection a = query_playerMtcImmutable 4 ct a"
    "cn_playerMtcMutable connection a = Inr (ct_player_mtc_mutable ct a)"
    "cn_leaderboard connection = Inr (get_leaderboard ct)" "cn_transformAddress connection = encodeAddress"
  using assms by (auto simp: contract_buildConnection_def getGameContract_def mapR_eq_Inr_iff orTypeError_eq_Inr_iff)

end
