(* ===== verification/MatchEnd.thy ===== *)
theory MatchEnd
  imports MatchFlowFacts
begin

text \<open>
  The end of a match whose battles are decided: each battle takes health from the player or from a
  ghost, so that a match is over after as many battles as there is health.
\<close>

section \<open>A decided battle\<close>

text \<open>A battle ends with grades left on one side; so does that of a turn, which its seed plays.\<close>

definition battle_won :: "march \<Rightarrow> EmoBases \<Rightarrow> mtc_Board \<Rightarrow> u64 \<Rightarrow> mtc_GhostBoard \<Rightarrow> bool" where
  "battle_won march bases board seed ghost_board \<longleftrightarrow>
     (case march_pvg march board ghost_board seed (bs_codec bases) of
        Inl _ \<Rightarrow> False
      | Inr (b0, b1, logs) \<Rightarrow> b0 \<noteq> 0 \<or> b1 \<noteq> 0)"

definition battle_decided :: "march \<Rightarrow> EmoBases \<Rightarrow> MtcState \<Rightarrow> bool" where
  "battle_decided march bases s \<longleftrightarrow>
     (case (parse_u64 (ms_seed s), get_grade_and_ghost_board (gh_history (ms_ghosts s ! ms_battleGhostIndex s))
         (ms_ghostStates s ! ms_battleGhostIndex s) (word_of_nat (ms_turn s))) of
        (Some n, Inr gg) \<Rightarrow> battle_won march bases (ms_board s) n (gg_board gg)
      | _ \<Rightarrow> True)"

definition alive :: "mtc_GhostState \<Rightarrow> bool" where
  "alive s \<longleftrightarrow> (case s of GhostState_Active (mtc_GhostState_Active h) \<Rightarrow> h \<noteq> 0 | _ \<Rightarrow> True)"

definition total_health :: "MtcState \<Rightarrow> nat" where
  "total_health s = ms_health s + sum_list (map getHealthFromState (ms_ghostStates s))"

lemma weakened_alive: "weakened t s s' \<Longrightarrow> alive s \<Longrightarrow> alive s'"
  by (auto simp: weakened_def damage_ghost_health_def alive_def Let_def
      split: mtc_GhostState.splits mtc_GhostState_Active.splits)

lemma damage_health_word_le: "toNumber (damage_health b g h) \<le> toNumber h"
  using damage_health_le by (simp add: word_le_nat_alt)

lemma damage_ghost_health_le:
  "getHealthFromState (damage_ghost_health b g t s) \<le> getHealthFromState s"
proof (cases s)
  case (GhostState_Active a)
  then show ?thesis
    using damage_health_word_le
    by (cases a) (auto simp: damage_ghost_health_def getHealthFromState_def Let_def)
qed (auto simp: damage_ghost_health_def)

lemma weakened_health: "weakened t s s' \<Longrightarrow> getHealthFromState s' \<le> getHealthFromState s"
  using damage_ghost_health_le by (auto simp: weakened_def)

lemma falls: "0 < h \<Longrightarrow> 0 < b \<Longrightarrow> nat (int h - (int b + int g)) < h"
  by linarith

lemma damage_health_less:
  assumes "toNumber b + toNumber g < 256" "b \<noteq> 0" "h \<noteq> 0"
  shows "toNumber (damage_health b g h) < toNumber h"
  unfolding damage_health_nat [OF assms(1)]
  using falls [of "toNumber h" "toNumber b" "toNumber g"] assms(2,3) unat_gt_0 [of h] unat_gt_0 [of b]
  by (simp del: of_nat_unat)

lemma damage_ghost_less:
  assumes "toNumber b + toNumber g < 256" "b \<noteq> 0" "is_active s" "alive s"
  shows "getHealthFromState (damage_ghost_health b g t s) < getHealthFromState s"
proof -
  obtain a where "s = GhostState_Active a"
    using assms(3) by (auto simp: is_active_def split: mtc_GhostState.splits)
  then obtain h where s: "s = GhostState_Active (mtc_GhostState_Active h)"
    by (cases a) auto
  then have "0 < getHealthFromState s"
    using assms(4) unat_gt_0 [of h] by (simp add: alive_def getHealthFromState_def)
  then show ?thesis
    using unat_gt_0 [of b] assms(2) falls [of "getHealthFromState s" "toNumber b" "toNumber g"]
    by (simp add: damage_ghost_health_nat [OF assms(1)] del: of_nat_unat)
qed

text \<open>The sum of three healths falls when none rises and one falls.\<close>

lemma sum_3_less:
  assumes "length xs = 3" "length ys = 3" "\<forall>k<3. ys ! k \<le> (xs ! k :: nat)" "i < 3" "ys ! i < xs ! i"
  shows "sum_list ys < sum_list xs"
proof -
  obtain a b c a' b' c' where "xs = [a, b, c]" "ys = [a', b', c']"
    using assms(1,2) list_3 by metis
  with assms(3) [rule_format, of 0] assms(3) [rule_format, of 1] assms(3) [rule_format, of 2] assms(4,5)
  show ?thesis
    by (auto simp: less_3)
qed

lemma sum_3_le:
  assumes "length xs = 3" "length ys = 3" "\<forall>k<3. ys ! k \<le> (xs ! k :: nat)"
  shows "sum_list ys \<le> sum_list xs"
proof -
  obtain a b c a' b' c' where "xs = [a, b, c]" "ys = [a', b', c']"
    using assms(1,2) list_3 by metis
  with assms(3) [rule_format, of 0] assms(3) [rule_format, of 1] assms(3) [rule_format, of 2] show ?thesis
    by simp
qed

text \<open>A battle of a turn takes health.\<close>

definition ghosts_alive :: "MtcState \<Rightarrow> bool" where
  "ghosts_alive s \<longleftrightarrow> list_all alive (ms_ghostStates s)"

lemma battleAll_takes:
  assumes ok: "match_ok s" "list_all (ghost_ok bases) (ms_ghosts s)" "ms_grade s \<le> 6" "ghosts_alive s"
      "length (ms_board s) \<le> boardSize"
    and fair: "march_fair march" "bases_graded (bs_codec bases)" and dec: "battle_decided march bases s"
    and r: "battleAll march (ms_board s) (ms_grade s) (ms_health s) (ms_ghosts s) (ms_ghostStates s)
      (ms_battleGhostIndex s) (ms_turn s) (ms_seed s) bases = Inr (h, states, place)"
  shows "h + sum_list (map getHealthFromState states) < total_health s" "list_all alive states"
proof -
  let ?i = "ms_battleGhostIndex s" and ?states = "ms_ghostStates s"
  let ?ghost = "ms_ghosts s ! ?i" and ?t = "word_of_nat (ms_turn s) :: u8" and ?hw = "word_of_nat (ms_health s) :: u8"
  have len: "length (ms_ghosts s) = 3" "length ?states = 3" and i: "?i < 3" "is_active (?states ! ?i)"
    and health: "0 < ms_health s" "ms_health s < 256"
    using ok(1) by (simp_all add: match_ok_def)
  have iw: "toNumber (word_of_nat ?i :: u8) = ?i" using i(1) by simp
  have weak: "list_all2 (weakened ?t) ?states states"
    by (rule battleAll_weakened [OF ok(1) r])
  then have lens: "length states = 3" using len(2) list_all2_lengthD by fastforce
  from weak ok(4) show "list_all alive states"
    using weakened_alive by (fastforce simp: ghosts_alive_def list_all_length list_all2_conv_all_nth)
  from r obtain n hw where h: "h = toNumber hw" and n: "parse_u64 (ms_seed s) = Some n"
    and all: "battle_all march (ms_board s) ?hw ?states (word_of_nat (ms_grade s)) (ms_ghosts s) (word_of_nat ?i) ?t n
      (bs_codec bases) = Inr (hw, states, place)"
    by (auto simp: battleAll_def mapR_eq_Inr_iff with_seed_eq_Inr_iff)
  from battle_all_pvg(1) [OF all len] i iw obtain gg pb rb logs where
    gg: "get_grade_and_ghost_board (gh_history ?ghost) (?states ! ?i) ?t = Inr gg"
    and march: "march_pvg march (ms_board s) (gg_board gg) n (bs_codec bases) = Inr (pb, rb, logs)"
    and hw: "hw = damage_health rb (gg_grade gg) ?hw"
    and st: "states ! ?i = damage_ghost_health pb (word_of_nat (ms_grade s)) ?t (?states ! ?i)"
    by (auto simp: battle_pvg_def bindE_eq_Inr_iff mapR_eq_Inr_iff)
  have ghost: "ghost_ok bases ?ghost"
    using ok(2) i(1) len by (simp add: list_all_length)
  have f: "toNumber pb \<le> 42" "toNumber rb \<le> 42"
    using march_pvg_fair [OF fair _ ghost_grade_le(2) [OF gg ghost] march] ok(5) by (simp_all add: boardSize_def)
  have won: "pb \<noteq> 0 \<or> rb \<noteq> 0"
    using dec gg march n by (simp add: battle_decided_def battle_won_def)
  note grade = ghost_grade_le(1) [OF gg ghost]
  have le: "\<forall>k<3. map getHealthFromState states ! k \<le> map getHealthFromState ?states ! k"
    using weak weakened_health len(2) lens by (auto simp: list_all2_conv_all_nth)
  have hle: "h \<le> ms_health s"
    using damage_health_word_le [of rb "gg_grade gg" ?hw] health by (simp add: h hw)
  show "h + sum_list (map getHealthFromState states) < total_health s"
  proof (cases "rb = 0")
    case True
    have "alive (?states ! ?i)"
      using ok(4) i len by (simp add: ghosts_alive_def list_all_length)
    then have "getHealthFromState (states ! ?i) < getHealthFromState (?states ! ?i)"
      unfolding st by (intro damage_ghost_less) (use True won f(1) ok(3) i(2) in simp_all)
    then have "sum_list (map getHealthFromState states) < sum_list (map getHealthFromState ?states)"
      using sum_3_less [OF _ _ le i(1)] len lens i(1) by simp
    with hle show ?thesis by (simp add: total_health_def)
  next
    case False
    have "?hw \<noteq> 0"
      using health word_turn [of "ms_health s"] by simp
    then have "h < ms_health s"
      using damage_health_less [of rb "gg_grade gg" ?hw] False f(2) grade health by (simp add: h hw)
    then show ?thesis
      using sum_3_le [OF _ _ le] len lens by (simp add: total_health_def)
  qed
qed

lemma finishBattle_takes:
  assumes "match_ok s" "list_all (ghost_ok bases) (ms_ghosts s)" "ms_grade s \<le> 6" "ghosts_alive s"
      "length (ms_board s) \<le> boardSize" "march_fair march" "bases_graded (bs_codec bases)"
    and "battle_decided march bases s" "finishBattle (battleAll march) sel s bases = Inr (s', place)"
  shows "total_health s' < total_health s" "ghosts_alive s'"
  using finishBattle_states [OF assms(9)] battleAll_takes [OF assms(1-8)]
  by (auto simp: ghosts_alive_def total_health_def [of s'])

section \<open>A trial\<close>

text \<open>Thirty of the player, twenty of each ghost, and the first turn.\<close>

definition trial_bounded :: "'signer page \<Rightarrow> bool" where
  "trial_bounded p \<longleftrightarrow>
     (case (pg_phase p, pg_mtcState p) of
        (Some Phase_result, Some s) \<Rightarrow> ms_turn s \<le> 91
      | (_, Some s) \<Rightarrow> ms_turn s + total_health s \<le> 91 \<and> ghosts_alive s
      | _ \<Rightarrow> True)"

lemma same_total: "same_match s s' \<Longrightarrow> total_health s' = total_health s \<and> ms_turn s' = ms_turn s \<and>
  (ghosts_alive s' \<longleftrightarrow> ghosts_alive s)"
  by (simp add: same_match_def total_health_def ghosts_alive_def)

lemma trial_start_bounded:
  "buildMtcState connection rnd random = Inr s \<Longrightarrow> ms_turn s + total_health s \<le> 91 \<and> ghosts_alive s"
  by (auto simp: buildMtcState_def Let_def bindE_eq_Inr_iff mapR_eq_Inr_iff buildInitialMtcState_def
      total_health_def ghosts_alive_def alive_def initialGhostState_def getHealthFromState_def initialPlayerHealth_def
      split: if_splits option.splits)

text \<open>A step of a trial; the battle it finishes, when it finishes one, is decided.\<close>

definition decided_step :: "'rng shop_env \<Rightarrow> march \<Rightarrow> 'signer page \<Rightarrow> 'signer page \<Rightarrow> bool" where
  "decided_step env march p p' \<longleftrightarrow> trial_step env march (answers_ok env) p p' \<and>
     (case (pg_phase p, pg_mtcState p) of
        (Some Phase_battle, Some s) \<Rightarrow> battle_decided march (en_bases env) s
      | _ \<Rightarrow> True)"

lemma trial_step_bounded:
  assumes step: "decided_step env march p p'" and "trial_ok env p" "trial_bounded p"
    and "rand_ok (en_rand env)" "march_fair march" "bases_graded (bs_codec (en_bases env))"
  shows "trial_bounded p'"
  using step [unfolded decided_step_def, THEN conjunct1]
proof cases
  case (load connection rnd random s)
  then show ?thesis
    using trial_start_bounded [OF load(3)] enter_shop_frame
    by (fastforce simp: trial_setup_def trial_bounded_def)
next
  case (shop catalog sc sc')
  then show ?thesis
    using assms(2,3) same_total [OF shop_step_same [OF shop(4)]]
    by (auto simp: trial_ok_def page_ok_def trial_bounded_def step_shop_def split: option.splits)
next
  case (battle catalog sc v solution random)
  then show ?thesis
    using assms(2,3)
    by (auto simp: trial_ok_def page_ok_def trial_bounded_def trial_startBattle_def total_health_def
        ghosts_alive_def split: option.splits)
next
  case (finished s)
  then have b: "ms_turn s + total_health s \<le> 91" "ghosts_alive s" and ok: "state_ok (en_bases env) s"
    using assms(2,3) by (auto simp: trial_ok_def page_ok_def trial_bounded_def)
  from finished(3) obtain s' place where f: "finishBattle (battleAll march) (selectBattleGhostIndex (en_rand env)) s
      (en_bases env) = Inr (s', place)"
    by (auto simp: trial_finish_def bindE_eq_Inr_iff)
  have t: "total_health s' < total_health s" "ghosts_alive s'"
    using finishBattle_takes [OF _ _ _ b(2) _ assms(5,6) _ f] ok finished(1,2) step
    by (simp_all add: state_ok_def grade_ok_def decided_step_def)
  note cases = finishBattle_cases [OF f]
  show ?thesis
  proof (cases place)
    case None
    then have "enter_shop env s' p = Inr p'" using finished f by (simp add: trial_finish_def)
    then show ?thesis
      using None t b cases enter_shop_frame [of env s' p p'] by (simp add: trial_bounded_def)
  next
    case (Some n)
    then show ?thesis
      using finished f b cases by (auto simp: trial_finish_def trial_bounded_def)
  qed
next
  case again
  then show ?thesis by (simp add: trial_bounded_def trial_startAgain_def)
qed

lemma trial_run_bounded:
  assumes "(decided_step env march)\<^sup>*\<^sup>* trial_page p"
    and "rand_ok (en_rand env)" "bases_in_order (en_bases env)" "march_fair march"
      "bases_graded (bs_codec (en_bases env))"
  shows "trial_ok env p \<and> trial_bounded p"
  using assms(1)
proof (induction rule: rtranclp_induct)
  case base
  then show ?case by (simp add: trial_ok_def page_ok_def trial_page_def trial_bounded_def)
next
  case (step p q)
  then show ?case
    using trial_step_ok [OF step(2) [unfolded decided_step_def, THEN conjunct1] _ assms(2,3)]
      trial_step_bounded [OF step(2) _ _ assms(2,4,5)] by simp
qed


section \<open>A match that is played out\<close>

text \<open>What the shop of a turn leaves for its battle: the board, the grade and the seed.\<close>

record turn_choice =
  tc_board :: mtc_Board
  tc_grade :: nat
  tc_seed :: string

definition choose_turn :: "turn_choice \<Rightarrow> MtcState \<Rightarrow> MtcState" where
  "choose_turn c s = s\<lparr>ms_board := tc_board c, ms_grade := tc_grade c, ms_seed := tc_seed c\<rparr>"

fun play_out ::
  "march \<Rightarrow> 'rng rand_crate \<Rightarrow> EmoBases \<Rightarrow> turn_choice list \<Rightarrow> MtcState \<Rightarrow> nat option js" where
  "play_out march rand bases [] s = Inr None"
| "play_out march rand bases (c # cs) s =
     bindE (finishBattle (battleAll march) (selectBattleGhostIndex rand) (choose_turn c s) bases) (\<lambda>(s', place).
       case place of Some p \<Rightarrow> Inr (Some p) | None \<Rightarrow> play_out march rand bases cs s')"

text \<open>
  The boards a ghost may fight with, and a choice whose battle is decided against each of them; the
  ghosts' own battles return. \<open>battle_ready\<close> is what a turn keeps of the match.
\<close>

definition ghost_boards :: "mtc_Ghost list \<Rightarrow> mtc_GhostBoard list" where
  "ghost_boards ghosts = [] # concat (map (\<lambda>g. map gg_board (gh_history g)) ghosts)"

definition choice_ok :: "march \<Rightarrow> EmoBases \<Rightarrow> mtc_Ghost list \<Rightarrow> turn_choice \<Rightarrow> bool" where
  "choice_ok march bases ghosts c \<longleftrightarrow> length (tc_board c) \<le> boardSize \<and> tc_grade c \<le> 6 \<and>
     (case parse_u64 (tc_seed c) of
        None \<Rightarrow> False
      | Some n \<Rightarrow>
          list_all (battle_won march bases (tc_board c) n) (ghost_boards ghosts) \<and>
          list_all (\<lambda>b. list_all (\<lambda>b'. \<not> isl (march_gvg march b b' n (bs_codec bases))) (ghost_boards ghosts))
            (ghost_boards ghosts))"

definition battle_ready :: "EmoBases \<Rightarrow> MtcState \<Rightarrow> bool" where
  "battle_ready bases s \<longleftrightarrow> match_ok s \<and> ghosts_alive s \<and> list_all final_turn_ok (ms_ghostStates s) \<and>
     list_all (ghost_ok bases) (ms_ghosts s) \<and> 1 \<le> ms_turn s"

text \<open>What a choice made of a state: its battles return, the player's is decided.\<close>

definition chosen :: "march \<Rightarrow> EmoBases \<Rightarrow> MtcState \<Rightarrow> bool" where
  "chosen march bases s \<longleftrightarrow>
     choice_ok march bases (ms_ghosts s) \<lparr>tc_board = ms_board s, tc_grade = ms_grade s, tc_seed = ms_seed s\<rparr>"

lemma ghost_board_found:
  assumes "battle_ready bases s" "k < 3" "ms_turn s < 256"
  shows "\<exists>gg. get_grade_and_ghost_board (gh_history (ms_ghosts s ! k)) (ms_ghostStates s ! k) (word_of_nat (ms_turn s)) =
    Inr gg \<and> gg_board gg \<in> set (ghost_boards (ms_ghosts s))"
proof -
  have r: "final_turn_ok (ms_ghostStates s ! k)" "1 \<le> ms_turn s" "ms_ghosts s ! k \<in> set (ms_ghosts s)"
    using assms(1,2) by (simp_all add: battle_ready_def match_ok_def list_all_length)
  from grade_and_ghost_board_ok [OF r(2) assms(3) r(1), of "gh_history (ms_ghosts s ! k)"] obtain gg where
    "get_grade_and_ghost_board (gh_history (ms_ghosts s ! k)) (ms_ghostStates s ! k) (word_of_nat (ms_turn s)) = Inr gg"
    "gg = EMPTY_GRADE_AND_GHOST_BOARD \<or> gg \<in> set (gh_history (ms_ghosts s ! k))"
    by (auto simp: getGradeAndGhostBoard_def)
  with r(3) show ?thesis
    by (auto simp: ghost_boards_def EMPTY_GRADE_AND_GHOST_BOARD_def)
qed

lemma not_isl: "\<not> isl m \<Longrightarrow> \<exists>r. m = Inr r"
  by (cases m) auto

lemma battle_all_ok:
  assumes ready: "battle_ready bases s" "ms_turn s < 256" and dec: "chosen march bases s"
    and n: "parse_u64 (ms_seed s) = Some n"
  shows "\<exists>r. battle_all march (ms_board s) health (ms_ghostStates s) grade (ms_ghosts s)
    (word_of_nat (ms_battleGhostIndex s)) (word_of_nat (ms_turn s)) n (bs_codec bases) = Inr r"
proof -
  let ?i = "ms_battleGhostIndex s" and ?states = "ms_ghostStates s" and ?ghosts = "ms_ghosts s"
    and ?t = "word_of_nat (ms_turn s) :: u8"
  have len: "length ?ghosts = 3" "length ?states = 3" and i: "?i < 3" "is_active (?states ! ?i)"
    using ready(1) by (simp_all add: battle_ready_def match_ok_def)
  have pvg: "\<exists>r. battle_pvg march grade health (ms_board s) (?states ! k) (gh_history (?ghosts ! k)) ?t n
      (bs_codec bases) = Inr r" if k: "k < 3" for k
  proof -
    obtain gg where "get_grade_and_ghost_board (gh_history (?ghosts ! k)) (?states ! k) ?t = Inr gg"
      "gg_board gg \<in> set (ghost_boards ?ghosts)"
      using ghost_board_found [OF ready(1) k ready(2)] by blast
    moreover from this(2) dec n have "battle_won march bases (ms_board s) n (gg_board gg)"
      by (simp add: chosen_def choice_ok_def list_all_iff)
    then obtain r where "march_pvg march (ms_board s) (gg_board gg) n (bs_codec bases) = Inr r"
      by (auto simp: battle_won_def split: sum.splits)
    ultimately show ?thesis by (simp add: battle_pvg_def)
  qed
  have gvg: "\<exists>r. battle_gvg march (?states ! k) (gh_history (?ghosts ! k)) (?states ! l) (gh_history (?ghosts ! l)) ?t n
      (bs_codec bases) = Inr r" if kl: "k < 3" "l < 3" for k l
  proof -
    obtain gg where "get_grade_and_ghost_board (gh_history (?ghosts ! k)) (?states ! k) ?t = Inr gg"
      "gg_board gg \<in> set (ghost_boards ?ghosts)"
      using ghost_board_found [OF ready(1) kl(1) ready(2)] by blast
    moreover obtain gg' where "get_grade_and_ghost_board (gh_history (?ghosts ! l)) (?states ! l) ?t = Inr gg'"
      "gg_board gg' \<in> set (ghost_boards ?ghosts)"
      using ghost_board_found [OF ready(1) kl(2) ready(2)] by blast
    moreover from calculation(2,4) dec n have "\<not> isl (march_gvg march (gg_board gg) (gg_board gg') n (bs_codec bases))"
      by (simp add: chosen_def choice_ok_def list_all_iff)
    then obtain r where "march_gvg march (gg_board gg) (gg_board gg') n (bs_codec bases) = Inr r"
      using not_isl by blast
    ultimately show ?thesis by (simp add: battle_gvg_def)
  qed
  show ?thesis
  proof (cases "length (filter is_active ?states) > 1")
    case True
    obtain i1 i2 where sw: "swap_at 0 ?i [0..<3] = [?i, i1, i2]" "i1 < 3" "i2 < 3"
      using swap_3 [OF i(1)] by metis
    with pvg [OF i(1)] gvg [OF sw(2,3)] True len i show ?thesis
      by (auto simp: battle_all_def battle_pvg_and_gvg_def Let_def split: prod.splits)
  next
    case False
    then have "first_active ?states = Some ?i"
      using i len by (intro one_active) simp_all
    with pvg [OF i(1)] False len i show ?thesis
      by (auto simp: battle_all_def at_or_trap_def)
  qed
qed


lemma finishBattle_ok:
  assumes ready: "battle_ready bases s" "ms_turn s < 256" and dec: "chosen march bases s" and rand: "rand_ok rand"
  shows "\<exists>r. finishBattle (battleAll march) (selectBattleGhostIndex rand) s bases = Inr r"
proof -
  obtain n where n: "parse_u64 (ms_seed s) = Some n"
    using dec by (auto simp: chosen_def choice_ok_def split: option.splits)
  have len: "length (ms_ghostStates s) = 3"
    using ready(1) by (simp add: battle_ready_def match_ok_def)
  obtain r where "battle_all march (ms_board s) (word_of_nat (ms_health s)) (ms_ghostStates s)
      (word_of_nat (ms_grade s)) (ms_ghosts s) (word_of_nat (ms_battleGhostIndex s)) (word_of_nat (ms_turn s)) n
      (bs_codec bases) = Inr r"
    using battle_all_ok [OF ready dec n] by blast
  then obtain h states place where all: "battle_all march (ms_board s) (word_of_nat (ms_health s))
      (ms_ghostStates s) (word_of_nat (ms_grade s)) (ms_ghosts s) (word_of_nat (ms_battleGhostIndex s))
      (word_of_nat (ms_turn s)) n (bs_codec bases) = Inr (h, states, place)"
    by (cases r) auto
  then have b: "battleAll march (ms_board s) (ms_grade s) (ms_health s) (ms_ghosts s) (ms_ghostStates s)
      (ms_battleGhostIndex s) (ms_turn s) (ms_seed s) bases = Inr (toNumber h, states, place)"
    by (simp add: battleAll_def with_seed_def n)
  have states: "length states = 3" "place = calc_final_place h (word_of_nat (ms_health s)) states (ms_ghostStates s)"
    using battle_all_result [OF all] len by simp_all
  then have cases: "case place of None \<Rightarrow> h \<noteq> 0 \<and> list_ex is_active states
    | Some p \<Rightarrow> 1 \<le> toNumber p \<and> toNumber p \<le> 4 \<and> (toNumber p = 1 \<longleftrightarrow> \<not> list_ex is_active states) \<and>
        (toNumber p = 1 \<or> h = 0)"
    using calc_final_place_cases [of states "ms_ghostStates s" h "word_of_nat (ms_health s)"] len
    by (auto split: option.splits)
  show ?thesis
  proof (cases "place = None")
    case True
    have "list_ex is_active states"
      using cases True by simp
    then obtain i where "select_battle_ghost_index rand states (word_of_nat (ms_battleGhostIndex s)) n = Inr i"
      using select_battle_ghost_index_active [OF rand, of states] states(1) by fastforce
    then show ?thesis
      using True b n by (simp add: finishBattle_def selectBattleGhostIndex_def with_seed_def)
  next
    case False
    then obtain p where p: "place = Some p" by auto
    have "toNumber p \<noteq> 0"
      using cases p by auto
    then show ?thesis
      using b p by (simp add: finishBattle_def Let_def)
  qed
qed

lemma chosen_decided:
  assumes "battle_ready bases s" "ms_turn s < 256" "chosen march bases s"
  shows "battle_decided march bases s" "ms_grade s \<le> 6" "length (ms_board s) \<le> boardSize"
proof -
  obtain n where "parse_u64 (ms_seed s) = Some n"
    using assms(3) by (auto simp: chosen_def choice_ok_def split: option.splits)
  moreover obtain gg where "get_grade_and_ghost_board (gh_history (ms_ghosts s ! ms_battleGhostIndex s))
      (ms_ghostStates s ! ms_battleGhostIndex s) (word_of_nat (ms_turn s)) = Inr gg"
    "gg_board gg \<in> set (ghost_boards (ms_ghosts s))"
    using ghost_board_found [OF assms(1) _ assms(2)] assms(1) by (auto simp: battle_ready_def match_ok_def)
  ultimately show "battle_decided march bases s" "ms_grade s \<le> 6" "length (ms_board s) \<le> boardSize"
    using assms(3) by (simp_all add: battle_decided_def chosen_def choice_ok_def list_all_iff)
qed

lemma finishBattle_ready:
  assumes ready: "battle_ready bases s" "ms_turn s < 256" and dec: "chosen march bases s"
    and fair: "march_fair march" "bases_graded (bs_codec bases)" and rand: "rand_ok rand"
    and f: "finishBattle (battleAll march) (selectBattleGhostIndex rand) s bases = Inr (s', None)"
  shows "battle_ready bases s'" "ms_turn s' = ms_turn s + 1" "total_health s' < total_health s"
proof -
  have m: "match_ok s" using ready(1) by (simp add: battle_ready_def)
  from finishBattle_states [OF f] obtain h fp where
    "battleAll march (ms_board s) (ms_grade s) (ms_health s) (ms_ghosts s) (ms_ghostStates s)
      (ms_battleGhostIndex s) (ms_turn s) (ms_seed s) bases = Inr (h, ms_ghostStates s', fp)" by blast
  from weakened_list [OF battleAll_weakened [OF m this]] have "list_all final_turn_ok (ms_ghostStates s')"
    using word_turn [of "ms_turn s"] ready(1,2) by (simp add: battle_ready_def)
  moreover note takes = finishBattle_takes [OF m _ _ _ _ fair _ f] chosen_decided [OF ready dec]
  ultimately show "battle_ready bases s'" "ms_turn s' = ms_turn s + 1" "total_health s' < total_health s"
    using finishBattle_keeps [OF m rand f] finishBattle_cases [OF f] ready(1)
    by (auto simp: battle_ready_def)
qed

lemma chosen_choose: "chosen march bases (choose_turn c s) \<longleftrightarrow> choice_ok march bases (ms_ghosts s) c"
  by (cases c) (simp add: chosen_def choose_turn_def)

lemma play_out_ends:
  assumes fair: "march_fair march" "bases_graded (bs_codec bases)" and rand: "rand_ok rand"
  shows "battle_ready bases s \<Longrightarrow> ms_turn s + total_health s < 256 \<Longrightarrow> total_health s \<le> length cs \<Longrightarrow>
    list_all (choice_ok march bases (ms_ghosts s)) cs \<Longrightarrow>
    \<exists>p. play_out march rand bases cs s = Inr (Some p) \<and> 1 \<le> p \<and> p \<le> 4"
proof (induction cs arbitrary: s)
  case Nil
  then show ?case by (simp add: total_health_def battle_ready_def match_ok_def)
next
  case (Cons c cs)
  let ?s = "choose_turn c s"
  have s: "battle_ready bases ?s" "ms_turn ?s = ms_turn s" "total_health ?s = total_health s" "chosen march bases ?s"
    using Cons.prems chosen_choose [of march bases c s, symmetric]
    by (simp_all add: choose_turn_def battle_ready_def match_ok_def ghosts_alive_def
        total_health_def)
  have turn: "ms_turn ?s < 256" using Cons.prems(2) s(2) by simp
  obtain s' place where f: "finishBattle (battleAll march) (selectBattleGhostIndex rand) ?s bases = Inr (s', place)"
    using finishBattle_ok [OF s(1) turn s(4) rand] by auto
  have ghosts: "ms_ghosts s' = ms_ghosts s"
    using finishBattle_cases [OF f] by (simp add: choose_turn_def)
  show ?case
  proof (cases place)
    case None
    note next' = finishBattle_ready [OF s(1) turn s(4) fair rand f [unfolded None]]
    have "\<exists>p. play_out march rand bases cs s' = Inr (Some p) \<and> 1 \<le> p \<and> p \<le> 4"
      using next' s(2,3) Cons.prems ghosts by (intro Cons.IH) simp_all
    then show ?thesis using f None by simp
  next
    case (Some p)
    then show ?thesis
      using f finishBattle_keeps [OF _ rand f] s(1) by (auto simp: battle_ready_def)
  qed
qed

end
