(* ===== verification/Agreement.thy ===== *)
theory Agreement
  imports ContractRuns ContractConnection MatchEnd
begin

text \<open>
  The front and the contract play the same match: what the front keeps of it (\<open>MtcState\<close>) agrees with
  the storage of the contract from the start of the match to its end, whatever other players send in
  between. A turn at the contract replays the operations the front recorded and has the battles the
  front then shows.
\<close>

section \<open>The agreement\<close>

definition agrees :: "'rng shop_env \<Rightarrow> contract \<Rightarrow> string \<Rightarrow> MtcState \<Rightarrow> bool" where
  "agrees env ct player s \<longleftrightarrow>
     (\<exists>bases pool ghosts m seed.
        ct_emo_bases ct = Some bases \<and> same_bases bases env \<and>
        ct_player_mtc_immutable ct player = Some (pool, ghosts) \<and>
        ct_player_mtc_mutable ct player = Some m \<and> ct_player_seed ct player = Some seed \<and>
        ms_pool s = pool \<and> ms_ghosts s = ghosts_or_default ghosts \<and> length (ms_ghostAddresses s) = 3 \<and>
        ms_seed s = toStringU seed \<and> ms_health s = toNumber (pm_health m) \<and>
        ms_ghostStates s = pm_ghost_states m \<and> ms_battleGhostIndex s = toNumber (pm_battle_ghost_index m) \<and>
        ms_turn s = Suc (length (pm_grade_and_board_history m)) \<and>
        (if pm_grade_and_board_history m = [] then ms_grade s = 1 \<and> ms_board s = []
         else ms_grade s = toNumber (gb_grade (last (pm_grade_and_board_history m))) \<and>
           ms_board s = gb_board (last (pm_grade_and_board_history m))) \<and>
        price_ok (ms_grade s) (ms_upgradeCoin s) (pm_upgrade_coin m))"

lemma parse_toStringU [simp]: "parse_u64 (toStringU n) = Some n"
proof -
  have "show_nat (toNumber n) \<noteq> []" by simp
  then obtain c cs where s: "show_nat (toNumber n) = c # cs"
    by (cases "show_nat (toNumber n)") auto
  have digits: "\<forall>c\<in>set (show_nat (toNumber n)). digit_value c \<noteq> None"
    using show_nat_digits by blast
  then have "c \<noteq> CHR ''+''"
    using s by (auto simp: digit_value_def)
  then have "(case show_nat (toNumber n) of c # cs \<Rightarrow> if c = CHR ''+'' then cs else show_nat (toNumber n) | [] \<Rightarrow> []) =
      show_nat (toNumber n)"
    by (simp add: s)
  moreover have "\<not> list_ex (\<lambda>c. digit_value c = None) (show_nat (toNumber n))"
    using digits by (simp add: list_ex_iff)
  moreover have "toNumber n < 2 ^ 64"
    using unsigned_less [where ?'a = nat, of n] by simp
  ultimately show ?thesis
    using \<open>show_nat (toNumber n) \<noteq> []\<close> unfolding parse_u64_def toStringU_def Let_def
    by (simp only: parseInt10_show_nat simp_thms if_False option.case) simp
qed

text \<open>Both sides decrease the price of an upgrade by one after a battle.\<close>

lemma price_decreased:
  "price_ok grade upgradeCoin coin \<Longrightarrow>
     price_ok grade (map_option (\<lambda>c. max (c - 1) 0) upgradeCoin) (decrease_upgrade_coin coin)"
proof -
  have "int (toNumber (d - 1)) = int (toNumber d) - 1" if "0 < d" for d :: u8
  proof -
    have "0 < toNumber d" using that by (simp add: word_less_nat_alt)
    then show ?thesis using that by (subst unat_minus_one) (auto simp del: of_nat_unat)
  qed
  then show "price_ok grade upgradeCoin coin \<Longrightarrow> ?thesis"
    by (auto simp: price_ok_def decrease_upgrade_coin_def simp del: of_nat_unat split: option.splits)
qed

text \<open>What agrees is in order, when the storage of the contract is.\<close>

lemma agrees_ok:
  assumes "agrees env ct player s" "contract_inv ct"
  shows "match_ok s" "1 \<le> ms_grade s" "ms_grade s \<le> 6" "1 \<le> ms_turn s" "ms_turn s \<le> 40"
proof -
  obtain pool ghosts m where im: "ct_player_mtc_immutable ct player = Some (pool, ghosts)"
    "ct_player_mtc_mutable ct player = Some m"
    and s: "ms_ghosts s = ghosts_or_default ghosts" "length (ms_ghostAddresses s) = 3"
      "ms_health s = toNumber (pm_health m)" "ms_ghostStates s = pm_ghost_states m"
      "ms_battleGhostIndex s = toNumber (pm_battle_ghost_index m)"
      "ms_turn s = Suc (length (pm_grade_and_board_history m))"
      "if pm_grade_and_board_history m = [] then ms_grade s = 1 \<and> ms_board s = []
       else ms_grade s = toNumber (gb_grade (last (pm_grade_and_board_history m))) \<and>
         ms_board s = gb_board (last (pm_grade_and_board_history m))"
    using assms(1) unfolding agrees_def by blast
  have m: "mutable_ok m" and i: "immutable_ok (pool, ghosts)"
    using assms(2) im unfolding contract_inv_def by blast+
  show "match_ok s"
    using m i s unsigned_less [where ?'a = nat, of "pm_health m"]
    by (simp add: match_ok_def mutable_ok_def immutable_ok_def ghosts_or_default_def unat_gt_0 word_gt_0)
  have "graded (gb_grade (last (pm_grade_and_board_history m)))" if "pm_grade_and_board_history m \<noteq> []"
    using m that by (simp add: mutable_ok_def list_all_iff)
  then show "1 \<le> ms_grade s" "ms_grade s \<le> 6"
    using s(7) by (auto simp: graded_def word_le_nat_alt split: if_splits)
  show "1 \<le> ms_turn s" "ms_turn s \<le> 40"
    using m s(6) by (simp_all add: mutable_ok_def)
qed

section \<open>The start of a match\<close>

lemma start_agrees:
  fixes env :: "'rng shop_env"
  assumes rand: "ghost_rand_ok grand" and inv: "contract_inv ct"
    and start: "start_mtc grand cl deck ct = Inr ct'" "cl_caller cl = player"
    and conn: "contract_buildConnection 4 encodeAddress send ct' = Inr connection"
      "en_bases env = cn_emoBases connection" "\<And>bases. ct_emo_bases ct = Some bases \<Longrightarrow> bases_ok bases"
    and s: "start_state connection player previousEp = Inr s"
  shows "agrees env ct' player s"
  using start(1)
proof (rule start_mtc_storage)
  fix eps ep seed pool ghosts bases fixed built
  assume ct': "ct' = ct\<lparr>ct_player_ep := eps, ct_player_seed := (ct_player_seed ct)(cl_caller cl \<mapsto> seed),
      ct_player_mtc_immutable := (ct_player_mtc_immutable ct)(cl_caller cl \<mapsto> (pool, ghosts)),
      ct_player_mtc_mutable := (ct_player_mtc_mutable ct)(cl_caller cl \<mapsto>
        \<lparr>pm_health = PLAYER_INITIAL_HEALTH, pm_grade_and_board_history = [],
         pm_upgrade_coin = get_upgrade_coin 2, pm_ghost_states = build_contract_ghost_states ep,
         pm_battle_ghost_index = 0\<rparr>)\<rparr>"
    and g: "choose_ghosts grand ep seed (\<lambda>band. map_option (map snd) (ct_matchmaking_ghosts_info ct band))
      (ct_matchmaking_ghost_by_index ct) = Inr ghosts"
    and bases: "ct_emo_bases ct = Some bases"
  let ?ghosts = "map (\<lambda>x. case x of Some t \<Rightarrow> t | None \<Rightarrow> (zeroAddress, \<lparr>gh_history = []\<rparr>)) ghosts"
  have "length ghosts = 3"
    using choose_ghosts_ok [OF rand, of ct ep seed] inv g by (auto simp: contract_inv_def)
  moreover have "cn_playerSeed connection player = Inr (Some seed)"
    "cn_playerMtcImmutable connection player = Inr (pool, ?ghosts)"
    "cn_playerMtcMutable connection player = Inr (Some
      \<lparr>pm_health = PLAYER_INITIAL_HEALTH, pm_grade_and_board_history = [],
       pm_upgrade_coin = get_upgrade_coin 2, pm_ghost_states = build_contract_ghost_states ep,
       pm_battle_ghost_index = 0\<rparr>)"
    using contract_connection_4 [OF conn(1)] start(2) by (simp_all add: ct' query_playerMtcImmutable_4)
  moreover have "map snd ?ghosts = ghosts_or_default ghosts"
    by (auto simp: ghosts_or_default_def split: option.split)
  moreover have "same_bases bases env"
    using contract_connection_4(2) [OF conn(1)] conn(2,3) bases by (auto simp: same_bases_def ct')
  moreover have "price_ok 1 (map_option (\<lambda>c. int (toNumber c)) (get_upgrade_coin 2)) (get_upgrade_coin 2)"
    by (simp add: price_ok_def split: option.split)
  ultimately show ?thesis
    using s bases start(2)
    by (simp add: agrees_def start_state_def getSeed_def orTypeError_def buildInitialMtcState_def ct'
      del: of_nat_unat) auto
qed


section \<open>A turn\<close>

lemma turn_of_history:
  assumes "agrees env ct player s" "ct_player_mtc_mutable ct player = Some m" "ms_turn s < 40"
  shows "get_turn_and_previous_grade_and_board (pm_grade_and_board_history m) =
    Inr (word_of_nat (ms_turn s), word_of_nat (ms_grade s), ms_board s)"
proof -
  let ?h = "pm_grade_and_board_history m"
  have s: "ms_turn s = Suc (length ?h)" "if ?h = [] then ms_grade s = 1 \<and> ms_board s = []
      else ms_grade s = toNumber (gb_grade (last ?h)) \<and> ms_board s = gb_board (last ?h)"
    using assms(1,2) by (auto simp: agrees_def)
  have "(word_of_nat (length ?h) + 1 :: u8) = word_of_nat (ms_turn s)"
    by (simp add: s(1))
  moreover have "(word_of_nat (ms_turn s) :: u8) < 40"
    using assms(3) by (simp add: word_less_nat_alt)
  ultimately show ?thesis
    using s(2) unfolding get_turn_and_previous_grade_and_board_def Let_def by (auto split: if_splits)
qed

text \<open>The contract replays the operations of a shop into the board, the grade and the price of the front.\<close>

definition turn_seed :: "call \<Rightarrow> u64" where
  "turn_seed cl = cl_random cl ''finish_mtc_shop'' (cl_caller cl)"

lemma shop_accepted:
  fixes env :: "'rng shop_env"
  assumes "agrees env ct (cl_caller cl) s" "contract_inv ct" "by_position (shuffle_ids (en_rand env))"
    and shop: "mount_shop env s = Inr (catalog, sc0)" "paid_reaches (with_catalog env catalog) s shop_element sc"
      "sc_operation sc \<noteq> Operation_pre_shop" "length (st_playerOperations (sc_shopState sc)) < 200"
    and "ms_turn s < 40" "cl_caller_is_origin cl"
  shows "\<exists>m price bases pool ghosts. ct_player_mtc_mutable ct (cl_caller cl) = Some m \<and> ct_emo_bases ct = Some bases \<and>
    ct_player_mtc_immutable ct (cl_caller cl) = Some (pool, ghosts) \<and>
    price_ok (ms_grade (sc_mtcState sc)) (ms_upgradeCoin (sc_mtcState sc)) price \<and>
    finish_mtc_shop (en_rand env) march next_id cl (st_playerOperations (sc_shopState sc)) ct =
      bindE (unwrap (battle_all march (ms_board (sc_mtcState sc)) (word_of_nat (ms_health s)) (ms_ghostStates s)
        (word_of_nat (ms_grade (sc_mtcState sc))) (ms_ghosts s) (word_of_nat (ms_battleGhostIndex s))
        (word_of_nat (ms_turn s)) (turn_seed cl) (bs_codec (en_bases env)))) (\<lambda>(health, states, place).
        update_for_finish_mtc_shop (en_rand env) cl (cl_caller cl) (word_of_nat (ms_grade (sc_mtcState sc)))
          (ms_board (sc_mtcState sc)) (turn_seed cl)
          (m\<lparr>pm_health := health, pm_ghost_states := states, pm_upgrade_coin := price\<rparr>) place ct)"
proof -
  obtain bases pool ghosts m seed where ct: "ct_emo_bases ct = Some bases" "same_bases bases env"
      "ct_player_mtc_immutable ct (cl_caller cl) = Some (pool, ghosts)"
      "ct_player_mtc_mutable ct (cl_caller cl) = Some m" "ct_player_seed ct (cl_caller cl) = Some seed"
    and s: "ms_pool s = pool" "ms_ghosts s = ghosts_or_default ghosts" "ms_seed s = toStringU seed"
      "ms_health s = toNumber (pm_health m)" "ms_ghostStates s = pm_ghost_states m"
      "ms_battleGhostIndex s = toNumber (pm_battle_ghost_index m)"
    and price: "price_ok (ms_grade s) (ms_upgradeCoin s) (pm_upgrade_coin m)"
    using assms(1) unfolding agrees_def by blast
  note ok = agrees_ok [OF assms(1,2)]
  have "get_catalog (en_rand env) pool (ms_board s) seed = Inr catalog"
    using shop(1) s(1,3) by (auto simp: mount_shop_def getCatalog_def with_seed_def bindE_eq_Inr_iff mapR_eq_Inr_iff
        unwrap_eq_Inr_iff)
  then have "held bases pool seed (pm_upgrade_coin m) (with_catalog env catalog) s"
    using ct(2) s(3) price ok(2-4) assms(8) by (simp add: held_def same_bases_def)
  from replay_accepts [OF shop(2-4) this, of next_id] assms(3) obtain price' where
    v: "verify_player_operations_and_update (en_rand env) next_id (ms_board s) (word_of_nat (ms_grade s))
      (pm_upgrade_coin m) (st_playerOperations (sc_shopState sc)) pool seed (word_of_nat (ms_turn s)) bases =
      Inr (ms_board (sc_mtcState sc), word_of_nat (ms_grade (sc_mtcState sc)), price')"
    and price': "price_ok (ms_grade (sc_mtcState sc)) (ms_upgradeCoin (sc_mtcState sc)) price'"
    by auto
  have "finish_mtc_shop (en_rand env) march next_id cl (st_playerOperations (sc_shopState sc)) ct =
      bindE (unwrap (battle_all march (ms_board (sc_mtcState sc)) (word_of_nat (ms_health s)) (ms_ghostStates s)
        (word_of_nat (ms_grade (sc_mtcState sc))) (ms_ghosts s) (word_of_nat (ms_battleGhostIndex s))
        (word_of_nat (ms_turn s)) (turn_seed cl) (bs_codec (en_bases env)))) (\<lambda>(health, states, place).
        update_for_finish_mtc_shop (en_rand env) cl (cl_caller cl) (word_of_nat (ms_grade (sc_mtcState sc)))
          (ms_board (sc_mtcState sc)) (turn_seed cl)
          (m\<lparr>pm_health := health, pm_ghost_states := states, pm_upgrade_coin := price'\<rparr>) place ct)"
    using turn_of_history [OF assms(1) ct(4) assms(8)] same_bases_codec [OF ct(2)] ct s(2,4-6) v assms(9)
    by (simp add: finish_mtc_shop_def or_trap_def get_insecure_random_seed_def turn_seed_def Let_def)
  then show ?thesis
    using ct(1,3,4) price' by blast
qed

lemma paid_same: "paid_reaches env s element sc \<Longrightarrow> same_match s (sc_mtcState sc)"
proof -
  assume "paid_reaches env s element sc"
  then obtain sc0 where sc0: "shop_init s element = Inr sc0" "(paid_step env)\<^sup>*\<^sup>* sc0 sc"
    by (auto simp: paid_reaches_def)
  from sc0(2) show ?thesis
  proof (induction rule: rtranclp_induct)
    case base
    then show ?case
      using sc0(1) by (auto simp: shop_init_def start_operation_def same_match_def split: if_splits)
  next
    case (step y z)
    then have "shop_step env y z"
      using careful_is_step by (auto simp: paid_step_def)
    then show ?case
      using shop_step_same same_match_trans step.IH by blast
  qed
qed

text \<open>A grade that has a price is not the last, and none is passed.\<close>

definition grade_priced :: "MtcState \<Rightarrow> bool" where
  "grade_priced s \<longleftrightarrow> 1 \<le> ms_grade s \<and> ms_grade s \<le> 6 \<and> (ms_upgradeCoin s \<noteq> None \<longrightarrow> ms_grade s < 6)"

lemma next_price: "g < 6 \<Longrightarrow> get_upgrade_coin (word_of_nat (g + 2)) \<noteq> None \<Longrightarrow> g + 1 < 6"
proof -
  assume "g < 6" and price: "get_upgrade_coin (word_of_nat (g + 2)) \<noteq> None"
  then have "g + 2 \<in> {2, 3, 4, 5, 6, 7}" by auto
  moreover have "get_upgrade_coin (word_of_nat 7) = None" by (simp add: get_upgrade_coin_def)
  ultimately show ?thesis using price by auto
qed

lemma upgrade_priced: "upgradeFn sc = Inr sc' \<Longrightarrow> grade_priced (sc_mtcState sc) \<Longrightarrow> grade_priced (sc_mtcState sc')"
  using next_price [of "ms_grade (sc_mtcState sc)"]
  by (auto simp: upgradeFn_def grade_priced_def Let_def split: option.splits if_splits)

lemma shop_step_priced: "shop_step env sc sc' \<Longrightarrow> grade_priced (sc_mtcState sc) \<Longrightarrow> grade_priced (sc_mtcState sc')"
proof (erule shop_stepE)
  fix v a
  assume "grade_priced (sc_mtcState sc)" "perform a sc = Inr sc'"
  then show ?thesis
  proof (cases "a = Upgrade")
    case False
    with \<open>perform a sc = Inr sc'\<close> have "ms_grade (sc_mtcState sc') = ms_grade (sc_mtcState sc) \<and>
        ms_upgradeCoin (sc_mtcState sc') = ms_upgradeCoin (sc_mtcState sc)"
      by (cases a) (auto simp: perform_def next_catalog_line_def start_operation_def Let_def
          split: option.splits if_splits Operation.splits)
    with \<open>grade_priced (sc_mtcState sc)\<close> show ?thesis by (simp add: grade_priced_def)
  qed (auto simp: perform_def intro: upgrade_priced)
next
  fix next_id r element
  assume "grade_priced (sc_mtcState sc)" "finish_operation r element sc = Inr sc'"
  moreover from this(2) have "ms_grade (sc_mtcState sc') = ms_grade (sc_mtcState sc) \<and>
      ms_upgradeCoin (sc_mtcState sc') = ms_upgradeCoin (sc_mtcState sc)"
    using finishShop_frame(1) by (fastforce simp: finish_operation_def mapR_eq_Inr_iff)
  ultimately show ?thesis by (simp add: grade_priced_def)
qed

lemma paid_priced: "paid_reaches env s element sc \<Longrightarrow> grade_priced s \<Longrightarrow> grade_priced (sc_mtcState sc)"
proof -
  assume "paid_reaches env s element sc" "grade_priced s"
  then obtain sc0 where sc0: "shop_init s element = Inr sc0" "(paid_step env)\<^sup>*\<^sup>* sc0 sc"
    by (auto simp: paid_reaches_def)
  from sc0(2) show ?thesis
  proof (induction rule: rtranclp_induct)
    case base
    then show ?case
      using sc0(1) \<open>grade_priced s\<close>
      by (auto simp: shop_init_def start_operation_def grade_priced_def split: if_splits)
  next
    case (step y z)
    then have "shop_step env y z"
      using careful_is_step by (auto simp: paid_step_def)
    then show ?case
      using shop_step_priced step.IH by blast
  qed
qed

text \<open>The battle of the front, on the seed of the contract.\<close>

definition battle_state :: "call \<Rightarrow> screen \<Rightarrow> MtcState" where
  "battle_state cl sc = (sc_mtcState sc)\<lparr>ms_seed := toStringU (turn_seed cl)\<rparr>"

lemma battle_seeded:
  assumes "same_match s (sc_mtcState sc)"
  shows "battleAll march (ms_board (battle_state cl sc)) (ms_grade (battle_state cl sc)) (ms_health (battle_state cl sc))
      (ms_ghosts (battle_state cl sc)) (ms_ghostStates (battle_state cl sc)) (ms_battleGhostIndex (battle_state cl sc))
      (ms_turn (battle_state cl sc)) (ms_seed (battle_state cl sc)) bases =
    mapR (\<lambda>(h, states, place). (toNumber h, states, place))
      (unwrap (battle_all march (ms_board (sc_mtcState sc)) (word_of_nat (ms_health s)) (ms_ghostStates s)
        (word_of_nat (ms_grade (sc_mtcState sc))) (ms_ghosts s) (word_of_nat (ms_battleGhostIndex s))
        (word_of_nat (ms_turn s)) (turn_seed cl) (bs_codec bases)))"
  using assms by (simp add: battleAll_def with_seed_def battle_state_def same_match_def)

lemma update_goes_on:
  assumes "select_battle_ghost_index rand states (pm_battle_ghost_index m) n = Inr i"
  shows "update_for_finish_mtc_shop rand cl p grade board n
      (m\<lparr>pm_health := h, pm_ghost_states := states, pm_upgrade_coin := price\<rparr>) None ct =
    Inr (ct\<lparr>ct_player_mtc_mutable := (ct_player_mtc_mutable ct)(p \<mapsto>
        \<lparr>pm_health = h, pm_grade_and_board_history = pm_grade_and_board_history m @ [\<lparr>gb_grade = grade, gb_board = board\<rparr>],
         pm_upgrade_coin = decrease_upgrade_coin price, pm_ghost_states = states, pm_battle_ghost_index = i\<rparr>),
      ct_player_seed := (ct_player_seed ct)(p \<mapsto> n)\<rparr>)"
  using assms
  by (cases m) (simp add: update_for_finish_mtc_shop_def finish_mtc_turn_def update_player_mtc_mutable_after_battle_def Let_def)

lemma update_ends:
  assumes "contract_inv ct" "1 \<le> toNumber place" "toNumber place \<le> 4"
    and "ct_player_mtc_mutable ct player = Some m" "graded grade"
  shows "\<exists>ct' old_ep new_ep. update_for_finish_mtc_shop rand cl player grade board n
      (m\<lparr>pm_health := h, pm_ghost_states := states, pm_upgrade_coin := price\<rparr>) (Some place) ct = Inr ct' \<and>
    ct_player_seed ct' player = Some n \<and> ct_player_mtc_mutable ct' player = None \<and>
    ct_player_ep ct player = Some old_ep \<and> calc_new_ep place old_ep = Inr new_ep \<and>
    ct_player_ep ct' player = Some new_ep"
proof -
  let ?h = "pm_grade_and_board_history m @ [\<lparr>gb_grade = grade, gb_board = board\<rparr>]"
  have "mutable_ok m" and ep: "ct_player_ep ct player \<noteq> None"
    using assms(1,4) unfolding contract_inv_def by blast+
  then have "list_all (\<lambda>h. graded (gb_grade h)) ?h"
    using assms(5) by (simp add: mutable_ok_def)
  moreover obtain old_ep where old: "ct_player_ep ct player = Some old_ep"
    using ep by blast
  ultimately obtain new_ep l known where "finish_mtc cl player place ?h ct = Inr (known\<lparr>ct_leaderboard := l,
      ct_player_ep := (ct_player_ep ct)(player \<mapsto> new_ep),
      ct_player_mtc_immutable := (ct_player_mtc_immutable ct)(player := None),
      ct_player_mtc_mutable := (ct_player_mtc_mutable ct)(player := None)\<rparr>)"
    "calc_new_ep place old_ep = Inr new_ep"
    using finish_mtc_ok [OF assms(1-3), of ?h player old_ep cl] by blast
  with old show ?thesis
    by (simp add: update_for_finish_mtc_shop_def Let_def)
qed

lemma turn_result:
  assumes a: "agrees env ct (cl_caller cl) s" "contract_inv ct" "ct_player_mtc_mutable ct (cl_caller cl) = Some m"
    and f: "fin = bindE (Inr (h, states, place)) (\<lambda>(health, states, place).
        update_for_finish_mtc_shop (en_rand env) cl (cl_caller cl) (word_of_nat (ms_grade (sc_mtcState sc)))
          (ms_board (sc_mtcState sc)) (turn_seed cl)
          (m\<lparr>pm_health := health, pm_ghost_states := states, pm_upgrade_coin := price\<rparr>) place ct)"
    and b: "battleAll march (ms_board (battle_state cl sc)) (ms_grade (battle_state cl sc))
        (ms_health (battle_state cl sc)) (ms_ghosts (battle_state cl sc)) (ms_ghostStates (battle_state cl sc))
        (ms_battleGhostIndex (battle_state cl sc)) (ms_turn (battle_state cl sc)) (ms_seed (battle_state cl sc))
        (en_bases env) = Inr (toNumber h, states, place)"
    and same: "same_match s (sc_mtcState sc)"
    and price: "price_ok (ms_grade (sc_mtcState sc)) (ms_upgradeCoin (sc_mtcState sc)) price"
    and place: "case place of None \<Rightarrow> list_ex is_active states | Some p \<Rightarrow> 1 \<le> toNumber p \<and> toNumber p \<le> 4"
    and three: "length states = 3" and rand: "rand_ok (en_rand env)"
    and grade: "1 \<le> ms_grade (sc_mtcState sc)" "ms_grade (sc_mtcState sc) \<le> 6"
  shows "case finishBattle (battleAll march) (selectBattleGhostIndex (en_rand env)) (battle_state cl sc) (en_bases env) of
      Inl e \<Rightarrow> isl fin
    | Inr (s', place) \<Rightarrow>
        \<exists>ct'. fin = Inr ct' \<and>
          ct_player_seed ct' (cl_caller cl) = Some (turn_seed cl) \<and>
          (case place of
             None \<Rightarrow> agrees env ct' (cl_caller cl) s'
           | Some p \<Rightarrow> ct_player_mtc_mutable ct' (cl_caller cl) = None \<and>
               (\<exists>old_ep new_ep. ct_player_ep ct (cl_caller cl) = Some old_ep \<and>
                  calc_new_ep (word_of_nat p) old_ep = Inr new_ep \<and> ct_player_ep ct' (cl_caller cl) = Some new_ep))"
proof (cases place)
  case None
  let ?s = "battle_state cl sc"
  have index: "ms_battleGhostIndex s = toNumber (pm_battle_ghost_index m)"
    using a(1,3) by (auto simp: agrees_def)
  obtain i where i: "select_battle_ghost_index (en_rand env) states (pm_battle_ghost_index m) (turn_seed cl) = Inr i"
    using select_battle_ghost_index_active [OF rand, of states] place None three by fastforce
  then have "selectBattleGhostIndex (en_rand env) states (ms_battleGhostIndex ?s) (ms_seed ?s) = Inr (toNumber i)"
    using same index by (simp add: selectBattleGhostIndex_def with_seed_def battle_state_def same_match_def)
  then have fin: "finishBattle (battleAll march) (selectBattleGhostIndex (en_rand env)) ?s (en_bases env) =
      Inr (?s\<lparr>ms_health := toNumber h, ms_ghostStates := states, ms_turn := ms_turn ?s + 1,
        ms_upgradeCoin := map_option (\<lambda>c. max (c - 1) 0) (ms_upgradeCoin ?s), ms_battleGhostIndex := toNumber i\<rparr>, None)"
    using b None by (simp add: finishBattle_def)
  have "toNumber (word_of_nat (ms_grade (sc_mtcState sc)) :: u8) = ms_grade (sc_mtcState sc)"
    using grade by (simp add: unat_small)
  then show ?thesis
    using a same price_decreased [OF price] unfolding fin f None
    by (simp add: update_goes_on [OF i] agrees_def battle_state_def same_match_def) auto
next
  case (Some p)
  then have p: "1 \<le> toNumber p" "toNumber p \<le> 4" using place by simp_all
  then have fin: "finishBattle (battleAll march) (selectBattleGhostIndex (en_rand env)) (battle_state cl sc) (en_bases env) =
      Inr ((battle_state cl sc)\<lparr>ms_health := toNumber h, ms_ghostStates := states\<rparr>, Some (toNumber p))"
    using b Some by (simp add: finishBattle_def Let_def)
  have "graded (word_of_nat (ms_grade (sc_mtcState sc)))"
    using grade by (simp add: graded_def word_le_nat_alt unat_small)
  from update_ends [OF a(2) p a(3) this] show ?thesis
    unfolding fin f Some by simp blast
qed

text \<open>
  A turn: where the front's battle succeeds so does the message, and they agree on what comes of it; where
  it does not, the message is reverted.
\<close>

lemma turn_agrees:
  fixes env :: "'rng shop_env"
  assumes a: "agrees env ct (cl_caller cl) s" "contract_inv ct" "by_position (shuffle_ids (en_rand env))"
    and shop: "mount_shop env s = Inr (catalog, sc0)" "paid_reaches (with_catalog env catalog) s shop_element sc"
      "sc_operation sc \<noteq> Operation_pre_shop" "length (st_playerOperations (sc_shopState sc)) < 200"
    and c: "ms_turn s < 40" "cl_caller_is_origin cl" and rand: "rand_ok (en_rand env)"
  shows "case finishBattle (battleAll march) (selectBattleGhostIndex (en_rand env)) (battle_state cl sc) (en_bases env) of
      Inl e \<Rightarrow> isl (finish_mtc_shop (en_rand env) march next_id cl (st_playerOperations (sc_shopState sc)) ct)
    | Inr (s', place) \<Rightarrow>
        \<exists>ct'. finish_mtc_shop (en_rand env) march next_id cl (st_playerOperations (sc_shopState sc)) ct = Inr ct' \<and>
          ct_player_seed ct' (cl_caller cl) = Some (turn_seed cl) \<and>
          (case place of
             None \<Rightarrow> agrees env ct' (cl_caller cl) s'
           | Some p \<Rightarrow> ct_player_mtc_mutable ct' (cl_caller cl) = None \<and>
               (\<exists>old_ep new_ep. ct_player_ep ct (cl_caller cl) = Some old_ep \<and>
                  calc_new_ep (word_of_nat p) old_ep = Inr new_ep \<and> ct_player_ep ct' (cl_caller cl) = Some new_ep))"
proof -
  let ?player = "cl_caller cl" and ?s = "sc_mtcState sc" and ?n = "turn_seed cl"
  let ?ops = "st_playerOperations (sc_shopState sc)"
  obtain m price bases pool ghosts where m: "ct_player_mtc_mutable ct ?player = Some m"
    and b: "ct_emo_bases ct = Some bases" "ct_player_mtc_immutable ct ?player = Some (pool, ghosts)"
    and price: "price_ok (ms_grade ?s) (ms_upgradeCoin ?s) price"
    and f: "finish_mtc_shop (en_rand env) march next_id cl ?ops ct =
      bindE (unwrap (battle_all march (ms_board ?s) (word_of_nat (ms_health s)) (ms_ghostStates s)
        (word_of_nat (ms_grade ?s)) (ms_ghosts s) (word_of_nat (ms_battleGhostIndex s))
        (word_of_nat (ms_turn s)) ?n (bs_codec (en_bases env)))) (\<lambda>(health, states, place).
        update_for_finish_mtc_shop (en_rand env) cl ?player (word_of_nat (ms_grade ?s)) (ms_board ?s) ?n
          (m\<lparr>pm_health := health, pm_ghost_states := states, pm_upgrade_coin := price\<rparr>) place ct)"
    using shop_accepted [OF a shop c, of march next_id] by blast
  note same = paid_same [OF shop(2)]
  note ok = agrees_ok [OF a(1,2)]
  have "\<exists>d. price_ok (ms_grade s) (ms_upgradeCoin s) d"
    using a(1) unfolding agrees_def by blast
  then have "grade_priced s"
    using ok(2,3) by (auto simp: grade_priced_def price_ok_def)
  then have grade: "1 \<le> ms_grade ?s" "ms_grade ?s \<le> 6"
    using paid_priced [OF shop(2)] by (simp_all add: grade_priced_def)
  note seeded = battle_seeded [OF same, of march cl "en_bases env"]
  show ?thesis
  proof (cases "unwrap (battle_all march (ms_board ?s) (word_of_nat (ms_health s)) (ms_ghostStates s)
        (word_of_nat (ms_grade ?s)) (ms_ghosts s) (word_of_nat (ms_battleGhostIndex s))
        (word_of_nat (ms_turn s)) ?n (bs_codec (en_bases env)))")
    case (Inl e)
    then show ?thesis
      using f seeded by (simp add: finishBattle_def)
  next
    case (Inr r)
    obtain h states place where r: "r = (h, states, place)" by (cases r)
    have h: "battleAll march (ms_board (battle_state cl sc)) (ms_grade (battle_state cl sc))
        (ms_health (battle_state cl sc)) (ms_ghosts (battle_state cl sc)) (ms_ghostStates (battle_state cl sc))
        (ms_battleGhostIndex (battle_state cl sc)) (ms_turn (battle_state cl sc)) (ms_seed (battle_state cl sc))
        (en_bases env) = Inr (toNumber h, states, place)"
      unfolding seeded Inr r by simp
    have "battle_all march (ms_board ?s) (word_of_nat (ms_health s)) (ms_ghostStates s)
        (word_of_nat (ms_grade ?s)) (ms_ghosts s) (word_of_nat (ms_battleGhostIndex s))
        (word_of_nat (ms_turn s)) ?n (bs_codec (en_bases env)) = Inr (h, states, place)"
      using Inr r by (simp add: unwrap_eq_Inr_iff)
    note res = battle_all_result [OF this]
    have three: "length states = 3" "length (ms_ghostStates s) = 3"
      using res ok(1) by (simp_all add: match_ok_def)
    have place: "case place of None \<Rightarrow> list_ex is_active states | Some p \<Rightarrow> 1 \<le> toNumber p \<and> toNumber p \<le> 4"
      using calc_final_place_cases [of states "ms_ghostStates s" h "word_of_nat (ms_health s)"] res three
      by (auto split: option.splits)
    show ?thesis
      by (rule turn_result [OF a(1,2) m f [unfolded Inr r] h same price place three(1) rand grade])
  qed
qed

section \<open>Messages of others\<close>

text \<open>What the contract holds of a player's match.\<close>

definition same_match_stored :: "string \<Rightarrow> contract \<Rightarrow> contract \<Rightarrow> bool" where
  "same_match_stored player ct ct' \<longleftrightarrow>
     ct_emo_bases ct' = ct_emo_bases ct \<and> ct_player_mtc_immutable ct' player = ct_player_mtc_immutable ct player \<and>
     ct_player_mtc_mutable ct' player = ct_player_mtc_mutable ct player \<and>
     ct_player_seed ct' player = ct_player_seed ct player"

lemma agrees_frame: "same_match_stored player ct ct' \<Longrightarrow> agrees env ct player s \<Longrightarrow> agrees env ct' player s"
  by (simp add: same_match_stored_def agrees_def)

lemma start_of_other:
  assumes "start_mtc grand cl deck ct = Inr ct'" "cl_caller cl \<noteq> player"
  shows "same_match_stored player ct ct'"
  using assms(1) by (rule start_mtc_storage) (use assms(2) in \<open>simp add: same_match_stored_def\<close>)

lemma add_ghost_stored: "same_match_stored player ct (add_matchmaking_ghost cl p ep history ct)"
  by (simp add: same_match_stored_def add_matchmaking_ghost_def Let_def split: prod.split)

lemma finish_mtc_of_other:
  assumes "finish_mtc cl p place history ct = Inr ct'" "p \<noteq> player"
  shows "same_match_stored player ct ct'"
proof -
  obtain old_ep new_ep l where "ct_player_ep ct p = Some old_ep" "calc_new_ep place old_ep = Inr new_ep"
    "update_leaderboard (get_leaderboard ct) new_ep p = Inr l" "history \<noteq> []"
    using assms(1) by (auto simp: finish_mtc_def bindE_eq_Inr_iff or_trap_eq_Inr_iff Let_def split: if_splits)
  with assms show ?thesis
    by (cases l) (auto simp: finish_mtc_def or_trap_def same_match_stored_def add_matchmaking_ghost_def Let_def
        split: prod.splits if_splits)
qed

lemma finish_of_other:
  assumes "finish_mtc_shop rand march next_id cl ops ct = Inr ct'" "cl_caller cl \<noteq> player"
  shows "same_match_stored player ct ct'"
proof -
  obtain grade board new_seed m place where
    "update_for_finish_mtc_shop rand cl (cl_caller cl) grade board new_seed m place ct = Inr ct'"
    using finish_mtc_shop_parts [OF assms(1)] by blast
  then obtain ct1 where ct': "ct' = ct1\<lparr>ct_player_seed := (ct_player_seed ct1)(cl_caller cl \<mapsto> new_seed)\<rparr>"
    and "(\<exists>p h. finish_mtc cl (cl_caller cl) p h ct = Inr ct1) \<or> (\<exists>m. finish_mtc_turn rand (cl_caller cl) m new_seed ct = Inr ct1)"
    by (cases place) (auto simp: update_for_finish_mtc_shop_def Let_def mapR_eq_Inr_iff)
  then have "same_match_stored player ct ct1"
    using finish_mtc_of_other assms(2)
    by (auto simp: finish_mtc_turn_def mapR_eq_Inr_iff same_match_stored_def)
  then show ?thesis
    using assms(2) by (simp add: same_match_stored_def ct')
qed

section \<open>A match\<close>

text \<open>A shop that was played with its coins, up to the click on Battle; fewer than 200 operations are recorded.\<close>

definition shop_played :: "'rng shop_env \<Rightarrow> MtcState \<Rightarrow> screen \<Rightarrow> bool" where
  "shop_played env s sc \<longleftrightarrow>
     (\<exists>catalog sc0. mount_shop env s = Inr (catalog, sc0) \<and>
        paid_reaches (with_catalog env catalog) s shop_element sc) \<and>
     sc_operation sc \<noteq> Operation_pre_shop \<and> length (st_playerOperations (sc_shopState sc)) < 200"

definition front_battle :: "march \<Rightarrow> 'rng shop_env \<Rightarrow> call \<Rightarrow> screen \<Rightarrow> (MtcState \<times> nat option) js" where
  "front_battle march env cl sc =
     finishBattle (battleAll march) (selectBattleGhostIndex (en_rand env)) (battle_state cl sc) (en_bases env)"

text \<open>
  The match of a player: it is started on a contract that was reached by messages, and every turn is
  finished at the contract, by the recorded operations, and at the front. Others send what they like in
  between, but nobody changes the bases of emojis.
\<close>

inductive played ::
  "'g ghost_rand \<Rightarrow> 'rng shop_env \<Rightarrow> march \<Rightarrow> (string \<Rightarrow> string) \<Rightarrow> string \<Rightarrow> contract \<Rightarrow> MtcState \<Rightarrow> bool"
  for grand :: "'g ghost_rand" and env :: "'rng shop_env" and march :: march
    and encodeAddress :: "string \<Rightarrow> string" and player :: string
where
  started: "contract_reached grand (en_rand env) march ct \<Longrightarrow>
    list_all bases_ok (case ct_emo_bases ct of None \<Rightarrow> [] | Some bases \<Rightarrow> [bases]) \<Longrightarrow>
    start_mtc grand cl deck ct = Inr ct' \<Longrightarrow> cl_caller cl = player \<Longrightarrow>
    contract_buildConnection 4 encodeAddress send ct' = Inr (connection :: unit Connection) \<Longrightarrow>
    en_bases env = cn_emoBases connection \<Longrightarrow> start_state connection player previousEp = Inr s \<Longrightarrow>
    played grand env march encodeAddress player ct' s"
| turn: "played grand env march encodeAddress player ct s \<Longrightarrow> shop_played env s sc \<Longrightarrow> ms_turn s < 40 \<Longrightarrow>
    cl_caller cl = player \<Longrightarrow> cl_caller_is_origin cl \<Longrightarrow>
    finish_mtc_shop (en_rand env) march next_id cl (st_playerOperations (sc_shopState sc)) ct = Inr ct' \<Longrightarrow>
    front_battle march env cl sc = Inr (s', None) \<Longrightarrow> played grand env march encodeAddress player ct' s'"
| other_start: "played grand env march encodeAddress player ct s \<Longrightarrow> cl_caller cl \<noteq> player \<Longrightarrow>
    start_mtc grand cl deck ct = Inr ct' \<Longrightarrow> played grand env march encodeAddress player ct' s"
| other_finish: "played grand env march encodeAddress player ct s \<Longrightarrow> cl_caller cl \<noteq> player \<Longrightarrow>
    finish_mtc_shop (en_rand env) march next_id cl ops ct = Inr ct' \<Longrightarrow>
    played grand env march encodeAddress player ct' s"
| other_admin: "played grand env march encodeAddress player ct s \<Longrightarrow>
    add_admin cl a ct = Inr ct' \<or> remove_admin cl a ct = Inr ct' \<Longrightarrow>
    played grand env march encodeAddress player ct' s"

lemma admin_stored: "add_admin cl a ct = Inr ct' \<or> remove_admin cl a ct = Inr ct' \<Longrightarrow> same_match_stored player ct ct'"
  by (auto simp: same_match_stored_def add_admin_def remove_admin_def mapR_eq_Inr_iff)

lemma played_turn:
  fixes env :: "'rng shop_env"
  assumes "agrees env ct (cl_caller cl) s" "contract_inv ct" "by_position (shuffle_ids (en_rand env))"
    "rand_ok (en_rand env)" "shop_played env s sc" "ms_turn s < 40" "cl_caller_is_origin cl"
  shows "case front_battle march env cl sc of
      Inl e \<Rightarrow> isl (finish_mtc_shop (en_rand env) march next_id cl (st_playerOperations (sc_shopState sc)) ct)
    | Inr (s', place) \<Rightarrow>
        \<exists>ct'. finish_mtc_shop (en_rand env) march next_id cl (st_playerOperations (sc_shopState sc)) ct = Inr ct' \<and>
          ct_player_seed ct' (cl_caller cl) = Some (turn_seed cl) \<and>
          (case place of
             None \<Rightarrow> agrees env ct' (cl_caller cl) s'
           | Some p \<Rightarrow> ct_player_mtc_mutable ct' (cl_caller cl) = None \<and>
               (\<exists>old_ep new_ep. ct_player_ep ct (cl_caller cl) = Some old_ep \<and>
                  calc_new_ep (word_of_nat p) old_ep = Inr new_ep \<and> ct_player_ep ct' (cl_caller cl) = Some new_ep))"
proof -
  obtain catalog sc0 where "mount_shop env s = Inr (catalog, sc0)"
    "paid_reaches (with_catalog env catalog) s shop_element sc"
    "sc_operation sc \<noteq> Operation_pre_shop" "length (st_playerOperations (sc_shopState sc)) < 200"
    using assms(5) by (auto simp: shop_played_def)
  from turn_agrees [OF assms(1-3) this assms(6,7,4)] show ?thesis
    unfolding front_battle_def .
qed

lemma played_agrees:
  fixes env :: "'rng shop_env"
  assumes "played grand env march encodeAddress player ct s" "ghost_rand_ok grand" "rand_ok (en_rand env)"
    and "by_position (shuffle_ids (en_rand env))"
  shows "agrees env ct player s \<and> contract_inv ct"
  using assms(1)
proof (induction rule: played.induct)
  case (started ct cl deck ct' send connection previousEp s)
  have inv: "contract_inv ct"
    using contract_reached_inv [OF assms(2,3) started(1)] .
  have "bases_ok bases" if "ct_emo_bases ct = Some bases" for bases
    using started(2) that by simp
  from start_agrees [OF assms(2) inv started(3-6) this started(7)] start_mtc_inv [OF assms(2) inv started(3)]
  show ?case by blast
next
  case (turn ct s sc cl next_id ct' s')
  then have a: "agrees env ct (cl_caller cl) s" "contract_inv ct" by simp_all
  have "agrees env ct' (cl_caller cl) s'"
    using played_turn [OF a assms(4,3) turn.hyps(2,3,5), of march next_id] turn.hyps(6,7) by simp
  then show ?case
    using finish_mtc_shop_inv [OF assms(3) a(2) turn.hyps(6)] turn.hyps(4) by simp
next
  case (other_start ct s cl deck ct')
  then show ?case
    using agrees_frame [OF start_of_other] start_mtc_inv [OF assms(2)] by blast
next
  case (other_finish ct s cl next_id ops ct')
  then show ?case
    using agrees_frame [OF finish_of_other] finish_mtc_shop_inv [OF assms(3)] by blast
next
  case (other_admin ct s cl a ct')
  then show ?case
    using agrees_frame [OF admin_stored] administration_inv by blast
qed

section \<open>The checks of a development build never fire\<close>

lemma no_state_diff:
  assumes "agrees env ct player s" "1 < ms_turn s" "contract_buildConnection 4 encodeAddress send ct = Inr connection"
  shows "ensureNoStateDiff isDevelopment connection player (ms_health s) (ms_board s) = Inr ()"
proof -
  obtain m where "ct_player_mtc_mutable ct player = Some m" "ms_health s = toNumber (pm_health m)"
    "ms_turn s = Suc (length (pm_grade_and_board_history m))"
    "pm_grade_and_board_history m \<noteq> [] \<longrightarrow> ms_board s = gb_board (last (pm_grade_and_board_history m))"
    using assms(1) unfolding agrees_def by (metis (full_types))
  then show ?thesis
    using contract_connection_4(6) [OF assms(3), of player] assms(2)
    by (auto simp: ensureNoStateDiff_def orTypeError_def Let_def)
qed

lemma finished:
  assumes "ct_player_mtc_mutable ct player = None" "contract_buildConnection 4 encodeAddress send ct = Inr connection"
  shows "ensureFinished isDevelopment connection player = Inr ()"
  using contract_connection_4(6) [OF assms(2), of player] assms(1) by (simp add: ensureFinished_def)

end
