(* ===== verification/MatchExamples.thy ===== *)
theory MatchExamples
  imports MatchEnd Examples
begin

text \<open>
  Concrete values for the course of a match: a march that the rival always wins, a battle that is
  shown, and a trial from its start into its first shop.
\<close>

section \<open>A battle\<close>

definition sample_march :: march where
  "sample_march emos0 emos1 seed bases = Inr (0, 9, [])"

lemma sample_march_fair: "march_fair sample_march"
  by (simp add: march_fair_def sample_march_def)

lemma sample_bases_graded: "bases_graded (bs_codec sample_bases)"
  by (auto simp: bases_graded_def find_base_def sample_bases_def buildEmoBases_def sample_base_def split: if_splits)

text \<open>The player has five of health left and loses ten.\<close>

definition sample_weak :: MtcState where "sample_weak = sample_match\<lparr>ms_health := 5\<rparr>"

definition sample_boxes :: "node \<times> node" where
  "sample_boxes = (case Battle_screen ''me'' sample_weak of
     Inr v \<Rightarrow> snd (animateFinish 1 1 0 9 5 30 ([sample_element, sample_element], bv_playerBox v, bv_rivalBox v)))"

lemma sample_shown:
  "show_battle_screen (en_json sample_env) (en_emoNames sample_env) sample_march sample_bases ''me'' sample_weak
     sample_element sample_element = Inr ([sample_element, sample_element], sample_boxes)"
proof -
  obtain v where v: "Battle_screen ''me'' sample_weak = Inr v" "gg_grade (bv_rival v) = 1"
    "gg_board (bv_rival v) = []" "bv_rivalHealth v = 30"
  proof -
    have "case Battle_screen ''me'' sample_weak of Inl e \<Rightarrow> False | Inr v \<Rightarrow>
        gg_grade (bv_rival v) = 1 \<and> gg_board (bv_rival v) = [] \<and> bv_rivalHealth v = 30"
      by code_simp
    with that show thesis by (cases "Battle_screen ''me'' sample_weak") auto
  qed
  have "march_pvg sample_march [] [] 5 (bs_codec sample_bases) = Inr (0, 9, [])"
    by code_simp
  moreover have "animate (en_json sample_env) (en_emoNames sample_env) sample_bases sample_element sample_element
      [] [] [] = Inr [sample_element, sample_element]"
    by code_simp
  moreover have "fst (animateFinish 1 1 0 9 5 30 ([sample_element, sample_element], p, r)) =
      [sample_element, sample_element]" for p r
    by (simp add: animateFinish_def sample_element_def board_dom_def split: prod.splits)
  ultimately show ?thesis
    using v
    by (simp add: show_battle_screen_def play_def marchPvg_def with_seed_def parse_5 sample_boxes_def
        sample_weak_def sample_match_def prod_eq_iff)
qed

lemma sample_weak_counted:
  "\<exists>states place. battleAll sample_march (ms_board sample_weak) (ms_grade sample_weak) (ms_health sample_weak)
     (ms_ghosts sample_weak) (ms_ghostStates sample_weak) (ms_battleGhostIndex sample_weak) (ms_turn sample_weak)
     (ms_seed sample_weak) sample_bases = Inr (0, states, place)"
proof -
  have "case battle_all sample_march [] 5 build_initial_ghost_states 1 (replicate 3 \<lparr>gh_history = []\<rparr>) 0 2 5
     (bs_codec sample_bases) of Inl e \<Rightarrow> False | Inr (h, states, place) \<Rightarrow> h = 0"
    by code_simp
  then obtain states place where "battle_all sample_march [] 5 build_initial_ghost_states 1
      (replicate 3 \<lparr>gh_history = []\<rparr>) 0 2 5 (bs_codec sample_bases) = Inr (0, states, place)"
    by (auto split: sum.splits)
  then show ?thesis
    by (simp add: battleAll_def with_seed_def parse_5 sample_weak_def sample_match_def)
qed

lemma sample_weak_boxes: "box_health (fst sample_boxes) = Some ''-5''"
  by code_simp

lemma sample_weak_ok:
  "match_ok sample_weak" "ms_grade sample_weak \<le> 6" "list_all (ghost_ok sample_bases) (ms_ghosts sample_weak)"
  "length (ms_board sample_weak) \<le> boardSize"
  by code_simp+

section \<open>A trial\<close>

definition trial_base :: "u16 \<Rightarrow> emo_Base" where
  "trial_base i = \<lparr>eb_id = i, eb_typ = Typ_Food, eb_codepoint = 65, eb_grade = (if i = 7 then 1 else ucast i),
     eb_attack = 2, eb_health = 3, eb_abilities = []\<rparr>"

definition trial_bases :: EmoBases where
  "trial_bases = buildEmoBases (map (\<lambda>i. (i, trial_base i)) [1, 2, 3, 4, 5, 6, 7])"

definition trial_connection :: "unit Connection" where
  "trial_connection = \<lparr>cn_kind = Kind_contract, cn_deckFixedEmoBaseIds = Inr [7],
     cn_deckBuiltEmoBaseIds = Inr [1, 2, 3, 4, 5, 6],
     cn_matchmakingGhostsInfo = (\<lambda>_. Inr (Some [(300, ''a''), (310, ''b''), (320, ''c'')])),
     cn_matchmakingGhostByIndex = (\<lambda>_ _. Inr (Some \<lparr>gh_history = []\<rparr>)), cn_leaderboard = Inr [],
     cn_playerEp = (\<lambda>_. Inr None), cn_playerSeed = (\<lambda>_. Inr (Some 5)),
     cn_playerMtcImmutable = (\<lambda>_. Inr (map (\<lambda>i. \<lparr>me_id = word_of_nat i, me_base_id = 7\<rparr>) [1..<41],
       [(''a'', \<lparr>gh_history = []\<rparr>), (''b'', \<lparr>gh_history = []\<rparr>), (''c'', \<lparr>gh_history = []\<rparr>)])),
     cn_playerMtcMutable = (\<lambda>_. Inr (Some \<lparr>pm_health = 30, pm_grade_and_board_history = [],
       pm_upgrade_coin = Some 5, pm_ghost_states = build_initial_ghost_states, pm_battle_ghost_index = 0\<rparr>)),
     cn_startMtc = (\<lambda>_ _ _. Inr ()), cn_finishMtcShop = (\<lambda>_ _ _. Inr ()),
     cn_emoBases = trial_bases, cn_transformAddress = (\<lambda>a. a)\<rparr>"

definition trial_env :: "nat shop_env" where
  "trial_env = sample_env\<lparr>en_bases := trial_bases\<rparr>"

definition trial_state :: MtcState where
  "trial_state = projr (buildMtcState trial_connection (\<lambda>_. 0) 0)"

lemma trial_built: "buildMtcState trial_connection (\<lambda>_. 0) 0 = Inr trial_state"
proof -
  have "\<not> isl (buildMtcState trial_connection (\<lambda>_. 0) 0)"
    by code_simp
  then show ?thesis by (simp add: trial_state_def)
qed

lemma parse_0: "parse_u64 ''0'' = Some 0"
  by (simp add: parse_u64_def digit_value_def)

definition trial_catalog :: mtc_shop_Catalog where
  "trial_catalog = projr (get_catalog sample_rand (ms_pool trial_state) [] 0)"

lemma trial_catalog: "get_catalog sample_rand (ms_pool trial_state) [] 0 = Inr trial_catalog"
proof -
  have "\<not> isl (get_catalog sample_rand (ms_pool trial_state) [] 0)"
    by code_simp
  then show ?thesis by (simp add: trial_catalog_def)
qed

lemma trial_parts: "ms_seed trial_state = ''0''" "ms_board trial_state = []"
  by code_simp+

definition trial_loaded :: "unit page" where
  "trial_loaded = projr (trial_setup trial_env trial_state trial_page)"

lemma trial_loads: "trial_setup trial_env trial_state trial_page = Inr trial_loaded"
proof -
  have "getCatalog (en_rand trial_env) (ms_pool trial_state) (ms_board trial_state) (ms_seed trial_state) =
      Inr trial_catalog"
    using trial_catalog by (simp add: getCatalog_def with_seed_def trial_parts parse_0 trial_env_def sample_env_def)
  then have "\<forall>e. mount_shop trial_env trial_state \<noteq> Inl e"
    by (simp add: mount_shop_def shop_init_def mapR_def shop_element_def trial_parts)
  then show ?thesis
    by (cases "mount_shop trial_env trial_state") (auto simp: trial_loaded_def trial_setup_def enter_shop_def)
qed

lemma trial_bases_in_order: "bases_in_order trial_bases"
proof -
  have "\<not> nameless trial_bases i" if "i \<in> {1, 2, 3, 4, 5, 6, 7}" for i
    using that by (elim insertE; simp; code_simp)
  moreover have "i \<in> {1, 2, 3, 4, 5, 6, 7}" if "find_base (bs_codec trial_bases) i = Inr b" for i b
    using that by (auto simp: find_base_def trial_bases_def buildEmoBases_def split: if_splits)
  moreover have "bases_ok (bs_codec trial_bases)"
    by code_simp
  ultimately show ?thesis
    by (auto simp: bases_in_order_def bases_named_def)
qed

lemma trial_answers_ok: "answers_ok trial_env trial_connection"
  by (simp add: answers_ok_def trial_env_def trial_connection_def ghost_ok_def)

lemma trial_env_rand: "rand_ok (en_rand trial_env)"
  by (simp add: trial_env_def sample_env_def sample_rand_ok)

lemma trial_load: "trial_step trial_env sample_march (answers_ok trial_env) trial_page trial_loaded"
  using trial_step.load [of trial_page "answers_ok trial_env" trial_connection "\<lambda>_. 0" 0 trial_state trial_env trial_loaded
      sample_march] trial_answers_ok trial_built trial_loads
  by (auto simp: trial_page_def)

lemma trial_run: "(trial_step trial_env sample_march (answers_ok trial_env))\<^sup>*\<^sup>* trial_page trial_loaded"
  using trial_load by (rule r_into_rtranclp)

lemma trial_decided_run: "(decided_step trial_env sample_march)\<^sup>*\<^sup>* trial_page trial_loaded"
  using trial_load by (intro r_into_rtranclp) (simp add: decided_step_def trial_page_def)

lemma trial_bases_graded: "bases_graded (bs_codec trial_bases)"
  by (auto simp: bases_graded_def find_base_def trial_bases_def buildEmoBases_def trial_base_def split: if_splits)

section \<open>A match on the contract\<close>

definition contract_account :: "unit Account" where "contract_account = Account_contract ''me'' ()"

definition contract_state :: MtcState where
  "contract_state = projr (start_state trial_connection ''me'' 300)"

lemma contract_started: "start_state trial_connection ''me'' 300 = Inr contract_state"
proof -
  have "\<not> isl (start_state trial_connection ''me'' 300)"
    by code_simp
  then show ?thesis by (simp add: contract_state_def)
qed

definition contract_catalog :: mtc_shop_Catalog where
  "contract_catalog = projr (get_catalog sample_rand (ms_pool contract_state) [] 5)"

lemma contract_catalog: "get_catalog sample_rand (ms_pool contract_state) [] 5 = Inr contract_catalog"
proof -
  have "\<not> isl (get_catalog sample_rand (ms_pool contract_state) [] 5)"
    by code_simp
  then show ?thesis by (simp add: contract_catalog_def)
qed

lemma contract_parts: "ms_seed contract_state = ''5''" "ms_board contract_state = []"
  by code_simp+

definition contract_page :: "unit page" where
  "contract_page = fst (projr (startMtc trial_env trial_connection [] 300 None (initial_page (Some contract_account))))"

lemma contract_starts:
  "startMtc trial_env trial_connection [] 300 None (initial_page (Some contract_account)) = Inr (contract_page, None)"
proof -
  have "getCatalog (en_rand trial_env) (ms_pool contract_state) (ms_board contract_state) (ms_seed contract_state) =
      Inr contract_catalog"
    using contract_catalog
    by (simp add: getCatalog_def with_seed_def contract_parts parse_5 trial_env_def sample_env_def)
  then have "\<forall>e. mount_shop trial_env contract_state \<noteq> Inl e"
    by (simp add: mount_shop_def shop_init_def mapR_def shop_element_def contract_parts)
  then obtain m where "mount_shop trial_env contract_state = Inr m"
    by (metis sum.exhaust)
  then show ?thesis
    using contract_started
    by (simp add: contract_page_def startMtc_def initial_page_def start_def contract_account_def withToggleAsync_def
        trial_connection_def enter_shop_def)
qed

lemma contract_answers_ok: "match_answers_ok trial_env trial_connection"
proof -
  have "pool_ok trial_bases (map (\<lambda>i. \<lparr>me_id = word_of_nat i, me_base_id = 7\<rparr>) [1..<41])"
    by code_simp
  then show ?thesis
    by (simp add: match_answers_ok_def trial_env_def trial_connection_def ghost_ok_def build_initial_ghost_states_def
        is_active_def final_turn_ok_def list_all_iff PLAYER_INITIAL_HEALTH_def del: upt_Suc)
qed

lemma contract_run:
  "(mtc_step trial_env sample_march (match_answers_ok trial_env))\<^sup>*\<^sup>* (initial_page (Some contract_account))
     contract_page"
  using mtc_step.start [of "initial_page (Some contract_account)" "match_answers_ok trial_env" trial_connection trial_env
      "[]" 300 None contract_page None sample_march] contract_answers_ok contract_starts
  by (auto simp: initial_page_def)

end
