(* ===== verification/ContractExamples.thy ===== *)
theory ContractExamples
  imports Agreement MatchExamples
begin

text \<open>
  A match on the contract from its deployment: seven bases, a player who starts a match, buys an emoji
  in the first shop and loses the battle.
\<close>

definition ex_call :: "string \<Rightarrow> call" where
  "ex_call p = \<lparr>cl_caller = p, cl_caller_is_origin = True, cl_block_number = 1, cl_random = (\<lambda>_ _. 5)\<rparr>"

definition ex_grand :: "nat ghost_rand" where
  "ex_grand = \<lparr>gr_seed = (\<lambda>_. 0), gr_choose_multiple = (\<lambda>r n xs. (take n xs, r)), gr_shuffle = (\<lambda>r xs. xs)\<rparr>"

lemma ex_grand_ok: "ghost_rand_ok ex_grand"
  by (auto simp: ghost_rand_ok_def ex_grand_def dest: in_set_takeD)

lemma ex_by_position: "by_position (shuffle_ids (en_rand trial_env))"
  by (simp add: by_position_def trial_env_def sample_env_def sample_rand_def)

definition ex_codec :: emo_Bases where "ex_codec = map (\<lambda>i. (i, trial_base i)) [1, 2, 3, 4, 5, 6, 7]"

definition ex_ready :: contract where
  "ex_ready = projr (update_emo_bases (ex_call ''admin'') ex_codec [7] [1, 2, 3, 4, 5, 6] False
     (new_contract (ex_call ''admin'')))"

lemma ex_ready: "update_emo_bases (ex_call ''admin'') ex_codec [7] [1, 2, 3, 4, 5, 6] False
    (new_contract (ex_call ''admin'')) = Inr ex_ready"
proof -
  have "\<not> isl (update_emo_bases (ex_call ''admin'') ex_codec [7] [1, 2, 3, 4, 5, 6] False
      (new_contract (ex_call ''admin'')))"
    by code_simp
  then show ?thesis by (simp add: ex_ready_def)
qed

definition ex_started :: contract where
  "ex_started = projr (start_mtc ex_grand (ex_call ''me'') [1, 2, 3, 4, 5, 6] ex_ready)"

lemma ex_started: "start_mtc ex_grand (ex_call ''me'') [1, 2, 3, 4, 5, 6] ex_ready = Inr ex_started"
proof -
  have "\<not> isl (start_mtc ex_grand (ex_call ''me'') [1, 2, 3, 4, 5, 6] ex_ready)"
    by code_simp
  then show ?thesis by (simp add: ex_started_def)
qed

definition ex_send :: "unit contract_tx" where "ex_send _ _ _ = Inr ()"

definition ex_connection :: "unit Connection" where
  "ex_connection = projr (contract_buildConnection 4 (\<lambda>a. a) ex_send ex_started)"

lemma ex_connection: "contract_buildConnection 4 (\<lambda>a. a) ex_send ex_started = Inr ex_connection"
proof -
  have "\<not> isl (contract_buildConnection 4 (\<lambda>a. a) ex_send ex_started)"
    by code_simp
  then show ?thesis by (simp add: ex_connection_def)
qed

definition ex_state :: MtcState where
  "ex_state = projr (start_state ex_connection ''me'' 300)"

lemma ex_state: "start_state ex_connection ''me'' 300 = Inr ex_state"
proof -
  have "\<not> isl (start_state ex_connection ''me'' 300)"
    by code_simp
  then show ?thesis by (simp add: ex_state_def)
qed

lemma start_bases: "start_mtc grand cl deck ct = Inr ct' \<Longrightarrow> ct_emo_bases ct' = ct_emo_bases ct"
  by (erule start_mtc_storage) simp

lemma ex_bases: "ct_emo_bases ex_ready = Some ex_codec" "cn_emoBases ex_connection = trial_bases" "bases_ok ex_codec"
proof -
  show "ct_emo_bases ex_ready = Some ex_codec"
    by code_simp
  then have "ct_emo_bases ex_started = Some ex_codec"
    using start_bases [OF ex_started] by simp
  then show "cn_emoBases ex_connection = trial_bases"
    using contract_connection_4(2) [OF ex_connection] by (auto simp: ex_codec_def trial_bases_def)
  show "bases_ok ex_codec"
    by code_simp
qed

lemma ex_played: "played ex_grand trial_env sample_march (\<lambda>a. a) ''me'' ex_started ex_state"
proof (rule played.started [OF _ _ ex_started _ ex_connection _ ex_state])
  show "contract_reached ex_grand (en_rand trial_env) sample_march ex_ready"
    using contract_reached.sent [OF contract_reached.deployed contract_step.bases [OF ex_ready]] .
qed (simp_all add: ex_bases trial_env_def ex_call_def)

section \<open>The first shop\<close>

definition ex_catalog :: mtc_shop_Catalog where
  "ex_catalog = projr (get_catalog sample_rand (ms_pool ex_state) [] 5)"

lemma ex_catalog: "get_catalog sample_rand (ms_pool ex_state) [] 5 = Inr ex_catalog"
proof -
  have "\<not> isl (get_catalog sample_rand (ms_pool ex_state) [] 5)"
    by code_simp
  then show ?thesis by (simp add: ex_catalog_def)
qed

definition ex_env :: "nat shop_env" where "ex_env = with_catalog trial_env ex_catalog"

lemma ex_parts:
  "ms_seed ex_state = ''5''" "ms_board ex_state = []" "ms_turn ex_state = 1" "ms_grade ex_state = 1"
  "ms_battleGhostIndex ex_state = 0"
  "rivals_ok (en_bases ex_env) ex_state" "grade_ok ex_state" "catalog_named ex_env" "catalog_ok ex_env"
  by code_simp+

definition ex_init :: screen where
  "ex_init = \<lparr>sc_mtcState = ex_state, sc_shopState = initial_shop_state 1,
     sc_selectedCatalogLineEmo = None, sc_selectedRivalIndex = 0, sc_isBoardOperating = True,
     sc_isRivalBoardCurrent = True, sc_operation = Operation_pre_shop, sc_buttonsDisabled = True,
     sc_element = shop_element\<rparr>"

definition ex_open :: screen where
  "ex_open = ex_init\<lparr>sc_isBoardOperating := False, sc_operation := Operation_none, sc_buttonsDisabled := False\<rparr>"

lemma ex_mounted: "mount_shop trial_env ex_state = Inr (ex_catalog, ex_init)"
proof -
  have "shop_init ex_state shop_element = Inr ex_init"
    using ex_parts(1-5) by (simp add: shop_init_def ex_init_def start_operation_def)
  moreover have "getCatalog (en_rand trial_env) (ms_pool ex_state) (ms_board ex_state) (ms_seed ex_state) = Inr ex_catalog"
    using ex_catalog by (simp add: getCatalog_def with_seed_def ex_parts parse_5 trial_env_def sample_env_def)
  ultimately show ?thesis
    by (simp add: mount_shop_def)
qed

lemma paid_is_reached: "paid_reaches env s0 element sc \<Longrightarrow> reaches env s0 element sc"
proof -
  have "(shop_step env)\<^sup>*\<^sup>* sc0 sc" if "(paid_step env)\<^sup>*\<^sup>* sc0 sc" for sc0
    using that by (induction rule: rtranclp_induct)
      (auto simp: paid_step_def intro: rtranclp.rtrancl_into_rtrancl careful_is_step)
  then show "paid_reaches env s0 element sc \<Longrightarrow> ?thesis"
    by (auto simp: paid_reaches_def reaches_def)
qed

lemma paid_more: "paid_reaches env s0 element sc \<Longrightarrow> paid_step env sc sc' \<Longrightarrow> paid_reaches env s0 element sc'"
  by (auto simp: paid_reaches_def intro: rtranclp.rtrancl_into_rtrancl)

lemma paid_click:
  assumes p: "paid_reaches env s0 el sc" and ok: "rivals_ok (en_bases env) s0" "grade_ok s0" "catalog_named env"
    and a: "allowed env sc a" "a = Upgrade \<longrightarrow> sc_selectedCatalogLineEmo sc = None" "perform a sc = Inr sc'"
    and coin: "st_coin (sc_shopState sc') \<le> 255"
  shows "paid_reaches env s0 el sc'"
proof -
  note r = paid_is_reached [OF p]
  have "line_ok env sc" using reachesD(1) [OF r] by (simp add: screen_inv_def)
  then obtain v where v: "Shop env sc = Inr v"
    using Shop_renders reaches_renderable [OF r ok(1,2)] ok(3) by blast
  have "a \<in> set (offered v)"
    unfolding offered_iff [OF v] by (rule a(1))
  with v have "careful_step env sc sc'"
    using a(2,3) by (rule careful_step.careful_click)
  then show ?thesis
    using paid_more [OF p] coin by (simp add: paid_step_def)
qed

lemma paid_finish:
  assumes p: "paid_reaches env s0 el sc" and "sc_isBoardOperating sc"
    and f: "bindE (run_operation env next_id sc) (\<lambda>(r, element). finish_operation r element sc) = Inr sc'"
    and coin: "st_coin (sc_shopState sc') \<le> 255"
  shows "paid_reaches env s0 el sc'"
proof -
  obtain r el' where "run_operation env next_id sc = Inr (r, el')" "finish_operation r el' sc = Inr sc'"
    using f by (auto simp: bindE_eq_Inr_iff)
  with assms(2) have "careful_step env sc sc'"
    by (rule careful_step.careful_finish)
  then show ?thesis
    using paid_more [OF p] coin by (simp add: paid_step_def)
qed

lemma ex_paid_init: "paid_reaches ex_env ex_state shop_element ex_init"
proof -
  have "shop_init ex_state shop_element = Inr ex_init"
    using ex_mounted by (simp add: mount_shop_def bindE_eq_Inr_iff mapR_eq_Inr_iff)
  moreover have "shows_board shop_element []"
    by (auto simp: shows_board_def shop_element_def board_dom_def)
  ultimately show ?thesis
    using ex_parts by (auto simp: paid_reaches_def)
qed

lemma ex_paid_open: "paid_reaches ex_env ex_state shop_element ex_open"
proof (rule paid_finish [OF ex_paid_init, where next_id = 0])
  let ?r = "\<lparr>or_newBoardEmos = [], or_coinDiff = 0, or_operation = Operation_pre_shop\<rparr>"
  have "run_operation ex_env 0 ex_init = Inr (?r, shop_element)"
    using ex_parts(1,2)
    by (simp add: run_operation_def operate_def ex_init_def rust_shop_def
        startShop_def parse_5 decode_and_encode_for_shop_def taken_in_def start_shop_def start_shop_with_def
        get_board_pre_abilities_def setupEmoLineEmosElement_def shop_animate_def)
  moreover have "finish_operation ?r shop_element ex_init = Inr ex_open"
    using ex_parts(2)
    by (simp add: finish_operation_def finishShopBoardOperation_def ex_open_def ex_init_def initial_shop_state_def)
  ultimately show "bindE (run_operation ex_env 0 ex_init) (\<lambda>(r, element). finish_operation r element ex_init) = Inr ex_open"
    by simp
qed (simp_all add: ex_init_def ex_open_def initial_shop_state_def get_initial_coin_by_turn_def MAX_COIN_def)

definition ex_emo :: mtc_Emo where "ex_emo = \<lparr>me_id = 35, me_base_id = 7\<rparr>"

lemma ex_emo_parts: "ex_emo \<in> set (ex_catalog ! 0)" "findEmoBase 7 trial_bases = Inr (trial_base 7)"
  by code_simp+

definition ex_bought :: screen where
  "ex_bought = projr (bindE (perform (Select (Some ex_emo)) ex_open) (perform (SetOperation (Operation_set 0 ex_emo))))"

lemma ex_bought:
  "ex_bought = ex_open\<lparr>sc_selectedCatalogLineEmo := None, sc_operation := Operation_set 0 ex_emo,
     sc_isBoardOperating := True, sc_buttonsDisabled := True\<rparr>"
  by (simp add: ex_bought_def perform_def start_operation_def ex_open_def ex_init_def)

lemma ex_paid_bought: "paid_reaches ex_env ex_state shop_element ex_bought"
proof -
  let ?sel = "ex_open\<lparr>sc_selectedCatalogLineEmo := Some ex_emo\<rparr>"
  have open_parts: "sc_mtcState ex_open = ex_state" "sc_shopState ex_open = initial_shop_state 1"
    "\<not> sc_isBoardOperating ex_open" "\<not> sc_buttonsDisabled ex_open"
    by (simp_all add: ex_open_def ex_init_def)
  have coin: "st_coin (initial_shop_state 1) = 3" "st_currentCatalogLineIndex (initial_shop_state 1) = 0"
    "st_soldMtcEmoIds (initial_shop_state 1) = []"
    by (simp_all add: initial_shop_state_def get_initial_coin_by_turn_def MAX_COIN_def)
  have env: "en_catalog ex_env = ex_catalog" "en_bases ex_env = trial_bases"
    by (simp_all add: ex_env_def with_catalog_def trial_env_def)
  have "buyable ex_env ex_open ex_emo"
    unfolding buyable_def unavailable_ids_def env open_parts coin ex_parts
    using ex_emo_parts by (simp add: ex_emo_def trial_base_def)
  then have "allowed ex_env ex_open (Select (Some ex_emo))"
    using open_parts coin ex_parts(2) by (simp add: constants)
  then have "paid_reaches ex_env ex_state shop_element ?sel"
    by (rule paid_click [OF ex_paid_open ex_parts(6-8)]) (use coin in \<open>simp_all add: perform_def open_parts\<close>)
  moreover have "allowed ex_env ?sel (SetOperation (Operation_set 0 ex_emo))"
    by (simp add: open_parts)
  moreover have "perform (SetOperation (Operation_set 0 ex_emo)) ?sel = Inr ex_bought"
    by (simp add: ex_bought perform_def start_operation_def open_parts)
  moreover have "st_coin (sc_shopState ex_bought) \<le> 255"
    using coin by (simp add: ex_bought open_parts)
  ultimately show ?thesis
    using paid_click [OF _ ex_parts(6-8)] by blast
qed

definition ex_board :: mtc_Board where
  "ex_board = [\<lparr>be_base_id = 7,
     be_attributes = \<lparr>at_attack = 2, at_health = 3, at_abilities = [], at_is_triple = False\<rparr>, be_mtc_emo_ids = [35]\<rparr>]"

lemma ex_set: "\<exists>r element. run_operation ex_env 0 ex_bought = Inr (r, element) \<and> or_newBoardEmos r = ex_board \<and>
    or_coinDiff r = - 3 \<and> or_operation r = Operation_set 0 ex_emo"
proof -
  have "case operate (\<lambda>_. '''') (\<lambda>_. Some ''a'') trial_bases ''1em''
       (rust_shop (shuffle_ids sample_rand) (seed_from_u64 sample_rand) 0) shop_element [] (Operation_set 0 ex_emo) ''5'' of
      Inl e \<Rightarrow> False | Inr (r, element) \<Rightarrow> or_newBoardEmos r = ex_board \<and> or_coinDiff r = - 3 \<and>
        or_operation r = Operation_set 0 ex_emo"
    by code_simp
  moreover have "run_operation ex_env 0 ex_bought = operate (\<lambda>_. '''') (\<lambda>_. Some ''a'') trial_bases ''1em''
       (rust_shop (shuffle_ids sample_rand) (seed_from_u64 sample_rand) 0) shop_element [] (Operation_set 0 ex_emo) ''5''"
    using ex_parts(1,2)
    by (simp add: run_operation_def ex_bought ex_open_def ex_init_def ex_env_def with_catalog_def trial_env_def sample_env_def)
  ultimately show ?thesis
    by (auto split: sum.splits)
qed

text \<open>The emoji is bought: the shop ends with one emoji, no coins and one recorded operation.\<close>

definition ex_ops :: "mtc_shop_PlayerOperation list" where
  "ex_ops = [PlayerOperation_Buy (mtc_shop_PlayerOperation_Buy 35 0)]"

lemma ex_done: "\<exists>sc. shop_played trial_env ex_state sc \<and> paid_reaches ex_env ex_state shop_element sc \<and>
    sc_operation sc = Operation_none \<and> st_playerOperations (sc_shopState sc) = ex_ops \<and>
    sc_mtcState sc = ex_state\<lparr>ms_board := ex_board\<rparr>"
proof -
  obtain r element where r: "run_operation ex_env 0 ex_bought = Inr (r, element)" "or_newBoardEmos r = ex_board"
    "or_coinDiff r = - 3" "or_operation r = Operation_set 0 ex_emo"
    using ex_set by blast
  obtain sc where sc: "finish_operation r element ex_bought = Inr sc" "st_coin (sc_shopState sc) = 0"
    "st_playerOperations (sc_shopState sc) = ex_ops" "sc_operation sc = Operation_none"
    "sc_mtcState sc = ex_state\<lparr>ms_board := ex_board\<rparr>"
    using r(2-4) ex_parts(2)
    by (simp add: finish_operation_def finishShopBoardOperation_def ex_bought ex_open_def ex_init_def initial_shop_state_def
        get_initial_coin_by_turn_def MAX_COIN_def last_move_def ex_ops_def ex_emo_def)
  have "paid_reaches ex_env ex_state shop_element sc"
    by (rule paid_finish [OF ex_paid_bought, of 0]) (use r(1) sc in \<open>simp_all add: ex_bought\<close>)
  moreover from this have "shop_played trial_env ex_state sc"
    using ex_mounted sc by (auto simp: shop_played_def ex_env_def ex_ops_def)
  ultimately show ?thesis
    using sc by blast
qed

section \<open>The first battle\<close>

lemma ex_state_parts:
  "ms_health ex_state = 30" "ms_ghosts ex_state = replicate 3 \<lparr>gh_history = []\<rparr>"
  "ms_ghostStates ex_state = replicate 3 (GhostState_Active (mtc_GhostState_Active 20))" "ms_upgradeCoin ex_state = Some 5"
  by code_simp+

definition ex_lost_states :: "mtc_GhostState list" where
  "ex_lost_states = [GhostState_Active (mtc_GhostState_Active 20), GhostState_Active (mtc_GhostState_Active 10),
     GhostState_Active (mtc_GhostState_Active 20)]"

lemma ex_battle_all:
  "battle_all sample_march ex_board 30 (replicate 3 (GhostState_Active (mtc_GhostState_Active 20))) 1
     (replicate 3 \<lparr>gh_history = []\<rparr>) 0 1 5 ex_codec = Inr (20, ex_lost_states, None)"
  "select_battle_ghost_index sample_rand ex_lost_states 0 5 = Inr 1"
  by code_simp+

lemma ex_battle:
  assumes "sc_mtcState sc = ex_state\<lparr>ms_board := ex_board\<rparr>"
  shows "\<exists>s. front_battle sample_march trial_env (ex_call p) sc = Inr (s, None) \<and> ms_turn s = 2 \<and> ms_health s = 20"
proof -
  have codec: "bs_codec (en_bases trial_env) = ex_codec"
    using ex_bases(3) same_bases_codec [of ex_codec trial_env]
    by (simp add: same_bases_def trial_env_def trial_bases_def ex_codec_def)
  have rand: "en_rand trial_env = sample_rand"
    by (simp add: trial_env_def sample_env_def)
  show ?thesis
    using ex_battle_all ex_parts ex_state_parts unfolding front_battle_def rand
    by (simp add: finishBattle_def battleAll_def with_seed_def codec battle_state_def assms turn_seed_def ex_call_def
        selectBattleGhostIndex_def)
qed

end
