(* ===== verification/ContractTheorems.thy ===== *)
theory ContractTheorems
  imports ContractExamples
begin

text \<open>
  What the contract and the replay of a shop promise: the properties of \<open>RustReplay\<close>, \<open>RustContract\<close> and
  \<open>ContractConnection\<close>, each applied to the match of \<open>ContractExamples\<close>.
\<close>

section \<open>The record of a shop\<close>

lemma ex_played_me: "played ex_grand trial_env sample_march (\<lambda>a. a) (cl_caller (ex_call ''me'')) ex_started ex_state"
  using ex_played by (simp add: ex_call_def)

lemma ex_held: "held ex_codec (ms_pool ex_state) 5 (get_upgrade_coin 2) ex_env ex_state"
proof -
  have "en_rand ex_env = sample_rand" "en_catalog ex_env = ex_catalog" "en_bases ex_env = trial_bases"
    by (simp_all add: ex_env_def with_catalog_def trial_env_def sample_env_def)
  then show ?thesis
    using ex_catalog ex_parts ex_state_parts(4) ex_bases(3)
    by (simp add: held_def same_bases_def parse_5 price_ok_def get_upgrade_coin_def ex_codec_def trial_bases_def)
qed

text \<open>
  C2 (refinement). The chain and the contract accept what the front records. A player who spends the
  coins in hand and is never seen with more than 255 leaves a shop with fewer than 200 operations: their
  replay in Rust succeeds, under ids of its own, with the board and the grade of the screen, and the next
  upgrade costs no more than the screen says.
\<close>

theorem chain_accepts_the_record:
  fixes env :: "'rng shop_env"
  assumes "paid_reaches env s0 element sc" "sc_operation sc \<noteq> Operation_pre_shop"
    and "length (st_playerOperations (sc_shopState sc)) < 200"
    and "held codec pool seed upgrade_coin env s0" "by_position (shuffle_ids (en_rand env))"
  shows "\<exists>price. verify_player_operations_and_update (en_rand env) next_id (ms_board s0) (word_of_nat (ms_grade s0))
      upgrade_coin (st_playerOperations (sc_shopState sc)) pool seed (word_of_nat (ms_turn s0)) codec =
      Inr (ms_board (sc_mtcState sc), word_of_nat (ms_grade (sc_mtcState sc)), price) \<and>
    price_ok (ms_grade (sc_mtcState sc)) (ms_upgradeCoin (sc_mtcState sc)) price"
  by (rule replay_accepts [OF assms])

lemma chain_accepts_the_record_witness:
  "\<exists>price. verify_player_operations_and_update sample_rand 9 [] 1 (Some 5) ex_ops (ms_pool ex_state) 5 1 ex_codec =
     Inr (ex_board, 1, price) \<and> price_ok 1 (Some 5) price"
proof -
  obtain sc where "paid_reaches ex_env ex_state shop_element sc" "sc_operation sc = Operation_none"
    "st_playerOperations (sc_shopState sc) = ex_ops" "sc_mtcState sc = ex_state\<lparr>ms_board := ex_board\<rparr>"
    using ex_done by blast
  moreover have "en_rand ex_env = sample_rand"
    by (simp add: ex_env_def with_catalog_def trial_env_def sample_env_def)
  moreover have "by_position (shuffle_ids (en_rand ex_env))"
    using ex_by_position by (simp add: ex_env_def)
  ultimately show ?thesis
    using chain_accepts_the_record [OF _ _ _ ex_held, of shop_element sc 9] ex_parts ex_state_parts(4)
    by (simp add: get_upgrade_coin_def ex_ops_def)
qed



text \<open>
  C14 (safety). In a development build the front compares what it keeps of a match with the contract
  after every battle. On a contract of version 4 these checks pass: they find the same health and board,
  and a match that is over for the front is over at the contract.
\<close>

theorem development_checks_pass:
  fixes env :: "'rng shop_env" and connection :: "unit Connection"
  assumes "played grand env march encodeAddress (cl_caller cl) ct s"
    and "ghost_rand_ok grand" "rand_ok (en_rand env)" "by_position (shuffle_ids (en_rand env))"
    and "shop_played env s sc" "ms_turn s < 40" "cl_caller_is_origin cl"
    and f: "finish_mtc_shop (en_rand env) march next_id cl (st_playerOperations (sc_shopState sc)) ct = Inr ct'"
    and b: "front_battle march env cl sc = Inr (s', place)"
    and c: "contract_buildConnection 4 encodeAddress send ct' = Inr connection"
  shows "case place of
      None \<Rightarrow> ensureNoStateDiff isDevelopment connection (cl_caller cl) (ms_health s') (ms_board s') = Inr ()
    | Some p \<Rightarrow> ensureFinished isDevelopment connection (cl_caller cl) = Inr ()"
proof -
  have "agrees env ct (cl_caller cl) s" "contract_inv ct"
    using played_agrees [OF assms(1-4)] by auto
  note turn = played_turn [OF this assms(4,3,5-7), of march next_id, unfolded b f]
  show ?thesis
  proof (cases place)
    case None
    then have "ms_turn s' = ms_turn (battle_state cl sc) + 1"
      using b by (auto simp: front_battle_def dest: finishBattle_cases)
    moreover obtain catalog where "paid_reaches (with_catalog env catalog) s shop_element sc"
      using assms(5) by (auto simp: shop_played_def)
    then have "ms_turn (battle_state cl sc) = ms_turn s"
      using paid_same by (fastforce simp: battle_state_def same_match_def)
    moreover have "1 \<le> ms_turn s"
      using agrees_ok(4) [OF \<open>agrees env ct (cl_caller cl) s\<close> \<open>contract_inv ct\<close>] .
    ultimately have "1 < ms_turn s'" by simp
    then show ?thesis
      using no_state_diff [OF _ _ c, of env "cl_caller cl" s'] turn None by auto
  next
    case (Some p)
    then show ?thesis
      using finished [OF _ c] turn by auto
  qed
qed

lemma ex_turn:
  "\<exists>ct' sc s'. shop_played trial_env ex_state sc \<and> st_playerOperations (sc_shopState sc) = ex_ops \<and>
     front_battle sample_march trial_env (ex_call ''me'') sc = Inr (s', None) \<and> ms_health s' = 20 \<and>
     finish_mtc_shop sample_rand sample_march 9 (ex_call ''me'') ex_ops ex_started = Inr ct' \<and>
     agrees trial_env ct' ''me'' s'"
proof -
  obtain sc where sc: "shop_played trial_env ex_state sc" "st_playerOperations (sc_shopState sc) = ex_ops"
    "sc_mtcState sc = ex_state\<lparr>ms_board := ex_board\<rparr>"
    using ex_done by blast
  obtain s' where s': "front_battle sample_march trial_env (ex_call ''me'') sc = Inr (s', None)" "ms_health s' = 20"
    using ex_battle [OF sc(3)] by blast
  have rand: "en_rand trial_env = sample_rand"
    by (simp add: trial_env_def sample_env_def)
  have agreed: "agrees trial_env ex_started (cl_caller (ex_call ''me'')) ex_state" "contract_inv ex_started"
    using played_agrees [OF ex_played ex_grand_ok trial_env_rand ex_by_position] by (simp_all add: ex_call_def)
  have "cl_caller_is_origin (ex_call ''me'')"
    by (simp add: ex_call_def)
  from played_turn [OF agreed ex_by_position trial_env_rand sc(1) _ this, of sample_march 9] obtain ct' where
    "finish_mtc_shop sample_rand sample_march 9 (ex_call ''me'') ex_ops ex_started = Inr ct'"
    "agrees trial_env ct' (cl_caller (ex_call ''me'')) s'"
    using sc(2) s' ex_parts(3) rand by auto
  then show ?thesis
    using sc(1,2) s' by (auto simp: ex_call_def)
qed

lemma development_checks_pass_witness:
  "\<exists>ct' (s' :: MtcState) connection. finish_mtc_shop sample_rand sample_march 9 (ex_call ''me'') ex_ops ex_started = Inr ct' \<and>
     contract_buildConnection 4 (\<lambda>a. a) ex_send ct' = Inr connection \<and> ms_health s' = 20 \<and>
     ensureNoStateDiff True connection ''me'' (ms_health s') (ms_board s') = Inr ()"
proof -
  obtain ct' sc s' where t: "shop_played trial_env ex_state sc" "st_playerOperations (sc_shopState sc) = ex_ops"
      "front_battle sample_march trial_env (ex_call ''me'') sc = Inr (s', None)" "ms_health s' = 20"
      "finish_mtc_shop sample_rand sample_march 9 (ex_call ''me'') ex_ops ex_started = Inr ct'"
      "agrees trial_env ct' ''me'' s'"
    using ex_turn by blast
  obtain connection where c: "contract_buildConnection 4 (\<lambda>a. a) ex_send ct' = Inr connection"
    using t(6) by (auto simp: agrees_def contract_buildConnection_def getGameContract_def orTypeError_def)
  have "cl_caller_is_origin (ex_call ''me'')" "cl_caller (ex_call ''me'') = ''me''" "en_rand trial_env = sample_rand"
    by (simp_all add: ex_call_def trial_env_def sample_env_def)
  then have "ensureNoStateDiff True connection ''me'' (ms_health s') (ms_board s') = Inr ()"
    using development_checks_pass [OF ex_played_me ex_grand_ok trial_env_rand ex_by_position t(1) _ _ _ t(3) c, of 9 True]
      t(2,5) ex_parts(3) by simp
  then show ?thesis
    using t(4,5) c by blast
qed

section \<open>The contract\<close>

text \<open>
  C9 (invariant). Every storage the contract reaches, by messages of any callers in any order, is in
  order: the leaderboard is sorted, without duplicates and of at most a hundred entries; every band
  has at most twenty ghosts of different players, and each of them is stored; and who has a match
  has points, a seed and its pool, a health, three ghosts of which the next to fight is alive, and a
  history of fewer than forty turns with grades from one to six.
\<close>

theorem contract_invariant:
  assumes "contract_reached grand rand march ct" "ghost_rand_ok grand" "rand_ok rand"
  shows "contract_inv ct"
  by (rule contract_reached_inv [OF assms(2,3,1)])

lemma contract_invariant_witness:
  "\<exists>ct. finish_mtc_shop sample_rand sample_march 9 (ex_call ''me'') ex_ops ex_started = Inr ct \<and> contract_inv ct"
proof -
  obtain ct where ct: "finish_mtc_shop sample_rand sample_march 9 (ex_call ''me'') ex_ops ex_started = Inr ct"
    using ex_turn by blast
  have "contract_reached ex_grand sample_rand sample_march ex_ready"
    by (rule contract_reached.sent [OF contract_reached.deployed contract_step.bases [OF ex_ready]])
  from contract_reached.sent [OF this contract_step.start [OF ex_started]]
  have "contract_reached ex_grand sample_rand sample_march ct"
    by (rule contract_reached.sent [OF _ contract_step.finish [OF ct]])
  then have "contract_inv ct"
    by (rule contract_invariant) (simp_all add: ex_grand_ok sample_rand_ok)
  with ct show ?thesis by blast
qed

text \<open>
  C17 (error). On a contract that was reached, with its bases set, a match of a caller that is the origin
  starts, unless the deck is refused: choosing the ghosts never panics, however few or many are stored.
\<close>

theorem match_starts_unless_the_deck_is_refused:
  assumes "contract_reached grand rand march ct" "ghost_rand_ok grand" "rand_ok rand" "cl_caller_is_origin cl"
    and "ct_emo_bases ct = Some bases" "ct_deck_fixed_emo_base_ids ct = Some fixed"
      "ct_deck_built_emo_base_ids ct = Some built"
  shows "isl (start_mtc grand cl deck ct) \<longleftrightarrow> isl (build_pool deck bases fixed built)"
proof -
  obtain ep eps where e: "create_or_update_player_ep (cl_caller cl) ct = (ep, ct\<lparr>ct_player_ep := eps\<rparr>)"
    using create_or_update_frame [of "cl_caller cl" ct] by (metis surj_pair)
  have "ghosts_known ct"
    using contract_reached_inv [OF assms(2,3,1)] by (simp add: contract_inv_def)
  then obtain ghosts where "choose_ghosts grand ep (cl_random cl ''start_mtc'' (cl_caller cl))
      (\<lambda>band. map_option (map snd) (ct_matchmaking_ghosts_info ct band)) (ct_matchmaking_ghost_by_index ct) = Inr ghosts"
    using choose_ghosts_ok [OF assms(2)] by blast
  then show ?thesis
    using assms(4-7) e
    by (cases "build_pool deck bases fixed built")
      (auto simp: start_mtc_def get_insecure_random_seed_def or_trap_def Let_def unwrap_def split: js_error.splits)
qed

lemma match_starts_unless_the_deck_is_refused_witness:
  "isl (start_mtc ex_grand (ex_call ''you'') [1, 2, 3] ex_ready) \<and> \<not> isl (start_mtc ex_grand (ex_call ''me'') [1, 2, 3, 4, 5, 6] ex_ready)"
proof -
  have "contract_reached ex_grand sample_rand sample_march ex_ready"
    by (rule contract_reached.sent [OF contract_reached.deployed contract_step.bases [OF ex_ready]])
  moreover have "ct_deck_fixed_emo_base_ids ex_ready = Some [7]" "ct_deck_built_emo_base_ids ex_ready = Some [1, 2, 3, 4, 5, 6]"
    "isl (build_pool [1, 2, 3] ex_codec [7] [1, 2, 3, 4, 5, 6])" "\<not> isl (build_pool [1, 2, 3, 4, 5, 6] ex_codec [7] [1, 2, 3, 4, 5, 6])"
    by code_simp+
  moreover have "cl_caller_is_origin (ex_call p)" for p
    by (simp add: ex_call_def)
  ultimately show ?thesis
    using match_starts_unless_the_deck_is_refused [OF _ ex_grand_ok sample_rand_ok _ ex_bases(1)] by blast
qed

text \<open>
  C13 (equivalence). One pass over the leaderboard with a rotation in place does what the reference says:
  the account is taken out and put before the first entry that is not above its new points, the last
  of a hundred falls off, and an account with an entry above its new points is left alone. It panics for
  no leaderboard that is in order, and leaves it in order.
\<close>

theorem leaderboard_is_ranked:
  assumes "leaderboard_ok l"
  shows "(case update_leaderboard l ep account of
      Inl _ \<Rightarrow> False
    | Inr None \<Rightarrow> ranked ep account l = l
    | Inr (Some l') \<Rightarrow> l' = ranked ep account l) \<and> leaderboard_ok (ranked ep account l)"
  using update_leaderboard_ranked [OF assms] ranked_ok [OF assms] by blast

lemma leaderboard_is_ranked_witness:
  "update_leaderboard [(400, ''a''), (350, ''b''), (300, ''c'')] 380 ''c'' =
     Inr (Some [(400, ''a''), (380, ''c''), (350, ''b'')]) \<and>
   leaderboard_ok (ranked 380 ''c'' [(400, ''a''), (350, ''b''), (300, ''c'')])"
proof -
  have "leaderboard_ok [(400, ''a''), (350, ''b''), (300, ''c'')]"
    by code_simp
  moreover have "update_leaderboard [(400, ''a''), (350, ''b''), (300, ''c'')] 380 ''c'' =
      Inr (Some [(400, ''a''), (380, ''c''), (350, ''b'')])"
    by code_simp
  ultimately show ?thesis
    using leaderboard_is_ranked by blast
qed

text \<open>
  C30 (error). After an upgrade the front and the chain ask different prices for the next one, but at grade
  four: the front takes the price of the grade after the one reached, the chain that of the one reached,
  so that at grade five the chain still has a price and the front has none.
\<close>

theorem upgrade_prices_differ:
  assumes "upgradeFn sc = Inr sc'" "replay_upgrade r = Inr r'"
    and "ms_grade (sc_mtcState sc) = toNumber (rp_grade r)" "1 \<le> toNumber (rp_grade r)"
  shows "ms_upgradeCoin (sc_mtcState sc') = map_option (\<lambda>c. int (toNumber c)) (rp_upgradeCoin r') \<longleftrightarrow>
    toNumber (rp_grade r) = 4"
proof -
  let ?g = "toNumber (rp_grade r)"
  have r': "rp_upgradeCoin r' = get_upgrade_coin (rp_grade r + 1)" and "rp_grade r < 6"
    using assms(2) by (auto simp: replay_upgrade_def bindE_eq_Inr_iff Let_def LAST_GRADE_def split: option.splits if_splits)
  then have "?g \<in> {1, 2, 3, 4, 5}"
    using assms(4) by (auto simp: word_less_nat_alt)
  moreover have "rp_grade r = word_of_nat ?g" by simp
  moreover have "ms_upgradeCoin (sc_mtcState sc') = (case get_upgrade_coin (word_of_nat (?g + 2)) of
      None \<Rightarrow> None | Some c \<Rightarrow> if c = 0 then None else Some (int (toNumber c)))"
    using assms(1,3) by (auto simp: upgradeFn_def Let_def split: option.splits)
  ultimately show ?thesis
    unfolding r' by (elim insertE emptyE) (simp_all add: get_upgrade_coin_def)
qed

lemma upgrade_prices_differ_witness:
  "\<exists>sc r. upgradeFn sample_start = Inr sc \<and>
     replay_upgrade \<lparr>rp_board = taken_in [] 0, rp_coin = 4, rp_line = 0, rp_counter = 0, rp_sold = [], rp_grade = 1,
       rp_upgradeCoin = Some 4\<rparr> = Inr r \<and>
     ms_upgradeCoin (sc_mtcState sc) \<noteq> map_option (\<lambda>c. int (toNumber c)) (rp_upgradeCoin r)"
proof -
  let ?r = "\<lparr>rp_board = taken_in [] 0, rp_coin = 4, rp_line = 0, rp_counter = 0, rp_sold = [], rp_grade = 1,
       rp_upgradeCoin = Some 4\<rparr> :: replay"
  obtain sc where sc: "upgradeFn sample_start = Inr sc"
    by (simp add: upgradeFn_def sample_start_def sample_init_def sample_match_def Let_def)
  obtain r where r: "replay_upgrade ?r = Inr r"
    by (simp add: replay_upgrade_def checked_sub_def LAST_GRADE_def Let_def)
  have "ms_grade (sc_mtcState sample_start) = 1"
    by (simp add: sample_start_def sample_init_def sample_match_def)
  then show ?thesis
    using upgrade_prices_differ [OF sc r] sc r by simp
qed

end
