(* ===== verification/SetupScreen.thy ===== *)
theory SetupScreen
  imports ShopScreen Connection
begin

text \<open>
  The setup of a match, in \<open>front/src/components/pages/Mtc/\<close>: the decks of a player in the browser's
  storage (\<open>Setup/Decks/tasks.ts\<close>), the screen that selects, deletes and builds them
  (\<open>Setup/Decks/index.tsx\<close> with \<open>common/Dropdown.tsx\<close>), the accounts (\<open>Setup/Accounts.tsx\<close>,
  \<open>common/AccountsDropdown.tsx\<close>), the screen around both (\<open>Setup/index.tsx\<close>) and what it waits for
  (\<open>SetupWrapper/\<close>).
\<close>

section \<open>The storage of decks (Setup/Decks/tasks.ts)\<close>

text \<open>
  The items of \<open>localStorage\<close> under the two families of keys, which no other code writes; what is
  stored as JSON is the value it is read as.
\<close>

record storage =
  ls_decks :: "string \<rightharpoonup> string list list"
  ls_index :: "string \<rightharpoonup> nat"

definition customDecksStoragePrefix :: string where
  "customDecksStoragePrefix = ''mtcSetupCustomDecksV2:''"

definition selectedDeckIndexStoragePrefix :: string where
  "selectedDeckIndexStoragePrefix = ''mtcSetupSelectedDeckIndexV2:''"

definition getCustomDecksStorageKey :: "string \<Rightarrow> string" where
  "getCustomDecksStorageKey address = customDecksStoragePrefix @ '':'' @ address"

definition getSelectedDeckIndexStorageKey :: "string \<Rightarrow> string" where
  "getSelectedDeckIndexStorageKey address = selectedDeckIndexStoragePrefix @ '':'' @ address"

definition getDecks ::
  "string \<Rightarrow> EmoBases \<Rightarrow> string list \<Rightarrow> storage \<Rightarrow> (string list list \<times> nat) js" where
  "getDecks address emoBases builtEmoBaseIds ls =
     mapR (\<lambda>defaultDeck.
         case ls_decks ls (getCustomDecksStorageKey address) of
           None \<Rightarrow> ([defaultDeck], 0)
         | Some customDecks \<Rightarrow>
             let decks = defaultDeck # customDecks in
             case ls_index ls (getSelectedDeckIndexStorageKey address) of
               None \<Rightarrow> (decks, 0)
             | Some index \<Rightarrow> (decks, if index < length decks then index else 0))
       (getDefaultDeck emoBases builtEmoBaseIds)"

definition stored_decks :: "string \<Rightarrow> storage \<Rightarrow> string list list" where
  "stored_decks address ls =
     (case ls_decks ls (getCustomDecksStorageKey address) of Some decks \<Rightarrow> decks | None \<Rightarrow> [])"

definition store_decks :: "string \<Rightarrow> string list list \<Rightarrow> storage \<Rightarrow> storage" where
  "store_decks address decks ls = ls\<lparr>ls_decks := (ls_decks ls)(getCustomDecksStorageKey address \<mapsto> decks)\<rparr>"

definition deleteDeck :: "string \<Rightarrow> nat \<Rightarrow> storage \<Rightarrow> storage js" where
  "deleteDeck address deckIndex ls =
     (if deckIndex = 0 then throwError ''cannot delete default deck''
      else
        let decks = stored_decks address ls;
            ls = store_decks address (take (deckIndex - 1) decks @ drop deckIndex decks) ls
        in Inr (ls\<lparr>ls_index := (ls_index ls)(getSelectedDeckIndexStorageKey address := None)\<rparr>))"

definition every_id :: "string list \<Rightarrow> string list \<Rightarrow> bool" where
  "every_id deck' deck \<longleftrightarrow> list_all (\<lambda>(i, id'). js_at deck i = Some id') (List.enumerate 0 deck')"

definition addDeck ::
  "string \<Rightarrow> string list \<Rightarrow> EmoBases \<Rightarrow> string list \<Rightarrow> storage \<Rightarrow> storage js" where
  "addDeck address deck emoBases builtEmoBaseIds ls =
     mapR (\<lambda>defaultDeck.
         let decks = stored_decks address ls;
             isDup = list_ex (\<lambda>deck'. every_id deck' deck) (defaultDeck # decks)
         in if isDup then ls else store_decks address (decks @ [deck]) ls)
       (getDefaultDeck emoBases builtEmoBaseIds)"

definition selectDeckIndex ::
  "string \<Rightarrow> nat \<Rightarrow> EmoBases \<Rightarrow> string list \<Rightarrow> storage \<Rightarrow> storage js" where
  "selectDeckIndex address deckIndex emoBases builtEmoBaseIds ls =
     bindE (getDecks address emoBases builtEmoBaseIds ls) (\<lambda>(decks, _).
       if length decks \<le> deckIndex then throwError ''invalid deckIndex''
       else Inr (ls\<lparr>ls_index := (ls_index ls)(getSelectedDeckIndexStorageKey address \<mapsto> deckIndex)\<rparr>))"

section \<open>A dropdown (common/Dropdown.tsx)\<close>

text \<open>
  The element of the trigger, and the ids in the menu, each with whether it is the active one. A
  selected id may be missing (\<open>undefined\<close>).
\<close>

definition Dropdown :: "('id \<times> 'el) list \<Rightarrow> 'id option \<Rightarrow> ('el option \<times> ('id \<times> bool) list) js" where
  "Dropdown items selectedItemId =
     (if items = [] then Inr (None, [])
      else case find (\<lambda>(i, _). Some i = selectedItemId) items of
        None \<Rightarrow> throwError ''invalid dropdown state''
      | Some (_, element) \<Rightarrow> Inr (Some element, map (\<lambda>(i, _). (i, Some i = selectedItemId)) items))"

section \<open>The screen of the decks (Setup/Decks/index.tsx)\<close>

datatype deck_action =
  SelectDeck nat
| DeleteDeck nat
| BuildNewDeck
| ChooseBase nat string
| SaveDeck
| CancelDeck

record deck_button =
  db_label :: string
  db_disabled :: bool
  db_action :: deck_action

text \<open>
  The hooks of \<open>Decks\<close> and, while a deck is built, that of \<open>DeckBuilder\<close>; \<open>ds_deck\<close> is the deck of the
  screen around it, set by \<open>props.setDeck\<close>.
\<close>

record decks_screen =
  ds_storage :: storage
  ds_decks :: "string list list"
  ds_selectedDeckIndex :: "nat option"
  ds_builder :: "string list option"
  ds_deck :: "string list"

text \<open>What \<open>Decks\<close> gets from around it: the address, the bases and the ids a deck may be built from.\<close>

record decks_env =
  de_address :: string
  de_bases :: EmoBases
  de_built :: "string list"

definition updateDecksState :: "decks_env \<Rightarrow> decks_screen \<Rightarrow> decks_screen js" where
  "updateDecksState env ds =
     bindE (getDecks (de_address env) (de_bases env) (de_built env) (ds_storage ds)) (\<lambda>(decks, i).
       mapR (\<lambda>deck. ds\<lparr>ds_deck := deck, ds_decks := decks, ds_selectedDeckIndex := Some i\<rparr>)
         (orTypeError (js_at decks i)))"

definition initial_decks :: "storage \<Rightarrow> decks_screen" where
  "initial_decks ls =
     \<lparr>ds_storage = ls, ds_decks = [], ds_selectedDeckIndex = None, ds_builder = None, ds_deck = []\<rparr>"

record deck_line =
  dr_selected :: bool
  dr_controls :: "string list"
  dr_emos :: "Emo_props list"
  dr_stale :: bool
  dr_buttons :: "deck_button list"

definition deck_row :: "decks_env \<Rightarrow> nat option \<Rightarrow> nat \<Rightarrow> string list \<Rightarrow> deck_line js" where
  "deck_row env selectedDeckIndex i deck =
     (let selected = (selectedDeckIndex = Some i);
          isStaleDeck = (\<not> list_all (\<lambda>id'. id' \<in> set (de_built env)) deck);
          deletable = (\<not> (i = 0 \<or> selected))
      in bindE (mapE (\<lambda>eid.
             bindE (findEmoBaseByStringId eid (de_bases env)) (\<lambda>base.
             bindE (getGradeText (toStringU (eb_grade base))) (\<lambda>control.
             mapR (Pair control) (EmoBase base False False)))) deck) (\<lambda>rows.
         Inr \<lparr>dr_selected = selected, dr_controls = map fst rows, dr_emos = map snd rows,
           dr_stale = isStaleDeck,
           dr_buttons =
             \<lparr>db_label = (if selected then ''Selected'' else ''Select''),
              db_disabled = (selected \<or> isStaleDeck), db_action = SelectDeck i\<rparr> #
             (if i = 0 then []
              else [\<lparr>db_label = ''Delete'', db_disabled = (\<not> deletable), db_action = DeleteDeck i\<rparr>])\<rparr>))"

definition BasesDropdown ::
  "emo_Base list \<Rightarrow> string option \<Rightarrow> (Emo_props option \<times> (string \<times> bool) list) js" where
  "BasesDropdown bases selectedBaseId =
     bindE (mapE (\<lambda>base. mapR (Pair (toStringU (eb_id base))) (EmoBase base False False)) bases) (\<lambda>items.
       Dropdown items selectedBaseId)"

record builder_view =
  bu_controls :: "string list"
  bu_dropdowns :: "(Emo_props option \<times> (string \<times> bool) list) list"

definition DeckBuilder :: "decks_env \<Rightarrow> string list \<Rightarrow> builder_view js" where
  "DeckBuilder env selected =
     bindE (groupEmoBasesByGrades (de_bases env) (de_built env)) (\<lambda>basesByGrades.
     bindE (mapE (\<lambda>(grade, _). getGradeText grade) basesByGrades) (\<lambda>controls.
     mapR (\<lambda>emos. \<lparr>bu_controls = controls, bu_dropdowns = emos\<rparr>)
       (mapE (\<lambda>(i, (_, ms)). BasesDropdown ms (js_at selected i)) (List.enumerate 0 basesByGrades))))"

text \<open>What the dropdowns and the two buttons of the builder offer.\<close>

definition builder_actions :: "builder_view \<Rightarrow> deck_action list" where
  "builder_actions v =
     concat (map (\<lambda>(i, (_, ids)). map (\<lambda>(id', _). ChooseBase i id') ids) (List.enumerate 0 (bu_dropdowns v))) @
     [SaveDeck, CancelDeck]"

record Decks_view =
  dv_rows :: "deck_line list"
  dv_builder :: "builder_view option"

definition Decks :: "decks_env \<Rightarrow> decks_screen \<Rightarrow> Decks_view js" where
  "Decks env ds =
     bindE (mapE (\<lambda>(i, deck). deck_row env (ds_selectedDeckIndex ds) i deck)
         (List.enumerate 0 (ds_decks ds))) (\<lambda>rows.
       case ds_builder ds of
         None \<Rightarrow> Inr \<lparr>dv_rows = rows, dv_builder = None\<rparr>
       | Some selected \<Rightarrow>
           mapR (\<lambda>b. \<lparr>dv_rows = rows, dv_builder = Some b\<rparr>) (DeckBuilder env selected))"

definition decks_offered :: "Decks_view \<Rightarrow> deck_action list" where
  "decks_offered v =
     map db_action (filter (\<lambda>b. \<not> db_disabled b) (concat (map dr_buttons (dv_rows v)))) @
     (case dv_builder v of None \<Rightarrow> [BuildNewDeck] | Some b \<Rightarrow> builder_actions b)"

text \<open>
  The handlers. A base is chosen for a grade the builder shows, and \<open>selected\<close> has an element for each:
  the assignment is within the array.
\<close>

definition perform_deck :: "decks_env \<Rightarrow> deck_action \<Rightarrow> decks_screen \<Rightarrow> decks_screen js" where
  "perform_deck env a ds =
     (case a of
        SelectDeck i \<Rightarrow>
          bindE (selectDeckIndex (de_address env) i (de_bases env) (de_built env) (ds_storage ds)) (\<lambda>ls.
            updateDecksState env (ds\<lparr>ds_storage := ls\<rparr>))
      | DeleteDeck i \<Rightarrow>
          bindE (deleteDeck (de_address env) i (ds_storage ds)) (\<lambda>ls.
            updateDecksState env (ds\<lparr>ds_storage := ls\<rparr>))
      | BuildNewDeck \<Rightarrow>
          mapR (\<lambda>deck. ds\<lparr>ds_builder := Some deck\<rparr>) (getDefaultDeck (de_bases env) (de_built env))
      | ChooseBase i id' \<Rightarrow> Inr (ds\<lparr>ds_builder := map_option (\<lambda>selected. selected[i := id']) (ds_builder ds)\<rparr>)
      | SaveDeck \<Rightarrow>
          (case ds_builder ds of
             None \<Rightarrow> Inr ds
           | Some selected \<Rightarrow>
               bindE (addDeck (de_address env) selected (de_bases env) (de_built env) (ds_storage ds)) (\<lambda>ls.
                 updateDecksState env (ds\<lparr>ds_storage := ls, ds_builder := None\<rparr>)))
      | CancelDeck \<Rightarrow> updateDecksState env (ds\<lparr>ds_builder := None\<rparr>))"

inductive decks_step :: "decks_env \<Rightarrow> decks_screen \<Rightarrow> decks_screen \<Rightarrow> bool" for env where
  "Decks env ds = Inr v \<Longrightarrow> a \<in> set (decks_offered v) \<Longrightarrow> perform_deck env a ds = Inr ds' \<Longrightarrow>
   decks_step env ds ds'"

inductive_cases decks_stepE: "decks_step env ds ds'"


section \<open>The accounts (common/AccountsDropdown.tsx, Setup/Accounts.tsx)\<close>

definition AccountsDropdown ::
  "ExtensionAccount list \<Rightarrow> string \<Rightarrow> (string option \<times> (string \<times> bool) list) js" where
  "AccountsDropdown accounts playerAddress =
     Dropdown (map (\<lambda>a. (ea_address a,
         (case ea_name a of Some n \<Rightarrow> n | None \<Rightarrow> '''') @ '' '' @ ea_address a)) accounts)
       (Some playerAddress)"

record Accounts_view =
  av_dropdown :: "string option \<times> (string \<times> bool) list"
  av_ep :: string
  av_best :: "(string \<times> string) option"

text \<open>The leaderboard is there once it has been answered.\<close>

definition Accounts ::
  "nat \<Rightarrow> ExtensionAccount list \<Rightarrow> string \<Rightarrow> LeaderboardElement list option \<Rightarrow> Accounts_view js" where
  "Accounts ep extensionAccounts playerAddress leaderboard =
     (let playerOnLeaderboard =
            (case leaderboard of Some l \<Rightarrow> getPlayerFromLeaderboard l playerAddress | None \<Rightarrow> None)
      in mapR (\<lambda>dropdown. \<lparr>av_dropdown = dropdown, av_ep = show_nat ep,
           av_best = map_option (\<lambda>(rank, ep). (show_nat ep, show_nat rank)) playerOnLeaderboard\<rparr>)
         (AccountsDropdown extensionAccounts playerAddress))"

section \<open>What the setup waits for (SetupWrapper/)\<close>

text \<open>The hooks of \<open>SetupWrapper\<close>, with the account and the parts of the frame it sets.\<close>

record 'signer setup_wrapper =
  sw_account :: "'signer Account option"
  sw_waiting :: bool
  sw_blockMessage :: "string option"
  sw_extensionAccounts :: "ExtensionAccount list"
  sw_builtEmoBaseIds :: "string list"
  sw_ep :: "nat option"
  sw_message :: string

definition initial_wrapper :: "'signer Account option \<Rightarrow> 'signer setup_wrapper" where
  "initial_wrapper account =
     \<lparr>sw_account = account, sw_waiting = False, sw_blockMessage = None, sw_extensionAccounts = [],
      sw_builtEmoBaseIds = [], sw_ep = None, sw_message = ''''\<rparr>"

definition set_waiting :: "bool \<Rightarrow> 'signer setup_wrapper \<Rightarrow> 'signer setup_wrapper" where
  "set_waiting b sw = sw\<lparr>sw_waiting := b\<rparr>"

text \<open>Both questions are asked at once; the accounts are looked at first when neither is answered.\<close>

definition setup_accounts ::
  "'signer web3 \<Rightarrow> 'signer Connection \<Rightarrow> 'signer Account option \<Rightarrow> 'signer setup_wrapper \<Rightarrow>
   (string + 'signer Account \<times> ExtensionAccount list \<times> string list) js \<times> 'signer setup_wrapper" where
  "setup_accounts web3 connection account =
     withToggleAsync set_waiting (\<lambda>sw.
       (bindE (setupAccounts web3 connection account) (\<lambda>accounts.
        mapR (\<lambda>builtEmoBaseIds. map_sum id (\<lambda>(a, ext). (a, ext, map toStringU builtEmoBaseIds)) accounts)
          (cn_deckBuiltEmoBaseIds connection)), sw))"

text \<open>The first effect, when the component is mounted.\<close>

definition mount_effect ::
  "'signer web3 \<Rightarrow> 'signer Connection \<Rightarrow> 'signer setup_wrapper \<Rightarrow> 'signer setup_wrapper" where
  "mount_effect web3 connection sw =
     (case setup_accounts web3 connection (sw_account sw) sw of
        (Inl e, sw) \<Rightarrow> sw
      | (Inr (Inl message), sw) \<Rightarrow> sw\<lparr>sw_blockMessage := Some message\<rparr>
      | (Inr (Inr (account, ext, built)), sw) \<Rightarrow>
          sw\<lparr>sw_account := Some account, sw_extensionAccounts := ext, sw_builtEmoBaseIds := built\<rparr>)"

definition unfinished_message :: string where
  "unfinished_message = ''The previous match didn't finish successfully. '' @
     ''Your EP may decrease slightly in the next match.''"

text \<open>The second, when the account's address changes; an answer that fails changes nothing.\<close>

definition address_effect :: "'signer Connection \<Rightarrow> 'signer setup_wrapper \<Rightarrow> 'signer setup_wrapper" where
  "address_effect connection sw =
     (case sw_account sw of
        None \<Rightarrow> sw
      | Some account \<Rightarrow>
          let address = account_address account;
              sw = (case cn_playerEp connection address of
                  Inl e \<Rightarrow> sw
                | Inr ep \<Rightarrow> sw\<lparr>sw_ep := Some (case ep of Some n \<Rightarrow> toNumber n | None \<Rightarrow> initialEp)\<rparr>)
          in (case cn_playerMtcMutable connection address of
                Inl e \<Rightarrow> sw
              | Inr None \<Rightarrow> sw\<lparr>sw_message := ''''\<rparr>
              | Inr (Some _) \<Rightarrow> sw\<lparr>sw_message := unfinished_message\<rparr>))"

text \<open>Another account is chosen in the dropdown.\<close>

definition on_account ::
  "'signer web3 \<Rightarrow> 'signer Connection \<Rightarrow> string \<Rightarrow> string \<Rightarrow> 'signer setup_wrapper \<Rightarrow> 'signer setup_wrapper"
where
  "on_account web3 connection playerAddress address sw =
     (if address = playerAddress then sw
      else snd (withToggleAsync set_waiting (\<lambda>sw.
          case generateAccount web3 connection address of
            Inl e \<Rightarrow> (Inl e, sw)
          | Inr r \<Rightarrow> (Inr (), sw\<lparr>sw_account := Some r\<rparr>)) sw))"

section \<open>The screen (Setup/index.tsx)\<close>

text \<open>The button that starts a match: it needs a solution on the chain, and is gone after a click.\<close>

datatype start_button = Start_gone | Start_pow bool "nat option" | Start_plain

record Setup_view =
  sv_fee :: string
  sv_start :: start_button
  sv_accounts :: Accounts_view
  sv_leaderboardLink :: bool
  sv_message :: string
  sv_decks :: Decks_view

definition Setup ::
  "'signer Account \<Rightarrow> bool \<Rightarrow> nat option \<Rightarrow> nat \<Rightarrow> ExtensionAccount list \<Rightarrow> LeaderboardElement list option \<Rightarrow>
   string \<Rightarrow> decks_env \<Rightarrow> decks_screen \<Rightarrow> Setup_view js" where
  "Setup account hasPowButton solution ep extensionAccounts leaderboard message env ds =
     bindE (Accounts ep extensionAccounts (account_address account) leaderboard) (\<lambda>accounts.
     mapR (\<lambda>decks.
         \<lparr>sv_fee =
            (case account of
               Account_chain _ _ _ \<Rightarrow>
                 ''No fee is required. The popup will show the PoW solution on the tip field.''
             | Account_contract _ _ \<Rightarrow>
                 ''A small amount of SDN is necessary to cover transaction fees.'' @
                 ''Just 1 SDN is enough for dozens of matches.''),
          sv_start =
            (if \<not> hasPowButton then Start_gone
             else case account of
               Account_chain _ _ session \<Rightarrow> Start_pow (as_isActive session) solution
             | Account_contract _ _ \<Rightarrow> Start_plain),
          sv_accounts = accounts, sv_leaderboardLink = (account_kind account \<noteq> Kind_chain),
          sv_message = message, sv_decks = decks\<rparr>)
       (Decks env ds))"

text \<open>The deck and the solution a click on the button hands out; the click counts the solution.\<close>

definition start_click ::
  "'signer Account \<Rightarrow> start_button \<Rightarrow> decks_screen \<Rightarrow> (string list \<times> nat option \<times> 'signer Account) option" where
  "start_click account button' ds =
     (case button' of
        Start_gone \<Rightarrow> None
      | Start_plain \<Rightarrow> Some (ds_deck ds, None, account)
      | Start_pow isSession None \<Rightarrow> None
      | Start_pow isSession (Some s) \<Rightarrow> Some (ds_deck ds, Some s, count_pow isSession account))"

text \<open>\<open>SetupWrapper\<close> shows the screen once everything it needs is there.\<close>

definition setup_ready :: "'signer setup_wrapper \<Rightarrow> bool" where
  "setup_ready sw \<longleftrightarrow> sw_extensionAccounts sw \<noteq> [] \<and> sw_builtEmoBaseIds sw \<noteq> [] \<and>
     sw_account sw \<noteq> None \<and> (case sw_ep sw of Some ep \<Rightarrow> ep \<noteq> 0 | None \<Rightarrow> False)"

definition SetupWrapper ::
  "'signer setup_wrapper \<Rightarrow> bool \<Rightarrow> nat option \<Rightarrow> LeaderboardElement list option \<Rightarrow> EmoBases \<Rightarrow> decks_screen \<Rightarrow>
   Setup_view option js" where
  "SetupWrapper sw hasPowButton solution leaderboard bases ds =
     (if \<not> setup_ready sw then Inr None
      else case (sw_account sw, sw_ep sw) of
        (Some account, Some ep) \<Rightarrow>
          mapR Some (Setup account hasPowButton solution ep (sw_extensionAccounts sw) leaderboard
            (sw_message sw) \<lparr>de_address = account_address account, de_bases = bases,
              de_built = sw_builtEmoBaseIds sw\<rparr> ds)
      | _ \<Rightarrow> Inr None)"

end
