(* ===== verification/SetupFacts.thy ===== *)
theory SetupFacts
  imports SetupScreen MatchFlowFacts
begin

text \<open>
  Facts about the setup: a deck that is built or selected has one base of each grade, so that the pool
  of a match can be made of it, and the screen of the decks renders.
\<close>

section \<open>Decks that are choices\<close>

text \<open>A deck with one of the bases that may be chosen for each grade, in the order of the grades.\<close>

definition chosen :: "string \<Rightarrow> string \<times> emo_Base list \<Rightarrow> bool" where
  "chosen id' g \<longleftrightarrow> (\<exists>m\<in>set (snd g). id' = toStringU (eb_id m))"

definition choice_deck :: "decks_env \<Rightarrow> string list \<Rightarrow> bool" where
  "choice_deck env deck \<longleftrightarrow>
     (case groupEmoBasesByGrades (de_bases env) (de_built env) of
        Inl e \<Rightarrow> False | Inr gs \<Rightarrow> list_all2 chosen deck gs)"

lemma default_is_choice:
  assumes "getDefaultDeck (de_bases env) (de_built env) = Inr deck"
  shows "choice_deck env deck"
proof -
  obtain gs where gs: "groupEmoBasesByGrades (de_bases env) (de_built env) = Inr gs"
    and deck: "deck = map (\<lambda>(_, ms). toStringU (eb_id (hd ms))) gs"
    using assms by (rule getDefaultDeck_Inr)
  have "chosen (toStringU (eb_id (hd (snd g)))) g" if "g \<in> set gs" for g
    using group_of_grade(1) [OF gs, of "fst g" "snd g"] that by (auto simp: chosen_def)
  then have "list_all2 chosen deck gs"
    by (simp add: deck list_all2_conv_all_nth case_prod_unfold)
  then show ?thesis
    by (simp add: choice_deck_def gs)
qed

lemma choice_replaced:
  assumes "choice_deck env deck" "groupEmoBasesByGrades (de_bases env) (de_built env) = Inr gs"
    and "i < length gs" "chosen id' (gs ! i)"
  shows "choice_deck env (deck[i := id'])"
  using assms by (auto simp: choice_deck_def list_all2_conv_all_nth nth_list_update)

text \<open>
  Every choice is a deck the pool is built from: the ids are allowed, and no grade comes twice. The
  default deck is one of them.
\<close>

lemma choice_deck_built:
  assumes codec: "bases_ok codec" "de_bases env = buildEmoBases codec"
    and deck: "choice_deck env deck" "length deck = 6"
  shows "build_built_base_ids (map toUint16 deck) codec (map toUint16 (de_built env)) = Inr (map toUint16 deck)"
proof -
  from deck(1) obtain gs where gs: "groupEmoBasesByGrades (buildEmoBases codec) (de_built env) = Inr gs"
    and c: "list_all2 chosen deck gs"
    by (auto simp: choice_deck_def codec(2) split: sum.splits)
  then have "\<forall>k<length deck. \<exists>m. m \<in> set (snd (gs ! k)) \<and> deck ! k = toStringU (eb_id m)"
    by (auto simp: list_all2_conv_all_nth chosen_def)
  then obtain f where f: "\<And>k. k < length deck \<Longrightarrow> f k \<in> set (snd (gs ! k)) \<and> deck ! k = toStringU (eb_id (f k))"
    by metis
  let ?ms = "map f [0..<length deck]"
  have len: "length gs = length deck"
    using c by (simp add: list_all2_lengthD)
  have ids: "map toUint16 deck = map eb_id ?ms"
    by (rule nth_equalityI) (simp_all add: f)
  obtain found where found: "list_all2 (\<lambda>i m. findEmoBaseByStringId i (buildEmoBases codec) = Inr m) (de_built env) found"
    and sub: "\<forall>(k, ms')\<in>set gs. set ms' \<subseteq> set found"
    using set_groups_grades [OF gs] by blast
  have "find_base codec (eb_id m) = Inr m \<and> eb_id m \<in> set (map toUint16 (de_built env))" if "m \<in> set found" for m
  proof -
    from that obtain k where "k < length found" "m = found ! k"
      by (metis in_set_conv_nth)
    then have "findEmoBaseByStringId (de_built env ! k) (buildEmoBases codec) = Inr m" "de_built env ! k \<in> set (de_built env)"
      using found by (auto simp: list_all2_conv_all_nth)
    then show ?thesis
      using found_base [OF codec(1)] by force
  qed
  moreover have "f k \<in> set found" if "k < length deck" for k
  proof -
    have "(fst (gs ! k), snd (gs ! k)) \<in> set gs" using that len by simp
    with sub have "set (snd (gs ! k)) \<subseteq> set found" by blast
    then show ?thesis using f [OF that] by blast
  qed
  then have "set ?ms \<subseteq> set found" by auto
  ultimately have ok: "\<forall>m\<in>set ?ms. find_base codec (eb_id m) = Inr m \<and> eb_id m \<in> set (map toUint16 (de_built env))"
    by blast
  have grade: "toNumber (eb_grade (f k)) = grade_order (gs ! k)" if "k < length deck" for k
  proof -
    have g: "(fst (gs ! k), snd (gs ! k)) \<in> set gs" using that len by simp
    then have "eb_grade (f k) = eb_grade (hd (snd (gs ! k)))"
      using group_of_grade(1,2) [OF gs g] f [OF that] by (metis hd_in_set show_grade_inject)
    then show ?thesis
      using group_of_grade(3) [OF gs g] by simp
  qed
  have "distinct (map eb_grade ?ms)"
    unfolding distinct_conv_nth
  proof (intro allI impI)
    fix i j assume ij: "i < length (map eb_grade ?ms)" "j < length (map eb_grade ?ms)" "i \<noteq> j"
    then have "grade_order (gs ! i) \<noteq> grade_order (gs ! j)"
      using grades_sorted(2) [OF gs] len by (simp add: distinct_conv_nth)
    then show "map eb_grade ?ms ! i \<noteq> map eb_grade ?ms ! j"
      using ij grade [of i] grade [of j] by auto
  qed
  then have "foldE (build_built_base_ids_step codec (map toUint16 (de_built env))) ([], []) (map eb_id ?ms) =
      Inr ([] @ map eb_id ?ms, [] @ map eb_grade ?ms)"
    by (intro built_ids_loop [OF ok]) simp_all
  then show ?thesis
    unfolding build_built_base_ids_def ids using deck(2) by (simp del: map_map)
qed

section \<open>The invariant of the screen of the decks\<close>

definition decks_inv :: "decks_env \<Rightarrow> decks_screen \<Rightarrow> bool" where
  "decks_inv env ds \<longleftrightarrow>
     list_all (choice_deck env) (stored_decks (de_address env) (ds_storage ds)) \<and>
     list_all (choice_deck env) (ds_decks ds) \<and>
     (case ds_builder ds of None \<Rightarrow> True | Some selected \<Rightarrow> choice_deck env selected) \<and>
     (case ds_selectedDeckIndex ds of
        None \<Rightarrow> ds_decks ds = [] \<and> ds_deck ds = []
      | Some i \<Rightarrow> i < length (ds_decks ds) \<and> ds_deck ds = ds_decks ds ! i)"

lemma getDecks_Inr:
  assumes "getDecks address bases built ls = Inr (decks, i)"
  shows "\<exists>default. getDefaultDeck bases built = Inr default \<and>
    decks = default # stored_decks address ls" "i < length decks"
  using assms
  by (auto simp: getDecks_def mapR_eq_Inr_iff stored_decks_def Let_def split: option.splits)

lemma update_inv:
  assumes "updateDecksState env ds = Inr ds'" "decks_inv env ds"
  shows "decks_inv env ds'"
proof -
  from assms(1) obtain decks i deck where
    d: "getDecks (de_address env) (de_bases env) (de_built env) (ds_storage ds) = Inr (decks, i)"
    and ds': "ds' = ds\<lparr>ds_deck := deck, ds_decks := decks, ds_selectedDeckIndex := Some i\<rparr>" "deck = decks ! i"
    by (auto simp: updateDecksState_def bindE_eq_Inr_iff mapR_eq_Inr_iff orTypeError_eq_Inr_iff js_at_eq_Some_iff)
  show ?thesis
    using getDecks_Inr [OF d] default_is_choice [of env] assms(2) by (auto simp: decks_inv_def ds')
qed

lemma update_inv_at:
  assumes "updateDecksState env (ds\<lparr>ds_storage := ls, ds_builder := b\<rparr>) = Inr ds'" "decks_inv env ds"
    and "list_all (choice_deck env) (stored_decks (de_address env) ls)"
    and "case b of None \<Rightarrow> True | Some selected \<Rightarrow> choice_deck env selected"
  shows "decks_inv env ds'"
  by (rule update_inv [OF assms(1)])
    (use assms(2-4) in \<open>auto simp: decks_inv_def split: option.splits\<close>)

lemma stored_store [simp]: "stored_decks address (store_decks address decks ls) = decks"
  by (simp add: stored_decks_def store_decks_def)

lemma stored_index [simp]: "stored_decks address (ls\<lparr>ls_index := f\<rparr>) = stored_decks address ls"
  by (simp add: stored_decks_def)

lemma dropdown_ids:
  assumes "BasesDropdown ms selected = Inr (element, ids)"
  shows "fst ` set ids \<subseteq> (\<lambda>m. toStringU (eb_id m)) ` set ms"
proof -
  from assms obtain items where items: "mapE (\<lambda>base. mapR (Pair (toStringU (eb_id base))) (EmoBase base False False)) ms = Inr items"
    and d: "Dropdown items selected = Inr (element, ids)"
    by (auto simp: BasesDropdown_def bindE_eq_Inr_iff)
  have "fst ` set ids \<subseteq> fst ` set items"
    using d by (force simp: Dropdown_def split: if_splits option.splits)
  moreover have "fst ` set items \<subseteq> (\<lambda>m. toStringU (eb_id m)) ` set ms"
    using mapE_member [OF items] by (fastforce simp: mapR_eq_Inr_iff)
  ultimately show ?thesis by (rule subset_trans)
qed

lemma builder_offers:
  assumes "DeckBuilder env selected = Inr b" "ChooseBase i id' \<in> set (builder_actions b)"
  obtains gs where "groupEmoBasesByGrades (de_bases env) (de_built env) = Inr gs" "i < length gs" "chosen id' (gs ! i)"
proof -
  from assms(1) obtain gs where gs: "groupEmoBasesByGrades (de_bases env) (de_built env) = Inr gs"
    and emos: "mapE (\<lambda>(i, (_, ms)). BasesDropdown ms (js_at selected i)) (List.enumerate 0 gs) = Inr (bu_dropdowns b)"
    by (auto simp: DeckBuilder_def bindE_eq_Inr_iff mapR_eq_Inr_iff)
  from mapE_length [OF emos] have len: "length (bu_dropdowns b) = length gs" by simp
  from assms(2) have "i < length gs" "id' \<in> fst ` set (snd (bu_dropdowns b ! i))"
    by (auto simp: builder_actions_def enumerate_nth len case_prod_unfold image_iff)
  then obtain element ids where i: "i < length gs" "bu_dropdowns b ! i = (element, ids)" "id' \<in> fst ` set ids"
    by (cases "bu_dropdowns b ! i") auto
  with emos have "BasesDropdown (snd (gs ! i)) (js_at selected i) = Inr (element, ids)"
    by (auto simp: mapE_eq_Inr_iff list_all2_conv_all_nth nth_enumerate_eq case_prod_unfold)
  from dropdown_ids [OF this] i(3) have "chosen id' (gs ! i)"
    by (auto simp: chosen_def)
  with gs i(1) show thesis by (rule that)
qed

lemma row_actions:
  "deck_row env sel i deck = Inr r \<Longrightarrow> b \<in> set (dr_buttons r) \<Longrightarrow> db_action b = SelectDeck i \<or> db_action b = DeleteDeck i"
  by (auto simp: deck_row_def Let_def bindE_eq_Inr_iff split: if_splits)

lemma Decks_builder:
  assumes "Decks env ds = Inr v" "ChooseBase i id' \<in> set (decks_offered v)"
  obtains b selected where "ds_builder ds = Some selected" "DeckBuilder env selected = Inr b"
    "ChooseBase i id' \<in> set (builder_actions b)"
proof -
  from assms(1) have rows: "mapE (\<lambda>(i, deck). deck_row env (ds_selectedDeckIndex ds) i deck)
      (List.enumerate 0 (ds_decks ds)) = Inr (dv_rows v)"
    by (auto simp: Decks_def bindE_eq_Inr_iff mapR_eq_Inr_iff split: option.splits)
  have "db_action b \<noteq> ChooseBase i id'" if "r \<in> set (dv_rows v)" "b \<in> set (dr_buttons r)" for r b
    using mapE_member [OF rows that(1)] row_actions [OF _ that(2)] by fastforce
  then have "ChooseBase i id' \<in> set (case dv_builder v of None \<Rightarrow> [BuildNewDeck] | Some b \<Rightarrow> builder_actions b)"
    using assms(2) by (fastforce simp: decks_offered_def)
  then show thesis
    using assms(1) that by (auto simp: Decks_def bindE_eq_Inr_iff mapR_eq_Inr_iff split: option.splits)
qed

lemma decks_step_inv:
  assumes "decks_step env ds ds'" "decks_inv env ds"
  shows "decks_inv env ds'"
proof -
  from assms(1) obtain v a where v: "Decks env ds = Inr v" "a \<in> set (decks_offered v)"
    and p: "perform_deck env a ds = Inr ds'"
    by (rule decks_stepE)
  have stored: "list_all (choice_deck env) (stored_decks (de_address env) (ds_storage ds))"
    and builder: "case ds_builder ds of None \<Rightarrow> True | Some selected \<Rightarrow> choice_deck env selected"
    using assms(2) by (simp_all add: decks_inv_def)
  show ?thesis
  proof (cases a)
    case (SelectDeck i)
    then obtain ls where "selectDeckIndex (de_address env) i (de_bases env) (de_built env) (ds_storage ds) = Inr ls"
      and u: "updateDecksState env (ds\<lparr>ds_storage := ls\<rparr>) = Inr ds'"
      using p by (auto simp: perform_deck_def bindE_eq_Inr_iff)
    then have "stored_decks (de_address env) ls = stored_decks (de_address env) (ds_storage ds)"
      by (auto simp: selectDeckIndex_def bindE_eq_Inr_iff split: if_splits)
    then show ?thesis
      using update_inv_at [where env = env and ds = ds and ls = ls and b = "ds_builder ds"] u assms(2) stored builder by simp
  next
    case (DeleteDeck i)
    then obtain ls where ls: "deleteDeck (de_address env) i (ds_storage ds) = Inr ls"
      and u: "updateDecksState env (ds\<lparr>ds_storage := ls\<rparr>) = Inr ds'"
      using p by (auto simp: perform_deck_def bindE_eq_Inr_iff)
    from ls have "stored_decks (de_address env) ls =
        take (i - 1) (stored_decks (de_address env) (ds_storage ds)) @ drop i (stored_decks (de_address env) (ds_storage ds))"
      by (auto simp: deleteDeck_def Let_def split: if_splits)
    then have "list_all (choice_deck env) (stored_decks (de_address env) ls)"
      using stored by (auto simp: list_all_iff dest: in_set_takeD in_set_dropD)
    then show ?thesis
      using update_inv_at [where env = env and ds = ds and ls = ls and b = "ds_builder ds"] u assms(2) builder by simp
  next
    case BuildNewDeck
    then show ?thesis
      using p assms(2) default_is_choice [of env]
      by (auto simp: perform_deck_def mapR_eq_Inr_iff decks_inv_def split: option.splits)
  next
    case (ChooseBase i id')
    then obtain b selected where b: "ds_builder ds = Some selected" "DeckBuilder env selected = Inr b"
      "ChooseBase i id' \<in> set (builder_actions b)"
      using v Decks_builder by blast
    from builder_offers [OF b(2,3)] show ?thesis
      using choice_replaced builder p ChooseBase b(1) assms(2)
      by (fastforce simp: perform_deck_def decks_inv_def split: option.splits)
  next
    case SaveDeck
    show ?thesis
    proof (cases "ds_builder ds")
      case None
      then show ?thesis using p SaveDeck assms(2) by (simp add: perform_deck_def)
    next
      case (Some selected)
      then obtain ls where ls: "addDeck (de_address env) selected (de_bases env) (de_built env) (ds_storage ds) = Inr ls"
        and u: "updateDecksState env (ds\<lparr>ds_storage := ls, ds_builder := None\<rparr>) = Inr ds'"
        using p SaveDeck by (auto simp: perform_deck_def bindE_eq_Inr_iff)
      have "list_all (choice_deck env) (stored_decks (de_address env) ls)"
        using ls stored builder Some by (auto simp: addDeck_def mapR_eq_Inr_iff Let_def split: if_splits)
      then show ?thesis
        using update_inv_at [OF u assms(2)] by simp
    qed
  next
    case CancelDeck
    then show ?thesis
      using update_inv_at [where env = env and ds = ds and ls = "ds_storage ds" and b = None] p assms(2) stored by (simp add: perform_deck_def)
  qed
qed

text \<open>The states of the screen, from its first update on.\<close>

definition decks_reached :: "decks_env \<Rightarrow> storage \<Rightarrow> decks_screen \<Rightarrow> bool" where
  "decks_reached env ls ds \<longleftrightarrow>
     (\<exists>ds0. updateDecksState env (initial_decks ls) = Inr ds0 \<and> (decks_step env)\<^sup>*\<^sup>* ds0 ds)"

lemma decks_reached_inv:
  assumes "decks_reached env ls ds" "list_all (choice_deck env) (stored_decks (de_address env) ls)"
  shows "decks_inv env ds"
proof -
  from assms(1) obtain ds0 where u: "updateDecksState env (initial_decks ls) = Inr ds0"
    and run: "(decks_step env)\<^sup>*\<^sup>* ds0 ds"
    by (auto simp: decks_reached_def)
  have "decks_inv env (initial_decks ls)"
    using assms(2) by (simp add: decks_inv_def initial_decks_def)
  with u have "decks_inv env ds0" by (rule update_inv)
  with run show ?thesis
    by (induction rule: rtranclp_induct) (auto intro: decks_step_inv)
qed

section \<open>The screen of the decks renders\<close>

text \<open>The bases have a grade with a text and the code point of a character.\<close>

definition bases_shown :: "EmoBases \<Rightarrow> bool" where
  "bases_shown bases \<longleftrightarrow> bases_ok (bs_codec bases) \<and> buildEmoBases (bs_codec bases) = bases \<and>
     list_all (\<lambda>(k, b). 1 \<le> eb_grade b \<and> eb_grade b \<le> 6 \<and> \<not> isl (getEmoBaseEmoji b)) (bs_codec bases)"

lemma found_shown:
  assumes "bases_shown bases" "findEmoBaseByStringId s bases = Inr m"
  shows "findEmoBaseByStringId (toStringU (eb_id m)) bases = Inr m" "\<exists>t. getGradeText (toStringU (eb_grade m)) = Inr t"
    "\<exists>p. EmoBase m b b' = Inr p"
proof -
  have ok: "bases_ok (bs_codec bases)" and codec: "buildEmoBases (bs_codec bases) = bases"
    using assms(1) by (simp_all add: bases_shown_def)
  note f = found_base [OF ok, unfolded codec, OF assms(2)]
  from assms(2) f(1) show "findEmoBaseByStringId (toStringU (eb_id m)) bases = Inr m" by simp
  have "(eb_id m, m) \<in> set (bs_codec bases)"
    using f(2) by (auto simp: find_base_def split: option.splits dest: map_of_SomeD)
  with assms(1) have m: "1 \<le> eb_grade m" "eb_grade m \<le> 6" "\<not> isl (getEmoBaseEmoji m)"
    by (auto simp: bases_shown_def list_all_iff)
  then show "\<exists>t. getGradeText (toStringU (eb_grade m)) = Inr t"
    using getGradeText_ok_iff [of "toNumber (eb_grade m)"] by (simp add: toStringU_def word_le_nat_alt)
  from m(3) show "\<exists>p. EmoBase m b b' = Inr p"
    by (cases "getEmoBaseEmoji m") (auto simp: EmoBase_def)
qed

lemma group_found:
  assumes "groupEmoBasesByGrades bases built = Inr gs" "g \<in> set gs" "m \<in> set (snd g)"
  shows "\<exists>s. findEmoBaseByStringId s bases = Inr m"
proof -
  obtain found where found: "list_all2 (\<lambda>i m. findEmoBaseByStringId i bases = Inr m) built found"
    and sub: "\<forall>(k, ms')\<in>set gs. set ms' \<subseteq> set found"
    using set_groups_grades [OF assms(1)] by blast
  have "m \<in> set found"
    using sub assms(2,3) by (cases g) auto
  then obtain k where "k < length found" "m = found ! k"
    by (auto simp: in_set_conv_nth)
  then show ?thesis
    using found by (auto simp: list_all2_conv_all_nth)
qed

lemma choice_found:
  assumes "bases_shown (de_bases env)" "choice_deck env deck" "s \<in> set deck"
  shows "\<exists>m. findEmoBaseByStringId s (de_bases env) = Inr m"
proof -
  from assms(2) obtain gs where gs: "groupEmoBasesByGrades (de_bases env) (de_built env) = Inr gs"
    and c: "list_all2 chosen deck gs"
    by (auto simp: choice_deck_def split: sum.splits)
  from assms(3) obtain k where "k < length deck" "s = deck ! k" by (metis in_set_conv_nth)
  with c obtain m where m: "gs ! k \<in> set gs" "m \<in> set (snd (gs ! k))" "s = toStringU (eb_id m)"
    by (auto simp: list_all2_conv_all_nth chosen_def)
  from group_found [OF gs m(1,2)] found_shown(1) [OF assms(1)] m(3) show ?thesis by blast
qed

lemma deck_row_ok:
  assumes "bases_shown (de_bases env)" "\<forall>s\<in>set deck. \<exists>m. findEmoBaseByStringId s (de_bases env) = Inr m"
  shows "\<exists>r. deck_row env sel i deck = Inr r"
proof -
  have "\<exists>y. bindE (findEmoBaseByStringId eid (de_bases env)) (\<lambda>base.
      bindE (getGradeText (toStringU (eb_grade base))) (\<lambda>control. mapR (Pair control) (EmoBase base False False))) = Inr y"
    if s: "eid \<in> set deck" for eid
  proof -
    from assms(2) s obtain m where m: "findEmoBaseByStringId eid (de_bases env) = Inr m" by blast
    obtain t p where "getGradeText (toStringU (eb_grade m)) = Inr t" "EmoBase m False False = Inr p"
      using found_shown(2,3) [OF assms(1) m] by meson
    with m show ?thesis by simp
  qed
  then have "\<exists>rows. mapE (\<lambda>eid. bindE (findEmoBaseByStringId eid (de_bases env)) (\<lambda>base.
      bindE (getGradeText (toStringU (eb_grade base))) (\<lambda>control. mapR (Pair control) (EmoBase base False False)))) deck
      = Inr rows"
    unfolding mapE_ok_iff by blast
  then show ?thesis
    by (auto simp: deck_row_def Let_def)
qed

lemma BasesDropdown_ok:
  assumes "\<forall>m\<in>set ms. \<exists>p. EmoBase m False False = Inr p" "chosen s (k, ms)"
  shows "\<exists>d. BasesDropdown ms (Some s) = Inr d"
proof -
  let ?f = "\<lambda>base. mapR (Pair (toStringU (eb_id base))) (EmoBase base False False)"
  obtain items where items: "mapE ?f ms = Inr items"
    using assms(1) mapE_ok_iff [of ?f ms] by auto
  from assms(2) obtain k' where "k' < length ms" "s = toStringU (eb_id (ms ! k'))"
    by (auto simp: chosen_def in_set_conv_nth)
  then have "items ! k' \<in> set items" "fst (items ! k') = s"
    using items by (auto simp: mapE_eq_Inr_iff list_all2_conv_all_nth mapR_eq_Inr_iff)
  then have "\<exists>x. x \<in> set items \<and> (case x of (i, _) \<Rightarrow> Some i = Some s)"
    by (intro exI [of _ "items ! k'"]) (simp add: case_prod_unfold)
  then have "find (\<lambda>(i, _). Some i = Some s) items \<noteq> None"
    by (simp only: find_None_iff not_not)
  then show ?thesis
    using items by (auto simp: BasesDropdown_def Dropdown_def)
qed

lemma DeckBuilder_ok:
  assumes "bases_shown (de_bases env)" "choice_deck env selected"
  shows "\<exists>b. DeckBuilder env selected = Inr b"
proof -
  from assms(2) obtain gs where gs: "groupEmoBasesByGrades (de_bases env) (de_built env) = Inr gs"
    and c: "list_all2 chosen selected gs"
    by (auto simp: choice_deck_def split: sum.splits)
  have "\<exists>t. getGradeText (fst g) = Inr t" if g: "g \<in> set gs" for g
  proof -
    have "snd g \<noteq> []" "\<forall>m\<in>set (snd g). toStringU (eb_grade m) = fst g"
      using group_of_grade(1,2) [OF gs, of "fst g" "snd g"] g by simp_all
    then obtain m where m: "m \<in> set (snd g)" "toStringU (eb_grade m) = fst g"
      by (metis hd_in_set)
    from group_found [OF gs g m(1)] found_shown(2) [OF assms(1)] m(2) show ?thesis by metis
  qed
  then have "\<exists>controls. mapE (\<lambda>(grade, _). getGradeText grade) gs = Inr controls"
    unfolding mapE_ok_iff by (auto simp: case_prod_unfold)
  moreover have "\<exists>d. BasesDropdown (snd (gs ! i)) (js_at selected i) = Inr d" if i: "i < length gs" for i
  proof -
    have "\<forall>m\<in>set (snd (gs ! i)). \<exists>p. EmoBase m False False = Inr p"
      using group_found [OF gs nth_mem [OF i]] found_shown(3) [OF assms(1)] by blast
    moreover have "chosen (selected ! i) (gs ! i)" "i < length selected"
      using c i by (auto simp: list_all2_conv_all_nth)
    ultimately show ?thesis
      using BasesDropdown_ok [of "snd (gs ! i)" "selected ! i" "fst (gs ! i)"] by (simp add: js_at_def)
  qed
  then have "\<exists>emos. mapE (\<lambda>(i, (_, ms)). BasesDropdown ms (js_at selected i)) (List.enumerate 0 gs) = Inr emos"
    unfolding mapE_ok_iff by (auto simp: enumerate_nth case_prod_unfold)
  ultimately show ?thesis
    by (auto simp: DeckBuilder_def gs)
qed

lemma Decks_ok:
  assumes "bases_shown (de_bases env)" "decks_inv env ds"
  shows "\<exists>v. Decks env ds = Inr v"
proof -
  have "\<exists>r. deck_row env (ds_selectedDeckIndex ds) i deck = Inr r" if "deck \<in> set (ds_decks ds)" for i deck
    by (rule deck_row_ok [OF assms(1)])
      (use choice_found [OF assms(1)] assms(2) that in \<open>auto simp: decks_inv_def list_all_iff\<close>)
  then have "\<exists>rows. mapE (\<lambda>(i, deck). deck_row env (ds_selectedDeckIndex ds) i deck) (List.enumerate 0 (ds_decks ds)) =
      Inr rows"
    unfolding mapE_ok_iff by (auto simp: enumerate_nth)
  moreover have "\<exists>b. DeckBuilder env selected = Inr b" if "ds_builder ds = Some selected" for selected
    using DeckBuilder_ok [OF assms(1)] assms(2) that by (simp add: decks_inv_def)
  ultimately show ?thesis
    by (auto simp: Decks_def split: option.splits)
qed


section \<open>The storage\<close>

lemma every_id_same_length: "length d = length deck \<Longrightarrow> every_id d deck \<longleftrightarrow> d = deck"
  by (auto simp: every_id_def enumerate_nth list_all_iff js_at_def intro: nth_equalityI)

text \<open>What is added is there, at the end, unless it was; what is selected is selected; a deletion deletes one.\<close>

lemma addDeck_getDecks:
  assumes "addDeck address deck bases built ls = Inr ls'" "getDecks address bases built ls = Inr (decks, i)"
    and "\<forall>d\<in>set decks. length d = length deck"
  shows "\<exists>j. getDecks address bases built ls' = Inr (if deck \<in> set decks then decks else decks @ [deck], j)"
proof -
  from assms(1) obtain default where d: "getDefaultDeck bases built = Inr default"
    and ls': "ls' = (if list_ex (\<lambda>d. every_id d deck) (default # stored_decks address ls) then ls
      else store_decks address (stored_decks address ls @ [deck]) ls)"
    by (auto simp: addDeck_def mapR_eq_Inr_iff Let_def)
  have decks: "decks = default # stored_decks address ls"
    using getDecks_Inr(1) [OF assms(2)] d by auto
  have dup: "list_ex (\<lambda>d. every_id d deck) (default # stored_decks address ls) \<longleftrightarrow> deck \<in> set decks"
    using assms(3) every_id_same_length unfolding decks by (auto simp: list_ex_iff)
  show ?thesis
  proof (cases "deck \<in> set decks")
    case True
    then show ?thesis using ls' dup assms(2) by simp
  next
    case False
    then have "ls' = store_decks address (stored_decks address ls @ [deck]) ls"
      using ls' dup by simp
    then show ?thesis
      using False d decks by (simp add: getDecks_def store_decks_def Let_def split: option.splits)
  qed
qed

lemma selectDeckIndex_getDecks:
  assumes "selectDeckIndex address i bases built ls = Inr ls'" "0 < i"
  shows "\<exists>decks. getDecks address bases built ls' = Inr (decks, i)"
proof -
  from assms(1) obtain decks j where d: "getDecks address bases built ls = Inr (decks, j)" "i < length decks"
    and ls': "ls' = ls\<lparr>ls_index := (ls_index ls)(getSelectedDeckIndexStorageKey address \<mapsto> i)\<rparr>"
    by (auto simp: selectDeckIndex_def bindE_eq_Inr_iff split: if_splits)
  then obtain default where default: "getDefaultDeck bases built = Inr default"
    using getDecks_Inr(1) by blast
  show ?thesis
  proof (cases "ls_decks ls (getCustomDecksStorageKey address)")
    case None
    with d default assms(2) show ?thesis
      by (auto simp: getDecks_def)
  next
    case (Some custom)
    with d(1) default have "decks = default # custom"
      by (auto simp: getDecks_def Let_def split: option.splits)
    with Some default d(2) show ?thesis
      by (simp add: getDecks_def ls' Let_def)
  qed
qed

lemma deleteDeck_getDecks:
  assumes "deleteDeck address i ls = Inr ls'" "getDecks address bases built ls = Inr (decks, j)"
  shows "getDecks address bases built ls' = Inr (take i decks @ drop (Suc i) decks, 0)"
proof -
  from assms(1) obtain k where i: "i = Suc k"
    by (cases i) (auto simp: deleteDeck_def)
  with assms(1) have ls': "ls' = store_decks address (take k (stored_decks address ls) @ drop i (stored_decks address ls)) ls
      \<lparr>ls_index := (ls_index ls)(getSelectedDeckIndexStorageKey address := None)\<rparr>"
    by (simp add: deleteDeck_def Let_def store_decks_def)
  from getDecks_Inr(1) [OF assms(2)] obtain default where "getDefaultDeck bases built = Inr default"
    "decks = default # stored_decks address ls" by blast
  then show ?thesis
    by (simp add: getDecks_def ls' store_decks_def i Let_def)
qed

lemma mapE_at: "mapE f xs = Inr ys \<Longrightarrow> x \<in> set xs \<Longrightarrow> \<exists>y. f x = Inr y"
  using mapE_ok_iff by metis

text \<open>A deck with a base that is not known stops the screen.\<close>

lemma unknown_base_stops:
  assumes "deck \<in> set (ds_decks ds)" "s \<in> set deck" "findEmoBaseByStringId s (de_bases env) = Inl e"
  shows "\<exists>e'. Decks env ds = Inl e'"
proof (rule ccontr)
  assume "\<nexists>e'. Decks env ds = Inl e'"
  then obtain v where "Decks env ds = Inr v" by (cases "Decks env ds") auto
  then obtain rows where rows: "mapE (\<lambda>(i, deck). deck_row env (ds_selectedDeckIndex ds) i deck)
      (List.enumerate 0 (ds_decks ds)) = Inr rows"
    by (auto simp: Decks_def bindE_eq_Inr_iff)
  from assms(1) obtain i where "i < length (ds_decks ds)" "deck = ds_decks ds ! i"
    by (metis in_set_conv_nth)
  then have "(i, deck) \<in> set (List.enumerate 0 (ds_decks ds))"
    by (auto simp: enumerate_nth)
  from mapE_at [OF rows this] obtain r where "deck_row env (ds_selectedDeckIndex ds) i deck = Inr r"
    by auto
  then obtain rs where rs: "mapE (\<lambda>eid. bindE (findEmoBaseByStringId eid (de_bases env)) (\<lambda>base.
      bindE (getGradeText (toStringU (eb_grade base))) (\<lambda>control. mapR (Pair control) (EmoBase base False False)))) deck
      = Inr rs"
    by (auto simp: deck_row_def Let_def bindE_eq_Inr_iff)
  from mapE_at [OF rs assms(2)] assms(3) show False
    by simp
qed

section \<open>The screen around it\<close>

definition wrapper_ok :: "'signer setup_wrapper \<Rightarrow> bool" where
  "wrapper_ok sw \<longleftrightarrow> sw_extensionAccounts sw = [] \<or>
     (case sw_account sw of
        None \<Rightarrow> False | Some a \<Rightarrow> account_address a \<in> ea_address ` set (sw_extensionAccounts sw))"

lemma set_waiting_simps [simp]:
  "sw_account (set_waiting b sw) = sw_account sw" "sw_extensionAccounts (set_waiting b sw) = sw_extensionAccounts sw"
  "sw_builtEmoBaseIds (set_waiting b sw) = sw_builtEmoBaseIds sw" "sw_ep (set_waiting b sw) = sw_ep sw"
  by (simp_all add: set_waiting_def)

lemma mount_ok:
  assumes "sw_extensionAccounts sw = []"
  shows "wrapper_ok (mount_effect web3 connection sw)"
proof (cases "setupAccounts web3 connection (sw_account sw)")
  case (Inl e)
  then show ?thesis
    using assms by (simp add: mount_effect_def setup_accounts_def withToggleAsync_def wrapper_ok_def)
next
  case (Inr r)
  show ?thesis
  proof (cases r)
    case (Inl m)
    then show ?thesis
      using Inr assms
      by (cases "cn_deckBuiltEmoBaseIds connection")
        (simp_all add: mount_effect_def setup_accounts_def withToggleAsync_def wrapper_ok_def)
  next
    case r: (Inr q)
    obtain a ext where q: "q = (a, ext)" by (cases q)
    show ?thesis
      using Inr r q assms setupAccounts_address(1) [of web3 connection "sw_account sw" a ext]
      by (cases "cn_deckBuiltEmoBaseIds connection")
        (simp_all add: mount_effect_def setup_accounts_def withToggleAsync_def wrapper_ok_def)
  qed
qed

lemma address_effect_ok: "wrapper_ok sw \<Longrightarrow> wrapper_ok (address_effect connection sw)"
  by (auto simp: address_effect_def wrapper_ok_def Let_def split: option.splits sum.splits)

lemma generateAccount_address: "generateAccount web3 connection p = Inr a \<Longrightarrow> account_address a = p"
  by (cases "cn_kind connection") (auto simp: generateAccount_def bindE_eq_Inr_iff mapR_eq_Inr_iff)

lemma on_account_ok:
  assumes "wrapper_ok sw" "address \<in> ea_address ` set (sw_extensionAccounts sw)"
  shows "wrapper_ok (on_account web3 connection playerAddress address sw)"
proof (cases "generateAccount web3 connection address")
  case (Inl e)
  then show ?thesis
    using assms(1) by (simp add: on_account_def withToggleAsync_def wrapper_ok_def split: option.splits)
next
  case (Inr a)
  then show ?thesis
    using assms generateAccount_address [OF Inr]
    by (simp add: on_account_def withToggleAsync_def wrapper_ok_def)
qed

lemma AccountsDropdown_ok:
  assumes "address \<in> ea_address ` set accounts"
  shows "\<exists>d. AccountsDropdown accounts address = Inr d"
proof -
  from assms obtain a where "a \<in> set accounts" "ea_address a = address" by auto
  then have "find (\<lambda>(i, _). Some i = Some address)
      (map (\<lambda>a. (ea_address a, (case ea_name a of Some n \<Rightarrow> n | None \<Rightarrow> '''') @ '' '' @ ea_address a)) accounts) \<noteq> None"
    by (auto simp: find_None_iff)
  then show ?thesis
    by (auto simp: AccountsDropdown_def Dropdown_def)
qed

lemma Setup_ok:
  assumes "wrapper_ok sw" "bases_shown bases"
    and "case sw_account sw of None \<Rightarrow> True | Some a \<Rightarrow>
      decks_inv \<lparr>de_address = account_address a, de_bases = bases, de_built = sw_builtEmoBaseIds sw\<rparr> ds"
  shows "\<exists>v. SetupWrapper sw hasPowButton solution leaderboard bases ds = Inr v"
proof (cases "setup_ready sw")
  case True
  then obtain a ep where a: "sw_account sw = Some a" "sw_ep sw = Some ep" "sw_extensionAccounts sw \<noteq> []"
    by (auto simp: setup_ready_def split: option.splits)
  then obtain d where "AccountsDropdown (sw_extensionAccounts sw) (account_address a) = Inr d"
    using assms(1) AccountsDropdown_ok by (fastforce simp: wrapper_ok_def)
  moreover obtain v where "Decks \<lparr>de_address = account_address a, de_bases = bases, de_built = sw_builtEmoBaseIds sw\<rparr> ds =
      Inr v"
    using Decks_ok [of "\<lparr>de_address = account_address a, de_bases = bases, de_built = sw_builtEmoBaseIds sw\<rparr>" ds]
      assms(2,3) a(1) by auto
  ultimately show ?thesis
    using True a by (simp add: SetupWrapper_def Setup_def Accounts_def)
qed (simp add: SetupWrapper_def)

end
