(* ===== verification/AppRoutes.thy ===== *)
theory AppRoutes
  imports Connection
begin

text \<open>
  The application around its pages: the routes (\<open>front/src/misc/route.ts\<close>, \<open>constants.ts\<close>), links
  (\<open>components/common/InternalLink.tsx\<close>), the router with the providers of a connection
  (\<open>components/App/Router.tsx\<close>, \<open>ConnectionProvider/\<close>), the frame, the navigation bar and the error
  boundary (\<open>App/Frame/\<close>, \<open>Navbar.tsx\<close>, \<open>ErrorBoundary.tsx\<close>).
\<close>

section \<open>Routes (misc/route.ts)\<close>

definition routeIds :: "string list" where
  "routeIds = [''/'', ''/match'', ''/emo_bases'', ''/match_trial'', ''/leaderboard'', ''/dev'',
     ''/match_debug'', ''/emo_ability_builder'', ''/not_found'']"

record Route =
  rt_id :: string
  rt_params :: "string list"

text \<open>
  A route matches by a regular expression made of its id, where a parameter (\<open>:name\<close>) stands for a
  word. No id has one, and none has a character with a meaning in an expression: an id matches itself.
\<close>

definition plain_route :: "string \<Rightarrow> bool" where
  "plain_route routeId \<longleftrightarrow> list_all (\<lambda>c. c \<in> set ''/_abcdefghijklmnopqrstuvwxyz'') routeId"

definition convertHashToRoute :: "string \<Rightarrow> Route" where
  "convertHashToRoute hash =
     (let pathname = (if hash = '''' then ''/'' else tl hash) in
      foldl (\<lambda>route routeId. if routeId = pathname then \<lparr>rt_id = routeId, rt_params = []\<rparr> else route)
        \<lparr>rt_id = ''/not_found'', rt_params = []\<rparr> routeIds)"

text \<open>\<open>String.replace\<close> of a text: its first occurrence, by a value without a dollar.\<close>

fun replace_first :: "string \<Rightarrow> string \<Rightarrow> string \<Rightarrow> string" where
  "replace_first pattern value [] = (if pattern = [] then value else [])"
| "replace_first pattern value (c # s) =
     (if take (length pattern) (c # s) = pattern then value @ drop (length pattern) (c # s)
      else c # replace_first pattern value s)"

definition combineRouteIdAndParams :: "string \<Rightarrow> (string \<times> string) list \<Rightarrow> string" where
  "combineRouteIdAndParams routeId obj =
     foldl (\<lambda>path (key, value). replace_first ('':'' @ key) value path) routeId obj"

text \<open>Setting \<open>window.location.hash\<close>: the number sign is added when it is not there; an empty fragment has none.\<close>

definition set_hash :: "string \<Rightarrow> string" where
  "set_hash s = (let fragment = (if take 1 s = ''#'' then drop 1 s else s) in
     if fragment = '''' then '''' else ''#'' @ fragment)"

definition changeLocationHashByRouteId :: "string \<Rightarrow> string" where
  "changeLocationHashByRouteId routeId = set_hash (''#'' @ routeId)"

text \<open>The kind of the connection of a route; \<open>None\<close> is \<open>none\<close>. The switch covers the ids.\<close>

definition getRouteConnectionKind :: "string \<Rightarrow> ConnectionKind option" where
  "getRouteConnectionKind routeId =
     (if routeId \<in> set [''/'', ''/match'', ''/emo_bases'', ''/match_trial'', ''/leaderboard'', ''/dev'', ''/match_debug'']
      then Some Kind_contract else None)"

section \<open>Links (InternalLink.tsx)\<close>

datatype link_target = To_route string | To_params string "(string \<times> string) list"

definition getPath :: "link_target \<Rightarrow> string" where
  "getPath to =
     (if to = To_route ''/'' then ''/''
      else ''#'' @ (case to of To_route i \<Rightarrow> i | To_params i obj \<Rightarrow> combineRouteIdAndParams i obj))"

text \<open>What a click makes of the location's hash.\<close>

definition go :: "link_target \<Rightarrow> string" where
  "go to = set_hash (getPath to)"

section \<open>The router and the providers (Router.tsx, ConnectionProvider/)\<close>

datatype element =
  Page_Top | Page_Mtc | Page_EmoBases | Page_MtcTrial | Page_Dev | Page_MtcDebug
| Page_EmoAbilityBuilder | Page_Leaderboard | Page_NotFound

definition getElement :: "string \<Rightarrow> element" where
  "getElement routeId =
     (if routeId = ''/'' then Page_Top
      else if routeId = ''/match'' then Page_Mtc
      else if routeId = ''/emo_bases'' then Page_EmoBases
      else if routeId = ''/match_trial'' then Page_MtcTrial
      else if routeId = ''/dev'' then Page_Dev
      else if routeId = ''/match_debug'' then Page_MtcDebug
      else if routeId = ''/emo_ability_builder'' then Page_EmoAbilityBuilder
      else if routeId = ''/leaderboard'' then Page_Leaderboard
      else Page_NotFound)"

text \<open>
  A provider shows its page unless the connection is of the other kind, which is then being cleaned up.
\<close>

definition provider :: "ConnectionKind \<Rightarrow> ConnectionKind option \<Rightarrow> element \<Rightarrow> element option" where
  "provider kind connection e = (case connection of Some k \<Rightarrow> if k \<noteq> kind then None else Some e | None \<Rightarrow> Some e)"

definition Router :: "Route \<Rightarrow> ConnectionKind option \<Rightarrow> element option" where
  "Router route connection =
     (case getRouteConnectionKind (rt_id route) of
        Some kind \<Rightarrow> provider kind connection (getElement (rt_id route))
      | None \<Rightarrow> Some (getElement (rt_id route)))"

text \<open>
  The application: the route, the connection and whether there is an account, and the kinds of the
  connections that have been asked for and not answered. A provider connects when it is mounted and
  clears the connection and the account when it goes; an answer that comes later is set all the same.
\<close>

record app =
  app_route :: Route
  app_connection :: "ConnectionKind option"
  app_account :: bool
  app_pending :: "ConnectionKind list"

definition mount_provider :: "ConnectionKind option \<Rightarrow> app \<Rightarrow> app" where
  "mount_provider kind a = (case kind of None \<Rightarrow> a | Some k \<Rightarrow> a\<lparr>app_pending := app_pending a @ [k]\<rparr>)"

definition unmount_provider :: "ConnectionKind option \<Rightarrow> app \<Rightarrow> app" where
  "unmount_provider kind a = (case kind of None \<Rightarrow> a | Some k \<Rightarrow> a\<lparr>app_account := False, app_connection := None\<rparr>)"

definition start_app :: "string \<Rightarrow> app" where
  "start_app hash =
     (let route = convertHashToRoute hash in
      mount_provider (getRouteConnectionKind (rt_id route))
        \<lparr>app_route = route, app_connection = None, app_account = False, app_pending = []\<rparr>)"

text \<open>The same provider stays mounted from a route to another.\<close>

definition change_hash :: "string \<Rightarrow> app \<Rightarrow> app" where
  "change_hash hash a =
     (let old = getRouteConnectionKind (rt_id (app_route a)); route = convertHashToRoute hash;
          new = getRouteConnectionKind (rt_id route); a = a\<lparr>app_route := route\<rparr>
      in if old = new then a else mount_provider new (unmount_provider old a))"

inductive app_step :: "app \<Rightarrow> app \<Rightarrow> bool" where
  hash: "app_step a (change_hash h a)"
| connected: "k \<in> set (app_pending a) \<Longrightarrow>
    app_step a (a\<lparr>app_connection := Some k, app_pending := remove1 k (app_pending a)\<rparr>)"
| failed: "k \<in> set (app_pending a) \<Longrightarrow> app_step a (a\<lparr>app_pending := remove1 k (app_pending a)\<rparr>)"
| account: "app_connection a \<noteq> None \<Longrightarrow> app_step a (a\<lparr>app_account := True\<rparr>)"

section \<open>The frame (App/Frame/index.tsx, ErrorBoundary.tsx, Navbar.tsx)\<close>

record frame_view =
  fv_nav :: bool
  fv_main :: "string + element option"
  fv_waiting :: bool
  fv_error :: "string option"

text \<open>A message that blocks takes the place of the page; an empty one does not.\<close>

definition Frame_render ::
  "bool \<Rightarrow> string option \<Rightarrow> bool \<Rightarrow> string option \<Rightarrow> Route \<Rightarrow> ConnectionKind option \<Rightarrow> frame_view" where
  "Frame_render hasNav blockMessage isWaiting errorModalMessage route connection =
     \<lparr>fv_nav = hasNav,
      fv_main = (case blockMessage of
          Some m \<Rightarrow> if m \<noteq> '''' then Inl m else Inr (Router route connection)
        | None \<Rightarrow> Inr (Router route connection)),
      fv_waiting = isWaiting,
      fv_error = (case errorModalMessage of Some m \<Rightarrow> if m \<noteq> '''' then Some m else None | None \<Rightarrow> None)\<rparr>"

text \<open>What is thrown while the frame renders leaves a modal that reloads the page.\<close>

definition ErrorBoundary :: "'v js \<Rightarrow> string + 'v" where
  "ErrorBoundary r = (case r of Inl e \<Rightarrow> Inl ''Something went wrong.'' | Inr v \<Rightarrow> Inr v)"

text \<open>The hooks that read a context throw where none is provided.\<close>

definition use_context :: "string \<Rightarrow> 'c option \<Rightarrow> 'c js" where
  "use_context message c = (case c of None \<Rightarrow> throwError message | Some v \<Rightarrow> Inr v)"

definition useConnection :: "'c option \<Rightarrow> 'c js" where
  "useConnection = use_context ''ConnectionContext not provided''"

definition useAccount :: "'c option \<Rightarrow> 'c js" where
  "useAccount = use_context ''AccountContext not provided''"

definition useAccountUpdater :: "('c \<Rightarrow> 'c) \<Rightarrow> 'c option \<Rightarrow> 'c js" where
  "useAccountUpdater f a = (case a of None \<Rightarrow> throwError ''invalid account state'' | Some v \<Rightarrow> Inr (f v))"

section \<open>Environments (common/js/src/env.ts) and the name of the net\<close>

record net_env =
  ne_name :: string
  ne_chainEndpoint :: string
  ne_contractName :: string
  ne_contractEndpoint :: string

text \<open>\<open>envs\<close> holds the three files; a missing name is empty.\<close>

definition getEnv :: "(string \<Rightarrow> net_env) \<Rightarrow> string \<Rightarrow> net_env js" where
  "getEnv envs envName =
     (if envName = '''' then throwError (''no envName: '' @ envName)
      else if envName \<in> set [''local'', ''staging'', ''production''] then Inr (envs envName)
      else throwError (''undefined env: '' @ envName))"

definition NetName :: "(string \<Rightarrow> net_env) \<Rightarrow> (string \<rightharpoonup> string) \<Rightarrow> string \<Rightarrow> string \<Rightarrow> string js" where
  "NetName envs localStorage oebEnv routeId =
     bindE (getEnv envs ''production'') (\<lambda>productionEnv.
     mapR (\<lambda>current.
         let currentEndpoint =
               (if getRouteConnectionKind routeId = Some Kind_chain
                then getEndpoint localStorage (ne_chainEndpoint current) else ne_contractEndpoint current)
         in if currentEndpoint = ne_chainEndpoint productionEnv then ne_name productionEnv
            else if currentEndpoint = ne_contractEndpoint productionEnv then ne_contractName productionEnv
            else currentEndpoint)
       (getEnv envs oebEnv))"

section \<open>Facts\<close>

lemma routeIds_plain: "list_all plain_route routeIds"
  by code_simp

lemma distinct_routeIds: "distinct routeIds"
  by code_simp

lemma last_match:
  "foldl (\<lambda>r i. if i = p then f i else r) r0 is = (if p \<in> set is then f p else r0)"
  by (induction "is" arbitrary: r0) auto

lemma convertHashToRoute_eq:
  "convertHashToRoute hash =
     (let pathname = (if hash = '''' then ''/'' else tl hash) in
      \<lparr>rt_id = if pathname \<in> set routeIds then pathname else ''/not_found'', rt_params = []\<rparr>)"
  by (simp add: convertHashToRoute_def last_match Let_def)

text \<open>A link leads to its route, and so does the change of the hash by hand.\<close>

lemma link_leads:
  assumes "i \<in> set routeIds"
  shows "convertHashToRoute (go (To_route i)) = \<lparr>rt_id = i, rt_params = []\<rparr>"
    "convertHashToRoute (changeLocationHashByRouteId i) = \<lparr>rt_id = i, rt_params = []\<rparr>"
  using assms unfolding routeIds_def
  by (auto simp: convertHashToRoute_eq go_def getPath_def set_hash_def changeLocationHashByRouteId_def
      routeIds_def Let_def)

lemma route_known: "rt_id (convertHashToRoute hash) \<in> set routeIds"
  by (simp add: convertHashToRoute_eq Let_def routeIds_def)

text \<open>No page is for the chain, and none is shown with a connection of another kind than its own.\<close>

lemma no_chain_route: "getRouteConnectionKind routeId \<noteq> Some Kind_chain"
  by (simp add: getRouteConnectionKind_def)

lemma shown_with:
  assumes "Router route (Some k) = Some e" "getRouteConnectionKind (rt_id route) = Some kind"
  shows "k = kind"
  using assms by (auto simp: Router_def provider_def split: if_splits)

text \<open>All connections of the application are to the contract.\<close>

definition app_inv :: "app \<Rightarrow> bool" where
  "app_inv a \<longleftrightarrow> set (app_pending a) \<subseteq> {Kind_contract} \<and> app_connection a \<in> {None, Some Kind_contract} \<and>
     rt_id (app_route a) \<in> set routeIds"

lemma start_app_inv: "app_inv (start_app hash)"
  using route_known [of hash] no_chain_route
  by (auto simp: app_inv_def start_app_def Let_def mount_provider_def getRouteConnectionKind_def)

lemma app_step_inv: "app_step a b \<Longrightarrow> app_inv a \<Longrightarrow> app_inv b"
proof (induction rule: app_step.induct)
  case (hash a h)
  then show ?case
    using route_known [of h]
    by (auto simp: app_inv_def change_hash_def Let_def mount_provider_def unmount_provider_def
        getRouteConnectionKind_def)
next
  case (connected k a)
  then show ?case using set_remove1_subset [of k "app_pending a"] by (auto simp: app_inv_def)
next
  case (failed k a)
  then show ?case using set_remove1_subset [of k "app_pending a"] by (auto simp: app_inv_def)
qed (simp add: app_inv_def)

lemma app_reached_inv: "app_step\<^sup>*\<^sup>* (start_app hash) a \<Longrightarrow> app_inv a"
  by (induction rule: rtranclp_induct) (auto intro: start_app_inv app_step_inv)

lemma app_shows_page:
  assumes "app_step\<^sup>*\<^sup>* (start_app hash) a"
  shows "Router (app_route a) (app_connection a) = Some (getElement (rt_id (app_route a)))"
  using app_reached_inv [OF assms]
  by (auto simp: app_inv_def Router_def provider_def getRouteConnectionKind_def)

text \<open>
  A connection can outlive its page: one that is answered after the page has gone is set on a page
  that has none, and the next page for the contract asks for another.
\<close>

lemma connection_outlives_its_page:
  "\<exists>a b. app_step\<^sup>*\<^sup>* (start_app '''') a \<and> rt_id (app_route a) = ''/emo_ability_builder'' \<and>
     app_connection a = Some Kind_contract \<and>
     app_step a b \<and> rt_id (app_route b) = ''/match'' \<and> app_connection b = Some Kind_contract \<and>
     app_pending b = [Kind_contract]"
proof -
  let ?s = "start_app ''''" and ?h = "''#/emo_ability_builder''"
  let ?u = "change_hash ?h ?s"
  let ?a = "?u\<lparr>app_connection := Some Kind_contract, app_pending := remove1 Kind_contract (app_pending ?u)\<rparr>"
  let ?b = "change_hash ''#/match'' ?a"
  have p: "Kind_contract \<in> set (app_pending ?u)"
    by code_simp
  have "app_step ?s ?u" "app_step ?a ?b"
    by (rule app_step.hash)+
  moreover have "app_step ?u ?a"
    by (rule app_step.connected [OF p])
  ultimately have "app_step\<^sup>*\<^sup>* ?s ?a" "app_step ?a ?b" by auto
  moreover have "rt_id (app_route ?a) = ''/emo_ability_builder'' \<and> rt_id (app_route ?b) = ''/match'' \<and>
      app_connection ?b = Some Kind_contract \<and> app_pending ?b = [Kind_contract]"
    by code_simp
  ultimately show ?thesis
    by (intro exI [of _ ?a] exI [of _ ?b]) simp
qed

end
