(* ===== verification/SetupTheorems.thy ===== *)
theory SetupTheorems
  imports SetupFacts AppRoutes MatchExamples
begin

text \<open>
  What the setup of a match and the routes promise: the properties of \<open>SetupScreen\<close> and \<open>AppRoutes\<close>,
  each applied to a concrete player.
\<close>

section \<open>Decks\<close>

definition sample_decks_env :: decks_env where
  "sample_decks_env = \<lparr>de_address = ''me'', de_bases = trial_bases, de_built = map show_nat [1, 2, 3, 4, 5, 6, 7]\<rparr>"

text \<open>A player who saved and selected a deck with another base of the first grade.\<close>

definition sample_storage :: storage where
  "sample_storage = \<lparr>ls_decks = [getCustomDecksStorageKey ''me'' \<mapsto> [map show_nat [7, 2, 3, 4, 5, 6]]],
     ls_index = [getSelectedDeckIndexStorageKey ''me'' \<mapsto> 1]\<rparr>"

definition sample_decks :: decks_screen where
  "sample_decks = projr (updateDecksState sample_decks_env (initial_decks sample_storage))"

lemma sample_default: "\<not> isl (getDefaultDeck (de_bases sample_decks_env) (de_built sample_decks_env))"
  by code_simp

lemma sample_decks_run:
  "updateDecksState sample_decks_env (initial_decks sample_storage) = Inr sample_decks"
  "ds_deck sample_decks = map show_nat [7, 2, 3, 4, 5, 6]"
proof -
  obtain default where "getDefaultDeck (de_bases sample_decks_env) (de_built sample_decks_env) = Inr default"
    using sample_default by (cases "getDefaultDeck (de_bases sample_decks_env) (de_built sample_decks_env)") auto
  then have "\<exists>ds. updateDecksState sample_decks_env (initial_decks sample_storage) = Inr ds \<and>
      ds_deck ds = map show_nat [7, 2, 3, 4, 5, 6]"
    by (simp add: updateDecksState_def getDecks_def initial_decks_def sample_storage_def sample_decks_env_def js_at_def
        orTypeError_def)
  then show "updateDecksState sample_decks_env (initial_decks sample_storage) = Inr sample_decks"
    "ds_deck sample_decks = map show_nat [7, 2, 3, 4, 5, 6]"
    by (auto simp: sample_decks_def)
qed

lemma sample_decks_reached: "decks_reached sample_decks_env sample_storage sample_decks"
  using sample_decks_run(1) by (auto simp: decks_reached_def)

lemma sample_choice: "choice_deck sample_decks_env (map show_nat [7, 2, 3, 4, 5, 6])"
  unfolding choice_deck_def by code_simp

text \<open>
  C18 (functional). The deck the screen hands to the match is one the contract accepts, with a base for
  every grade. Whatever was selected, deleted, built and saved, from decks of the storage that were
  saved so, the contract takes the deck as it is.
\<close>

theorem built_deck_is_accepted:
  assumes "bases_ok codec" "de_bases env = buildEmoBases codec"
    and "decks_reached env ls ds" "list_all (choice_deck env) (stored_decks (de_address env) ls)"
    and "length (ds_deck ds) = 6"
  shows "build_built_base_ids (map toUint16 (ds_deck ds)) codec (map toUint16 (de_built env)) =
    Inr (map toUint16 (ds_deck ds))"
proof -
  have "choice_deck env (ds_deck ds)"
    using decks_reached_inv [OF assms(3,4)] assms(5)
    by (auto simp: decks_inv_def list_all_iff split: option.splits)
  then show ?thesis
    by (rule choice_deck_built [OF assms(1,2) _ assms(5)])
qed

lemma built_deck_is_accepted_witness:
  "build_built_base_ids [7, 2, 3, 4, 5, 6] (bs_codec trial_bases) (map toUint16 (map show_nat [1, 2, 3, 4, 5, 6, 7])) =
     Inr [7, 2, 3, 4, 5, 6]"
proof -
  have "map toUint16 (ds_deck sample_decks) = [7, 2, 3, 4, 5, 6]"
    unfolding sample_decks_run(2) by code_simp
  moreover have "bases_ok (bs_codec trial_bases)" "buildEmoBases (bs_codec trial_bases) = trial_bases"
    using trial_bases_in_order by (simp_all add: bases_in_order_def trial_bases_def buildEmoBases_def)
  ultimately show ?thesis
    using built_deck_is_accepted [OF _ _ sample_decks_reached, of "bs_codec trial_bases"] sample_decks_run(2) sample_choice
    by (simp add: sample_decks_env_def stored_decks_def sample_storage_def)
qed

section \<open>The screen of the setup\<close>

text \<open>The hooks of the wrapper, from its mounting: its two effects and the choice of an account that is offered.\<close>

inductive wrapper_reached :: "'signer web3 \<Rightarrow> 'signer setup_wrapper \<Rightarrow> bool" for web3 where
  initial: "wrapper_reached web3 (initial_wrapper account)"
| mount: "wrapper_reached web3 sw \<Longrightarrow> sw_extensionAccounts sw = [] \<Longrightarrow> wrapper_reached web3 (mount_effect web3 connection sw)"
| address: "wrapper_reached web3 sw \<Longrightarrow> wrapper_reached web3 (address_effect connection sw)"
| account: "wrapper_reached web3 sw \<Longrightarrow> address \<in> ea_address ` set (sw_extensionAccounts sw) \<Longrightarrow>
    wrapper_reached web3 (on_account web3 connection playerAddress address sw)"

lemma wrapper_reached_ok: "wrapper_reached web3 sw \<Longrightarrow> wrapper_ok sw"
proof (induction rule: wrapper_reached.induct)
  case (initial account)
  then show ?case by (simp add: initial_wrapper_def wrapper_ok_def)
qed (blast intro: mount_ok address_effect_ok on_account_ok)+


text \<open>An extension with one account, and a contract that has never seen it.\<close>

definition sample_web3 :: "unit web3" where
  "sample_web3 = \<lparr>wb_extensions = 1, wb_accounts = [\<lparr>ea_address = ''me'', ea_name = None\<rparr>],
     wb_signer = (\<lambda>_. Inr ()), wb_mnemonic = '''', wb_pair_address = (\<lambda>m. m), wb_powCount = (\<lambda>_. Inr None)\<rparr>"

definition sample_setup :: "unit setup_wrapper" where
  "sample_setup = address_effect (trial_connection\<lparr>cn_playerMtcMutable := (\<lambda>_. Inr None)\<rparr>)
     (mount_effect sample_web3 (trial_connection\<lparr>cn_deckBuiltEmoBaseIds := Inr [1, 2, 3, 4, 5, 6, 7]\<rparr>)
       (initial_wrapper None))"

lemma sample_setup_parts:
  "sw_account sample_setup = Some (Account_contract ''me'' ())"
  "sw_builtEmoBaseIds sample_setup = map show_nat [1, 2, 3, 4, 5, 6, 7]" "setup_ready sample_setup"
  by code_simp+


text \<open>
  C32 (error). A stored deck with an id that no base has, as after a base was removed, stops the screen of
  the decks: its row throws while it renders, so that the deck cannot be deleted either.
\<close>

theorem deck_with_unknown_base_stops:
  assumes "deck \<in> set (ds_decks ds)" "s \<in> set deck" "findEmoBaseByStringId s (de_bases env) = Inl e"
  shows "\<exists>e'. Decks env ds = Inl e'"
  by (rule unknown_base_stops [OF assms])

lemma deck_with_unknown_base_stops_witness:
  "\<exists>ds e. updateDecksState sample_decks_env
      (initial_decks (store_decks ''me'' [map show_nat [9, 2, 3, 4, 5, 6]] sample_storage)) = Inr ds \<and>
    Decks sample_decks_env ds = Inl e"
proof -
  obtain default where "getDefaultDeck (de_bases sample_decks_env) (de_built sample_decks_env) = Inr default"
    using sample_default by (cases "getDefaultDeck (de_bases sample_decks_env) (de_built sample_decks_env)") auto
  then obtain ds where ds: "updateDecksState sample_decks_env
      (initial_decks (store_decks ''me'' [map show_nat [9, 2, 3, 4, 5, 6]] sample_storage)) = Inr ds"
    "ds_decks ds = [default, map show_nat [9, 2, 3, 4, 5, 6]]"
    by (auto simp: updateDecksState_def getDecks_def initial_decks_def sample_storage_def sample_decks_env_def js_at_def
        orTypeError_def store_decks_def)
  have "isl (findEmoBaseByStringId (show_nat 9) (de_bases sample_decks_env))"
    by code_simp
  then obtain e where "findEmoBaseByStringId (show_nat 9) (de_bases sample_decks_env) = Inl e"
    by (auto simp: isl_def)
  then show ?thesis
    using deck_with_unknown_base_stops [of "map show_nat [9, 2, 3, 4, 5, 6]" ds "show_nat 9" sample_decks_env e] ds by auto
qed

section \<open>Routes\<close>

text \<open>
  C31 (roundtrip). Every link leads to the page of its route: following it, or setting the hash from a
  handler, changes the location to one that is read as that route, and the page that is shown there is
  the page of the route, whatever connections were asked for and answered before.
\<close>

theorem links_lead_to_their_pages:
  assumes "i \<in> set routeIds" "app_step\<^sup>*\<^sup>* (start_app hash) a"
    and "a' = change_hash (go (To_route i)) a \<or> a' = change_hash (changeLocationHashByRouteId i) a"
  shows "app_route a' = \<lparr>rt_id = i, rt_params = []\<rparr> \<and> Router (app_route a') (app_connection a') = Some (getElement i)"
proof -
  have "app_step a a'"
    using assms(3) app_step.hash by blast
  with assms(2) have "app_step\<^sup>*\<^sup>* (start_app hash) a'"
    by (rule rtranclp.rtrancl_into_rtrancl)
  from app_shows_page [OF this] show ?thesis
    using assms(3) link_leads [OF assms(1)] by (auto simp: change_hash_def Let_def mount_provider_def
        unmount_provider_def split: option.splits)
qed

lemma links_lead_to_their_pages_witness:
  "Router (app_route (change_hash (go (To_route ''/match'')) (start_app '''')))
     (app_connection (change_hash (go (To_route ''/match'')) (start_app ''''))) = Some Page_Mtc"
proof -
  have "getElement ''/match'' = Page_Mtc" "''/match'' \<in> set routeIds"
    by code_simp+
  then show ?thesis
    using links_lead_to_their_pages [OF _ rtranclp.rtrancl_refl disjI1 [OF refl], of "''/match''" "''''"]
    by metis
qed

end
