(* ===== verification/Spec2Isabelle.thy ===== *)
theory Spec2Isabelle
  imports BattleTheorems DemoBattle PowChain Base64 AbilityText CodecDefs EmoTables ContractTheorems SetupTheorems
begin

text \<open>
  Open Emoji Battler is a game of two boards of emojis that fight on their own. A player prepares a
  board in a shop, a battle against the recorded boards of other players (ghosts) follows, and the
  next shop, until the player's health or every ghost's is gone. The front (\<open>front/src\<close>, TypeScript
  with React) draws all of it. The rules are Rust (\<open>common/rs\<close>), which the front runs as a WebAssembly
  module (\<open>front/wasm\<close>) and the chain or the contract runs again on the operations the front records.

  What is modelled, from the bottom up, a theory or two for each part:

  \<^item> \<open>Prelude\<close>: results of code that may throw (\<open>'a js\<close>, a sum with a \<open>js_error\<close>), arrays read out of
    range, numbers as texts, JavaScript objects as association lists in the order of insertion, and
    the swap of two elements.
  \<^item> \<open>CodecTypes\<close>, \<open>CodecDefs\<close>: the types of the wire (\<open>interfaces/all/types.ts\<close>), and the definitions
    of \<open>tools/codecTypesDefs.ts\<close> with the generator of \<open>tools/generateCodecTypes.ts\<close>.
  \<^item> \<open>Utils\<close>, \<open>Base64\<close>, \<open>PowChain\<close>: \<open>common/js/src/utils.ts\<close> and \<open>pow/base64.ts\<close>, \<open>front/src/misc/utils.ts\<close>
    and \<open>constants.ts\<close>, and what the chain makes of a tip that pays by work (\<open>common/rs/src/pow.rs\<close>).
  \<^item> \<open>MtcUtils\<close>, \<open>AbilityText\<close>: \<open>front/src/misc/mtcUtils.ts\<close> with the state of a match (\<open>MtcState\<close>), and
    \<open>misc/emo/abilityText.ts\<close>.
  \<^item> \<open>Dom\<close>, \<open>EmoElement\<close>, \<open>EmoAnimations\<close>, \<open>EmoView\<close>: the document as a tree (\<open>node\<close>), the element of an
    emoji and its animations (\<open>misc/elementHelpers.ts\<close>, \<open>misc/emo\<close>), and the abstract view of an
    emoji: the statistics, texts and marks its element shows.
  \<^item> \<open>BattleAnimation\<close>, \<open>BattleView\<close>: the animation of the logs of a battle (\<open>MtcBattleBoards/tasks.ts\<close>),
    and the abstract display it refines. The locale \<open>board_display\<close> of \<open>EmoView\<close> states what the two
    animations rely on in the changes of a board, and is interpreted there on the code's.
  \<^item> \<open>RustShop\<close>, \<open>RustShopFacts\<close>, \<open>ShopWasm\<close>: the board of the shop (\<open>mtc/shop/board.rs\<close>) on words, and the
    functions of the module the front calls (\<open>wasm/index.ts\<close>, \<open>wasm/src/lib.rs\<close>).
  \<^item> \<open>RustMatch\<close>, \<open>RustMatchFacts\<close>: coins, catalog, pool, and the battles of a turn
    (\<open>coin.rs\<close>, \<open>catalog.rs\<close>, \<open>setup.rs\<close>, \<open>battle/organizer.rs\<close>).
  \<^item> \<open>RustBattle\<close>, \<open>RustBattleFacts\<close>, \<open>PlainMarch\<close>: the fight of two boards (\<open>battle/board.rs\<close>, \<open>march.rs\<close>,
    \<open>common.rs\<close>) with every trigger and action. Its boards, logs, generator and next id are the record
    \<open>battle_state\<close>; a run is a sequence of the changes \<open>battle_change\<close>, of which the locale \<open>actor\<close> states
    that an action is made, and \<open>call_ability_normal_action\<close> interprets it.
  \<^item> \<open>ShopAnimation\<close>, \<open>ShopView\<close>, \<open>ShopScreen\<close>, \<open>ShopScreenFacts\<close>, \<open>ShopRuns\<close>: the operations on the board
    of the shop with their animation (\<open>MtcShopBoard\<close>), proved over any module that keeps the contract of
    the locale \<open>shop_module\<close>, which \<open>ShopWasm\<close> interprets on the Rust functions; and the screen of the shop
    (\<open>common/Mtc/Shop\<close>) as a state machine: its hooks are the record \<open>screen\<close>, its buttons the actions
    \<open>offered\<close>, a step (\<open>shop_step\<close>) is a click or the end of an operation.
  \<^item> \<open>RustReplay\<close>, \<open>ReplayNames\<close>, \<open>ReplayFacts\<close>: the replay of the recorded operations of a shop
    (\<open>shop/player_operation.rs\<close>), which the chain and the contract run.
  \<^item> \<open>RustContract\<close>, \<open>Leaderboard\<close>, \<open>ContractFacts\<close>, \<open>ContractRuns\<close>: the contract (\<open>contract/game/src\<close>, with
    \<open>ep.rs\<close>, \<open>finish.rs\<close>, \<open>ghost.rs\<close>): its storage is the record \<open>contract\<close>, a function a message.
  \<^item> \<open>Connection\<close>, \<open>ContractConnection\<close>, \<open>Agreement\<close>: transactions and contract calls (\<open>common/js/src/api.ts\<close>,
    \<open>contract.ts\<close>), the connections, the accounts and their setup (\<open>App/ConnectionProvider\<close>,
    \<open>misc/accountUtils.ts\<close>), and when the state of the front agrees with the storage of the contract.
  \<^item> \<open>BattleScreen\<close>: the screens of a battle and of the result (\<open>common/Mtc/Battle\<close>, \<open>Result.tsx\<close>).
  \<^item> \<open>BattleShown\<close>: the fight in Rust and the display of its logs together.
  \<^item> \<open>MatchFlow\<close>, \<open>MatchFlowFacts\<close>, \<open>MatchEnd\<close>: the pages of a match (\<open>pages/Mtc\<close>) and of a trial
    (\<open>pages/MtcTrial\<close>) as state machines (\<open>mtc_step\<close>, \<open>trial_step\<close>) over the screens.
  \<^item> \<open>DemoBattle\<close>: the battle on the first page (\<open>pages/Top/DemoMtcBattle.tsx\<close>).
  \<^item> \<open>SetupScreen\<close>, \<open>SetupFacts\<close>: the setup of a match (\<open>Mtc/Setup\<close>, \<open>SetupWrapper\<close>): decks in the storage
    of the browser, their builder, the accounts and the start.
  \<^item> \<open>AppRoutes\<close>, \<open>EmoTables\<close>: routes, links, the router with its providers and the frame (\<open>App\<close>,
    \<open>misc/route.ts\<close>); the tables of bases, the leaderboard's page and the identities it shows.
  \<^item> \<open>Examples\<close>, \<open>MatchExamples\<close>, \<open>ContractExamples\<close>: the concrete values on which the theorems are applied.
    \<open>BattleTheorems\<close>, \<open>DemoBattle\<close>, \<open>ContractTheorems\<close>, \<open>SetupTheorems\<close> and this theory state the
    properties.

  What the lemmas show. The facts of \<open>EmoView\<close>, \<open>BattleView\<close> and \<open>ShopView\<close> are simulations: a change of
  the document does to its view what the abstract operation does. Those of \<open>RustShopFacts\<close> give the
  invariant of the board, the logs that lead from one board to the next, and the end of the recursion.
  \<open>ShopScreenFacts\<close> and \<open>ShopRuns\<close> hold the invariant of the screen, what its buttons offer, the replay of
  the recorded operations, the coins and that every state renders. \<open>RustMatchFacts\<close> is about the catalog,
  the pool and the step of a match after a battle; \<open>MatchFlowFacts\<close> and \<open>MatchEnd\<close> about the battle that
  is shown, the invariant of the pages, and the end of a match. \<open>RustBattleFacts\<close> shows that a march makes
  the changes it logs and what it leaves, \<open>BattleShown\<close> that the display makes the same of the logs, and
  \<open>PlainMarch\<close> when a march without abilities returns. \<open>ReplayNames\<close> shows that the operations of the shop
  do not depend on the ids of emojis, \<open>ReplayFacts\<close> that the replay accepts what the screen records;
  \<open>Leaderboard\<close> compares the update of the leaderboard with a reference, \<open>ContractFacts\<close> and \<open>ContractRuns\<close>
  hold the invariant of the storage over all messages, \<open>Agreement\<close> that front and contract stay together;
  \<open>SetupFacts\<close> that a deck has a base of each grade.

  Bounds and fuel. Integers of Rust are words of their width, with the saturation and the wrap-around of
  the release build; those of the front are \<open>nat\<close> and \<open>int\<close>. Adding an emoji recurses through the
  abilities that set others and the triples: \<open>add_emo\<close> runs on fuel 64, which is enough since the
  potential \<open>8 * (7 - triples) + (7 - emojis)\<close>, at most 63 on a board of at most seven emojis, falls with
  every nested call (\<open>shop_calls_return\<close>: the result does not depend on what a deeper call would do).
  That is also why an operation gives at most 63 ids, so that a window of 64 ids for each of the fewer
  than 200 operations of a shop fits the word the replay numbers emojis with. In a fight, actions nest
  through retirements and shields, which nothing bounds but the stack: its depth is the parameter
  \<open>depth\<close>, at whose end the call fails with \<open>JsRangeError\<close>, and what is proved of a march holds for any.
  A march has 255 ticks, the code's own bound. Turns are bytes in the module; what is stated of pages
  holds for turns below 256, of the contract below 40, and a trial whose battles are decided stays
  below 92.

  Parameters: the generator and the choices of the \<open>rand\<close> crate, the hash behind the seeds of the
  contract, \<open>Math.random\<close>, \<open>JSON.stringify\<close> of a codec value, the names of the emojis (a data file), the
  solver of the work, polkadot-js (signing and the reported results), the browser extension, and what a
  node answers. The battles of a turn and the pages are given over any fight of two boards (\<open>march\<close>)
  that keeps the promise \<open>march_fair\<close>; the code's fight, \<open>rust_march\<close>, keeps it for every generator and
  depth. What is relied on of the others is named: \<open>rand_ok\<close>, \<open>range_ok\<close>, \<open>ghost_rand_ok\<close>, \<open>answers_ok\<close>.

  Not modelled: timing (an animation is what it leaves in the document), the looks of particles and of
  the markup besides emojis, texts and buttons, React itself (a component is a function of its state);
  the loader of the solver's WebAssembly module and its worker, which are glue; the pages that only lay
  out text, the page of a developer with its debugging form, the scripts of development and deployment;
  the types generated for polkadot-js; the pallets and the node, which are Rust on a framework, besides
  the reading of a tip.
\<close>

section \<open>Animations\<close>

lemma same_Inl_right: "same R m (Inl e) \<longleftrightarrow> m = Inl e"
  by (cases m) auto

text \<open>
  C8 (refinement). The animation of a battle (\<open>MtcBattleBoards/tasks.ts\<close>), from two board elements
  of any content, the boards and any sequence of logs, raises an error exactly when the abstract
  display does, the same one, and otherwise leaves a document that shows what \<open>show_battle\<close>
  computes: the emojis of both boards with the logs applied to them in order, no number left over
  from an animation.
\<close>

theorem battle_animation_shows_the_logs:
  "same shows_boards
     (animate json emoNames bases (Node ''DIV'' c1 st1 x1 ch1) (Node ''DIV'' c2 st2 x2 ch2)
        playerBoard rivalBoard logs)
     (show_battle json emoNames bases playerBoard rivalBoard logs)"
  by (rule animate_same) simp_all

text \<open>
  C38 (equivalence). The changes of statistics of a batch, which run side by side, end in the same
  document as the changes run one after the other, when they are for one player and for different
  emojis: what \<open>updateStatsBatch\<close> checks before it collects one.
\<close>

theorem batch_is_sequential:
  assumes "shows_boards bs vss" "\<forall>p\<in>set ps. ls_player_index p = pl"
    and "distinct (map ls_emo_index ps)"
  shows "changeStats_all s ps bs = foldE (\<lambda>bs p. changeStats s p bs) bs ps"
  by (rule changeStats_all_eq [OF assms])

definition sample_emo :: emo_parts where
  "sample_emo = new_parts ''e'' Typ_Food ''g''
     \<lparr>at_attack = 2, at_health = 3, at_abilities = [], at_is_triple = False\<rparr> False ''n'' []"

definition sample_change :: "u8 \<Rightarrow> mtc_battle_Log_IncreaseStats" where
  "sample_change i = \<lparr>ls_player_index = 0, ls_emo_index = i, ls_attack = 1, ls_health = 1,
     ls_calculated_attack = 3, ls_calculated_health = 4\<rparr>"

lemma batch_is_sequential_witness:
  "changeStats_all Positive [sample_change 0, sample_change 1]
     [board_dom [] [] [sample_emo, sample_emo], board_dom [] [] []] =
   foldE (\<lambda>bs p. changeStats Positive p bs)
     [board_dom [] [] [sample_emo, sample_emo], board_dom [] [] []] [sample_change 0, sample_change 1]"
proof (rule batch_is_sequential [where pl = 0])
  have "calm sample_emo" by (simp add: calm_def sample_emo_def new_parts_def)
  then show "shows_boards [board_dom [] [] [sample_emo, sample_emo], board_dom [] [] []]
      [map view [sample_emo, sample_emo], []]"
    unfolding shows_boards_def shows_board_def by force
qed (simp_all add: sample_change_def)

text \<open>
  C39 (error). A log that gives an emoji the ability \<open>AttackLowestAttack\<close> stops the animation of a
  battle: the special has no mark, and \<open>getSpecial\<close> raises on it. The animation of the shop tests
  for the two specials that have one; the battle's does not.
\<close>

theorem AttackLowestAttack_stops_battle:
  assumes "shows_boards bs vss" "toNumber p < length vss" "toNumber i < length (vss ! toNumber p)"
  shows "addBattleAbility json emoNames bases
      (mtc_battle_Log_AddBattleAbility p i (Battle_Special Special_AttackLowestAttack) t) bs =
    throwError ''undefined special type: AttackLowestAttack''"
proof -
  have "show_log json emoNames bases vss (Log_AddBattleAbility
      (mtc_battle_Log_AddBattleAbility p i (Battle_Special Special_AttackLowestAttack) t)) =
    throwError ''undefined special type: AttackLowestAttack''"
    using assms(2,3)
    by (simp add: on_view_def js_at_def view_at_def buildEmoAbilityText.simps battleAbility_def
        battleSpecial_def special_of_def special_view_def special_type_def)
  then show ?thesis
    using addBattleAbility_same [OF assms(1), of json emoNames bases
      "mtc_battle_Log_AddBattleAbility p i (Battle_Special Special_AttackLowestAttack) t"]
    by (simp only: same_Inl_right)
qed

lemma AttackLowestAttack_stops_battle_witness:
  "addBattleAbility (\<lambda>_. '''') (\<lambda>_. None) (buildEmoBases [])
      (mtc_battle_Log_AddBattleAbility 0 1 (Battle_Special Special_AttackLowestAttack) False)
      [board_dom [] [] [sample_emo, sample_emo], board_dom [] [] []] =
    throwError ''undefined special type: AttackLowestAttack''"
proof (rule AttackLowestAttack_stops_battle [where vss = "[map view [sample_emo, sample_emo], []]"])
  have "calm sample_emo" by (simp add: calm_def sample_emo_def new_parts_def)
  then show "shows_boards [board_dom [] [] [sample_emo, sample_emo], board_dom [] [] []]
      [map view [sample_emo, sample_emo], []]"
    unfolding shows_boards_def shows_board_def by force
qed simp_all


section \<open>The shop\<close>

text \<open>
  C1 (refinement). The screen of the shop records the operations of the player for the chain. At any
  time after the start of the shop, whatever was clicked and in whatever order, the recorded
  operations lead from the board the start left to the board, the coins, the catalog line, the sold
  emojis and the grade the screen has: each bought emoji is in the current line, neither on the board
  nor sold, and of a grade reached, and a recorded move rearranges the board.
\<close>

theorem recorded_operations_lead_to_the_screen:
  assumes "reaches env s0 element sc" "sc_operation sc \<noteq> Operation_pre_shop"
  shows "\<exists>p. started env s0 p \<and>
    plays env (ms_turn s0) p (st_playerOperations (sc_shopState sc)) (account_of sc)"
  using reachesD(2) [OF assms(1)] assms(2) by (simp add: recorded_def)

lemma recorded_operations_lead_to_the_screen_witness:
  "\<exists>p. started sample_env sample_match p \<and>
    plays sample_env (ms_turn sample_match) p (st_playerOperations (sc_shopState sample_bought))
      (account_of sample_bought)"
  by (rule recorded_operations_lead_to_the_screen [OF sample_reaches_bought]) code_simp

text \<open>
  C7 (invariant). Every state the screen of the shop reaches is in order: the board has at most seven
  emojis, and once the shop has started the element shows exactly them; the current line is one of the
  catalog and is counted by the player's skips; an operation runs exactly while the buttons are
  disabled and fits the board; a selected emoji may be bought.
\<close>

theorem shop_screen_invariant:
  assumes "reaches env s0 element sc"
  shows "screen_inv env sc"
  by (rule reachesD(1) [OF assms])

lemma shop_screen_invariant_witness: "screen_inv sample_env sample_negative"
  by (rule shop_screen_invariant [OF sample_reaches_negative])

text \<open>
  C6 (refinement). An operation of the player on the board of the shop, run by the Rust module and
  animated from the module's logs alone, leaves an element that shows the new board as if it had
  been drawn afresh, and the new board has at most seven emojis.
\<close>

theorem shop_operation_redraws:
  assumes "length board \<le> boardSize"
    and "if operation = Operation_pre_shop then shows_board element []
      else draws json emoNames bases element board"
    and "operate json emoNames bases fs (rust_shop shuffle seed_from next_id) element board operation seed =
      Inr (r, element')"
  shows "draws json emoNames bases element' (or_newBoardEmos r) \<and> length (or_newBoardEmos r) \<le> boardSize"
  by (rule rust.operate_draws [OF assms])

definition sample_operate :: "(operate_result \<times> node) js" where
  "sample_operate = operate (en_json sample_env) (en_emoNames sample_env) sample_bases ''1em''
     (rust_shop (shuffle_ids sample_rand) (seed_from_u64 sample_rand) 7) sample_element []
     (Operation_set 0 sample_mtc_emo) ''5''"

lemma shop_operation_redraws_witness:
  "\<exists>r element'. sample_operate = Inr (r, element') \<and> length (or_newBoardEmos r) = 1 \<and>
    draws (en_json sample_env) (en_emoNames sample_env) sample_bases element' (or_newBoardEmos r) \<and>
    length (or_newBoardEmos r) \<le> boardSize"
proof -
  have "case sample_operate of Inl e \<Rightarrow> False | Inr (r, element') \<Rightarrow> length (or_newBoardEmos r) = 1"
    by code_simp
  then obtain r element' where s: "sample_operate = Inr (r, element')" "length (or_newBoardEmos r) = 1"
    by (auto split: sum.splits)
  moreover have "draws (en_json sample_env) (en_emoNames sample_env) sample_bases sample_element []"
    by (auto simp: draws_def new_views_def sample_shows)
  then have "draws (en_json sample_env) (en_emoNames sample_env) sample_bases element' (or_newBoardEmos r) \<and>
      length (or_newBoardEmos r) \<le> boardSize"
    by (intro shop_operation_redraws [OF _ _ s(1) [unfolded sample_operate_def]]) simp_all
  ultimately show ?thesis by blast
qed

text \<open>
  C20 (termination). Setting an emoji may set others and form triples, which set further ones, without
  end in the text of the code; on a board of at most seven emojis the recursion is at most 64 deep:
  whatever a deeper call would do, the result of adding, selling and starting is the same.
\<close>

theorem shop_calls_return:
  assumes "length board \<le> boardSize"
  shows "add_emo ids base_id t i bases (taken_in board next_id) =
      add_emo_with (add_emo_over deeper bases shop_fuel) ids base_id t i bases (taken_in board next_id) \<and>
    sell_emo i bases (taken_in board next_id) =
      sell_emo_with (add_emo_over deeper bases shop_fuel) i bases (taken_in board next_id) \<and>
    start_shop shuffle seed_from seed bases (taken_in board next_id) =
      start_shop_with (add_emo_over deeper bases shop_fuel) shuffle (seed_from (word_reverse seed)) bases
        (taken_in board next_id)"
proof -
  have s: "length (sh_board (taken_in board next_id)) \<le> 7" "told board (taken_in board next_id)"
    using assms by (simp_all add: taken_in boardSize_def)
  show ?thesis
    by (intro conjI coins_eqs [OF s])
qed

lemma shop_calls_return_witness:
  "add_emo [1] 4 False 0 (bs_codec sample_bases) (taken_in [] 0) =
    add_emo_with (add_emo_over (\<lambda>_ _ _. Inl JsTypeError) (bs_codec sample_bases) shop_fuel) [1] 4 False 0
      (bs_codec sample_bases) (taken_in [] 0)"
  by (rule shop_calls_return [THEN conjunct1]) (simp add: boardSize_def)

text \<open>
  C25 (safety). The screen of the shop never fails to render, in any state it reaches: when the bases
  of the catalog and of the ghosts are known, the turn fits the module's byte and the grade is one
  with a text, no click leads to a state whose rendering throws.
\<close>

theorem shop_screen_renders:
  assumes "reaches env s0 element sc" "rivals_ok (en_bases env) s0" "grade_ok s0" "catalog_named env"
  shows "\<exists>v. Shop env sc = Inr v"
  using Shop_renders [OF _ reaches_renderable [OF assms(1-3)] assms(4)] reachesD(1) [OF assms(1)]
  by (simp add: screen_inv_def)

lemma shop_screen_renders_witness: "\<exists>v. Shop sample_env sample_negative = Inr v"
  by (rule shop_screen_renders [OF sample_reaches_negative _ sample_ok(2,3)])
    (use sample_ok(1) in \<open>simp add: sample_env_def\<close>)

text \<open>
  C26 (functional). The buttons of the screen of the shop that are not disabled offer exactly the
  allowed actions: a skip while it is free or paid for and a line is left, an upgrade with the coins
  for it, an emoji that may be bought with the coins and the room for it, and an operation that fits
  the board and the selection.
\<close>

theorem buttons_offer_what_is_allowed:
  assumes "Shop env sc = Inr v"
  shows "a \<in> set (offered v) \<longleftrightarrow> allowed env sc a"
  by (rule offered_iff [OF assms])

lemma buttons_offer_what_is_allowed_witness:
  "\<exists>v. Shop sample_env sample_start = Inr v \<and> Upgrade \<in> set (offered v)"
proof -
  obtain v where v: "Shop sample_env sample_start = Inr v"
    using Shop_renders [of sample_env sample_start] reachesD(1) [OF sample_reaches_start]
      reaches_renderable [OF sample_reaches_start _ sample_ok(2)] sample_ok(1,3)
    by (auto simp: screen_inv_def sample_env_def)
  moreover have "allowed sample_env sample_start Upgrade"
    by (simp add: sample_start_def sample_init_def sample_match_def initial_shop_state_def
        get_initial_coin_by_turn_def MAX_COIN_def)
  ultimately show ?thesis
    using buttons_offer_what_is_allowed [OF v] by blast
qed

text \<open>
  C27 (bounds). The coins of the shop never fall below minus three, and a player who does not upgrade
  while an emoji to buy is selected never has less than none.
\<close>

theorem coins_stay_above:
  assumes "shop_init s0 element = Inr sc0" "shows_board element []" "length (ms_board s0) \<le> boardSize"
    and "catalog_ok env" "case ms_upgradeCoin s0 of None \<Rightarrow> True | Some c \<Rightarrow> 0 \<le> c"
  shows "((shop_step env)\<^sup>*\<^sup>* sc0 sc \<longrightarrow> - 3 \<le> st_coin (sc_shopState sc)) \<and>
    ((careful_step env)\<^sup>*\<^sup>* sc0 sc \<longrightarrow> 0 \<le> st_coin (sc_shopState sc))"
  using runs_coin [OF assms] by blast

lemma coins_stay_above_witness: "- 3 \<le> st_coin (sc_shopState sample_negative)"
proof -
  have "(shop_step sample_env)\<^sup>*\<^sup>* sample_init sample_negative"
    using sample_reaches_negative by (simp add: reaches_def sample_init)
  then show ?thesis
    using coins_stay_above [OF sample_init sample_shows _ sample_ok(4), of sample_negative]
    by (simp add: sample_match_def)
qed


section \<open>The match\<close>


definition sample_lost :: MtcState where
  "sample_lost = sample_match\<lparr>ms_health := 20,
     ms_ghostStates := [GhostState_Active (mtc_GhostState_Active 30), GhostState_Active (mtc_GhostState_Active 20),
       GhostState_Active (mtc_GhostState_Active 30)], ms_turn := 3, ms_upgradeCoin := Some 3,
     ms_battleGhostIndex := 1\<rparr>"

lemma replicate_three: "replicate 3 x = [x, x, x]"
  by (simp add: numeral_eq_Suc)

lemma sample_battle_all:
  "battle_all sample_march [] 30 build_initial_ghost_states 1 (replicate 3 \<lparr>gh_history = []\<rparr>) 0 2 5
     (bs_codec sample_bases) = Inr (20, ms_ghostStates sample_lost, None)"
  by code_simp

lemma sample_battle:
  "finishBattle (battleAll sample_march) (selectBattleGhostIndex sample_rand) sample_match sample_bases =
     Inr (sample_lost, None)"
proof -
  have "select_battle_ghost_index sample_rand (ms_ghostStates sample_lost) 0 5 = Inr 1"
    by code_simp
  with sample_battle_all show ?thesis
    by (simp add: finishBattle_def battleAll_def with_seed_def parse_5 unwrap_def
        selectBattleGhostIndex_def sample_match_def sample_lost_def replicate_three)
qed


section \<open>The course of a match\<close>

text \<open>
  C11 (refinement). The battle that is shown is the battle that counts. The screen of a battle marches
  and animates on its own; the state of the match is computed by another call of the module. At the end
  the boxes show the healths the match goes on with, for the player and for the rival, with one
  difference: the module stops at zero, the boxes do not.
\<close>

theorem shown_battle_is_counted:
  assumes "match_ok s" "ms_grade s \<le> 6" "list_all (ghost_ok bases) (ms_ghosts s)"
    and "length (ms_board s) \<le> boardSize" "march_fair march" "bases_graded (bs_codec bases)"
    and "show_battle_screen json emoNames march bases address s e1 e2 = Inr (boards, player, rival)"
    and "battleAll march (ms_board s) (ms_grade s) (ms_health s) (ms_ghosts s) (ms_ghostStates s)
      (ms_battleGhostIndex s) (ms_turn s) (ms_seed s) bases = Inr (h, states, place)"
  shows "\<exists>p r. box_health player = Some (show_int p) \<and> h = nat p \<and>
    box_health rival = Some (show_int r) \<and> getHealthFromState (states ! ms_battleGhostIndex s) = nat r"
  by (rule shown_is_counted [OF assms])

lemma shown_battle_is_counted_witness:
  "\<exists>p. box_health (fst sample_boxes) = Some (show_int p) \<and> 0 = nat p"
proof -
  obtain states place where "battleAll sample_march (ms_board sample_weak) (ms_grade sample_weak)
      (ms_health sample_weak) (ms_ghosts sample_weak) (ms_ghostStates sample_weak)
      (ms_battleGhostIndex sample_weak) (ms_turn sample_weak) (ms_seed sample_weak) sample_bases =
      Inr (0, states, place)"
    using sample_weak_counted by blast
  then show ?thesis
    using shown_battle_is_counted [OF sample_weak_ok sample_march_fair sample_bases_graded, of "en_json sample_env" "en_emoNames sample_env"
        "''me''" sample_element sample_element "[sample_element, sample_element]" "fst sample_boxes" "snd sample_boxes"]
      sample_shown by auto
qed






text \<open>
  C12 (liveness). A match ends: when the player's board of each turn leaves grades on one side against
  every board a ghost may fight with, and the ghosts' own battles return, there are no more battles than
  the player and the ghosts have health together, whatever the player makes of the shops; then there is
  a place, from first to fourth. No battle fails on the way.
\<close>

theorem match_ends:
  assumes "march_fair march" "bases_graded (bs_codec bases)" "rand_ok rand"
    and "battle_ready bases s" "ms_turn s + total_health s < 256"
    and "total_health s \<le> length cs" "list_all (choice_ok march bases (ms_ghosts s)) cs"
  shows "\<exists>p. play_out march rand bases cs s = Inr (Some p) \<and> 1 \<le> p \<and> p \<le> 4"
  by (rule play_out_ends [OF assms])

definition fight_choice :: turn_choice where
  "fight_choice = \<lparr>tc_board = fight_board, tc_grade = 1, tc_seed = ''5''\<rparr>"

lemma fight_choice_ok:
  "choice_ok (rust_march first_rand 8 0) sample_bases (ms_ghosts sample_match) fight_choice"
proof -
  have "battle_won (rust_march first_rand 8 0) sample_bases fight_board 5 []"
    "\<not> isl (march_gvg (rust_march first_rand 8 0) [] [] 5 (bs_codec sample_bases))"
    "length fight_board \<le> boardSize"
    by code_simp+
  then show ?thesis
    by (simp add: choice_ok_def fight_choice_def parse_5 ghost_boards_def sample_match_def replicate_three)
qed

lemma match_ends_witness:
  "\<exists>p. play_out (rust_march first_rand 8 0) sample_rand sample_bases (replicate 120 fight_choice) sample_match =
     Inr (Some p) \<and> 1 \<le> p \<and> p \<le> 4"
proof (rule match_ends [OF rust_march_fair sample_bases_graded sample_rand_ok])
  show "battle_ready sample_bases sample_match"
    by code_simp
  have "ms_turn sample_match = 2 \<and> total_health sample_match = 120"
    by code_simp
  then show "ms_turn sample_match + total_health sample_match < 256"
    "total_health sample_match \<le> length (replicate 120 fight_choice)"
    by simp_all
  show "list_all (choice_ok (rust_march first_rand 8 0) sample_bases (ms_ghosts sample_match)) (replicate 120 fight_choice)"
    using fight_choice_ok by (simp add: list_all_iff)
qed

text \<open>
  C35 (bounds). In a trial, of which each battle that is finished leaves grades on one side, no page is
  ever past turn 91: the player starts with thirty of health and each ghost with twenty, and such a battle
  takes at least one.
\<close>

theorem trial_is_bounded:
  assumes "(decided_step env march)\<^sup>*\<^sup>* trial_page p"
    and "rand_ok (en_rand env)" "bases_in_order (en_bases env)" "march_fair march"
      "bases_graded (bs_codec (en_bases env))"
  shows "page_turn p \<le> 91"
  using trial_run_bounded [OF assms]
  by (auto simp: trial_ok_def page_ok_def trial_bounded_def page_turn_def split: option.splits Phase.splits)

lemma trial_is_bounded_witness: "page_turn trial_loaded \<le> 91"
  by (rule trial_is_bounded [OF trial_decided_run trial_env_rand _ sample_march_fair])
    (use trial_bases_in_order trial_bases_graded in \<open>simp_all add: trial_env_def\<close>)

section \<open>Transactions and accounts\<close>

text \<open>
  C33 (error). A match on the chain cannot start: after the transaction that starts it, which the player
  has worked for, the page asks the connection for the match, the connection to the chain throws
  \<open>unimplemented\<close>, and the waiting screen stays.
\<close>

theorem chain_match_never_starts:
  assumes "buildConnection api = Inr connection" "account_kind account = Kind_chain"
    and "cn_startMtc connection deck account (Some n) = Inr ()"
    and "cn_playerSeed connection (account_address account) = Inr (Some seed)"
  shows "start connection account deck ep (Some n) p = (throwError ''unimplemented'', setWaiting True p)"
  using assms
  by (auto simp: buildConnection_def mapR_eq_Inr_iff start_def withToggleAsync_def start_state_def getSeed_def)

definition chain_account :: "unit Account" where
  "chain_account = Account_chain ''me'' \<lparr>ap_address = ''me'', ap_powCount = 0, ap_signer = ()\<rparr>
     \<lparr>as_address = ''session'', as_mnemonic = ''words'', as_powCount = 0, as_isActive = False\<rparr>"

definition sample_api :: "unit chain_api" where
  "sample_api = \<lparr>ca_emoBases = Some [(4, sample_base 4)], ca_deckFixedEmoBaseIds = Some [],
     ca_deckBuiltEmoBaseIds = Some [4], ca_playerEp = (\<lambda>_. None), ca_playerSeed = (\<lambda>_. Some 5),
     ca_tx = (\<lambda>_ _ _. Inr ()), ca_encodeAddress = (\<lambda>a. a)\<rparr>"

lemma chain_match_never_starts_witness:
  "start (projr (buildConnection sample_api)) chain_account [] 300 (Some 7) (initial_page (Some chain_account)) =
     (throwError ''unimplemented'', setWaiting True (initial_page (Some chain_account)))"
  by (rule chain_match_never_starts [of sample_api _ _ _ _ 5])
    (simp_all add: buildConnection_def sample_api_def chain_account_def chain_startMtc_def deck_codec_def)


text \<open>
  The account the screens work with after the setup is one of the extension's accounts and
  of the kind of the connection, whether it was there before or is new.
\<close>

theorem account_is_of_the_extension:
  assumes "setupAccounts web3 connection account = Inr (Inr (a, extensionAccounts))"
  shows "account_address a \<in> ea_address ` set extensionAccounts \<and> account_kind a = cn_kind connection"
  using setupAccounts_address [OF assms] by simp

definition sample_web3 :: "unit web3" where
  "sample_web3 = \<lparr>wb_extensions = 1, wb_accounts = [\<lparr>ea_address = ''me'', ea_name = Some ''''\<rparr>],
     wb_signer = (\<lambda>_. Inr ()), wb_mnemonic = ''words'', wb_pair_address = (\<lambda>m. m), wb_powCount = (\<lambda>_. Inr None)\<rparr>"

lemma account_is_of_the_extension_witness:
  "account_address contract_account \<in> ea_address ` set [\<lparr>ea_address = ''me'', ea_name = None\<rparr>] \<and>
   account_kind contract_account = cn_kind trial_connection"
  by (rule account_is_of_the_extension [of sample_web3 trial_connection "Some (Account_contract ''old'' ())"])
    (simp add: setupAccounts_def sample_web3_def trial_connection_def setupExtension_def buildExtensionAccounts_def
      generateAccount_def contract_account_def)

section \<open>The catalog and the pool\<close>

text \<open>
  A catalog is found exactly when the pool has 35 emojis off the board; it then has five
  lines of seven emojis each, all of the pool and off the board, none drawn twice.
\<close>

theorem catalog_is_drawn_from_the_pool:
  assumes "rand_ok rand"
  shows "if 35 \<le> length (off_board pool board)
    then \<exists>catalog. get_catalog rand pool board seed = Inr catalog \<and> length catalog = 5 \<and>
      list_all (\<lambda>l. length l = 7) catalog \<and> mset (concat catalog) \<subseteq># mset (off_board pool board)
    else get_catalog rand pool board seed = throwError ''catalog failed''"
  by (rule get_catalog_cases [OF assms])

lemma catalog_is_drawn_from_the_pool_witness:
  "\<exists>catalog. get_catalog sample_rand (map (\<lambda>i. \<lparr>me_id = word_of_nat i, me_base_id = 4\<rparr>) [0..<40]) [] 5 =
      Inr catalog \<and> length catalog = 5"
  using catalog_is_drawn_from_the_pool [OF sample_rand_ok,
      of "map (\<lambda>i. \<lparr>me_id = word_of_nat i, me_base_id = 4\<rparr>) [0..<40]" "[]" 5]
  by (auto simp: off_board_def)

text \<open>
  A pool that is built numbers its emojis from one upward, without a gap (as 16-bit
  numbers), and holds the selected bases and then the fixed ones, each as often as its grade has it.
\<close>

theorem pool_is_numbered:
  assumes "build_pool selected bases fixed built = Inr pool"
  shows "map me_id pool = map word_of_nat [1..<Suc (length pool)] \<and>
    (\<exists>ids bs. build_built_base_ids selected bases built = Inr ids \<and>
      pool_bases bases (ids @ fixed) = Inr bs \<and> map me_base_id pool = bs)"
  using build_pool_ids [OF assms] by blast

definition graded_base :: "nat \<Rightarrow> emo_Base" where
  "graded_base i = (sample_base (word_of_nat i))\<lparr>eb_grade := word_of_nat i\<rparr>"

definition graded_bases :: emo_Bases where
  "graded_bases = map (\<lambda>i. (word_of_nat i, graded_base i)) [1..<7]"

lemma pool_is_numbered_witness:
  "\<exists>pool. build_pool [1, 2, 3, 4, 5, 6] graded_bases [1] [1, 2, 3, 4, 5, 6] = Inr pool \<and>
    map me_id pool = map word_of_nat [1..<41]"
proof -
  have "case build_pool [1, 2, 3, 4, 5, 6] graded_bases [1] [1, 2, 3, 4, 5, 6] of
      Inl e \<Rightarrow> False | Inr pool \<Rightarrow> length pool = 40"
    by code_simp
  then obtain pool where p: "build_pool [1, 2, 3, 4, 5, 6] graded_bases [1] [1, 2, 3, 4, 5, 6] = Inr pool"
      "length pool = 40"
    by (auto split: sum.splits)
  show ?thesis
    using pool_is_numbered [OF p(1)] p by simp
qed

text \<open>
  A default deck of six emojis, as the front proposes it, is accepted by the module
  when a pool is built from it: all its bases are allowed and no grade occurs twice.
\<close>

theorem default_deck_is_accepted:
  assumes "bases_ok codec" "getDefaultDeck (buildEmoBases codec) ids = Inr deck" "length deck = 6"
  shows "build_built_base_ids (map toUint16 deck) codec (map toUint16 ids) = Inr (map toUint16 deck)"
  by (rule default_deck_built [OF assms])

lemma default_deck_is_accepted_witness:
  "build_built_base_ids [1, 2, 3, 4, 5, 6] graded_bases [6, 5, 4, 3, 2, 1] = Inr [1, 2, 3, 4, 5, 6]"
proof -
  have "bases_ok graded_bases" "getDefaultDeck (buildEmoBases graded_bases) (map show_nat [6, 5, 4, 3, 2, 1]) =
      Inr (map show_nat [1, 2, 3, 4, 5, 6])"
    by code_simp+
  moreover have "map toUint16 (map show_nat [6, 5, 4, 3, 2, 1]) = [6, 5, 4, 3, 2, 1]"
    "map toUint16 (map show_nat [1, 2, 3, 4, 5, 6]) = [1, 2, 3, 4, 5, 6]"
    by code_simp+
  ultimately show ?thesis
    using default_deck_is_accepted [of graded_bases "map show_nat [6, 5, 4, 3, 2, 1]"
        "map show_nat [1, 2, 3, 4, 5, 6]"] by simp
qed

section \<open>Fees paid by work\<close>

text \<open>
  C23 (safety). A solution the front finds for a player is paid with: the tip \<open>extractTxArgs\<close> makes
  of it (\<open>common/js/src/utils.ts\<close>) is read by the chain as a payment by work with that very
  solution, and the chain's \<open>check_solution\<close> accepts it for the player and the count it was
  solved for. The hypothesis on the solver is what its documentation promises: a hash it reports
  is below the threshold and is that of the buffer with its last eight bytes replaced.
\<close>

theorem work_is_accepted:
  assumes "solver_ok blake2b solver" "length publicKey = 32" "who \<noteq> sudo_key"
    and "solvePowPure solver publicKey (unat c) = Inr solution"
    and "extractTxArgs account (Some (getPowSolutionBNFromBytes solution)) = (pair, options)"
  shows "\<exists>tip s. so_tip options = Some tip \<and>
    which_payment_kind sudo_key who (word_of_nat tip) = PaymentKind_Pow s \<and>
    check_solution blake2b publicKey c s"
proof -
  let ?s = "getPowSolutionBNFromBytes solution"
  have "length solution = 8" and ok: "check_solution blake2b publicKey c (word_of_nat ?s)"
    using solvePowPure_accepted [OF assms(1,2,4)] by blast+
  then have "?s < 2 ^ 64"
    using getPowSolutionBN_less [of solution] by simp
  then have "which_payment_kind sudo_key who (word_of_nat (2 ^ 127 + ?s)) = PaymentKind_Pow (word_of_nat ?s)"
    by (rule which_payment_kind_tip [OF assms(3)])
  moreover have "so_tip options = Some (2 ^ 127 + ?s)"
    using assms(5) by (auto simp: extractTxArgs_def Let_def split: account_arg.splits)
  ultimately show ?thesis
    using ok by blast
qed

definition zero_hash :: "u8 list \<Rightarrow> u8 list" where
  "zero_hash input = replicate 32 0"

definition zero_solver :: "u8 list \<Rightarrow> nat \<Rightarrow> u8 list \<times> u8 list" where
  "zero_solver buffer threshold =
     (take 120 buffer @ replicate 8 7, if threshold = 0 then [] else zero_hash buffer)"

lemma work_is_accepted_witness:
  "\<exists>tip s. so_tip (snd (extractTxArgs (KeyringPair (1::nat) :: (nat, nat) account_arg)
        (Some (getPowSolutionBNFromBytes (replicate 8 7))))) = Some tip \<and>
    which_payment_kind (0::nat) 1 (word_of_nat tip) = PaymentKind_Pow s \<and>
    check_solution zero_hash (replicate 32 9) 5 s"
proof (rule work_is_accepted [where solver = zero_solver])
  show "solver_ok zero_hash zero_solver"
    by (auto simp: solver_ok_def zero_solver_def zero_hash_def from_le_bytes_def replicate_eq_replicate
        take_replicate split: if_splits)
  show "solvePowPure zero_solver (replicate 32 9) (unat (5 :: u32)) = Inr (replicate 8 7)"
    by (simp add: solvePowPure_def pow_buffer_layout zero_solver_def zero_hash_def slice_last_def
        PowThreshold_def)
  show "extractTxArgs (KeyringPair 1 :: (nat, nat) account_arg)
      (Some (getPowSolutionBNFromBytes (replicate 8 7))) = (fst (extractTxArgs (KeyringPair 1 :: (nat, nat) account_arg)
      (Some (getPowSolutionBNFromBytes (replicate 8 7)))), snd (extractTxArgs (KeyringPair 1 :: (nat, nat) account_arg)
      (Some (getPowSolutionBNFromBytes (replicate 8 7)))))"
    by simp
qed simp_all

text \<open>
  C24 (roundtrip). The Base64 codec the solver's module is shipped with (\<open>common/js/src/pow/base64.ts\<close>)
  decodes what it encodes, as long as three quarters of the text's length are computed without
  overflow: \<open>(len * 3) >>> 2\<close> is right up to 2^28 bytes.
\<close>

theorem base64_roundtrip:
  assumes "length bytes < 2 ^ 28"
  shows "decode (encode bytes) = Inr bytes"
  by (rule decode_encode [OF assms])

lemma base64_roundtrip_witness: "decode (encode [77, 97, 110, 255]) = Inr [77, 97, 110, 255]"
  by (rule base64_roundtrip) simp

section \<open>Texts of abilities\<close>

text \<open>
  C40 (error). The text of an ability, however deep its nesting, is built exactly when every emoji it
  mentions has a base and a name; no other part of an ability can make it fail.
\<close>

theorem ability_text_exists_iff:
  "(\<exists>t. buildEmoAbilityText json emoNames ability isTriple bases = Inr t) \<longleftrightarrow>
   (\<forall>b. Mention_Base b \<in> set (ability_mentions ability) \<longrightarrow> nameable emoNames bases b)"
  by (rule texts_ok(5))

lemma ability_text_exists_iff_witness:
  "\<not> (\<exists>t. buildEmoAbilityText (\<lambda>_. '''') (\<lambda>_. Some ''x'')
     (Ability_Shop (Shop_Pre (Pre_Normal (ShopNormalAction_SetEmo (emo_ability_shop_NormalAction_SetEmo 3)))))
     True (buildEmoBases []) = Inr t)"
  unfolding ability_text_exists_iff
  by (simp add: nameable_def emoName_def findEmoBase_eq jsmap_wf_def)

text \<open>
  The text of an ability depends on the fallback \<open>JSON.stringify\<close> only at the
  values \<open>ability_mentions\<close> lists: two fallbacks that agree there give the same text, so an ability
  that lists none has a text of its own.
\<close>

theorem ability_text_fallbacks:
  assumes "json_agree json json' (ability_mentions ability)"
  shows "buildEmoAbilityText json emoNames ability isTriple bases =
    buildEmoAbilityText json' emoNames ability isTriple bases"
  by (rule texts_cong(5) [OF assms])

lemma ability_text_fallbacks_witness:
  "buildEmoAbilityText (\<lambda>_. ''a'') (\<lambda>_. None)
     (Ability_Battle (Battle_Special Special_Shield)) True (buildEmoBases []) =
   buildEmoAbilityText (\<lambda>_. ''b'') (\<lambda>_. None)
     (Ability_Battle (Battle_Special Special_Shield)) True (buildEmoBases [])"
  by (rule ability_text_fallbacks) (simp add: json_agree_def battle_mentions_def)


section \<open>Emojis' bases and decks\<close>

text \<open>
  The bases a script loads (\<open>loadEmoBases\<close>, \<open>common/js/src/scriptUtils.ts\<close>) are those the
  front finds by their number once it has indexed them by text (\<open>buildEmoBases\<close>, \<open>findEmoBase\<close>).
\<close>

theorem loaded_bases_are_found:
  assumes "loadEmoBases bs = Inr codec"
  shows "findEmoBase id' (buildEmoBases codec) =
    (case find (\<lambda>b. eb_id b = id') bs of
       None \<Rightarrow> throwError (''emo base not found: '' @ toStringU id') | Some b \<Rightarrow> Inr b)"
proof -
  from assms have d: "distinct (map eb_id bs)" and c: "codec = map (\<lambda>b. (eb_id b, b)) bs"
    by (simp_all add: loadEmoBases_ok_iff)
  then have "jsmap_wf codec" by (simp add: jsmap_wf_def comp_def)
  moreover have "jsmap_get codec id' = find (\<lambda>b. eb_id b = id') bs"
    by (simp add: c) (induction bs, auto)
  ultimately show ?thesis
    by (simp add: findEmoBase_eq)
qed

lemma loaded_bases_are_found_witness:
  "findEmoBase 5 (buildEmoBases [(4, sample_base 4), (5, sample_base 5)]) = Inr (sample_base 5)"
  by (subst loaded_bases_are_found [where bs = "[sample_base 4, sample_base 5]"])
    (simp_all add: loadEmoBases_ok_iff sample_base_def)

text \<open>
  \<open>loadEmoBases\<close> raises exactly when two bases have the same id, and otherwise keeps every
  base under its id, in order.
\<close>

theorem load_rejects_duplicates:
  "loadEmoBases bs = Inr codec \<longleftrightarrow> distinct (map eb_id bs) \<and> codec = map (\<lambda>b. (eb_id b, b)) bs"
  by (rule loadEmoBases_ok_iff)

text \<open>
  A default deck has one emoji for each grade of the build, the first of that grade,
  in strictly increasing grade, and every id of the build has a base.
\<close>

theorem default_deck:
  assumes "getDefaultDeck bases ids = Inr deck"
  shows "\<exists>gs :: (string \<times> emo_Base list) list. deck = map (\<lambda>(_, ms). toStringU (eb_id (hd ms))) gs \<and>
    sorted_wrt (<) (map grade_order gs) \<and>
    list_all (\<lambda>(g, ms). ms \<noteq> [] \<and> list_all (\<lambda>m. toStringU (eb_grade m) = g) ms) gs \<and>
    (\<exists>ms. list_all2 (\<lambda>i m. findEmoBaseByStringId i bases = Inr m) ids ms \<and>
       toNumber ` eb_grade ` set ms = set (map grade_order gs))"
proof -
  from assms obtain gs where gs: "groupEmoBasesByGrades bases ids = Inr gs"
    and deck: "deck = map (\<lambda>(_, ms). toStringU (eb_id (hd ms))) gs"
    by (rule getDefaultDeck_Inr)
  have "sorted_wrt (<) (map grade_order gs)"
    using grades_sorted [OF gs] by (metis strict_sorted_iff)
  moreover have "list_all (\<lambda>(g, ms). ms \<noteq> [] \<and> list_all (\<lambda>m. toStringU (eb_grade m) = g) ms) gs"
    using group_of_grade(1,2) [OF gs] by (auto simp: list_all_iff)
  moreover have "\<exists>ms. list_all2 (\<lambda>i m. findEmoBaseByStringId i bases = Inr m) ids ms \<and>
       toNumber ` eb_grade ` set ms = set (map grade_order gs)"
    using set_groups_grades [OF gs] by blast
  ultimately show ?thesis
    using deck by (intro exI [of _ gs] conjI)
qed

text \<open>
  Only the grades 1 to 6 have a text; any other raises.
\<close>

theorem grade_texts: "(\<exists>t. getGradeText (show_nat g) = Inr t) \<longleftrightarrow> 1 \<le> g \<and> g \<le> 6"
  by (rule getGradeText_ok_iff)

lemma default_deck_witness:
  "\<exists>gs :: (string \<times> emo_Base list) list. [''4''] = map (\<lambda>(_, ms). toStringU (eb_id (hd ms))) gs \<and>
    sorted_wrt (<) (map grade_order gs) \<and>
    list_all (\<lambda>(g, ms). ms \<noteq> [] \<and> list_all (\<lambda>m. toStringU (eb_grade m) = g) ms) gs \<and>
    (\<exists>ms. list_all2 (\<lambda>i m. findEmoBaseByStringId i
          (buildEmoBases [(4, sample_base 4), (5, sample_base 5)]) = Inr m) [''4'', ''5''] ms \<and>
       toNumber ` eb_grade ` set ms = set (map grade_order gs))"
  by (rule default_deck) code_simp

text \<open>
  Different code points give different emojis, and only a code point below 0x110000
  gives one (\<open>String.fromCodePoint\<close> in \<open>getEmoBaseEmoji\<close>).
\<close>

theorem emoji_of_code_point:
  assumes "getEmoBaseEmoji b = Inr s" "getEmoBaseEmoji b' = Inr s"
  shows "eb_codepoint b = eb_codepoint b' \<and> toNumber (eb_codepoint b) < 0x110000"
  using assms fromCodePoint_inject [of _ s] fromCodePoint_ok_iff
  by (metis getEmoBaseEmoji_def word_unat_eq_iff)

lemma emoji_of_code_point_witness:
  "eb_codepoint (sample_base 4) = eb_codepoint (sample_base 5) \<and>
   toNumber (eb_codepoint (sample_base 4)) < 0x110000"
  by (rule emoji_of_code_point [where s = "''A''"]; code_simp)

section \<open>Helpers\<close>

text \<open>
  A shuffle (\<open>shuffleArray\<close>) rearranges its array, whatever \<open>Math.random\<close> returns;
  and every rearrangement of an array without duplicates comes from exactly one choice of the drawn
  indexes, so that evenly drawn indexes give evenly drawn arrays.
\<close>

theorem shuffle_is_fair:
  assumes "\<forall>i. 0 \<le> rnd i \<and> rnd i < 1" "distinct xs" "mset ys = mset xs"
  shows "mset (shuffleArray rnd xs) = mset xs \<and>
    (\<exists>!pick. (\<forall>i. pick i \<le> i) \<and> (\<forall>i\<ge>length xs. pick i = 0) \<and>
      shuffle_rounds pick (length xs - 1) xs = ys)"
proof
  have "\<forall>i. random_index rnd i \<le> i"
    using assms(1) random_index_le by blast
  then show "mset (shuffleArray rnd xs) = mset xs"
    by (cases "xs = []") (simp_all add: shuffleArray_def mset_shuffle_rounds)
  show "\<exists>!pick. (\<forall>i. pick i \<le> i) \<and> (\<forall>i\<ge>length xs. pick i = 0) \<and>
      shuffle_rounds pick (length xs - 1) xs = ys"
  proof (cases "xs = []")
    case True
    then show ?thesis
      using assms(3) by (auto intro!: ex1I [of _ "\<lambda>_. 0"])
  next
    case False
    have len: "length ys = length xs" using assms(3) by (metis size_mset)
    then have "\<forall>k. length xs - 1 < k \<and> k < length xs \<longrightarrow> ys ! k = xs ! k" by auto
    with len False assms(3) obtain p where p: "\<forall>i. p i \<le> i" "shuffle_rounds p (length xs - 1) xs = ys"
      using shuffle_rounds_surj [of "length xs - 1" xs ys] by force
    let ?p = "\<lambda>i. if i < length xs then p i else 0"
    have "0 < length xs" using False by simp
    then have "shuffle_rounds ?p (length xs - 1) xs = shuffle_rounds p (length xs - 1) xs"
      by (intro shuffle_rounds_cong) auto
    then have "shuffle_rounds ?p (length xs - 1) xs = ys" using p(2) by simp
    moreover have "pick = ?p" if q: "\<forall>i. pick i \<le> i" "\<forall>i\<ge>length xs. pick i = 0"
      "shuffle_rounds pick (length xs - 1) xs = ys" for pick
    proof
      fix i
      have "pick 0 = 0" "p 0 = 0" using p(1) q(1) by (metis le_zero_eq)+
      then show "pick i = ?p i"
        using shuffle_rounds_inject [OF assms(2), of "length xs - 1" pick p i] p q False
        by (cases "i = 0") auto
    qed
    ultimately show ?thesis
      using p(1) by (intro ex1I [of _ ?p]) auto
  qed
qed

lemma shuffle_is_fair_witness:
  "mset (shuffleArray (\<lambda>_. 1 / 2) [1::nat, 2, 3]) = mset [1, 2, 3] \<and>
   (\<exists>!pick. (\<forall>i. pick i \<le> i) \<and> (\<forall>i\<ge>length [1::nat, 2, 3]. pick i = 0) \<and>
     shuffle_rounds pick (length [1::nat, 2, 3] - 1) [1::nat, 2, 3] = [3, 1, 2])"
  by (rule shuffle_is_fair) simp_all

text \<open>
  \<open>groupBy\<close> with a key that depends on the element alone: the keys are those of the
  elements, each once and in the order of their first elements; a group holds the elements of its key
  in order; and no element is lost or repeated.
\<close>

theorem groups_partition:
  fixes f :: "'v \<Rightarrow> 'k"
  shows "map fst (groupBy array (\<lambda>v _ _. f v)) = uniqueArray (map f array) \<and>
    ((k, vs) \<in> set (groupBy array (\<lambda>v _ _. f v)) \<longleftrightarrow> vs = filter (\<lambda>v. f v = k) array \<and> k \<in> f ` set array) \<and>
    mset (concat (map snd (groupBy array (\<lambda>v _ _. f v)))) = mset array"
  by (simp only: groupBy_keys groupBy_group mset_groupBy simp_thms)

text \<open>
  \<open>checkArraysEquality\<close>, which compares lengths and then elements in turn, decides
  equality.
\<close>

theorem arrays_are_compared: "checkArraysEquality a b \<longleftrightarrow> a = b"
  by (rule checkArraysEquality_iff)

text \<open>
  \<open>withToggleAsync\<close> leaves the toggle on when its action fails: the screen that waits for
  a transaction keeps waiting when the transaction is refused.
\<close>

theorem toggle_stays_on:
  "withToggleAsync (\<lambda>b _. b) (\<lambda>s. (r, s)) False = (r, case r of Inl e \<Rightarrow> True | Inr a \<Rightarrow> False)"
  by (simp add: withToggleAsync_def split: sum.splits)

section \<open>Types of the wire\<close>

text \<open>
  The definitions that are kept for polkadot-js (\<open>_definitions.json\<close>) are what the
  generator makes of \<open>codecTypesDefs.ts\<close>: every entry, in order, none overwritten by another.
\<close>

theorem generated_definitions_are_current: "ts_object = definitions_json"
  by (rule ts_object_entries)

text \<open>
  The five rewritings of a type's name, for the wrappers \<open>Vec\<close>, arrays, \<open>BTreeMap\<close>,
  \<open>Option\<close> and \<open>Box\<close>, amount to one: every \<open>::\<close> becomes an underscore, wherever it stands.
\<close>

theorem names_are_rewritten: "buildTsValue name = replace_colons name"
  by (rule buildTsValue_eq)

end
